(* ===== verification/Rust_Prelude.thy ===== *)
theory Rust_Prelude
  imports Main "HOL-Library.Word" "HOL-Library.Char_ord" "HOL-Library.List_Lexorder"
    "HOL-Library.Product_Lexorder" "HOL-Library.Multiset"
begin

text \<open>
  The part of Rust's core library that the modelled crates use: fixed-width integer
  operations written out on \<^typ>\<open>nat\<close> and \<^typ>\<open>int\<close>, byte strings, comparators
  (\<open>cmp\<close>, \<open>then_with\<close>), the stable \<open>sort_by\<close> and the iterator's \<open>max_by\<close>.

  A Rust \<^verbatim>\<open>str\<close> is the list of its UTF-8 bytes, a \<^typ>\<open>string\<close>; its order is the
  lexicographic order of the bytes, which the imported theories \<open>Char_ord\<close> and
  \<open>List_Lexorder\<close> give. Tuples are ordered lexicographically (\<open>Product_Lexorder\<close>).
  The locale \<open>total_cmp\<close> is the contract Rust demands of a comparator; the
  correctness of sorting and of \<open>max_by\<close> is proved in it once.
\<close>

section \<open>Fixed-width integers\<close>

named_theorems rust_int \<open>unfolding rules of the fixed-width integer operations\<close>

definition u64_max :: nat where
  [rust_int]: "u64_max = 2 ^ 64 - 1"

definition u8_max :: nat where
  [rust_int]: "u8_max = 255"

definition u64_saturating_add :: "nat \<Rightarrow> nat \<Rightarrow> nat" where
  [rust_int]: "u64_saturating_add a b = min (a + b) u64_max"

definition u8_saturating_add :: "nat \<Rightarrow> nat \<Rightarrow> nat" where
  [rust_int]: "u8_saturating_add a b = min (a + b) u8_max"

definition u64_wrapping_add :: "nat \<Rightarrow> nat \<Rightarrow> nat" where
  [rust_int]: "u64_wrapping_add a b = (a + b) mod 2 ^ 64"

definition u64_checked_add :: "nat \<Rightarrow> nat \<Rightarrow> nat option" where
  [rust_int]: "u64_checked_add a b = (if a + b < 2 ^ 64 then Some (a + b) else None)"

definition u128_checked_add :: "nat \<Rightarrow> nat \<Rightarrow> nat option" where
  [rust_int]: "u128_checked_add a b = (if a + b < 2 ^ 128 then Some (a + b) else None)"

definition i64_min :: int where
  [rust_int]: "i64_min = - (2 ^ 63)"

definition i64_max :: int where
  [rust_int]: "i64_max = 2 ^ 63 - 1"

definition i64_checked :: "int \<Rightarrow> int option" where
  [rust_int]: "i64_checked v = (if i64_min \<le> v \<and> v \<le> i64_max then Some v else None)"

lemma u128_checked_add_Some [simp]:
  "u128_checked_add a b = Some c \<longleftrightarrow> a + b < 2 ^ 128 \<and> c = a + b"
  by (auto simp: u128_checked_add_def)

lemma u64_checked_add_Some [simp]:
  "u64_checked_add a b = Some c \<longleftrightarrow> a + b < 2 ^ 64 \<and> c = a + b"
  by (auto simp: u64_checked_add_def)

lemma i64_checked_Some [simp]:
  "i64_checked v = Some w \<longleftrightarrow> i64_min \<le> v \<and> v \<le> i64_max \<and> w = v"
  by (auto simp: i64_checked_def)

lemma u64_saturating_add_le: "a \<le> u64_max \<Longrightarrow> a \<le> u64_saturating_add a b"
  by (simp add: u64_saturating_add_def)

section \<open>Options\<close>

definition is_some_and :: "'a option \<Rightarrow> ('a \<Rightarrow> bool) \<Rightarrow> bool" where
  "is_some_and x P = (case x of None \<Rightarrow> False | Some v \<Rightarrow> P v)"

definition is_none_or :: "'a option \<Rightarrow> ('a \<Rightarrow> bool) \<Rightarrow> bool" where
  "is_none_or x P = (case x of None \<Rightarrow> True | Some v \<Rightarrow> P v)"

definition unwrap_or :: "'a option \<Rightarrow> 'a \<Rightarrow> 'a" where
  "unwrap_or x d = (case x of None \<Rightarrow> d | Some v \<Rightarrow> v)"

definition opt_or :: "'a option \<Rightarrow> 'a option \<Rightarrow> 'a option" where
  "opt_or x y = (case x of None \<Rightarrow> y | Some v \<Rightarrow> Some v)"

text \<open>Rust orders \<open>None\<close> below every \<open>Some\<close>.\<close>

definition opt_max :: "'a::linorder option \<Rightarrow> 'a option \<Rightarrow> 'a option" where
  "opt_max x y = (case x of None \<Rightarrow> y
     | Some a \<Rightarrow> (case y of None \<Rightarrow> Some a | Some b \<Rightarrow> Some (max a b)))"

definition opt_le :: "'a::linorder option \<Rightarrow> 'a option \<Rightarrow> bool" where
  "opt_le x y = (case x of None \<Rightarrow> True
     | Some a \<Rightarrow> (case y of None \<Rightarrow> False | Some b \<Rightarrow> a \<le> b))"

lemma is_some_and_simps [simp]:
  "is_some_and None P = False" "is_some_and (Some v) P = P v"
  by (simp_all add: is_some_and_def)

lemma is_none_or_simps [simp]:
  "is_none_or None P = True" "is_none_or (Some v) P = P v"
  by (simp_all add: is_none_or_def)

lemma unwrap_or_simps [simp]:
  "unwrap_or None d = d" "unwrap_or (Some v) d = v"
  by (simp_all add: unwrap_or_def)

lemma opt_or_simps [simp]:
  "opt_or None y = y" "opt_or (Some v) y = Some v"
  by (simp_all add: opt_or_def)

lemma opt_max_simps [simp]:
  "opt_max None y = y" "opt_max x None = x" "opt_max (Some a) (Some b) = Some (max a b)"
  by (simp_all add: opt_max_def split: option.splits)

lemma is_some_and_iff: "is_some_and x P \<longleftrightarrow> (\<exists>v. x = Some v \<and> P v)"
  by (cases x) auto

text \<open>The iterator's \<open>min\<close> and \<open>max\<close>: \<open>None\<close> for an empty iterator.\<close>

fun list_min :: "'a::linorder list \<Rightarrow> 'a option" where
  "list_min [] = None"
| "list_min (x # xs) = (case list_min xs of None \<Rightarrow> Some x | Some m \<Rightarrow> Some (min x m))"

fun list_max :: "'a::linorder list \<Rightarrow> 'a option" where
  "list_max [] = None"
| "list_max (x # xs) = (case list_max xs of None \<Rightarrow> Some x | Some m \<Rightarrow> Some (max x m))"

lemma list_min_None [simp]: "list_min xs = None \<longleftrightarrow> xs = []"
  by (cases xs) (auto split: option.splits)

lemma list_minD: "list_min xs = Some m \<Longrightarrow> m \<in> set xs \<and> (\<forall>x \<in> set xs. m \<le> x)"
  by (induction xs arbitrary: m) (fastforce simp: min_def split: option.splits if_splits)+

lemma list_min_Some: "list_min xs = Some m \<longleftrightarrow> m \<in> set xs \<and> (\<forall>x \<in> set xs. m \<le> x)"
  by (cases "list_min xs") (auto dest!: list_minD intro: antisym)

lemma list_max_None [simp]: "list_max xs = None \<longleftrightarrow> xs = []"
  by (cases xs) (auto split: option.splits)

lemma list_maxD: "list_max xs = Some m \<Longrightarrow> m \<in> set xs \<and> (\<forall>x \<in> set xs. x \<le> m)"
  by (induction xs arbitrary: m) (fastforce simp: max_def split: option.splits if_splits)+

lemma list_max_Some: "list_max xs = Some m \<longleftrightarrow> m \<in> set xs \<and> (\<forall>x \<in> set xs. x \<le> m)"
  by (cases "list_max xs") (auto dest!: list_maxD intro: antisym)

text \<open>\<open>Iterator::try_fold\<close>, and a \<open>for\<close> loop whose body may leave the function by \<open>?\<close>.\<close>

fun try_fold :: "('a \<Rightarrow> 's \<Rightarrow> 's option) \<Rightarrow> 'a list \<Rightarrow> 's \<Rightarrow> 's option" where
  "try_fold f [] s = Some s"
| "try_fold f (x # xs) s = Option.bind (f x s) (try_fold f xs)"

lemma try_fold_append: "try_fold f (xs @ ys) s = Option.bind (try_fold f xs s) (try_fold f ys)"
  by (induction xs arbitrary: s) (auto split: Option.bind_split)

text \<open>The invariant rule of such a loop: what holds of the prefix already visited.\<close>

lemma try_fold_inv:
  assumes "try_fold f xs s = Some t" "P [] s"
    and "\<And>ys y u v. P ys u \<Longrightarrow> f y u = Some v \<Longrightarrow> y \<in> set xs \<Longrightarrow> P (ys @ [y]) v"
  shows "P xs t"
  using assms
proof (induction xs arbitrary: t rule: rev_induct)
  case (snoc x xs)
  from snoc.prems(1) obtain u where u: "try_fold f xs s = Some u" "f x u = Some t"
    by (auto simp: try_fold_append bind_eq_Some_conv split: option.splits)
  have "P xs u" using snoc.IH [OF u(1) snoc.prems(2)] snoc.prems(3) by simp
  then show ?case using snoc.prems(3) u(2) by simp
qed simp

text \<open>\<open>filter_map\<close> of an iterator.\<close>

abbreviation filter_map :: "('a \<Rightarrow> 'b option) \<Rightarrow> 'a list \<Rightarrow> 'b list" where
  "filter_map \<equiv> List.map_filter"

lemma set_filter_map: "y \<in> set (filter_map f xs) \<longleftrightarrow> (\<exists>x \<in> set xs. f x = Some y)"
  by (auto simp: List.map_filter_def image_iff)

section \<open>Byte strings\<close>

abbreviation byte :: "char \<Rightarrow> nat" where
  "byte c \<equiv> of_char c"

definition ascii_upper :: "char \<Rightarrow> bool" where
  "ascii_upper c = (65 \<le> byte c \<and> byte c \<le> 90)"

definition ascii_lower :: "char \<Rightarrow> bool" where
  "ascii_lower c = (97 \<le> byte c \<and> byte c \<le> 122)"

definition ascii_digit :: "char \<Rightarrow> bool" where
  "ascii_digit c = (48 \<le> byte c \<and> byte c \<le> 57)"

definition ascii_alphanumeric :: "char \<Rightarrow> bool" where
  "ascii_alphanumeric c = (ascii_upper c \<or> ascii_lower c \<or> ascii_digit c)"

definition byte_to_lower :: "char \<Rightarrow> char" where
  "byte_to_lower c = (if ascii_upper c then char_of (byte c + 32) else c)"

definition byte_to_upper :: "char \<Rightarrow> char" where
  "byte_to_upper c = (if ascii_lower c then char_of (byte c - 32) else c)"

definition to_ascii_lowercase :: "string \<Rightarrow> string" where
  "to_ascii_lowercase s = map byte_to_lower s"

definition to_ascii_uppercase :: "string \<Rightarrow> string" where
  "to_ascii_uppercase s = map byte_to_upper s"

definition eq_ignore_ascii_case :: "string \<Rightarrow> string \<Rightarrow> bool" where
  "eq_ignore_ascii_case a b = (to_ascii_lowercase a = to_ascii_lowercase b)"

lemma byte_to_lower_idem [simp]: "byte_to_lower (byte_to_lower c) = byte_to_lower c"
  by (auto simp: byte_to_lower_def ascii_upper_def of_char_of)

lemma to_ascii_lowercase_idem [simp]:
  "to_ascii_lowercase (to_ascii_lowercase s) = to_ascii_lowercase s"
  by (simp add: to_ascii_lowercase_def)

lemma to_ascii_lowercase_Nil [simp]: "to_ascii_lowercase s = [] \<longleftrightarrow> s = []"
  by (simp add: to_ascii_lowercase_def)

lemma eq_ignore_ascii_case_refl [simp]: "eq_ignore_ascii_case a a"
  by (simp add: eq_ignore_ascii_case_def)

lemma eq_ignore_ascii_case_sym: "eq_ignore_ascii_case a b = eq_ignore_ascii_case b a"
  by (auto simp: eq_ignore_ascii_case_def)

text \<open>
  \<open>char::is_whitespace\<close> is Unicode's White\_Space property. Its members are single
  bytes, or fixed sequences of two or three UTF-8 bytes.
\<close>

definition is_whitespace_bytes :: "nat list \<Rightarrow> bool" where
  "is_whitespace_bytes bs =
     (case bs of
        [b] \<Rightarrow> b = 32 \<or> (9 \<le> b \<and> b \<le> 13)
      | [b, c] \<Rightarrow> b = 194 \<and> (c = 133 \<or> c = 160)
      | [b, c, d] \<Rightarrow> (b = 225 \<and> c = 154 \<and> d = 128)
          \<or> (b = 226 \<and> c = 128 \<and> ((128 \<le> d \<and> d \<le> 138) \<or> d = 168 \<or> d = 169 \<or> d = 175))
          \<or> (b = 226 \<and> c = 129 \<and> d = 159)
          \<or> (b = 227 \<and> c = 128 \<and> d = 128)
      | _ \<Rightarrow> False)"

text \<open>The number of bytes of the whitespace character a string starts (ends) with, or 0.\<close>

definition leading_ws :: "string \<Rightarrow> nat" where
  "leading_ws s =
     (if is_whitespace_bytes (map byte (take 1 s)) then 1
      else if is_whitespace_bytes (map byte (take 2 s)) then 2
      else if is_whitespace_bytes (map byte (take 3 s)) then 3 else 0)"

definition trailing_ws :: "string \<Rightarrow> nat" where
  "trailing_ws s =
     (if is_whitespace_bytes (map byte (rev (take 1 (rev s)))) then 1
      else if is_whitespace_bytes (map byte (rev (take 2 (rev s)))) then 2
      else if is_whitespace_bytes (map byte (rev (take 3 (rev s)))) then 3 else 0)"

lemma leading_ws_Nil [simp]: "leading_ws [] = 0"
  by (simp add: leading_ws_def is_whitespace_bytes_def)

lemma trailing_ws_Nil [simp]: "trailing_ws [] = 0"
  by (simp add: trailing_ws_def is_whitespace_bytes_def)

lemma leading_ws_pos_length: "0 < leading_ws s \<Longrightarrow> s \<noteq> []"
  by auto

lemma trailing_ws_pos_length: "0 < trailing_ws s \<Longrightarrow> s \<noteq> []"
  by auto

function trim_start :: "string \<Rightarrow> string" where
  "trim_start s = (if leading_ws s = 0 then s else trim_start (drop (leading_ws s) s))"
  by pat_completeness auto
termination
  by (relation "measure length") (simp_all add: leading_ws_pos_length)

function trim_end :: "string \<Rightarrow> string" where
  "trim_end s = (if trailing_ws s = 0 then s
     else trim_end (take (length s - trailing_ws s) s))"
  by pat_completeness auto
termination
  by (relation "measure length") (simp_all add: trailing_ws_pos_length)

declare trim_start.simps [simp del] trim_end.simps [simp del]

definition trim :: "string \<Rightarrow> string" where
  "trim s = trim_end (trim_start s)"

fun contains_whitespace :: "string \<Rightarrow> bool" where
  "contains_whitespace [] = False"
| "contains_whitespace (c # s) = (0 < leading_ws (c # s) \<or> contains_whitespace s)"

text \<open>\<open>char::is_control\<close>: the code points 0 to 31 and 127 to 159.\<close>

fun contains_control :: "string \<Rightarrow> bool" where
  "contains_control [] = False"
| "contains_control (c # s) =
     (byte c < 32 \<or> byte c = 127
      \<or> (byte c = 194 \<and> s \<noteq> [] \<and> 128 \<le> byte (hd s) \<and> byte (hd s) \<le> 159)
      \<or> contains_control s)"

text \<open>\<open>chars().count()\<close>: the bytes that are not UTF-8 continuation bytes.\<close>

definition char_count :: "string \<Rightarrow> nat" where
  "char_count s = length (filter (\<lambda>c. \<not> (128 \<le> byte c \<and> byte c \<le> 191)) s)"

fun split_once :: "char \<Rightarrow> string \<Rightarrow> (string \<times> string) option" where
  "split_once c [] = None"
| "split_once c (x # xs) =
     (if x = c then Some ([], xs)
      else map_option (\<lambda>(a, b). (x # a, b)) (split_once c xs))"

definition rsplit_once :: "char \<Rightarrow> string \<Rightarrow> (string \<times> string) option" where
  "rsplit_once c s = map_option (\<lambda>(a, b). (rev b, rev a)) (split_once c (rev s))"

subsection \<open>Numbers in format strings\<close>

definition digit_char :: "nat \<Rightarrow> char" where
  "digit_char d = (if d < 10 then char_of (48 + d) else char_of (87 + d))"

function radix_digits :: "nat \<Rightarrow> nat \<Rightarrow> nat list" where
  "radix_digits b n = (if b < 2 \<or> n < b then [n] else radix_digits b (n div b) @ [n mod b])"
  by pat_completeness auto
termination
  by (relation "measure snd") (auto intro!: div_less_dividend)

declare radix_digits.simps [simp del]

definition nat_to_dec :: "nat \<Rightarrow> string" where
  "nat_to_dec n = map digit_char (radix_digits 10 n)"

definition int_to_dec :: "int \<Rightarrow> string" where
  "int_to_dec i = (if i < 0 then ''-'' @ nat_to_dec (nat (- i)) else nat_to_dec (nat i))"

text \<open>The format \<open>{:016x}\<close>: lower-case hexadecimal, padded with zeros to 16 digits.\<close>

definition hex16 :: "nat \<Rightarrow> string" where
  "hex16 n = (let ds = map digit_char (radix_digits 16 n)
              in replicate (16 - length ds) (CHR ''0'') @ ds)"

fun of_radix :: "nat \<Rightarrow> nat list \<Rightarrow> nat \<Rightarrow> nat" where
  "of_radix b [] acc = acc"
| "of_radix b (d # ds) acc = of_radix b ds (acc * b + d)"

lemma of_radix_append: "of_radix b (xs @ ys) acc = of_radix b ys (of_radix b xs acc)"
  by (induction xs arbitrary: acc) auto

lemma radix_digits_roundtrip: "of_radix b (radix_digits b n) 0 = n"
proof (induction b n rule: radix_digits.induct)
  case (1 b n)
  then show ?case
    by (cases "b < 2 \<or> n < b") (auto simp: radix_digits.simps [of b n] of_radix_append)
qed

lemma radix_digits_bound: "2 \<le> b \<Longrightarrow> d \<in> set (radix_digits b n) \<Longrightarrow> d < b"
proof (induction b n rule: radix_digits.induct)
  case (1 b n)
  then show ?case
    by (cases "n < b") (auto simp: radix_digits.simps [of b n])
qed

lemma radix_digits_ne [simp]: "radix_digits b n \<noteq> []"
  by (subst radix_digits.simps) simp

lemma digit_char_inj: "d < 16 \<Longrightarrow> e < 16 \<Longrightarrow> digit_char d = digit_char e \<longleftrightarrow> d = e"
  by (auto simp: digit_char_def char_of_eq_iff take_bit_nat_eq_self split: if_splits)

section \<open>Comparators, sorting and selection\<close>

datatype ordering = Less | Equal | Greater

definition cmp :: "'a::linorder \<Rightarrow> 'a \<Rightarrow> ordering" where
  "cmp x y = (if x < y then Less else if x = y then Equal else Greater)"

fun then_with :: "ordering \<Rightarrow> ordering \<Rightarrow> ordering" where
  "then_with Equal o2 = o2"
| "then_with o1 o2 = o1"

fun ordering_reverse :: "ordering \<Rightarrow> ordering" where
  "ordering_reverse Less = Greater"
| "ordering_reverse Equal = Equal"
| "ordering_reverse Greater = Less"

lemma cmp_simps [simp]:
  "cmp x y = Equal \<longleftrightarrow> x = y" "cmp x y = Less \<longleftrightarrow> x < y" "cmp x y = Greater \<longleftrightarrow> y < x"
  by (auto simp: cmp_def)

lemma then_with_eq:
  "then_with a b = Equal \<longleftrightarrow> a = Equal \<and> b = Equal"
  "then_with a b = Less \<longleftrightarrow> a = Less \<or> a = Equal \<and> b = Less"
  "then_with a b = Greater \<longleftrightarrow> a = Greater \<or> a = Equal \<and> b = Greater"
  by (cases a; simp)+

text \<open>
  The stable sort: an element is placed before the first one it does not compare
  greater than, so equal elements keep their order.
\<close>

fun insert_by :: "('a \<Rightarrow> 'a \<Rightarrow> ordering) \<Rightarrow> 'a \<Rightarrow> 'a list \<Rightarrow> 'a list" where
  "insert_by c x [] = [x]"
| "insert_by c x (y # ys) = (if c x y = Greater then y # insert_by c x ys else x # y # ys)"

fun sort_by :: "('a \<Rightarrow> 'a \<Rightarrow> ordering) \<Rightarrow> 'a list \<Rightarrow> 'a list" where
  "sort_by c [] = []"
| "sort_by c (x # xs) = insert_by c x (sort_by c xs)"

text \<open>\<open>Iterator::max_by\<close> folds from the left and keeps the later of two equal elements.\<close>

fun max_by_from :: "('a \<Rightarrow> 'a \<Rightarrow> ordering) \<Rightarrow> 'a \<Rightarrow> 'a list \<Rightarrow> 'a" where
  "max_by_from c m [] = m"
| "max_by_from c m (x # xs) = max_by_from c (if c m x = Greater then m else x) xs"

definition max_by :: "('a \<Rightarrow> 'a \<Rightarrow> ordering) \<Rightarrow> 'a list \<Rightarrow> 'a option" where
  "max_by c xs = (case xs of [] \<Rightarrow> None | x # rest \<Rightarrow> Some (max_by_from c x rest))"

lemma mset_insert_by [simp]: "mset (insert_by c x xs) = add_mset x (mset xs)"
  by (induction xs) auto

lemma mset_sort_by [simp]: "mset (sort_by c xs) = mset xs"
  by (induction xs) auto

lemma set_sort_by [simp]: "set (sort_by c xs) = set xs"
  by (metis mset_sort_by set_mset_mset)

lemma length_sort_by [simp]: "length (sort_by c xs) = length xs"
  by (metis mset_sort_by size_mset)

lemma set_insert_by [simp]: "set (insert_by c x xs) = insert x (set xs)"
  by (induction xs) auto

lemma distinct_map_sort_by [simp]: "distinct (map f (sort_by c xs)) = distinct (map f xs)"
  by (metis mset_map mset_sort_by mset_eq_imp_distinct_iff)

lemma sum_list_sort_by [simp]:
  fixes f :: "'a \<Rightarrow> 'b::comm_monoid_add"
  shows "sum_list (map f (sort_by c xs)) = sum_list (map f xs)"
  by (metis mset_map mset_sort_by sum_mset_sum_list)

lemma max_by_from_in: "max_by_from c m xs \<in> insert m (set xs)"
proof (induction xs arbitrary: m)
  case (Cons x xs)
  from Cons.IH [of "if c m x = Greater then m else x"] show ?case by (auto split: if_splits)
qed simp

lemma max_by_None [simp]: "max_by c xs = None \<longleftrightarrow> xs = []"
  by (simp add: max_by_def split: list.splits)

lemma max_by_in: "max_by c xs = Some m \<Longrightarrow> m \<in> set xs"
  using max_by_from_in by (fastforce simp: max_by_def split: list.splits)

text \<open>The contract of a comparator, and what sorting and selection owe to it.\<close>

locale total_cmp =
  fixes c :: "'a \<Rightarrow> 'a \<Rightarrow> ordering"
  assumes flip: "c x y = ordering_reverse (c y x)"
    and trans: "c x y \<noteq> Greater \<Longrightarrow> c y z \<noteq> Greater \<Longrightarrow> c x z \<noteq> Greater"
begin

lemma refl [simp]: "c x x = Equal"
  using flip [of x x] by (cases "c x x") auto

lemma total: "c x y \<noteq> Greater \<or> c y x \<noteq> Greater"
  using flip [of y x] by (cases "c x y") simp_all

lemma not_greater_swap: "c x y = Greater \<Longrightarrow> c y x \<noteq> Greater"
  using total by blast

lemma insert_by_sorted:
  "sorted_wrt (\<lambda>x y. c x y \<noteq> Greater) xs \<Longrightarrow>
   sorted_wrt (\<lambda>x y. c x y \<noteq> Greater) (insert_by c x xs)"
proof (induction xs)
  case (Cons y ys)
  then show ?case
    by (auto dest: not_greater_swap trans [of x y])
qed simp

lemma sort_by_sorted: "sorted_wrt (\<lambda>x y. c x y \<noteq> Greater) (sort_by c xs)"
  by (induction xs) (simp_all add: insert_by_sorted)

lemma max_by_from_upper:
  "c m (max_by_from c m xs) \<noteq> Greater \<and> (\<forall>x \<in> set xs. c x (max_by_from c m xs) \<noteq> Greater)"
proof (induction xs arbitrary: m)
  case (Cons x xs)
  let ?m = "if c m x = Greater then m else x"
  from Cons.IH [of ?m] have up: "c ?m (max_by_from c ?m xs) \<noteq> Greater" ..
  have "c m ?m \<noteq> Greater" "c x ?m \<noteq> Greater"
    using total [of x m] by auto
  from this [THEN trans, OF up] Cons.IH [of ?m] show ?case by simp
qed simp

lemma max_by_upper: "max_by c xs = Some m \<Longrightarrow> x \<in> set xs \<Longrightarrow> c x m \<noteq> Greater"
  using max_by_from_upper by (fastforce simp: max_by_def split: list.splits)

end

lemma total_cmp_key: "total_cmp (\<lambda>x y. cmp (f x) (f y :: 'b::linorder))"
  by unfold_locales (auto simp: cmp_def split: if_splits)

lemma total_cmp_key_desc: "total_cmp (\<lambda>x y. cmp (f y) (f x :: 'b::linorder))"
  by unfold_locales (auto simp: cmp_def split: if_splits)

lemma total_cmp_then:
  assumes "total_cmp c" "total_cmp d"
  shows "total_cmp (\<lambda>x y. then_with (c x y) (d x y))"
proof -
  note c = total_cmp.flip [OF assms(1)] total_cmp.trans [OF assms(1)]
  note d = total_cmp.flip [OF assms(2)] total_cmp.trans [OF assms(2)]
  show ?thesis
  proof
    fix x y show "then_with (c y x) (d y x) = ordering_reverse (then_with (c x y) (d x y))"
      using c(1) [of y x] d(1) [of y x] by (cases "c x y") simp_all
  next
    fix x y z
    assume xy: "then_with (c x y) (d x y) \<noteq> Greater"
      and yz: "then_with (c y z) (d y z) \<noteq> Greater"
    then have le: "c x y \<noteq> Greater" "c y z \<noteq> Greater"
      by (auto simp: then_with_eq)
    then have xz: "c x z \<noteq> Greater" by (rule c(2))
    show "then_with (c x z) (d x z) \<noteq> Greater"
    proof (cases "c x z = Equal")
      case True
      then have "c z x \<noteq> Greater" using c(1) [of z x] by simp
      then have "c z y \<noteq> Greater" "c y x \<noteq> Greater" using le c(2) by blast+
      then have "c x y = Equal" "c y z = Equal"
        using le c(1) [of y x] c(1) [of z y] by (cases "c x y"; cases "c y z"; simp)+
      with xy yz d(2) True show ?thesis by auto
    next
      case False
      with xz show ?thesis by (auto simp: then_with_eq)
    qed
  qed
qed

lemmas total_cmp_intros = total_cmp_then total_cmp_key total_cmp_key_desc

interpretation key_cmp: total_cmp "\<lambda>x y. cmp (f x) (f y :: 'b::linorder)" for f
  by (rule total_cmp_key)

end
