(* ===== verification/Trusik_Protocol.thy ===== *)
theory Trusik_Protocol
  imports Rust_Prelude
begin

unbundle bit_operations_syntax

text \<open>
  The shared-memory protocol between Stonemite and the DirectInput proxy
  (\<^verbatim>\<open>crates/trusik-protocol/src/lib.rs\<close>): the record \<open>SharedKeyState\<close> with every
  integer at its width, the codecs of the auto-type lease, of the per-key generation tags
  and of the ring records, the heartbeat test, the controller's key buffer with its event
  ring, and the readers.

  An operation here runs alone: the value of a field is what the last store left. A
  compare-and-exchange loop then stores on its first effective attempt, and the sequence
  lock, which spins while the sequence is odd, is \<open>None\<close> (it does not return) on an odd
  sequence. The interleaved behaviour of the same loops is the subject of
  \<open>Trusik_Concurrency\<close>. The reader \<open>read_consistent\<close> takes what each of its attempts
  observed as arguments, so it is stated for every interleaving.
\<close>

type_synonym u8 = "8 word"
type_synonym u32 = "32 word"
type_synonym u64 = "64 word"

section \<open>Constants and state\<close>

definition MAGIC :: u32 where "MAGIC = 0x53544D54"
definition VERSION :: u32 where "VERSION = 4"
definition PROXY_READY :: u32 where "PROXY_READY = 0xA5"
definition HEARTBEAT_TIMEOUT_MS :: u32 where "HEARTBEAT_TIMEOUT_MS = 500"
definition KEY_COUNT :: nat where "KEY_COUNT = 256"
definition CONTROLLER_EVENT_CAPACITY :: nat where "CONTROLLER_EVENT_CAPACITY = 1024"
definition KEYBOARD_BROADCAST :: u32 where "KEYBOARD_BROADCAST = push_bit 0 1"
definition KEYBOARD_TARGETED :: u32 where "KEYBOARD_TARGETED = push_bit 1 1"
definition KEYBOARD_CONTROLLER_MASK :: u32 where
  "KEYBOARD_CONTROLLER_MASK = KEYBOARD_BROADCAST OR KEYBOARD_TARGETED"

record SharedKeyState =
  magic :: u32
  version :: u32
  proxy_ready :: u32
  suppress :: u32
  controller_keyboard_active :: u32
  controller_mouse_active :: u32
  controller_sequence :: u32
  controller_heartbeat_ms :: u32
  auto_type_generation :: u32
  reserved_before_lease :: u32
  auto_type_lease :: u64
  reserved :: "u32 list"
  controller_event_head :: u32
  reserved_before_events :: u32
  controller_events :: "u64 list"
  controller_keys :: "u8 list"
  auto_type_keys :: "u64 list"

definition shared_wf :: "SharedKeyState \<Rightarrow> bool" where
  "shared_wf s \<longleftrightarrow> length (reserved s) = 4 \<and>
     length (controller_events s) = CONTROLLER_EVENT_CAPACITY \<and>
     length (controller_keys s) = KEY_COUNT \<and> length (auto_type_keys s) = KEY_COUNT"

definition unpublished :: SharedKeyState where
  "unpublished = \<lparr>magic = 0, version = 0, proxy_ready = 0, suppress = 0,
     controller_keyboard_active = 0, controller_mouse_active = 0, controller_sequence = 0,
     controller_heartbeat_ms = 0, auto_type_generation = 0, reserved_before_lease = 0,
     auto_type_lease = 0, reserved = replicate 4 0, controller_event_head = 0,
     reserved_before_events = 0,
     controller_events = replicate CONTROLLER_EVENT_CAPACITY 0,
     controller_keys = replicate KEY_COUNT 0, auto_type_keys = replicate KEY_COUNT 0\<rparr>"

definition initialize :: SharedKeyState where
  "initialize = unpublished\<lparr>magic := MAGIC, version := VERSION\<rparr>"

definition is_compatible :: "SharedKeyState \<Rightarrow> bool" where
  "is_compatible s = (version s = VERSION \<and> magic s = MAGIC)"

definition acknowledge_proxy :: "SharedKeyState \<Rightarrow> SharedKeyState" where
  "acknowledge_proxy s = (if is_compatible s then s\<lparr>proxy_ready := PROXY_READY\<rparr> else s)"

definition proxy_is_ready :: "SharedKeyState \<Rightarrow> bool" where
  "proxy_is_ready s = (is_compatible s \<and> proxy_ready s = PROXY_READY)"

subsection \<open>The C layout of the structure\<close>

text \<open>
  \<open>#[repr(C)]\<close>: each field goes to the next offset aligned for it, and the size is
  rounded up to the largest alignment. A field is its name, its size and its alignment.
\<close>

definition align_up :: "nat \<Rightarrow> nat \<Rightarrow> nat" where
  "align_up off a = (off + a - 1) div a * a"

fun repr_c_offsets :: "nat \<Rightarrow> (string \<times> nat \<times> nat) list \<Rightarrow> (string \<times> nat) list" where
  "repr_c_offsets off [] = []"
| "repr_c_offsets off ((n, sz, al) # fs) =
     (n, align_up off al) # repr_c_offsets (align_up off al + sz) fs"

fun repr_c_end :: "nat \<Rightarrow> (string \<times> nat \<times> nat) list \<Rightarrow> nat" where
  "repr_c_end off [] = off"
| "repr_c_end off ((n, sz, al) # fs) = repr_c_end (align_up off al + sz) fs"

definition shared_key_fields :: "(string \<times> nat \<times> nat) list" where
  "shared_key_fields =
    [(''magic'', 4, 4), (''version'', 4, 4), (''proxy_ready'', 4, 4), (''suppress'', 4, 4),
     (''controller_keyboard_active'', 4, 4), (''controller_mouse_active'', 4, 4),
     (''controller_sequence'', 4, 4), (''controller_heartbeat_ms'', 4, 4),
     (''auto_type_generation'', 4, 4), (''reserved_before_lease'', 4, 4),
     (''auto_type_lease'', 8, 8), (''reserved'', 4 * 4, 4), (''controller_event_head'', 4, 4),
     (''reserved_before_events'', 4, 4),
     (''controller_events'', 8 * CONTROLLER_EVENT_CAPACITY, 8),
     (''controller_keys'', KEY_COUNT, 1), (''auto_type_keys'', 8 * KEY_COUNT, 8)]"

definition SHARED_KEY_STATE_SIZE :: nat where
  "SHARED_KEY_STATE_SIZE = align_up (repr_c_end 0 shared_key_fields) 8"

section \<open>Codecs and freshness\<close>

definition encode_lease :: "u32 \<Rightarrow> u32 \<Rightarrow> u64" where
  "encode_lease generation heartbeat_ms =
     push_bit 32 (ucast generation) OR ucast (max heartbeat_ms 1)"

definition lease_generation :: "u64 \<Rightarrow> u32" where
  "lease_generation lease = ucast (drop_bit 32 lease)"

definition lease_heartbeat :: "u64 \<Rightarrow> u32" where
  "lease_heartbeat lease = ucast lease"

definition encode_auto_key :: "u32 \<Rightarrow> bool \<Rightarrow> u64" where
  "encode_auto_key generation pressed = push_bit 1 (ucast generation) OR of_bool pressed"

definition auto_key_generation :: "u64 \<Rightarrow> u32" where
  "auto_key_generation key = ucast (drop_bit 1 key)"

definition auto_key_is_pressed :: "u64 \<Rightarrow> u32 \<Rightarrow> bool" where
  "auto_key_is_pressed key generation =
     (auto_key_generation key = generation \<and> key AND 1 \<noteq> 0)"

definition heartbeat_is_fresh :: "u32 \<Rightarrow> u32 \<Rightarrow> bool" where
  "heartbeat_is_fresh heartbeat_ms now_ms =
     (heartbeat_ms \<noteq> 0 \<and> now_ms - heartbeat_ms \<le> HEARTBEAT_TIMEOUT_MS)"

section \<open>Activity\<close>

definition refresh_controller_heartbeat :: "SharedKeyState \<Rightarrow> u32 \<Rightarrow> SharedKeyState" where
  "refresh_controller_heartbeat s now_ms = s\<lparr>controller_heartbeat_ms := max now_ms 1\<rparr>"

definition controller_is_fresh :: "SharedKeyState \<Rightarrow> u32 \<Rightarrow> bool" where
  "controller_is_fresh s now_ms = heartbeat_is_fresh (controller_heartbeat_ms s) now_ms"

definition active_auto_type_generation :: "SharedKeyState \<Rightarrow> u32 \<Rightarrow> u32 option" where
  "active_auto_type_generation s now_ms =
     (let lease = auto_type_lease s; generation = lease_generation lease
      in if generation \<noteq> 0 \<and> heartbeat_is_fresh (lease_heartbeat lease) now_ms
         then Some generation else None)"

definition auto_type_is_fresh :: "SharedKeyState \<Rightarrow> u32 \<Rightarrow> bool" where
  "auto_type_is_fresh s now_ms = (active_auto_type_generation s now_ms \<noteq> None)"

definition controller_keyboard_is_active :: "SharedKeyState \<Rightarrow> u32 \<Rightarrow> bool" where
  "controller_keyboard_is_active s now_ms =
     (controller_keyboard_active s AND KEYBOARD_CONTROLLER_MASK \<noteq> 0
      \<and> controller_is_fresh s now_ms)"

definition auto_type_is_active :: "SharedKeyState \<Rightarrow> u32 \<Rightarrow> bool" where
  "auto_type_is_active s now_ms = auto_type_is_fresh s now_ms"

definition keyboard_is_active :: "SharedKeyState \<Rightarrow> u32 \<Rightarrow> bool" where
  "keyboard_is_active s now_ms =
     (controller_keyboard_is_active s now_ms \<or> auto_type_is_active s now_ms)"

definition mouse_is_active :: "SharedKeyState \<Rightarrow> u32 \<Rightarrow> bool" where
  "mouse_is_active s now_ms = (controller_mouse_active s \<noteq> 0 \<and> controller_is_fresh s now_ms)"

definition is_active :: "SharedKeyState \<Rightarrow> u32 \<Rightarrow> bool" where
  "is_active s now_ms = (keyboard_is_active s now_ms \<or> mouse_is_active s now_ms)"

definition should_suppress :: "SharedKeyState \<Rightarrow> u32 \<Rightarrow> bool" where
  "should_suppress s now_ms = (suppress s \<noteq> 0 \<and> controller_is_fresh s now_ms)"

definition key_is_pressed :: "SharedKeyState \<Rightarrow> u8 \<Rightarrow> u32 \<Rightarrow> bool" where
  "key_is_pressed s scan now_ms =
     (let index = unat scan; lease = auto_type_lease s; generation = lease_generation lease
      in (controller_keyboard_is_active s now_ms \<and> controller_keys s ! index AND 0x80 \<noteq> 0)
         \<or> (generation \<noteq> 0 \<and> heartbeat_is_fresh (lease_heartbeat lease) now_ms
            \<and> auto_key_is_pressed (auto_type_keys s ! index) generation))"

section \<open>The controller's key buffer and event ring\<close>

definition lock_sequence :: "u32 \<Rightarrow> u32 option" where
  "lock_sequence sequence = (if sequence AND 1 \<noteq> 0 then None else Some (sequence + 1))"

definition unlock_sequence :: "u32 \<Rightarrow> u32" where
  "unlock_sequence sequence = sequence + 1"

definition event_record :: "u32 \<Rightarrow> nat \<Rightarrow> bool \<Rightarrow> u64" where
  "event_record sequence scan pressed =
     push_bit 32 (ucast sequence) OR of_nat scan OR push_bit 8 (of_bool pressed)"

definition publish_controller_event :: "SharedKeyState \<Rightarrow> nat \<Rightarrow> bool \<Rightarrow> SharedKeyState" where
  "publish_controller_event s scan pressed =
     (let sequence = controller_event_head s;
          record = event_record sequence scan pressed
      in s\<lparr>controller_events :=
             (controller_events s)[unat sequence mod CONTROLLER_EVENT_CAPACITY := record],
           controller_event_head := sequence + 1\<rparr>)"

definition write_controller_key :: "SharedKeyState \<Rightarrow> nat \<Rightarrow> u8 \<Rightarrow> SharedKeyState option" where
  "write_controller_key s scan value =
     (if scan \<ge> KEY_COUNT then Some s
      else case lock_sequence (controller_sequence s) of None \<Rightarrow> None
        | Some locked \<Rightarrow>
          let s1 = s\<lparr>controller_sequence := locked\<rparr>;
              pressed = (value AND 0x80 \<noteq> 0);
              s2 = (if controller_keys s1 ! scan AND 0x80 \<noteq> value AND 0x80
                    then publish_controller_event
                      (s1\<lparr>controller_keys :=
                         (controller_keys s1)[scan := if pressed then 0x80 else 0]\<rparr>)
                      scan pressed
                    else s1)
          in Some (s2\<lparr>controller_sequence := unlock_sequence (controller_sequence s2)\<rparr>))"

fun clear_scan :: "nat list \<Rightarrow> SharedKeyState \<Rightarrow> SharedKeyState" where
  "clear_scan [] s = s"
| "clear_scan (scan # scans) s =
     clear_scan scans
       (if controller_keys s ! scan AND 0x80 \<noteq> 0
        then publish_controller_event (s\<lparr>controller_keys := (controller_keys s)[scan := 0]\<rparr>)
               scan False
        else s)"

definition clear_controller_keys :: "SharedKeyState \<Rightarrow> SharedKeyState option" where
  "clear_controller_keys s =
     (case lock_sequence (controller_sequence s) of None \<Rightarrow> None
      | Some locked \<Rightarrow>
        let s2 = clear_scan [0..<length (controller_keys s)] (s\<lparr>controller_sequence := locked\<rparr>)
        in Some (s2\<lparr>controller_sequence := unlock_sequence (controller_sequence s2)\<rparr>))"

definition set_controller_key :: "SharedKeyState \<Rightarrow> nat \<Rightarrow> u8 \<Rightarrow> SharedKeyState option" where
  "set_controller_key s scan value = write_controller_key s scan value"

definition reset_keys :: "SharedKeyState \<Rightarrow> SharedKeyState" where
  "reset_keys s = s\<lparr>controller_sequence := 2,
     controller_keys := map (\<lambda>_. 0) (controller_keys s)\<rparr>"

definition retire_controller :: "SharedKeyState \<Rightarrow> SharedKeyState" where
  "retire_controller s =
     reset_keys (s\<lparr>controller_keyboard_active := 0, controller_mouse_active := 0,
                   suppress := 0, controller_heartbeat_ms := 0\<rparr>)"

lemma unat_distance_decreases:
  fixes head nxt :: u32
  assumes "nxt \<noteq> head"
  shows "unat (head - (nxt + 1)) < unat (head - nxt)"
proof -
  from assms have "unat (head - nxt - 1) < unat (head - nxt)"
    by (intro measure_unat) simp
  then show ?thesis by (simp add: algebra_simps)
qed

text \<open>The loop of the ring reader: what it visits, and whether it missed a record.\<close>

function drain_loop ::
  "u64 list \<Rightarrow> u32 \<Rightarrow> u32 \<Rightarrow> bool \<Rightarrow> (u8 \<times> bool) list \<Rightarrow> bool \<times> (u8 \<times> bool) list" where
  "drain_loop events head nxt overflowed visited =
     (if nxt = head then (overflowed, visited)
      else let record = events ! (unat nxt mod CONTROLLER_EVENT_CAPACITY)
        in if (ucast (drop_bit 32 record) :: u32) \<noteq> nxt
           then drain_loop events head (nxt + 1) True visited
           else drain_loop events head (nxt + 1) overflowed
                  (visited @ [(ucast record, record AND push_bit 8 1 \<noteq> 0)]))"
  by pat_completeness auto
termination
  by (relation "measure (\<lambda>(_, head, nxt, _, _). unat (head - nxt))")
     (simp_all add: unat_distance_decreases)

declare drain_loop.simps [simp del]

text \<open>The result is the new cursor, the overflow flag and the visited transitions.\<close>

definition drain_controller_events ::
  "SharedKeyState \<Rightarrow> u32 option \<Rightarrow> u32 option \<times> bool \<times> (u8 \<times> bool) list" where
  "drain_controller_events s cursor =
     (let head = controller_event_head s
      in case cursor of None \<Rightarrow> (Some head, False, [])
       | Some nxt0 \<Rightarrow>
         let overflowed0 = (unat (head - nxt0) > CONTROLLER_EVENT_CAPACITY);
             nxt = (if overflowed0 then head - of_nat CONTROLLER_EVENT_CAPACITY else nxt0);
             (overflowed, visited) = drain_loop (controller_events s) head nxt overflowed0 []
         in (Some head, overflowed, visited))"

section \<open>Auto-type keys\<close>

definition set_auto_type_key :: "SharedKeyState \<Rightarrow> u32 \<Rightarrow> nat \<Rightarrow> u8 \<Rightarrow> SharedKeyState \<times> bool" where
  "set_auto_type_key s generation scan value =
     (if scan \<ge> KEY_COUNT then (s, False)
      else if lease_generation (auto_type_lease s) \<noteq> generation
           \<or> auto_key_generation (auto_type_keys s ! scan) > generation
      then (s, False)
      else let s' = s\<lparr>auto_type_keys :=
                 (auto_type_keys s)[scan := encode_auto_key generation (value \<noteq> 0)]\<rparr>
           in (s', lease_generation (auto_type_lease s') = generation))"

definition refresh_auto_type_lease :: "SharedKeyState \<Rightarrow> u32 \<Rightarrow> u32 \<Rightarrow> SharedKeyState \<times> bool" where
  "refresh_auto_type_lease s generation now_ms =
     (if lease_generation (auto_type_lease s) \<noteq> generation then (s, False)
      else (s\<lparr>auto_type_lease := encode_lease generation now_ms\<rparr>, True))"

text \<open>\<open>begin_auto_type\<close> panics when the generation counter wraps to zero: \<open>Inl\<close>.\<close>

definition begin_auto_type :: "SharedKeyState \<Rightarrow> u32 \<Rightarrow> string + SharedKeyState \<times> u32" where
  "begin_auto_type s now_ms =
     (let generation = auto_type_generation s + 1;
          s1 = s\<lparr>auto_type_generation := generation\<rparr>
      in if generation = 0 then Inl ''auto-type generation exhausted''
         else if lease_generation (auto_type_lease s1) \<ge> generation then Inr (s1, generation)
         else Inr (s1\<lparr>auto_type_lease := encode_lease generation now_ms\<rparr>, generation))"

definition retire_auto_type :: "SharedKeyState \<Rightarrow> u32 \<Rightarrow> SharedKeyState" where
  "retire_auto_type s generation =
     (if lease_generation (auto_type_lease s) \<noteq> generation then s else s\<lparr>auto_type_lease := 0\<rparr>)"

section \<open>Readers\<close>

text \<open>
  One attempt of \<open>read_consistent\<close>: the sequence before, the bytes loaded one by one and
  the sequence after. The loop takes the first accepted attempt of eight; when none is
  accepted it loads the bytes once more.
\<close>

record key_view =
  view_before :: u32
  view_keys :: "u8 list"
  view_after :: u32

definition view_accepted :: "key_view \<Rightarrow> bool" where
  "view_accepted v = (view_before v AND 1 = 0 \<and> view_before v = view_after v
     \<and> view_after v AND 1 = 0)"

definition read_consistent :: "key_view list \<Rightarrow> u8 list \<Rightarrow> u8 list \<times> bool" where
  "read_consistent attempts fallback =
     (case List.find view_accepted (take 8 attempts) of
        Some v \<Rightarrow> (view_keys v, True)
      | None \<Rightarrow> (fallback, True))"

text \<open>The attempts of a reader that no writer interrupts.\<close>

definition quiet_views :: "SharedKeyState \<Rightarrow> key_view list" where
  "quiet_views s = replicate 8 \<lparr>view_before = controller_sequence s,
     view_keys = controller_keys s, view_after = controller_sequence s\<rparr>"

definition merge_keys :: "u8 list \<Rightarrow> u8 list \<Rightarrow> u8 list" where
  "merge_keys output keys = map2 (\<lambda>out key. out OR (key AND 0x80)) output keys"

definition merge_auto_keys :: "u8 list \<Rightarrow> u64 list \<Rightarrow> u32 \<Rightarrow> u8 list" where
  "merge_auto_keys output keys generation =
     map2 (\<lambda>out key. if auto_key_is_pressed key generation then out OR 0x80 else out) output keys"

text \<open>
  \<open>read_effective_keys\<close> looks at the memory twice: first for both owners, then to see
  whether a newer auto-type owner started meanwhile. The two looks are the states \<open>s\<close>
  and \<open>later\<close>.
\<close>

definition merge_controller :: "SharedKeyState \<Rightarrow> u8 list \<Rightarrow> u8 list" where
  "merge_controller s output =
     (let (keys, ok) = read_consistent (quiet_views s) (controller_keys s)
      in if ok then merge_keys output keys else output)"

definition read_effective_keys ::
  "SharedKeyState \<Rightarrow> SharedKeyState \<Rightarrow> u32 \<Rightarrow> u8 list \<times> bool" where
  "read_effective_keys s later now_ms =
     (let zero = replicate KEY_COUNT 0;
          controller_active = controller_keyboard_is_active s now_ms;
          auto_lease = auto_type_lease s;
          auto_generation = lease_generation auto_lease;
          auto_active = (auto_generation \<noteq> 0
            \<and> heartbeat_is_fresh (lease_heartbeat auto_lease) now_ms);
          out1 = (if controller_active then merge_controller s zero else zero);
          out2 = (if auto_active
                  then let merged = merge_auto_keys out1 (auto_type_keys s) auto_generation
                    in if lease_generation (auto_type_lease later) \<noteq> auto_generation
                       then (if controller_active then merge_controller later zero else zero)
                       else merged
                  else out1)
      in (out2, controller_active \<or> auto_active))"

definition read_auto_type_keys ::
  "SharedKeyState \<Rightarrow> SharedKeyState \<Rightarrow> u32 \<Rightarrow> u8 list \<times> bool" where
  "read_auto_type_keys s later now_ms =
     (let zero = replicate KEY_COUNT 0; lease = auto_type_lease s;
          generation = lease_generation lease
      in if generation = 0 \<or> \<not> heartbeat_is_fresh (lease_heartbeat lease) now_ms
         then (zero, False)
         else let out = map2 (\<lambda>out key. if auto_key_is_pressed key generation then 0x80 else out)
                    zero (auto_type_keys s)
           in if lease_generation (auto_type_lease later) \<noteq> generation then (zero, False)
              else (out, True))"

section \<open>Codec lemmas\<close>

named_theorems codec \<open>decoding of encoded words\<close>

lemma lease_generation_encode [codec, simp]: "lease_generation (encode_lease g h) = g"
  unfolding lease_generation_def encode_lease_def
  by (rule bit_word_eqI) (auto simp: bit_simps dest: bit_imp_le_length)

lemma lease_heartbeat_encode [codec, simp]: "lease_heartbeat (encode_lease g h) = max h 1"
  unfolding lease_heartbeat_def encode_lease_def
  by (rule bit_word_eqI) (auto simp: bit_simps)

lemma lease_generation_zero [simp]: "lease_generation 0 = 0"
  by (simp add: lease_generation_def)

lemma auto_key_generation_encode [codec, simp]: "auto_key_generation (encode_auto_key g p) = g"
  unfolding auto_key_generation_def encode_auto_key_def
  by (rule bit_word_eqI) (auto simp: bit_simps simp del: push_bit_Suc drop_bit_Suc One_nat_def)

lemma and_one_bit: "(w::'a::len word) AND 1 \<noteq> 0 \<longleftrightarrow> bit w 0"
  by (simp add: and_one_eq odd_iff_mod_2_eq_one bit_0)

lemma bit_encode_auto_key_0: "bit (encode_auto_key g p) 0 = p"
  by (simp add: encode_auto_key_def bit_simps del: push_bit_Suc One_nat_def)

lemma auto_key_is_pressed_encode [codec, simp]:
  "auto_key_is_pressed (encode_auto_key g p) g' \<longleftrightarrow> g = g' \<and> p"
  by (auto simp: auto_key_is_pressed_def and_one_bit bit_encode_auto_key_0)

lemma of_nat_scan:
  assumes "scan < 256"
  shows "(of_nat scan :: u64) = ucast (of_nat scan :: u8)"
proof -
  from assms have "unat (of_nat scan :: u8) = scan" by (simp add: unat_of_nat)
  then show ?thesis by (metis of_nat_unat)
qed

lemma event_record_sequence [codec]:
  "scan < 256 \<Longrightarrow> ucast (drop_bit 32 (event_record q scan p)) = q"
  unfolding event_record_def
  by (simp only: of_nat_scan, rule bit_word_eqI) (auto simp: bit_simps)

lemma event_record_scan [codec]: "scan < 256 \<Longrightarrow> ucast (event_record q scan p) = (of_nat scan :: u8)"
  unfolding event_record_def
  by (simp only: of_nat_scan, rule bit_word_eqI) (auto simp: bit_simps)

lemma and_push_bit_one_eq:
  "(w::'a::len word) AND push_bit n 1 = (if bit w n then push_bit n 1 else 0)"
  by (rule bit_word_eqI) (auto simp: bit_simps)

lemma and_push_bit_one: "(w::'a::len word) AND push_bit n 1 \<noteq> 0 \<longleftrightarrow> bit w n"
  unfolding and_push_bit_one_eq by (auto simp: bit_eq_iff bit_simps dest: bit_imp_le_length)

lemma unat_u8: "unat (b :: u8) < 256"
  by (rule order_less_le_trans [OF unsigned_less]) simp

lemma event_record_pressed [codec]:
  "scan < 256 \<Longrightarrow> event_record q scan p AND push_bit 8 1 \<noteq> 0 \<longleftrightarrow> p"
  unfolding and_push_bit_one event_record_def by (simp only: of_nat_scan) (auto simp: bit_simps)

section \<open>The event ring refines an append-only log\<close>

text \<open>
  The specification of the ring is the list of all transitions ever published. A reader's
  cursor is a position in that list; draining from it returns the tail, cut to the last
  \<open>cap\<close> entries, and reports whether something was cut. The locale derives what a reader
  sees after any sequence of publications; the interpretation below discharges it for the
  ring with its 32-bit head and its 1024 slots.
\<close>

locale event_log =
  fixes publish :: "'s \<Rightarrow> 'e \<Rightarrow> 's"
    and drain :: "'s \<Rightarrow> nat \<Rightarrow> bool \<times> 'e list"
    and rep :: "'s \<Rightarrow> 'e list \<Rightarrow> bool"
    and valid :: "'e \<Rightarrow> bool"
    and cap :: nat and window :: nat
  assumes publish_rep: "rep s log \<Longrightarrow> valid e \<Longrightarrow> rep (publish s e) (log @ [e])"
    and drain_rep: "rep s log \<Longrightarrow> k \<le> length log \<Longrightarrow> length log - k < window \<Longrightarrow>
      drain s k = (cap < length log - k, drop (max k (length log - cap)) log)"
begin

lemma publish_all_rep:
  "rep s log \<Longrightarrow> \<forall>e \<in> set es. valid e \<Longrightarrow> rep (foldl publish s es) (log @ es)"
  by (induction es arbitrary: s log) (use publish_rep in fastforce)+

lemma drain_complete:
  assumes "rep s log" "\<forall>e \<in> set es. valid e" "length es \<le> cap" "length es < window"
  shows "drain (foldl publish s es) (length log) = (False, es)"
  using drain_rep [OF publish_all_rep [OF assms(1,2)], of "length log"] assms(3,4)
  by (simp add: max_def)

lemma drain_overflow:
  assumes "rep s log" "\<forall>e \<in> set es. valid e" "cap < length es" "length es < window"
  shows "drain (foldl publish s es) (length log) = (True, drop (length es - cap) es)"
  using drain_rep [OF publish_all_rep [OF assms(1,2)], of "length log"] assms(3,4)
  by (simp add: max_def)

end

definition publish_transition :: "SharedKeyState \<Rightarrow> nat \<times> bool \<Rightarrow> SharedKeyState" where
  "publish_transition s e = publish_controller_event s (fst e) (snd e)"

definition drain_from :: "SharedKeyState \<Rightarrow> nat \<Rightarrow> bool \<times> (nat \<times> bool) list" where
  "drain_from s k = (case drain_controller_events s (Some (of_nat k)) of
     (_, overflowed, visited) \<Rightarrow> (overflowed, map (\<lambda>(scan, p). (unat scan, p)) visited))"

definition ring_rep :: "SharedKeyState \<Rightarrow> (nat \<times> bool) list \<Rightarrow> bool" where
  "ring_rep s log \<longleftrightarrow>
     length (controller_events s) = CONTROLLER_EVENT_CAPACITY \<and>
     controller_event_head s = of_nat (length log) \<and>
     (\<forall>e \<in> set log. fst e < KEY_COUNT) \<and>
     (\<forall>i < length log. length log - i \<le> CONTROLLER_EVENT_CAPACITY \<longrightarrow>
        controller_events s ! (i mod CONTROLLER_EVENT_CAPACITY)
          = event_record (of_nat i) (fst (log ! i)) (snd (log ! i)))"

lemma slot_of_nat:
  "unat (of_nat i :: u32) mod CONTROLLER_EVENT_CAPACITY = i mod CONTROLLER_EVENT_CAPACITY"
  by (simp add: unat_of_nat CONTROLLER_EVENT_CAPACITY_def mod_mod_cancel)

lemma ring_rep_publish:
  assumes rep: "ring_rep s log" and valid: "fst e < KEY_COUNT"
  shows "ring_rep (publish_transition s e) (log @ [e])"
proof -
  have slots: "controller_events s ! (i mod CONTROLLER_EVENT_CAPACITY)
      = event_record (of_nat i) (fst (log ! i)) (snd (log ! i))"
    "i mod CONTROLLER_EVENT_CAPACITY \<noteq> length log mod CONTROLLER_EVENT_CAPACITY"
    if "i < length log" "Suc (length log) - i \<le> CONTROLLER_EVENT_CAPACITY" for i
  proof -
    from rep that show "controller_events s ! (i mod CONTROLLER_EVENT_CAPACITY)
      = event_record (of_nat i) (fst (log ! i)) (snd (log ! i))"
      by (simp add: ring_rep_def)
    show "i mod CONTROLLER_EVENT_CAPACITY \<noteq> length log mod CONTROLLER_EVENT_CAPACITY"
    proof
      assume "i mod CONTROLLER_EVENT_CAPACITY = length log mod CONTROLLER_EVENT_CAPACITY"
      then have "CONTROLLER_EVENT_CAPACITY dvd length log - i"
        using that(1) by (metis less_imp_le mod_eq_dvd_iff_nat)
      then have "CONTROLLER_EVENT_CAPACITY \<le> length log - i"
        using that(1) by (intro dvd_imp_le) auto
      with that show False by simp
    qed
  qed
  have cap: "length log mod CONTROLLER_EVENT_CAPACITY < length (controller_events s)"
    using rep by (simp add: ring_rep_def CONTROLLER_EVENT_CAPACITY_def)
  show ?thesis
    using rep valid cap
    by (auto simp: ring_rep_def publish_transition_def publish_controller_event_def Let_def
      slot_of_nat nth_append less_Suc_eq nth_list_update slots(1) slots(2) [THEN not_sym])
qed

lemma drain_loop_rep:
  assumes rep: "ring_rep s log"
  shows "i \<le> length log \<Longrightarrow> length log - i \<le> CONTROLLER_EVENT_CAPACITY \<Longrightarrow>
    drain_loop (controller_events s) (of_nat (length log)) (of_nat i) ov acc
      = (ov, acc @ map (\<lambda>(scan, p). (of_nat scan, p)) (drop i log))"
proof (induction "length log - i" arbitrary: i acc)
  case 0
  then have "i = length log" by simp
  then show ?case by (simp add: drain_loop.simps)
next
  case (Suc d)
  then have i: "i < length log" by simp
  have "unat (of_nat (length log) - of_nat i :: u32) = length log - i"
    using i Suc.prems by (simp add: unat_of_nat CONTROLLER_EVENT_CAPACITY_def flip: of_nat_diff)
  then have ne: "(of_nat i :: u32) \<noteq> of_nat (length log)"
    using i by auto
  obtain scan p where e: "log ! i = (scan, p)" by fastforce
  then have scan: "scan < 256"
    using rep i nth_mem [OF i] by (auto simp: ring_rep_def KEY_COUNT_def)
  have slot: "controller_events s ! (i mod CONTROLLER_EVENT_CAPACITY)
      = event_record (of_nat i) scan p"
    using rep i Suc.prems e by (simp add: ring_rep_def)
  have "drain_loop (controller_events s) (of_nat (length log)) (of_nat i) ov acc
      = drain_loop (controller_events s) (of_nat (length log)) (of_nat (Suc i)) ov
          (acc @ [(of_nat scan, p)])"
    using ne scan codec
    by (subst drain_loop.simps) (simp add: Let_def slot_of_nat slot add.commute)
  also have "\<dots> = (ov, (acc @ [(of_nat scan, p)])
      @ map (\<lambda>(scan, p). (of_nat scan, p)) (drop (Suc i) log))"
    using Suc by (intro Suc.hyps(1)) auto
  also have "drop i log = (scan, p) # drop (Suc i) log"
    using i e by (metis Cons_nth_drop_Suc)
  then have "(acc @ [(of_nat scan, p)]) @ map (\<lambda>(scan, p). (of_nat scan, p)) (drop (Suc i) log)
      = acc @ map (\<lambda>(scan, p). (of_nat scan, p)) (drop i log)"
    by simp
  finally show ?case .
qed

lemma drain_from_rep:
  assumes rep: "ring_rep s log" and k: "k \<le> length log" "length log - k < 2 ^ 32"
  shows "drain_from s k = (CONTROLLER_EVENT_CAPACITY < length log - k,
     drop (max k (length log - CONTROLLER_EVENT_CAPACITY)) log)"
proof -
  let ?n = "length log" and ?cap = CONTROLLER_EVENT_CAPACITY
  have head: "controller_event_head s = of_nat ?n" using rep by (simp add: ring_rep_def)
  have dist: "unat (of_nat ?n - of_nat k :: u32) = ?n - k"
    using k by (simp add: unat_of_nat flip: of_nat_diff)
  have tail: "(of_nat ?n - of_nat ?cap :: u32) = of_nat (?n - ?cap)" if "?cap < ?n - k"
    using that by (simp flip: of_nat_diff)
  have loop: "drain_loop (controller_events s) (of_nat ?n) (of_nat i) ov []
      = (ov, map (\<lambda>(scan, p). (of_nat scan, p)) (drop i log))"
    if "i \<le> ?n" "?n - i \<le> ?cap" for i ov
    using drain_loop_rep [OF rep that] by simp
  have dec: "map (\<lambda>(scan, p). (unat scan, p)) (map (\<lambda>(scan, p). (of_nat scan :: u8, p)) (drop i log))
      = drop i log" for i
    using rep by (auto dest!: in_set_dropD simp: ring_rep_def KEY_COUNT_def unat_of_nat
      intro!: map_idI simp del: map_map simp: map_map [unfolded comp_def])
  show ?thesis
  proof (cases "?cap < ?n - k")
    case True
    then have "max k (?n - ?cap) = ?n - ?cap" by simp
    with True loop [of "?n - ?cap"] show ?thesis
      by (simp add: drain_from_def drain_controller_events_def Let_def head dist tail dec
        del: of_nat_diff map_map)
  next
    case False
    then have "max k (?n - ?cap) = k" using k by simp
    with False loop [of k] k show ?thesis
      by (simp add: drain_from_def drain_controller_events_def Let_def head dist dec
        del: map_map)
  qed
qed

interpretation ring: event_log publish_transition drain_from ring_rep "\<lambda>e. fst e < KEY_COUNT"
  CONTROLLER_EVENT_CAPACITY "2 ^ 32"
  by unfold_locales (simp_all add: ring_rep_publish drain_from_rep)

section \<open>Key levels are the replay of the published transitions\<close>

definition key_down :: "SharedKeyState \<Rightarrow> nat \<Rightarrow> bool" where
  "key_down s scan = (controller_keys s ! scan AND 0x80 \<noteq> 0)"

definition replay :: "(nat \<times> bool) list \<Rightarrow> nat \<Rightarrow> bool" where
  "replay log = fold (\<lambda>(scan, p) levels. levels(scan := p)) log (\<lambda>_. False)"

lemma replay_snoc [simp]: "replay (log @ [(scan, p)]) = (replay log)(scan := p)"
  by (simp add: replay_def)

lemma replay_Nil [simp]: "replay [] = (\<lambda>_. False)"
  by (simp add: replay_def)

definition levels_rep :: "SharedKeyState \<Rightarrow> (nat \<times> bool) list \<Rightarrow> bool" where
  "levels_rep s log \<longleftrightarrow> ring_rep s log \<and> length (controller_keys s) = KEY_COUNT \<and>
     (\<forall>scan < KEY_COUNT. key_down s scan = replay log scan)"

datatype controller_op = SetKey nat u8 | ClearKeys

fun controller_step :: "controller_op \<Rightarrow> SharedKeyState \<Rightarrow> SharedKeyState option" where
  "controller_step (SetKey scan value) s = set_controller_key s scan value"
| "controller_step ClearKeys s = clear_controller_keys s"

fun controller_run :: "controller_op list \<Rightarrow> SharedKeyState \<Rightarrow> SharedKeyState option" where
  "controller_run [] s = Some s"
| "controller_run (x # xs) s =
     (case controller_step x s of None \<Rightarrow> None | Some s' \<Rightarrow> controller_run xs s')"

lemma levels_rep_sequence [simp]:
  "levels_rep (s\<lparr>controller_sequence := q\<rparr>) log = levels_rep s log"
  by (simp add: levels_rep_def ring_rep_def key_down_def)

lemma publish_frame [simp]:
  "controller_keys (publish_controller_event s scan p) = controller_keys s"
  "controller_sequence (publish_controller_event s scan p) = controller_sequence s"
  by (simp_all add: publish_controller_event_def Let_def)

lemma levels_rep_store:
  assumes rep: "levels_rep s log" and scan: "scan < KEY_COUNT" and v: "v AND 0x80 \<noteq> 0 \<longleftrightarrow> p"
  shows "levels_rep
    (publish_controller_event (s\<lparr>controller_keys := (controller_keys s)[scan := v]\<rparr>) scan p)
    (log @ [(scan, p)])"
proof -
  let ?s = "s\<lparr>controller_keys := (controller_keys s)[scan := v]\<rparr>"
  have "ring_rep ?s log" using rep by (simp add: levels_rep_def ring_rep_def)
  then have "ring_rep (publish_controller_event ?s scan p) (log @ [(scan, p)])"
    using ring_rep_publish [of ?s log "(scan, p)"] scan by (simp add: publish_transition_def)
  with rep scan v show ?thesis
    by (auto simp: levels_rep_def key_down_def nth_list_update)
qed

lemma lock_even: "even q \<Longrightarrow> lock_sequence q = Some (q + 1)"
  by (simp add: lock_sequence_def and_one_eq even_iff_mod_2_eq_zero)

lemma unlock_even: "even (q::u32) \<Longrightarrow> even (unlock_sequence (q + 1))"
  by (simp add: unlock_sequence_def add.assoc)

lemma levels_rep_key_down:
  "levels_rep s log \<Longrightarrow> scan < KEY_COUNT \<Longrightarrow> key_down s scan = replay log scan"
  by (simp add: levels_rep_def)

lemma key_down_sequence [simp]: "key_down (s\<lparr>controller_sequence := q\<rparr>) = key_down s"
  by (simp add: key_down_def fun_eq_iff)

lemma set_controller_key_changed:
  assumes "scan < KEY_COUNT" "even (controller_sequence s)"
    and "controller_keys s ! scan AND 0x80 \<noteq> value AND 0x80"
  shows "set_controller_key s scan value = Some
    ((publish_controller_event (s\<lparr>controller_sequence := controller_sequence s + 1,
        controller_keys := (controller_keys s)[scan := if value AND 0x80 \<noteq> 0 then 0x80 else 0]\<rparr>)
        scan (value AND 0x80 \<noteq> 0))
      \<lparr>controller_sequence := unlock_sequence (controller_sequence s + 1)\<rparr>)"
  using assms by (simp add: set_controller_key_def write_controller_key_def lock_even Let_def)

lemma set_controller_key_same:
  assumes "scan < KEY_COUNT" "even (controller_sequence s)"
    and "controller_keys s ! scan AND 0x80 = value AND 0x80"
  shows "set_controller_key s scan value =
    Some (s\<lparr>controller_sequence := unlock_sequence (controller_sequence s + 1)\<rparr>)"
  using assms by (simp add: set_controller_key_def write_controller_key_def lock_even Let_def)

lemma set_controller_key_levels:
  assumes "levels_rep s log" "even (controller_sequence s)"
  shows "\<exists>s' ext. set_controller_key s scan value = Some s' \<and> even (controller_sequence s')
    \<and> levels_rep s' (log @ ext)
    \<and> (scan < KEY_COUNT \<longrightarrow> key_down s' scan = (value AND 0x80 \<noteq> 0))"
proof -
  let ?p = "value AND 0x80 \<noteq> 0"
  let ?s1 = "s\<lparr>controller_sequence := controller_sequence s + 1\<rparr>"
  consider (out) "scan \<ge> KEY_COUNT"
    | (same) "scan < KEY_COUNT" "controller_keys s ! scan AND 0x80 = value AND 0x80"
    | (changed) "scan < KEY_COUNT" "controller_keys s ! scan AND 0x80 \<noteq> value AND 0x80"
    by fastforce
  then show ?thesis
  proof cases
    case out
    with assms show ?thesis
      by (intro exI [of _ s] exI [of _ "[]"])
         (simp add: set_controller_key_def write_controller_key_def)
  next
    case same
    with assms set_controller_key_same [OF same(1) assms(2) same(2)] show ?thesis
      by (auto simp: unlock_even key_down_def intro!: exI [of _ "[]"])
  next
    case changed
    have rep: "levels_rep (publish_controller_event (?s1\<lparr>controller_keys :=
        (controller_keys ?s1)[scan := if ?p then 0x80 else 0]\<rparr>) scan ?p) (log @ [(scan, ?p)])"
      using assms(1) changed by (intro levels_rep_store) auto
    from set_controller_key_changed [OF changed(1) assms(2) changed(2)]
      rep levels_rep_key_down [OF rep changed(1)] assms(2)
    show ?thesis by (auto simp: unlock_even intro!: exI [of _ "[(scan, ?p)]"])
  qed
qed

lemma clear_scan_levels:
  "levels_rep s log \<Longrightarrow> \<forall>scan \<in> set scans. scan < KEY_COUNT \<Longrightarrow>
   \<exists>ext. levels_rep (clear_scan scans s) (log @ ext)
     \<and> controller_sequence (clear_scan scans s) = controller_sequence s
     \<and> (\<forall>scan < KEY_COUNT. key_down (clear_scan scans s) scan
          \<longleftrightarrow> key_down s scan \<and> scan \<notin> set scans)"
proof (induction scans arbitrary: s log)
  case Nil
  then show ?case by (intro exI [of _ "[]"]) simp
next
  case (Cons scan scans)
  show ?case
  proof (cases "controller_keys s ! scan AND 0x80 \<noteq> 0")
    case True
    let ?s = "publish_controller_event (s\<lparr>controller_keys := (controller_keys s)[scan := 0]\<rparr>)
      scan False"
    have "levels_rep ?s (log @ [(scan, False)])"
      using Cons.prems by (intro levels_rep_store) auto
    from Cons.IH [OF this] Cons.prems obtain ext where
      "levels_rep (clear_scan scans ?s) ((log @ [(scan, False)]) @ ext)"
      "controller_sequence (clear_scan scans ?s) = controller_sequence ?s"
      "\<forall>i < KEY_COUNT. key_down (clear_scan scans ?s) i \<longleftrightarrow> key_down ?s i \<and> i \<notin> set scans"
      by auto
    with True Cons.prems show ?thesis
      by (intro exI [of _ "(scan, False) # ext"])
         (auto simp: key_down_def nth_list_update levels_rep_def)
  next
    case False
    with Cons.IH [OF Cons.prems(1)] Cons.prems(2) show ?thesis
      by (auto simp: key_down_def)
  qed
qed

lemma clear_controller_keys_levels:
  assumes "levels_rep s log" "even (controller_sequence s)"
  shows "\<exists>s' ext. clear_controller_keys s = Some s' \<and> even (controller_sequence s')
    \<and> levels_rep s' (log @ ext) \<and> (\<forall>scan < KEY_COUNT. \<not> key_down s' scan)"
proof -
  have len: "length (controller_keys s) = KEY_COUNT" using assms by (simp add: levels_rep_def)
  let ?s1 = "s\<lparr>controller_sequence := controller_sequence s + 1\<rparr>"
  from clear_scan_levels [of ?s1 log "[0..<KEY_COUNT]"] assms(1) obtain ext where
    "levels_rep (clear_scan [0..<KEY_COUNT] ?s1) (log @ ext)"
    "controller_sequence (clear_scan [0..<KEY_COUNT] ?s1) = controller_sequence s + 1"
    "\<forall>scan < KEY_COUNT. \<not> key_down (clear_scan [0..<KEY_COUNT] ?s1) scan"
    by auto
  with assms(2) len show ?thesis
    by (intro exI [of _ _] exI [of _ ext])
       (auto simp: clear_controller_keys_def lock_even unlock_even Let_def key_down_def)
qed

lemma controller_run_levels:
  "levels_rep s log \<Longrightarrow> even (controller_sequence s) \<Longrightarrow>
   \<exists>s' ext. controller_run ops s = Some s' \<and> levels_rep s' (log @ ext)"
proof (induction ops arbitrary: s log)
  case Nil
  then show ?case by (auto intro: exI [of _ "[]"])
next
  case (Cons x xs)
  have "\<exists>s' ext. controller_step x s = Some s' \<and> even (controller_sequence s')
      \<and> levels_rep s' (log @ ext)"
    using set_controller_key_levels [OF Cons.prems] clear_controller_keys_levels [OF Cons.prems]
    by (cases x) fastforce+
  then obtain s' ext where "controller_step x s = Some s'" "even (controller_sequence s')"
    "levels_rep s' (log @ ext)" by blast
  with Cons.IH [of s' "log @ ext"] show ?case by fastforce
qed

lemma initialize_levels: "levels_rep initialize []" "even (controller_sequence initialize)"
  by (simp_all add: levels_rep_def ring_rep_def key_down_def initialize_def unpublished_def)

section \<open>Properties of the protocol\<close>

text \<open>
  C6. The controller ring loses nothing while the reader keeps up: when at most 1024
  transitions were published since the reader's position, draining returns exactly those
  transitions, in order, and reports no overflow, across every wrap of the 32-bit head.
\<close>

theorem ring_delivers_all:
  assumes "ring_rep s log" and "\<forall>e \<in> set es. fst e < KEY_COUNT"
    and "length es \<le> CONTROLLER_EVENT_CAPACITY"
  shows "drain_from (foldl publish_transition s es) (length log) = (False, es)"
  using ring.drain_complete [OF assms(1,2)] assms(3)
  by (simp add: CONTROLLER_EVENT_CAPACITY_def)

theorem ring_delivers_all_witness:
  "drain_from (foldl publish_transition initialize [(38, True), (38, False)]) 0
     = (False, [(38, True), (38, False)])"
  using ring_delivers_all [of initialize "[]" "[(38, True), (38, False)]"]
    initialize_levels(1)
  by (simp add: levels_rep_def KEY_COUNT_def CONTROLLER_EVENT_CAPACITY_def)

text \<open>
  A reader that fell more than one ring behind is told so and still receives the
  newest 1024 transitions, in order.
\<close>

theorem ring_overflow_reported:
  assumes "ring_rep s log" and "\<forall>e \<in> set es. fst e < KEY_COUNT"
    and "CONTROLLER_EVENT_CAPACITY < length es" and "length es < 2 ^ 32"
  shows "drain_from (foldl publish_transition s es) (length log)
    = (True, drop (length es - CONTROLLER_EVENT_CAPACITY) es)"
  using ring.drain_overflow [OF assms] .

theorem ring_overflow_reported_witness:
  "drain_from (foldl publish_transition initialize (replicate 2000 (7, True))) 0
     = (True, replicate 1024 (7, True))"
  using ring_overflow_reported [of initialize "[]" "replicate 2000 (7, True)"]
    initialize_levels(1)
  by (simp add: levels_rep_def KEY_COUNT_def CONTROLLER_EVENT_CAPACITY_def)

text \<open>
  C24. Every sequence of key writes and clears on a fresh mapping completes (the sequence
  lock is always released), and the key levels it leaves are exactly the replay of the
  transitions it published: level polling and the event ring never disagree.
\<close>

theorem levels_are_replayed_transitions:
  "\<exists>s log. controller_run ops initialize = Some s \<and> ring_rep s log
     \<and> (\<forall>scan \<in> {..<KEY_COUNT}. key_down s scan = replay log scan)"
  using controller_run_levels [OF initialize_levels, of ops] by (auto simp: levels_rep_def)

theorem levels_are_replayed_transitions_witness:
  "\<exists>s log. controller_run [SetKey 38 0x80, SetKey 38 0x80, SetKey 300 1, ClearKeys] initialize
      = Some s \<and> ring_rep s log \<and> (\<forall>scan \<in> {..<KEY_COUNT}. key_down s scan = replay log scan)"
  by (rule levels_are_replayed_transitions)

text \<open>
  The three packed words decode to what was encoded: a lease to its generation and its
  heartbeat (never 0), an auto-type key to its generation and level, visible to that
  generation only, and a ring record to its sequence number, scan code and level.
\<close>

theorem packed_words_roundtrip:
  "lease_generation (encode_lease g h) = g \<and> lease_heartbeat (encode_lease g h) = max h 1
   \<and> auto_key_generation (encode_auto_key g p) = g
   \<and> (auto_key_is_pressed (encode_auto_key g p) g' = (g = g' \<and> p))
   \<and> (let r = event_record q (unat (scan :: u8)) p in
        ucast (drop_bit 32 r) = q \<and> ucast r = scan \<and> ((r AND push_bit 8 1 \<noteq> 0) = p))"
proof -
  have "unat scan < 256" by (rule unat_u8)
  from event_record_sequence [OF this] event_record_scan [OF this] event_record_pressed [OF this]
  show ?thesis by (simp add: Let_def)
qed

text \<open>
  A heartbeat is fresh exactly while at most 500 ms have passed since it was written,
  also when the 32-bit millisecond clock wraps in between.
\<close>

theorem heartbeat_fresh_iff_recent:
  assumes "d < 2 ^ 32"
  shows "heartbeat_is_fresh h (h + of_nat d) \<longleftrightarrow> h \<noteq> 0 \<and> d \<le> 500"
proof -
  have "(of_nat d :: u32) \<le> 500 \<longleftrightarrow> d \<le> 500"
    using assms by (simp add: word_le_nat_alt unat_of_nat)
  then show ?thesis by (simp add: heartbeat_is_fresh_def HEARTBEAT_TIMEOUT_MS_def)
qed

theorem heartbeat_fresh_iff_recent_witness:
  "heartbeat_is_fresh (4294967275 :: u32) (4294967275 + of_nat 31)
   \<and> \<not> heartbeat_is_fresh (4294967275 :: u32) (4294967275 + of_nat 501)"
  using heartbeat_fresh_iff_recent [of 31 4294967275]
    heartbeat_fresh_iff_recent [of 501 4294967275] by simp

subsection \<open>Readers\<close>

lemma and_0x80: "(k :: u8) AND 0x80 = (if bit k 7 then 0x80 else 0)"
  using and_push_bit_one_eq [of k 7] by simp

lemma quiet_read [simp]:
  "read_consistent (quiet_views s) (controller_keys s) = (controller_keys s, True)"
  by (auto simp: read_consistent_def quiet_views_def view_accepted_def find_Some_iff
    split: option.splits)

lemma merge_controller_nth:
  "shared_wf s \<Longrightarrow> i < KEY_COUNT \<Longrightarrow>
   merge_controller s (replicate KEY_COUNT 0) ! i = controller_keys s ! i AND 0x80"
  by (simp add: merge_controller_def merge_keys_def shared_wf_def)

lemma merge_controller_length [simp]:
  "shared_wf s \<Longrightarrow> length (merge_controller s (replicate KEY_COUNT 0)) = KEY_COUNT"
  by (simp add: merge_controller_def merge_keys_def shared_wf_def)

text \<open>
  The bulk reader and the single-key query agree: with no writer in between,
  \<open>read_effective_keys\<close> fills the buffer with 0x80 for exactly the keys that
  \<open>key_is_pressed\<close> reports, 0 for the others, and its flag is \<open>keyboard_is_active\<close>.
\<close>

theorem read_effective_keys_agrees:
  assumes wf: "shared_wf s"
  shows "fst (read_effective_keys s s now) ! unat (scan :: u8)
      = (if key_is_pressed s scan now then 0x80 else 0)
    \<and> snd (read_effective_keys s s now) = keyboard_is_active s now"
proof -
  have i: "unat scan < KEY_COUNT" using unat_u8 by (simp add: KEY_COUNT_def)
  have len: "length (auto_type_keys s) = KEY_COUNT" using wf by (simp add: shared_wf_def)
  show ?thesis
    using wf i len merge_controller_nth [OF wf i]
    by (auto simp: read_effective_keys_def key_is_pressed_def Let_def merge_auto_keys_def and_0x80
      keyboard_is_active_def auto_type_is_active_def auto_type_is_fresh_def
      active_auto_type_generation_def)
qed

lemma initialize_wf: "shared_wf initialize"
  by (simp add: shared_wf_def initialize_def unpublished_def)

theorem read_effective_keys_agrees_witness:
  "fst (read_effective_keys initialize initialize 100) ! unat (30 :: u8)
      = (if key_is_pressed initialize 30 100 then 0x80 else 0)
    \<and> snd (read_effective_keys initialize initialize 100) = keyboard_is_active initialize 100"
  by (rule read_effective_keys_agrees [OF initialize_wf])

text \<open>
  A controller that stops refreshing its heartbeat loses every effect 500 ms later: no
  suppression, no mouse, no controller keyboard, and a key still reported pressed can only
  come from a live auto-type owner.
\<close>

theorem silent_controller_is_released:
  assumes "500 < d" and "d < 2 ^ 32" and "now = controller_heartbeat_ms s + of_nat d"
  shows "\<not> should_suppress s now \<and> \<not> mouse_is_active s now
    \<and> \<not> controller_keyboard_is_active s now
    \<and> (key_is_pressed s scan now \<longrightarrow> auto_type_is_active s now)"
proof -
  have "(of_nat d :: u32) \<le> 500 \<longleftrightarrow> d \<le> 500"
    using assms(2) by (simp add: word_le_nat_alt unat_of_nat)
  then have "\<not> controller_is_fresh s now"
    using assms by (simp add: controller_is_fresh_def heartbeat_is_fresh_def HEARTBEAT_TIMEOUT_MS_def)
  then show ?thesis
    by (auto simp: should_suppress_def mouse_is_active_def controller_keyboard_is_active_def
      key_is_pressed_def Let_def auto_type_is_active_def auto_type_is_fresh_def
      active_auto_type_generation_def)
qed

theorem silent_controller_is_released_witness:
  "\<not> should_suppress (refresh_controller_heartbeat initialize 100) 601
   \<and> \<not> mouse_is_active (refresh_controller_heartbeat initialize 100) 601
   \<and> \<not> controller_keyboard_is_active (refresh_controller_heartbeat initialize 100) 601
   \<and> \<not> key_is_pressed (refresh_controller_heartbeat initialize 100) 30 601"
proof -
  have "601 = controller_heartbeat_ms (refresh_controller_heartbeat initialize 100) + of_nat 501"
    by (simp add: refresh_controller_heartbeat_def max_def word_le_nat_alt)
  moreover have "\<not> auto_type_is_active (refresh_controller_heartbeat initialize 100) 601"
    by (simp add: refresh_controller_heartbeat_def initialize_def unpublished_def
      auto_type_is_active_def auto_type_is_fresh_def active_auto_type_generation_def)
  ultimately show ?thesis
    using silent_controller_is_released [of 501 601 "refresh_controller_heartbeat initialize 100" 30]
    by simp
qed

text \<open>
  The two owners do not disturb each other: retiring the controller leaves exactly the
  auto-type keys pressed, retiring the auto-type owner leaves exactly the controller's keys,
  and a writer of an older generation changes nothing.
\<close>

theorem owners_are_independent:
  assumes wf: "shared_wf s"
  shows "key_is_pressed (retire_controller s) scan now
      = (snd (read_auto_type_keys s s now) \<and> fst (read_auto_type_keys s s now) ! unat scan = 0x80)
    \<and> key_is_pressed (retire_auto_type s (lease_generation (auto_type_lease s))) scan now
      = (controller_keyboard_is_active s now \<and> key_down s (unat scan))
    \<and> (g \<noteq> lease_generation (auto_type_lease s) \<longrightarrow>
        set_auto_type_key s g i v = (s, False) \<and> refresh_auto_type_lease s g t = (s, False)
        \<and> retire_auto_type s g = s)"
proof -
  have i: "unat scan < KEY_COUNT" using unat_u8 by (simp add: KEY_COUNT_def)
  have len: "length (auto_type_keys s) = KEY_COUNT" using wf by (simp add: shared_wf_def)
  show ?thesis
    using i len
    by (auto simp: key_is_pressed_def retire_controller_def reset_keys_def retire_auto_type_def
      read_auto_type_keys_def Let_def controller_keyboard_is_active_def controller_is_fresh_def
      key_down_def set_auto_type_key_def refresh_auto_type_lease_def)
qed

theorem owners_are_independent_witness:
  "key_is_pressed (retire_controller initialize) 30 7
      = (snd (read_auto_type_keys initialize initialize 7)
         \<and> fst (read_auto_type_keys initialize initialize 7) ! unat (30 :: u8) = 0x80)
    \<and> key_is_pressed (retire_auto_type initialize (lease_generation (auto_type_lease initialize))) 30 7
      = (controller_keyboard_is_active initialize 7 \<and> key_down initialize (unat (30 :: u8)))
    \<and> set_auto_type_key initialize 1 0 1 = (initialize, False)"
  using owners_are_independent [OF initialize_wf, of 30 7 1 0 1 7]
  by (simp add: initialize_def unpublished_def)

text \<open>
  The shared layout of version 4: under the C layout rules the fields lie at the
  documented offsets and the structure is 10568 bytes long.
\<close>

theorem version_four_layout:
  "SHARED_KEY_STATE_SIZE = 10568
   \<and> map_of (repr_c_offsets 0 shared_key_fields) ''auto_type_lease'' = Some 40
   \<and> map_of (repr_c_offsets 0 shared_key_fields) ''controller_event_head'' = Some 64
   \<and> map_of (repr_c_offsets 0 shared_key_fields) ''controller_events'' = Some 72
   \<and> map_of (repr_c_offsets 0 shared_key_fields) ''controller_keys'' = Some 8264
   \<and> map_of (repr_c_offsets 0 shared_key_fields) ''auto_type_keys'' = Some 8520"
  by (simp add: SHARED_KEY_STATE_SIZE_def shared_key_fields_def align_up_def
    CONTROLLER_EVENT_CAPACITY_def KEY_COUNT_def)

end
