(* ===== verification/Trusik_Concurrency.thy ===== *)
theory Trusik_Concurrency
  imports Trusik_Protocol
begin

unbundle bit_operations_syntax

text \<open>
  The lock-free parts of \<^verbatim>\<open>crates/trusik-protocol/src/lib.rs\<close> under interleaving. Any
  number of threads run \<open>begin_auto_type\<close>, \<open>set_auto_type_key\<close>,
  \<open>refresh_auto_type_lease\<close> and \<open>retire_auto_type\<close>; one step is one atomic access of one
  thread (a load, a fetch-and-add or a compare-and-exchange, which may fail spuriously), and
  the value a thread loaded is kept in its program counter. The invariants hold in every
  reachable state, for every schedule.

  The second part is the sequence lock of the controller's key buffer: a reader whose
  sequence was even and unchanged around its byte loads has seen one consistent buffer.
\<close>

section \<open>Threads that share the auto-type lease\<close>

datatype at_pc =
    AIdle
  | BeginFetched u32 u32            \<comment> \<open>generation, now\<close>
  | BeginLoop u32 u32 u64           \<comment> \<open>generation, now, current lease\<close>
  | SetLoaded u32 nat bool u64      \<comment> \<open>generation, scan, pressed, current key\<close>
  | SetChecked u32 nat bool u64
  | SetStored u32
  | RefreshLoop u32 u32 u64         \<comment> \<open>generation, now, current lease\<close>
  | RetireLoop u32 u64              \<comment> \<open>generation, current lease\<close>
  | APanicked

record at_state =
  at_counter :: u32
  at_lease :: u64
  at_keys :: "nat \<Rightarrow> u64"
  at_pcs :: "nat \<Rightarrow> at_pc"

datatype at_act = ABegin | AExhaust | ASet u32 | ARefresh u32 | ARetire u32

definition at_init :: at_state where
  "at_init = \<lparr>at_counter = 0, at_lease = 0, at_keys = (\<lambda>_. 0), at_pcs = (\<lambda>_. AIdle)\<rparr>"

definition goto :: "at_state \<Rightarrow> nat \<Rightarrow> at_pc \<Rightarrow> at_state" where
  "goto s t pc = s\<lparr>at_pcs := (at_pcs s)(t := pc)\<rparr>"

inductive at_step :: "at_act \<Rightarrow> at_state \<Rightarrow> at_state \<Rightarrow> bool" where
  begin_fetch: "at_pcs s t = AIdle \<Longrightarrow> g = at_counter s + 1 \<Longrightarrow> g \<noteq> 0 \<Longrightarrow>
    at_step ABegin s (goto (s\<lparr>at_counter := g\<rparr>) t (BeginFetched g now))"
| begin_exhausted: "at_pcs s t = AIdle \<Longrightarrow> at_counter s + 1 = 0 \<Longrightarrow>
    at_step AExhaust s (goto (s\<lparr>at_counter := 0\<rparr>) t APanicked)"
| begin_load: "at_pcs s t = BeginFetched g now \<Longrightarrow>
    at_step ABegin s (goto s t (BeginLoop g now (at_lease s)))"
| begin_newer: "at_pcs s t = BeginLoop g now cur \<Longrightarrow> lease_generation cur \<ge> g \<Longrightarrow>
    at_step ABegin s (goto s t AIdle)"
| begin_cas: "at_pcs s t = BeginLoop g now cur \<Longrightarrow> lease_generation cur < g \<Longrightarrow>
    at_lease s = cur \<Longrightarrow>
    at_step ABegin s (goto (s\<lparr>at_lease := encode_lease g now\<rparr>) t AIdle)"
| begin_cas_failed: "at_pcs s t = BeginLoop g now cur \<Longrightarrow> lease_generation cur < g \<Longrightarrow>
    at_step ABegin s (goto s t (BeginLoop g now (at_lease s)))"
| set_load: "at_pcs s t = AIdle \<Longrightarrow> scan < KEY_COUNT \<Longrightarrow>
    at_step (ASet g) s (goto s t (SetLoaded g scan p (at_keys s scan)))"
| set_reject: "at_pcs s t = SetLoaded g scan p cur \<Longrightarrow>
    lease_generation (at_lease s) \<noteq> g \<or> auto_key_generation cur > g \<Longrightarrow>
    at_step (ASet g) s (goto s t AIdle)"
| set_check: "at_pcs s t = SetLoaded g scan p cur \<Longrightarrow>
    lease_generation (at_lease s) = g \<Longrightarrow> \<not> auto_key_generation cur > g \<Longrightarrow>
    at_step (ASet g) s (goto s t (SetChecked g scan p cur))"
| set_cas: "at_pcs s t = SetChecked g scan p cur \<Longrightarrow> at_keys s scan = cur \<Longrightarrow>
    at_step (ASet g) s
      (goto (s\<lparr>at_keys := (at_keys s)(scan := encode_auto_key g p)\<rparr>) t (SetStored g))"
| set_cas_failed: "at_pcs s t = SetChecked g scan p cur \<Longrightarrow>
    at_step (ASet g) s (goto s t (SetLoaded g scan p (at_keys s scan)))"
| set_done: "at_pcs s t = SetStored g \<Longrightarrow> at_step (ASet g) s (goto s t AIdle)"
| refresh_load: "at_pcs s t = AIdle \<Longrightarrow>
    at_step (ARefresh g) s (goto s t (RefreshLoop g now (at_lease s)))"
| refresh_reject: "at_pcs s t = RefreshLoop g now cur \<Longrightarrow> lease_generation cur \<noteq> g \<Longrightarrow>
    at_step (ARefresh g) s (goto s t AIdle)"
| refresh_cas: "at_pcs s t = RefreshLoop g now cur \<Longrightarrow> lease_generation cur = g \<Longrightarrow>
    at_lease s = cur \<Longrightarrow>
    at_step (ARefresh g) s (goto (s\<lparr>at_lease := encode_lease g now\<rparr>) t AIdle)"
| refresh_cas_failed: "at_pcs s t = RefreshLoop g now cur \<Longrightarrow> lease_generation cur = g \<Longrightarrow>
    at_step (ARefresh g) s (goto s t (RefreshLoop g now (at_lease s)))"
| retire_load: "at_pcs s t = AIdle \<Longrightarrow>
    at_step (ARetire g) s (goto s t (RetireLoop g (at_lease s)))"
| retire_reject: "at_pcs s t = RetireLoop g cur \<Longrightarrow> lease_generation cur \<noteq> g \<Longrightarrow>
    at_step (ARetire g) s (goto s t AIdle)"
| retire_cas: "at_pcs s t = RetireLoop g cur \<Longrightarrow> lease_generation cur = g \<Longrightarrow>
    at_lease s = cur \<Longrightarrow>
    at_step (ARetire g) s (goto (s\<lparr>at_lease := 0\<rparr>) t AIdle)"
| retire_cas_failed: "at_pcs s t = RetireLoop g cur \<Longrightarrow> lease_generation cur = g \<Longrightarrow>
    at_step (ARetire g) s (goto s t (RetireLoop g (at_lease s)))"

inductive_cases set_stepE: "at_step (ASet g) s s'"
inductive_cases retire_stepE: "at_step (ARetire g) s s'"

inductive at_reach :: "at_act set \<Rightarrow> at_state \<Rightarrow> bool" for A where
  at_start: "at_reach A at_init"
| at_next: "at_reach A s \<Longrightarrow> at_step a s s' \<Longrightarrow> a \<in> A \<Longrightarrow> at_reach A s'"

lemma goto_simps [simp]:
  "at_counter (goto s t pc) = at_counter s" "at_lease (goto s t pc) = at_lease s"
  "at_keys (goto s t pc) = at_keys s" "at_pcs (goto s t pc) = (at_pcs s)(t := pc)"
  by (simp_all add: goto_def)

subsection \<open>Key tags never go back\<close>

definition checked_inv :: "at_state \<Rightarrow> bool" where
  "checked_inv s \<longleftrightarrow> (\<forall>t g scan p cur. at_pcs s t = SetChecked g scan p cur \<longrightarrow>
     auto_key_generation cur \<le> g)"

lemma checked_inv_step: "at_step a s s' \<Longrightarrow> checked_inv s \<Longrightarrow> checked_inv s'"
  by (induction rule: at_step.induct) (auto simp: checked_inv_def)

lemma checked_inv_reach: "at_reach A s \<Longrightarrow> checked_inv s"
  by (induction rule: at_reach.induct) (auto simp: checked_inv_def at_init_def
    intro: checked_inv_step [unfolded checked_inv_def, rule_format])

text \<open>
  Whatever the schedule, the generation tag of an auto-type key never decreases, and
  the lease's generation decreases only when a thread retires exactly that generation.
\<close>

theorem auto_type_tags_monotone:
  assumes "at_reach UNIV s" and "at_step a s s'"
  shows "auto_key_generation (at_keys s i) \<le> auto_key_generation (at_keys s' i)
    \<and> (lease_generation (at_lease s) \<le> lease_generation (at_lease s')
       \<or> a = ARetire (lease_generation (at_lease s)) \<and> at_lease s' = 0)"
  using assms(2) checked_inv_reach [OF assms(1)]
  by (cases rule: at_step.cases) (auto simp: checked_inv_def)

lemma older_tag_not_pressed:
  "auto_key_generation k \<le> g \<Longrightarrow> g < h \<Longrightarrow> \<not> auto_key_is_pressed k h"
  by (auto simp: auto_key_is_pressed_def)

text \<open>
  C25. A writer that lost the lease to a newer generation cannot disturb the new owner: none
  of its steps changes whether any key is pressed for the current lease, even when it passed
  its check before the newer owner started.
\<close>

theorem stale_writer_is_invisible:
  assumes "at_reach UNIV s" and "at_step (ASet g) s s'"
    and "g < lease_generation (at_lease s)"
  shows "at_lease s' = at_lease s
    \<and> auto_key_is_pressed (at_keys s' i) (lease_generation (at_lease s))
      = auto_key_is_pressed (at_keys s i) (lease_generation (at_lease s))"
  using assms(2,3) checked_inv_reach [OF assms(1)]
  by (elim set_stepE) (auto simp: checked_inv_def, (metis older_tag_not_pressed)+)

subsection \<open>The latest start wins\<close>

definition starting :: "at_pc \<Rightarrow> u32 \<Rightarrow> bool" where
  "starting pc g = (case pc of BeginFetched h _ \<Rightarrow> h = g | BeginLoop h _ _ \<Rightarrow> h = g | _ \<Rightarrow> False)"

lemma starting_simps [simp]:
  "\<not> starting AIdle g" "starting (BeginFetched h now) g \<longleftrightarrow> h = g"
  "starting (BeginLoop h now cur) g \<longleftrightarrow> h = g" "\<not> starting (SetLoaded h scan p k) g"
  "\<not> starting (SetChecked h scan p k) g" "\<not> starting (SetStored h) g"
  "\<not> starting (RefreshLoop h now cur) g" "\<not> starting (RetireLoop h cur) g"
  "\<not> starting APanicked g"
  by (simp_all add: starting_def)

definition begin_inv :: "at_state \<Rightarrow> bool" where
  "begin_inv s \<longleftrightarrow> lease_generation (at_lease s) \<le> at_counter s
     \<and> (\<forall>t g now cur. at_pcs s t = BeginLoop g now cur \<longrightarrow>
          lease_generation cur \<le> lease_generation (at_lease s))
     \<and> (\<forall>t g. starting (at_pcs s t) g \<longrightarrow> g \<le> at_counter s)
     \<and> (\<forall>g. g \<le> at_counter s \<longrightarrow>
          g \<le> lease_generation (at_lease s) \<or> (\<exists>t. starting (at_pcs s t) g))"

lemma word_le_Suc: "(c::u32) + 1 \<noteq> 0 \<Longrightarrow> g \<le> c + 1 \<longleftrightarrow> g \<le> c \<or> g = c + 1"
  by (auto simp: word_le_nat_alt word_unat_eq_iff unatSuc add.commute)

text \<open>A move to a program counter that starts the same generations keeps the invariant.\<close>

lemma begin_inv_goto:
  assumes "begin_inv s" "\<And>g. starting pc g = starting (at_pcs s t) g"
    and "\<And>g now cur. pc = BeginLoop g now cur \<Longrightarrow>
      lease_generation cur \<le> lease_generation (at_lease s)"
  shows "begin_inv (goto s t pc)"
proof -
  have "starting (((at_pcs s)(t := pc)) t') g = starting (at_pcs s t') g" for t' g
    using assms(2) by simp
  with assms(1,3) show ?thesis by (simp add: begin_inv_def)
qed

text \<open>A thread may leave its start once the lease has reached its generation.\<close>

lemma begin_inv_leave:
  assumes "begin_inv s" "starting (at_pcs s t) = (\<lambda>h. h = g)"
    and "g \<le> lease_generation (at_lease s)"
  shows "begin_inv (goto s t AIdle)"
  using assms unfolding begin_inv_def by (simp add: fun_eq_iff) metis

lemma begin_inv_raise:
  assumes "begin_inv s" "lease_generation (at_lease s) \<le> lease_generation l"
    and "lease_generation l \<le> at_counter s"
  shows "begin_inv (s\<lparr>at_lease := l\<rparr>)"
  using assms unfolding begin_inv_def by simp (meson order.trans)

lemma begin_inv_fetch:
  assumes "begin_inv s" "at_pcs s t = AIdle" "g = at_counter s + 1" "g \<noteq> 0"
  shows "begin_inv (goto (s\<lparr>at_counter := g\<rparr>) t (BeginFetched g now))"
proof -
  have grow: "h \<le> at_counter s \<Longrightarrow> h \<le> g" for h using assms by (simp add: word_le_Suc)
  have pending: "\<exists>t'. starting (((at_pcs s)(t := BeginFetched g now)) t') h"
    if "h = g \<or> (\<exists>t'. starting (at_pcs s t') h)" for h
    using that assms(2) by (metis fun_upd_apply starting_simps(1,2))
  show ?thesis unfolding begin_inv_def
  proof (intro conjI allI impI)
    show "lease_generation (at_lease (goto (s\<lparr>at_counter := g\<rparr>) t (BeginFetched g now)))
        \<le> at_counter (goto (s\<lparr>at_counter := g\<rparr>) t (BeginFetched g now))"
      using assms(1) grow by (simp add: begin_inv_def)
  qed (use assms grow pending in \<open>auto simp: begin_inv_def word_le_Suc split: if_splits\<close>,
    metis starting_simps(1))
qed

lemma begin_inv_step:
  assumes "at_step a s s'" "begin_inv s" "a \<noteq> AExhaust" "\<forall>g. a \<noteq> ARetire g"
  shows "begin_inv s'"
  using assms
proof (induction rule: at_step.induct)
  case (begin_fetch s t g now)
  then show ?case by (intro begin_inv_fetch) auto
next
  case (begin_newer s t g now cur)
  moreover from begin_newer have "lease_generation cur \<le> lease_generation (at_lease s)"
    by (auto simp: begin_inv_def)
  ultimately show ?case by (intro begin_inv_leave [where g = g]) (auto simp: fun_eq_iff)
next
  case (begin_cas s t g now cur)
  then have "g \<le> at_counter s" unfolding begin_inv_def by (metis starting_simps(3))
  with begin_cas have "begin_inv (s\<lparr>at_lease := encode_lease g now\<rparr>)"
    by (intro begin_inv_raise) auto
  with begin_cas show ?case by (intro begin_inv_leave [where g = g]) (auto simp: fun_eq_iff)
next
  case (refresh_cas s t g now cur)
  then have "begin_inv (s\<lparr>at_lease := encode_lease g now\<rparr>)"
    by (intro begin_inv_raise) (auto simp: begin_inv_def)
  with refresh_cas show ?case by (intro begin_inv_goto) auto
next
  case (set_cas s t g scan p cur)
  then have "begin_inv (s\<lparr>at_keys := (at_keys s)(scan := encode_auto_key g p)\<rparr>)"
    by (simp add: begin_inv_def)
  with set_cas show ?case by (intro begin_inv_goto) auto
qed (auto intro!: begin_inv_goto)

lemma begin_inv_reach:
  "at_reach A s \<Longrightarrow> A \<subseteq> {ABegin} \<union> range ASet \<union> range ARefresh \<Longrightarrow> begin_inv s"
proof (induction rule: at_reach.induct)
  case at_start
  show ?case by (simp add: begin_inv_def at_init_def)
next
  case (at_next s a s')
  then show ?case by (blast intro: begin_inv_step)
qed

text \<open>
  C11. Concurrent starts leave only the latest generation active: in every schedule of
  starts, key writes and refreshes, once no start is in progress the lease belongs to the
  highest generation that was handed out.
\<close>

theorem latest_start_owns_lease:
  assumes "at_reach ({ABegin} \<union> range ASet \<union> range ARefresh) s"
    and "\<forall>t g. \<not> starting (at_pcs s t) g"
  shows "lease_generation (at_lease s) = at_counter s"
  using begin_inv_reach [OF assms(1) order_refl] assms(2)
  unfolding begin_inv_def by (meson order.antisym order_refl)

text \<open>A schedule with two starters: the older one loads, the newer installs, the older retries.\<close>

definition two_starts :: at_state where
  "two_starts =
     (let s1 = goto (at_init\<lparr>at_counter := 1\<rparr>) 0 (BeginFetched 1 100);
          s2 = goto s1 0 (BeginLoop 1 100 0);
          s3 = goto (s2\<lparr>at_counter := 2\<rparr>) 5 (BeginFetched 2 100);
          s4 = goto s3 5 (BeginLoop 2 100 0);
          s5 = goto (s4\<lparr>at_lease := encode_lease 2 100\<rparr>) 5 AIdle;
          s6 = goto s5 0 (BeginLoop 1 100 (encode_lease 2 100))
      in goto s6 0 AIdle)"

lemma two_starts_simps [simp]:
  "at_counter two_starts = 2" "at_lease two_starts = encode_lease 2 100"
  "at_keys two_starts = (\<lambda>_. 0)" "at_pcs two_starts = (\<lambda>_. AIdle)"
  by (auto simp: two_starts_def at_init_def Let_def)

lemma two_starts_reachable: "at_reach ({ABegin} \<union> range ASet \<union> range ARefresh) two_starts"
proof -
  let ?A = "{ABegin} \<union> range ASet \<union> range ARefresh"
  note go = at_reach.at_next [where A = ?A and a = ABegin, OF _ _ UnI1 [OF UnI1]]
  define s1 where "s1 = goto (at_init\<lparr>at_counter := 1\<rparr>) 0 (BeginFetched 1 100)"
  define s2 where "s2 = goto s1 0 (BeginLoop 1 100 0)"
  define s3 where "s3 = goto (s2\<lparr>at_counter := 2\<rparr>) 5 (BeginFetched 2 100)"
  define s4 where "s4 = goto s3 5 (BeginLoop 2 100 0)"
  define s5 where "s5 = goto (s4\<lparr>at_lease := encode_lease 2 100\<rparr>) 5 AIdle"
  define s6 where "s6 = goto s5 0 (BeginLoop 1 100 (encode_lease 2 100))"
  have f [simp]: "at_counter s1 = 1" "at_pcs s1 0 = BeginFetched 1 100" "at_lease s1 = 0"
    "at_counter s2 = 1" "at_pcs s2 5 = AIdle" "at_lease s2 = 0" "at_pcs s2 0 = BeginLoop 1 100 0"
    "at_pcs s3 5 = BeginFetched 2 100" "at_lease s3 = 0" "at_pcs s3 0 = BeginLoop 1 100 0"
    "at_pcs s4 5 = BeginLoop 2 100 0" "at_lease s4 = 0" "at_pcs s4 0 = BeginLoop 1 100 0"
    "at_pcs s5 0 = BeginLoop 1 100 0" "at_lease s5 = encode_lease 2 100"
    "at_pcs s6 0 = BeginLoop 1 100 (encode_lease 2 100)"
    by (simp_all add: s1_def s2_def s3_def s4_def s5_def s6_def at_init_def)
  have "at_step ABegin at_init s1" unfolding s1_def
    by (rule at_step.begin_fetch) (simp_all add: at_init_def)
  moreover have "at_step ABegin s1 s2"
    using at_step.begin_load [of s1 0 1 100] by (simp add: s2_def)
  moreover have "at_step ABegin s2 s3" unfolding s3_def
    by (rule at_step.begin_fetch) simp_all
  moreover have "at_step ABegin s3 s4"
    using at_step.begin_load [of s3 5 2 100] by (simp add: s4_def)
  moreover have "at_step ABegin s4 s5" unfolding s5_def
    by (rule at_step.begin_cas) (simp_all add: word_less_nat_alt)
  moreover have "at_step ABegin s5 s6"
    using at_step.begin_cas_failed [of s5 0 1 100 0] by (simp add: s6_def word_less_nat_alt)
  moreover have "at_step ABegin s6 (goto s6 0 AIdle)"
    using at_step.begin_newer [of s6 0 1 100 "encode_lease 2 100"] by (simp add: word_le_nat_alt)
  moreover have "goto s6 0 AIdle = two_starts"
    by (simp add: two_starts_def Let_def s1_def s2_def s3_def s4_def s5_def s6_def)
  ultimately show ?thesis
    by (metis at_reach.at_start go singletonI)
qed

lemma at_reach_mono: "at_reach A s \<Longrightarrow> A \<subseteq> B \<Longrightarrow> at_reach B s"
  by (induction rule: at_reach.induct) (auto intro: at_reach.intros)

theorem latest_start_owns_lease_witness:
  "lease_generation (at_lease two_starts) = at_counter two_starts \<and> at_counter two_starts = 2"
  using latest_start_owns_lease [OF two_starts_reachable] by simp

theorem auto_type_tags_monotone_witness:
  "lease_generation (at_lease two_starts) \<le> lease_generation (at_lease (goto two_starts 0 AIdle))"
proof -
  have "at_step (ASet 1) two_starts (goto two_starts 0 (SetLoaded 1 7 True 0))"
    using at_step.set_load [of two_starts 0 7 1 True] by (simp add: KEY_COUNT_def)
  from auto_type_tags_monotone [OF at_reach_mono [OF two_starts_reachable] this]
  show ?thesis by simp
qed

theorem stale_writer_is_invisible_witness:
  "at_lease (goto two_starts 0 (SetLoaded 1 7 True 0)) = at_lease two_starts
   \<and> auto_key_is_pressed (at_keys (goto two_starts 0 (SetLoaded 1 7 True 0)) 7) 2
     = auto_key_is_pressed (at_keys two_starts 7) 2"
proof -
  have st: "at_step (ASet 1) two_starts (goto two_starts 0 (SetLoaded 1 7 True 0))"
    using at_step.set_load [of two_starts 0 7 1 True] by (simp add: KEY_COUNT_def)
  have lt: "1 < lease_generation (at_lease two_starts)"
    by (simp add: word_less_nat_alt)
  from stale_writer_is_invisible [OF at_reach_mono [OF two_starts_reachable] st lt, of 7]
  show ?thesis by simp
qed

section \<open>The sequence lock\<close>

record seq_memory =
  sm_sequence :: u32
  sm_keys :: "u8 list"

text \<open>
  What one access of a writer does to the sequence and the bytes: \<open>lock_sequence\<close> takes an
  even sequence to the next odd one, the bytes are stored only while it is odd, and
  \<open>unlock_sequence\<close> makes it even again. Accesses to other fields leave both alone.
\<close>

inductive seq_step :: "seq_memory \<Rightarrow> seq_memory \<Rightarrow> bool" where
  seq_lock: "lock_sequence (sm_sequence m) = Some q \<Longrightarrow> seq_step m (m\<lparr>sm_sequence := q\<rparr>)"
| seq_store: "sm_sequence m AND 1 \<noteq> 0 \<Longrightarrow> seq_step m (m\<lparr>sm_keys := (sm_keys m)[i := v]\<rparr>)"
| seq_unlock: "sm_sequence m AND 1 \<noteq> 0 \<Longrightarrow>
    seq_step m (m\<lparr>sm_sequence := unlock_sequence (sm_sequence m)\<rparr>)"
| seq_other: "seq_step m m"

definition seq_changes :: "(nat \<Rightarrow> seq_memory) \<Rightarrow> nat \<Rightarrow> nat \<Rightarrow> nat" where
  "seq_changes h a b = length (filter (\<lambda>t. sm_sequence (h t) \<noteq> sm_sequence (h (Suc t))) [a..<b])"

lemma seq_step_cases:
  assumes "seq_step m m'"
  shows "sm_sequence m' = sm_sequence m \<or> sm_sequence m' = sm_sequence m + 1"
    and "sm_sequence m' = sm_sequence m \<Longrightarrow> sm_sequence m AND 1 = 0 \<Longrightarrow> m' = m"
  using assms by (auto elim!: seq_step.cases simp: lock_sequence_def unlock_sequence_def
    split: if_splits)

lemma seq_changes_count:
  assumes "\<And>t. a \<le> t \<Longrightarrow> t < b \<Longrightarrow> seq_step (h t) (h (Suc t))" "a \<le> b"
  shows "sm_sequence (h b) = sm_sequence (h a) + of_nat (seq_changes h a b)"
  using assms(2,1)
proof (induction b rule: dec_induct)
  case base
  show ?case by (simp add: seq_changes_def)
next
  case (step n)
  with seq_step_cases(1) [of "h n" "h (Suc n)"] show ?case
    by (auto simp: seq_changes_def)
qed

lemma seq_quiet:
  assumes "\<And>t. a \<le> t \<Longrightarrow> t < b \<Longrightarrow> seq_step (h t) (h (Suc t))"
    and "seq_changes h a b = 0" "sm_sequence (h a) AND 1 = 0" "a \<le> t" "t \<le> b"
  shows "h t = h a"
  using assms(4,5)
proof (induction t rule: dec_induct)
  case (step n)
  have "sm_sequence (h (Suc n)) = sm_sequence (h n)"
    using assms(2) step.hyps step.prems
    by (fastforce simp: seq_changes_def filter_empty_conv)
  moreover from step.hyps step.prems assms(1) have "seq_step (h n) (h (Suc n))" by simp
  moreover from step.prems step.IH have "h n = h a" by simp
  ultimately show ?case using seq_step_cases(2) [of "h n" "h (Suc n)"] assms(3) by simp
qed simp



end
