(* ===== verification/Eq_Events.thy ===== *)
theory Eq_Events
  imports Rust_Prelude "HOL-Library.Option_ord"
begin

text \<open>
  The vocabulary of the log pipeline (\<^verbatim>\<open>crates/eqlog/src/event.rs\<close> and
  \<^verbatim>\<open>crates/eqlog/src/raw.rs\<close>): sources, record identities, civil seconds, the events a
  parser emits, and the decoding of one complete log record.

  A \<open>Named\<close> or other newtype around a shared string is the string; a civil second is an
  \<^typ>\<open>int\<close> whose arithmetic is checked at 64 bits where the code does it. Parsing of the
  civil calendar belongs to the chrono crate and is a parameter of the decoder.
\<close>

section \<open>Sources and records\<close>

type_synonym LogSourceId = string
type_synonym EqSecond = int

record LogSource =
  ls_id :: LogSourceId
  ls_character :: string
  ls_server :: string

record SourceRecordId =
  rid_source :: LogSourceId
  rid_generation :: nat
  rid_sequence :: nat

definition eq_second_checked_add :: "EqSecond \<Rightarrow> int \<Rightarrow> EqSecond option" where
  "eq_second_checked_add self seconds = i64_checked (self + seconds)"

definition eq_second_checked_sub :: "EqSecond \<Rightarrow> EqSecond \<Rightarrow> int option" where
  "eq_second_checked_sub self other = i64_checked (self - other)"

section \<open>Events\<close>

datatype LogEventDomain = IdentityDomain | PetsDomain | CharacterDomain | CastingDomain
  | CombatDomain | ChatDomain | NotificationDomain | ProgressDomain | ConsiderDomain

record PersonaLoaded =
  pl_class_name :: string
  pl_class_abbreviation :: string

record WhoResult =
  who_character :: string
  who_level :: "nat option"
  who_title :: "string option"
  who_class_name :: "string option"
  who_class_abbreviation :: "string option"
  who_race :: "string option"
  who_guild :: "string option"
  who_zone :: "string option"
  who_zone_short :: "string option"
  who_is_anonymous :: bool
  who_is_afk :: bool
  who_is_lfg :: bool

datatype IdentityEvent = WhoResultEvent WhoResult | PersonaLoadedEvent PersonaLoaded

datatype PetEvent = OwnershipClaimed (claimed_pet: string) (claimed_owner_name: string)

datatype CastKind = Spell | Song

datatype CastingEvent = CastStarted string CastKind | CastFizzled "string option"
  | CastInterrupted "string option" | CastResisted string | ConcentrationRecovered

datatype AttackProblem = OutOfRange | TooClose | LineOfSight

datatype Perspective = Named | You | Your | Yourself

record ObservedCombatant =
  oc_name :: string
  oc_perspective :: Perspective

definition observed_named :: "string \<Rightarrow> ObservedCombatant" where
  "observed_named name = \<lparr>oc_name = name, oc_perspective = Named\<rparr>"

definition observed_you :: ObservedCombatant where
  "observed_you = \<lparr>oc_name = ''You'', oc_perspective = You\<rparr>"

datatype DamageKind = Melee | DirectSpell | DamageOverTime | Proc | DamageShield | Bane | Pet
  | OtherIncluded

datatype DamageOutcome = Hit | Miss | Dodge | Parry | Block | Riposte | Invulnerable | Absorbed
  | Rejected

record DamageModifiers =
  mod_critical :: bool
  mod_lucky :: bool
  mod_strikethrough :: bool
  mod_wild_rampage :: bool
  mod_twincast :: bool

datatype ParserProvenance = ByMelee | ByDirectSpell | ByPeriodicSpell | ByNonMelee
  | ByCombatAttempt | BySlain

record DamageObservation =
  dmg_attacker :: ObservedCombatant
  dmg_explicit_owner :: "ObservedCombatant option"
  dmg_defender :: ObservedCombatant
  dmg_amount :: nat
  dmg_kind :: DamageKind
  dmg_ability :: "string option"
  dmg_outcome :: DamageOutcome
  dmg_modifiers :: DamageModifiers
  dmg_provenance :: ParserProvenance

record CombatAttempt =
  att_attacker :: ObservedCombatant
  att_defender :: ObservedCombatant
  att_outcome :: DamageOutcome
  att_kind :: DamageKind
  att_ability :: "string option"
  att_provenance :: ParserProvenance

record TargetSlainObservation =
  slain_target :: ObservedCombatant
  slain_killer :: "ObservedCombatant option"

record PetOwnershipObservation =
  own_pet :: ObservedCombatant
  own_owner :: ObservedCombatant

datatype CombatEvent = Damage DamageObservation | Attempt CombatAttempt
  | TargetSlain TargetSlainObservation | PetOwnership PetOwnershipObservation
  | PlayerEvidence ObservedCombatant | ZoneChanged string
  | WeaponDamageDealt | DamageTaken | AttackBlocked AttackProblem

datatype ChatEvent = IncomingTell (tell_sender: string) (tell_message: string)

datatype ProgressEvent = LevelGained nat | AlternateAdvancementPointGained

datatype ConsiderDifficulty = Green | LightBlue | Blue | White | Yellow | Red | UnknownDifficulty

datatype ConsiderEvent = ConsiderTarget string ConsiderDifficulty "nat option" | NoTarget

datatype NotificationEvent = GroupInvite string | GroupInviteAccepted | GroupInviteDeclined string
  | RaidInvite string | TradeProposed string | TradeCancelled | ResurrectionOffered
  | CharacterSlain string

datatype CharacterEvent = AutoAttackChanged bool | Died | Revived

datatype LogEvent = IdentityLog IdentityEvent | PetLog PetEvent | CharacterLog CharacterEvent
  | CastingLog CastingEvent | CombatLog CombatEvent | ChatLog ChatEvent
  | NotificationLog NotificationEvent | ProgressLog ProgressEvent | ConsiderLog ConsiderEvent

fun log_event_domain :: "LogEvent \<Rightarrow> LogEventDomain" where
  "log_event_domain (IdentityLog _) = IdentityDomain"
| "log_event_domain (PetLog _) = PetsDomain"
| "log_event_domain (CharacterLog _) = CharacterDomain"
| "log_event_domain (CastingLog _) = CastingDomain"
| "log_event_domain (CombatLog _) = CombatDomain"
| "log_event_domain (ChatLog _) = ChatDomain"
| "log_event_domain (NotificationLog _) = NotificationDomain"
| "log_event_domain (ProgressLog _) = ProgressDomain"
| "log_event_domain (ConsiderLog _) = ConsiderDomain"

text \<open>The derived order of \<open>DamageKind\<close>: the order of its constructors.\<close>

fun damage_kind_index :: "DamageKind \<Rightarrow> nat" where
  "damage_kind_index Melee = 0"
| "damage_kind_index DirectSpell = 1"
| "damage_kind_index DamageOverTime = 2"
| "damage_kind_index Proc = 3"
| "damage_kind_index DamageShield = 4"
| "damage_kind_index Bane = 5"
| "damage_kind_index Pet = 6"
| "damage_kind_index OtherIncluded = 7"

lemma damage_kind_index_inj [simp]: "damage_kind_index a = damage_kind_index b \<longleftrightarrow> a = b"
  by (cases a; cases b) simp_all

instantiation DamageKind :: linorder
begin

definition less_eq_DamageKind_def: "a \<le> b \<longleftrightarrow> damage_kind_index a \<le> damage_kind_index b"
definition less_DamageKind_def: "a < b \<longleftrightarrow> damage_kind_index a < damage_kind_index b"

instance
proof
  fix a b :: DamageKind
  assume "a \<le> b" "b \<le> a"
  then have "damage_kind_index a = damage_kind_index b"
    unfolding less_eq_DamageKind_def by (rule antisym)
  then show "a = b" by simp
qed (auto simp: less_eq_DamageKind_def less_DamageKind_def)

end

section \<open>Decoding one record\<close>

record EqTimestamp =
  ts_original :: string
  ts_second :: "EqSecond option"

text \<open>
  The civil time parser of the chrono crate takes a value and a format and gives the
  seconds of the parsed time; the code tries two formats in turn.
\<close>

type_synonym civil_parser = "string \<Rightarrow> string \<Rightarrow> EqSecond option"

definition parse_eq_second :: "civil_parser \<Rightarrow> string \<Rightarrow> EqSecond option" where
  "parse_eq_second parse_from_str value =
     opt_or (parse_from_str value ''%a %b %e %H:%M:%S %Y'')
            (parse_from_str value ''%a %b %d %H:%M:%S %Y'')"

definition eq_timestamp_new :: "civil_parser \<Rightarrow> string \<Rightarrow> EqTimestamp" where
  "eq_timestamp_new parse_from_str original =
     \<lparr>ts_original = original, ts_second = parse_eq_second parse_from_str original\<rparr>"

record RawLogLine =
  raw_source :: LogSource
  raw_timestamp :: "EqTimestamp option"
  raw_body :: string

record DecodedRawLogLine =
  dec_line :: RawLogLine
  dec_had_invalid_utf8 :: bool

text \<open>
  \<open>String::from_utf8_lossy\<close> reads one chunk at a time: the length of the scalar value, or of
  the longest prefix of one, that the bytes begin with, and whether it is complete.
\<close>

definition continuation :: "char \<Rightarrow> bool" where
  "continuation c = (128 \<le> byte c \<and> byte c \<le> 191)"

definition second_of_three :: "char \<Rightarrow> char \<Rightarrow> bool" where
  "second_of_three a b = (continuation b \<and> (byte a = 224 \<longrightarrow> 160 \<le> byte b)
     \<and> (byte a = 237 \<longrightarrow> byte b \<le> 159))"

definition second_of_four :: "char \<Rightarrow> char \<Rightarrow> bool" where
  "second_of_four a b = (continuation b \<and> (byte a = 240 \<longrightarrow> 144 \<le> byte b)
     \<and> (byte a = 244 \<longrightarrow> byte b \<le> 143))"

fun utf8_chunk :: "string \<Rightarrow> nat \<times> bool" where
  "utf8_chunk [] = (0, True)"
| "utf8_chunk (a # s) =
     (if byte a < 128 then (1, True)
      else if 194 \<le> byte a \<and> byte a \<le> 223 then
        (case s of b # _ \<Rightarrow> if continuation b then (2, True) else (1, False) | [] \<Rightarrow> (1, False))
      else if 224 \<le> byte a \<and> byte a \<le> 239 then
        (case s of
           b # s' \<Rightarrow> if second_of_three a b
             then (case s' of c # _ \<Rightarrow> if continuation c then (3, True) else (2, False)
                    | [] \<Rightarrow> (2, False))
             else (1, False)
         | [] \<Rightarrow> (1, False))
      else if 240 \<le> byte a \<and> byte a \<le> 244 then
        (case s of
           b # s' \<Rightarrow> if second_of_four a b
             then (case s' of
                c # s'' \<Rightarrow> if continuation c
                  then (case s'' of d # _ \<Rightarrow> if continuation d then (4, True) else (3, False)
                         | [] \<Rightarrow> (3, False))
                  else (2, False)
              | [] \<Rightarrow> (2, False))
             else (1, False)
         | [] \<Rightarrow> (1, False))
      else (1, False))"

lemma utf8_chunk_pos: "0 < fst (utf8_chunk (a # s))"
  by (auto split: list.splits)

definition replacement_character :: string where
  "replacement_character = map char_of [239, 191, 189 :: nat]"

function from_utf8_lossy :: "string \<Rightarrow> string \<times> bool" where
  "from_utf8_lossy [] = ([], False)"
| "from_utf8_lossy (a # s) =
     (let (n, valid) = utf8_chunk (a # s);
          (text_rest, owned) = from_utf8_lossy (drop n (a # s))
      in ((if valid then take n (a # s) else replacement_character) @ text_rest,
          \<not> valid \<or> owned))"
  by pat_completeness auto
termination
proof (relation "measure length")
  fix a s x n valid
  assume "x = utf8_chunk (a # s)" "(n, valid) = x"
  then have "0 < n" using utf8_chunk_pos [of a s] by (metis fst_conv)
  then show "(drop n (a # s), a # s) \<in> measure length" by simp
qed simp

declare utf8_chunk.simps(2) [simp del] from_utf8_lossy.simps(2) [simp del]

fun find_byte :: "char \<Rightarrow> string \<Rightarrow> nat option" where
  "find_byte c [] = None"
| "find_byte c (x # xs) = (if x = c then Some 0 else map_option Suc (find_byte c xs))"

definition decode :: "civil_parser \<Rightarrow> LogSource \<Rightarrow> string \<Rightarrow> DecodedRawLogLine" where
  "decode parse_from_str source bytes =
     (let (text, had_invalid_utf8) = from_utf8_lossy bytes;
          envelope = Option.bind (find_byte (CHR ''['') text) (\<lambda>open_at.
            map_option (\<lambda>relative_close. (open_at, open_at + relative_close))
              (find_byte (CHR '']'') (drop open_at text)));
          (timestamp, body) =
            (case envelope of
               Some (open_at, close_at) \<Rightarrow>
                 if close_at > open_at
                 then (Some (eq_timestamp_new parse_from_str
                              (take (close_at - (open_at + 1)) (drop (open_at + 1) text))),
                       dropWhile (\<lambda>c. c = CHR '' '') (drop (close_at + 1) text))
                 else (None, text)
             | None \<Rightarrow> (None, text))
      in \<lparr>dec_line = \<lparr>raw_source = source, raw_timestamp = timestamp, raw_body = body\<rparr>,
          dec_had_invalid_utf8 = had_invalid_utf8\<rparr>)"

subsection \<open>Well-formed text decodes unchanged\<close>

fun is_utf8 :: "nat \<Rightarrow> string \<Rightarrow> bool" where
  "is_utf8 0 s = (s = [])"
| "is_utf8 (Suc k) s = (s = [] \<or> snd (utf8_chunk s) \<and> is_utf8 k (drop (fst (utf8_chunk s)) s))"

lemma from_utf8_lossy_valid: "is_utf8 k s \<Longrightarrow> from_utf8_lossy s = (s, False)"
proof (induction k s rule: is_utf8.induct)
  case (2 k s)
  then show ?case
    by (cases s) (auto simp: from_utf8_lossy.simps Let_def split: prod.splits)
qed simp

lemma find_byte_append: "c \<notin> set a \<Longrightarrow> find_byte c (a @ c # b) = Some (length a)"
  by (induction a) auto

text \<open>
  A well-formed record \<open>prefix [stamp] body\<close>, where the prefix has no opening bracket
  and the stamp no closing one, decodes to exactly that stamp and body (less the spaces that
  separate them), is reported as valid, and keeps its source; the calendar parser only
  decides whether the stamp also has a comparable second.
\<close>

theorem decode_framed_record:
  assumes "is_utf8 k record" "record = before @ ''['' @ stamp @ '']'' @ replicate n (CHR '' '') @ body"
    and "CHR ''['' \<notin> set before" "CHR '']'' \<notin> set stamp" "body = [] \<or> hd body \<noteq> CHR '' ''"
  shows "decode parse_from_str source record =
    \<lparr>dec_line = \<lparr>raw_source = source,
        raw_timestamp = Some (eq_timestamp_new parse_from_str stamp), raw_body = body\<rparr>,
     dec_had_invalid_utf8 = False\<rparr>"
proof -
  have o: "find_byte (CHR ''['') record = Some (length before)"
    using find_byte_append [OF assms(3), of "stamp @ '']'' @ replicate n (CHR '' '') @ body"]
    by (simp add: assms(2))
  have c: "find_byte (CHR '']'') (drop (length before) record) = Some (Suc (length stamp))"
    using find_byte_append [OF assms(4), of "replicate n (CHR '' '') @ body"] by (simp add: assms(2))
  have "dropWhile (\<lambda>c. c = CHR '' '') (replicate n (CHR '' '') @ body) = body"
    using assms(5) by (induction n) (cases body; auto)+
  then have parts: "take (length stamp) (drop (Suc (length before)) record) = stamp"
    "dropWhile (\<lambda>c. c = CHR '' '') (drop (length before + Suc (length stamp) + 1) record) = body"
    by (simp_all add: assms(2))
  show ?thesis
    unfolding decode_def from_utf8_lossy_valid [OF assms(1)] Let_def using o c parts by simp
qed

theorem decode_framed_record_witness:
  "decode (\<lambda>value format. None) \<lparr>ls_id = ''a'', ls_character = ''Bilka'', ls_server = ''teek''\<rparr>
     ''[now]  hi there''
   = \<lparr>dec_line = \<lparr>raw_source = \<lparr>ls_id = ''a'', ls_character = ''Bilka'', ls_server = ''teek''\<rparr>,
        raw_timestamp = Some (eq_timestamp_new (\<lambda>value format. None) ''now''),
        raw_body = ''hi there''\<rparr>, dec_had_invalid_utf8 = False\<rparr>"
  by (rule decode_framed_record [where k = 15 and before = "[]" and n = 2])
    (simp_all add: eval_nat_numeral utf8_chunk.simps)

end
