(* ===== verification/Ordered_Map.thy ===== *)
theory Ordered_Map
  imports Rust_Prelude
begin

text \<open>
  Rust's \<^verbatim>\<open>BTreeMap\<close> and \<^verbatim>\<open>BTreeSet\<close> as sorted association lists and sorted lists.
  Iteration (\<open>keys\<close>, \<open>values\<close>, \<open>iter\<close>) is the list itself, in ascending key order, so
  that every \<open>find\<close> and every fold of the code visits the entries in the code's order.

  The locale \<open>ordered_map\<close> is the interface the engine's proofs rely on: what a lookup
  returns after an insertion, a removal and an in-place update, and that each of them
  keeps the keys strictly ascending. It is interpreted on the lists at the end.
\<close>

type_synonym ('k, 'v) btree_map = "('k \<times> 'v) list"
type_synonym 'k btree_set = "'k list"

definition bm_get :: "('k, 'v) btree_map \<Rightarrow> 'k \<Rightarrow> 'v option" where
  "bm_get m k = map_of m k"

definition bm_contains :: "('k, 'v) btree_map \<Rightarrow> 'k \<Rightarrow> bool" where
  "bm_contains m k = (bm_get m k \<noteq> None)"

fun bm_insert :: "'k::linorder \<Rightarrow> 'v \<Rightarrow> ('k, 'v) btree_map \<Rightarrow> ('k, 'v) btree_map" where
  "bm_insert k v [] = [(k, v)]"
| "bm_insert k v ((k', v') # m) =
     (if k < k' then (k, v) # (k', v') # m
      else if k = k' then (k, v) # m
      else (k', v') # bm_insert k v m)"

definition bm_remove :: "'k \<Rightarrow> ('k, 'v) btree_map \<Rightarrow> ('k, 'v) btree_map" where
  "bm_remove k m = filter (\<lambda>(k', _). k' \<noteq> k) m"

text \<open>\<open>get_mut\<close> followed by a change of the value, where the key is present.\<close>

definition bm_modify :: "'k \<Rightarrow> ('v \<Rightarrow> 'v) \<Rightarrow> ('k, 'v) btree_map \<Rightarrow> ('k, 'v) btree_map" where
  "bm_modify k f m = map (\<lambda>(k', v). (k', if k' = k then f v else v)) m"

text \<open>\<open>entry(k).and_modify(f).or_insert(v)\<close>.\<close>

definition bm_upsert ::
  "'k::linorder \<Rightarrow> ('v \<Rightarrow> 'v) \<Rightarrow> 'v \<Rightarrow> ('k, 'v) btree_map \<Rightarrow> ('k, 'v) btree_map" where
  "bm_upsert k f v m = (case bm_get m k of None \<Rightarrow> bm_insert k v m | Some _ \<Rightarrow> bm_modify k f m)"

text \<open>\<open>values_mut\<close>, and \<open>retain\<close> on the values.\<close>

definition bm_map_values :: "('v \<Rightarrow> 'w) \<Rightarrow> ('k, 'v) btree_map \<Rightarrow> ('k, 'w) btree_map" where
  "bm_map_values f m = map (\<lambda>(k, v). (k, f v)) m"

definition bm_retain_values :: "('v \<Rightarrow> bool) \<Rightarrow> ('k, 'v) btree_map \<Rightarrow> ('k, 'v) btree_map" where
  "bm_retain_values P m = filter (\<lambda>(_, v). P v) m"

abbreviation bm_keys :: "('k, 'v) btree_map \<Rightarrow> 'k list" where
  "bm_keys m \<equiv> map fst m"

abbreviation bm_values :: "('k, 'v) btree_map \<Rightarrow> 'v list" where
  "bm_values m \<equiv> map snd m"

text \<open>\<open>BTreeMap::extend\<close>: later entries replace earlier ones with the same key.\<close>

definition bm_extend :: "('k::linorder, 'v) btree_map \<Rightarrow> ('k, 'v) btree_map \<Rightarrow> ('k, 'v) btree_map" where
  "bm_extend m n = fold (\<lambda>(k, v). bm_insert k v) n m"

definition bm_wf :: "('k::linorder, 'v) btree_map \<Rightarrow> bool" where
  "bm_wf m = sorted_wrt (<) (bm_keys m)"

fun bs_insert :: "'k::linorder \<Rightarrow> 'k btree_set \<Rightarrow> 'k btree_set" where
  "bs_insert k [] = [k]"
| "bs_insert k (x # xs) =
     (if k < x then k # x # xs else if k = x then x # xs else x # bs_insert k xs)"

definition bs_contains :: "'k btree_set \<Rightarrow> 'k \<Rightarrow> bool" where
  "bs_contains s k = (k \<in> set s)"

definition bs_extend :: "'k::linorder btree_set \<Rightarrow> 'k btree_set \<Rightarrow> 'k btree_set" where
  "bs_extend s t = fold bs_insert t s"

definition bs_wf :: "'k::linorder btree_set \<Rightarrow> bool" where
  "bs_wf s = sorted_wrt (<) s"

section \<open>Lookups\<close>

named_theorems bmap \<open>lookups and membership after the map and set operations\<close>

lemma bm_get_Nil [simp, bmap]: "bm_get [] k = None"
  by (simp add: bm_get_def)

lemma bm_get_insert [simp, bmap]:
  "bm_get (bm_insert k v m) k' = (if k' = k then Some v else bm_get m k')"
  by (induction k v m rule: bm_insert.induct) (auto simp: bm_get_def)

lemma bm_get_remove [simp, bmap]:
  "bm_get (bm_remove k m) k' = (if k' = k then None else bm_get m k')"
  by (induction m) (auto simp: bm_get_def bm_remove_def)

lemma bm_get_modify [simp, bmap]:
  "bm_get (bm_modify k f m) k' = (if k' = k then map_option f (bm_get m k') else bm_get m k')"
  by (induction m) (auto simp: bm_get_def bm_modify_def)

lemma bm_get_map_values [simp, bmap]: "bm_get (bm_map_values f m) k = map_option f (bm_get m k)"
  by (induction m) (auto simp: bm_get_def bm_map_values_def)

lemma bm_get_upsert [simp, bmap]:
  "bm_get (bm_upsert k f v m) k' =
     (if k' = k then Some (case bm_get m k of None \<Rightarrow> v | Some x \<Rightarrow> f x) else bm_get m k')"
  by (auto simp: bm_upsert_def split: option.splits)

lemma bm_contains_iff: "bm_contains m k \<longleftrightarrow> k \<in> set (bm_keys m)"
  by (simp add: bm_contains_def bm_get_def map_of_eq_None_iff)

lemma bm_get_in: "bm_get m k = Some v \<Longrightarrow> (k, v) \<in> set m"
  by (simp add: bm_get_def map_of_SomeD)

lemma bm_keys_insert [simp]: "set (bm_keys (bm_insert k v m)) = insert k (set (bm_keys m))"
  by (induction k v m rule: bm_insert.induct) auto

lemma bm_keys_remove [simp]: "set (bm_keys (bm_remove k m)) = set (bm_keys m) - {k}"
  by (force simp: bm_remove_def)

lemma bm_keys_modify [simp]: "bm_keys (bm_modify k f m) = bm_keys m"
  by (induction m) (auto simp: bm_modify_def)

lemma bm_keys_map_values [simp]: "bm_keys (bm_map_values f m) = bm_keys m"
  by (induction m) (auto simp: bm_map_values_def)

lemma bm_insert_entries:
  "(k', v') \<in> set (bm_insert k v m) \<Longrightarrow> (k' = k \<and> v' = v) \<or> (k', v') \<in> set m"
  by (induction k v m rule: bm_insert.induct) (auto split: if_splits)

lemma length_bm_insert: "length (bm_insert k v m) \<le> Suc (length m)"
  by (induction k v m rule: bm_insert.induct) auto

section \<open>Ascending keys\<close>

lemma bm_wf_Nil [simp]: "bm_wf []"
  by (simp add: bm_wf_def)

lemma bm_wf_insert [simp]: "bm_wf m \<Longrightarrow> bm_wf (bm_insert k v m)"
proof (induction k v m rule: bm_insert.induct)
  case (2 k v k' v' m)
  then show ?case
    using bm_keys_insert [of k v m] by (auto simp: bm_wf_def simp del: bm_keys_insert)
qed (simp add: bm_wf_def)

lemma bm_wf_remove [simp]: "bm_wf m \<Longrightarrow> bm_wf (bm_remove k m)"
  unfolding bm_wf_def bm_remove_def sorted_wrt_map by (rule sorted_wrt_filter)

lemma bm_wf_modify [simp]: "bm_wf (bm_modify k f m) = bm_wf m"
  by (simp add: bm_wf_def)

lemma bm_wf_upsert [simp]: "bm_wf m \<Longrightarrow> bm_wf (bm_upsert k f v m)"
  by (simp add: bm_upsert_def split: option.splits)

lemma bm_wf_map_values [simp]: "bm_wf (bm_map_values f m) = bm_wf m"
  by (simp add: bm_wf_def)

lemma bm_wf_retain [simp]: "bm_wf m \<Longrightarrow> bm_wf (bm_retain_values P m)"
  unfolding bm_wf_def bm_retain_values_def sorted_wrt_map by (rule sorted_wrt_filter)

lemma bm_wf_distinct: "bm_wf m \<Longrightarrow> distinct (bm_keys m)"
  by (simp add: bm_wf_def strict_sorted_iff)

lemma bm_wf_get: "bm_wf m \<Longrightarrow> (k, v) \<in> set m \<Longrightarrow> bm_get m k = Some v"
  by (simp add: bm_get_def bm_wf_distinct)

lemma bm_wf_values: "bm_wf m \<Longrightarrow> v \<in> set (bm_values m) \<longleftrightarrow> (\<exists>k. bm_get m k = Some v)"
  by (force dest: bm_wf_get bm_get_in)

lemma bs_set_insert [simp, bmap]: "set (bs_insert k s) = insert k (set s)"
  by (induction k s rule: bs_insert.induct) auto

lemma bs_contains_simps [simp, bmap]:
  "bs_contains [] k = False"
  "bs_contains (bs_insert k s) k' = (k' = k \<or> bs_contains s k')"
  by (auto simp: bs_contains_def)

lemma bs_wf_insert [simp]: "bs_wf s \<Longrightarrow> bs_wf (bs_insert k s)"
  by (induction k s rule: bs_insert.induct) (auto simp: bs_wf_def)

lemma set_bs_extend [simp, bmap]: "set (bs_extend s t) = set s \<union> set t"
  unfolding bs_extend_def by (induction t arbitrary: s) auto

text \<open>Adding to the value of a key adds to the sum of the values.\<close>

lemma bm_insert_less: "bm_wf ((k', v') # m) \<Longrightarrow> k \<le> k' \<Longrightarrow> bm_get m k = None"
  by (auto simp: bm_wf_def bm_get_def map_of_eq_None_iff)

lemma bm_insert_sum:
  fixes m :: "('k::linorder, nat) btree_map"
  assumes "bm_wf m"
  shows "sum_list (bm_values (bm_insert k (unwrap_or (bm_get m k) 0 + a) m)) = sum_list (bm_values m) + a"
  using assms
proof (induction m)
  case (Cons e m)
  obtain k' v' where e: "e = (k', v')" by fastforce
  have wf: "bm_wf m" using Cons.prems by (simp add: bm_wf_def)
  show ?case
    using Cons.IH [OF wf] bm_insert_less [OF Cons.prems [unfolded e], of k]
    by (cases k k' rule: linorder_cases) (auto simp: e bm_get_def)
qed simp

section \<open>The interface\<close>

locale ordered_map =
  fixes lookup :: "'m \<Rightarrow> 'k::linorder \<Rightarrow> 'v option"
    and update :: "'k \<Rightarrow> 'v \<Rightarrow> 'm \<Rightarrow> 'm"
    and delete :: "'k \<Rightarrow> 'm \<Rightarrow> 'm"
    and modify :: "'k \<Rightarrow> ('v \<Rightarrow> 'v) \<Rightarrow> 'm \<Rightarrow> 'm"
    and entries :: "'m \<Rightarrow> ('k \<times> 'v) list"
    and invar :: "'m \<Rightarrow> bool"
  assumes lookup_update: "lookup (update k v m) k' = (if k' = k then Some v else lookup m k')"
    and lookup_delete: "lookup (delete k m) k' = (if k' = k then None else lookup m k')"
    and lookup_modify:
      "lookup (modify k f m) k' = (if k' = k then map_option f (lookup m k) else lookup m k')"
    and invar_update: "invar m \<Longrightarrow> invar (update k v m)"
    and invar_delete: "invar m \<Longrightarrow> invar (delete k m)"
    and invar_modify: "invar m \<Longrightarrow> invar (modify k f m)"
    and ascending: "invar m \<Longrightarrow> sorted_wrt (<) (map fst (entries m))"
    and lookup_entries: "invar m \<Longrightarrow> (k, v) \<in> set (entries m) \<longleftrightarrow> lookup m k = Some v"
begin

text \<open>An update on one key commutes with an update on another.\<close>

lemma lookup_update_twist:
  "k \<noteq> l \<Longrightarrow> lookup (update k v (update l w m)) = lookup (update l w (update k v m))"
  by (auto simp: lookup_update)

text \<open>A property of all values that an update's new value has survives the update.\<close>

lemma all_values_update:
  "invar m \<Longrightarrow> P k v \<Longrightarrow> (\<forall>(k', v') \<in> set (entries m). P k' v') \<Longrightarrow>
   \<forall>(k', v') \<in> set (entries (update k v m)). P k' v'"
  by (auto simp: lookup_entries invar_update lookup_update split: if_splits)

lemma all_values_delete:
  "invar m \<Longrightarrow> (\<forall>(k', v') \<in> set (entries m). P k' v') \<Longrightarrow>
   \<forall>(k', v') \<in> set (entries (delete k m)). P k' v'"
  by (auto simp: lookup_entries invar_delete lookup_delete split: if_splits)

lemma all_values_modify:
  "invar m \<Longrightarrow> (\<And>v. lookup m k = Some v \<Longrightarrow> P k v \<Longrightarrow> P k (f v)) \<Longrightarrow>
   (\<forall>(k', v') \<in> set (entries m). P k' v') \<Longrightarrow>
   \<forall>(k', v') \<in> set (entries (modify k f m)). P k' v'"
  by (fastforce simp: lookup_entries invar_modify lookup_modify split: if_splits)

end

interpretation btree: ordered_map bm_get bm_insert bm_remove bm_modify "\<lambda>m. m" bm_wf
  by unfold_locales (auto simp: bm_wf_def dest: bm_get_in intro: bm_wf_get [unfolded bm_wf_def]
    simp flip: bm_wf_def)

end
