(* ===== verification/Combat_Model.thy ===== *)
theory Combat_Model
  imports Eq_Events Ordered_Map
begin

text \<open>
  The public data of the combat meter (\<^verbatim>\<open>crates/eqcombat/src/model.rs\<close>): monotonic
  time, the policy and its validation, the engine's inputs, identities, the snapshots the
  engine publishes, and the two pure presentation functions over them.

  \<open>MonoTime\<close> is a \<^typ>\<open>nat\<close> of milliseconds below 2 to the 64th, with the saturating operations
  written out; damage totals are \<^typ>\<open>nat\<close> below 2 to the 128th.
\<close>

section \<open>Time and policy\<close>

type_synonym MonoTime = nat

definition mono_saturating_add :: "MonoTime \<Rightarrow> nat \<Rightarrow> MonoTime" where
  "mono_saturating_add self millis = u64_saturating_add self millis"

definition saturating_duration_since :: "MonoTime \<Rightarrow> MonoTime \<Rightarrow> nat" where
  "saturating_duration_since self earlier = self - earlier"

record CombatPolicy =
  pol_version :: nat
  pol_inactivity_ms :: nat
  pol_ending_grace_ms :: nat
  pol_held_ms :: nat
  pol_stable_eof_ms :: nat
  pol_lag_eq_seconds :: int
  pol_lag_receipt_ms :: nat
  pol_active_range_bridge_seconds :: int
  pol_max_encounters :: nat
  pol_max_ledger_facts :: nat
  pol_max_record_ids :: nat
  pol_max_diagnostics :: nat

definition mvp_v1 :: CombatPolicy where
  "mvp_v1 = \<lparr>pol_version = 1, pol_inactivity_ms = 30000, pol_ending_grace_ms = 2000,
     pol_held_ms = 8000, pol_stable_eof_ms = 2000, pol_lag_eq_seconds = 2,
     pol_lag_receipt_ms = 2000, pol_active_range_bridge_seconds = 6, pol_max_encounters = 16,
     pol_max_ledger_facts = 100000, pol_max_record_ids = 200000, pol_max_diagnostics = 256\<rparr>"

datatype PolicyError = PolicyError

definition policy_validate :: "CombatPolicy \<Rightarrow> PolicyError + unit" where
  "policy_validate p =
     (if pol_version p = 0 \<or> pol_inactivity_ms p = 0 \<or> pol_ending_grace_ms p = 0
         \<or> pol_held_ms p = 0 \<or> pol_stable_eof_ms p = 0 \<or> pol_lag_eq_seconds p \<le> 0
         \<or> pol_active_range_bridge_seconds p < 0 \<or> pol_max_encounters p = 0
         \<or> pol_max_ledger_facts p = 0 \<or> pol_max_record_ids p = 0 \<or> pol_max_diagnostics p = 0
      then Inl PolicyError else Inr ())"

lemma mvp_v1_valid: "policy_validate mvp_v1 = Inr ()"
  by (simp add: policy_validate_def mvp_v1_def)

section \<open>Inputs\<close>

datatype GapReason = FileRecreated | FileTruncated | BoundaryChanged | OversizedRecord
  | DiscardUntilNewline | SourceReassociated | CalendarRegression | OutOfOrderClosedSecond
  | GenerationChanged

record CombatRecord =
  rec_id :: SourceRecordId
  rec_source :: LogSource
  rec_eq_time :: "EqSecond option"
  rec_events :: "LogEvent list"

datatype EngineInput =
    SourceRegistered LogSource nat
  | SourceRemoved LogSourceId
  | SourceGap LogSourceId nat GapReason
  | SourceStableEof LogSourceId nat
  | Record CombatRecord

datatype PublishUrgency = NoUrgency | Coalescible | Immediate

section \<open>Identities\<close>

type_synonym EncounterId = string
type_synonym CanonicalTargetId = string

datatype ParticipantId = ParticipantId (pid_server: string) (pid_canonical_name: string)

definition participant_new :: "string \<Rightarrow> string \<Rightarrow> ParticipantId" where
  "participant_new server name = ParticipantId (to_ascii_lowercase server) (to_ascii_lowercase name)"

definition canonical_target_new :: "string \<Rightarrow> CanonicalTargetId" where
  "canonical_target_new name = to_ascii_lowercase name"

text \<open>The derived order: by server, then by canonical name.\<close>

definition pid_key :: "ParticipantId \<Rightarrow> string \<times> string" where
  "pid_key p = (pid_server p, pid_canonical_name p)"

lemma pid_key_inj [simp]: "pid_key a = pid_key b \<longleftrightarrow> a = b"
  by (cases a; cases b) (simp add: pid_key_def)

instantiation ParticipantId :: linorder
begin

definition less_eq_ParticipantId_def: "a \<le> b \<longleftrightarrow> pid_key a \<le> pid_key b"
definition less_ParticipantId_def: "a < b \<longleftrightarrow> pid_key a < pid_key b"

instance
proof
  fix a b :: ParticipantId
  assume "a \<le> b" "b \<le> a"
  then have "pid_key a = pid_key b"
    unfolding less_eq_ParticipantId_def by (rule antisym)
  then show "a = b" by simp
qed (auto simp: less_eq_ParticipantId_def less_ParticipantId_def less_le)

end

lemma participant_new_case: "participant_new (to_ascii_lowercase s) (to_ascii_lowercase n)
    = participant_new s n"
  by (simp add: participant_new_def)

section \<open>Snapshots\<close>

datatype EncounterPhase = PhaseActive | PhaseEndingGrace | PhaseHeld

datatype EndReason = AllTargetsTerminal | Inactivity

datatype SourceQuality = AuthoritativePersonal | CompleteObserver | BestPartialObserver
  | IncompletePersonal | ProvisionalPet

record DpsRowSnapshot =
  row_rank :: nat
  row_participant :: ParticipantId
  row_display_name :: string
  row_managed :: bool
  row_has_pet_damage :: bool
  row_provisional_pet :: bool
  row_damage :: nat
  row_active_seconds :: nat
  row_dps :: nat
  row_sdps :: nat
  row_contribution_millionths :: nat
  row_source_quality :: SourceQuality
  row_elected_source :: LogSourceId

record EncounterSnapshot =
  snap_id :: EncounterId
  snap_revision :: nat
  snap_phase :: EncounterPhase
  snap_end_reason :: "EndReason option"
  snap_title :: string
  snap_primary_target :: CanonicalTargetId
  snap_additional_target_names :: nat
  snap_encounter_seconds :: nat
  snap_raid_damage :: nat
  snap_rows :: "DpsRowSnapshot list"
  snap_source_members :: "LogSourceId list"
  snap_last_sustained_at :: EqSecond
  snap_held_until :: "MonoTime option"

record EncounterBookSnapshot =
  book_revision_of :: nat
  book_encounters :: "EncounterSnapshot list"

definition default_book :: EncounterBookSnapshot where
  "default_book = \<lparr>book_revision_of = 0, book_encounters = []\<rparr>"

record EngineUpdate =
  upd_snapshot :: "EncounterBookSnapshot option"
  upd_urgency :: PublishUrgency
  upd_next_deadline :: "MonoTime option"

record CandidateExplanation =
  exp_participant :: ParticipantId
  exp_elected_source :: LogSourceId
  exp_quality :: SourceQuality
  exp_damage :: nat
  exp_direct_damage :: nat
  exp_pet_damage :: nat
  exp_losing_sources :: "(LogSourceId \<times> nat) list"

record EncounterExplanation =
  exp_encounter :: EncounterId
  exp_candidates :: "CandidateExplanation list"
  exp_diagnostics :: "string list"

section \<open>Presentation\<close>

definition project_visible_rows :: "DpsRowSnapshot list \<Rightarrow> nat \<Rightarrow> DpsRowSnapshot list" where
  "project_visible_rows rows top_rows =
     (let cutoff = min top_rows (length rows)
      in take cutoff rows @ filter row_managed (drop cutoff rows))"

definition presented_cmp ::
  "LogSourceId option \<Rightarrow> EncounterSnapshot \<Rightarrow> EncounterSnapshot \<Rightarrow> ordering" where
  "presented_cmp active_source left right =
     (let left_current = is_some_and active_source (\<lambda>source. source \<in> set (snap_source_members left));
          right_current = is_some_and active_source (\<lambda>source. source \<in> set (snap_source_members right))
      in then_with (cmp right_current left_current)
        (then_with (cmp (length (snap_source_members right)) (length (snap_source_members left)))
          (then_with (cmp (snap_last_sustained_at right) (snap_last_sustained_at left))
            (cmp (snap_id left) (snap_id right)))))"

definition held_cmp :: "EncounterSnapshot \<Rightarrow> EncounterSnapshot \<Rightarrow> ordering" where
  "held_cmp left right =
     then_with (cmp (snap_held_until left) (snap_held_until right)) (cmp (snap_id right) (snap_id left))"

definition select_presented ::
  "EncounterBookSnapshot \<Rightarrow> LogSourceId option \<Rightarrow> EncounterSnapshot option" where
  "select_presented book active_source =
     (case sort_by (presented_cmp active_source)
             (filter (\<lambda>e. snap_phase e \<noteq> PhaseHeld) (book_encounters book)) of
        encounter # _ \<Rightarrow> Some encounter
      | [] \<Rightarrow> max_by held_cmp (filter (\<lambda>e. snap_phase e = PhaseHeld) (book_encounters book)))"

lemma presented_cmp_total: "total_cmp (presented_cmp src)"
  unfolding presented_cmp_def Let_def by (intro total_cmp_intros)

lemma held_cmp_total: "total_cmp held_cmp"
  unfolding held_cmp_def by (intro total_cmp_intros)

interpretation presented: total_cmp "presented_cmp src" for src
  by (rule presented_cmp_total)

interpretation held: total_cmp held_cmp
  by (rule held_cmp_total)

lemma presented_cmp_id: "presented_cmp src a b = Equal \<Longrightarrow> snap_id a = snap_id b"
  by (simp add: presented_cmp_def Let_def then_with_eq)

lemma held_cmp_id: "held_cmp a b = Equal \<Longrightarrow> snap_id a = snap_id b"
  by (simp add: held_cmp_def then_with_eq)

text \<open>
  The presented encounter is the best one: while an encounter is live, one that no other
  live encounter precedes (the active client's encounter first, then the one with most
  sources, the latest sustained, the smallest identity); otherwise the held one that expires
  last. It is none exactly for an empty book.
\<close>

theorem select_presented_best:
  assumes "live = filter (\<lambda>e. snap_phase e \<noteq> PhaseHeld) (book_encounters book)"
  shows "(select_presented book src = None \<longleftrightarrow> book_encounters book = [])
    \<and> (\<forall>e. select_presented book src = Some e \<longrightarrow> e \<in> set (book_encounters book)
        \<and> (if live \<noteq> [] then snap_phase e \<noteq> PhaseHeld \<and> (\<forall>x \<in> set live. presented_cmp src e x \<noteq> Greater)
           else \<forall>x \<in> set (book_encounters book). held_cmp x e \<noteq> Greater))"
proof (cases live)
  case Nil
  then have "filter (\<lambda>e. snap_phase e = PhaseHeld) (book_encounters book) = book_encounters book"
    by (simp add: assms filter_empty_conv filter_id_conv)
  then have "select_presented book src = max_by held_cmp (book_encounters book)"
    using Nil by (simp add: select_presented_def assms [symmetric])
  with Nil show ?thesis by (auto dest: max_by_in held.max_by_upper)
next
  case (Cons e0 rest)
  obtain e es where s: "sort_by (presented_cmp src) live = e # es"
    by (metis Cons length_0_conv length_sort_by list.distinct(1) neq_Nil_conv)
  have "sorted_wrt (\<lambda>x y. presented_cmp src x y \<noteq> Greater) (e # es)"
    using presented.sort_by_sorted [of src live] by (simp add: s)
  moreover have set: "set (e # es) = set live" using set_sort_by [of "presented_cmp src" live] s by simp
  ultimately have "\<forall>x \<in> set live. presented_cmp src e x \<noteq> Greater"
    unfolding set [symmetric] by auto
  moreover have "e \<in> set live" using set by auto
  then have "e \<in> set (book_encounters book)" "snap_phase e \<noteq> PhaseHeld" by (simp_all add: assms)
  moreover have "select_presented book src = Some e"
    using s by (simp add: select_presented_def assms [symmetric])
  moreover have "live \<noteq> []" "book_encounters book \<noteq> []" using Cons assms by auto
  ultimately show ?thesis by simp
qed

theorem select_presented_best_witness:
  "\<exists>e. select_presented \<lparr>book_revision_of = 1, book_encounters =
       [\<lparr>snap_id = ''a'', snap_revision = 1, snap_phase = PhaseHeld, snap_end_reason = Some Inactivity,
          snap_title = ''bat'', snap_primary_target = ''bat'', snap_additional_target_names = 0,
          snap_encounter_seconds = 1, snap_raid_damage = 5, snap_rows = [], snap_source_members = [''s''],
          snap_last_sustained_at = 7, snap_held_until = Some 9\<rparr>]\<rparr> None = Some e \<and> snap_id e = ''a''"
  using select_presented_best [OF refl, where src = None
    and book = "\<lparr>book_revision_of = 1, book_encounters =
       [\<lparr>snap_id = ''a'', snap_revision = 1, snap_phase = PhaseHeld, snap_end_reason = Some Inactivity,
          snap_title = ''bat'', snap_primary_target = ''bat'', snap_additional_target_names = 0,
          snap_encounter_seconds = 1, snap_raid_damage = 5, snap_rows = [], snap_source_members = [''s''],
          snap_last_sustained_at = 7, snap_held_until = Some 9\<rparr>]\<rparr>"]
  by auto

lemma filter_enumerate_all:
  "(\<And>i r. (i, r) \<in> set (enumerate n xs) \<Longrightarrow> P i) \<Longrightarrow>
   map snd (filter (\<lambda>(i, r). P i \<or> Q r) (enumerate n xs)) = xs"
  by (subst filter_True) auto

lemma filter_enumerate_none:
  "(\<And>i r. (i, r) \<in> set (enumerate n xs) \<Longrightarrow> \<not> P i) \<Longrightarrow>
   map snd (filter (\<lambda>(i, r). P i \<or> Q r) (enumerate n xs)) = filter Q xs"
proof -
  assume none: "\<And>i r. (i, r) \<in> set (enumerate n xs) \<Longrightarrow> \<not> P i"
  then have "filter (\<lambda>(i, r). P i \<or> Q r) (enumerate n xs) = filter (Q \<circ> snd) (enumerate n xs)"
    by (intro filter_cong) auto
  then show ?thesis by (simp add: filter_map [symmetric])
qed

text \<open>
  The visible rows are the rows whose position is below the cutoff or that are managed, in
  their global order and with nothing changed: no managed participant is ever cut off, and no
  other participant outside the top rows is shown.
\<close>

theorem project_visible_rows_exact:
  "project_visible_rows rows top_rows
   = map snd (filter (\<lambda>(i, r). i < top_rows \<or> row_managed r) (enumerate 0 rows))"
proof -
  let ?c = "min top_rows (length rows)"
  have split: "enumerate 0 rows = enumerate 0 (take ?c rows) @ enumerate ?c (drop ?c rows)"
    using enumerate_append_eq [of 0 "take ?c rows" "drop ?c rows"] by simp
  have "map snd (filter (\<lambda>(i, r). i < top_rows \<or> row_managed r) (enumerate 0 (take ?c rows))) = take ?c rows"
    by (rule filter_enumerate_all) (auto simp: in_set_enumerate_eq)
  moreover have "map snd (filter (\<lambda>(i, r). i < top_rows \<or> row_managed r) (enumerate ?c (drop ?c rows)))
      = filter row_managed (drop ?c rows)"
    by (rule filter_enumerate_none) (auto simp: in_set_enumerate_eq)
  ultimately show ?thesis unfolding split by (simp add: project_visible_rows_def Let_def)
qed

end
