(* ===== verification/Combat_State.thy ===== *)
theory Combat_State
  imports Combat_Model
begin

text \<open>
  The state of the combat engine (\<^verbatim>\<open>crates/eqcombat/src/engine.rs\<close>, lines 13 to 175): the
  sources it follows, the ledger of observed facts, the encounters that group facts, and the
  read-only helpers over it: name resolution, pet ownership, managed identities, identities of
  encounters and the diagnostics ring.

  The BTreeMaps and BTreeSets are those of \<open>Ordered_Map\<close>. The map of occurrence counts is
  keyed by the event itself where the code uses its derived debug text, which is injective on
  these types; only its membership, size and values are ever used, so it is kept in insertion
  order.
\<close>

section \<open>State\<close>

record SourceState =
  ss_source :: LogSource
  ss_generation :: nat
  ss_present :: bool
  ss_registered_at :: MonoTime
  ss_continuity :: nat
  ss_observed :: "EqSecond option"
  ss_closed_through :: "EqSecond option"
  ss_history_floor :: "EqSecond option"
  ss_last_progress_at :: MonoTime
  ss_last_sequence :: "nat option"
  ss_eof_second :: "EqSecond option"
  ss_eof_first_at :: "MonoTime option"
  ss_eof_passes :: nat
  ss_zone :: "string option"

record OwnershipClaim =
  claim_server :: string
  claim_pet :: string
  claim_owner :: ParticipantId
  claim_owner_display :: string
  claim_valid_from :: EqSecond
  claim_source :: LogSourceId

datatype FactEvent = FactDamage DamageObservation | FactAttempt CombatAttempt
  | FactSlain TargetSlainObservation

record LedgerFact =
  fact_record :: SourceRecordId
  fact_source :: LogSource
  fact_eq_time :: EqSecond
  fact_receipt :: MonoTime
  fact_event :: FactEvent

datatype Fingerprint = Fingerprint (fp_eq_time: EqSecond) (fp_attacker: string)
  (fp_defender: string) (fp_amount: nat) (fp_kind: DamageKind) (fp_ability: "string option")

definition fp_key ::
  "Fingerprint \<Rightarrow> EqSecond \<times> string \<times> string \<times> nat \<times> DamageKind \<times> string option" where
  "fp_key f = (fp_eq_time f, fp_attacker f, fp_defender f, fp_amount f, fp_kind f, fp_ability f)"

lemma fp_key_inj [simp]: "fp_key a = fp_key b \<longleftrightarrow> a = b"
  by (cases a; cases b) (simp add: fp_key_def)

instantiation Fingerprint :: linorder
begin

definition less_eq_Fingerprint_def: "a \<le> b \<longleftrightarrow> fp_key a \<le> fp_key b"
definition less_Fingerprint_def: "a < b \<longleftrightarrow> fp_key a < fp_key b"

instance
proof
  fix a b :: Fingerprint
  assume "a \<le> b" "b \<le> a"
  then have "fp_key a = fp_key b"
    unfolding less_eq_Fingerprint_def by (rule antisym)
  then show "a = b" by simp
qed (auto simp: less_eq_Fingerprint_def less_Fingerprint_def less_le)

end

record TargetState =
  tgt_display :: string
  tgt_terminal :: bool
  tgt_first_damage :: EqSecond
  tgt_last_damage :: EqSecond
  tgt_terminal_at :: "EqSecond option"

datatype PhaseState = Active
  | Ending EndReason MonoTime EqSecond "LogSourceId btree_set"
  | Held EndReason MonoTime

fun is_held :: "PhaseState \<Rightarrow> bool" where
  "is_held (Held _ _) = True"
| "is_held _ = False"

record EncounterState =
  enc_id :: EncounterId
  enc_server :: string
  enc_phase :: PhaseState
  enc_sources :: "LogSourceId btree_set"
  enc_source_continuity :: "(LogSourceId, nat) btree_map"
  enc_partial_sources :: "LogSourceId btree_set"
  enc_managed :: "ParticipantId btree_set"
  enc_targets :: "(CanonicalTargetId, TargetState) btree_map"
  enc_facts :: "nat list"
  enc_fingerprints :: "Fingerprint btree_set"
  enc_start_eq :: EqSecond
  enc_end_eq :: EqSecond
  enc_last_sustain_eq :: EqSecond
  enc_start_receipt :: MonoTime
  enc_last_sustain_receipt :: MonoTime
  enc_revision :: nat
  enc_last_snapshot :: "EncounterSnapshot option"
  enc_frozen :: "EncounterSnapshot option"

record Candidate =
  cand_participant :: ParticipantId
  cand_display :: string
  cand_source :: LogSourceId
  cand_complete :: bool
  cand_personal :: bool
  cand_provisional_pet :: bool
  cand_has_pet :: bool
  cand_direct_damage :: nat
  cand_pet_damage :: nat
  cand_damage :: nat
  cand_events :: nat
  cand_ranges :: "(CanonicalTargetId, EqSecond \<times> EqSecond) btree_map"
  cand_target_damage :: "(CanonicalTargetId, nat) btree_map"
  cand_target_first :: "(CanonicalTargetId, EqSecond) btree_map"
  cand_active_seconds :: nat

record Election =
  el_winner :: Candidate
  el_quality :: SourceQuality
  el_losers :: "(LogSourceId \<times> nat) list"

type_synonym occurrence_key = "LogSourceId \<times> nat \<times> EqSecond \<times> LogEvent"

record CombatEngine =
  eng_policy :: CombatPolicy
  eng_sources :: "(LogSourceId, SourceState) btree_map"
  eng_accepted :: "SourceRecordId set"
  eng_accepted_order :: "SourceRecordId list"
  eng_occurrences :: "(occurrence_key \<times> nat) list"
  eng_ledger :: "LedgerFact list"
  eng_assignments :: "(nat, EncounterId) btree_map"
  eng_encounters :: "(EncounterId, EncounterState) btree_map"
  eng_source_active :: "(LogSourceId, EncounterId) btree_map"
  eng_verified_players :: "ParticipantId btree_set"
  eng_ownership :: "OwnershipClaim list"
  eng_current_book :: EncounterBookSnapshot
  eng_now :: MonoTime
  eng_diagnostics :: "string list"

definition engine_new :: "CombatPolicy \<Rightarrow> PolicyError + CombatEngine" where
  "engine_new policy =
     (case policy_validate policy of
        Inl e \<Rightarrow> Inl e
      | Inr _ \<Rightarrow> Inr \<lparr>eng_policy = policy, eng_sources = [], eng_accepted = {},
          eng_accepted_order = [], eng_occurrences = [], eng_ledger = [], eng_assignments = [],
          eng_encounters = [], eng_source_active = [], eng_verified_players = [],
          eng_ownership = [], eng_current_book = default_book, eng_now = 0,
          eng_diagnostics = []\<rparr>)"

text \<open>\<open>self.encounters.get_mut(id)\<close> and \<open>self.sources.get_mut(id)\<close> followed by a change.\<close>

abbreviation on_encounter ::
  "EncounterId \<Rightarrow> (EncounterState \<Rightarrow> EncounterState) \<Rightarrow> CombatEngine \<Rightarrow> CombatEngine" where
  "on_encounter i f eng \<equiv> eng\<lparr>eng_encounters := bm_modify i f (eng_encounters eng)\<rparr>"

abbreviation on_source ::
  "LogSourceId \<Rightarrow> (SourceState \<Rightarrow> SourceState) \<Rightarrow> CombatEngine \<Rightarrow> CombatEngine" where
  "on_source i f eng \<equiv> eng\<lparr>eng_sources := bm_modify i f (eng_sources eng)\<rparr>"

definition diagnose :: "string \<Rightarrow> CombatEngine \<Rightarrow> CombatEngine" where
  "diagnose message eng =
     eng\<lparr>eng_diagnostics :=
       (if length (eng_diagnostics eng) \<ge> pol_max_diagnostics (eng_policy eng)
        then tl (eng_diagnostics eng) else eng_diagnostics eng) @ [message]\<rparr>"

section \<open>Names and identities\<close>

definition participant_from_name :: "string \<Rightarrow> string \<Rightarrow> ParticipantId" where
  "participant_from_name default_server display =
     (let trimmed = trim display
      in case split_once (CHR ''.'') trimmed of
           Some (server, character) \<Rightarrow>
             if server \<noteq> [] \<and> character \<noteq> [] \<and> CHR ''.'' \<notin> set character
             then participant_new server character
             else participant_new default_server trimmed
         | None \<Rightarrow> participant_new default_server trimmed)"

definition name_byte :: "char \<Rightarrow> bool" where
  "name_byte c = (ascii_alphanumeric c \<or> c = CHR ''-'' \<or> c = CHR ''_'' \<or> c = CHR ''`'' \<or> byte c = 39)"

definition possible_player_name :: "string \<Rightarrow> bool" where
  "possible_player_name display =
     (let name = (case rsplit_once (CHR ''.'') display of None \<Rightarrow> display | Some (_, name) \<Rightarrow> name)
      in name \<noteq> [] \<and> \<not> contains_whitespace name \<and> ascii_upper (hd name) \<and> list_all name_byte name)"

definition resolve_observed :: "LogSource \<Rightarrow> ObservedCombatant \<Rightarrow> string \<times> ParticipantId" where
  "resolve_observed source observed =
     (let display = (if oc_perspective observed = Named then oc_name observed else ls_character source)
      in (display, participant_from_name (ls_server source) display))"

definition source_participant :: "SourceState \<Rightarrow> ParticipantId" where
  "source_participant s = participant_new (ls_server (ss_source s)) (ls_character (ss_source s))"

definition claim_cmp :: "OwnershipClaim \<Rightarrow> OwnershipClaim \<Rightarrow> ordering" where
  "claim_cmp left right =
     then_with (cmp (claim_valid_from left) (claim_valid_from right))
       (cmp (claim_source right) (claim_source left))"

definition claimed_owner ::
  "CombatEngine \<Rightarrow> LogSource \<Rightarrow> string \<Rightarrow> EqSecond \<Rightarrow> ParticipantId option" where
  "claimed_owner eng source pet_display eq_time =
     map_option claim_owner (max_by claim_cmp
       (filter (\<lambda>claim. claim_server claim = to_ascii_lowercase (ls_server source)
            \<and> claim_pet claim = to_ascii_lowercase pet_display
            \<and> claim_valid_from claim \<le> eq_time)
          (eng_ownership eng)))"

definition claimed_owner_in_encounter ::
  "CombatEngine \<Rightarrow> LogSource \<Rightarrow> string \<Rightarrow> EncounterState \<Rightarrow> ParticipantId option" where
  "claimed_owner_in_encounter eng source pet_display encounter =
     (let evidence_deadline = unwrap_or (eq_second_checked_add (enc_end_eq encounter) 30) i64_max
      in map_option claim_owner (max_by claim_cmp
        (filter (\<lambda>claim. claim_server claim = to_ascii_lowercase (ls_server source)
             \<and> claim_pet claim = to_ascii_lowercase pet_display
             \<and> claim_valid_from claim \<le> evidence_deadline)
           (eng_ownership eng))))"

definition display_for_participant :: "CombatEngine \<Rightarrow> ParticipantId \<Rightarrow> string option" where
  "display_for_participant eng participant =
     opt_or
       (map_option (\<lambda>s. ls_character (ss_source s))
          (find (\<lambda>s. source_participant s = participant) (bm_values (eng_sources eng))))
       (map_option claim_owner_display
          (find (\<lambda>claim. claim_owner claim = participant) (rev (eng_ownership eng))))"

definition is_managed :: "CombatEngine \<Rightarrow> ParticipantId \<Rightarrow> bool" where
  "is_managed eng participant =
     list_ex (\<lambda>s. source_participant s = participant) (bm_values (eng_sources eng))"

definition managed_identities :: "CombatEngine \<Rightarrow> string \<Rightarrow> ParticipantId btree_set" where
  "managed_identities eng server =
     bs_extend [] (map source_participant
       (filter (\<lambda>s. ss_present s \<and> eq_ignore_ascii_case (ls_server (ss_source s)) server)
          (bm_values (eng_sources eng))))"

definition encounter_id :: "LedgerFact \<Rightarrow> CanonicalTargetId \<Rightarrow> ParticipantId \<Rightarrow> EncounterId" where
  "encounter_id lf target participant =
     to_ascii_lowercase (ls_server (fact_source lf)) @ '':'' @ int_to_dec (fact_eq_time lf)
       @ '':'' @ target @ '':'' @ pid_canonical_name participant"

lemma claim_cmp_total: "total_cmp claim_cmp"
  unfolding claim_cmp_def by (intro total_cmp_intros)

interpretation claims: total_cmp claim_cmp
  by (rule claim_cmp_total)

end
