(* ===== verification/Combat_Metrics.thy ===== *)
theory Combat_Metrics
  imports Rust_Prelude
begin

unbundle bit_operations_syntax

text \<open>
  The arithmetic of the combat meter (\<^verbatim>\<open>crates/eqcombat/src/metrics.rs\<close>): inclusive
  durations, the union of active ranges with bridging, rounded rates, the contribution
  ratio in millionths and the grouped decimal format. A \<open>u128\<close> amount is a \<^typ>\<open>nat\<close> with
  its bound written out; the two-limb multiplication is modelled on \<^typ>\<open>128 word\<close>, where it
  could wrap, and proved exact.
\<close>

section \<open>Definitions\<close>

type_synonym u128 = "128 word"

definition inclusive_seconds :: "int \<Rightarrow> int \<Rightarrow> nat" where
  "inclusive_seconds begin_s end_s =
     max 1 (unwrap_or
       (Option.bind (i64_checked (end_s - begin_s)) (\<lambda>delta.
          Option.bind (i64_checked (delta + 1)) (\<lambda>seconds.
            if seconds < 0 then None else Some (nat seconds)))) 1)"

fun union_loop :: "int \<Rightarrow> nat \<Rightarrow> int \<times> int \<Rightarrow> (int \<times> int) list \<Rightarrow> nat" where
  "union_loop bridge_seconds total_s current [] =
     max 1 (u64_saturating_add total_s (inclusive_seconds (fst current) (snd current)))"
| "union_loop bridge_seconds total_s current (nxt # rest) =
     (let gap = unwrap_or (i64_checked (fst nxt - snd current)) i64_max
      in if fst nxt \<le> snd current \<or> gap \<le> bridge_seconds
         then union_loop bridge_seconds total_s
                (if snd nxt > snd current then (fst current, snd nxt) else current) rest
         else union_loop bridge_seconds
                (u64_saturating_add total_s (inclusive_seconds (fst current) (snd current)))
                nxt rest)"

definition union_range_seconds :: "(int \<times> int) list \<Rightarrow> int \<Rightarrow> nat" where
  "union_range_seconds ranges bridge_seconds =
     (case sort_by (\<lambda>a b. cmp (fst a, snd a) (fst b, snd b)) ranges of
        [] \<Rightarrow> 1
      | current # rest \<Rightarrow> union_loop bridge_seconds 0 current rest)"

definition round_rate :: "nat \<Rightarrow> nat \<Rightarrow> nat option" where
  "round_rate damage seconds0 =
     (let seconds = max seconds0 1; quotient = damage div seconds;
          remainder = damage mod seconds
      in u128_checked_add quotient (of_bool (remainder \<ge> (seconds + 1) div 2)))"

definition wide_mul :: "u128 \<Rightarrow> u128 \<Rightarrow> u128 \<times> u128" where
  "wide_mul left right =
     (let mask64 = 2 ^ 64 - 1 :: u128;
          left_low = left AND mask64;
          left_high = drop_bit 64 left;
          right_low = right AND mask64;
          right_high = drop_bit 64 right;
          low_low = left_low * right_low;
          low_high = left_low * right_high;
          high_low = left_high * right_low;
          high_high = left_high * right_high;
          carry = drop_bit 64 low_low + (low_high AND mask64) + (high_low AND mask64);
          low = (low_low AND mask64) OR push_bit 64 (carry AND mask64);
          high = high_high + drop_bit 64 low_high + drop_bit 64 high_low + drop_bit 64 carry
      in (high, low))"

text \<open>The binary search of \<open>mul_div_bounded\<close>; \<open>low\<close> and \<open>high\<close> stay below the multiplier.\<close>

function mul_div_loop :: "u128 \<times> u128 \<Rightarrow> u128 \<Rightarrow> nat \<Rightarrow> nat \<Rightarrow> nat" where
  "mul_div_loop numerator denominator low high =
     (if low < high
      then let middle = low + (high - low + 1) div 2
        in if wide_mul (of_nat middle) denominator \<le> numerator
           then mul_div_loop numerator denominator middle high
           else mul_div_loop numerator denominator low (middle - 1)
      else low)"
  by pat_completeness auto
termination
  by (relation "measure (\<lambda>(_, _, low, high). high - low)") auto

declare mul_div_loop.simps [simp del]

definition mul_div_bounded :: "nat \<Rightarrow> nat \<Rightarrow> nat \<Rightarrow> nat" where
  "mul_div_bounded a multiplier denominator =
     mul_div_loop (wide_mul (of_nat a) (of_nat multiplier)) (of_nat denominator) 0 multiplier"

definition ratio_millionths :: "nat \<Rightarrow> nat \<Rightarrow> nat" where
  "ratio_millionths value total_s =
     (if total_s = 0 then 0
      else let bounded = min value total_s
        in mul_div_bounded bounded 1000000 total_s mod 2 ^ 32)"

definition format_grouped_ascii :: "nat \<Rightarrow> string" where
  "format_grouped_ascii value =
     (let digits = nat_to_dec value; first = length digits mod 3
      in concat (map (\<lambda>(index, character).
           (if index > 0 \<and> index \<ge> first \<and> (index - first) mod 3 = 0 then '','' else [])
           @ [character]) (enumerate 0 digits)))"

section \<open>Rates\<close>

lemma round_half_up:
  fixes d s :: nat
  assumes "0 < s"
  shows "d div s + of_bool (d mod s \<ge> (s + 1) div 2) = (2 * d + s) div (2 * s)"
proof -
  define q r where "q = d div s" and "r = d mod s"
  have d: "2 * d + s = 2 * s * q + (2 * r + s)"
    using div_mult_mod_eq [of d s, folded q_def r_def] by (simp add: algebra_simps)
  have r: "r < s" using assms by (simp add: r_def)
  have "(2 * d + s) div (2 * s) = q + (2 * r + s) div (2 * s)"
    unfolding d using assms by simp
  also have "(2 * r + s) div (2 * s) = of_bool (r \<ge> (s + 1) div 2)"
  proof (cases "r \<ge> (s + 1) div 2")
    case True
    then have "2 * s \<le> 2 * r + s" "2 * r + s < 2 * (2 * s)" using r by auto
    then have "(2 * r + s) div (2 * s) = 1" by (intro div_nat_eqI) auto
    with True show ?thesis by simp
  next
    case False
    then have "2 * r + s < 2 * s" by auto
    with False show ?thesis by simp
  qed
  finally show ?thesis by (simp add: q_def r_def)
qed

text \<open>
  A rate is the quotient rounded half up, and it always exists: the extra one never
  overflows 128 bits, and a zero duration counts as one second.
\<close>

theorem round_rate_half_up:
  assumes "damage < 2 ^ 128"
  shows "round_rate damage seconds
    = Some ((2 * damage + max seconds 1) div (2 * max seconds 1))"
proof -
  let ?s = "max seconds 1"
  have s: "0 < ?s" by simp
  have "damage div ?s + of_bool (damage mod ?s \<ge> (?s + 1) div 2) \<le> damage"
  proof (cases "?s = 1")
    case False
    then have "2 \<le> ?s" by simp
    then have "damage div ?s * 2 \<le> damage"
      by (metis div_times_less_eq_dividend mult_le_mono2 order.trans)
    moreover have "of_bool (damage mod ?s \<ge> (?s + 1) div 2) \<le> damage mod ?s"
      using \<open>2 \<le> ?s\<close> by auto
    moreover have "damage = damage div ?s * ?s + damage mod ?s" by (rule div_mult_mod_eq [symmetric])
    moreover have "damage div ?s \<le> damage div ?s * ?s" using s by simp
    ultimately show ?thesis by linarith
  qed auto
  with assms have "damage div ?s + of_bool (damage mod ?s \<ge> (?s + 1) div 2) < 2 ^ 128"
    by linarith
  then show ?thesis
    by (simp only: round_rate_def Let_def u128_checked_add_def if_True round_half_up [OF s]
      simp_thms)
qed

theorem round_rate_half_up_witness: "round_rate 2 4 = Some 1 \<and> round_rate 7 0 = Some 7"
  using round_rate_half_up [of 2 4] round_rate_half_up [of 7 0] by simp

section \<open>Exact multiplication\<close>

lemma limbs_recombine:
  fixes M :: nat
  assumes "l1 + a0 + b0 = c1 * M + c0"
  shows "(hh + a1 + b1 + c1) * (M * M) + (l0 + c0 * M)
    = hh * (M * M) + ((a1 * M + a0) + (b1 * M + b0)) * M + (l1 * M + l0)"
proof -
  have "(l1 + a0 + b0) * M = (c1 * M + c0) * M" using assms by simp
  then show ?thesis by (simp add: algebra_simps)
qed

lemma wide_mul_nat:
  fixes M xl xh yl yh :: nat
  assumes "0 < M"
  defines "ll \<equiv> xl * yl" and "lh \<equiv> xl * yh" and "hl \<equiv> xh * yl" and "hh \<equiv> xh * yh"
  defines "carry \<equiv> ll div M + lh mod M + hl mod M"
  shows "(hh + lh div M + hl div M + carry div M) * (M * M) + (ll mod M + carry mod M * M)
    = (xh * M + xl) * (yh * M + yl)"
proof -
  have "ll div M + lh mod M + hl mod M = carry div M * M + carry mod M"
    by (simp add: carry_def)
  from limbs_recombine [OF this, of hh "lh div M" "hl div M" "ll mod M"]
  have "(hh + lh div M + hl div M + carry div M) * (M * M) + (ll mod M + carry mod M * M)
      = hh * (M * M) + (lh + hl) * M + ll"
    by simp
  also have "\<dots> = (xh * M + xl) * (yh * M + yl)"
    by (simp add: ll_def lh_def hl_def hh_def algebra_simps)
  finally show ?thesis .
qed

lemma unat_and_mask64: "unat ((w :: u128) AND (2 ^ 64 - 1)) = unat w mod 2 ^ 64"
proof -
  have "w AND (2 ^ 64 - 1) = take_bit 64 w"
    by (simp only: take_bit_eq_mask mask_eq_exp_minus_1)
  then have "unat (w AND (2 ^ 64 - 1)) = take_bit 64 (unat w)"
    by (simp only: unsigned_take_bit_eq)
  then show ?thesis by (simp only: take_bit_eq_mod)
qed

lemma unat_drop64: "unat (drop_bit 64 (w :: u128)) = unat w div 2 ^ 64"
  by (subst unat_drop_bit_eq) (rule drop_bit_eq_div)

lemma unat_or_push64:
  assumes "unat (a :: u128) < 2 ^ 64" "unat (b :: u128) < 2 ^ 64"
  shows "unat (a OR push_bit 64 b) = unat a + unat b * 2 ^ 64"
proof -
  have "take_bit 64 a = a"
    using assms(1) by (simp add: word_unat_eq_iff unsigned_take_bit_eq take_bit_nat_eq_self)
  then have "n < 64" if "bit a n" for n using that by (metis bit_take_bit_iff)
  then have "a AND push_bit 64 b = 0"
    by (intro bit_word_eqI) (auto simp: bit_simps dest: leD)
  then have "a OR push_bit 64 b = a + push_bit 64 b" by (simp add: disjunctive_add_eq_or)
  moreover have "push_bit 64 b = b * 2 ^ 64" by (simp add: push_bit_eq_mult)
  moreover have "unat (b * 2 ^ 64) = unat b * 2 ^ 64" using assms(2) by (simp add: unat_word_ariths)
  ultimately show ?thesis using assms by (simp add: unat_word_ariths)
qed

lemma unat_mult_128: "unat (a :: u128) * unat b < 2 ^ 128 \<Longrightarrow> unat (a * b) = unat a * unat b"
  by (simp add: unat_word_ariths)

lemma unat_add_128: "unat (a :: u128) + unat b < 2 ^ 128 \<Longrightarrow> unat (a + b) = unat a + unat b"
  by (simp add: unat_word_ariths)

lemma unat_add3_128:
  assumes "unat (a :: u128) < n" "unat b < n" "unat c < n" "4 * n < 2 ^ 128"
  shows "unat (a + b + c) = unat a + unat b + unat c"
proof -
  have "unat (a + b) = unat a + unat b" using assms by (intro unat_add_128) linarith
  moreover have "unat (a + b + c) = unat (a + b) + unat c"
    using assms calculation by (intro unat_add_128) linarith
  ultimately show ?thesis by simp
qed

lemma mult_less_square: "(a::nat) < m \<Longrightarrow> b < m \<Longrightarrow> a * b < m * m"
  by (rule mult_strict_mono) auto

text \<open>Two limbs of 128 bits hold the whole product: no intermediate of the routine wraps.\<close>

lemma wide_mul_exact:
  assumes "wide_mul x y = (h, l)"
  shows "unat h * 2 ^ 128 + unat l = unat x * unat y"
proof -
  define M :: nat where "M = 2 ^ 64"
  define K :: u128 where "K = 2 ^ 64 - 1"
  have MM: "M * M = 2 ^ 128" by (simp add: M_def)
  have bound: "unat (w :: u128) < M * M" for w using unsigned_less [of w] by (simp add: MM)
  define xl xh yl yh where "xl = unat x mod M" and "xh = unat x div M"
    and "yl = unat y mod M" and "yh = unat y div M"
  have small: "xl < M" "xh < M" "yl < M" "yh < M"
    using bound [of x] bound [of y]
    by (simp_all add: xl_def xh_def yl_def yh_def M_def less_mult_imp_div_less)
  note masks = unat_and_mask64 [folded M_def K_def] and shifts = unat_drop64 [folded M_def]
  have prod: "unat (a * b) = unat a * unat b" if "unat a < M" "unat b < M" for a b :: u128
    using unat_mult_128 [of a b] mult_less_square [OF that] by (simp add: MM)
  have M0: "0 < M" by (simp add: M_def)
  define ll lh hl hh where "ll = (x AND K) * (y AND K)"
    and "lh = (x AND K) * drop_bit 64 y"
    and "hl = drop_bit 64 x * (y AND K)" and "hh = drop_bit 64 x * drop_bit 64 y"
  have limbs: "unat ll = xl * yl" "unat lh = xl * yh" "unat hl = xh * yl" "unat hh = xh * yh"
    using small unfolding ll_def lh_def hl_def hh_def
    by (simp_all add: prod masks shifts xl_def xh_def yl_def yh_def)
  define carry where "carry = drop_bit 64 ll + (lh AND K) + (hl AND K)"
  have q: "unat ll div M < M" "unat lh mod M < M" "unat hl mod M < M"
    using bound [of ll] M0 by (simp_all add: less_mult_imp_div_less)
  have four: "4 * M < 2 ^ 128" by (simp add: M_def)
  have c: "unat carry = unat ll div M + unat lh mod M + unat hl mod M"
    unfolding carry_def using q four by (subst unat_add3_128 [of _ M]) (simp_all only: masks shifts)
  have h: "h = hh + drop_bit 64 lh + drop_bit 64 hl + drop_bit 64 carry"
    and l: "l = (ll AND K) OR push_bit 64 (carry AND K)"
    using assms unfolding wide_mul_def Let_def K_def [symmetric] by (simp_all add: carry_def ll_def lh_def hl_def hh_def)
  have ul: "unat l = unat ll mod M + unat carry mod M * M"
    using M0 unfolding l by (subst unat_or_push64) (simp_all add: masks M_def)
  let ?H = "unat hh + unat lh div M + unat hl div M + unat carry div M"
  have exact: "?H * (M * M) + unat l = unat x * unat y"
    using wide_mul_nat [OF M0, of xh yh xl yl] by (simp add: limbs c ul xl_def xh_def yl_def yh_def)
  moreover have "unat x * unat y < (M * M) * (M * M)" by (rule mult_less_square) (rule bound)+
  ultimately have "?H * (M * M) < (M * M) * (M * M)" by linarith
  then have "?H < M * M" by (rule mult_right_less_imp_less) simp
  then have "unat h = ?H" unfolding h by (simp add: unat_add_128 shifts MM)
  with exact show ?thesis by (simp add: MM)
qed

lemma wide_mul_le_iff: "wide_mul a b \<le> wide_mul c d \<longleftrightarrow> unat a * unat b \<le> unat c * unat d"
proof -
  obtain h l where 1: "wide_mul a b = (h, l)" by fastforce
  obtain h' l' where 2: "wide_mul c d = (h', l')" by fastforce
  have b: "unat l < 2 ^ 128" "unat l' < 2 ^ 128" using unsigned_less [of l] unsigned_less [of l'] by simp_all
  have "(h, l) \<le> (h', l') \<longleftrightarrow> unat h * 2 ^ 128 + unat l \<le> unat h' * 2 ^ 128 + unat l'"
    (is "_ \<longleftrightarrow> ?L \<le> ?R")
  proof (cases "unat h" "unat h'" rule: linorder_cases)
    case less
    then have "Suc (unat h) * 2 ^ 128 \<le> unat h' * 2 ^ 128" by (intro mult_le_mono1) simp
    with less b show ?thesis by (simp add: word_less_nat_alt word_le_nat_alt word_unat_eq_iff)
  next
    case greater
    then have "Suc (unat h') * 2 ^ 128 \<le> unat h * 2 ^ 128" by (intro mult_le_mono1) simp
    with greater b show ?thesis by (simp add: word_less_nat_alt word_le_nat_alt word_unat_eq_iff)
  next
    case equal
    then have "h = h'" by (simp add: word_unat_eq_iff)
    then show ?thesis by (simp add: word_le_nat_alt)
  qed
  then show ?thesis using wide_mul_exact [OF 1] wide_mul_exact [OF 2] by (simp add: 1 2)
qed

lemma mul_div_loop_correct:
  assumes "low * unat d \<le> unat a * unat b" "unat a * unat b < Suc high * unat d"
    "low \<le> high" "high < 2 ^ 128"
  shows "mul_div_loop (wide_mul a b) d low high = unat a * unat b div unat d"
  using assms
proof (induction "wide_mul a b" d low high rule: mul_div_loop.induct)
  case (1 d low high)
  show ?case
  proof (cases "low < high")
    case False
    with 1(3-6) have "unat a * unat b div unat d = low" by (intro div_nat_eqI) (auto simp: mult.commute)
    with False show ?thesis by (subst mul_div_loop.simps) simp
  next
    case True
    define m where "m = low + (high - low + 1) div 2"
    have m: "low < m" "m \<le> high" using True by (auto simp: m_def)
    then have um: "unat (of_nat m :: u128) = m"
      using 1(6) by (simp add: unat_of_nat)
    have step: "mul_div_loop (wide_mul a b) d low high
        = (if m * unat d \<le> unat a * unat b then mul_div_loop (wide_mul a b) d m high
           else mul_div_loop (wide_mul a b) d low (m - 1))"
      by (subst mul_div_loop.simps)
        (simp only: True if_True Let_def m_def [symmetric] wide_mul_le_iff um)
    show ?thesis
    proof (cases "m * unat d \<le> unat a * unat b")
      case up: True
      have "mul_div_loop (wide_mul a b) d m high = unat a * unat b div unat d"
        using 1(3-6) m up by (intro 1(1) [OF True m_def]) (simp_all add: wide_mul_le_iff um)
      with up show ?thesis by (simp only: step if_True)
    next
      case down: False
      have "mul_div_loop (wide_mul a b) d low (m - 1) = unat a * unat b div unat d"
        using 1(3,6) m down by (intro 1(2) [OF True m_def]) (simp_all add: wide_mul_le_iff um)
      with down show ?thesis by (simp only: step if_False)
    qed
  qed
qed

lemma mul_div_bounded_exact:
  assumes "a \<le> d" "0 < d" "d < 2 ^ 128" "m < 2 ^ 128"
  shows "mul_div_bounded a m d = a * m div d"
proof -
  have u: "unat (of_nat a :: u128) = a" "unat (of_nat m :: u128) = m" "unat (of_nat d :: u128) = d"
    using assms by (simp_all add: unat_of_nat)
  have "a * m \<le> m * d" using assms(1) by (simp add: mult.commute)
  then have "a * m < Suc m * d" using assms(2) unfolding mult_Suc by linarith
  then show ?thesis
    unfolding mul_div_bounded_def using assms(4)
    by (subst mul_div_loop_correct) (simp_all add: u)
qed

lemma ratio_millionths_value:
  assumes "grand < 2 ^ 128"
  shows "ratio_millionths value grand = min value grand * 1000000 div grand"
    "ratio_millionths value grand \<le> 1000000"
proof -
  have "ratio_millionths value grand = min value grand * 1000000 div grand
    \<and> ratio_millionths value grand \<le> 1000000"
  proof (cases "grand = 0")
    case False
    have le: "min value grand * 1000000 div grand \<le> 1000000"
      using False by (metis div_le_mono div_mult_self1_is_m min.cobounded2 mult_le_mono1 neq0_conv)
    then have "min value grand * 1000000 div grand mod 2 ^ 32 = min value grand * 1000000 div grand"
      by (intro mod_less) simp
    moreover have "mul_div_bounded (min value grand) 1000000 grand = min value grand * 1000000 div grand"
      using assms False by (intro mul_div_bounded_exact) simp_all
    ultimately show ?thesis using False le unfolding ratio_millionths_def Let_def by simp
  qed (simp add: ratio_millionths_def)
  then show "ratio_millionths value grand = min value grand * 1000000 div grand"
    "ratio_millionths value grand \<le> 1000000" by simp_all
qed

text \<open>
  A contribution ratio is the exact floor of \<open>min value total * 1000000 / total\<close>, for
  every pair of 128-bit amounts: the 256-bit comparison of the binary search never wraps and
  the search always ends. It is at most one million, and an empty total gives zero.
\<close>

theorem ratio_millionths_exact:
  assumes "grand < 2 ^ 128"
  shows "ratio_millionths value grand = min value grand * 1000000 div grand
    \<and> ratio_millionths value grand \<le> 1000000"
  using ratio_millionths_value [OF assms] by simp

theorem ratio_millionths_exact_witness:
  "ratio_millionths (2 ^ 127) (2 ^ 128 - 1) = 500000 \<and> ratio_millionths 1 3 = 333333"
  using ratio_millionths_exact [of "2 ^ 128 - 1" "2 ^ 127"] ratio_millionths_exact [of 3 1] by simp

section \<open>Active time\<close>

text \<open>
  The seconds that count as active: those inside a range, and those of a gap between two
  ranges that is no longer than the bridge.
\<close>

definition active_seconds :: "(int \<times> int) set \<Rightarrow> int \<Rightarrow> int set" where
  "active_seconds R b = (\<Union>r \<in> R. {fst r..snd r})
     \<union> (\<Union>r \<in> R. \<Union>r' \<in> {r' \<in> R. fst r' - snd r \<le> b}. {snd r<..<fst r'})"

definition clock_bound :: int where
  "clock_bound = 2 ^ 61"

definition valid_range :: "int \<times> int \<Rightarrow> bool" where
  "valid_range r = (- clock_bound \<le> fst r \<and> fst r \<le> snd r \<and> snd r \<le> clock_bound)"

lemma active_seconds_iff:
  "t \<in> active_seconds R b \<longleftrightarrow> (\<exists>r \<in> R. fst r \<le> t \<and> t \<le> snd r)
    \<or> (\<exists>r \<in> R. \<exists>r' \<in> R. fst r' - snd r \<le> b \<and> snd r < t \<and> t < fst r')"
  unfolding active_seconds_def Un_iff UN_iff mem_Collect_eq atLeastAtMost_iff greaterThanLessThan_iff
  by blast

lemma active_seconds_bounds:
  "(\<And>r. r \<in> R \<Longrightarrow> valid_range r) \<Longrightarrow> active_seconds R b \<subseteq> {- clock_bound..clock_bound}"
  by (fastforce simp: active_seconds_def valid_range_def)

lemma active_seconds_insert:
  assumes valid: "\<And>p. p \<in> P \<Longrightarrow> valid_range p" "valid_range r"
    and first: "\<And>p. p \<in> P \<Longrightarrow> fst p \<le> fst r"
    and top: "q \<in> P" "\<And>p. p \<in> P \<Longrightarrow> snd p \<le> snd q"
  shows "active_seconds (insert r P) b = active_seconds P b \<union> {fst r..snd r}
    \<union> (if fst r - snd q \<le> b then {snd q<..<fst r} else {})" (is "?L = ?R")
proof
  have r: "fst r \<le> snd r" using valid(2) by (simp add: valid_range_def)
  show "?L \<subseteq> ?R"
  proof
    fix t assume "t \<in> ?L"
    then consider "t \<in> active_seconds P b" | "t \<in> {fst r..snd r}"
      | p where "p \<in> P" "fst r - snd p \<le> b" "snd p < t" "t < fst r"
      using first r by (fastforce simp: active_seconds_def)
    then show "t \<in> ?R"
    proof cases
      case 3
      show ?thesis
      proof (cases "snd q < t")
        case True
        with 3 top(2) [OF 3(1)] show ?thesis by auto
      next
        case False
        have "t \<in> active_seconds P b"
        proof (cases "fst q \<le> t")
          case True
          with False top(1) show ?thesis by (force simp: active_seconds_iff)
        next
          case no: False
          with 3 first [OF top(1)] have "fst q - snd p \<le> b" "t < fst q" by linarith+
          with 3 top(1) show ?thesis unfolding active_seconds_iff by blast
        qed
        then show ?thesis by simp
      qed
    qed simp_all
  qed
  show "?R \<subseteq> ?L" using top(1) by (auto simp: active_seconds_def split: if_splits)
qed

text \<open>
  The state of the sweep after the ranges \<open>P\<close>: the closed runs are the seconds \<open>D\<close> before
  the current run \<open>c\<close>, and \<open>c\<close> ends where the latest range of \<open>P\<close> ends.
\<close>

definition sweep_inv :: "(int \<times> int) set \<Rightarrow> int \<Rightarrow> int set \<Rightarrow> int \<times> int \<Rightarrow> bool" where
  "sweep_inv P b D c \<longleftrightarrow> active_seconds P b = D \<union> {fst c..snd c} \<and> (\<forall>t \<in> D. t < fst c)
     \<and> (\<forall>p \<in> P. valid_range p \<and> snd p \<le> snd c) \<and> (\<exists>p \<in> P. snd p = snd c) \<and> (\<exists>p \<in> P. fst p = fst c)"

lemma inclusive_seconds_card:
  "valid_range (x, y) \<Longrightarrow> inclusive_seconds x y = card {x..y}"
  by (simp add: inclusive_seconds_def valid_range_def clock_bound_def i64_checked_def i64_min_def
    i64_max_def max_def Suc_le_eq)

lemma sweep_inv_close:
  assumes "sweep_inv P b D c"
  shows "u64_saturating_add (card D) (inclusive_seconds (fst c) (snd c)) = card (active_seconds P b)"
proof -
  from assms have act: "active_seconds P b = D \<union> {fst c..snd c}"
    and disj: "D \<inter> {fst c..snd c} = {}" by (auto simp: sweep_inv_def)
  from assms have sub: "active_seconds P b \<subseteq> {- clock_bound..clock_bound}"
    by (intro active_seconds_bounds) (simp add: sweep_inv_def)
  then have fin: "finite D" using act by (metis finite_Un finite_atLeastAtMost_int finite_subset)
  have c: "valid_range (fst c, snd c)"
    using assms by (force simp: sweep_inv_def valid_range_def)
  have "card (active_seconds P b) = card D + inclusive_seconds (fst c) (snd c)"
    unfolding act inclusive_seconds_card [OF c] using fin disj by (simp add: card_Un_disjoint)
  moreover have "card (active_seconds P b) \<le> card {- clock_bound..clock_bound}"
    by (rule card_mono [OF _ sub]) simp
  ultimately show ?thesis by (simp add: u64_saturating_add_def u64_max_def clock_bound_def)
qed

lemma sweep_inv_step:
  assumes inv: "sweep_inv P b D c" and r: "valid_range r" "\<And>p. p \<in> P \<Longrightarrow> fst p \<le> fst r"
    and "0 \<le> b"
  shows "fst r - snd c \<le> b \<Longrightarrow> sweep_inv (insert r P) b D (fst c, max (snd c) (snd r))"
    and "\<not> fst r - snd c \<le> b \<Longrightarrow> sweep_inv (insert r P) b (active_seconds P b) r"
proof -
  obtain q where q: "q \<in> P" "snd q = snd c" using inv by (auto simp: sweep_inv_def)
  have valid: "valid_range p" "snd p \<le> snd q" if "p \<in> P" for p
    using inv that q by (auto simp: sweep_inv_def)
  note ins = active_seconds_insert [OF valid(1) r q(1) valid(2), unfolded q(2)]
  obtain p where p: "p \<in> P" "fst p = fst c" using inv by (auto simp: sweep_inv_def)
  have lo: "fst c \<le> fst r" "fst r \<le> snd r" using r(2) [OF p(1)] p(2) r(1) by (auto simp: valid_range_def)
  have cc: "fst c \<le> snd c" using inv p by (force simp: sweep_inv_def valid_range_def)
  have act: "active_seconds P b = D \<union> {fst c..snd c}" using inv by (simp add: sweep_inv_def)
  { assume close: "fst r - snd c \<le> b"
    have "{fst c..snd c} \<union> {fst r..snd r} \<union> {snd c<..<fst r} = {fst c..max (snd c) (snd r)}"
      using lo cc by auto
    then have "active_seconds (insert r P) b = D \<union> {fst c..max (snd c) (snd r)}"
      using close by (auto simp: ins act)
    moreover have "\<exists>p' \<in> insert r P. snd p' = max (snd c) (snd r)"
      using q by (cases "snd r \<le> snd c") auto
    moreover have "\<forall>p' \<in> insert r P. valid_range p' \<and> snd p' \<le> max (snd c) (snd r)"
      using valid r(1) q(2) by fastforce
    ultimately show "sweep_inv (insert r P) b D (fst c, max (snd c) (snd r))"
      using inv p by (auto simp: sweep_inv_def) }
  { assume far: "\<not> fst r - snd c \<le> b"
    then have "\<forall>t \<in> active_seconds P b. t < fst r"
      using inv lo cc \<open>0 \<le> b\<close> by (fastforce simp: act sweep_inv_def)
    moreover have "\<forall>p \<in> P. snd p \<le> snd r" using far lo \<open>0 \<le> b\<close> valid(2) q(2) by force
    ultimately show "sweep_inv (insert r P) b (active_seconds P b) r"
      using far r(1) valid(1) by (simp add: ins sweep_inv_def) }
qed

lemma union_loop_active:
  assumes "sweep_inv P b D c" "0 \<le> b" "\<forall>r \<in> set rest. valid_range r \<and> (\<forall>p \<in> P. fst p \<le> fst r)"
    "sorted_wrt (\<lambda>r r'. fst r \<le> fst r') rest"
  shows "union_loop b (card D) c rest = max 1 (card (active_seconds (P \<union> set rest) b))"
  using assms
proof (induction rest arbitrary: P D c)
  case Nil
  then show ?case by (simp add: sweep_inv_close)
next
  case (Cons r rest)
  have step: "union_loop b (card D') c' rest = max 1 (card (active_seconds (P \<union> set (r # rest)) b))"
    if "sweep_inv (insert r P) b D' c'" for D' c'
    using Cons.IH [OF that] Cons.prems by simp
  have r: "valid_range r" "\<And>p. p \<in> P \<Longrightarrow> fst p \<le> fst r" using Cons.prems by auto
  note next_inv = sweep_inv_step [OF Cons.prems(1) r Cons.prems(2)]
  have "valid_range (fst c, snd c)" using Cons.prems(1) by (force simp: sweep_inv_def valid_range_def)
  then have gap: "unwrap_or (i64_checked (fst r - snd c)) i64_max = fst r - snd c"
    using r(1) by (simp add: valid_range_def clock_bound_def i64_checked_def i64_min_def i64_max_def)
  show ?case
  proof (cases "fst r - snd c \<le> b")
    case True
    moreover have "(if snd r > snd c then (fst c, snd r) else c) = (fst c, max (snd c) (snd r))"
      by (cases c) (auto simp: max_def)
    ultimately show ?thesis using step [OF next_inv(1)] gap by (simp del: set_simps)
  next
    case False
    then show ?thesis
      using step [OF next_inv(2)] gap Cons.prems(2) sweep_inv_close [OF Cons.prems(1)]
      by (simp del: set_simps)
  qed
qed

text \<open>
  The active time of a set of ranges is the number of distinct seconds that lie in a
  range or in a gap of at most the bridge between two ranges: overlapping ranges are not
  counted twice, and the order the ranges come in does not matter. It holds for ranges within
  2 to the 61st of the epoch, where no subtraction overflows.
\<close>

theorem union_range_seconds_counts_active:
  assumes "ranges \<noteq> []" "\<forall>r \<in> set ranges. valid_range r" "0 \<le> bridge"
  shows "union_range_seconds ranges bridge = card (active_seconds (set ranges) bridge)"
proof -
  let ?c = "\<lambda>a b. cmp (fst a, snd a) (fst b, snd b :: int)"
  define s where "s = sort_by ?c ranges"
  have "sorted_wrt (\<lambda>x y. ?c x y \<noteq> Greater) s"
    unfolding s_def by (rule key_cmp.sort_by_sorted [where f = "\<lambda>r. (fst r, snd r)"])
  then have sorted: "sorted_wrt (\<lambda>r r'. fst r \<le> fst r') s"
    by (rule sorted_wrt_mono_rel [rotated]) (auto simp: less_eq_prod_def less_prod_def not_less)
  have set: "set s = set ranges" by (simp add: s_def)
  then obtain c rest where s: "s = c # rest" using assms(1) by (cases s) auto
  have c: "valid_range c" using assms(2) set s by auto
  then have "sweep_inv {c} bridge {} c"
    by (auto simp: sweep_inv_def active_seconds_def valid_range_def)
  from union_loop_active [OF this assms(3), of rest] sorted assms(2) set s
  have loop: "union_loop bridge 0 c rest = max 1 (card (active_seconds (set ranges) bridge))" by auto
  have "fst c \<in> active_seconds (set ranges) bridge"
    using c set s by (force simp: active_seconds_iff valid_range_def)
  moreover have "finite (active_seconds (set ranges) bridge)"
    using active_seconds_bounds assms(2) by (metis finite_atLeastAtMost_int finite_subset)
  ultimately have "1 \<le> card (active_seconds (set ranges) bridge)"
    by (metis One_nat_def Suc_leI card_gt_0_iff empty_iff)
  then show ?thesis using loop unfolding union_range_seconds_def s_def [symmetric] s by simp
qed

theorem union_range_seconds_counts_active_witness:
  "union_range_seconds [(10, 12), (1, 3), (5, 5)] 2
    = card (active_seconds (set [(10, 12), (1, 3), (5, 5)]) 2)"
  by (rule union_range_seconds_counts_active) (simp_all add: valid_range_def clock_bound_def)

section \<open>Grouped decimals\<close>

text \<open>The reference: from the right, a comma after every third digit that has one before it.\<close>

fun group_from_right :: "string \<Rightarrow> string" where
  "group_from_right (a # b # c # d # ds) = a # b # c # CHR '','' # group_from_right (d # ds)"
| "group_from_right ds = ds"

lemma group_from_right_snoc:
  "group_from_right (xs @ [d]) = group_from_right xs
     @ (if xs \<noteq> [] \<and> length xs mod 3 = 0 then [CHR '',''] else []) @ [d]"
proof (induction xs rule: group_from_right.induct)
  case (1 a b c e ds)
  then show ?case by (simp add: mod_Suc)
qed auto

lemma group_loop:
  assumes "0 < i"
  shows "concat (map (\<lambda>(index, character).
      (if index > 0 \<and> index \<ge> (i + length ds) mod 3 \<and> (index - (i + length ds) mod 3) mod 3 = 0
       then '','' else []) @ [character]) (enumerate i ds))
    = (if ds \<noteq> [] \<and> length ds mod 3 = 0 then '','' else []) @ rev (group_from_right (rev ds))"
  using assms
proof (induction ds arbitrary: i)
  case (Cons d ds)
  have cond: "i \<ge> (i + n) mod 3 \<and> (i - (i + n) mod 3) mod 3 = 0 \<longleftrightarrow> n mod 3 = 0" if "0 < n" for n
    using Cons.prems that by presburger
  from Cons.IH [of "Suc i"] Cons.prems cond [of "Suc (length ds)"] show ?case
    by (simp add: group_from_right_snoc)
qed simp

lemma digit_char_not_comma: "d < 10 \<Longrightarrow> digit_char d \<noteq> CHR '',''"
  by (auto simp: digit_char_def char_of_eq_iff take_bit_nat_eq_self)

text \<open>
  The grouped format inserts a comma after every third digit from the right that has
  another digit before it, and nothing else: without the commas it is the decimal number.
\<close>

theorem format_grouped_groups_of_three:
  "format_grouped_ascii value = rev (group_from_right (rev (nat_to_dec value)))
   \<and> filter (\<lambda>c. c \<noteq> CHR '','') (format_grouped_ascii value) = nat_to_dec value"
proof
  obtain d ds where d: "nat_to_dec value = d # ds"
    by (cases "nat_to_dec value") (auto simp: nat_to_dec_def)
  show grouped: "format_grouped_ascii value = rev (group_from_right (rev (nat_to_dec value)))"
    using group_loop [of 1 ds] by (simp add: format_grouped_ascii_def d group_from_right_snoc)
  have "filter (\<lambda>c. c \<noteq> CHR '','') (group_from_right xs) = filter (\<lambda>c. c \<noteq> CHR '','') xs" for xs
    by (induction xs rule: group_from_right.induct) auto
  moreover have "c \<noteq> CHR '',''" if "c \<in> set (nat_to_dec value)" for c
    using that radix_digits_bound [of 10 _ "value"] digit_char_not_comma by (auto simp: nat_to_dec_def)
  ultimately show "filter (\<lambda>c. c \<noteq> CHR '','') (format_grouped_ascii value) = nat_to_dec value"
    by (simp add: grouped rev_filter [symmetric])
qed

end
