(* ===== verification/Combat_Election.thy ===== *)
theory Combat_Election
  imports Combat_State Combat_Metrics "HOL-Library.Monad_Syntax"
begin

unbundle bit_operations_syntax

text \<open>
  How the engine turns the facts of an encounter into a table of damage
  (\<^verbatim>\<open>crates/eqcombat/src/engine.rs\<close>, lines 1311 to 1635 and 1777 to 1847): which sources are
  compared and up to which second, to whom a damage fact is attributed, the candidate each
  source offers for each participant, the election of one candidate per participant, and the
  ranked snapshot computed from the winners.

  The election lemmas show that a participant's published damage is the sum of one source's
  facts and never a mixture of two sources, so a hit seen by several clients counts once.
\<close>

section \<open>Definitions\<close>

definition source_complete :: "EncounterState \<Rightarrow> LogSourceId \<Rightarrow> SourceState \<Rightarrow> bool" where
  "source_complete encounter source state =
     (bm_get (enc_source_continuity encounter) source = Some (ss_continuity state)
      \<and> \<not> bs_contains (enc_partial_sources encounter) source
      \<and> ss_registered_at state \<le> enc_start_receipt encounter)"

definition source_lagging ::
  "CombatEngine \<Rightarrow> EqSecond option \<Rightarrow> SourceState \<Rightarrow> bool" where
  "source_lagging eng max_observed state =
     (case (max_observed, ss_observed state) of
        (Some leader, Some observed) \<Rightarrow>
          is_some_and (eq_second_checked_sub leader observed)
            (\<lambda>gap. gap \<ge> pol_lag_eq_seconds (eng_policy eng))
          \<and> saturating_duration_since (eng_now eng) (ss_last_progress_at state)
              \<ge> pol_lag_receipt_ms (eng_policy eng)
      | _ \<Rightarrow> False)"

definition comparison_watermark :: "CombatEngine \<Rightarrow> EncounterState \<Rightarrow> EqSecond option" where
  "comparison_watermark eng encounter =
     (if is_held (enc_phase encounter) then Some (enc_end_eq encounter)
      else let known = filter_map (\<lambda>source. map_option (Pair source) (bm_get (eng_sources eng) source))
                         (enc_sources encounter);
               max_observed = list_max (filter_map (\<lambda>(_, state). ss_observed state) known);
               complete = filter (\<lambda>(source, state). source_complete encounter source state
                            \<and> \<not> source_lagging eng max_observed state) known;
               comparison = map snd (if complete = [] then known else complete)
           in case comparison of
                [] \<Rightarrow> None
              | [only] \<Rightarrow> opt_or (ss_closed_through only) (ss_observed only)
              | many \<Rightarrow>
                  if list_all (\<lambda>s. ss_closed_through s \<noteq> None) many
                  then list_min (filter_map ss_closed_through many)
                  else Some (unwrap_or (eq_second_checked_add (enc_start_eq encounter) (-1)) i64_min))"

text \<open>What one damage fact contributes, and to whom; \<open>None\<close> for a fact that is skipped.\<close>

record Contribution =
  con_participant :: ParticipantId
  con_display :: string
  con_source :: LogSourceId
  con_complete :: bool
  con_personal :: bool
  con_provisional_pet :: bool
  con_owned :: bool
  con_amount :: nat
  con_target :: CanonicalTargetId
  con_eq_time :: EqSecond

definition attribute_fact ::
  "CombatEngine \<Rightarrow> EncounterState \<Rightarrow> EqSecond option \<Rightarrow> LedgerFact \<Rightarrow> Contribution option" where
  "attribute_fact eng encounter watermark lf =
     (if is_some_and watermark (\<lambda>w. fact_eq_time lf > w) then None
      else case fact_event lf of
        FactDamage damage \<Rightarrow>
          if dmg_amount damage = 0 \<or> dmg_outcome damage \<noteq> Hit then None
          else let (attacker_display, attacker) = resolve_observed (fact_source lf) (dmg_attacker damage);
                   (defender_display, defender) = resolve_observed (fact_source lf) (dmg_defender damage);
                   target = canonical_target_new defender_display
            in if \<not> bm_contains (enc_targets encounter) target
                  \<or> bs_contains (eng_verified_players eng) defender then None
               else let explicit_owner = map_option (resolve_observed (fact_source lf)) (dmg_explicit_owner damage);
                        owner = opt_or (map_option snd explicit_owner)
                          (claimed_owner_in_encounter eng (fact_source lf) attacker_display encounter);
                        provisional_pet = (owner = None \<and> dmg_kind damage = Pet);
                        participant = unwrap_or owner attacker
                 in if participant = defender then None
                    else if \<not> (owner \<noteq> None \<or> provisional_pet
                           \<or> bs_contains (eng_verified_players eng) attacker
                           \<or> oc_perspective (dmg_attacker damage) \<noteq> Named
                           \<or> possible_player_name attacker_display) then None
                    else Some
                      \<lparr>con_participant = participant,
                       con_display = unwrap_or (opt_or (map_option fst explicit_owner)
                          (Option.bind owner (display_for_participant eng))) attacker_display,
                       con_source = ls_id (fact_source lf),
                       con_complete = is_some_and (bm_get (eng_sources eng) (ls_id (fact_source lf)))
                          (source_complete encounter (ls_id (fact_source lf))),
                       con_personal = (participant
                          = participant_new (ls_server (fact_source lf)) (ls_character (fact_source lf))),
                       con_provisional_pet = provisional_pet,
                       con_owned = (owner \<noteq> None),
                       con_amount = dmg_amount damage,
                       con_target = target,
                       con_eq_time = fact_eq_time lf\<rparr>
      | _ \<Rightarrow> None)"

definition candidate_new :: "Contribution \<Rightarrow> Candidate" where
  "candidate_new con =
     \<lparr>cand_participant = con_participant con, cand_display = con_display con,
      cand_source = con_source con, cand_complete = con_complete con,
      cand_personal = con_personal con, cand_provisional_pet = con_provisional_pet con,
      cand_has_pet = False, cand_direct_damage = 0, cand_pet_damage = 0, cand_damage = 0,
      cand_events = 0, cand_ranges = [], cand_target_damage = [], cand_target_first = [],
      cand_active_seconds = 1\<rparr>"

definition add_contribution :: "Contribution \<Rightarrow> Candidate \<Rightarrow> Candidate option" where
  "add_contribution con candidate = do {
     let amount = con_amount con;
     let pet = (con_owned con \<or> con_provisional_pet con);
     damage \<leftarrow> u128_checked_add (cand_damage candidate) amount;
     pet_damage \<leftarrow> (if pet then u128_checked_add (cand_pet_damage candidate) amount
                    else Some (cand_pet_damage candidate));
     direct_damage \<leftarrow> (if pet then Some (cand_direct_damage candidate)
                       else u128_checked_add (cand_direct_damage candidate) amount);
     events \<leftarrow> u64_checked_add (cand_events candidate) 1;
     target_total \<leftarrow> u128_checked_add
       (unwrap_or (bm_get (cand_target_damage candidate) (con_target con)) 0) amount;
     Some (candidate\<lparr>cand_damage := damage, cand_pet_damage := pet_damage,
       cand_direct_damage := direct_damage,
       cand_has_pet := (if pet then con_owned con else cand_has_pet candidate),
       cand_events := events,
       cand_target_damage := bm_insert (con_target con) target_total (cand_target_damage candidate),
       cand_target_first := bm_upsert (con_target con) (\<lambda>first. min first (con_eq_time con))
         (con_eq_time con) (cand_target_first candidate),
       cand_ranges := bm_upsert (con_target con)
         (\<lambda>range. (min (fst range) (con_eq_time con), max (snd range) (con_eq_time con)))
         (con_eq_time con, con_eq_time con) (cand_ranges candidate)\<rparr>)
   }"

type_synonym candidates = "(ParticipantId \<times> LogSourceId, Candidate) btree_map"

text \<open>One round of the loop over the encounter's facts; a missing fact leaves the function.\<close>

definition elect_fact ::
  "CombatEngine \<Rightarrow> EncounterState \<Rightarrow> EqSecond option \<Rightarrow> nat \<Rightarrow> candidates \<Rightarrow> candidates option" where
  "elect_fact eng encounter watermark fact_index cs =
     (if fact_index < length (eng_ledger eng)
      then case attribute_fact eng encounter watermark (eng_ledger eng ! fact_index) of
             None \<Rightarrow> Some cs
           | Some con \<Rightarrow>
               let key = (con_participant con, con_source con)
               in map_option (\<lambda>c. bm_insert key c cs)
                    (add_contribution con (unwrap_or (bm_get cs key) (candidate_new con)))
      else None)"

definition candidate_cmp :: "Candidate \<Rightarrow> Candidate \<Rightarrow> ordering" where
  "candidate_cmp left right =
     then_with (cmp (cand_complete left) (cand_complete right))
       (then_with (cmp (cand_damage left) (cand_damage right))
         (then_with (cmp (cand_events left) (cand_events right))
           (then_with (cmp (length (cand_target_damage left)) (length (cand_target_damage right)))
             (then_with (cmp (cand_active_seconds left) (cand_active_seconds right))
               (cmp (cand_source right) (cand_source left))))))"

fun position :: "('a \<Rightarrow> bool) \<Rightarrow> 'a list \<Rightarrow> nat option" where
  "position P [] = None"
| "position P (x # xs) = (if P x then Some 0 else map_option Suc (position P xs))"

definition winner_index :: "Candidate list \<Rightarrow> nat" where
  "winner_index options =
     unwrap_or (position (\<lambda>c. cand_personal c \<and> cand_complete c) options)
       (fold (\<lambda>index best. if candidate_cmp (options ! index) (options ! best) = Greater
                           then index else best) [1..<length options] 0)"

definition winner_quality :: "Candidate \<Rightarrow> SourceQuality" where
  "winner_quality winner =
     (if cand_provisional_pet winner then ProvisionalPet
      else if cand_personal winner \<and> cand_complete winner then AuthoritativePersonal
      else if cand_complete winner then CompleteObserver
      else if cand_personal winner then IncompletePersonal
      else BestPartialObserver)"

definition elect_participant :: "Candidate list \<Rightarrow> Election" where
  "elect_participant unsorted =
     (let options = sort_by (\<lambda>left right. cmp (cand_source left) (cand_source right)) unsorted;
          w = winner_index options;
          winner = options ! w
      in \<lparr>el_winner = winner, el_quality = winner_quality winner,
          el_losers = map (\<lambda>c. (cand_source c, cand_damage c))
            (take w options @ drop (w + 1) options)\<rparr>)"

definition with_active_seconds :: "CombatEngine \<Rightarrow> Candidate \<Rightarrow> Candidate" where
  "with_active_seconds eng candidate =
     candidate\<lparr>cand_active_seconds := union_range_seconds (bm_values (cand_ranges candidate))
       (pol_active_range_bridge_seconds (eng_policy eng))\<rparr>"

definition group_candidates :: "Candidate list \<Rightarrow> (ParticipantId, Candidate list) btree_map" where
  "group_candidates cs =
     fold (\<lambda>c. bm_upsert (cand_participant c) (\<lambda>options. options @ [c]) [c]) cs []"

definition elect_candidates :: "CombatEngine \<Rightarrow> EncounterState \<Rightarrow> Candidate list option" where
  "elect_candidates eng encounter =
     (let watermark = comparison_watermark eng encounter
      in map_option (\<lambda>cs. filter (\<lambda>c. cand_damage c > 0)
             (map (with_active_seconds eng) (bm_values cs)))
         (try_fold (elect_fact eng encounter watermark) (enc_facts encounter) []))"

definition elect :: "CombatEngine \<Rightarrow> EncounterState \<Rightarrow> (ParticipantId, Election) btree_map option" where
  "elect eng encounter =
     map_option (\<lambda>cs. bm_map_values elect_participant (group_candidates cs))
       (elect_candidates eng encounter)"

section \<open>Revisions\<close>

definition le_bytes :: "nat \<Rightarrow> nat \<Rightarrow> nat list" where
  "le_bytes width value = map (\<lambda>i. value div 256 ^ i mod 256) [0..<width]"

definition str_bytes :: "string \<Rightarrow> nat list" where
  "str_bytes s = map byte s"

definition fnv_step :: "64 word \<Rightarrow> nat \<Rightarrow> 64 word" where
  "fnv_step hash b = (hash XOR of_nat b) * 0x100000001b3"

definition hash_bytes :: "nat list \<Rightarrow> 64 word \<Rightarrow> 64 word" where
  "hash_bytes bytes hash = fnv_step (fold (\<lambda>b h. fnv_step h b) bytes hash) 0xff"

definition hash_u64 :: "nat \<Rightarrow> 64 word \<Rightarrow> 64 word" where
  "hash_u64 value = hash_bytes (le_bytes 8 value)"

definition fnv_offset :: "64 word" where
  "fnv_offset = 0xcbf29ce484222325"

fun phase_code :: "EncounterPhase \<Rightarrow> nat" where
  "phase_code PhaseActive = 0"
| "phase_code PhaseEndingGrace = 1"
| "phase_code PhaseHeld = 2"

fun reason_code :: "EndReason \<Rightarrow> nat" where
  "reason_code AllTargetsTerminal = 0"
| "reason_code Inactivity = 1"

fun quality_code :: "SourceQuality \<Rightarrow> nat" where
  "quality_code AuthoritativePersonal = 0"
| "quality_code CompleteObserver = 1"
| "quality_code BestPartialObserver = 2"
| "quality_code IncompletePersonal = 3"
| "quality_code ProvisionalPet = 4"

definition hash_row :: "DpsRowSnapshot \<Rightarrow> 64 word \<Rightarrow> 64 word" where
  "hash_row row hash =
     (let h = hash_bytes (str_bytes (row_display_name row))
            (hash_bytes (str_bytes (pid_canonical_name (row_participant row)))
              (hash_bytes (str_bytes (pid_server (row_participant row)))
                (hash_u64 (row_rank row) hash)));
          h = hash_u64 (of_bool (row_provisional_pet row))
            (hash_u64 (of_bool (row_has_pet_damage row)) (hash_u64 (of_bool (row_managed row)) h));
          h = hash_u64 (row_active_seconds row) (hash_bytes (le_bytes 16 (row_damage row)) h);
          h = hash_bytes (le_bytes 16 (row_sdps row)) (hash_bytes (le_bytes 16 (row_dps row)) h);
          h = hash_u64 (quality_code (row_source_quality row))
            (hash_u64 (row_contribution_millionths row) h)
      in hash_bytes (str_bytes (row_elected_source row)) h)"

definition encounter_revision :: "EncounterSnapshot \<Rightarrow> nat" where
  "encounter_revision snapshot =
     (let h = hash_bytes (str_bytes (snap_title snapshot))
            (hash_bytes (str_bytes (snap_id snapshot)) fnv_offset);
          h = hash_u64 (case snap_end_reason snapshot of None \<Rightarrow> u64_max | Some r \<Rightarrow> reason_code r)
            (hash_u64 (phase_code (snap_phase snapshot)) h);
          h = hash_u64 (snap_encounter_seconds snapshot)
            (hash_u64 (snap_additional_target_names snapshot) h);
          h = hash_bytes (le_bytes 16 (snap_raid_damage snapshot))
            (hash_bytes (le_bytes 8 (nat (snap_last_sustained_at snapshot mod 2 ^ 64))) h);
          h = hash_u64 (case snap_held_until snapshot of None \<Rightarrow> u64_max | Some t \<Rightarrow> t)
            (hash_bytes (str_bytes (snap_primary_target snapshot)) h);
          h = fold (\<lambda>source. hash_bytes (str_bytes source)) (snap_source_members snapshot) h;
          h = fold hash_row (snap_rows snapshot) h
      in max (unat h) 1)"

definition book_revision :: "EncounterSnapshot list \<Rightarrow> nat" where
  "book_revision snapshots =
     max (unat (fold (\<lambda>snapshot h. hash_u64 (snap_revision snapshot)
       (hash_bytes (str_bytes (snap_id snapshot)) h)) snapshots fnv_offset)) 1"

section \<open>The snapshot of an encounter\<close>

definition target_totals ::
  "EncounterState \<Rightarrow> Election list \<Rightarrow> (CanonicalTargetId, nat \<times> EqSecond) btree_map option" where
  "target_totals encounter elections =
     try_fold (\<lambda>election. try_fold (\<lambda>(target, damage) totals.
         let first = unwrap_or (bm_get (cand_target_first (el_winner election)) target)
               (enc_start_eq encounter);
             entry = unwrap_or (bm_get totals target) (0, first)
         in map_option (\<lambda>sum_damage. bm_insert target (sum_damage, min (snd entry) first) totals)
              (u128_checked_add (fst entry) damage))
       (cand_target_damage (el_winner election))) elections []"

definition primary_cmp ::
  "CanonicalTargetId \<times> nat \<times> EqSecond \<Rightarrow> CanonicalTargetId \<times> nat \<times> EqSecond \<Rightarrow> ordering" where
  "primary_cmp left right =
     then_with (cmp (fst (snd left)) (fst (snd right)))
       (then_with (cmp (snd (snd right)) (snd (snd left))) (cmp (fst right) (fst left)))"

definition row_of_election ::
  "CombatEngine \<Rightarrow> EncounterState \<Rightarrow> nat \<Rightarrow> nat \<Rightarrow> Election \<Rightarrow> DpsRowSnapshot option" where
  "row_of_election eng encounter encounter_seconds raid_damage election = do {
     let winner = el_winner election;
     let active_seconds = max (cand_active_seconds winner) 1;
     dps \<leftarrow> round_rate (cand_damage winner) active_seconds;
     sdps \<leftarrow> round_rate (cand_damage winner) encounter_seconds;
     Some \<lparr>row_rank = 0, row_participant = cand_participant winner,
       row_display_name = cand_display winner,
       row_managed = (bs_contains (enc_managed encounter) (cand_participant winner)
         \<or> is_managed eng (cand_participant winner)),
       row_has_pet_damage = cand_has_pet winner,
       row_provisional_pet = cand_provisional_pet winner,
       row_damage = cand_damage winner, row_active_seconds = active_seconds,
       row_dps = dps, row_sdps = sdps,
       row_contribution_millionths = ratio_millionths (cand_damage winner) raid_damage,
       row_source_quality = el_quality election, row_elected_source = cand_source winner\<rparr>
   }"

definition row_cmp :: "DpsRowSnapshot \<Rightarrow> DpsRowSnapshot \<Rightarrow> ordering" where
  "row_cmp left right =
     then_with (cmp (row_damage right) (row_damage left))
       (then_with (cmp (row_dps right) (row_dps left))
         (cmp (row_participant left) (row_participant right)))"

definition rank_rows :: "DpsRowSnapshot list \<Rightarrow> DpsRowSnapshot list" where
  "rank_rows rows = map (\<lambda>(index, row). row\<lparr>row_rank := index + 1\<rparr>) (enumerate 0 rows)"

fun snapshot_phase :: "PhaseState \<Rightarrow> EncounterPhase \<times> EndReason option \<times> MonoTime option" where
  "snapshot_phase Active = (PhaseActive, None, None)"
| "snapshot_phase (Ending reason _ _ _) = (PhaseEndingGrace, Some reason, None)"
| "snapshot_phase (Held reason until) = (PhaseHeld, Some reason, Some until)"

definition compute_snapshot :: "CombatEngine \<Rightarrow> EncounterState \<Rightarrow> nat \<Rightarrow> EncounterSnapshot option" where
  "compute_snapshot eng encounter revision = do {
     elections \<leftarrow> elect eng encounter;
     if elections = [] then None else do {
       raid_damage \<leftarrow> try_fold (\<lambda>election damage_sum.
         u128_checked_add damage_sum (cand_damage (el_winner election))) (bm_values elections) 0;
       if raid_damage = 0 then None else do {
         let encounter_seconds = inclusive_seconds (enc_start_eq encounter) (enc_end_eq encounter);
         target_damage \<leftarrow> target_totals encounter (bm_values elections);
         (primary, _) \<leftarrow> max_by primary_cmp target_damage;
         let additional = length target_damage - 1;
         let primary_display = (case bm_get (enc_targets encounter) primary of
           Some target \<Rightarrow> tgt_display target | None \<Rightarrow> primary);
         let title = (if additional = 0 then primary_display
           else primary_display @ '' +'' @ nat_to_dec additional @ '' mobs'');
         rows \<leftarrow> those (map (row_of_election eng encounter encounter_seconds raid_damage)
           (filter (\<lambda>election. cand_damage (el_winner election) > 0) (bm_values elections)));
         let (phase, end_reason, held_until) = snapshot_phase (enc_phase encounter);
         Some \<lparr>snap_id = enc_id encounter, snap_revision = revision, snap_phase = phase,
           snap_end_reason = end_reason, snap_title = title, snap_primary_target = primary,
           snap_additional_target_names = additional,
           snap_encounter_seconds = encounter_seconds, snap_raid_damage = raid_damage,
           snap_rows = rank_rows (sort_by row_cmp rows),
           snap_source_members = enc_sources encounter,
           snap_last_sustained_at = enc_last_sustain_eq encounter,
           snap_held_until = held_until\<rparr>
       }
     }
   }"

section \<open>Candidates\<close>

abbreviation con_key :: "Contribution \<Rightarrow> ParticipantId \<times> LogSourceId" where
  "con_key con \<equiv> (con_participant con, con_source con)"

abbreviation damage_of :: "Contribution list \<Rightarrow> nat" where
  "damage_of cons \<equiv> sum_list (map con_amount cons)"

definition contributions ::
  "CombatEngine \<Rightarrow> EncounterState \<Rightarrow> EqSecond option \<Rightarrow> nat list \<Rightarrow> Contribution list" where
  "contributions eng encounter watermark idxs =
     filter_map (\<lambda>i. attribute_fact eng encounter watermark (eng_ledger eng ! i)) idxs"

lemma contributions_snoc:
  "contributions eng e w (is @ [i]) = contributions eng e w is
     @ (case attribute_fact eng e w (eng_ledger eng ! i) of None \<Rightarrow> [] | Some con \<Rightarrow> [con])"
  by (simp add: contributions_def List.map_filter_def split: option.splits)

lemma attribute_fact_Some:
  assumes "attribute_fact eng e w lf = Some con"
  shows "\<exists>damage. fact_event lf = FactDamage damage \<and> dmg_outcome damage = Hit
    \<and> con_amount con = dmg_amount damage \<and> 0 < dmg_amount damage
    \<and> con_source con = ls_id (fact_source lf) \<and> con_eq_time con = fact_eq_time lf
    \<and> bm_contains (enc_targets e) (con_target con) \<and> is_none_or w (\<lambda>t. fact_eq_time lf \<le> t)"
proof (cases "fact_event lf")
  case (FactDamage damage)
  obtain ad a where a: "resolve_observed (fact_source lf) (dmg_attacker damage) = (ad, a)" by fastforce
  obtain dd d where d: "resolve_observed (fact_source lf) (dmg_defender damage) = (dd, d)" by fastforce
  have "is_none_or w (\<lambda>t. fact_eq_time lf \<le> t)"
    using assms by (cases w) (auto simp: attribute_fact_def not_less split: if_splits)
  with assms FactDamage show ?thesis
    unfolding attribute_fact_def Let_def FactDamage FactEvent.case a d prod.case
    by (clarsimp split: if_splits simp: is_none_or_def)
qed (use assms in \<open>simp_all add: attribute_fact_def split: if_splits\<close>)

lemma contribution_positive: "con \<in> set (contributions eng e w is) \<Longrightarrow> 0 < con_amount con"
  by (auto simp: contributions_def set_filter_map dest!: attribute_fact_Some)

text \<open>A candidate sums up the contributions it was offered, in total, by kind and by target.\<close>

definition candidate_sums :: "Contribution list \<Rightarrow> Candidate \<Rightarrow> bool" where
  "candidate_sums own c \<longleftrightarrow> cand_damage c = damage_of own
     \<and> cand_pet_damage c = damage_of (filter (\<lambda>con. con_owned con \<or> con_provisional_pet con) own)
     \<and> cand_direct_damage c + cand_pet_damage c = cand_damage c
     \<and> cand_events c = length own
     \<and> bm_wf (cand_target_damage c) \<and> sum_list (bm_values (cand_target_damage c)) = cand_damage c
     \<and> (\<forall>t. bm_get (cand_target_damage c) t =
          (let on_t = filter (\<lambda>con. con_target con = t) own
           in if on_t = [] then None else Some (damage_of on_t)))"

lemma candidate_sums_new [simp]: "candidate_sums [] (candidate_new con)"
  by (simp add: candidate_sums_def candidate_new_def)

lemma candidate_new_key [simp]:
  "cand_participant (candidate_new con) = con_participant con"
  "cand_source (candidate_new con) = con_source con"
  by (simp_all add: candidate_new_def)

lemma candidate_sums_add:
  assumes "candidate_sums own c" "add_contribution con c = Some c'"
  shows "candidate_sums (own @ [con]) c'"
    and "cand_participant c' = cand_participant c" "cand_source c' = cand_source c"
proof -
  from assms(2) obtain pet_damage direct_damage where
    pd: "pet_damage = cand_pet_damage c + (if con_owned con \<or> con_provisional_pet con then con_amount con else 0)"
      "direct_damage = cand_direct_damage c + (if con_owned con \<or> con_provisional_pet con then 0 else con_amount con)"
    and c': "cand_damage c' = cand_damage c + con_amount con" "cand_pet_damage c' = pet_damage"
      "cand_direct_damage c' = direct_damage" "cand_events c' = Suc (cand_events c)"
      "cand_target_damage c' = bm_insert (con_target con)
         (unwrap_or (bm_get (cand_target_damage c) (con_target con)) 0 + con_amount con) (cand_target_damage c)"
    and key: "cand_participant c' = cand_participant c" "cand_source c' = cand_source c"
    by (auto simp: add_contribution_def Let_def bind_eq_Some_conv split: if_splits)
  show "cand_participant c' = cand_participant c" "cand_source c' = cand_source c" by (fact key)+
  show "candidate_sums (own @ [con]) c'"
    using assms(1) bm_insert_sum [of "cand_target_damage c" "con_target con" "con_amount con"]
    by (auto simp: candidate_sums_def c' pd Let_def)
qed

definition candidates_inv :: "Contribution list \<Rightarrow> candidates \<Rightarrow> bool" where
  "candidates_inv cons cs \<longleftrightarrow> bm_wf cs
     \<and> set (bm_keys cs) = con_key ` set cons
     \<and> (\<forall>k c. bm_get cs k = Some c \<longrightarrow>
          (cand_participant c, cand_source c) = k
          \<and> candidate_sums (filter (\<lambda>con. con_key con = k) cons) c)"

lemma candidates_inv_step:
  assumes "candidates_inv (contributions eng e w is) cs" "elect_fact eng e w i cs = Some cs'"
  shows "candidates_inv (contributions eng e w (is @ [i])) cs'"
proof (cases "attribute_fact eng e w (eng_ledger eng ! i)")
  case None
  with assms show ?thesis by (simp add: elect_fact_def contributions_snoc split: if_splits)
next
  case (Some con)
  let ?cons = "contributions eng e w is" and ?k = "con_key con"
  let ?old = "unwrap_or (bm_get cs ?k) (candidate_new con)"
  from assms(2) Some obtain c where c: "add_contribution con ?old = Some c" "cs' = bm_insert ?k c cs"
    by (auto simp: elect_fact_def Let_def split: if_splits)
  have fresh: "filter (\<lambda>con'. con_key con' = ?k) ?cons = []" if "bm_get cs ?k = None"
  proof -
    have "?k \<notin> con_key ` set ?cons"
      using assms(1) that bm_contains_iff [of cs ?k]
      unfolding candidates_inv_def bm_contains_def by metis
    then have "con_key con' \<noteq> ?k" if "con' \<in> set ?cons" for con'
      using that by (auto simp del: prod.inject intro: rev_image_eqI)
    then show ?thesis by (auto simp: filter_empty_conv)
  qed
  have old: "candidate_sums (filter (\<lambda>con'. con_key con' = ?k) ?cons) ?old
      \<and> (cand_participant ?old, cand_source ?old) = ?k"
    using assms(1) fresh
    by (cases "bm_get cs ?k") (auto simp: candidates_inv_def)
  note new = candidate_sums_add [OF conjunct1 [OF old] c(1)]
  show ?thesis
    unfolding candidates_inv_def
  proof (intro conjI allI impI)
    show "bm_wf cs'" using assms(1) c(2) by (simp add: candidates_inv_def)
    show "set (bm_keys cs') = con_key ` set (contributions eng e w (is @ [i]))"
      using assms(1) unfolding c(2) bm_keys_insert by (simp add: candidates_inv_def contributions_snoc Some)
  next
    fix k d
    assume d: "bm_get cs' k = Some d"
    show "(cand_participant d, cand_source d) = k"
      using d assms(1) new old by (cases k) (auto simp: c(2) candidates_inv_def split: if_splits)
    show "candidate_sums (filter (\<lambda>con. con_key con = k) (contributions eng e w (is @ [i]))) d"
      using d assms(1) new
      by (cases k) (auto simp: c(2) candidates_inv_def contributions_snoc Some split: if_splits)
  qed
qed

lemma candidates_inv_Nil: "candidates_inv (contributions eng e w []) []"
  by (simp add: candidates_inv_def contributions_def List.map_filter_def)

lemma candidates_inv_fold:
  "try_fold (elect_fact eng e w) is [] = Some cs \<Longrightarrow> candidates_inv (contributions eng e w is) cs"
  by (rule try_fold_inv [where P = "\<lambda>js. candidates_inv (contributions eng e w js)",
        OF _ candidates_inv_Nil candidates_inv_step])

section \<open>Grouping\<close>

lemma group_candidates_snoc:
  "group_candidates (cs @ [c]) =
     bm_upsert (cand_participant c) (\<lambda>options. options @ [c]) [c] (group_candidates cs)"
  by (simp add: group_candidates_def)

lemma group_candidates_wf: "bm_wf (group_candidates cs)"
  by (induction cs rule: rev_induct) (simp_all add: group_candidates_snoc, simp add: group_candidates_def)

lemma group_candidates_get:
  "bm_get (group_candidates cs) p =
     (let own = filter (\<lambda>c. cand_participant c = p) cs in if own = [] then None else Some own)"
proof (induction cs rule: rev_induct)
  case (snoc c cs)
  then show ?case
    by (cases "filter (\<lambda>c'. cand_participant c' = cand_participant c) cs")
      (auto simp: group_candidates_snoc Let_def)
qed (simp add: group_candidates_def)

section \<open>Electing\<close>

lemma candidate_cmp_total: "total_cmp candidate_cmp"
  unfolding candidate_cmp_def by (intro total_cmp_intros)

interpretation candidates_cmp: total_cmp candidate_cmp
  by (rule candidate_cmp_total)

lemma position_Some: "position P xs = Some i \<Longrightarrow> i < length xs \<and> P (xs ! i)"
  by (induction xs arbitrary: i) (auto split: if_splits)

lemma position_None: "position P xs = None \<longleftrightarrow> (\<forall>x \<in> set xs. \<not> P x)"
  by (induction xs) (auto split: if_splits)

text \<open>The scan for the best index keeps the best of the prefix it has seen.\<close>

lemma best_scan:
  assumes "n < length options"
  defines "best \<equiv> \<lambda>k. fold (\<lambda>index best. if candidate_cmp (options ! index) (options ! best) = Greater
      then index else best) [1..<k] 0"
  shows "best (Suc n) \<le> n \<and> (\<forall>j \<le> n. candidate_cmp (options ! j) (options ! best (Suc n)) \<noteq> Greater)"
  using assms(1)
proof (induction n)
  case 0
  then show ?case by (simp add: best_def)
next
  case (Suc n)
  have step: "best (Suc (Suc n)) =
      (if candidate_cmp (options ! Suc n) (options ! best (Suc n)) = Greater then Suc n else best (Suc n))"
    by (simp add: best_def)
  from Suc have IH: "best (Suc n) \<le> n" "\<And>j. j \<le> n \<Longrightarrow> candidate_cmp (options ! j) (options ! best (Suc n)) \<noteq> Greater"
    by simp_all
  show ?case
  proof (cases "candidate_cmp (options ! Suc n) (options ! best (Suc n)) = Greater")
    case True
    then have "candidate_cmp (options ! best (Suc n)) (options ! Suc n) \<noteq> Greater"
      by (rule candidates_cmp.not_greater_swap)
    then have "candidate_cmp (options ! j) (options ! Suc n) \<noteq> Greater" if "j \<le> Suc n" for j
      using IH(2) [of j] that candidates_cmp.trans by (cases "j = Suc n") auto
    then show ?thesis using True step by simp
  next
    case False
    then show ?thesis using IH step by (auto simp: le_Suc_eq)
  qed
qed

lemma winner_index_less: "options \<noteq> [] \<Longrightarrow> winner_index options < length options"
proof -
  assume "options \<noteq> []"
  then obtain n where "length options = Suc n" by (cases options) auto
  then show ?thesis
    using best_scan [of n options] position_Some
    by (cases "position (\<lambda>c. cand_personal c \<and> cand_complete c) options")
      (fastforce simp: winner_index_def)+
qed

lemma winner_index_best:
  assumes "c \<in> set options"
  defines "w \<equiv> options ! winner_index options"
  shows "(\<exists>a \<in> set options. cand_personal a \<and> cand_complete a) \<Longrightarrow> cand_personal w \<and> cand_complete w"
    and "\<not> (\<exists>a \<in> set options. cand_personal a \<and> cand_complete a) \<Longrightarrow> candidate_cmp c w \<noteq> Greater"
proof -
  show "cand_personal w \<and> cand_complete w" if "\<exists>a \<in> set options. cand_personal a \<and> cand_complete a"
  proof (cases "position (\<lambda>c. cand_personal c \<and> cand_complete c) options")
    case None
    with that show ?thesis unfolding position_None by blast
  next
    case (Some i)
    with position_Some [OF Some] show ?thesis by (simp add: w_def winner_index_def)
  qed
  show "candidate_cmp c w \<noteq> Greater" if "\<not> (\<exists>a \<in> set options. cand_personal a \<and> cand_complete a)"
  proof -
    have none: "position (\<lambda>c. cand_personal c \<and> cand_complete c) options = None"
      using that by (auto simp: position_None)
    obtain j where j: "j < length options" "c = options ! j" using assms(1) by (metis in_set_conv_nth)
    then obtain n where "length options = Suc n" by (cases options) auto
    then show ?thesis
      using best_scan [of n options] j by (auto simp: w_def winner_index_def none)
  qed
qed

lemma elect_participant_rule:
  assumes "unsorted \<noteq> []"
  defines "e \<equiv> elect_participant unsorted"
  shows "el_winner e \<in> set unsorted"
    and "mset unsorted = add_mset (el_winner e)
      (mset unsorted - {#el_winner e#})"
    and "mset (el_losers e) = image_mset (\<lambda>c. (cand_source c, cand_damage c)) (mset unsorted - {#el_winner e#})"
    and "(\<exists>a \<in> set unsorted. cand_personal a \<and> cand_complete a) \<Longrightarrow>
      cand_personal (el_winner e) \<and> cand_complete (el_winner e)"
    and "\<not> (\<exists>a \<in> set unsorted. cand_personal a \<and> cand_complete a) \<Longrightarrow>
      c \<in> set unsorted \<Longrightarrow> candidate_cmp c (el_winner e) \<noteq> Greater"
proof -
  define options where "options = sort_by (\<lambda>left right. cmp (cand_source left) (cand_source right)) unsorted"
  have set: "set options = set unsorted" and ms: "mset options = mset unsorted" by (simp_all add: options_def)
  have ne: "options \<noteq> []" using assms(1) set by auto
  let ?w = "winner_index options"
  have w: "el_winner e = options ! ?w" and l: "el_losers e =
      map (\<lambda>c. (cand_source c, cand_damage c)) (take ?w options @ drop (Suc ?w) options)"
    by (simp_all add: e_def elect_participant_def Let_def options_def [symmetric])
  have lt: "?w < length options" by (rule winner_index_less [OF ne])
  show win: "el_winner e \<in> set unsorted" using lt set w by (metis nth_mem)
  then show "mset unsorted = add_mset (el_winner e) (mset unsorted - {#el_winner e#})" by simp
  have "mset options = add_mset (options ! ?w) (mset (take ?w options @ drop (Suc ?w) options))"
    using id_take_nth_drop [OF lt] by (metis mset.simps(2) mset_append union_mset_add_mset_right)
  then have "mset unsorted - {#el_winner e#} = mset (take ?w options @ drop (Suc ?w) options)"
    by (simp add: ms [symmetric] w)
  then show "mset (el_losers e) = image_mset (\<lambda>c. (cand_source c, cand_damage c)) (mset unsorted - {#el_winner e#})"
    by (simp add: l)
  show "cand_personal (el_winner e) \<and> cand_complete (el_winner e)"
    if "\<exists>a \<in> set unsorted. cand_personal a \<and> cand_complete a"
    using winner_index_best(1) that unfolding w set [symmetric] by blast
  show "candidate_cmp c (el_winner e) \<noteq> Greater"
    if "\<not> (\<exists>a \<in> set unsorted. cand_personal a \<and> cand_complete a)" "c \<in> set unsorted"
    using winner_index_best(2) that unfolding w set [symmetric] by blast
qed

section \<open>What an election publishes\<close>

abbreviation counted :: "CombatEngine \<Rightarrow> EncounterState \<Rightarrow> Contribution list" where
  "counted eng e \<equiv> contributions eng e (comparison_watermark eng e) (enc_facts e)"

abbreviation own_contributions ::
  "CombatEngine \<Rightarrow> EncounterState \<Rightarrow> ParticipantId \<Rightarrow> LogSourceId \<Rightarrow> Contribution list" where
  "own_contributions eng e p s \<equiv> filter (\<lambda>con. con_key con = (p, s)) (counted eng e)"

lemma with_active_seconds_simps [simp]:
  "cand_participant (with_active_seconds eng c) = cand_participant c"
  "cand_source (with_active_seconds eng c) = cand_source c"
  "cand_damage (with_active_seconds eng c) = cand_damage c"
  "candidate_sums own (with_active_seconds eng c) = candidate_sums own c"
  by (simp_all add: with_active_seconds_def candidate_sums_def)

lemma damage_of_filter_le: "damage_of (filter P cons) \<le> damage_of cons"
  by (induction cons) auto

lemma damage_of_positive: "con \<in> set cons \<Longrightarrow> (\<And>c. c \<in> set cons \<Longrightarrow> 0 < con_amount c) \<Longrightarrow> 0 < damage_of cons"
  by (metis gr0I imageI list.set_map sum_list_eq_0_iff less_irrefl)

lemma elect_candidates_sound:
  assumes "elect_candidates eng e = Some cs" "c \<in> set cs"
  shows "candidate_sums (own_contributions eng e (cand_participant c) (cand_source c)) c" "0 < cand_damage c"
proof -
  from assms(1) obtain m where m: "try_fold (elect_fact eng e (comparison_watermark eng e)) (enc_facts e) [] = Some m"
    "cs = filter (\<lambda>c. cand_damage c > 0) (map (with_active_seconds eng) (bm_values m))"
    by (auto simp: elect_candidates_def Let_def)
  note inv = candidates_inv_fold [OF m(1)]
  have "c \<in> with_active_seconds eng ` set (bm_values m)" and pos: "0 < cand_damage c"
    using assms(2) m(2) by auto
  then obtain d where d: "d \<in> set (bm_values m)" "c = with_active_seconds eng d" by blast
  have wf: "bm_wf m" using inv by (simp add: candidates_inv_def)
  obtain k where k: "bm_get m k = Some d" using bm_wf_values [OF wf] d(1) by blast
  have "(cand_participant d, cand_source d) = k"
    and "candidate_sums (filter (\<lambda>con. con_key con = k) (counted eng e)) d"
    using inv k unfolding candidates_inv_def by blast+
  then show "candidate_sums (own_contributions eng e (cand_participant c) (cand_source c)) c"
    by (auto simp: d(2))
  show "0 < cand_damage c" by (rule pos)
qed

lemma elect_candidates_complete:
  assumes "elect_candidates eng e = Some cs" "con \<in> set (counted eng e)"
  shows "\<exists>c \<in> set cs. (cand_participant c, cand_source c) = con_key con"
proof -
  from assms(1) obtain m where m: "try_fold (elect_fact eng e (comparison_watermark eng e)) (enc_facts e) [] = Some m"
    "cs = filter (\<lambda>c. cand_damage c > 0) (map (with_active_seconds eng) (bm_values m))"
    by (auto simp: elect_candidates_def Let_def)
  note inv = candidates_inv_fold [OF m(1)]
  from assms(2) inv have "bm_contains m (con_key con)"
    unfolding bm_contains_iff candidates_inv_def by blast
  then obtain c where c: "bm_get m (con_key con) = Some c" by (auto simp: bm_contains_def)
  with inv have key: "(cand_participant c, cand_source c) = con_key con"
    and "candidate_sums (filter (\<lambda>x. con_key x = con_key con) (counted eng e)) c"
    unfolding candidates_inv_def by blast+
  moreover have "0 < damage_of (filter (\<lambda>x. con_key x = con_key con) (counted eng e))"
    using assms(2) contribution_positive by (intro damage_of_positive [of con]) auto
  ultimately have "0 < cand_damage c" by (simp add: candidate_sums_def)
  then have "with_active_seconds eng c \<in> set cs"
    using bm_get_in [OF c] m(2) by force
  then show ?thesis using key by (intro bexI [of _ "with_active_seconds eng c"]) simp_all
qed

text \<open>The published election of a participant, in terms of the candidates it was held over.\<close>

lemma elect_get:
  assumes "elect_candidates eng e = Some cs"
  shows "\<exists>els. elect eng e = Some els \<and> bm_wf els \<and>
    (\<forall>p. bm_get els p = (let own = filter (\<lambda>c. cand_participant c = p) cs
       in if own = [] then None else Some (elect_participant own)))"
  by (simp add: elect_def assms group_candidates_wf group_candidates_get Let_def)

lemma elect_winner:
  assumes "elect eng e = Some els" "bm_get els p = Some el"
  obtains cs where "elect_candidates eng e = Some cs" "el_winner el \<in> set cs"
    "cand_participant (el_winner el) = p" "el = elect_participant (filter (\<lambda>c. cand_participant c = p) cs)"
    "filter (\<lambda>c. cand_participant c = p) cs \<noteq> []"
proof -
  from assms(1) obtain cs where cs: "elect_candidates eng e = Some cs" by (auto simp: elect_def)
  with elect_get [OF cs] assms have ne: "filter (\<lambda>c. cand_participant c = p) cs \<noteq> []"
    and el: "el = elect_participant (filter (\<lambda>c. cand_participant c = p) cs)"
    by (auto simp: Let_def split: if_splits)
  from elect_participant_rule(1) [OF ne] el have "el_winner el \<in> set (filter (\<lambda>c. cand_participant c = p) cs)" by simp
  with cs ne el that show thesis by simp
qed

end
