(* ===== verification/Combat_Lifecycle.thy ===== *)
theory Combat_Lifecycle
  imports Combat_Election
begin

text \<open>
  The transitions of the combat engine (\<^verbatim>\<open>crates/eqcombat/src/engine.rs\<close>, lines 177 to
  1309): registration and gaps of sources, acceptance of a record, the assignment of each fact
  to an encounter, the merging of encounters that turn out to be one, the passage of time and
  the publication of the book of snapshots. Every method that takes \<open>&mut self\<close> is a function
  from the engine to the engine; an early return is a branch of the definition.
\<close>

section \<open>Sources\<close>

definition source_state_new :: "LogSource \<Rightarrow> nat \<Rightarrow> MonoTime \<Rightarrow> SourceState" where
  "source_state_new source generation now =
     \<lparr>ss_source = source, ss_generation = generation, ss_present = True, ss_registered_at = now,
      ss_continuity = 0, ss_observed = None, ss_closed_through = None, ss_history_floor = None,
      ss_last_progress_at = now, ss_last_sequence = None, ss_eof_second = None,
      ss_eof_first_at = None, ss_eof_passes = 0, ss_zone = None\<rparr>"

definition source_reregister :: "LogSource \<Rightarrow> nat \<Rightarrow> MonoTime \<Rightarrow> SourceState \<Rightarrow> SourceState" where
  "source_reregister source generation now existing =
     (let discontinuity = (ss_generation existing \<noteq> generation \<or> ss_source existing \<noteq> source
            \<or> \<not> ss_present existing);
          fresh = (if discontinuity
            then existing\<lparr>ss_history_floor := opt_max (ss_history_floor existing) (ss_closed_through existing),
              ss_continuity := u64_wrapping_add (ss_continuity existing) 1,
              ss_generation := generation, ss_last_sequence := None, ss_observed := None,
              ss_closed_through := None, ss_eof_second := None, ss_eof_first_at := None,
              ss_eof_passes := 0, ss_registered_at := now, ss_last_progress_at := now\<rparr>
            else existing)
      in fresh\<lparr>ss_source := source, ss_present := True\<rparr>)"

definition register_source :: "LogSource \<Rightarrow> nat \<Rightarrow> MonoTime \<Rightarrow> CombatEngine \<Rightarrow> CombatEngine" where
  "register_source source generation now eng =
     (let managed = participant_new (ls_server source) (ls_character source)
      in eng\<lparr>eng_verified_players := bs_insert managed (eng_verified_players eng),
             eng_sources := bm_upsert (ls_id source) (source_reregister source generation now)
               (source_state_new source generation now) (eng_sources eng),
             eng_encounters := bm_map_values (\<lambda>e.
               if \<not> is_held (enc_phase e) \<and> eq_ignore_ascii_case (enc_server e) (pid_server managed)
               then e\<lparr>enc_managed := bs_insert managed (enc_managed e)\<rparr> else e) (eng_encounters eng)\<rparr>)"

text \<open>Every live encounter that a source takes part in counts it as partial from now on.\<close>

definition mark_partial ::
  "LogSourceId \<Rightarrow> (EncounterId, EncounterState) btree_map \<Rightarrow> (EncounterId, EncounterState) btree_map" where
  "mark_partial source = bm_map_values (\<lambda>e.
     if bs_contains (enc_sources e) source \<and> \<not> is_held (enc_phase e)
     then e\<lparr>enc_partial_sources := bs_insert source (enc_partial_sources e)\<rparr> else e)"

definition source_removed :: "LogSourceId \<Rightarrow> CombatEngine \<Rightarrow> CombatEngine" where
  "source_removed source eng =
     eng\<lparr>eng_sources := bm_modify source (\<lambda>s. s\<lparr>ss_present := False\<rparr>) (eng_sources eng),
         eng_encounters := mark_partial source (eng_encounters eng)\<rparr>"

fun gap_resets_clock :: "GapReason \<Rightarrow> bool" where
  "gap_resets_clock FileRecreated = True"
| "gap_resets_clock FileTruncated = True"
| "gap_resets_clock BoundaryChanged = True"
| "gap_resets_clock SourceReassociated = True"
| "gap_resets_clock GenerationChanged = True"
| "gap_resets_clock _ = False"

fun gap_reason_debug :: "GapReason \<Rightarrow> string" where
  "gap_reason_debug FileRecreated = ''FileRecreated''"
| "gap_reason_debug FileTruncated = ''FileTruncated''"
| "gap_reason_debug BoundaryChanged = ''BoundaryChanged''"
| "gap_reason_debug OversizedRecord = ''OversizedRecord''"
| "gap_reason_debug DiscardUntilNewline = ''DiscardUntilNewline''"
| "gap_reason_debug SourceReassociated = ''SourceReassociated''"
| "gap_reason_debug CalendarRegression = ''CalendarRegression''"
| "gap_reason_debug OutOfOrderClosedSecond = ''OutOfOrderClosedSecond''"
| "gap_reason_debug GenerationChanged = ''GenerationChanged''"

definition source_gap :: "nat \<Rightarrow> GapReason \<Rightarrow> SourceState \<Rightarrow> SourceState" where
  "source_gap generation reason state =
     (let cut = state\<lparr>ss_history_floor := opt_max (ss_history_floor state) (ss_closed_through state),
            ss_continuity := u64_wrapping_add (ss_continuity state) 1,
            ss_generation := generation, ss_last_sequence := None, ss_eof_second := None,
            ss_eof_first_at := None, ss_eof_passes := 0\<rparr>
      in if gap_resets_clock reason
         then cut\<lparr>ss_observed := None, ss_closed_through := None\<rparr> else cut)"

definition mark_gap :: "LogSourceId \<Rightarrow> nat \<Rightarrow> GapReason \<Rightarrow> CombatEngine \<Rightarrow> CombatEngine" where
  "mark_gap source generation reason eng =
     diagnose (''source '' @ source @ '' became partial: '' @ gap_reason_debug reason)
       (eng\<lparr>eng_sources := bm_modify source (source_gap generation reason) (eng_sources eng),
            eng_encounters := mark_partial source (eng_encounters eng)\<rparr>)"

definition source_stable_eof :: "MonoTime \<Rightarrow> SourceState \<Rightarrow> SourceState" where
  "source_stable_eof now state =
     (case ss_observed state of
        None \<Rightarrow> state
      | Some observed \<Rightarrow>
          if ss_eof_second state = Some observed
          then state\<lparr>ss_eof_passes := u8_saturating_add (ss_eof_passes state) 1\<rparr>
          else state\<lparr>ss_eof_second := Some observed, ss_eof_first_at := Some now, ss_eof_passes := 1\<rparr>)"

definition note_stable_eof :: "LogSourceId \<Rightarrow> nat \<Rightarrow> MonoTime \<Rightarrow> CombatEngine \<Rightarrow> CombatEngine" where
  "note_stable_eof source generation now eng =
     on_source source (\<lambda>state. if ss_generation state \<noteq> generation then state
       else source_stable_eof now state) eng"

section \<open>Encounters\<close>

definition enter_ending ::
  "EncounterId \<Rightarrow> EndReason \<Rightarrow> MonoTime \<Rightarrow> EqSecond \<Rightarrow> CombatEngine \<Rightarrow> CombatEngine" where
  "enter_ending i reason now cutoff eng =
     on_encounter i (\<lambda>e. if enc_phase e = Active
       then e\<lparr>enc_phase := Ending reason now cutoff (enc_sources e)\<rparr> else e) eng"

definition join_source :: "CombatEngine \<Rightarrow> LogSource \<Rightarrow> EncounterState \<Rightarrow> EncounterState" where
  "join_source eng source e =
     (if bs_contains (enc_sources e) (ls_id source) then e
      else let state = bm_get (eng_sources eng) (ls_id source);
               continuity = (case state of None \<Rightarrow> 0 | Some s \<Rightarrow> ss_continuity s)
        in e\<lparr>enc_sources := bs_insert (ls_id source) (enc_sources e),
             enc_source_continuity := bm_insert (ls_id source) continuity (enc_source_continuity e),
             enc_partial_sources :=
               (if is_none_or state (\<lambda>s. ss_registered_at s > enc_start_receipt e)
                then bs_insert (ls_id source) (enc_partial_sources e) else enc_partial_sources e),
             enc_managed := bs_insert (participant_new (ls_server source) (ls_character source))
               (enc_managed e)\<rparr>)"

definition add_source_member :: "EncounterId \<Rightarrow> LogSource \<Rightarrow> CombatEngine \<Rightarrow> CombatEngine" where
  "add_source_member i source eng = on_encounter i (join_source eng source) eng"

text \<open>Unassigned damage of the same source on the same target in the last thirty seconds.\<close>

definition promotable :: "CombatEngine \<Rightarrow> LogSourceId \<Rightarrow> CanonicalTargetId \<Rightarrow> EqSecond \<Rightarrow> nat \<Rightarrow> bool" where
  "promotable eng source target anchor index =
     (let earliest = unwrap_or (eq_second_checked_add anchor (-30)) i64_min;
          lf = eng_ledger eng ! index
      in \<not> bm_contains (eng_assignments eng) index \<and> ls_id (fact_source lf) = source
         \<and> fact_eq_time lf \<ge> earliest \<and> fact_eq_time lf \<le> anchor
         \<and> (case fact_event lf of
              FactDamage damage \<Rightarrow>
                canonical_target_new (fst (resolve_observed (fact_source lf) (dmg_defender damage))) = target
                \<and> possible_player_name (fst (resolve_observed (fact_source lf) (dmg_attacker damage)))
            | _ \<Rightarrow> False))"

definition promote_fact :: "EncounterId \<Rightarrow> nat \<Rightarrow> CombatEngine \<Rightarrow> CombatEngine" where
  "promote_fact i index eng =
     (let lf = eng_ledger eng ! index
      in eng\<lparr>eng_encounters := bm_modify i (\<lambda>e. e\<lparr>enc_facts := enc_facts e @ [index],
                enc_start_eq := min (enc_start_eq e) (fact_eq_time lf),
                enc_start_receipt := min (enc_start_receipt e) (fact_receipt lf),
                enc_end_eq := max (enc_end_eq e) (fact_eq_time lf)\<rparr>) (eng_encounters eng),
             eng_assignments := bm_insert index i (eng_assignments eng)\<rparr>)"

definition promote_prior_facts ::
  "EncounterId \<Rightarrow> LogSourceId \<Rightarrow> CanonicalTargetId \<Rightarrow> EqSecond \<Rightarrow> CombatEngine \<Rightarrow> CombatEngine" where
  "promote_prior_facts i source target anchor eng =
     fold (promote_fact i)
       (filter (promotable eng source target anchor) [0..<length (eng_ledger eng)]) eng"

definition merge_target :: "TargetState \<Rightarrow> TargetState \<Rightarrow> TargetState" where
  "merge_target target current =
     current\<lparr>tgt_first_damage := min (tgt_first_damage current) (tgt_first_damage target),
       tgt_last_damage := max (tgt_last_damage current) (tgt_last_damage target),
       tgt_terminal := (tgt_terminal current \<and> tgt_terminal target),
       tgt_terminal_at := opt_max (tgt_terminal_at current) (tgt_terminal_at target)\<rparr>"

definition merge_states :: "EncounterState \<Rightarrow> EncounterState \<Rightarrow> EncounterState" where
  "merge_states chosen other =
     chosen\<lparr>enc_sources := bs_extend (enc_sources chosen) (enc_sources other),
       enc_source_continuity := bm_extend (enc_source_continuity chosen) (enc_source_continuity other),
       enc_partial_sources := bs_extend (enc_partial_sources chosen) (enc_partial_sources other),
       enc_managed := bs_extend (enc_managed chosen) (enc_managed other),
       enc_targets := fold (\<lambda>(i, target). bm_upsert i (merge_target target) target)
         (enc_targets other) (enc_targets chosen),
       enc_facts := remdups_adj (sort (enc_facts chosen @ enc_facts other)),
       enc_fingerprints := bs_extend (enc_fingerprints chosen) (enc_fingerprints other),
       enc_start_eq := min (enc_start_eq chosen) (enc_start_eq other),
       enc_end_eq := max (enc_end_eq chosen) (enc_end_eq other),
       enc_last_sustain_eq := max (enc_last_sustain_eq chosen) (enc_last_sustain_eq other),
       enc_start_receipt := min (enc_start_receipt chosen) (enc_start_receipt other),
       enc_last_sustain_receipt := max (enc_last_sustain_receipt chosen) (enc_last_sustain_receipt other),
       enc_phase := Active, enc_frozen := None, enc_last_snapshot := None\<rparr>"

definition merge_encounters ::
  "EncounterId \<Rightarrow> EncounterId \<Rightarrow> CombatEngine \<Rightarrow> EncounterId \<times> CombatEngine" where
  "merge_encounters left right eng =
     (if left = right then (left, eng)
      else let chosen_id = (if left \<le> right then left else right);
               other_id = (if chosen_id = left then right else left)
        in case bm_get (eng_encounters eng) chosen_id of
             None \<Rightarrow> (other_id, eng)
           | Some chosen \<Rightarrow>
               (case bm_get (eng_encounters eng) other_id of
                  None \<Rightarrow> (chosen_id, eng)
                | Some other \<Rightarrow>
                    (chosen_id,
                     eng\<lparr>eng_encounters := bm_insert chosen_id (merge_states chosen other)
                            (bm_remove other_id (bm_remove chosen_id (eng_encounters eng))),
                         eng_assignments := bm_map_values (\<lambda>a. if a = other_id then chosen_id else a)
                            (eng_assignments eng),
                         eng_source_active := bm_map_values (\<lambda>a. if a = other_id then chosen_id else a)
                            (eng_source_active eng)\<rparr>)))"

section \<open>Facts\<close>

text \<open>The values \<open>process_damage\<close> derives from a damage fact before it changes anything.\<close>

record DamageContext =
  dc_participant :: ParticipantId
  dc_attacker_display :: string
  dc_attacker_verified :: bool
  dc_defender_display :: string
  dc_target_id :: CanonicalTargetId
  dc_defender_is_player :: bool
  dc_self_attack :: bool
  dc_positive :: bool
  dc_start_qualified :: bool
  dc_fingerprint :: Fingerprint

definition damage_context :: "CombatEngine \<Rightarrow> LedgerFact \<Rightarrow> DamageObservation \<Rightarrow> DamageContext" where
  "damage_context eng lf damage =
     (let (attacker_display, attacker) = resolve_observed (fact_source lf) (dmg_attacker damage);
          (defender_display, defender_participant) = resolve_observed (fact_source lf) (dmg_defender damage);
          explicit_owner = map_option (resolve_observed (fact_source lf)) (dmg_explicit_owner damage);
          owner = opt_or (map_option snd explicit_owner)
            (claimed_owner eng (fact_source lf) attacker_display (fact_eq_time lf));
          participant = unwrap_or owner attacker;
          attacker_verified = (owner \<noteq> None \<or> bs_contains (eng_verified_players eng) attacker
            \<or> oc_perspective (dmg_attacker damage) \<noteq> Named);
          target_id = canonical_target_new defender_display;
          defender_is_player = bs_contains (eng_verified_players eng) defender_participant;
          self_attack = (participant = defender_participant);
          positive = (dmg_amount damage > 0 \<and> dmg_outcome damage = Hit)
      in \<lparr>dc_participant = participant, dc_attacker_display = attacker_display,
          dc_attacker_verified = attacker_verified, dc_defender_display = defender_display,
          dc_target_id = target_id, dc_defender_is_player = defender_is_player,
          dc_self_attack = self_attack, dc_positive = positive,
          dc_start_qualified = (positive \<and> attacker_verified \<and> \<not> defender_is_player \<and> \<not> self_attack),
          dc_fingerprint = Fingerprint (fact_eq_time lf) (pid_canonical_name attacker) target_id
            (dmg_amount damage) (dmg_kind damage) (map_option to_ascii_lowercase (dmg_ability damage))\<rparr>)"

text \<open>
  The encounter a damage fact belongs to: the source's current one, or the one another source
  has already reported the same hit for; two different ones are merged.
\<close>

definition route_damage ::
  "LedgerFact \<Rightarrow> DamageContext \<Rightarrow> CombatEngine \<Rightarrow> EncounterId option \<times> CombatEngine" where
  "route_damage lf dc eng =
     (let current = bm_get (eng_source_active eng) (ls_id (fact_source lf));
          correlated = map_option fst (find (\<lambda>(_, e). \<not> is_held (enc_phase e)
            \<and> eq_ignore_ascii_case (enc_server e) (ls_server (fact_source lf))
            \<and> bs_contains (enc_fingerprints e) (dc_fingerprint dc)) (eng_encounters eng))
      in case (current, correlated) of
           (Some c, Some r) \<Rightarrow> if c \<noteq> r then (let (i, eng') = merge_encounters c r eng in (Some i, eng'))
                              else (Some c, eng)
         | (Some c, None) \<Rightarrow> (Some c, eng)
         | (None, Some r) \<Rightarrow> (Some r, eng)
         | (None, None) \<Rightarrow> (None, eng))"

text \<open>
  An ending encounter is resumed by a fact of one of its sources, or left alone; the result is
  the encounter that remains, and whether the fact is dropped as too late for it.
\<close>

definition resume_target :: "CanonicalTargetId \<Rightarrow> EncounterState \<Rightarrow> EncounterState" where
  "resume_target target_id e =
     e\<lparr>enc_phase := Active,
       enc_targets := bm_modify target_id (\<lambda>t. t\<lparr>tgt_terminal := False, tgt_terminal_at := None\<rparr>)
         (enc_targets e)\<rparr>"

definition resume_or_leave ::
  "LedgerFact \<Rightarrow> DamageContext \<Rightarrow> EncounterId option \<times> CombatEngine
   \<Rightarrow> EncounterId option \<times> bool \<times> CombatEngine" where
  "resume_or_leave lf dc routed =
     (let (encounter, eng) = routed
      in case encounter of
           None \<Rightarrow> (None, False, eng)
         | Some i \<Rightarrow>
             (case bm_get (eng_encounters eng) i of
                None \<Rightarrow> (Some i, False, eng)
              | Some e \<Rightarrow>
                  (case enc_phase e of
                     Ending reason _ cutoff closure_sources \<Rightarrow>
                       let known_target = bm_contains (enc_targets e) (dc_target_id dc);
                           closure_source = bs_contains closure_sources (ls_id (fact_source lf));
                           resumes = (closure_source \<and>
                             (case reason of
                                Inactivity \<Rightarrow> True
                              | AllTargetsTerminal \<Rightarrow> known_target \<and> fact_eq_time lf > cutoff))
                       in if resumes then (Some i, False, on_encounter i (resume_target (dc_target_id dc)) eng)
                          else if \<not> closure_source \<or> fact_eq_time lf > cutoff
                          then (None, \<not> closure_source \<and> fact_eq_time lf \<le> cutoff, eng)
                          else (Some i, False, eng)
                   | _ \<Rightarrow> (Some i, False, eng))))"

definition late_after_closure :: "CombatEngine \<Rightarrow> LedgerFact \<Rightarrow> bool" where
  "late_after_closure eng lf =
     list_ex (\<lambda>e. is_held (enc_phase e) \<and> bs_contains (enc_sources e) (ls_id (fact_source lf))
        \<and> eq_ignore_ascii_case (enc_server e) (ls_server (fact_source lf))
        \<and> fact_eq_time lf \<le> enc_end_eq e) (bm_values (eng_encounters eng))"

definition encounter_new :: "CombatEngine \<Rightarrow> LedgerFact \<Rightarrow> EncounterId \<Rightarrow> EncounterState" where
  "encounter_new eng lf i =
     (let source = ls_id (fact_source lf);
          continuity = (case bm_get (eng_sources eng) source of None \<Rightarrow> 0 | Some s \<Rightarrow> ss_continuity s)
      in \<lparr>enc_id = i, enc_server = ls_server (fact_source lf), enc_phase = Active,
          enc_sources = bs_insert source [], enc_source_continuity = bm_insert source continuity [],
          enc_partial_sources = [], enc_managed = managed_identities eng (ls_server (fact_source lf)),
          enc_targets = [], enc_facts = [], enc_fingerprints = [],
          enc_start_eq = fact_eq_time lf, enc_end_eq = fact_eq_time lf,
          enc_last_sustain_eq = fact_eq_time lf, enc_start_receipt = fact_receipt lf,
          enc_last_sustain_receipt = fact_receipt lf, enc_revision = 0,
          enc_last_snapshot = None, enc_frozen = None\<rparr>)"

text \<open>\<open>Inl\<close> is the return of the code when the bound on encounters is reached.\<close>

definition start_encounter ::
  "LedgerFact \<Rightarrow> DamageContext \<Rightarrow> CombatEngine \<Rightarrow> CombatEngine + EncounterId \<times> CombatEngine" where
  "start_encounter lf dc eng =
     (let i = encounter_id lf (dc_target_id dc) (dc_participant dc)
      in if bm_contains (eng_encounters eng) i then Inr (i, eng)
         else if length (eng_encounters eng) \<ge> pol_max_encounters (eng_policy eng)
         then Inl (diagnose ''combat encounter bound reached; ignored a new unrelated encounter'' eng)
         else Inr (i, eng\<lparr>eng_encounters := bm_insert i (encounter_new eng lf i) (eng_encounters eng)\<rparr>))"

definition contribute_target :: "LedgerFact \<Rightarrow> DamageContext \<Rightarrow> EncounterState \<Rightarrow> EncounterState" where
  "contribute_target lf dc e =
     (let touch = (\<lambda>t. let t' = t\<lparr>tgt_last_damage := max (tgt_last_damage t) (fact_eq_time lf)\<rparr>
            in if tgt_terminal t' then t'\<lparr>tgt_terminal := False, tgt_terminal_at := None\<rparr> else t')
      in e\<lparr>enc_targets := bm_upsert (dc_target_id dc) touch
             (touch \<lparr>tgt_display = dc_defender_display dc, tgt_terminal = False,
               tgt_first_damage = fact_eq_time lf, tgt_last_damage = fact_eq_time lf,
               tgt_terminal_at = None\<rparr>) (enc_targets e),
           enc_fingerprints := bs_insert (dc_fingerprint dc) (enc_fingerprints e),
           enc_start_eq := min (enc_start_eq e) (fact_eq_time lf),
           enc_start_receipt := min (enc_start_receipt e) (fact_receipt lf),
           enc_end_eq := max (enc_end_eq e) (fact_eq_time lf)\<rparr>)"

definition sustain :: "LedgerFact \<Rightarrow> EncounterState \<Rightarrow> EncounterState" where
  "sustain lf e = e\<lparr>enc_last_sustain_eq := max (enc_last_sustain_eq e) (fact_eq_time lf),
     enc_last_sustain_receipt := max (enc_last_sustain_receipt e) (fact_receipt lf)\<rparr>"

definition record_damage ::
  "nat \<Rightarrow> LedgerFact \<Rightarrow> DamageContext \<Rightarrow> EncounterId \<Rightarrow> CombatEngine \<Rightarrow> CombatEngine" where
  "record_damage fact_index lf dc i eng =
     (let known_target = is_some_and (bm_get (eng_encounters eng) i)
            (\<lambda>e. bm_contains (enc_targets e) (dc_target_id dc));
          possible_participant = (dc_attacker_verified dc
            \<or> bs_contains (eng_verified_players eng) (dc_participant dc)
            \<or> possible_player_name (dc_attacker_display dc));
          contributes = (dc_positive dc \<and> \<not> dc_defender_is_player dc \<and> \<not> dc_self_attack dc
            \<and> (dc_start_qualified dc \<or> known_target \<and> possible_participant));
          sustains = (contributes \<or> known_target)
      in if \<not> contributes \<and> \<not> sustains then eng
         else let eng1 = add_source_member i (fact_source lf) eng;
                  eng2 = on_encounter i (\<lambda>e.
                    let e1 = (if contributes then contribute_target lf dc e else e);
                        e2 = (if sustains then sustain lf e1 else e1)
                    in e2\<lparr>enc_facts := enc_facts e2 @ [fact_index]\<rparr>) eng1;
                  eng3 = eng2\<lparr>eng_assignments := bm_insert fact_index i (eng_assignments eng2),
                    eng_source_active := bm_insert (ls_id (fact_source lf)) i (eng_source_active eng2)\<rparr>
              in if dc_start_qualified dc
                 then promote_prior_facts i (ls_id (fact_source lf)) (dc_target_id dc) (fact_eq_time lf) eng3
                 else eng3)"

definition process_damage :: "nat \<Rightarrow> CombatEngine \<Rightarrow> CombatEngine" where
  "process_damage fact_index eng =
     (let lf = eng_ledger eng ! fact_index
      in case fact_event lf of
           FactDamage damage \<Rightarrow>
             let dc = damage_context eng lf damage;
                 (encounter, excluded_from_closure, eng1) = resume_or_leave lf dc (route_damage lf dc eng)
             in if excluded_from_closure then eng1
                else (case encounter of
                  Some i \<Rightarrow> record_damage fact_index lf dc i eng1
                | None \<Rightarrow>
                    if late_after_closure eng1 lf
                    then diagnose ''ignored LateAfterClosure combat for an immutable held encounter'' eng1
                    else if dc_start_qualified dc
                    then (case start_encounter lf dc eng1 of
                            Inl eng2 \<Rightarrow> eng2
                          | Inr (i, eng2) \<Rightarrow> record_damage fact_index lf dc i eng2)
                    else eng1)
         | _ \<Rightarrow> eng)"

definition process_attempt :: "nat \<Rightarrow> CombatEngine \<Rightarrow> CombatEngine" where
  "process_attempt fact_index eng =
     (let lf = eng_ledger eng ! fact_index
      in case fact_event lf of
           FactAttempt attempt \<Rightarrow>
             let attacker_name = fst (resolve_observed (fact_source lf) (att_attacker attempt));
                 defender_name = fst (resolve_observed (fact_source lf) (att_defender attempt))
             in (case bm_get (eng_source_active eng) (ls_id (fact_source lf)) of
                   None \<Rightarrow> eng
                 | Some i \<Rightarrow>
                     let target = canonical_target_new defender_name;
                         incoming_target = canonical_target_new attacker_name;
                         known = is_some_and (bm_get (eng_encounters eng) i)
                           (\<lambda>e. bm_contains (enc_targets e) target \<or> bm_contains (enc_targets e) incoming_target)
                     in if \<not> known then eng
                        else let eng1 = on_encounter i (\<lambda>e.
                               let e1 = (case enc_phase e of Ending Inactivity _ _ _ \<Rightarrow> e\<lparr>enc_phase := Active\<rparr>
                                           | _ \<Rightarrow> e);
                                   e2 = sustain lf e1
                               in e2\<lparr>enc_facts := enc_facts e2 @ [fact_index]\<rparr>) eng
                             in eng1\<lparr>eng_assignments := bm_insert fact_index i (eng_assignments eng1)\<rparr>)
         | _ \<Rightarrow> eng)"

definition slain_encounter :: "CombatEngine \<Rightarrow> LedgerFact \<Rightarrow> CanonicalTargetId \<Rightarrow> EncounterId option" where
  "slain_encounter eng lf target_id =
     opt_or
       (case bm_get (eng_source_active eng) (ls_id (fact_source lf)) of
          None \<Rightarrow> None
        | Some i \<Rightarrow> if is_some_and (bm_get (eng_encounters eng) i) (\<lambda>e. bm_contains (enc_targets e) target_id)
                   then Some i else None)
       (map_option fst (find (\<lambda>(_, e). \<not> is_held (enc_phase e)
          \<and> eq_ignore_ascii_case (enc_server e) (ls_server (fact_source lf))
          \<and> bm_contains (enc_targets e) target_id) (eng_encounters eng)))"

definition process_slain :: "nat \<Rightarrow> CombatEngine \<Rightarrow> CombatEngine" where
  "process_slain fact_index eng =
     (let lf = eng_ledger eng ! fact_index
      in case fact_event lf of
           FactSlain slain \<Rightarrow>
             let target_id = canonical_target_new (fst (resolve_observed (fact_source lf) (slain_target slain)))
             in (case slain_encounter eng lf target_id of
                   None \<Rightarrow> eng
                 | Some i \<Rightarrow>
                     let eng1 = add_source_member i (fact_source lf) eng;
                         eng2 = on_encounter i (\<lambda>e. e\<lparr>
                           enc_targets := bm_modify target_id (\<lambda>t. t\<lparr>tgt_terminal := True,
                             tgt_terminal_at := Some (fact_eq_time lf)\<rparr>) (enc_targets e),
                           enc_end_eq := max (enc_end_eq e) (fact_eq_time lf),
                           enc_facts := enc_facts e @ [fact_index]\<rparr>) eng1;
                         all_terminal = is_some_and (bm_get (eng_encounters eng2) i)
                           (\<lambda>e. enc_targets e \<noteq> [] \<and> list_all tgt_terminal (bm_values (enc_targets e)));
                         eng3 = eng2\<lparr>eng_assignments := bm_insert fact_index i (eng_assignments eng2)\<rparr>
                     in if all_terminal
                        then enter_ending i AllTargetsTerminal (fact_receipt lf) (fact_eq_time lf) eng3
                        else eng3)
         | _ \<Rightarrow> eng)"

section \<open>Records\<close>

fun is_fact_event :: "LogEvent \<Rightarrow> bool" where
  "is_fact_event (CombatLog (Damage _)) = True"
| "is_fact_event (CombatLog (Attempt _)) = True"
| "is_fact_event (CombatLog (TargetSlain _)) = True"
| "is_fact_event _ = False"

fun is_damage_event :: "LogEvent \<Rightarrow> bool" where
  "is_damage_event (CombatLog (Damage _)) = True"
| "is_damage_event _ = False"

definition is_replayed_occurrence ::
  "SourceRecordId \<Rightarrow> EqSecond \<Rightarrow> LogEvent \<Rightarrow> CombatEngine \<Rightarrow> bool \<times> CombatEngine" where
  "is_replayed_occurrence rid eq_time event eng =
     (let key = (rid_source rid, rid_generation rid, eq_time, event);
          kept = (if length (eng_occurrences eng) \<ge> pol_max_record_ids (eng_policy eng)
                     \<and> \<not> bm_contains (eng_occurrences eng) key
                  then [] else eng_occurrences eng);
          present = (if bm_contains kept key then kept else (key, 0) # kept);
          counted_occ = bm_modify key (\<lambda>n. u64_saturating_add n 1) present;
          occurrence = unwrap_or (bm_get counted_occ key) 0;
          prior_max = unwrap_or (list_max (map snd (filter (\<lambda>((source, generation, second, candidate), _).
            source = rid_source rid \<and> generation < rid_generation rid \<and> second = eq_time
            \<and> candidate = event) counted_occ))) 0
      in (occurrence \<le> prior_max, eng\<lparr>eng_occurrences := counted_occ\<rparr>))"

definition ownership_cmp :: "OwnershipClaim \<Rightarrow> OwnershipClaim \<Rightarrow> ordering" where
  "ownership_cmp left right =
     cmp (claim_server left, claim_pet left, claim_valid_from left, claim_source left)
         (claim_server right, claim_pet right, claim_valid_from right, claim_source right)"

definition add_ownership ::
  "LogSource \<Rightarrow> string \<Rightarrow> ObservedCombatant \<Rightarrow> EqSecond \<Rightarrow> CombatEngine \<Rightarrow> CombatEngine" where
  "add_ownership source pet owner_obs eq_time eng =
     (let (owner_display, owner) = resolve_observed source owner_obs
      in eng\<lparr>eng_verified_players := bs_insert owner (eng_verified_players eng),
             eng_ownership := sort_by ownership_cmp (eng_ownership eng @
               [\<lparr>claim_server = to_ascii_lowercase (ls_server source), claim_pet = to_ascii_lowercase pet,
                 claim_owner = owner, claim_owner_display = owner_display, claim_valid_from = eq_time,
                 claim_source = ls_id source\<rparr>])\<rparr>)"

definition push_fact ::
  "CombatRecord \<Rightarrow> EqSecond \<Rightarrow> MonoTime \<Rightarrow> FactEvent \<Rightarrow> CombatEngine \<Rightarrow> CombatEngine" where
  "push_fact record eq_time now event eng =
     eng\<lparr>eng_ledger := eng_ledger eng @
       [\<lparr>fact_record = rec_id record, fact_source = rec_source record, fact_eq_time = eq_time,
         fact_receipt = now, fact_event = event\<rparr>]\<rparr>"

fun dispatch_event :: "CombatRecord \<Rightarrow> EqSecond \<Rightarrow> MonoTime \<Rightarrow> LogEvent \<Rightarrow> CombatEngine \<Rightarrow> CombatEngine" where
  "dispatch_event record eq_time now (IdentityLog (WhoResultEvent result)) eng =
     eng\<lparr>eng_verified_players := bs_insert
       (participant_new (ls_server (rec_source record)) (who_character result)) (eng_verified_players eng)\<rparr>"
| "dispatch_event record eq_time now (PetLog (OwnershipClaimed pet owner)) eng =
     add_ownership (rec_source record) pet (observed_named owner) eq_time eng"
| "dispatch_event record eq_time now (CombatLog (PetOwnership ownership)) eng =
     add_ownership (rec_source record) (oc_name (own_pet ownership)) (own_owner ownership) eq_time eng"
| "dispatch_event record eq_time now (CombatLog (PlayerEvidence player)) eng =
     eng\<lparr>eng_verified_players := bs_insert
       (snd (resolve_observed (rec_source record) player)) (eng_verified_players eng)\<rparr>"
| "dispatch_event record eq_time now (CombatLog (ZoneChanged zone)) eng =
     on_source (ls_id (rec_source record)) (\<lambda>s. s\<lparr>ss_zone := Some zone\<rparr>) eng"
| "dispatch_event record eq_time now (CombatLog (Damage damage)) eng =
     process_damage (length (eng_ledger eng)) (push_fact record eq_time now (FactDamage damage) eng)"
| "dispatch_event record eq_time now (CombatLog (Attempt attempt)) eng =
     process_attempt (length (eng_ledger eng)) (push_fact record eq_time now (FactAttempt attempt) eng)"
| "dispatch_event record eq_time now (CombatLog (TargetSlain slain)) eng =
     process_slain (length (eng_ledger eng)) (push_fact record eq_time now (FactSlain slain) eng)"
| "dispatch_event record eq_time now _ eng = eng"

definition apply_event :: "CombatRecord \<Rightarrow> EqSecond \<Rightarrow> MonoTime \<Rightarrow> LogEvent \<Rightarrow> CombatEngine \<Rightarrow> CombatEngine" where
  "apply_event record eq_time now event eng =
     (if is_fact_event event
      then let (replayed, eng1) = is_replayed_occurrence (rec_id record) eq_time event eng
           in if replayed then eng1 else dispatch_event record eq_time now event eng1
      else dispatch_event record eq_time now event eng)"

definition withdraw_encounters :: "CombatEngine \<Rightarrow> CombatEngine" where
  "withdraw_encounters eng =
     (diagnose ''combat ledger bound reached; withdrew live encounters fail-closed'' eng)
       \<lparr>eng_encounters := [], eng_source_active := [], eng_ledger := [], eng_assignments := []\<rparr>"

definition apply_events :: "CombatRecord \<Rightarrow> MonoTime \<Rightarrow> CombatEngine \<Rightarrow> CombatEngine" where
  "apply_events record now eng =
     (case rec_eq_time record of
        None \<Rightarrow> if list_ex is_damage_event (rec_events record)
                then diagnose ''timestamp-free damage was retained diagnostically and excluded'' eng
                else eng
      | Some eq_time \<Rightarrow>
          if is_some_and (Option.bind (bm_get (eng_sources eng) (ls_id (rec_source record))) ss_history_floor)
               (\<lambda>floor. eq_time \<le> floor)
          then diagnose ''ignored replay history at or before the prior closed-through second'' eng
          else let incoming_facts = length (filter is_fact_event (rec_events record));
                   eng1 = (if u64_saturating_add (length (eng_ledger eng)) incoming_facts
                              > pol_max_ledger_facts (eng_policy eng)
                           then withdraw_encounters eng else eng)
               in fold (apply_event record eq_time now) (rec_events record) eng1)"

fun expire_accepted ::
  "nat \<Rightarrow> SourceRecordId set \<Rightarrow> SourceRecordId list \<Rightarrow> SourceRecordId set \<times> SourceRecordId list" where
  "expire_accepted bound accepted [] = (accepted, [])"
| "expire_accepted bound accepted (expired # order) =
     (if length (expired # order) > bound then expire_accepted bound (accepted - {expired}) order
      else (accepted, expired # order))"

definition source_progress :: "CombatRecord \<Rightarrow> MonoTime \<Rightarrow> SourceState \<Rightarrow> SourceState" where
  "source_progress record now state =
     (let base = state\<lparr>ss_generation := rid_generation (rec_id record),
            ss_last_sequence := Some (rid_sequence (rec_id record)), ss_present := True\<rparr>
      in case rec_eq_time record of
           None \<Rightarrow> base
         | Some eq_time \<Rightarrow>
             let moved = (if is_none_or (ss_observed base) (\<lambda>observed. eq_time > observed)
               then let closed = (case ss_observed base of
                          None \<Rightarrow> ss_closed_through base
                        | Some previous \<Rightarrow>
                            let close = unwrap_or (eq_second_checked_add eq_time (-1)) previous
                            in Some (case ss_closed_through base of None \<Rightarrow> close
                                 | Some current \<Rightarrow> max current close))
                    in base\<lparr>ss_closed_through := closed, ss_observed := Some eq_time,
                         ss_last_progress_at := now\<rparr>
               else base)
             in moved\<lparr>ss_eof_second := None, ss_eof_first_at := None, ss_eof_passes := 0\<rparr>)"

definition accept_record :: "CombatRecord \<Rightarrow> MonoTime \<Rightarrow> CombatEngine \<Rightarrow> CombatEngine" where
  "accept_record record now eng =
     (let (accepted, order) = expire_accepted (pol_max_record_ids (eng_policy eng))
            (insert (rec_id record) (eng_accepted eng)) (eng_accepted_order eng @ [rec_id record])
      in on_source (ls_id (rec_source record)) (source_progress record now)
           (eng\<lparr>eng_accepted := accepted, eng_accepted_order := order\<rparr>))"

definition record_gap :: "CombatRecord \<Rightarrow> SourceState \<Rightarrow> GapReason option" where
  "record_gap record state =
     (let gap = (if rid_generation (rec_id record) > ss_generation state then Some GenerationChanged else None)
      in case rec_eq_time record of
           None \<Rightarrow> gap
         | Some eq_time \<Rightarrow>
             if is_some_and (ss_observed state) (\<lambda>observed. eq_time < observed)
             then Some CalendarRegression
             else if is_some_and (ss_closed_through state) (\<lambda>closed. eq_time \<le> closed)
             then Some OutOfOrderClosedSecond else gap)"

definition apply_record :: "CombatRecord \<Rightarrow> MonoTime \<Rightarrow> CombatEngine \<Rightarrow> bool \<times> CombatEngine" where
  "apply_record record now eng =
     (let rid = rec_id record; source = ls_id (rec_source record)
      in if rid_source rid \<noteq> source
         then (False, diagnose ''rejected record whose source ID disagreed with its descriptor'' eng)
         else if rid \<in> eng_accepted eng
         then (False, diagnose (''ignored duplicate record '' @ rid_source rid @ '':''
                @ nat_to_dec (rid_generation rid) @ '':'' @ nat_to_dec (rid_sequence rid)) eng)
         else let eng1 = (if bm_contains (eng_sources eng) source then eng
                          else register_source (rec_source record) (rid_generation rid) now eng)
           in case bm_get (eng_sources eng1) source of
                None \<Rightarrow> (False, eng1)
              | Some state \<Rightarrow>
                  if rid_generation rid < ss_generation state
                  then (False, diagnose ''ignored a record from an obsolete source generation'' eng1)
                  else if \<not> rid_generation rid > ss_generation state
                          \<and> is_some_and (ss_last_sequence state) (\<lambda>s. rid_sequence rid \<le> s)
                  then (False, diagnose ''ignored replayed or out-of-order source sequence'' eng1)
                  else let eng2 = (case record_gap record state of
                             None \<Rightarrow> eng1
                           | Some reason \<Rightarrow> mark_gap source (rid_generation rid) reason eng1)
                       in (True, apply_events record now (accept_record record now eng2)))"

section \<open>Time\<close>

definition close_at_eof :: "CombatPolicy \<Rightarrow> MonoTime \<Rightarrow> SourceState \<Rightarrow> SourceState" where
  "close_at_eof policy now source =
     (if ss_eof_passes source \<ge> 2
         \<and> is_some_and (ss_eof_first_at source)
             (\<lambda>first. saturating_duration_since now first \<ge> pol_stable_eof_ms policy)
      then (case ss_observed source of
              None \<Rightarrow> source
            | Some observed \<Rightarrow> source\<lparr>ss_closed_through := Some (case ss_closed_through source of
                None \<Rightarrow> observed | Some current \<Rightarrow> max current observed)\<rparr>)
      else source)"

definition is_inactive :: "CombatPolicy \<Rightarrow> MonoTime \<Rightarrow> EncounterState \<Rightarrow> bool" where
  "is_inactive policy now e =
     (enc_phase e = Active \<and>
      saturating_duration_since now (enc_last_sustain_receipt e) \<ge> pol_inactivity_ms policy)"

definition closed_by :: "CombatEngine \<Rightarrow> EqSecond \<Rightarrow> LogSourceId \<Rightarrow> bool" where
  "closed_by eng cutoff source =
     is_some_and (Option.bind (bm_get (eng_sources eng) source) ss_closed_through) (\<lambda>closed. closed \<ge> cutoff)"

definition finalize :: "EncounterId \<Rightarrow> EndReason \<Rightarrow> MonoTime \<Rightarrow> CombatEngine \<Rightarrow> CombatEngine" where
  "finalize i reason now eng =
     (let until = mono_saturating_add now (pol_held_ms (eng_policy eng));
          eng1 = on_encounter i (\<lambda>e. e\<lparr>enc_phase := Held reason until\<rparr>) eng;
          eng2 = (case bm_get (eng_encounters eng1) i of
             None \<Rightarrow> eng1
           | Some e \<Rightarrow>
               (case compute_snapshot eng1 e 0 of
                  None \<Rightarrow> eng1
                | Some s0 \<Rightarrow>
                    let s1 = s0\<lparr>snap_phase := PhaseHeld, snap_end_reason := Some reason,
                               snap_held_until := Some until\<rparr>;
                        s2 = s1\<lparr>snap_revision := encounter_revision s1\<rparr>
                    in on_encounter i (\<lambda>e. e\<lparr>enc_revision := snap_revision s2,
                         enc_last_snapshot := Some s2, enc_frozen := Some s2\<rparr>) eng1))
      in eng2\<lparr>eng_source_active := bm_retain_values (\<lambda>a. a \<noteq> i) (eng_source_active eng2)\<rparr>)"

text \<open>The ending encounters that are due: all their sources have closed the cutoff, or the grace is over.\<close>

definition ending_due ::
  "CombatEngine \<Rightarrow> MonoTime \<Rightarrow> EncounterId \<times> EncounterState
   \<Rightarrow> (EncounterId \<times> EndReason \<times> EqSecond \<times> LogSourceId btree_set \<times> bool) option" where
  "ending_due eng now entry =
     (case enc_phase (snd entry) of
        Ending reason entered_at cutoff closure_sources \<Rightarrow>
          let all_closed = list_all (closed_by eng cutoff) closure_sources
          in if all_closed
               \<or> saturating_duration_since now entered_at \<ge> pol_ending_grace_ms (eng_policy eng)
             then Some (fst entry, reason, cutoff, closure_sources, all_closed) else None
      | _ \<Rightarrow> None)"

definition finish_ending ::
  "MonoTime \<Rightarrow> EncounterId \<times> EndReason \<times> EqSecond \<times> LogSourceId btree_set \<times> bool
   \<Rightarrow> CombatEngine \<Rightarrow> CombatEngine" where
  "finish_ending now due eng =
     (case due of (i, reason, cutoff, closure_sources, all_closed) \<Rightarrow>
        finalize i reason now
          (if all_closed then eng
           else on_encounter i (\<lambda>e. e\<lparr>enc_partial_sources :=
             fold bs_insert (filter (\<lambda>s. \<not> closed_by eng cutoff s) closure_sources)
               (enc_partial_sources e)\<rparr>) eng))"

fun is_expired :: "MonoTime \<Rightarrow> PhaseState \<Rightarrow> bool" where
  "is_expired now (Held _ until) = (now \<ge> until)"
| "is_expired now _ = False"

text \<open>The four passes of \<open>advance_time\<close>, in order.\<close>

definition close_sources :: "MonoTime \<Rightarrow> CombatEngine \<Rightarrow> CombatEngine" where
  "close_sources now eng =
     eng\<lparr>eng_sources := bm_map_values (close_at_eof (eng_policy eng) now) (eng_sources eng)\<rparr>"

definition inactive_encounters :: "MonoTime \<Rightarrow> CombatEngine \<Rightarrow> (EncounterId \<times> EqSecond) list" where
  "inactive_encounters now eng =
     map (\<lambda>(i, e). (i, enc_last_sustain_eq e))
       (filter (\<lambda>(_, e). is_inactive (eng_policy eng) now e) (eng_encounters eng))"

definition end_inactive :: "MonoTime \<Rightarrow> CombatEngine \<Rightarrow> CombatEngine" where
  "end_inactive now eng =
     fold (\<lambda>(i, cutoff). enter_ending i Inactivity now cutoff) (inactive_encounters now eng) eng"

definition finish_due :: "MonoTime \<Rightarrow> CombatEngine \<Rightarrow> CombatEngine" where
  "finish_due now eng =
     fold (finish_ending now) (filter_map (ending_due eng now) (eng_encounters eng)) eng"

definition expired_encounters :: "MonoTime \<Rightarrow> CombatEngine \<Rightarrow> EncounterId list" where
  "expired_encounters now eng =
     map fst (filter (\<lambda>(_, e). is_expired now (enc_phase e)) (eng_encounters eng))"

definition expire_held :: "MonoTime \<Rightarrow> CombatEngine \<Rightarrow> CombatEngine" where
  "expire_held now eng =
     (let expired = expired_encounters now eng;
          eng1 = eng\<lparr>eng_encounters := fold bm_remove expired (eng_encounters eng)\<rparr>
      in if expired \<noteq> [] \<and> eng_encounters eng1 = [] \<and> eng_ledger eng1 \<noteq> []
         then eng1\<lparr>eng_ledger := [], eng_assignments := []\<rparr> else eng1)"

definition advance_time :: "MonoTime \<Rightarrow> CombatEngine \<times> PublishUrgency \<Rightarrow> CombatEngine \<times> PublishUrgency" where
  "advance_time now start =
     (let (eng, urgency) = start;
          eng1 = close_sources now eng;
          eng2 = end_inactive now eng1;
          eng3 = finish_due now eng2
      in (expire_held now eng3,
          if inactive_encounters now eng1 \<noteq> [] \<or> filter_map (ending_due eng2 now) (eng_encounters eng2) \<noteq> []
             \<or> expired_encounters now eng3 \<noteq> [] then Immediate else urgency))"

definition next_deadline :: "CombatEngine \<Rightarrow> MonoTime option" where
  "next_deadline eng =
     list_min (
       map (\<lambda>e. case enc_phase e of
           Active \<Rightarrow> mono_saturating_add (enc_last_sustain_receipt e) (pol_inactivity_ms (eng_policy eng))
         | Ending _ entered_at _ _ \<Rightarrow> mono_saturating_add entered_at (pol_ending_grace_ms (eng_policy eng))
         | Held _ until \<Rightarrow> until) (bm_values (eng_encounters eng))
       @ filter_map (\<lambda>s. if ss_eof_passes s \<ge> 2
           then map_option (\<lambda>at. mono_saturating_add at (pol_stable_eof_ms (eng_policy eng))) (ss_eof_first_at s)
           else None) (bm_values (eng_sources eng)))"

section \<open>Publication\<close>

definition refresh_snapshot :: "EncounterId \<Rightarrow> CombatEngine \<Rightarrow> CombatEngine" where
  "refresh_snapshot i eng =
     (case bm_get (eng_encounters eng) i of
        None \<Rightarrow> eng
      | Some e \<Rightarrow>
          if is_held (enc_phase e) then eng
          else (case compute_snapshot eng e 0 of
             None \<Rightarrow> eng
           | Some candidate \<Rightarrow>
               if is_some_and (enc_last_snapshot e) (\<lambda>previous. previous\<lparr>snap_revision := 0\<rparr> = candidate)
               then eng
               else on_encounter i (\<lambda>e. e\<lparr>enc_revision := encounter_revision candidate,
                      enc_last_snapshot := Some (candidate\<lparr>snap_revision := encounter_revision candidate\<rparr>)\<rparr>) eng))"

definition rebuild_book :: "CombatEngine \<Rightarrow> EncounterBookSnapshot option \<times> CombatEngine" where
  "rebuild_book eng0 =
     (let eng = fold refresh_snapshot (bm_keys (eng_encounters eng0)) eng0;
          snapshots = sort_by (\<lambda>left right. cmp (snap_id left) (snap_id right))
            (filter_map (\<lambda>e. opt_or (enc_frozen e) (enc_last_snapshot e)) (bm_values (eng_encounters eng)))
      in if book_encounters (eng_current_book eng) = snapshots then (None, eng)
         else let book = \<lparr>book_revision_of = book_revision snapshots, book_encounters = snapshots\<rparr>
              in (Some book, eng\<lparr>eng_current_book := book\<rparr>))"

fun phase_number :: "PhaseState \<Rightarrow> nat" where
  "phase_number Active = 0"
| "phase_number (Ending _ _ _ _) = 1"
| "phase_number (Held _ _) = 2"

definition lifecycle_signature :: "CombatEngine \<Rightarrow> (EncounterId \<times> nat) list" where
  "lifecycle_signature eng = map (\<lambda>e. (enc_id e, phase_number (enc_phase e))) (bm_values (eng_encounters eng))"

fun apply_input :: "MonoTime \<Rightarrow> EngineInput \<Rightarrow> CombatEngine \<Rightarrow> CombatEngine \<times> PublishUrgency" where
  "apply_input now (SourceRegistered source generation) eng =
     (register_source source generation now eng, Immediate)"
| "apply_input now (SourceRemoved source) eng = (source_removed source eng, Immediate)"
| "apply_input now (SourceGap source generation reason) eng =
     (mark_gap source generation reason eng, Immediate)"
| "apply_input now (SourceStableEof source generation) eng =
     (note_stable_eof source generation now eng, Coalescible)"
| "apply_input now (Record record) eng =
     (let (changed, eng') = apply_record record now eng
      in (eng', if changed then Coalescible else NoUrgency))"

definition apply_engine :: "MonoTime \<Rightarrow> EngineInput \<Rightarrow> CombatEngine \<Rightarrow> EngineUpdate \<times> CombatEngine" where
  "apply_engine now input eng =
     (let eng0 = eng\<lparr>eng_now := max (eng_now eng) now\<rparr>;
          lifecycle_before = lifecycle_signature eng0;
          (eng1, urgency1) = apply_input now input eng0;
          (eng2, urgency2) = advance_time (eng_now eng1) (eng1, urgency1);
          urgency3 = (if lifecycle_signature eng2 \<noteq> lifecycle_before then Immediate else urgency2);
          (snapshot, eng3) = rebuild_book eng2;
          urgency4 = (if snapshot = None \<and> urgency3 \<noteq> NoUrgency then NoUrgency else urgency3)
      in (\<lparr>upd_snapshot = snapshot, upd_urgency = urgency4, upd_next_deadline = next_deadline eng3\<rparr>, eng3))"

definition tick :: "MonoTime \<Rightarrow> CombatEngine \<Rightarrow> EngineUpdate \<times> CombatEngine" where
  "tick now eng =
     (let eng0 = eng\<lparr>eng_now := max (eng_now eng) now\<rparr>;
          (eng1, urgency1) = advance_time (eng_now eng0) (eng0, NoUrgency);
          (snapshot, eng2) = rebuild_book eng1;
          urgency2 = (if snapshot \<noteq> None \<and> urgency1 = NoUrgency then Coalescible else urgency1)
      in (\<lparr>upd_snapshot = snapshot, upd_urgency = urgency2, upd_next_deadline = next_deadline eng2\<rparr>, eng2))"

definition has_ending_grace :: "CombatEngine \<Rightarrow> bool" where
  "has_ending_grace eng =
     list_ex (\<lambda>e. phase_number (enc_phase e) = 1) (bm_values (eng_encounters eng))"

definition explain :: "CombatEngine \<Rightarrow> EncounterId \<Rightarrow> EncounterExplanation option" where
  "explain eng i =
     Option.bind (bm_get (eng_encounters eng) i) (\<lambda>e.
       map_option (\<lambda>els. \<lparr>exp_encounter = i,
           exp_candidates = map (\<lambda>el. \<lparr>exp_participant = cand_participant (el_winner el),
             exp_elected_source = cand_source (el_winner el), exp_quality = el_quality el,
             exp_damage = cand_damage (el_winner el), exp_direct_damage = cand_direct_damage (el_winner el),
             exp_pet_damage = cand_pet_damage (el_winner el), exp_losing_sources = el_losers el\<rparr>) (bm_values els),
           exp_diagnostics = eng_diagnostics eng\<rparr>) (elect eng e))"

end
