(* ===== verification/Combat_Invariants.thy ===== *)
theory Combat_Invariants
  imports Combat_Lifecycle
begin

text \<open>
  The invariants of the combat engine. The locale \<open>engine_preserves\<close> is the contract of an
  engine invariant: it survives each of the engine's internal operations. What it promises in
  return is proved once: the invariant survives every public call, and holds in every state
  reachable from a new engine. It is interpreted on four invariants: the ledger (every fact is
  counted in at most one encounter), the record window, the source clocks and the size bounds.
\<close>

section \<open>Reachable engines\<close>

inductive reachable_engine :: "CombatPolicy \<Rightarrow> CombatEngine \<Rightarrow> bool" for policy where
  reach_new: "engine_new policy = Inr eng \<Longrightarrow> reachable_engine policy eng"
| reach_apply: "reachable_engine policy eng \<Longrightarrow> reachable_engine policy (snd (apply_engine now input eng))"
| reach_tick: "reachable_engine policy eng \<Longrightarrow> reachable_engine policy (snd (tick now eng))"

section \<open>What each operation leaves alone\<close>

named_theorems frame \<open>fields an operation does not change\<close>

definition same_intake :: "CombatEngine \<Rightarrow> CombatEngine \<Rightarrow> bool" where
  "same_intake a b \<longleftrightarrow> eng_policy a = eng_policy b \<and> eng_sources a = eng_sources b
     \<and> eng_accepted a = eng_accepted b \<and> eng_accepted_order a = eng_accepted_order b
     \<and> eng_now a = eng_now b \<and> eng_ledger a = eng_ledger b"

lemma same_intake_refl [simp, intro]: "same_intake a a"
  by (simp add: same_intake_def)

lemma same_intake_trans: "same_intake a b \<Longrightarrow> same_intake b c \<Longrightarrow> same_intake a c"
  by (simp add: same_intake_def)

lemma same_intake_diagnose [frame]: "same_intake (diagnose m eng) eng"
  by (simp add: same_intake_def diagnose_def)

lemma same_intake_fold:
  "(\<And>x e. same_intake (f x e) e) \<Longrightarrow> same_intake (fold f xs eng) eng"
  by (induction xs arbitrary: eng) (auto intro: same_intake_trans)

lemma same_intake_promote [frame]: "same_intake (promote_prior_facts i s t a eng) eng"
  unfolding promote_prior_facts_def
  by (rule same_intake_fold) (simp add: same_intake_def promote_fact_def Let_def)

lemma same_intake_merge [frame]: "same_intake (snd (merge_encounters l r eng)) eng"
  by (simp add: merge_encounters_def same_intake_def Let_def split: option.splits)

lemma same_intake_route [frame]: "same_intake (snd (route_damage lf dc eng)) eng"
  using same_intake_merge by (auto simp: route_damage_def Let_def split: option.splits prod.splits)
    (metis snd_conv)

lemma same_intake_resume [frame]: "same_intake (snd (snd (resume_or_leave lf dc r))) (snd r)"
  by (cases r) (simp add: resume_or_leave_def same_intake_def Let_def split: option.splits PhaseState.splits)

lemma same_intake_start [frame]:
  "start_encounter lf dc eng = Inr (i, eng') \<Longrightarrow> same_intake eng' eng"
  "start_encounter lf dc eng = Inl eng' \<Longrightarrow> same_intake eng' eng"
  by (auto simp: start_encounter_def same_intake_def diagnose_def Let_def split: if_splits)

lemma same_intake_record [frame]: "same_intake (record_damage k lf dc i eng) eng"
proof -
  have frame_upd: "same_intake (eng\<lparr>eng_encounters := a, eng_assignments := b, eng_source_active := c\<rparr>) eng"
    for eng a b c by (simp add: same_intake_def)
  show ?thesis
    unfolding record_damage_def Let_def add_source_member_def
    using same_intake_trans [OF same_intake_promote frame_upd] frame_upd by auto
qed

text \<open>The rule by which an invariant passes through \<open>process_damage\<close>.\<close>

lemma process_damage_rule:
  assumes none: "P eng"
    and route: "\<And>lf dc. Q (snd (route_damage lf dc eng))"
    and resume: "\<And>lf dc r. Q (snd r) \<Longrightarrow> Q (snd (snd (resume_or_leave lf dc r)))"
    and diag: "\<And>m e. Q e \<Longrightarrow> P (diagnose m e)"
    and stop: "\<And>e. Q e \<Longrightarrow> P e"
    and start: "\<And>lf dc e i e'. Q e \<Longrightarrow> start_encounter lf dc e = Inr (i, e') \<Longrightarrow> Q e'"
    and recorded: "\<And>dc i e. Q e \<Longrightarrow> P (record_damage k (eng_ledger eng ! k) dc i e)"
  shows "P (process_damage k eng)"
proof (cases "fact_event (eng_ledger eng ! k)")
  case (FactDamage damage)
  define lf where "lf = eng_ledger eng ! k"
  define dc where "dc = damage_context eng lf damage"
  obtain enc ex eng1 where r: "resume_or_leave lf dc (route_damage lf dc eng) = (enc, ex, eng1)"
    by (rule prod_cases3)
  have Q: "Q eng1" using resume [OF route, of lf dc lf dc] by (simp add: r)
  have "process_damage k eng = (if ex then eng1
     else (case enc of Some i \<Rightarrow> record_damage k lf dc i eng1
       | None \<Rightarrow> if late_after_closure eng1 lf
           then diagnose ''ignored LateAfterClosure combat for an immutable held encounter'' eng1
           else if dc_start_qualified dc
           then (case start_encounter lf dc eng1 of Inl eng2 \<Rightarrow> eng2
                  | Inr (i, eng2) \<Rightarrow> record_damage k lf dc i eng2)
           else eng1))"
    using FactDamage by (simp add: process_damage_def Let_def lf_def [symmetric] dc_def [symmetric] r)
  moreover have "P eng2" if "start_encounter lf dc eng1 = Inl eng2" for eng2
    using that diag [OF Q] by (auto simp: start_encounter_def Let_def split: if_splits)
  moreover have "P (record_damage k lf dc i eng2)" if "start_encounter lf dc eng1 = Inr (i, eng2)" for i eng2
    using start [OF Q that] recorded by (simp add: lf_def)
  ultimately show ?thesis
    using stop [OF Q] diag [OF Q] recorded [OF Q] by (auto simp: lf_def split: option.splits sum.splits)
qed (simp_all add: process_damage_def none)

lemma same_intake_damage [frame]: "same_intake (process_damage k eng) eng"
proof (rule process_damage_rule [where Q = "\<lambda>e. same_intake e eng"])
  show "same_intake (record_damage k (eng_ledger eng ! k) dc i e) eng" if "same_intake e eng" for dc i e
    using same_intake_trans [OF same_intake_record that] .
  show "same_intake (snd (snd (resume_or_leave lf dc r))) eng" if "same_intake (snd r) eng" for lf dc r
    using same_intake_trans [OF same_intake_resume that] .
  show "same_intake (diagnose m e) eng" if "same_intake e eng" for m e
    using same_intake_trans [OF same_intake_diagnose that] .
  show "same_intake e' eng" if "same_intake e eng" "start_encounter lf dc e = Inr (i, e')" for lf dc e i e'
    using same_intake_trans [OF same_intake_start(1) [OF that(2)] that(1)] .
qed (simp_all add: same_intake_route)

lemma same_intake_attempt [frame]: "same_intake (process_attempt k eng) eng"
  by (simp add: process_attempt_def same_intake_def Let_def split: FactEvent.splits option.splits)

lemma same_intake_slain [frame]: "same_intake (process_slain k eng) eng"
  by (simp add: process_slain_def add_source_member_def enter_ending_def same_intake_def Let_def
      split: FactEvent.splits option.splits)

lemma same_intake_finalize [frame]: "same_intake (finalize i r t eng) eng"
  by (simp add: finalize_def same_intake_def Let_def split: option.splits)

lemma same_intake_finish [frame]: "same_intake (finish_ending t d eng) eng"
proof -
  have "same_intake (on_encounter i f eng) eng" for i f by (simp add: same_intake_def)
  then show ?thesis
    unfolding finish_ending_def using same_intake_finalize same_intake_trans [OF same_intake_finalize]
    by (cases d) (auto split: if_splits)
qed

lemma same_intake_refresh [frame]: "same_intake (refresh_snapshot i eng) eng"
  by (simp add: refresh_snapshot_def same_intake_def split: option.splits)

section \<open>The contract of an invariant\<close>

locale engine_preserves =
  fixes P :: "CombatEngine \<Rightarrow> bool"
  assumes fresh: "engine_new policy = Inr eng \<Longrightarrow> P eng"
    and register: "P eng \<Longrightarrow> P (register_source source generation t eng)"
    and removed: "P eng \<Longrightarrow> P (source_removed sid eng)"
    and gap: "P eng \<Longrightarrow> P (mark_gap sid generation reason eng)"
    and eof: "P eng \<Longrightarrow> P (note_stable_eof sid generation t eng)"
    and accept: "P eng \<Longrightarrow> rec_id record \<notin> eng_accepted eng \<Longrightarrow> P (accept_record record t eng)"
    and diag: "P eng \<Longrightarrow> P (diagnose m eng)"
    and occurrences: "P eng \<Longrightarrow> P (eng\<lparr>eng_occurrences := occ\<rparr>)"
    and players: "P eng \<Longrightarrow> P (eng\<lparr>eng_verified_players := vs\<rparr>)"
    and ownership: "P eng \<Longrightarrow> P (add_ownership source pet owner second eng)"
    and zone: "P eng \<Longrightarrow> P (on_source sid (\<lambda>s. s\<lparr>ss_zone := z\<rparr>) eng)"
    and damage: "P eng \<Longrightarrow> P (process_damage (length (eng_ledger eng)) (push_fact record second t fe eng))"
    and attempt: "P eng \<Longrightarrow> P (process_attempt (length (eng_ledger eng)) (push_fact record second t fe eng))"
    and slain: "P eng \<Longrightarrow> P (process_slain (length (eng_ledger eng)) (push_fact record second t fe eng))"
    and withdraw: "P eng \<Longrightarrow> P (withdraw_encounters eng)"
    and close_eof: "P eng \<Longrightarrow> P (close_sources t eng)"
    and ending: "P eng \<Longrightarrow> P (enter_ending i reason' t cutoff eng)"
    and finish: "P eng \<Longrightarrow> P (finish_ending t due eng)"
    and expire: "P eng \<Longrightarrow> P (eng\<lparr>eng_encounters := bm_remove i (eng_encounters eng)\<rparr>)"
    and forget: "P eng \<Longrightarrow> eng_encounters eng = [] \<Longrightarrow> P (eng\<lparr>eng_ledger := [], eng_assignments := []\<rparr>)"
    and refresh: "P eng \<Longrightarrow> P (refresh_snapshot i eng)"
    and publish: "P eng \<Longrightarrow> P (eng\<lparr>eng_current_book := book\<rparr>)"
    and clock: "P eng \<Longrightarrow> P (eng\<lparr>eng_now := t\<rparr>)"
begin

lemma fold_preserves: "(\<And>x e. P e \<Longrightarrow> P (f x e)) \<Longrightarrow> P eng \<Longrightarrow> P (fold f xs eng)"
  by (induction xs arbitrary: eng) auto

lemma dispatch_preserves: "P eng \<Longrightarrow> P (dispatch_event record second t event eng)"
  by (induction "record" second t event eng rule: dispatch_event.induct)
    (simp_all add: players ownership zone damage attempt slain)

lemma event_preserves: "P eng \<Longrightarrow> P (apply_event record second t event eng)"
  by (auto simp: apply_event_def is_replayed_occurrence_def Let_def
      intro!: dispatch_preserves occurrences split: prod.splits)

lemma events_preserves: "P eng \<Longrightarrow> P (apply_events record t eng)"
  by (auto simp: apply_events_def Let_def intro: diag fold_preserves event_preserves withdraw split: option.splits)

lemma record_preserves: "P eng \<Longrightarrow> P (snd (apply_record record t eng))"
proof -
  have reg: "eng_accepted (register_source source generation now e) = eng_accepted e" for source generation now e
    by (simp add: register_source_def Let_def)
  have mg: "eng_accepted (mark_gap source generation reason e) = eng_accepted e" for source generation reason e
    by (simp add: mark_gap_def diagnose_def)
  show "P eng \<Longrightarrow> P (snd (apply_record record t eng))"
    unfolding apply_record_def Let_def
    by (auto intro!: diag events_preserves accept gap register simp: reg mg split: option.splits)
qed

lemma input_preserves: "P eng \<Longrightarrow> P (fst (apply_input t input eng))"
  using record_preserves
  by (cases input) (auto simp: register removed gap eof split: prod.splits, metis snd_conv)

lemma expire_preserves: "P eng \<Longrightarrow> P (expire_held t eng)"
proof -
  have "P e \<Longrightarrow> P (e\<lparr>eng_encounters := fold bm_remove ids (eng_encounters e)\<rparr>)" for ids e
  proof (induction ids arbitrary: e)
    case (Cons i ids)
    from Cons.IH [OF expire [OF Cons.prems, of i]] show ?case by simp
  qed simp
  then show "P eng \<Longrightarrow> P (expire_held t eng)"
    using forget [of "eng\<lparr>eng_encounters := fold bm_remove (expired_encounters t eng) (eng_encounters eng)\<rparr>"]
    by (simp add: expire_held_def Let_def)
qed

lemma advance_preserves: "P eng \<Longrightarrow> P (fst (advance_time t (eng, u)))"
proof -
  assume "P eng"
  then have "P (close_sources t eng)" by (rule close_eof)
  then have "P (end_inactive t (close_sources t eng))"
    unfolding end_inactive_def by (rule fold_preserves [rotated]) (auto intro: ending)
  then have "P (finish_due t (end_inactive t (close_sources t eng)))"
    unfolding finish_due_def by (rule fold_preserves [rotated]) (rule finish)
  then show ?thesis by (simp add: advance_time_def Let_def expire_preserves)
qed

lemma rebuild_preserves: "P eng \<Longrightarrow> P (snd (rebuild_book eng))"
  by (auto simp: rebuild_book_def Let_def intro!: publish fold_preserves refresh)

lemma tick_preserves: "P eng \<Longrightarrow> P (snd (tick t eng))"
  using advance_preserves rebuild_preserves clock
  by (auto simp: tick_def Let_def split: prod.splits) (metis fst_conv snd_conv)

lemma apply_preserves: "P eng \<Longrightarrow> P (snd (apply_engine t input eng))"
proof -
  assume "P eng"
  obtain eng1 u1 where 1: "apply_input t input (eng\<lparr>eng_now := max (eng_now eng) t\<rparr>) = (eng1, u1)" by fastforce
  obtain eng2 u2 where 2: "advance_time (eng_now eng1) (eng1, u1) = (eng2, u2)" by fastforce
  obtain book eng3 where 3: "rebuild_book eng2 = (book, eng3)" by fastforce
  have "P eng1" using input_preserves [OF clock [OF \<open>P eng\<close>], of t input] 1 by (metis fst_conv)
  then have "P eng2" using advance_preserves [of eng1 "eng_now eng1" u1] 2 by simp
  then have "P eng3" using rebuild_preserves [of eng2] 3 by simp
  then show ?thesis by (simp add: apply_engine_def Let_def 1 2 3)
qed

lemma reachable_preserves: "reachable_engine policy eng \<Longrightarrow> P eng"
  by (induction rule: reachable_engine.induct) (auto intro: fresh apply_preserves tick_preserves)

end

end
