(* ===== verification/Combat_Snapshot.thy ===== *)
theory Combat_Snapshot
  imports Combat_Election
begin

text \<open>
  What the combat meter publishes. The theorems of this theory are about the election and the
  snapshot of an encounter (\<open>elect\<close> and \<open>compute_snapshot\<close> of
  \<^verbatim>\<open>crates/eqcombat/src/engine.rs\<close>): every published number is a sum over the facts of a
  single elected source, the rows are the ranking of those numbers, and no number is lost to
  an arithmetic overflow.
\<close>

section \<open>A concrete encounter\<close>

text \<open>Two clients see the same hit of Ann on a bat; Ann's own log is complete.\<close>

definition sample_source :: "string \<Rightarrow> string \<Rightarrow> LogSource" where
  "sample_source i c = \<lparr>ls_id = i, ls_character = c, ls_server = ''t''\<rparr>"

definition sample_state :: "LogSource \<Rightarrow> SourceState" where
  "sample_state s = \<lparr>ss_source = s, ss_generation = 0, ss_present = True, ss_registered_at = 0,
     ss_continuity = 0, ss_observed = Some 9, ss_closed_through = Some 8, ss_history_floor = None,
     ss_last_progress_at = 0, ss_last_sequence = Some 1, ss_eof_second = None,
     ss_eof_first_at = None, ss_eof_passes = 0, ss_zone = None\<rparr>"

definition sample_hit :: "LogSource \<Rightarrow> ObservedCombatant \<Rightarrow> LedgerFact" where
  "sample_hit s attacker = \<lparr>fact_record = \<lparr>rid_source = ls_id s, rid_generation = 0, rid_sequence = 0\<rparr>,
     fact_source = s, fact_eq_time = 5, fact_receipt = 1,
     fact_event = FactDamage \<lparr>dmg_attacker = attacker, dmg_explicit_owner = None,
       dmg_defender = observed_named ''bat'', dmg_amount = 7, dmg_kind = Melee, dmg_ability = None,
       dmg_outcome = Hit, dmg_modifiers = \<lparr>mod_critical = False, mod_lucky = False,
         mod_strikethrough = False, mod_wild_rampage = False, mod_twincast = False\<rparr>,
       dmg_provenance = ByMelee\<rparr>\<rparr>"

definition sample_encounter :: EncounterState where
  "sample_encounter = \<lparr>enc_id = ''e'', enc_server = ''t'', enc_phase = Active,
     enc_sources = [''a'', ''b''], enc_source_continuity = [(''a'', 0), (''b'', 0)],
     enc_partial_sources = [], enc_managed = [], enc_targets = [(''bat'', \<lparr>tgt_display = ''bat'',
       tgt_terminal = False, tgt_first_damage = 5, tgt_last_damage = 5, tgt_terminal_at = None\<rparr>)],
     enc_facts = [0, 1], enc_fingerprints = [], enc_start_eq = 5, enc_end_eq = 5,
     enc_last_sustain_eq = 5, enc_start_receipt = 1, enc_last_sustain_receipt = 1,
     enc_revision = 0, enc_last_snapshot = None, enc_frozen = None\<rparr>"

definition sample_engine :: CombatEngine where
  "sample_engine = \<lparr>eng_policy = mvp_v1,
     eng_sources = [(''a'', sample_state (sample_source ''a'' ''Ann'')),
                    (''b'', sample_state (sample_source ''b'' ''Bob''))],
     eng_accepted = {}, eng_accepted_order = [], eng_occurrences = [],
     eng_ledger = [sample_hit (sample_source ''a'' ''Ann'') observed_you,
                   sample_hit (sample_source ''b'' ''Bob'') (observed_named ''Ann'')],
     eng_assignments = [(0, ''e''), (1, ''e'')], eng_encounters = [(''e'', sample_encounter)],
     eng_source_active = [(''a'', ''e''), (''b'', ''e'')],
     eng_verified_players = [ParticipantId ''t'' ''ann''], eng_ownership = [],
     eng_current_book = default_book, eng_now = 1, eng_diagnostics = []\<rparr>"

lemmas sample_defs = sample_source_def sample_state_def sample_hit_def sample_encounter_def
  sample_engine_def mvp_v1_def observed_named_def observed_you_def

lemma sample_known: "List.map_filter (\<lambda>source. map_option (Pair source) (bm_get (eng_sources sample_engine) source))
    (enc_sources sample_encounter)
  = [(''a'', sample_state (sample_source ''a'' ''Ann'')), (''b'', sample_state (sample_source ''b'' ''Bob''))]"
  by (simp add: sample_engine_def sample_encounter_def bm_get_def List.map_filter_def)

lemma sample_watermark: "comparison_watermark sample_engine sample_encounter = Some 8"
  unfolding comparison_watermark_def Let_def sample_known
  by (simp add: source_complete_def source_lagging_def sample_defs bm_get_def bs_contains_def
      eq_second_checked_sub_def i64_checked_def i64_min_def i64_max_def List.map_filter_def)

lemma sample_name: "participant_from_name ''t'' ''Ann'' = ParticipantId ''t'' ''ann''"
  by code_simp

lemma sample_bat: "participant_from_name ''t'' ''bat'' = ParticipantId ''t'' ''bat''"
  by code_simp

lemma sample_owner: "claimed_owner_in_encounter sample_engine s d e = None"
  by (simp add: claimed_owner_in_encounter_def sample_engine_def max_by_def Let_def)

definition sample_con :: "string \<Rightarrow> bool \<Rightarrow> Contribution" where
  "sample_con s personal = \<lparr>con_participant = ParticipantId ''t'' ''ann'', con_display = ''Ann'', con_source = s,
     con_complete = True, con_personal = personal, con_provisional_pet = False, con_owned = False,
     con_amount = 7, con_target = ''bat'', con_eq_time = 5\<rparr>"

lemma sample_lower: "to_ascii_lowercase ''t'' = ''t''" "to_ascii_lowercase ''bat'' = ''bat''"
  "to_ascii_lowercase ''Ann'' = ''ann''" "to_ascii_lowercase ''Bob'' = ''bob''"
  by code_simp+

lemma sample_attribute:
  "attribute_fact sample_engine sample_encounter (Some 8) (sample_hit (sample_source ''a'' ''Ann'') observed_you)
    = Some (sample_con ''a'' True)"
  "attribute_fact sample_engine sample_encounter (Some 8) (sample_hit (sample_source ''b'' ''Bob'') (observed_named ''Ann''))
    = Some (sample_con ''b'' False)"
  unfolding attribute_fact_def Let_def sample_owner
  by (simp_all add: sample_con_def sample_defs resolve_observed_def Let_def sample_name sample_bat sample_lower
      canonical_target_new_def participant_new_def bm_contains_def bm_get_def bs_contains_def source_complete_def)

lemma sample_counted: "counted sample_engine sample_encounter = [sample_con ''a'' True, sample_con ''b'' False]"
  by (simp add: contributions_def List.map_filter_def sample_watermark sample_attribute
      sample_engine_def [THEN arg_cong [where f = eng_ledger]] sample_encounter_def [THEN arg_cong [where f = enc_facts]])

definition sample_candidate :: "string \<Rightarrow> bool \<Rightarrow> Candidate" where
  "sample_candidate s personal = \<lparr>cand_participant = ParticipantId ''t'' ''ann'', cand_display = ''Ann'',
     cand_source = s, cand_complete = True, cand_personal = personal, cand_provisional_pet = False,
     cand_has_pet = False, cand_direct_damage = 7, cand_pet_damage = 0, cand_damage = 7,
     cand_events = 1, cand_ranges = [(''bat'', (5, 5))], cand_target_damage = [(''bat'', 7)],
     cand_target_first = [(''bat'', 5)], cand_active_seconds = 1\<rparr>"

lemma sample_add: "add_contribution (sample_con s p) (candidate_new (sample_con s p)) = Some (sample_candidate s p)"
  by (simp add: add_contribution_def sample_con_def candidate_new_def sample_candidate_def
      u128_checked_add_def u64_checked_add_def bm_upsert_def)

lemma sample_facts: "enc_facts sample_encounter = [0, 1]"
  "eng_ledger sample_engine = [sample_hit (sample_source ''a'' ''Ann'') observed_you,
     sample_hit (sample_source ''b'' ''Bob'') (observed_named ''Ann'')]"
  by (simp_all add: sample_encounter_def sample_engine_def)

lemma sample_con_key: "con_participant (sample_con s p) = ParticipantId ''t'' ''ann''" "con_source (sample_con s p) = s"
  by (simp_all add: sample_con_def)

lemma sample_fold: "try_fold (elect_fact sample_engine sample_encounter (Some 8)) [0, 1] []
    = Some [((ParticipantId ''t'' ''ann'', ''a''), sample_candidate ''a'' True),
            ((ParticipantId ''t'' ''ann'', ''b''), sample_candidate ''b'' False)]"
  by (simp add: elect_fact_def sample_facts sample_attribute sample_add sample_con_key Let_def bm_get_def
      less_prod_def less_le)

lemma sample_active: "with_active_seconds sample_engine (sample_candidate s p) = sample_candidate s p"
  by (simp add: with_active_seconds_def sample_candidate_def union_range_seconds_def inclusive_seconds_def
      i64_checked_def i64_min_def i64_max_def u64_saturating_add_def u64_max_def)

lemma sample_candidates: "elect_candidates sample_engine sample_encounter
    = Some [sample_candidate ''a'' True, sample_candidate ''b'' False]"
  by (simp add: elect_candidates_def sample_watermark sample_facts sample_fold [simplified] sample_active)
    (simp add: sample_candidate_def)

abbreviation sample_ann :: ParticipantId where
  "sample_ann \<equiv> ParticipantId ''t'' ''ann''"

lemma sample_candidate_fields:
  "cand_participant (sample_candidate s p) = sample_ann" "cand_personal (sample_candidate s p) = p"
  "cand_source (sample_candidate s p) = s" "cand_complete (sample_candidate s p)"
  "cand_damage (sample_candidate s p) = 7" "cand_provisional_pet (sample_candidate s p) = False"
  by (simp_all add: sample_candidate_def)

definition sample_election :: Election where
  "sample_election = \<lparr>el_winner = sample_candidate ''a'' True, el_quality = AuthoritativePersonal,
     el_losers = [(''b'', 7)]\<rparr>"

lemma sample_elect: "elect sample_engine sample_encounter = Some [(sample_ann, sample_election)]"
  by (simp add: elect_def sample_candidates group_candidates_def bm_upsert_def bm_modify_def bm_get_def
      bm_map_values_def sample_candidate_fields elect_participant_def cmp_def
      winner_index_def winner_quality_def sample_election_def Let_def)

section \<open>Elections\<close>

text \<open>
  C4. The damage published for a participant is the sum of the facts of one source, the
  elected one, and of no other: total, pet share and the total on each target. A hit that
  several clients logged is therefore counted once, and direct and pet damage add up.
\<close>

theorem election_sums_one_source:
  assumes "elect eng e = Some els" "bm_get els p = Some el"
  defines "own \<equiv> own_contributions eng e p (cand_source (el_winner el))"
  shows "cand_participant (el_winner el) = p \<and> 0 < cand_damage (el_winner el)
    \<and> cand_damage (el_winner el) = damage_of own
    \<and> cand_direct_damage (el_winner el) + cand_pet_damage (el_winner el) = cand_damage (el_winner el)
    \<and> cand_pet_damage (el_winner el) = damage_of (filter (\<lambda>con. con_owned con \<or> con_provisional_pet con) own)
    \<and> (\<forall>t. unwrap_or (bm_get (cand_target_damage (el_winner el)) t) 0
         = damage_of (filter (\<lambda>con. con_target con = t) own))"
proof -
  from assms(1,2) obtain cs where cs: "elect_candidates eng e = Some cs" "el_winner el \<in> set cs"
    "cand_participant (el_winner el) = p" by (rule elect_winner)
  from elect_candidates_sound [OF cs(1,2)] cs(3) show ?thesis
    by (simp add: own_def candidate_sums_def Let_def)
qed

theorem election_sums_one_source_witness:
  "cand_damage (el_winner sample_election)
    = damage_of (own_contributions sample_engine sample_encounter sample_ann ''a'')"
  using election_sums_one_source [OF sample_elect, of sample_ann sample_election]
  by (simp add: bm_get_def sample_election_def sample_candidate_fields)

text \<open>
  An election is held for exactly the participants that some counted fact is attributed
  to: no participant with damage is missing, none is invented, and none appears twice.
\<close>

theorem election_covers_participants:
  assumes "elect eng e = Some els"
  shows "set (bm_keys els) = con_participant ` set (counted eng e) \<and> distinct (bm_keys els)"
proof -
  from assms obtain cs where cs: "elect_candidates eng e = Some cs" by (auto simp: elect_def)
  from elect_get [OF cs] assms have wf: "bm_wf els"
    and get: "\<And>p. bm_get els p \<noteq> None \<longleftrightarrow> (\<exists>c \<in> set cs. cand_participant c = p)"
    by (auto simp: Let_def filter_empty_conv)
  have "p \<in> set (bm_keys els) \<longleftrightarrow> p \<in> con_participant ` set (counted eng e)" for p
  proof
    assume "p \<in> set (bm_keys els)"
    then obtain c where c: "c \<in> set cs" "cand_participant c = p"
      using get [of p] bm_contains_iff [of els p] unfolding bm_contains_def by blast
    from elect_candidates_sound [OF cs c(1)] c(2)
    have "own_contributions eng e p (cand_source c) \<noteq> []" by (auto simp: candidate_sums_def)
    then show "p \<in> con_participant ` set (counted eng e)" by (auto simp: filter_empty_conv)
  next
    assume "p \<in> con_participant ` set (counted eng e)"
    then obtain con where con: "con \<in> set (counted eng e)" "p = con_participant con" by auto
    from elect_candidates_complete [OF cs con(1)] con(2)
    have "\<exists>c \<in> set cs. cand_participant c = p" by auto
    then show "p \<in> set (bm_keys els)"
      using get [of p] bm_contains_iff [of els p] unfolding bm_contains_def by blast
  qed
  then show ?thesis using wf by (auto simp: bm_wf_distinct)
qed

theorem election_covers_participants_witness:
  "set (bm_keys [(sample_ann, sample_election)]) = con_participant ` set (counted sample_engine sample_encounter)"
  using election_covers_participants [OF sample_elect] by blast

text \<open>
  C19. A participant's own log decides whenever it is complete: if some candidate comes from
  the participant's own complete log, the elected one does. Otherwise the elected candidate is
  one that no other candidate beats (complete before partial, then damage, number of events,
  targets, active time, and the smaller source identity). Every other source is reported as a
  loser with its own total.
\<close>

theorem election_prefers_own_log:
  assumes "elect_candidates eng e = Some cs" "own = filter (\<lambda>c. cand_participant c = p) cs" "own \<noteq> []"
  shows "\<exists>els el. elect eng e = Some els \<and> bm_get els p = Some el \<and> el_winner el \<in> set own
    \<and> (if \<exists>c \<in> set own. cand_personal c \<and> cand_complete c
       then cand_personal (el_winner el) \<and> cand_complete (el_winner el)
       else \<forall>c \<in> set own. candidate_cmp c (el_winner el) \<noteq> Greater)
    \<and> mset (el_losers el) = image_mset (\<lambda>c. (cand_source c, cand_damage c)) (mset own - {#el_winner el#})"
proof -
  from elect_get [OF assms(1)] assms(2,3) obtain els where
    "elect eng e = Some els" "bm_get els p = Some (elect_participant own)"
    by (auto simp: Let_def)
  moreover note elect_participant_rule [OF assms(3)]
  ultimately show ?thesis by (cases "\<exists>c \<in> set own. cand_personal c \<and> cand_complete c") auto
qed

theorem election_prefers_own_log_witness:
  "\<exists>els el. elect sample_engine sample_encounter = Some els \<and> bm_get els sample_ann = Some el
    \<and> cand_personal (el_winner el) \<and> cand_complete (el_winner el)"
  using election_prefers_own_log [OF sample_candidates refl, of sample_ann]
  by (auto simp: sample_candidate_fields)

section \<open>No result is lost\<close>

lemma add_contribution_defined:
  assumes "candidate_sums own c" "damage_of own + con_amount con < 2 ^ 128" "length own + 1 < 2 ^ 64"
  shows "add_contribution con c \<noteq> None"
proof -
  have "bm_get (cand_target_damage c) t = Some d \<Longrightarrow> d \<le> damage_of own" for t d
    using assms(1) damage_of_filter_le
    by (auto simp: candidate_sums_def Let_def split: if_splits)
  then have "unwrap_or (bm_get (cand_target_damage c) (con_target con)) 0 \<le> damage_of own"
    by (cases "bm_get (cand_target_damage c) (con_target con)") auto
  with assms show ?thesis
    by (auto simp: add_contribution_def Let_def candidate_sums_def u128_checked_add_def u64_checked_add_def)
qed

lemma damage_of_contributions_mono:
  "damage_of (contributions eng e w is) \<le> damage_of (contributions eng e w (is @ js))"
  by (simp add: contributions_def List.map_filter_def)

lemma length_contributions: "length (contributions eng e w is) \<le> length is"
  by (simp add: contributions_def List.map_filter_def)

lemma elect_fact_defined:
  assumes "candidates_inv (contributions eng e w is) cs" "i < length (eng_ledger eng)"
    "damage_of (contributions eng e w (is @ [i])) < 2 ^ 128" "length is + 1 < 2 ^ 64"
  shows "elect_fact eng e w i cs \<noteq> None"
proof (cases "attribute_fact eng e w (eng_ledger eng ! i)")
  case None
  with assms(2) show ?thesis by (simp add: elect_fact_def)
next
  case (Some con)
  let ?k = "con_key con" and ?cons = "contributions eng e w is"
  let ?own = "filter (\<lambda>x. con_key x = ?k) ?cons"
  have "length ?own \<le> length is" by (rule order.trans [OF length_filter_le length_contributions])
  then have bounds: "damage_of ?own + con_amount con < 2 ^ 128" "length ?own + 1 < 2 ^ 64"
    using assms(3,4) damage_of_filter_le [of "\<lambda>x. con_key x = ?k" ?cons]
    by (auto simp: contributions_snoc Some)
  have "add_contribution con (unwrap_or (bm_get cs ?k) (candidate_new con)) \<noteq> None"
  proof (cases "bm_get cs ?k")
    case None
    with bounds show ?thesis
      using add_contribution_defined [OF candidate_sums_new, of con con] by simp
  next
    case c: (Some c)
    then have "candidate_sums ?own c" using assms(1) unfolding candidates_inv_def by blast
    with bounds c show ?thesis using add_contribution_defined by simp
  qed
  with assms(2) Some show ?thesis by (simp add: elect_fact_def Let_def)
qed

lemma elect_fold_defined:
  assumes "\<forall>i \<in> set is. i < length (eng_ledger eng)" "damage_of (contributions eng e w is) < 2 ^ 128"
    "length is < 2 ^ 64"
  shows "\<exists>cs. try_fold (elect_fact eng e w) is [] = Some cs"
  using assms
proof (induction "is" rule: rev_induct)
  case (snoc i "is")
  from snoc.prems(2) damage_of_contributions_mono [of eng e w "is" "[i]"]
  have "damage_of (contributions eng e w is) < 2 ^ 128" by linarith
  with snoc obtain cs where cs: "try_fold (elect_fact eng e w) is [] = Some cs" by auto
  from elect_fact_defined [OF candidates_inv_fold [OF cs]] snoc.prems
  have "elect_fact eng e w i cs \<noteq> None" by simp
  with cs show ?case by (auto simp: try_fold_append)
qed simp

text \<open>
  An election never fails for an encounter whose facts are in the ledger and whose counted
  damage stays below 2 to the 128th: neither the totals, nor the per-target totals, nor the
  event counters overflow.
\<close>

theorem election_always_succeeds:
  assumes "\<forall>i \<in> set (enc_facts e). i < length (eng_ledger eng)" "damage_of (counted eng e) < 2 ^ 128"
    "length (enc_facts e) < 2 ^ 64"
  shows "\<exists>els. elect eng e = Some els"
  using elect_fold_defined [OF assms] by (auto simp: elect_def elect_candidates_def Let_def)

theorem election_always_succeeds_witness:
  "\<exists>els. elect sample_engine sample_encounter = Some els"
  by (rule election_always_succeeds) (simp add: sample_facts, simp only: sample_counted, simp add: sample_con_def, simp add: sample_facts)

section \<open>Snapshots\<close>

lemma those_map_Some: "those (map f xs) = Some ys \<longleftrightarrow> list_all2 (\<lambda>x y. f x = Some y) xs ys"
  by (induction xs arbitrary: ys) (auto simp: list_all2_Cons1 split: option.splits)

lemma list_all2_source: "list_all2 R xs ys \<Longrightarrow> y \<in> set ys \<Longrightarrow> \<exists>x \<in> set xs. R x y"
  by (induction xs ys rule: list_all2_induct) auto

lemma list_all2_map_eq:
  "list_all2 (\<lambda>x y. f x = Some y) xs ys \<Longrightarrow> (\<And>x y. f x = Some y \<Longrightarrow> g y = h x) \<Longrightarrow> map g ys = map h xs"
  by (induction xs ys rule: list_all2_induct) auto

lemma row_of_election_fields:
  assumes "row_of_election eng e secs raid el = Some row"
  shows "row_damage row = cand_damage (el_winner el)" "row_participant row = cand_participant (el_winner el)"
    "row_elected_source row = cand_source (el_winner el)"
    "row_contribution_millionths row = ratio_millionths (cand_damage (el_winner el)) raid"
  using assms by (auto simp: row_of_election_def Let_def bind_eq_Some_conv)

lemma checked_sum_Some:
  "try_fold (\<lambda>x s. u128_checked_add s (f x)) xs a = Some t \<Longrightarrow> t = a + sum_list (map f xs)"
  by (induction xs arbitrary: a) (fastforce simp: bind_eq_Some_conv)+

lemma checked_sum_bound:
  "try_fold (\<lambda>x s. u128_checked_add s (f x)) xs a = Some t \<Longrightarrow> a < 2 ^ 128 \<Longrightarrow> t < 2 ^ 128"
  by (induction xs arbitrary: a) (auto simp: bind_eq_Some_conv)

lemma elect_values:
  assumes "elect eng e = Some els"
  shows "bm_wf els" "el \<in> set (bm_values els) \<Longrightarrow> 0 < cand_damage (el_winner el)"
    "map (\<lambda>el. cand_participant (el_winner el)) (bm_values els) = bm_keys els"
proof -
  from assms obtain cs where cs: "elect_candidates eng e = Some cs" by (auto simp: elect_def)
  from elect_get [OF cs] assms show wf: "bm_wf els" by simp
  have each: "cand_participant (el_winner el) = p \<and> 0 < cand_damage (el_winner el)" if "(p, el) \<in> set els" for p el
  proof -
    from wf that have "bm_get els p = Some el" by (rule bm_wf_get)
    with assms obtain cs' where "elect_candidates eng e = Some cs'" "el_winner el \<in> set cs'"
      "cand_participant (el_winner el) = p" by (rule elect_winner)
    then show ?thesis using elect_candidates_sound(2) by blast
  qed
  show "0 < cand_damage (el_winner el)" if "el \<in> set (bm_values els)" using each that by auto
  show "map (\<lambda>el. cand_participant (el_winner el)) (bm_values els) = bm_keys els"
    using each by auto
qed

lemma compute_snapshot_parts:
  assumes "compute_snapshot eng e r = Some s"
  obtains els rows where "elect eng e = Some els"
    "snap_raid_damage s = sum_list (map (\<lambda>el. cand_damage (el_winner el)) (bm_values els))"
    "snap_raid_damage s < 2 ^ 128" "0 < snap_raid_damage s"
    "list_all2 (\<lambda>el row. row_of_election eng e (inclusive_seconds (enc_start_eq e) (enc_end_eq e))
        (snap_raid_damage s) el = Some row) (bm_values els) rows"
    "snap_rows s = rank_rows (sort_by row_cmp rows)"
proof -
  obtain ph er hu where ph: "snapshot_phase (enc_phase e) = (ph, er, hu)" by (rule prod_cases3)
  from assms ph obtain els raid rows where
    els: "elect eng e = Some els"
    and raid: "try_fold (\<lambda>el s. u128_checked_add s (cand_damage (el_winner el))) (bm_values els) 0 = Some raid" "raid \<noteq> 0"
    and rows: "those (map (row_of_election eng e (inclusive_seconds (enc_start_eq e) (enc_end_eq e)) raid)
        (filter (\<lambda>el. cand_damage (el_winner el) > 0) (bm_values els))) = Some rows"
    and s: "snap_raid_damage s = raid" "snap_rows s = rank_rows (sort_by row_cmp rows)"
    by (auto simp: compute_snapshot_def Let_def bind_eq_Some_conv split: if_splits prod.splits)
  have "filter (\<lambda>el. cand_damage (el_winner el) > 0) (bm_values els) = bm_values els"
    using elect_values(2) [OF els] by (simp add: filter_id_conv)
  with rows s(1) have "list_all2 (\<lambda>el row. row_of_election eng e (inclusive_seconds (enc_start_eq e) (enc_end_eq e))
        (snap_raid_damage s) el = Some row) (bm_values els) rows" by (simp only: those_map_Some)
  moreover have "snap_raid_damage s = sum_list (map (\<lambda>el. cand_damage (el_winner el)) (bm_values els))"
    using checked_sum_Some [OF raid(1)] s(1) by simp
  moreover have "snap_raid_damage s < 2 ^ 128" "0 < snap_raid_damage s"
    using checked_sum_bound [OF raid(1)] raid(2) s(1) by simp_all
  ultimately show thesis using els s(2) that by blast
qed

lemma rank_rows_simps:
  "map row_rank (rank_rows rows) = [1..<length rows + 1]"
  "length (rank_rows rows) = length rows"
  "(\<And>row k. f (row\<lparr>row_rank := k\<rparr>) = f row) \<Longrightarrow> map f (rank_rows rows) = map f rows"
proof -
  have "map (\<lambda>(i, row). i + 1) (enumerate n rows) = [n + 1..<n + length rows + 1]" for n
    by (induction rows arbitrary: n) (simp_all add: upt_rec)
  then show "map row_rank (rank_rows rows) = [1..<length rows + 1]"
    by (simp add: rank_rows_def o_def case_prod_unfold)
  show "length (rank_rows rows) = length rows" by (simp add: rank_rows_def)
  assume f: "\<And>row k. f (row\<lparr>row_rank := k\<rparr>) = f row"
  have "map (\<lambda>(i, row). f row) (enumerate n rows) = map f rows" for n
    by (induction rows arbitrary: n) auto
  then show "map f (rank_rows rows) = map f rows"
    by (simp add: rank_rows_def o_def case_prod_unfold f)
qed

lemma rank_rows_in: "row \<in> set (rank_rows rows) \<Longrightarrow> \<exists>r \<in> set rows. \<exists>k. row = r\<lparr>row_rank := k\<rparr>"
  unfolding rank_rows_def by (force simp: in_set_enumerate_eq dest: nth_mem)

lemma row_cmp_total: "total_cmp row_cmp"
  unfolding row_cmp_def by (intro total_cmp_intros)

interpretation rows: total_cmp row_cmp
  by (rule row_cmp_total)

lemma sample_phase: "enc_phase sample_encounter = Active"
  "inclusive_seconds (enc_start_eq sample_encounter) (enc_end_eq sample_encounter) = 1"
  by (simp_all add: sample_encounter_def inclusive_seconds_def i64_checked_def i64_min_def i64_max_def)

lemma sample_snapshot: "\<exists>s. compute_snapshot sample_engine sample_encounter 0 = Some s"
  by (simp add: compute_snapshot_def sample_elect sample_election_def sample_candidate_def target_totals_def
      max_by_def row_of_election_def round_rate_def u128_checked_add_def bm_get_def Let_def sample_phase)

text \<open>
  The rows of a snapshot are a ranking: ranks are 1, 2, 3, ... in the order of the rows,
  damage never increases down the table, ties go to the higher rate and then the smaller
  participant, and no participant has two rows.
\<close>

theorem snapshot_rows_ranked:
  assumes "compute_snapshot eng e r = Some s"
  shows "map row_rank (snap_rows s) = [1..<length (snap_rows s) + 1]
    \<and> sorted_wrt (\<ge>) (map row_damage (snap_rows s))
    \<and> sorted_wrt (\<lambda>x y. row_cmp x y \<noteq> Greater) (snap_rows s)
    \<and> distinct (map row_participant (snap_rows s))"
proof -
  from assms obtain els rows where p: "elect eng e = Some els"
    "list_all2 (\<lambda>el row. row_of_election eng e (inclusive_seconds (enc_start_eq e) (enc_end_eq e))
        (snap_raid_damage s) el = Some row) (bm_values els) rows"
    "snap_rows s = rank_rows (sort_by row_cmp rows)" by (rule compute_snapshot_parts)
  let ?ranked = "rank_rows (sort_by row_cmp rows)"
  have cmp: "row_cmp (rank_rows rs ! i) (rank_rows rs ! j) = row_cmp (rs ! i) (rs ! j)"
    if "i < length rs" "j < length rs" for rs i j
    using that by (simp add: rank_rows_def row_cmp_def nth_enumerate_eq)
  have sorted: "sorted_wrt (\<lambda>x y. row_cmp x y \<noteq> Greater) ?ranked"
    using rows.sort_by_sorted [of rows]
    by (simp add: sorted_wrt_iff_nth_less cmp rank_rows_simps(2))
  then have "sorted_wrt (\<lambda>x y. row_damage x \<ge> row_damage y) ?ranked"
    by (rule sorted_wrt_mono_rel [rotated]) (auto simp: row_cmp_def then_with_eq not_less)
  then have desc: "sorted_wrt (\<ge>) (map row_damage ?ranked)" by (simp add: sorted_wrt_map)
  have "map row_participant rows = bm_keys els"
    using list_all2_map_eq [OF p(2), of row_participant "\<lambda>el. cand_participant (el_winner el)"]
      row_of_election_fields(2) elect_values(3) [OF p(1)] by metis
  then have "distinct (map row_participant rows)"
    using elect_values(1) [OF p(1)] by (simp add: bm_wf_distinct)
  then have "distinct (map row_participant ?ranked)" by (simp add: rank_rows_simps(3))
  then show ?thesis
    using sorted desc rank_rows_simps(1) [of "sort_by row_cmp rows"] by (simp add: p(3) rank_rows_simps(2))
qed

theorem snapshot_rows_ranked_witness:
  "\<exists>s. compute_snapshot sample_engine sample_encounter 0 = Some s
    \<and> map row_rank (snap_rows s) = [1..<length (snap_rows s) + 1]"
  using snapshot_rows_ranked sample_snapshot by blast

text \<open>
  C8. The raid total of a snapshot is the sum of its rows' damage and positive; each row's
  damage is the sum of the facts its elected source contributed; and the contributions, in
  millionths, never sum to more than the whole.
\<close>

theorem snapshot_totals_add_up:
  assumes "compute_snapshot eng e r = Some s"
  shows "snap_raid_damage s = sum_list (map row_damage (snap_rows s)) \<and> 0 < snap_raid_damage s
    \<and> (\<forall>row \<in> set (snap_rows s). row_damage row
         = damage_of (own_contributions eng e (row_participant row) (row_elected_source row)))
    \<and> sum_list (map row_contribution_millionths (snap_rows s)) \<le> 1000000"
proof -
  from assms obtain els rows where p: "elect eng e = Some els"
    "snap_raid_damage s = sum_list (map (\<lambda>el. cand_damage (el_winner el)) (bm_values els))"
    "snap_raid_damage s < 2 ^ 128" "0 < snap_raid_damage s"
    "list_all2 (\<lambda>el row. row_of_election eng e (inclusive_seconds (enc_start_eq e) (enc_end_eq e))
        (snap_raid_damage s) el = Some row) (bm_values els) rows"
    "snap_rows s = rank_rows (sort_by row_cmp rows)" by (rule compute_snapshot_parts)
  let ?R = "snap_raid_damage s"
  have dmg: "map row_damage rows = map (\<lambda>el. cand_damage (el_winner el)) (bm_values els)"
    by (rule list_all2_map_eq [OF p(5)]) (rule row_of_election_fields(1))
  have con: "map row_contribution_millionths rows
      = map (\<lambda>el. ratio_millionths (cand_damage (el_winner el)) ?R) (bm_values els)"
    by (rule list_all2_map_eq [OF p(5)]) (rule row_of_election_fields(4))
  have each: "row_damage row = damage_of (own_contributions eng e (row_participant row) (row_elected_source row))"
    if row: "row \<in> set rows" for row
  proof -
    from list_all2_source [OF p(5) row] obtain el where el: "el \<in> set (bm_values els)"
      "row_of_election eng e (inclusive_seconds (enc_start_eq e) (enc_end_eq e)) ?R el = Some row"
      by blast
    note fields = row_of_election_fields [OF el(2)]
    obtain q where q: "bm_get els q = Some el"
      using bm_wf_values [OF elect_values(1) [OF p(1)]] el(1) by blast
    with p(1) obtain cs where "elect_candidates eng e = Some cs" "el_winner el \<in> set cs"
      "cand_participant (el_winner el) = q" by (rule elect_winner)
    then show ?thesis using elect_candidates_sound(1) [of eng e cs "el_winner el"] fields
      by (simp add: candidate_sums_def)
  qed
  have floor_sum: "sum_list (map (\<lambda>d. ratio_millionths d ?R) ds) * ?R \<le> sum_list ds * 1000000" for ds
  proof (induction ds)
    case (Cons d ds)
    have "min d ?R * 1000000 div ?R * ?R \<le> min d ?R * 1000000" by (rule div_times_less_eq_dividend)
    then have "ratio_millionths d ?R * ?R \<le> d * 1000000"
      using ratio_millionths_value [OF p(3), of d] by (simp add: min_def split: if_splits)
    with Cons show ?case by (simp add: add_mult_distrib)
  qed simp
  have "sum_list (map row_contribution_millionths rows) * ?R \<le> ?R * 1000000"
    using floor_sum [of "map (\<lambda>el. cand_damage (el_winner el)) (bm_values els)"] p(2)
    by (simp add: con o_def)
  then have "sum_list (map row_contribution_millionths rows) \<le> 1000000" using p(4) by simp
  moreover have "\<forall>row \<in> set (snap_rows s). row_damage row
      = damage_of (own_contributions eng e (row_participant row) (row_elected_source row))"
    using each by (auto simp: p(6) dest!: rank_rows_in)
  ultimately show ?thesis using p(2,4) dmg by (simp add: p(6) rank_rows_simps(3))
qed

theorem snapshot_totals_add_up_witness:
  "\<exists>s. compute_snapshot sample_engine sample_encounter 0 = Some s
    \<and> snap_raid_damage s = sum_list (map row_damage (snap_rows s)) \<and> 0 < snap_raid_damage s"
  using snapshot_totals_add_up sample_snapshot by blast

end
