(* ===== verification/Combat_Guarantees.thy ===== *)
theory Combat_Guarantees
  imports Combat_Invariants Combat_Snapshot
begin

text \<open>
  The guarantees of the combat engine in every reachable state, obtained by interpreting the
  contract \<open>engine_preserves\<close> on the engine's invariants.
\<close>

section \<open>The record window\<close>

definition window_inv :: "CombatEngine \<Rightarrow> bool" where
  "window_inv eng \<longleftrightarrow> eng_accepted eng = set (eng_accepted_order eng) \<and> distinct (eng_accepted_order eng)
     \<and> length (eng_accepted_order eng) \<le> pol_max_record_ids (eng_policy eng)"

lemma window_inv_intake: "same_intake a b \<Longrightarrow> window_inv b \<Longrightarrow> window_inv a"
  by (simp add: window_inv_def same_intake_def)

lemma expire_accepted_window:
  "distinct order \<Longrightarrow> expire_accepted b (set order) order
    = (set (drop (length order - b) order), drop (length order - b) order)"
proof (induction b "set order" order rule: expire_accepted.induct)
  case (2 b x order)
  then have "set (x # order) - {x} = set order" by auto
  with 2 show ?case by (auto simp: Suc_diff_le not_less)
qed simp

lemma window_inv_accept:
  assumes "window_inv eng" "rec_id record \<notin> eng_accepted eng"
  shows "window_inv (accept_record record t eng)"
proof -
  let ?order = "eng_accepted_order eng @ [rec_id record]"
  have d: "distinct ?order" and s: "insert (rec_id record) (eng_accepted eng) = set ?order"
    using assms by (auto simp: window_inv_def)
  show ?thesis
    unfolding accept_record_def s expire_accepted_window [OF d] using d
    by (simp add: window_inv_def Let_def del: drop_append set_append)
qed

interpretation window: engine_preserves window_inv
proof
  fix eng :: CombatEngine and due t rcd second fe i
  show "window_inv eng \<Longrightarrow> window_inv (finish_ending t due eng)" by (rule window_inv_intake [OF same_intake_finish])
  show "window_inv eng \<Longrightarrow> window_inv (refresh_snapshot i eng)" by (rule window_inv_intake [OF same_intake_refresh])
  show "window_inv eng \<Longrightarrow> window_inv (process_damage (length (eng_ledger eng)) (push_fact rcd second t fe eng))"
    by (rule window_inv_intake [OF same_intake_damage]) (simp add: window_inv_def push_fact_def)
  show "window_inv eng \<Longrightarrow> window_inv (process_attempt (length (eng_ledger eng)) (push_fact rcd second t fe eng))"
    by (rule window_inv_intake [OF same_intake_attempt]) (simp add: window_inv_def push_fact_def)
  show "window_inv eng \<Longrightarrow> window_inv (process_slain (length (eng_ledger eng)) (push_fact rcd second t fe eng))"
    by (rule window_inv_intake [OF same_intake_slain]) (simp add: window_inv_def push_fact_def)
qed (auto simp: window_inv_def register_source_def source_removed_def mark_gap_def diagnose_def
    note_stable_eof_def add_ownership_def withdraw_encounters_def close_sources_def enter_ending_def
    engine_new_def Let_def split: sum.splits prod.splits
    dest: window_inv_accept [unfolded window_inv_def, rotated])

section \<open>Source clocks\<close>

definition clock_ok :: "SourceState \<Rightarrow> bool" where
  "clock_ok s = is_none_or (ss_closed_through s) (\<lambda>c. is_some_and (ss_observed s) (\<lambda>o'. c \<le> o'))"

definition clock_inv :: "CombatEngine \<Rightarrow> bool" where
  "clock_inv eng \<longleftrightarrow> bm_wf (eng_sources eng)
     \<and> (\<forall>i s. bm_get (eng_sources eng) i = Some s \<longrightarrow> ls_id (ss_source s) = i \<and> clock_ok s)"

lemma clock_inv_intake: "same_intake a b \<Longrightarrow> clock_inv b \<Longrightarrow> clock_inv a"
  by (simp add: clock_inv_def same_intake_def)

lemma clock_ok_steps:
  "clock_ok (source_state_new source g t)"
  "clock_ok s \<Longrightarrow> clock_ok (source_reregister source g t s)"
  "clock_ok s \<Longrightarrow> clock_ok (source_gap g r s)"
  "clock_ok s \<Longrightarrow> clock_ok (source_stable_eof t s)"
  "clock_ok s \<Longrightarrow> clock_ok (close_at_eof p t s)"
  "clock_ok s \<Longrightarrow> clock_ok (s\<lparr>ss_present := b\<rparr>)" "clock_ok s \<Longrightarrow> clock_ok (s\<lparr>ss_zone := z\<rparr>)"
  by (auto simp: clock_ok_def source_state_new_def source_reregister_def source_gap_def
      source_stable_eof_def close_at_eof_def Let_def split: option.splits)

lemma clock_ok_progress: "clock_ok s \<Longrightarrow> clock_ok (source_progress record t s)"
  by (cases "ss_closed_through s"; cases "ss_observed s")
    (auto simp: clock_ok_def source_progress_def eq_second_checked_add_def i64_checked_def Let_def
      split: option.splits)

lemma clock_source_kept [simp]:
  "ss_source (source_state_new source g t) = source" "ss_source (source_reregister source g t s) = source"
  "ss_source (source_gap g r s) = ss_source s" "ss_source (source_stable_eof t s) = ss_source s"
  "ss_source (close_at_eof p t s) = ss_source s" "ss_source (source_progress record t s) = ss_source s"
  by (auto simp: source_state_new_def source_reregister_def source_gap_def source_stable_eof_def
      close_at_eof_def source_progress_def Let_def split: option.splits)

lemma clock_inv_modify:
  assumes "clock_inv eng" "\<And>s. clock_ok s \<Longrightarrow> clock_ok (f s)" "\<And>s. ss_source (f s) = ss_source s"
    "eng_sources eng' = bm_modify i f (eng_sources eng)"
  shows "clock_inv eng'"
  using assms by (auto simp: clock_inv_def)

interpretation source_clocks: engine_preserves clock_inv
proof
  fix eng :: CombatEngine and due t rcd second fe i sid g r source z
  note mod = clock_inv_modify [where eng = eng]
  show "clock_inv eng \<Longrightarrow> clock_inv (finish_ending t due eng)" by (rule clock_inv_intake [OF same_intake_finish])
  show "clock_inv eng \<Longrightarrow> clock_inv (refresh_snapshot i eng)" by (rule clock_inv_intake [OF same_intake_refresh])
  show "clock_inv eng \<Longrightarrow> clock_inv (process_damage (length (eng_ledger eng)) (push_fact rcd second t fe eng))"
    by (rule clock_inv_intake [OF same_intake_damage]) (simp add: clock_inv_def push_fact_def)
  show "clock_inv eng \<Longrightarrow> clock_inv (process_attempt (length (eng_ledger eng)) (push_fact rcd second t fe eng))"
    by (rule clock_inv_intake [OF same_intake_attempt]) (simp add: clock_inv_def push_fact_def)
  show "clock_inv eng \<Longrightarrow> clock_inv (process_slain (length (eng_ledger eng)) (push_fact rcd second t fe eng))"
    by (rule clock_inv_intake [OF same_intake_slain]) (simp add: clock_inv_def push_fact_def)
  show "clock_inv eng \<Longrightarrow> clock_inv (register_source source g t eng)"
    by (auto simp: clock_inv_def register_source_def Let_def clock_ok_steps split: option.splits)
  show "clock_inv eng \<Longrightarrow> clock_inv (source_removed sid eng)"
    by (rule mod) (simp_all add: source_removed_def clock_ok_steps)
  show "clock_inv eng \<Longrightarrow> clock_inv (mark_gap sid g r eng)"
    by (rule mod [where f = "source_gap g r"]) (simp_all add: mark_gap_def diagnose_def clock_ok_steps)
  show "clock_inv eng \<Longrightarrow> clock_inv (note_stable_eof sid g t eng)"
    by (rule mod [where f = "\<lambda>s. if ss_generation s \<noteq> g then s else source_stable_eof t s"])
      (simp_all add: note_stable_eof_def clock_ok_steps)
  show "clock_inv eng \<Longrightarrow> clock_inv (accept_record rcd t eng)"
    by (rule mod [where f = "source_progress rcd t"])
      (simp_all add: accept_record_def Let_def clock_ok_progress split: prod.splits)
  show "clock_inv eng \<Longrightarrow> clock_inv (on_source sid (\<lambda>s. s\<lparr>ss_zone := z\<rparr>) eng)"
    by (rule mod [where f = "\<lambda>s. s\<lparr>ss_zone := z\<rparr>"]) (simp_all add: clock_ok_steps)
  show "clock_inv eng \<Longrightarrow> clock_inv (close_sources t eng)"
    by (auto simp: clock_inv_def close_sources_def clock_ok_steps)
qed (auto simp: clock_inv_def diagnose_def add_ownership_def withdraw_encounters_def enter_ending_def
    engine_new_def Let_def split: sum.splits prod.splits)

section \<open>Bounds\<close>

definition bounds_inv :: "CombatEngine \<Rightarrow> bool" where
  "bounds_inv eng \<longleftrightarrow> policy_validate (eng_policy eng) = Inr ()
     \<and> length (eng_encounters eng) \<le> pol_max_encounters (eng_policy eng)
     \<and> length (eng_diagnostics eng) \<le> pol_max_diagnostics (eng_policy eng)"

lemma length_bm_map_values [simp]: "length (bm_map_values f m) = length m"
  by (simp add: bm_map_values_def)

lemma length_bm_modify [simp]: "length (bm_modify k f m) = length m"
  by (simp add: bm_modify_def)

lemma length_bm_remove: "length (bm_remove k m) \<le> length m"
  by (simp add: bm_remove_def)

lemma length_bm_remove_present: "bm_get m k \<noteq> None \<Longrightarrow> length (bm_remove k m) < length m"
  unfolding bm_remove_def bm_get_def
  by (rule length_filter_less [of "(k, the (map_of m k))"]) (auto dest: map_of_SomeD)

lemma bounds_inv_same:
  "bounds_inv b \<Longrightarrow> eng_policy a = eng_policy b \<Longrightarrow> length (eng_encounters a) \<le> length (eng_encounters b) \<Longrightarrow>
   eng_diagnostics a = eng_diagnostics b \<Longrightarrow> bounds_inv a"
  by (simp add: bounds_inv_def)

lemma bounds_diagnose: "bounds_inv eng \<Longrightarrow> bounds_inv (diagnose m eng)"
  by (auto simp: bounds_inv_def diagnose_def policy_validate_def split: if_splits)

definition shrinks :: "CombatEngine \<Rightarrow> CombatEngine \<Rightarrow> bool" where
  "shrinks a b \<longleftrightarrow> eng_policy a = eng_policy b \<and> length (eng_encounters a) \<le> length (eng_encounters b)
     \<and> eng_diagnostics a = eng_diagnostics b"

lemma bounds_shrinks: "shrinks a b \<Longrightarrow> bounds_inv b \<Longrightarrow> bounds_inv a"
  by (auto simp: shrinks_def intro: bounds_inv_same)

lemma shrinks_trans: "shrinks a b \<Longrightarrow> shrinks b c \<Longrightarrow> shrinks a c"
  by (simp add: shrinks_def)

lemma shrinks_refl [simp, intro]: "shrinks a a"
  by (simp add: shrinks_def)

lemma shrinks_fold: "(\<And>x e. shrinks (f x e) e) \<Longrightarrow> shrinks (fold f xs eng) eng"
  by (induction xs arbitrary: eng) (auto intro: shrinks_trans)

lemma shrinks_promote: "shrinks (promote_prior_facts i s t a eng) eng"
  unfolding promote_prior_facts_def
  by (rule shrinks_fold) (simp add: shrinks_def promote_fact_def Let_def)

lemma shrinks_merge: "shrinks (snd (merge_encounters l r eng)) eng"
proof -
  let ?m = "eng_encounters eng"
  have "length (bm_insert i e (bm_remove j (bm_remove i ?m))) \<le> length ?m"
    if "bm_get ?m i \<noteq> None" for i j e
    using length_bm_insert [of i e "bm_remove j (bm_remove i ?m)"] length_bm_remove [of j "bm_remove i ?m"]
      length_bm_remove_present [OF that] by linarith
  then show ?thesis by (simp add: merge_encounters_def shrinks_def Let_def split: option.splits)
qed

lemma shrinks_route: "shrinks (snd (route_damage lf dc eng)) eng"
  using shrinks_merge by (auto simp: route_damage_def Let_def split: option.splits prod.splits) (metis snd_conv)

lemma shrinks_record: "shrinks (record_damage k lf dc i eng) eng"
proof -
  have upd: "shrinks (eng\<lparr>eng_encounters := bm_modify i f (bm_modify i g (eng_encounters eng)),
      eng_assignments := b, eng_source_active := c\<rparr>) eng" for f g b c
    by (simp add: shrinks_def)
  show ?thesis
    unfolding record_damage_def Let_def add_source_member_def
    using shrinks_trans [OF shrinks_promote upd] upd by auto
qed

lemma bounds_start: "bounds_inv e \<Longrightarrow> start_encounter lf dc e = Inr (i, e') \<Longrightarrow> bounds_inv e'"
  using length_bm_insert [of i "encounter_new e lf i" "eng_encounters e"]
  by (auto simp: start_encounter_def bounds_inv_def Let_def split: if_splits)

lemma bounds_damage: "bounds_inv eng \<Longrightarrow> bounds_inv (process_damage k eng)"
proof (rule process_damage_rule [where Q = bounds_inv])
  assume inv: "bounds_inv eng"
  show "bounds_inv (snd (route_damage lf dc eng))" for lf dc by (rule bounds_shrinks [OF shrinks_route inv])
  show "bounds_inv (snd (snd (resume_or_leave lf dc r)))" if "bounds_inv (snd r)" for lf dc r
    using that by (cases r)
      (simp add: resume_or_leave_def bounds_inv_def Let_def split: option.splits PhaseState.splits)
  show "bounds_inv (record_damage k (eng_ledger eng ! k) dc i e)" if "bounds_inv e" for dc i e
    by (rule bounds_shrinks [OF shrinks_record that])
qed (auto intro: bounds_diagnose bounds_start)

interpretation bounds: engine_preserves bounds_inv
proof
  fix eng :: CombatEngine and due t rcd second fe i sid g r source
  have pushed: "bounds_inv (push_fact rcd second t fe eng)" if "bounds_inv eng"
    using that by (simp add: bounds_inv_def push_fact_def)
  show "bounds_inv eng \<Longrightarrow> bounds_inv (process_damage (length (eng_ledger eng)) (push_fact rcd second t fe eng))"
    by (intro bounds_damage pushed)
  show "bounds_inv eng \<Longrightarrow> bounds_inv (process_attempt (length (eng_ledger eng)) (push_fact rcd second t fe eng))"
    by (rule bounds_shrinks [OF _ pushed])
      (auto simp: shrinks_def process_attempt_def Let_def split: FactEvent.splits option.splits)
  show "bounds_inv eng \<Longrightarrow> bounds_inv (process_slain (length (eng_ledger eng)) (push_fact rcd second t fe eng))"
    by (rule bounds_shrinks [OF _ pushed])
      (auto simp: shrinks_def process_slain_def add_source_member_def enter_ending_def Let_def
        split: FactEvent.splits option.splits)
  show "bounds_inv eng \<Longrightarrow> bounds_inv (finish_ending t due eng)"
    by (rule bounds_shrinks) (auto simp: shrinks_def finish_ending_def finalize_def Let_def split: prod.splits option.splits)
  show "bounds_inv eng \<Longrightarrow> bounds_inv (refresh_snapshot i eng)"
    by (rule bounds_shrinks) (auto simp: shrinks_def refresh_snapshot_def split: option.splits)
  show "bounds_inv eng \<Longrightarrow> bounds_inv (mark_gap sid g r eng)"
    unfolding mark_gap_def by (rule bounds_diagnose) (simp add: bounds_inv_def mark_partial_def)
  show "bounds_inv eng \<Longrightarrow> bounds_inv (diagnose m eng)" for m by (rule bounds_diagnose)
  show "bounds_inv eng \<Longrightarrow> bounds_inv (withdraw_encounters eng)"
    by (rule bounds_inv_same [OF bounds_diagnose]) (simp_all add: withdraw_encounters_def)
  show "bounds_inv eng \<Longrightarrow> bounds_inv (eng\<lparr>eng_encounters := bm_remove i (eng_encounters eng)\<rparr>)"
    by (rule bounds_shrinks) (simp_all add: shrinks_def length_bm_remove)
qed (auto simp: bounds_inv_def register_source_def source_removed_def mark_partial_def
    note_stable_eof_def accept_record_def add_ownership_def close_sources_def enter_ending_def
    engine_new_def Let_def split: sum.splits prod.splits)

section \<open>The ledger\<close>

text \<open>
  Every fact an encounter counts is in the ledger, is counted once in it, and is assigned to
  this encounter and so to no other.
\<close>

definition ledger_inv :: "CombatEngine \<Rightarrow> bool" where
  "ledger_inv eng \<longleftrightarrow> bm_wf (eng_encounters eng)
     \<and> (\<forall>k. bm_get (eng_assignments eng) k \<noteq> None \<longrightarrow> k < length (eng_ledger eng))
     \<and> (\<forall>i e. bm_get (eng_encounters eng) i = Some e \<longrightarrow> enc_id e = i \<and> distinct (enc_facts e)
          \<and> (\<forall>k \<in> set (enc_facts e). bm_get (eng_assignments eng) k = Some i))"

lemma ledger_inv_modify:
  assumes "ledger_inv eng" "\<And>e. enc_id (f e) = enc_id e" "\<And>e. enc_facts (f e) = enc_facts e"
    "eng_encounters eng' = bm_modify i f (eng_encounters eng)"
    "eng_assignments eng' = eng_assignments eng" "length (eng_ledger eng') \<ge> length (eng_ledger eng)"
  shows "ledger_inv eng'"
  using assms unfolding ledger_inv_def by (auto dest: less_le_trans)

lemma ledger_inv_on:
  "ledger_inv eng \<Longrightarrow> (\<And>e. enc_id (f e) = enc_id e) \<Longrightarrow> (\<And>e. enc_facts (f e) = enc_facts e) \<Longrightarrow>
   ledger_inv (on_encounter i f eng)"
  by (rule ledger_inv_modify [where i = i and f = f and eng = eng]) auto

lemma ledger_inv_same:
  assumes "ledger_inv eng" "eng_encounters eng' = eng_encounters eng"
    "eng_assignments eng' = eng_assignments eng" "length (eng_ledger eng') \<ge> length (eng_ledger eng)"
  shows "ledger_inv eng'"
  using assms unfolding ledger_inv_def by (auto dest: less_le_trans)

lemma ledger_inv_map:
  assumes "ledger_inv eng" "\<And>e. enc_id (f e) = enc_id e" "\<And>e. enc_facts (f e) = enc_facts e"
    "eng_encounters eng' = bm_map_values f (eng_encounters eng)"
    "eng_assignments eng' = eng_assignments eng" "length (eng_ledger eng') \<ge> length (eng_ledger eng)"
  shows "ledger_inv eng'"
  using assms unfolding ledger_inv_def by (auto dest: less_le_trans)

text \<open>Counting a fact that no encounter has yet.\<close>

lemma ledger_inv_assign:
  assumes inv: "ledger_inv eng" and new: "bm_get (eng_assignments eng) k = None" "k < length (eng_ledger eng)"
    and f: "\<And>e. enc_id (f e) = enc_id e" "\<And>e. enc_facts (f e) = enc_facts e @ [k]"
    and eng': "eng_encounters eng' = bm_modify i f (eng_encounters eng)"
      "eng_assignments eng' = bm_insert k i (eng_assignments eng)" "eng_ledger eng' = eng_ledger eng"
  shows "ledger_inv eng'"
proof -
  have "k \<notin> set (enc_facts e)" if "bm_get (eng_encounters eng) j = Some e" for j e
    using inv that new(1) by (auto simp: ledger_inv_def)
  moreover have "k' \<noteq> k" if "bm_get (eng_encounters eng) j = Some e" "k' \<in> set (enc_facts e)" for j e k'
    using calculation that by auto
  ultimately show ?thesis
    using inv new(2) unfolding ledger_inv_def eng' by (auto simp: f)
qed

lemma ledger_inv_promote_list:
  assumes "ledger_inv eng" "distinct ks"
    "\<forall>k \<in> set ks. bm_get (eng_assignments eng) k = None \<and> k < length (eng_ledger eng)"
  shows "ledger_inv (fold (promote_fact i) ks eng)"
  using assms
proof (induction ks arbitrary: eng)
  case (Cons k ks)
  have "ledger_inv (promote_fact i k eng)"
    by (rule ledger_inv_assign [OF Cons.prems(1), where k = k])
      (use Cons.prems in \<open>auto simp: promote_fact_def Let_def\<close>)
  moreover have "eng_ledger (promote_fact i k eng) = eng_ledger eng"
    "\<And>k'. k' \<noteq> k \<Longrightarrow> bm_get (eng_assignments (promote_fact i k eng)) k' = bm_get (eng_assignments eng) k'"
    by (simp_all add: promote_fact_def Let_def)
  moreover have "bm_get (eng_assignments (promote_fact i k eng)) k' = None" if "k' \<in> set ks" for k'
    using calculation(3) [of k'] Cons.prems(2,3) that by auto
  ultimately show ?case using Cons.IH [of "promote_fact i k eng"] Cons.prems by simp
qed simp

lemma ledger_inv_promote: "ledger_inv eng \<Longrightarrow> ledger_inv (promote_prior_facts i s t a eng)"
  unfolding promote_prior_facts_def
  by (rule ledger_inv_promote_list) (auto simp: promotable_def Let_def bm_contains_def)

text \<open>Merging two encounters hands the facts of one to the other.\<close>

lemma distinct_dedup_sorted: "sorted xs \<Longrightarrow> distinct (remdups_adj (xs :: 'a::linorder list))"
  by (induction xs rule: remdups_adj.induct) fastforce+

lemma sorted_dedup_distinct: "distinct (remdups_adj (sort (xs :: 'a::linorder list)))"
  by (rule distinct_dedup_sorted) simp

lemma ledger_inv_merge: "ledger_inv eng \<Longrightarrow> ledger_inv (snd (merge_encounters l r eng))"
proof -
  assume inv: "ledger_inv eng"
  have "ledger_inv (eng\<lparr>eng_encounters := bm_insert c (merge_states x y) (bm_remove d (bm_remove c (eng_encounters eng))),
      eng_assignments := bm_map_values (\<lambda>a. if a = d then c else a) (eng_assignments eng), eng_source_active := sa\<rparr>)"
    if "c \<noteq> d" "bm_get (eng_encounters eng) c = Some x" "bm_get (eng_encounters eng) d = Some y" for c d x y sa
    using inv that sorted_dedup_distinct unfolding ledger_inv_def
    by (auto simp: merge_states_def split: if_splits)
  then show ?thesis
    using inv by (auto simp: merge_encounters_def Let_def split: option.splits)
qed

text \<open>Neither routing nor starting an encounter changes which facts are assigned.\<close>

definition same_assigned :: "CombatEngine \<Rightarrow> CombatEngine \<Rightarrow> bool" where
  "same_assigned a b \<longleftrightarrow> eng_ledger a = eng_ledger b
     \<and> (\<forall>k. bm_get (eng_assignments a) k = None \<longleftrightarrow> bm_get (eng_assignments b) k = None)"

lemma route_assigned: "same_assigned (snd (route_damage lf dc eng)) eng"
  by (simp add: route_damage_def merge_encounters_def same_assigned_def Let_def split: option.splits prod.splits)

lemma ledger_inv_route: "ledger_inv eng \<Longrightarrow> ledger_inv (snd (route_damage lf dc eng))"
  using ledger_inv_merge [of eng]
  by (auto simp: route_damage_def Let_def split: option.splits prod.splits) (metis snd_conv)

lemma ledger_inv_resume:
  assumes "ledger_inv (snd r)"
  shows "ledger_inv (snd (snd (resume_or_leave lf dc r)))"
    and "same_assigned (snd (snd (resume_or_leave lf dc r))) (snd r)"
proof -
  obtain enc eng where r: "r = (enc, eng)" by fastforce
  have "ledger_inv (on_encounter i (resume_target t) eng)" for i t
    by (rule ledger_inv_modify [of eng "resume_target t" _ i]) (use assms r in \<open>simp_all add: resume_target_def\<close>)
  then show "ledger_inv (snd (snd (resume_or_leave lf dc r)))"
    using assms by (auto simp: r resume_or_leave_def Let_def split: option.splits PhaseState.splits)
  show "same_assigned (snd (snd (resume_or_leave lf dc r))) (snd r)"
    by (simp add: r resume_or_leave_def same_assigned_def Let_def split: option.splits PhaseState.splits)
qed

lemma ledger_inv_start:
  "ledger_inv e \<Longrightarrow> start_encounter lf dc e = Inr (i, e') \<Longrightarrow> ledger_inv e' \<and> same_assigned e' e"
  by (auto simp: start_encounter_def ledger_inv_def same_assigned_def encounter_new_def Let_def split: if_splits)

lemma join_source_kept [simp]:
  "enc_facts (join_source eng s e) = enc_facts e" "enc_id (join_source eng s e) = enc_id e"
  "enc_phase (join_source eng s e) = enc_phase e"
  by (simp_all add: join_source_def Let_def)

lemma contribute_kept [simp]:
  "enc_facts (contribute_target lf dc e) = enc_facts e" "enc_id (contribute_target lf dc e) = enc_id e"
  "enc_facts (sustain lf e) = enc_facts e" "enc_id (sustain lf e) = enc_id e"
  by (simp_all add: contribute_target_def sustain_def Let_def)

lemma bm_modify_modify: "bm_modify i f (bm_modify i g m) = bm_modify i (\<lambda>e. f (g e)) m"
  by (simp add: bm_modify_def case_prod_beta)

lemma ledger_inv_record:
  assumes "ledger_inv eng" "bm_get (eng_assignments eng) k = None" "k < length (eng_ledger eng)"
  shows "ledger_inv (record_damage k lf dc i eng)"
proof -
  have "ledger_inv (eng\<lparr>eng_encounters := bm_modify i f (bm_modify i (join_source eng s) (eng_encounters eng)),
      eng_assignments := bm_insert k i (eng_assignments eng), eng_source_active := sa\<rparr>)"
    if "\<And>e. enc_id (f e) = enc_id e" "\<And>e. enc_facts (f e) = enc_facts e @ [k]" for f s sa
    unfolding bm_modify_modify
    by (rule ledger_inv_assign [OF assms, where f = "\<lambda>e. f (join_source eng s e)"]) (simp_all add: that)
  note assigned = this
  show ?thesis
    unfolding record_damage_def Let_def add_source_member_def
    using assms(1) by (auto intro!: ledger_inv_promote assigned)
qed

lemma ledger_inv_damage:
  assumes "ledger_inv eng" "bm_get (eng_assignments eng) k = None" "k < length (eng_ledger eng)"
  shows "ledger_inv (process_damage k eng)"
proof (rule process_damage_rule [where Q = "\<lambda>e. ledger_inv e \<and> same_assigned e eng"])
  have tr: "same_assigned a b \<Longrightarrow> same_assigned b c \<Longrightarrow> same_assigned a c" for a b c
    by (simp add: same_assigned_def)
  show "ledger_inv (snd (route_damage lf dc eng)) \<and> same_assigned (snd (route_damage lf dc eng)) eng" for lf dc
    using ledger_inv_route [OF assms(1)] route_assigned by blast
  show "ledger_inv (snd (snd (resume_or_leave lf dc r))) \<and> same_assigned (snd (snd (resume_or_leave lf dc r))) eng"
    if "ledger_inv (snd r) \<and> same_assigned (snd r) eng" for lf dc r
    using ledger_inv_resume that tr by blast
  show "ledger_inv e' \<and> same_assigned e' eng"
    if "ledger_inv e \<and> same_assigned e eng" "start_encounter lf dc e = Inr (i, e')" for lf dc e i e'
    using ledger_inv_start that tr by blast
  show "ledger_inv (record_damage k (eng_ledger eng ! k) dc i e)" if "ledger_inv e \<and> same_assigned e eng" for dc i e
    using that assms(2,3) by (intro ledger_inv_record) (auto simp: same_assigned_def)
  show "ledger_inv (diagnose m e)" if "ledger_inv e \<and> same_assigned e eng" for m e
    using that by (auto simp: diagnose_def intro: ledger_inv_same)
qed (use assms in auto)

lemma ledger_inv_attempt:
  assumes "ledger_inv eng" "bm_get (eng_assignments eng) k = None" "k < length (eng_ledger eng)"
  shows "ledger_inv (process_attempt k eng)"
proof -
  have "ledger_inv (eng\<lparr>eng_encounters := bm_modify i f (eng_encounters eng),
      eng_assignments := bm_insert k i (eng_assignments eng)\<rparr>)"
    if "\<And>e. enc_id (f e) = enc_id e" "\<And>e. enc_facts (f e) = enc_facts e @ [k]" for i f
    by (rule ledger_inv_assign [OF assms, where f = f]) (simp_all add: that)
  then show ?thesis using assms(1)
    by (auto simp: process_attempt_def Let_def split: FactEvent.splits option.splits PhaseState.splits EndReason.splits)
qed

lemma ledger_inv_ending: "ledger_inv eng \<Longrightarrow> ledger_inv (enter_ending i r t c eng)"
  unfolding enter_ending_def by (rule ledger_inv_modify) auto

lemma ledger_inv_slain:
  assumes "ledger_inv eng" "bm_get (eng_assignments eng) k = None" "k < length (eng_ledger eng)"
  shows "ledger_inv (process_slain k eng)"
proof -
  have "ledger_inv (eng\<lparr>eng_encounters := bm_modify i f (bm_modify i (join_source eng s) (eng_encounters eng)),
      eng_assignments := bm_insert k i (eng_assignments eng)\<rparr>)"
    if "\<And>e. enc_id (f e) = enc_id e" "\<And>e. enc_facts (f e) = enc_facts e @ [k]" for f s i
    unfolding bm_modify_modify
    by (rule ledger_inv_assign [OF assms, where f = "\<lambda>e. f (join_source eng s e)"]) (simp_all add: that)
  note assigned = this
  show ?thesis
    unfolding process_slain_def add_source_member_def Let_def using assms(1)
    by (auto intro!: ledger_inv_ending assigned split: FactEvent.splits option.splits)
qed

text \<open>Finalizing changes one encounter, which becomes held.\<close>

lemma finalize_modifies:
  obtains f where "eng_encounters (finalize i r t eng) = bm_modify i f (eng_encounters eng)"
    "\<And>e. enc_id (f e) = enc_id e" "\<And>e. enc_facts (f e) = enc_facts e"
    "\<And>e. enc_phase (f e) = Held r (mono_saturating_add t (pol_held_ms (eng_policy eng)))"
    "eng_assignments (finalize i r t eng) = eng_assignments eng"
proof -
  let ?u = "mono_saturating_add t (pol_held_ms (eng_policy eng))"
  let ?h = "\<lambda>e. e\<lparr>enc_phase := Held r ?u\<rparr>"
  let ?eng1 = "on_encounter i ?h eng"
  show thesis
  proof (cases "Option.bind (bm_get (eng_encounters ?eng1) i) (\<lambda>e. compute_snapshot ?eng1 e 0)")
    case None
    then show ?thesis
      by (intro that [of ?h]) (auto simp: finalize_def Let_def split: option.splits)
  next
    case (Some s)
    define s1 where "s1 = s\<lparr>snap_phase := PhaseHeld, snap_end_reason := Some r, snap_held_until := Some ?u\<rparr>"
    define s2 where "s2 = s1\<lparr>snap_revision := encounter_revision s1\<rparr>"
    let ?g = "\<lambda>e. (?h e)\<lparr>enc_revision := snap_revision s2, enc_last_snapshot := Some s2, enc_frozen := Some s2\<rparr>"
    from Some show ?thesis
      by (intro that [of ?g])
        (auto simp: finalize_def Let_def bm_modify_modify s1_def s2_def split: option.splits)
  qed
qed

lemma ledger_inv_finish: "ledger_inv eng \<Longrightarrow> ledger_inv (finish_ending t due eng)"
proof -
  have fin: "ledger_inv (finalize i r t e)" if "ledger_inv e" for i r e
  proof -
    obtain f where "eng_encounters (finalize i r t e) = bm_modify i f (eng_encounters e)"
      "\<And>x. enc_id (f x) = enc_id x" "\<And>x. enc_facts (f x) = enc_facts x"
      "\<And>x. enc_phase (f x) = Held r (mono_saturating_add t (pol_held_ms (eng_policy e)))"
      "eng_assignments (finalize i r t e) = eng_assignments e" by (rule finalize_modifies [of i r t e]) blast
    then show ?thesis using same_intake_finalize [of i r t e]
      by (intro ledger_inv_modify [OF that, where f = f and i = i]) (simp_all add: same_intake_def)
  qed
  have "ledger_inv (on_encounter i (\<lambda>e. e\<lparr>enc_partial_sources := g e\<rparr>) e)" if "ledger_inv e" for i g e
    by (rule ledger_inv_on [OF that]) auto
  then show "ledger_inv eng \<Longrightarrow> ledger_inv (finish_ending t due eng)"
    using fin by (auto simp: finish_ending_def split: prod.splits)
qed

lemma fresh_fact:
  "ledger_inv eng \<Longrightarrow> ledger_inv (push_fact rcd second t fe eng)
     \<and> bm_get (eng_assignments (push_fact rcd second t fe eng)) (length (eng_ledger eng)) = None
     \<and> length (eng_ledger eng) < length (eng_ledger (push_fact rcd second t fe eng))"
  by (auto simp: push_fact_def ledger_inv_def)

lemmas ledger_inv_process = ledger_inv_damage ledger_inv_attempt ledger_inv_slain

interpretation ledger: engine_preserves ledger_inv
proof
  fix eng :: CombatEngine and due t rcd second fe i sid g r source
  assume inv: "ledger_inv eng"
  note same = ledger_inv_same [OF inv]
  note pushed = fresh_fact [OF inv, of rcd second t fe]
  show "ledger_inv (process_damage (length (eng_ledger eng)) (push_fact rcd second t fe eng))"
    "ledger_inv (process_attempt (length (eng_ledger eng)) (push_fact rcd second t fe eng))"
    "ledger_inv (process_slain (length (eng_ledger eng)) (push_fact rcd second t fe eng))"
    using pushed by (simp_all add: ledger_inv_process)
  show "ledger_inv (finish_ending t due eng)" by (rule ledger_inv_finish [OF inv])
  show "ledger_inv (refresh_snapshot i eng)"
    using inv by (auto simp: refresh_snapshot_def intro!: ledger_inv_on split: option.splits)
  show "ledger_inv (register_source source g t eng)"
    by (rule ledger_inv_map [OF inv]) (auto simp: register_source_def Let_def)
  show "ledger_inv (source_removed sid eng)"
    by (rule ledger_inv_map [OF inv]) (auto simp: source_removed_def mark_partial_def)
  show "ledger_inv (mark_gap sid g r eng)"
    by (rule ledger_inv_map [OF inv]) (auto simp: mark_gap_def diagnose_def mark_partial_def)
  show "ledger_inv (eng\<lparr>eng_encounters := bm_remove i (eng_encounters eng)\<rparr>)"
    using inv by (auto simp: ledger_inv_def)
  show "ledger_inv (enter_ending i reason t cutoff eng)" for reason cutoff by (rule ledger_inv_ending [OF inv])
  show "ledger_inv (withdraw_encounters eng)" by (simp add: ledger_inv_def withdraw_encounters_def)
  show "ledger_inv (add_ownership source sid owner second eng)" for owner
    by (rule same) (simp_all add: add_ownership_def split: prod.splits)
  show "ledger_inv (note_stable_eof sid g t eng)" "ledger_inv (accept_record rcd t eng)"
    "ledger_inv (close_sources t eng)" "ledger_inv (diagnose sid eng)"
    by (rule same; simp add: note_stable_eof_def accept_record_def close_sources_def diagnose_def split: prod.splits)+
  show "eng_encounters eng = [] \<Longrightarrow> ledger_inv (eng\<lparr>eng_ledger := [], eng_assignments := []\<rparr>)"
    by (simp add: ledger_inv_def)
qed (auto simp: engine_new_def ledger_inv_def split: sum.splits)

section \<open>Theorems\<close>

definition sample_new :: CombatEngine where
  "sample_new = \<lparr>eng_policy = mvp_v1, eng_sources = [], eng_accepted = {}, eng_accepted_order = [],
     eng_occurrences = [], eng_ledger = [], eng_assignments = [], eng_encounters = [],
     eng_source_active = [], eng_verified_players = [], eng_ownership = [],
     eng_current_book = default_book, eng_now = 0, eng_diagnostics = []\<rparr>"

definition sample_record :: CombatRecord where
  "sample_record = \<lparr>rec_id = \<lparr>rid_source = ''a'', rid_generation = 0, rid_sequence = 0\<rparr>,
     rec_source = sample_source ''a'' ''Ann'', rec_eq_time = Some 5,
     rec_events = [CombatLog (Damage (case fact_event (sample_hit (sample_source ''a'' ''Ann'') observed_you)
       of FactDamage d \<Rightarrow> d))]\<rparr>"

abbreviation sample_run :: CombatEngine where
  "sample_run \<equiv> snd (apply_engine 1 (Record sample_record) sample_new)"

lemma sample_new_reachable: "reachable_engine mvp_v1 sample_new"
  by (rule reach_new) (simp add: engine_new_def mvp_v1_valid sample_new_def)

lemma sample_run_reachable: "reachable_engine mvp_v1 sample_run"
  by (rule reach_apply [OF sample_new_reachable])

lemma owned_disjoint:
  assumes "distinct (map fst m)" "\<forall>(i, e) \<in> set m. distinct (facts e) \<and> (\<forall>k \<in> set (facts e). owner k = Some i)"
  shows "distinct (concat (map facts (map snd m)))"
  using assms by (induction m) fastforce+

text \<open>
  C1. No damage is counted twice: in every reachable state the fact lists of all encounters
  together hold no fact twice, and only facts of the ledger. Merging encounters, promoting
  earlier facts and forgetting expired ones keep it so.
\<close>

theorem facts_counted_once:
  assumes "reachable_engine policy eng"
  shows "distinct (concat (map enc_facts (bm_values (eng_encounters eng))))
    \<and> set (concat (map enc_facts (bm_values (eng_encounters eng)))) \<subseteq> {..<length (eng_ledger eng)}"
proof -
  have inv: "ledger_inv eng" by (rule ledger.reachable_preserves [OF assms])
  then have wf: "bm_wf (eng_encounters eng)" by (simp add: ledger_inv_def)
  have e: "distinct (enc_facts e)" "\<And>k. k \<in> set (enc_facts e) \<Longrightarrow> bm_get (eng_assignments eng) k = Some i"
    if "(i, e) \<in> set (eng_encounters eng)" for i e
    using inv bm_wf_get [OF wf that] by (auto simp: ledger_inv_def)
  have "distinct (concat (map enc_facts (bm_values (eng_encounters eng))))"
    by (rule owned_disjoint [where owner = "bm_get (eng_assignments eng)"])
      (use e bm_wf_distinct [OF wf] in auto)
  moreover have "k < length (eng_ledger eng)" if "(i, e) \<in> set (eng_encounters eng)" "k \<in> set (enc_facts e)" for i e k
    using inv e(2) [OF that] by (auto simp: ledger_inv_def)
  ultimately show ?thesis by auto
qed

theorem facts_counted_once_witness:
  "distinct (concat (map enc_facts (bm_values (eng_encounters sample_run))))"
  using facts_counted_once [OF sample_run_reachable] by blast

text \<open>
  C18. The engine's memory is bounded: the window of accepted record identities is exactly the
  queue that expires them, holds no identity twice and at most the policy's number, and the
  encounters and the diagnostics never exceed the policy's bounds.
\<close>

theorem memory_is_bounded:
  assumes "reachable_engine policy eng"
  shows "eng_accepted eng = set (eng_accepted_order eng) \<and> distinct (eng_accepted_order eng)
    \<and> length (eng_accepted_order eng) \<le> pol_max_record_ids (eng_policy eng)
    \<and> length (eng_encounters eng) \<le> pol_max_encounters (eng_policy eng)
    \<and> length (eng_diagnostics eng) \<le> pol_max_diagnostics (eng_policy eng)"
  using window.reachable_preserves [OF assms] bounds.reachable_preserves [OF assms]
  by (simp add: window_inv_def bounds_inv_def)

theorem memory_is_bounded_witness:
  "length (eng_encounters sample_run) \<le> pol_max_encounters (eng_policy sample_run)"
  using memory_is_bounded [OF sample_run_reachable] by blast

text \<open>
  A source is never closed beyond what was observed of it: in every reachable state the
  second through which a source counts as complete is at most the latest second it logged,
  and every source is filed under its own identity.
\<close>

theorem closed_never_passes_observed:
  assumes "reachable_engine policy eng"
  shows "list_all (\<lambda>(i, s). ls_id (ss_source s) = i \<and>
      (case ss_closed_through s of None \<Rightarrow> True
       | Some c \<Rightarrow> (case ss_observed s of None \<Rightarrow> False | Some seen \<Rightarrow> c \<le> seen))) (eng_sources eng)"
proof -
  have inv: "clock_inv eng" by (rule source_clocks.reachable_preserves [OF assms])
  then have wf: "bm_wf (eng_sources eng)" by (simp add: clock_inv_def)
  show ?thesis
    unfolding list_all_iff
    using inv bm_wf_get [OF wf]
    by (fastforce simp: clock_inv_def clock_ok_def is_none_or_def is_some_and_def split: option.splits)
qed

theorem closed_never_passes_observed_witness:
  "list_all (\<lambda>(i, s). ls_id (ss_source s) = i \<and>
      (case ss_closed_through s of None \<Rightarrow> True
       | Some c \<Rightarrow> (case ss_observed s of None \<Rightarrow> False | Some seen \<Rightarrow> c \<le> seen))) (eng_sources sample_run)"
  by (rule closed_never_passes_observed [OF sample_run_reachable])

section \<open>Replayed records\<close>

lemma accepted_dispatch: "eng_accepted (dispatch_event r second t event eng) = eng_accepted eng"
proof -
  have "eng_accepted (f eng') = eng_accepted eng" if "same_intake (f eng') eng'" "eng' = push_fact r second t fe eng" for f eng' fe
    using that by (simp add: same_intake_def push_fact_def)
  then show ?thesis
    using same_intake_damage same_intake_attempt same_intake_slain
    by (induction r second t event eng rule: dispatch_event.induct)
      (auto simp: add_ownership_def split: prod.splits)
qed

lemma accepted_events: "eng_accepted (apply_events r t eng) = eng_accepted eng"
proof -
  have "eng_accepted (fold (apply_event r second t) events e) = eng_accepted e" for second events e
    by (induction events arbitrary: e)
      (auto simp: apply_event_def is_replayed_occurrence_def accepted_dispatch Let_def split: prod.splits)
  then show ?thesis
    by (auto simp: apply_events_def withdraw_encounters_def diagnose_def Let_def split: option.splits)
qed

lemma accept_record_accepted:
  assumes "window_inv eng" "rec_id r \<notin> eng_accepted eng" "0 < pol_max_record_ids (eng_policy eng)"
  shows "rec_id r \<in> eng_accepted (accept_record r t eng)"
proof -
  let ?order = "eng_accepted_order eng @ [rec_id r]"
  have d: "distinct ?order" and s: "insert (rec_id r) (eng_accepted eng) = set ?order"
    using assms by (auto simp: window_inv_def)
  show ?thesis unfolding accept_record_def s expire_accepted_window [OF d] using assms(3) by simp
qed

text \<open>
  C15. Delivering a record again changes nothing. Once a record has been accepted in a
  reachable state, applying it once more is refused, and the only change is one diagnostic
  message; a record that is refused in the first place changes nothing but the diagnostics,
  after registering its source where that was still unknown.
\<close>

theorem redelivery_is_ignored:
  assumes "reachable_engine policy eng" "apply_record r t eng = (ok, eng')"
  shows "if ok then \<exists>m. apply_record r t' eng' = (False, diagnose m eng')
    else \<exists>m. eng' = diagnose m eng
      \<or> eng' = diagnose m (register_source (rec_source r) (rid_generation (rec_id r)) t eng)"
proof (cases ok)
  case False
  have cont: "bm_get (eng_sources (register_source (rec_source r) (rid_generation (rec_id r)) t eng)) (ls_id (rec_source r)) \<noteq> None"
    by (simp add: register_source_def Let_def)
  from assms(2) False cont show ?thesis
    by (auto simp: apply_record_def bm_contains_def Let_def split: if_splits option.splits)
next
  case True
  have window: "window_inv eng" and pos: "0 < pol_max_record_ids (eng_policy eng)"
    using window.reachable_preserves [OF assms(1)] bounds.reachable_preserves [OF assms(1)]
    by (auto simp: bounds_inv_def policy_validate_def split: if_splits)
  from True assms(2) obtain e1 e2 where
    id: "rid_source (rec_id r) = ls_id (rec_source r)" "rec_id r \<notin> eng_accepted eng"
    and e1: "e1 = eng \<or> e1 = register_source (rec_source r) (rid_generation (rec_id r)) t eng"
    and e2: "e2 = e1 \<or> (\<exists>g reason. e2 = mark_gap (ls_id (rec_source r)) g reason e1)"
    and eng': "eng' = apply_events r t (accept_record r t e2)"
    by (auto simp: apply_record_def Let_def split: if_splits option.splits)
  have e1': "window_inv e1" "rec_id r \<notin> eng_accepted e1" "0 < pol_max_record_ids (eng_policy e1)"
    using e1 window window.register id(2) pos by (auto simp: register_source_def Let_def)
  have "window_inv e2" "rec_id r \<notin> eng_accepted e2" "0 < pol_max_record_ids (eng_policy e2)"
    using e2 e1' window.gap by (auto simp: mark_gap_def diagnose_def)
  then have "rec_id r \<in> eng_accepted eng'"
    unfolding eng' accepted_events by (rule accept_record_accepted)
  then show ?thesis using id(1) True by (auto simp: apply_record_def Let_def)
qed

lemma sample_accepted: "fst (apply_record sample_record 1 sample_new)"
  by (simp add: apply_record_def sample_record_def sample_new_def sample_source_def register_source_def
      bm_contains_def bm_upsert_def bm_get_def source_state_new_def Let_def)

theorem redelivery_is_ignored_witness:
  "\<exists>m. apply_record sample_record 2 (snd (apply_record sample_record 1 sample_new))
    = (False, diagnose m (snd (apply_record sample_record 1 sample_new)))"
  using redelivery_is_ignored [OF sample_new_reachable, of sample_record 1 True
      "snd (apply_record sample_record 1 sample_new)" 2] sample_accepted
  by (simp add: prod_eq_iff)

end
