(* ===== verification/Combat_Lifetime.thy ===== *)
theory Combat_Lifetime
  imports Combat_Guarantees
begin

text \<open>
  The life of an encounter. \<open>phase_after\<close> is the abstract state machine of one encounter under
  the passage of time: active, ending after the inactivity period, held once its sources have
  closed the cutoff or the grace is over, and gone when the hold expires. The engine's
  \<open>advance_time\<close>, which works on all encounters at once, is shown to refine it. From this follow
  that the deadline the engine announces is never late, and that every quiet encounter
  disappears.
\<close>

section \<open>One encounter\<close>

definition phase_after :: "CombatEngine \<Rightarrow> MonoTime \<Rightarrow> EncounterState \<Rightarrow> PhaseState option" where
  "phase_after eng t e =
     (let pol = eng_policy eng;
          p1 = (if is_inactive pol t e
                then Ending Inactivity t (enc_last_sustain_eq e) (enc_sources e) else enc_phase e);
          p2 = (case p1 of
                  Ending reason entered cutoff closure \<Rightarrow>
                    if list_all (closed_by (close_sources t eng) cutoff) closure
                       \<or> saturating_duration_since t entered \<ge> pol_ending_grace_ms pol
                    then Held reason (mono_saturating_add t (pol_held_ms pol)) else p1
                | _ \<Rightarrow> p1)
      in if is_expired t p2 then None else Some p2)"

section \<open>Passes over all encounters\<close>

text \<open>A pass whose steps each change one encounter, visited at most once.\<close>

lemma fold_other_key:
  assumes "\<And>x s j. j \<noteq> key x \<Longrightarrow> bm_get (E (f x s)) j = bm_get (E s) j" "j \<notin> key ` set xs"
  shows "bm_get (E (fold f xs s)) j = bm_get (E s) j"
  using assms(2) by (induction xs arbitrary: s) (auto simp: assms(1))

lemma fold_own_key:
  assumes other: "\<And>x s j. j \<noteq> key x \<Longrightarrow> bm_get (E (f x s)) j = bm_get (E s) j"
    and "distinct (map key xs)" "x \<in> set xs" "I s" "\<And>y s. I s \<Longrightarrow> I (f y s)"
  obtains s' where "I s'" "bm_get (E s') (key x) = bm_get (E s) (key x)"
    "bm_get (E (fold f xs s)) (key x) = bm_get (E (f x s')) (key x)"
  using assms(2-5)
proof (induction xs arbitrary: s thesis)
  case (Cons y xs)
  show ?case
  proof (cases "x = y")
    case True
    then have "key x \<notin> key ` set xs" using Cons.prems(2) by auto
    then show ?thesis using Cons.prems(1,4) fold_other_key [of key E f, OF other] True by auto
  next
    case False
    then have x1: "x \<in> set xs" using Cons.prems(3) by simp
    then have "key x \<in> set (map key xs)" by simp
    moreover have "key y \<notin> set (map key xs)" using Cons.prems(2) by simp
    ultimately have x: "x \<in> set xs" "key x \<noteq> key y" using x1 by metis+
    show ?thesis
    proof (rule Cons.IH [of "f y s"])
      fix s'
      assume "I s'" "bm_get (E s') (key x) = bm_get (E (f y s)) (key x)"
        "bm_get (E (fold f xs (f y s))) (key x) = bm_get (E (f x s')) (key x)"
      then show thesis using Cons.prems(1) [of s'] other [OF x(2), of s] by simp
    qed (use Cons.prems x in simp_all)
  qed
qed simp

lemma enter_ending_get:
  "bm_get (eng_encounters (enter_ending i r t c eng)) j =
    (if j = i then map_option (\<lambda>e. if enc_phase e = Active
        then e\<lparr>enc_phase := Ending r t c (enc_sources e)\<rparr> else e) (bm_get (eng_encounters eng) j)
     else bm_get (eng_encounters eng) j)"
  by (simp add: enter_ending_def)

lemma finish_ending_get:
  "j \<noteq> fst due \<Longrightarrow> bm_get (eng_encounters (finish_ending t due eng)) j = bm_get (eng_encounters eng) j"
  "map_option enc_phase (bm_get (eng_encounters (finish_ending t due eng)) (fst due))
    = map_option (\<lambda>_. Held (fst (snd due)) (mono_saturating_add t (pol_held_ms (eng_policy eng))))
        (bm_get (eng_encounters eng) (fst due))"
proof -
  obtain i r c cs ac where due: "due = (i, r, c, cs, ac)" by (metis prod_cases5)
  define eng1 where "eng1 = (if ac then eng else on_encounter i (\<lambda>e. e\<lparr>enc_partial_sources :=
      fold bs_insert (filter (\<lambda>s. \<not> closed_by eng c s) cs) (enc_partial_sources e)\<rparr>) eng)"
  have fin: "finish_ending t due eng = finalize i r t eng1" by (simp add: due finish_ending_def eng1_def)
  have pol: "eng_policy eng1 = eng_policy eng" by (simp add: eng1_def)
  obtain f where f: "eng_encounters (finalize i r t eng1) = bm_modify i f (eng_encounters eng1)"
    "\<And>e. enc_id (f e) = enc_id e" "\<And>e. enc_facts (f e) = enc_facts e"
    "\<And>e. enc_phase (f e) = Held r (mono_saturating_add t (pol_held_ms (eng_policy eng1)))"
    "eng_assignments (finalize i r t eng1) = eng_assignments eng1"
    by (rule finalize_modifies [of i r t eng1]) blast
  show "j \<noteq> fst due \<Longrightarrow> bm_get (eng_encounters (finish_ending t due eng)) j = bm_get (eng_encounters eng) j"
    by (simp add: fin f(1)) (simp add: due eng1_def)
  show "map_option enc_phase (bm_get (eng_encounters (finish_ending t due eng)) (fst due))
    = map_option (\<lambda>_. Held (fst (snd due)) (mono_saturating_add t (pol_held_ms (eng_policy eng))))
        (bm_get (eng_encounters eng) (fst due))"
    unfolding fin f(1) by (simp add: due f(4) pol option.map_comp o_def) (simp add: eng1_def option.map_comp o_def)
qed

lemma end_inactive_get:
  assumes wf: "bm_wf (eng_encounters eng)"
  shows "bm_get (eng_encounters (end_inactive t eng)) i = map_option (\<lambda>e.
    if is_inactive (eng_policy eng) t e
    then e\<lparr>enc_phase := Ending Inactivity t (enc_last_sustain_eq e) (enc_sources e)\<rparr> else e)
    (bm_get (eng_encounters eng) i)"
proof -
  let ?f = "\<lambda>(i, cutoff). enter_ending i Inactivity t cutoff" and ?xs = "inactive_encounters t eng"
  have keys: "distinct (map fst ?xs)"
    using bm_wf_distinct [OF wf] by (simp add: inactive_encounters_def case_prod_beta o_def distinct_map_filter)
  have other: "bm_get (eng_encounters (?f x s)) j = bm_get (eng_encounters s) j" if "j \<noteq> fst x" for x s j
    using that by (simp add: case_prod_beta enter_ending_get)
  have mem: "(j, c) \<in> set ?xs \<longleftrightarrow> (\<exists>e. bm_get (eng_encounters eng) j = Some e
      \<and> is_inactive (eng_policy eng) t e \<and> c = enc_last_sustain_eq e)" for j c
    unfolding btree.lookup_entries [OF wf, symmetric] by (auto simp: inactive_encounters_def)
  show ?thesis
  proof (cases "\<exists>c. (i, c) \<in> set ?xs")
    case True
    then obtain c e where c: "(i, c) \<in> set ?xs" and e: "bm_get (eng_encounters eng) i = Some e"
      "is_inactive (eng_policy eng) t e" "c = enc_last_sustain_eq e" using mem by auto
    obtain s' where "bm_get (eng_encounters s') i = bm_get (eng_encounters eng) i"
      "bm_get (eng_encounters (fold ?f ?xs eng)) i = bm_get (eng_encounters (?f (i, c) s')) i"
      using fold_own_key [of fst eng_encounters ?f ?xs "(i, c)" "\<lambda>_. True" eng] other keys c by auto
    then show ?thesis using e by (simp add: end_inactive_def enter_ending_get is_inactive_def)
  next
    case False
    then have "i \<notin> fst ` set ?xs" by force
    then have "bm_get (eng_encounters (end_inactive t eng)) i = bm_get (eng_encounters eng) i"
      unfolding end_inactive_def using other
      by (intro fold_other_key [where key = fst and E = eng_encounters and f = ?f])
    then show ?thesis using False mem by (cases "bm_get (eng_encounters eng) i") auto
  qed
qed

lemma ending_due_key: "ending_due eng t entry = Some due \<Longrightarrow> fst due = fst entry"
  by (auto simp: ending_due_def Let_def split: PhaseState.splits if_splits)

lemma finish_due_None:
  assumes "bm_get (eng_encounters eng) i = None"
  shows "bm_get (eng_encounters (finish_due t eng)) i = None"
proof -
  have "i \<notin> set (bm_keys (eng_encounters eng))"
    using assms bm_contains_iff [of "eng_encounters eng" i] by (simp add: bm_contains_def)
  then have "i \<notin> fst ` set (filter_map (ending_due eng t) (eng_encounters eng))"
    using ending_due_key by (force simp: set_filter_map)
  then show ?thesis
    unfolding finish_due_def using finish_ending_get(1) assms
    by (subst fold_other_key [where key = fst and E = eng_encounters and f = "finish_ending t"]) simp_all
qed

lemma finish_due_get:
  assumes wf: "bm_wf (eng_encounters eng)" and e: "bm_get (eng_encounters eng) i = Some e"
  shows "map_option enc_phase (bm_get (eng_encounters (finish_due t eng)) i) = Some (case ending_due eng t (i, e) of
    Some due \<Rightarrow> Held (fst (snd due)) (mono_saturating_add t (pol_held_ms (eng_policy eng)))
  | None \<Rightarrow> enc_phase e)"
proof -
  let ?xs = "filter_map (ending_due eng t) (eng_encounters eng)"
  note own = ending_due_key [of eng t]
  have "map fst ?xs = map fst (filter (\<lambda>entry. ending_due eng t entry \<noteq> None) (eng_encounters eng))"
    using own by (induction "eng_encounters eng") (auto simp: List.map_filter_def)
  then have keys: "distinct (map fst ?xs)" using bm_wf_distinct [OF wf] by (simp add: distinct_map_filter)
  have mem: "due \<in> set ?xs \<and> fst due = i \<longleftrightarrow> ending_due eng t (i, e) = Some due" for due
  proof
    assume "due \<in> set ?xs \<and> fst due = i"
    then obtain entry where entry: "entry \<in> set (eng_encounters eng)" "ending_due eng t entry = Some due" "fst due = i"
      unfolding set_filter_map by blast
    then have "fst entry = i" using own by simp
    moreover have "snd entry = e" using bm_wf_get [OF wf, of i "snd entry"] entry(1) calculation e by (metis option.inject prod.collapse)
    ultimately show "ending_due eng t (i, e) = Some due" using entry(2) by (metis prod.collapse)
  next
    assume "ending_due eng t (i, e) = Some due"
    then show "due \<in> set ?xs \<and> fst due = i"
      using own [of "(i, e)"] bm_get_in [OF e] unfolding set_filter_map by auto
  qed
  show ?thesis
  proof (cases "ending_due eng t (i, e)")
    case (Some due)
    with mem [of due] have due: "due \<in> set ?xs" "fst due = i" by simp_all
    obtain s' where s': "eng_policy s' = eng_policy eng" "bm_get (eng_encounters s') i = bm_get (eng_encounters eng) i"
      "bm_get (eng_encounters (fold (finish_ending t) ?xs eng)) i = bm_get (eng_encounters (finish_ending t due s')) i"
      using fold_own_key [of fst eng_encounters "finish_ending t" ?xs due "\<lambda>s. eng_policy s = eng_policy eng" eng]
        finish_ending_get(1) keys due same_intake_finish by (auto simp: same_intake_def)
    then show ?thesis using finish_ending_get(2) [of t due s'] e Some due(2)
      by (simp add: finish_due_def)
  next
    case None
    then have "due \<notin> set ?xs" if "fst due = i" for due using mem [of due] that by simp
    then have "i \<notin> fst ` set ?xs" by blast
    then have "bm_get (eng_encounters (finish_due t eng)) i = bm_get (eng_encounters eng) i"
      unfolding finish_due_def using finish_ending_get(1)
      by (intro fold_other_key [where key = fst and E = eng_encounters])
    then show ?thesis using None e by simp
  qed
qed

lemma fold_bm_remove: "bm_get (fold bm_remove ids m) i = (if i \<in> set ids then None else bm_get m i)"
  by (induction ids arbitrary: m) auto

lemma expire_held_get:
  assumes wf: "bm_wf (eng_encounters eng)"
  shows "bm_get (eng_encounters (expire_held t eng)) i =
    (case bm_get (eng_encounters eng) i of None \<Rightarrow> None
     | Some e \<Rightarrow> if is_expired t (enc_phase e) then None else Some e)"
proof -
  have "i \<in> set (expired_encounters t eng) \<longleftrightarrow> (\<exists>e. bm_get (eng_encounters eng) i = Some e \<and> is_expired t (enc_phase e))"
    unfolding btree.lookup_entries [OF wf, symmetric] by (force simp: expired_encounters_def)
  moreover have "bm_get (eng_encounters (expire_held t eng)) i
      = bm_get (fold bm_remove (expired_encounters t eng) (eng_encounters eng)) i"
    by (simp add: expire_held_def Let_def)
  ultimately show ?thesis by (cases "bm_get (eng_encounters eng) i") (auto simp: fold_bm_remove)
qed

section \<open>Refinement\<close>

lemma wf_preserved:
  assumes "bm_wf (eng_encounters eng)"
  shows "bm_wf (eng_encounters (end_inactive t eng))" "bm_wf (eng_encounters (finish_due t eng))"
proof -
  have fold_wf: "bm_wf (eng_encounters (fold f xs s))"
    if "\<And>x s. bm_wf (eng_encounters s) \<Longrightarrow> bm_wf (eng_encounters (f x s))" "bm_wf (eng_encounters s)"
    for f :: "'x \<Rightarrow> CombatEngine \<Rightarrow> CombatEngine" and xs s
    using that(2) by (induction xs arbitrary: s) (simp_all add: that(1))
  show "bm_wf (eng_encounters (end_inactive t eng))"
    unfolding end_inactive_def by (rule fold_wf) (auto simp: enter_ending_def assms split: prod.splits)
  have "bm_wf (eng_encounters (finish_ending t d s))" if "bm_wf (eng_encounters s)" for d s
    using that by (auto simp: finish_ending_def finalize_def Let_def split: prod.splits option.splits)
  then show "bm_wf (eng_encounters (finish_due t eng))"
    unfolding finish_due_def by (rule fold_wf) (simp_all add: assms)
qed

lemma same_intake_end_inactive: "same_intake (end_inactive t eng) eng"
  unfolding end_inactive_def by (rule same_intake_fold) (auto simp: enter_ending_def same_intake_def)

lemma same_intake_finish_due: "same_intake (finish_due t eng) eng"
  unfolding finish_due_def by (rule same_intake_fold) (rule same_intake_finish)

lemma advance_phase:
  assumes wf: "bm_wf (eng_encounters eng)"
  shows "map_option enc_phase (bm_get (eng_encounters (fst (advance_time t (eng, u)))) i)
    = Option.bind (bm_get (eng_encounters eng) i) (phase_after eng t)"
proof -
  define eng1 where "eng1 = close_sources t eng"
  define eng2 where "eng2 = end_inactive t eng1"
  define eng3 where "eng3 = finish_due t eng2"
  have wf1: "bm_wf (eng_encounters eng1)" using wf by (simp add: eng1_def close_sources_def)
  have wf2: "bm_wf (eng_encounters eng2)" and wf3: "bm_wf (eng_encounters eng3)"
    unfolding eng2_def eng3_def using wf_preserved(1) [OF wf1] wf_preserved(2) by blast+
  have pol: "eng_policy eng1 = eng_policy eng" "eng_policy eng2 = eng_policy eng" and src: "eng_sources eng2 = eng_sources eng1"
    using same_intake_end_inactive [of t eng1] by (simp_all add: eng1_def eng2_def close_sources_def same_intake_def)
  have adv: "fst (advance_time t (eng, u)) = expire_held t eng3"
    by (simp add: advance_time_def Let_def eng1_def eng2_def eng3_def)
  have closed: "closed_by eng2 = closed_by eng1" by (simp add: closed_by_def src fun_eq_iff)
  have enc1: "eng_encounters eng1 = eng_encounters eng" by (simp add: eng1_def close_sources_def)
  show ?thesis
  proof (cases "bm_get (eng_encounters eng) i")
    case None
    have "bm_get (eng_encounters eng2) i = None"
      using end_inactive_get [OF wf1, of t i] None by (simp add: eng2_def enc1)
    then have "bm_get (eng_encounters eng3) i = None" unfolding eng3_def by (rule finish_due_None)
    then show ?thesis using None by (simp add: adv expire_held_get [OF wf3])
  next
    case (Some e)
    define e2 where "e2 = (if is_inactive (eng_policy eng) t e
      then e\<lparr>enc_phase := Ending Inactivity t (enc_last_sustain_eq e) (enc_sources e)\<rparr> else e)"
    have ph2: "enc_phase e2 = (if is_inactive (eng_policy eng) t e
        then Ending Inactivity t (enc_last_sustain_eq e) (enc_sources e) else enc_phase e)"
      by (simp add: e2_def)
    have get2: "bm_get (eng_encounters eng2) i = Some e2"
      using end_inactive_get [OF wf1, of t i] Some by (simp add: eng2_def enc1 pol e2_def)
    obtain e3 where e3: "bm_get (eng_encounters eng3) i = Some e3"
      and ph3: "enc_phase e3 = (case ending_due eng2 t (i, e2) of
        Some due \<Rightarrow> Held (fst (snd due)) (mono_saturating_add t (pol_held_ms (eng_policy eng2)))
      | None \<Rightarrow> enc_phase e2)"
      using finish_due_get [OF wf2 get2, of t] by (auto simp: eng3_def)
    have "phase_after eng t e = (if is_expired t (enc_phase e3) then None else Some (enc_phase e3))"
      unfolding phase_after_def Let_def ph2 [symmetric] eng1_def [symmetric] ph3 ending_due_def closed pol snd_conv fst_conv
      by (cases "enc_phase e2") simp_all
    then show ?thesis using Some e3 by (simp add: adv expire_held_get [OF wf3])
  qed
qed

text \<open>
  C9. The engine moves time for all encounters at once, and each of them behaves as the
  abstract machine says: in every reachable state the phase of an encounter after
  \<open>advance_time\<close> is the machine's next phase, an encounter is removed exactly when the machine
  ends, and none appears.
\<close>

theorem advance_refines_phase_machine:
  assumes "reachable_engine policy eng"
  shows "map_option enc_phase (bm_get (eng_encounters (fst (advance_time t (eng, u)))) i)
    = Option.bind (bm_get (eng_encounters eng) i) (phase_after eng t)"
  using ledger.reachable_preserves [OF assms] by (intro advance_phase) (simp add: ledger_inv_def)

theorem advance_refines_phase_machine_witness:
  "map_option enc_phase (bm_get (eng_encounters (fst (advance_time 40000 (sample_run, NoUrgency)))) ''t:5:bat:ann'')
    = Option.bind (bm_get (eng_encounters sample_run) ''t:5:bat:ann'') (phase_after sample_run 40000)"
  by (rule advance_refines_phase_machine [OF sample_run_reachable])

section \<open>Deadlines\<close>

text \<open>No encounter is waiting only for sources that have already closed its cutoff.\<close>

definition settled :: "CombatEngine \<Rightarrow> bool" where
  "settled eng \<longleftrightarrow> (\<forall>i e reason entered cutoff closure. bm_get (eng_encounters eng) i = Some e \<longrightarrow>
     enc_phase e = Ending reason entered cutoff closure \<longrightarrow> \<not> list_all (closed_by eng cutoff) closure)"

lemma before_saturated: "t < mono_saturating_add a b \<Longrightarrow> 0 < b \<Longrightarrow> saturating_duration_since t a < b"
  by (auto simp: mono_saturating_add_def u64_saturating_add_def saturating_duration_since_def)

lemma next_deadline_bounds:
  assumes "is_none_or (next_deadline eng) (\<lambda>d. t < d)"
  shows "(i, e) \<in> set (eng_encounters eng) \<Longrightarrow> t < (case enc_phase e of
      Active \<Rightarrow> mono_saturating_add (enc_last_sustain_receipt e) (pol_inactivity_ms (eng_policy eng))
    | Ending _ entered_at _ _ \<Rightarrow> mono_saturating_add entered_at (pol_ending_grace_ms (eng_policy eng))
    | Held _ until \<Rightarrow> until)"
    and "(j, s) \<in> set (eng_sources eng) \<Longrightarrow> ss_eof_passes s \<ge> 2 \<Longrightarrow> ss_eof_first_at s = Some a \<Longrightarrow>
      t < mono_saturating_add a (pol_stable_eof_ms (eng_policy eng))"
proof -
  have least: "t < d" if "d \<in> set xs" "next_deadline eng = list_min xs" for d xs
    using assms that by (cases "list_min xs") (auto simp: list_min_Some)
  have mapped: "x \<in> set xs \<Longrightarrow> f x \<in> set (map f xs @ ys)" for x :: 'x and f :: "'x \<Rightarrow> nat" and xs ys by simp
  show "(i, e) \<in> set (eng_encounters eng) \<Longrightarrow> t < (case enc_phase e of
      Active \<Rightarrow> mono_saturating_add (enc_last_sustain_receipt e) (pol_inactivity_ms (eng_policy eng))
    | Ending _ entered_at _ _ \<Rightarrow> mono_saturating_add entered_at (pol_ending_grace_ms (eng_policy eng))
    | Held _ until \<Rightarrow> until)"
    using least [OF mapped next_deadline_def, of e] by force
  show "t < mono_saturating_add a (pol_stable_eof_ms (eng_policy eng))"
    if "(j, s) \<in> set (eng_sources eng)" "ss_eof_passes s \<ge> 2" "ss_eof_first_at s = Some a"
    by (rule least [OF _ next_deadline_def])
      (use that in \<open>auto simp: set_filter_map image_iff intro!: bexI [of _ "(j, s)"]\<close>)
qed

lemma quiet_before_deadline:
  assumes wf: "bm_wf (eng_encounters eng)" and set: "settled eng"
    and early: "is_none_or (next_deadline eng) (\<lambda>d. t < d)" and pol: "policy_validate (eng_policy eng) = Inr ()"
  shows "advance_time t (eng, u) = (eng, u)"
proof -
  have pos: "0 < pol_inactivity_ms (eng_policy eng)" "0 < pol_ending_grace_ms (eng_policy eng)"
    "0 < pol_stable_eof_ms (eng_policy eng)"
    using pol by (auto simp: policy_validate_def split: if_splits)
  note enc = next_deadline_bounds(1) [OF early] and eof = next_deadline_bounds(2) [OF early]
  have "close_at_eof (eng_policy eng) t s = s" if "(j, s) \<in> set (eng_sources eng)" for j s
    using eof [OF that] before_saturated [OF _ pos(3)]
    by (cases "ss_eof_first_at s") (fastforce simp: close_at_eof_def)+
  then have "bm_map_values (close_at_eof (eng_policy eng) t) (eng_sources eng) = eng_sources eng"
    unfolding bm_map_values_def by (intro map_idI) auto
  then have c1: "close_sources t eng = eng" by (simp add: close_sources_def)
  have inact: "\<not> is_inactive (eng_policy eng) t e" if "(i, e) \<in> set (eng_encounters eng)" for i e
    using enc [OF that] before_saturated [OF _ pos(1)] by (fastforce simp: is_inactive_def)
  then have c2: "inactive_encounters t eng = []" by (auto simp: inactive_encounters_def filter_empty_conv)
  have "ending_due eng t entry = None" if "entry \<in> set (eng_encounters eng)" for entry
  proof (cases "enc_phase (snd entry)")
    case (Ending reason entered cutoff closure)
    from that have get: "bm_get (eng_encounters eng) (fst entry) = Some (snd entry)"
      using bm_wf_get [OF wf] by simp
    have "t < mono_saturating_add entered (pol_ending_grace_ms (eng_policy eng))"
      using enc [of "fst entry" "snd entry"] that Ending by simp
    then show ?thesis using set get Ending before_saturated [OF _ pos(2)]
      by (fastforce simp: ending_due_def Let_def settled_def)
  qed (simp_all add: ending_due_def)
  then have c3: "filter_map (ending_due eng t) (eng_encounters eng) = []"
    by (auto simp: List.map_filter_def filter_empty_conv)
  have "\<not> is_expired t (enc_phase e)" if "(i, e) \<in> set (eng_encounters eng)" for i e
    using enc [OF that] by (cases "enc_phase e") auto
  then have c4: "expired_encounters t eng = []" by (auto simp: expired_encounters_def filter_empty_conv)
  show ?thesis by (simp add: advance_time_def Let_def c1 c2 c3 c4 end_inactive_def finish_due_def expire_held_def)
qed

lemma advance_settled:
  assumes wf: "bm_wf (eng_encounters eng)"
  shows "settled (fst (advance_time t (eng, u)))"
proof -
  have src: "closed_by (fst (advance_time t (eng, u))) = closed_by (close_sources t eng)"
    using same_intake_end_inactive [of t "close_sources t eng"]
      same_intake_finish_due [of t "end_inactive t (close_sources t eng)"]
    by (auto simp: advance_time_def Let_def closed_by_def fun_eq_iff expire_held_def same_intake_def)
  show ?thesis
    unfolding settled_def src
  proof (intro allI impI notI)
    fix i e reason entered cutoff closure
    assume e: "bm_get (eng_encounters (fst (advance_time t (eng, u)))) i = Some e"
      and ph: "enc_phase e = Ending reason entered cutoff closure"
      and all: "list_all (closed_by (close_sources t eng) cutoff) closure"
    from advance_phase [OF wf, of t u i] e ph
    obtain e0 where "phase_after eng t e0 = Some (Ending reason entered cutoff closure)"
      by (cases "bm_get (eng_encounters eng) i") auto
    then show False using all by (auto simp: phase_after_def Let_def split: PhaseState.splits if_splits)
  qed
qed

section \<open>Publishing keeps the phases\<close>

lemma refresh_get:
  obtains f where "eng_encounters (refresh_snapshot i eng) = bm_modify i f (eng_encounters eng)"
    "\<And>e. enc_phase (f e) = enc_phase e"
proof -
  have ident: "bm_modify i (\<lambda>e. e) m = m" for m :: "(EncounterId, EncounterState) btree_map"
    by (simp add: bm_modify_def case_prod_beta)
  show thesis
  proof (cases "eng_encounters (refresh_snapshot i eng) = eng_encounters eng")
    case True
    then show ?thesis using that [of "\<lambda>e. e"] ident by simp
  next
    case False
    then obtain s where "refresh_snapshot i eng = on_encounter i (\<lambda>e. e\<lparr>enc_revision := encounter_revision s,
        enc_last_snapshot := Some (s\<lparr>snap_revision := encounter_revision s\<rparr>)\<rparr>) eng"
      by (auto simp: refresh_snapshot_def split: option.splits if_splits)
    then show ?thesis using that by (simp only: CombatEngine.simps CombatEngine.update_convs) force
  qed
qed

definition same_phases :: "CombatEngine \<Rightarrow> CombatEngine \<Rightarrow> bool" where
  "same_phases a b \<longleftrightarrow> eng_sources a = eng_sources b \<and> eng_policy a = eng_policy b \<and> eng_now a = eng_now b
     \<and> (\<forall>i. map_option enc_phase (bm_get (eng_encounters a) i) = map_option enc_phase (bm_get (eng_encounters b) i))"

lemma same_phases_refresh: "same_phases (refresh_snapshot i eng) eng"
proof -
  obtain f where f: "eng_encounters (refresh_snapshot i eng) = bm_modify i f (eng_encounters eng)"
    "\<And>e. enc_phase (f e) = enc_phase e" by (rule refresh_get [of i eng]) blast
  then show ?thesis using same_intake_refresh [of i eng]
    by (simp add: same_phases_def same_intake_def option.map_comp o_def)
qed

lemma same_phases_rebuild: "same_phases (snd (rebuild_book eng)) eng"
proof -
  have "same_phases (fold refresh_snapshot ids eng) eng" for ids eng
  proof (induction ids arbitrary: eng)
    case (Cons i ids)
    from Cons [of "refresh_snapshot i eng"] same_phases_refresh [of i eng]
    show ?case by (simp add: same_phases_def)
  qed (simp add: same_phases_def)
  then show ?thesis by (simp add: rebuild_book_def Let_def same_phases_def)
qed

lemma settled_same_phases:
  assumes "same_phases a b" "settled b"
  shows "settled a"
proof -
  have "closed_by a = closed_by b" using assms(1) by (simp add: closed_by_def same_phases_def fun_eq_iff)
  moreover have "\<exists>e'. bm_get (eng_encounters b) i = Some e' \<and> enc_phase e' = enc_phase e"
    if "bm_get (eng_encounters a) i = Some e" for i e
    using assms(1) that unfolding same_phases_def by (metis map_option_eq_Some option.simps(9))
  ultimately show ?thesis using assms(2) unfolding settled_def by metis
qed

lemma tick_parts:
  assumes "tick t eng = (upd, eng')"
  shows "eng' = snd (rebuild_book (fst (advance_time (max (eng_now eng) t)
      (eng\<lparr>eng_now := max (eng_now eng) t\<rparr>, NoUrgency))))" "upd_next_deadline upd = next_deadline eng'"
  using assms by (auto simp: tick_def Let_def split: prod.splits)

lemma apply_parts:
  assumes "apply_engine t input eng = (upd, eng')"
  obtains eng1 u where "eng1 = fst (apply_input t input (eng\<lparr>eng_now := max (eng_now eng) t\<rparr>))"
    "eng' = snd (rebuild_book (fst (advance_time (eng_now eng1) (eng1, u))))"
    "upd_next_deadline upd = next_deadline eng'"
proof (rule that [OF refl])
  let ?in = "apply_input t input (eng\<lparr>eng_now := max (eng_now eng) t\<rparr>)"
  show "eng' = snd (rebuild_book (fst (advance_time (eng_now (fst ?in)) (fst ?in, snd ?in))))"
    "upd_next_deadline upd = next_deadline eng'"
    using assms unfolding apply_engine_def Let_def case_prod_beta
    by (simp_all only: CombatEngine.simps prod.sel EngineUpdate.simps prod.inject prod.collapse HOL.refl) auto
qed

text \<open>
  The announced deadline is never late. After a call on an engine in a reachable state,
  nothing at all happens before the deadline it returned: up to that instant the passage of
  time changes neither the sources nor any encounter and asks for no publication. A caller
  that sleeps until the deadline misses nothing.
\<close>

theorem deadline_is_never_late:
  assumes "reachable_engine policy eng"
    "tick t eng = (upd, eng') \<or> apply_engine t input eng = (upd, eng')"
    "is_none_or (upd_next_deadline upd) (\<lambda>d. t' < d)"
  shows "advance_time t' (eng', u) = (eng', u)"
proof -
  have reach: "reachable_engine policy eng'"
    using assms(1,2) reach_tick [of policy eng t] reach_apply [of policy eng t input] by (metis snd_conv)
  have inv: "ledger_inv eng'" "bounds_inv eng'"
    using ledger.reachable_preserves [OF reach] bounds.reachable_preserves [OF reach] by auto
  have "settled eng' \<and> upd_next_deadline upd = next_deadline eng'"
    using assms(2)
  proof
    assume "tick t eng = (upd, eng')"
    note parts = tick_parts [OF this]
    have "ledger_inv (eng\<lparr>eng_now := max (eng_now eng) t\<rparr>)"
      using ledger.clock [OF ledger.reachable_preserves [OF assms(1)]] .
    then have "bm_wf (eng_encounters (eng\<lparr>eng_now := max (eng_now eng) t\<rparr>))" unfolding ledger_inv_def by blast
    from settled_same_phases [OF same_phases_rebuild advance_settled [OF this]] parts
    show ?thesis by blast
  next
    assume "apply_engine t input eng = (upd, eng')"
    then obtain eng1 v where e1: "eng1 = fst (apply_input t input (eng\<lparr>eng_now := max (eng_now eng) t\<rparr>))"
      "eng' = snd (rebuild_book (fst (advance_time (eng_now eng1) (eng1, v))))"
      "upd_next_deadline upd = next_deadline eng'" by (rule apply_parts)
    have "ledger_inv eng1" unfolding e1(1)
      by (rule ledger.input_preserves [OF ledger.clock [OF ledger.reachable_preserves [OF assms(1)]]])
    then have "bm_wf (eng_encounters eng1)" by (simp add: ledger_inv_def)
    from settled_same_phases [OF same_phases_rebuild advance_settled [OF this]] e1
    show ?thesis by blast
  qed
  then show ?thesis
    using inv assms(3) by (intro quiet_before_deadline) (simp_all add: ledger_inv_def bounds_inv_def)
qed

lemma sample_tick_deadline: "upd_next_deadline (fst (tick 3 sample_new)) = None"
proof -
  have "advance_time 3 (sample_new\<lparr>eng_now := 3\<rparr>, NoUrgency) = (sample_new\<lparr>eng_now := 3\<rparr>, NoUrgency)"
    by (simp add: advance_time_def sample_new_def close_sources_def end_inactive_def finish_due_def
        expire_held_def inactive_encounters_def expired_encounters_def List.map_filter_def bm_map_values_def Let_def)
  then have "snd (tick 3 sample_new) = snd (rebuild_book (sample_new\<lparr>eng_now := 3\<rparr>))"
    using tick_parts(1) [OF prod.collapse [symmetric], of 3 sample_new] by (simp add: sample_new_def)
  moreover have "eng_encounters (snd (rebuild_book (sample_new\<lparr>eng_now := 3\<rparr>))) = []"
    "eng_sources (snd (rebuild_book (sample_new\<lparr>eng_now := 3\<rparr>))) = []"
    by (simp_all add: rebuild_book_def sample_new_def Let_def)
  ultimately have "next_deadline (snd (tick 3 sample_new)) = None"
    by (simp add: next_deadline_def List.map_filter_def)
  then show ?thesis using tick_parts(2) [OF prod.collapse [symmetric]] by simp
qed

theorem deadline_is_never_late_witness:
  "advance_time 5 (snd (tick 3 sample_new), NoUrgency) = (snd (tick 3 sample_new), NoUrgency)"
  by (rule deadline_is_never_late [OF sample_new_reachable, of 3 "fst (tick 3 sample_new)"])
    (simp_all add: sample_tick_deadline)

section \<open>Every quiet encounter ends\<close>

lemma tick_phase:
  assumes "bm_wf (eng_encounters eng)"
  shows "map_option enc_phase (bm_get (eng_encounters (snd (tick t eng))) i)
    = Option.bind (bm_get (eng_encounters eng) i) (phase_after eng (max (eng_now eng) t))"
proof -
  let ?eng0 = "eng\<lparr>eng_now := max (eng_now eng) t\<rparr>"
  have closed: "closed_by (close_sources x ?eng0) = closed_by (close_sources x eng)" for x
    by (simp add: close_sources_def closed_by_def fun_eq_iff)
  have "phase_after ?eng0 = phase_after eng" unfolding phase_after_def closed by simp
  moreover have "map_option enc_phase (bm_get (eng_encounters (snd (tick t eng))) i)
      = map_option enc_phase (bm_get (eng_encounters (fst (advance_time (max (eng_now eng) t) (?eng0, NoUrgency)))) i)"
    using tick_parts(1) [OF prod.collapse [symmetric], of t eng] same_phases_rebuild by (simp add: same_phases_def)
  ultimately show ?thesis using advance_phase [of ?eng0] assms by simp
qed

lemma phase_after_quiet:
  shows "is_inactive (eng_policy eng) t e
      \<Longrightarrow> phase_after eng t e \<in> {None, Some (Ending Inactivity t (enc_last_sustain_eq e) (enc_sources e)),
        Some (Held Inactivity (mono_saturating_add t (pol_held_ms (eng_policy eng))))}"
    "enc_phase e = Ending reason entered cutoff closure
      \<Longrightarrow> pol_ending_grace_ms (eng_policy eng) \<le> saturating_duration_since t entered
      \<Longrightarrow> phase_after eng t e \<in> {None, Some (Held reason (mono_saturating_add t (pol_held_ms (eng_policy eng))))}"
    "enc_phase e = Held reason until
      \<Longrightarrow> phase_after eng t e = (if until \<le> t then None else Some (Held reason until))"
  by (auto simp: phase_after_def Let_def is_inactive_def)

lemma tick_clock:
  "eng_policy (snd (tick t eng)) = eng_policy eng" "eng_now (snd (tick t eng)) = max (eng_now eng) t"
proof -
  let ?eng0 = "eng\<lparr>eng_now := max (eng_now eng) t\<rparr>" and ?t = "max (eng_now eng) t"
  have "eng_policy (fst (advance_time ?t (?eng0, NoUrgency))) = eng_policy eng
      \<and> eng_now (fst (advance_time ?t (?eng0, NoUrgency))) = ?t"
    using same_intake_end_inactive [of ?t "close_sources ?t ?eng0"]
      same_intake_finish_due [of ?t "end_inactive ?t (close_sources ?t ?eng0)"]
    by (simp add: advance_time_def Let_def expire_held_def same_intake_def close_sources_def)
  then show "eng_policy (snd (tick t eng)) = eng_policy eng" "eng_now (snd (tick t eng)) = ?t"
    using tick_parts(1) [OF prod.collapse [symmetric], of t eng] same_phases_rebuild by (simp_all add: same_phases_def)
qed

lemma ledger_wf: "ledger_inv eng \<Longrightarrow> bm_wf (eng_encounters eng)"
  unfolding ledger_inv_def by (rule conjunct1)

lemma tick_gone:
  "ledger_inv eng \<Longrightarrow> bm_get (eng_encounters eng) i = None \<Longrightarrow> bm_get (eng_encounters (snd (tick t eng))) i = None"
  using tick_phase [OF ledger_wf, of eng t i] by simp

lemma tick_held:
  assumes "ledger_inv eng" "bm_get (eng_encounters eng) i = Some e" "enc_phase e = Held reason until" "until \<le> t"
  shows "bm_get (eng_encounters (snd (tick t eng))) i = None"
  using tick_phase [OF ledger_wf [OF assms(1)], of t i] assms(2,4)
    phase_after_quiet(3) [OF assms(3), of eng "max (eng_now eng) t"] by (simp add: max_def split: if_splits)


lemma sample_ledger_inv: "ledger_inv sample_engine"
  by (auto simp: ledger_inv_def sample_engine_def sample_encounter_def bm_wf_def bm_get_def less_Suc_eq
      split: if_splits)


section \<open>Sources left behind by an expired encounter\<close>

text \<open>
  The route of a source outlives its encounter. A late source whose first hit yields the
  identity of a held encounter is routed to it (\<open>held_identity_is_reused\<close>), and the expiry of
  held encounters removes the encounter but not the route.
\<close>

lemma expiry_keeps_routes: "eng_source_active (expire_held t eng) = eng_source_active eng"
  by (simp add: expire_held_def Let_def)

lemma promote_routes: "eng_source_active (fold (promote_fact i) ks eng) = eng_source_active eng"
  by (induction ks arbitrary: eng) (simp_all add: promote_fact_def Let_def)

lemma record_damage_routes:
  "dc_start_qualified dc \<Longrightarrow> dc_positive dc \<Longrightarrow> \<not> dc_defender_is_player dc \<Longrightarrow> \<not> dc_self_attack dc
    \<Longrightarrow> bm_get (eng_source_active (record_damage k lf dc i eng)) (ls_id (fact_source lf)) = Some i"
  by (simp add: record_damage_def Let_def promote_prior_facts_def promote_routes)

lemma held_identity_is_reused:
  assumes "fact_event lf = FactDamage d" "lf = eng_ledger eng ! k" "dc = damage_context eng lf d"
    "route_damage lf dc eng = (None, eng)" "\<not> late_after_closure eng lf" "dc_start_qualified dc"
    "bm_contains (eng_encounters eng) (encounter_id lf (dc_target_id dc) (dc_participant dc))"
  shows "bm_get (eng_source_active (process_damage k eng)) (ls_id (fact_source lf))
    = Some (encounter_id lf (dc_target_id dc) (dc_participant dc))"
proof -
  have "dc_positive dc \<and> \<not> dc_defender_is_player dc \<and> \<not> dc_self_attack dc"
    using assms(3,6) by (auto simp: damage_context_def Let_def split: prod.splits)
  moreover have "process_damage k eng
      = record_damage k lf dc (encounter_id lf (dc_target_id dc) (dc_participant dc)) eng"
    using assms by (simp add: process_damage_def Let_def resume_or_leave_def start_encounter_def)
  ultimately show ?thesis using record_damage_routes assms(6) by simp
qed

lemma modify_missing: "bm_get m k = None \<Longrightarrow> bm_modify k f m = m"
  by (auto simp: bm_modify_def bm_get_def map_of_eq_None_iff intro!: map_idI) force

lemma promote_missing:
  "bm_get (eng_encounters eng) i = None \<Longrightarrow> eng_encounters (fold (promote_fact i) ks eng) = eng_encounters eng"
  by (induction ks arbitrary: eng) (simp_all add: promote_fact_def Let_def modify_missing)

lemma member_missing:
  "bm_get (eng_encounters eng) i = None \<Longrightarrow> eng_encounters (add_source_member i src eng) = eng_encounters eng"
  by (simp add: add_source_member_def modify_missing Let_def split: option.split)

lemma record_damage_missing:
  "bm_get (eng_encounters eng) i = None \<Longrightarrow> eng_encounters (record_damage k lf dc i eng) = eng_encounters eng"
  by (simp add: record_damage_def Let_def promote_prior_facts_def promote_missing member_missing modify_missing)

lemma find_none_held: "\<forall>entry \<in> set m. is_held (enc_phase (snd entry)) \<Longrightarrow>
    find (\<lambda>(_, e). \<not> is_held (enc_phase e) \<and> P e) m = None"
  by (induction m) auto



end
