(* ===== verification/Trushar_Control.thy ===== *)
theory Trushar_Control
  imports Ordered_Map
begin

text \<open>
  The transport-independent control interface of Stonemite, \<^verbatim>\<open>crates/trushar/src/control.rs\<close>:
  the published state and its data types, the validation of every argument a remote client can
  send, the publisher \<open>StateHub\<close> and the \<open>SnapshotMapper\<close> that hands out opaque client
  identifiers. Errors are values of \<open>ControlError + 'a\<close>.

  A hash map whose iteration order the code never depends on is a HOL map or set. The mapper
  does depend on it (it retires identifiers in the order the map yields its keys), so its map
  is an association list and the iteration order an argument of the model.
\<close>

section \<open>Errors\<close>

datatype ErrorCode = MalformedRequest | UnsupportedProtocolVersion | Unauthorized | InvalidArgument
  | ClientNotFound | AmbiguousTarget | TargetDisappeared | BroadcastUnavailable | ActivationFailed
  | WindowNumberSwapFailed | BroadcastOperationFailed | MouseClutchUnavailable | MouseClutchNotReady
  | MouseClutchHoldExpired | MouseClutchOperationFailed | InputUnavailable | InputOperationFailed
  | EqActionUnbound | CommandTimeout | InternalError

fun error_code_as_str :: "ErrorCode \<Rightarrow> string" where
  "error_code_as_str MalformedRequest = ''malformed_request''"
| "error_code_as_str UnsupportedProtocolVersion = ''unsupported_protocol_version''"
| "error_code_as_str Unauthorized = ''unauthorized''"
| "error_code_as_str InvalidArgument = ''invalid_argument''"
| "error_code_as_str ClientNotFound = ''client_not_found''"
| "error_code_as_str AmbiguousTarget = ''ambiguous_target''"
| "error_code_as_str TargetDisappeared = ''target_disappeared''"
| "error_code_as_str BroadcastUnavailable = ''broadcast_unavailable''"
| "error_code_as_str ActivationFailed = ''activation_failed''"
| "error_code_as_str WindowNumberSwapFailed = ''window_number_swap_failed''"
| "error_code_as_str BroadcastOperationFailed = ''broadcast_operation_failed''"
| "error_code_as_str MouseClutchUnavailable = ''mouse_clutch_unavailable''"
| "error_code_as_str MouseClutchNotReady = ''mouse_clutch_not_ready''"
| "error_code_as_str MouseClutchHoldExpired = ''mouse_clutch_hold_expired''"
| "error_code_as_str MouseClutchOperationFailed = ''mouse_clutch_operation_failed''"
| "error_code_as_str InputUnavailable = ''input_unavailable''"
| "error_code_as_str InputOperationFailed = ''input_operation_failed''"
| "error_code_as_str EqActionUnbound = ''eq_action_unbound''"
| "error_code_as_str CommandTimeout = ''command_timeout''"
| "error_code_as_str InternalError = ''internal_error''"

record ControlError =
  err_code :: ErrorCode
  err_message :: string

definition control_error :: "ErrorCode \<Rightarrow> string \<Rightarrow> ControlError" where
  "control_error code message = \<lparr>err_code = code, err_message = message\<rparr>"

abbreviation refuse :: "ErrorCode \<Rightarrow> string \<Rightarrow> ControlError + 'a" where
  "refuse code message \<equiv> Inl (control_error code message)"

text \<open>The operator \<open>?\<close> on results.\<close>

definition and_then :: "'e + 'a \<Rightarrow> ('a \<Rightarrow> 'e + 'b) \<Rightarrow> 'e + 'b" where
  "and_then r f = (case r of Inl e \<Rightarrow> Inl e | Inr v \<Rightarrow> f v)"

lemma and_then_simps [simp]: "and_then (Inl e) f = Inl e" "and_then (Inr v) f = f v"
  by (simp_all add: and_then_def)

lemma and_then_Inr: "and_then r f = Inr w \<longleftrightarrow> (\<exists>v. r = Inr v \<and> f v = Inr w)"
  by (cases r) auto

section \<open>The published state\<close>

type_synonym ClientId = string

definition client_id_new :: "string \<Rightarrow> ControlError + ClientId" where
  "client_id_new value =
     (if value = [] \<or> length value > 128
      then refuse InvalidArgument ''client id must contain 1 to 128 bytes'' else Inr value)"

record XTargetSlot =
  xt_slot :: nat
  xt_label :: string
  xt_bound :: bool

datatype ControlConsiderDifficulty = ControlGreen | ControlLightBlue | ControlBlue | ControlWhite
  | ControlYellow | ControlRed | ControlUnknown

datatype ConsiderResult = ResultTarget string ControlConsiderDifficulty "nat option" | ResultNoTarget

record XTargetState =
  xt_slots :: "XTargetSlot list"
  xt_selected_slot :: "nat option"
  xt_consider_bound :: bool
  xt_consider_pending :: bool
  xt_consider :: "ConsiderResult option"

definition xtarget_default :: XTargetState where
  "xtarget_default = \<lparr>xt_slots = [], xt_selected_slot = None, xt_consider_bound = False,
     xt_consider_pending = False, xt_consider = None\<rparr>"

record ClientState =
  cl_id :: ClientId
  cl_character :: "string option"
  cl_server :: "string option"
  cl_class_code :: "string option"
  cl_window_number :: nat
  cl_active :: bool
  cl_activatable :: bool
  cl_input_ready :: bool
  cl_xtarget :: XTargetState

record BroadcastState =
  bc_available :: bool
  bc_enabled :: bool

definition BROADCAST_UNAVAILABLE :: BroadcastState where
  "BROADCAST_UNAVAILABLE = \<lparr>bc_available = False, bc_enabled = False\<rparr>"

datatype MouseClutchPhase = ClutchInactive | ClutchActive | ClutchReleasing

datatype MouseClutchAvailability = ClutchReady | NoActiveClient | NoCompatibleTargets | ClutchInputUnavailable

record MouseClutchState =
  mc_phase :: MouseClutchPhase
  mc_availability :: MouseClutchAvailability

definition MOUSE_CLUTCH_UNAVAILABLE :: MouseClutchState where
  "MOUSE_CLUTCH_UNAVAILABLE = \<lparr>mc_phase = ClutchInactive, mc_availability = ClutchInputUnavailable\<rparr>"

definition MAX_TEXT_CHARS :: nat where "MAX_TEXT_CHARS = 256"
definition MAX_TEXT_BYTES :: nat where "MAX_TEXT_BYTES = 1024"
definition MAX_KEY_STROKES :: nat where "MAX_KEY_STROKES = 64"
definition MAX_HOTBARS :: nat where "MAX_HOTBARS = 11"
definition MAX_HOTBAR_BUTTONS :: nat where "MAX_HOTBAR_BUTTONS = 12"
definition MAX_SPELL_GEMS :: nat where "MAX_SPELL_GEMS = 14"
definition MAX_EQ_TARGET_WINDOWS :: nat where "MAX_EQ_TARGET_WINDOWS = 6"
definition MAX_EQ_MAPPING_NAME_BYTES :: nat where "MAX_EQ_MAPPING_NAME_BYTES = 128"
definition EQ_KEYMAP_PAGE_SIZE :: nat where "EQ_KEYMAP_PAGE_SIZE = 64"
definition MAX_KEYS_PER_STROKE :: nat where "MAX_KEYS_PER_STROKE = 8"
definition MAX_INPUT_DURATION_MS :: nat where "MAX_INPUT_DURATION_MS = 15000"

record EqActionCapabilities =
  cap_use_center_screen :: bool
  cap_invite_follow :: bool
  cap_hotbars :: nat
  cap_hotbar_buttons :: nat
  cap_spell_gems :: nat
  cap_keymap_actions :: bool

definition eq_action_capabilities :: "bool \<Rightarrow> EqActionCapabilities" where
  "eq_action_capabilities available =
     \<lparr>cap_use_center_screen = available, cap_invite_follow = available,
      cap_hotbars = (if available then MAX_HOTBARS else 0),
      cap_hotbar_buttons = (if available then MAX_HOTBAR_BUTTONS else 0),
      cap_spell_gems = (if available then MAX_SPELL_GEMS else 0),
      cap_keymap_actions = True\<rparr>"

record Capabilities =
  can_activate :: bool
  can_swap_window_numbers :: bool
  can_set_broadcast :: bool
  can_set_mouse_clutch :: bool
  can_send_text :: bool
  can_send_keys :: bool
  can_eq_actions :: EqActionCapabilities

record StateData =
  sd_clients :: "ClientState list"
  sd_broadcast :: BroadcastState
  sd_mouse_clutch :: MouseClutchState
  sd_capabilities :: Capabilities

definition state_data_default :: StateData where
  "state_data_default = \<lparr>sd_clients = [], sd_broadcast = BROADCAST_UNAVAILABLE,
     sd_mouse_clutch = MOUSE_CLUTCH_UNAVAILABLE,
     sd_capabilities = \<lparr>can_activate = True, can_swap_window_numbers = True, can_set_broadcast = False,
       can_set_mouse_clutch = False, can_send_text = False, can_send_keys = False,
       can_eq_actions = eq_action_capabilities False\<rparr>\<rparr>"

record StateSnapshot =
  sn_revision :: nat
  sn_clients :: "ClientState list"
  sn_broadcast :: BroadcastState
  sn_mouse_clutch :: MouseClutchState
  sn_capabilities :: Capabilities

definition snapshot_data :: "StateSnapshot \<Rightarrow> StateData" where
  "snapshot_data s = \<lparr>sd_clients = sn_clients s, sd_broadcast = sn_broadcast s,
     sd_mouse_clutch = sn_mouse_clutch s, sd_capabilities = sn_capabilities s\<rparr>"

subsection \<open>The publisher\<close>

text \<open>\<open>hub_watch\<close> is the value of the watch channel, which subscribers read.\<close>

record StateHub =
  hub_current :: StateSnapshot
  hub_watch :: StateSnapshot

definition hub_new :: "StateData \<Rightarrow> StateHub" where
  "hub_new initial =
     (let snapshot = \<lparr>sn_revision = 0, sn_clients = sd_clients initial, sn_broadcast = sd_broadcast initial,
            sn_mouse_clutch = sd_mouse_clutch initial, sn_capabilities = sd_capabilities initial\<rparr>
      in \<lparr>hub_current = snapshot, hub_watch = snapshot\<rparr>)"

definition hub_publish :: "StateData \<Rightarrow> StateHub \<Rightarrow> StateSnapshot \<times> StateHub" where
  "hub_publish data hub =
     (let current = hub_current hub
      in if snapshot_data current = data then (current, hub)
         else let snapshot = \<lparr>sn_revision = u64_saturating_add (sn_revision current) 1,
                sn_clients = sd_clients data, sn_broadcast = sd_broadcast data,
                sn_mouse_clutch = sd_mouse_clutch data, sn_capabilities = sd_capabilities data\<rparr>
              in (snapshot, hub\<lparr>hub_current := snapshot, hub_watch := snapshot\<rparr>))"

section \<open>Keys, text and actions\<close>

text \<open>\<open>u8::from_str\<close>: an optional plus sign and decimal digits; the value fits a byte.\<close>

definition parse_u8 :: "string \<Rightarrow> nat option" where
  "parse_u8 s =
     (let digits = (case s of c # rest \<Rightarrow> if c = CHR ''+'' then rest else s | [] \<Rightarrow> [])
      in if digits \<noteq> [] \<and> list_all ascii_digit digits
           \<and> of_radix 10 (map (\<lambda>c. byte c - 48) digits) 0 \<le> u8_max
         then Some (of_radix 10 (map (\<lambda>c. byte c - 48) digits) 0) else None)"

definition strip_prefix :: "string \<Rightarrow> string \<Rightarrow> string option" where
  "strip_prefix prefix s =
     (if take (length prefix) s = prefix then Some (drop (length prefix) s) else None)"

definition named_keys :: "string list" where
  "named_keys = [''escape'', ''minus'', ''equals'', ''backspace'', ''tab'', ''left_bracket'', ''right_bracket'',
     ''enter'', ''left_control'', ''semicolon'', ''apostrophe'', ''grave'', ''left_shift'', ''backslash'',
     ''comma'', ''period'', ''slash'', ''right_shift'', ''numpad_multiply'', ''left_alt'', ''space'',
     ''caps_lock'', ''num_lock'', ''scroll_lock'', ''numpad_subtract'', ''numpad_add'', ''numpad_decimal'',
     ''numpad_divide'', ''numpad_enter'', ''right_control'', ''right_alt'', ''home'', ''arrow_up'', ''page_up'',
     ''arrow_left'', ''arrow_right'', ''end'', ''arrow_down'', ''page_down'', ''insert'', ''delete'', ''pause'']"

definition is_supported_key_name :: "string \<Rightarrow> bool" where
  "is_supported_key_name value =
     ((\<exists>c \<in> set value. value = [c] \<and> (ascii_lower c \<or> ascii_digit c))
      \<or> is_some_and (Option.bind (strip_prefix ''f'' value) parse_u8) (\<lambda>number. 1 \<le> number \<and> number \<le> 12)
      \<or> is_some_and (Option.bind (strip_prefix ''numpad_'' value) parse_u8) (\<lambda>number. number \<le> 9)
      \<or> value \<in> set named_keys)"

type_synonym KeyCode = string

definition key_code_new :: "string \<Rightarrow> ControlError + KeyCode" where
  "key_code_new value =
     (if \<not> is_supported_key_name value
      then refuse InvalidArgument ''key is not a supported semantic key name'' else Inr value)"

record KeyStroke =
  ks_keys :: "KeyCode list"
  ks_hold_ms :: nat
  ks_pause_ms :: nat

definition key_stroke_new :: "KeyCode list \<Rightarrow> nat \<Rightarrow> nat \<Rightarrow> ControlError + KeyStroke" where
  "key_stroke_new keys hold_ms pause_ms =
     (if keys = [] \<or> length keys > MAX_KEYS_PER_STROKE
      then refuse InvalidArgument ''each key stroke must contain 1 to 8 keys''
      else if hold_ms = 0 \<or> hold_ms > 1000 \<or> pause_ms > 1000
      then refuse InvalidArgument ''hold_ms must be 1 to 1000 and pause_ms must be at most 1000''
      else if \<not> distinct keys
      then refuse InvalidArgument ''a key stroke cannot contain duplicate keys''
      else Inr \<lparr>ks_keys = keys, ks_hold_ms = hold_ms, ks_pause_ms = pause_ms\<rparr>)"

definition validate_text_input :: "string \<Rightarrow> ControlError + unit" where
  "validate_text_input txt =
     (if txt = [] \<or> length txt > MAX_TEXT_BYTES \<or> char_count txt > MAX_TEXT_CHARS \<or> contains_control txt
      then refuse InvalidArgument ''text must contain 1 to 256 printable characters and at most 1024 bytes''
      else Inr ())"

definition validate_key_strokes :: "KeyStroke list \<Rightarrow> ControlError + unit" where
  "validate_key_strokes strokes =
     (if strokes = [] \<or> length strokes > MAX_KEY_STROKES
      then refuse InvalidArgument ''send_keys must contain 1 to 64 key strokes''
      else if sum_list (map (\<lambda>s. ks_hold_ms s + ks_pause_ms s) strokes) > MAX_INPUT_DURATION_MS
      then refuse InvalidArgument ''the key sequence duration must not exceed 15 seconds''
      else Inr ())"

type_synonym EqMappingName = string

definition eq_mapping_name_new :: "string \<Rightarrow> ControlError + EqMappingName" where
  "eq_mapping_name_new raw =
     (let value = to_ascii_uppercase raw
      in if value = [] \<or> length value > MAX_EQ_MAPPING_NAME_BYTES
            \<or> \<not> list_all (\<lambda>b. ascii_alphanumeric b \<or> b = CHR ''_'') value
         then refuse InvalidArgument
           ''EQ mapping names must contain 1 to 128 ASCII letters, numbers, or underscores''
         else Inr value)"

datatype EqActionTargets = AllLoaded | TargetsActive | BackgroundLoaded | WindowNumbers "nat list"

fun eq_action_targets_validate :: "EqActionTargets \<Rightarrow> ControlError + unit" where
  "eq_action_targets_validate (WindowNumbers window_numbers) =
     (if window_numbers = [] \<or> length window_numbers > MAX_EQ_TARGET_WINDOWS
         \<or> length (remdups window_numbers) \<noteq> length window_numbers
         \<or> list_ex (\<lambda>n. \<not> (1 \<le> n \<and> n \<le> MAX_EQ_TARGET_WINDOWS)) window_numbers
      then refuse InvalidArgument
        ''EQ action targets require 1 to 6 unique Stonemite window numbers from 1 to 6''
      else Inr ())"
| "eq_action_targets_validate _ = Inr ()"

datatype EqAction = UseCenterScreen | InviteFollow | Hotbar nat nat | SpellGem nat | Keymap EqMappingName

fun eq_action_mapping_name :: "EqAction \<Rightarrow> EqMappingName" where
  "eq_action_mapping_name UseCenterScreen = ''USE''"
| "eq_action_mapping_name InviteFollow = ''INVITE_FOLLOW''"
| "eq_action_mapping_name (Hotbar bar button) = ''HOT'' @ nat_to_dec bar @ ''_'' @ nat_to_dec button"
| "eq_action_mapping_name (SpellGem gem) = ''CAST'' @ nat_to_dec gem"
| "eq_action_mapping_name (Keymap mapping) = mapping"

fun eq_action_validate :: "EqAction \<Rightarrow> ControlError + unit" where
  "eq_action_validate (Hotbar bar button) =
     (if \<not> (1 \<le> bar \<and> bar \<le> MAX_HOTBARS) \<or> \<not> (1 \<le> button \<and> button \<le> MAX_HOTBAR_BUTTONS)
      then refuse InvalidArgument (''hotbar actions require bar 1 to '' @ nat_to_dec MAX_HOTBARS
        @ '' and button 1 to '' @ nat_to_dec MAX_HOTBAR_BUTTONS)
      else Inr ())"
| "eq_action_validate (SpellGem gem) =
     (if \<not> (1 \<le> gem \<and> gem \<le> MAX_SPELL_GEMS)
      then refuse InvalidArgument (''spell gem actions require gem 1 to '' @ nat_to_dec MAX_SPELL_GEMS)
      else Inr ())"
| "eq_action_validate _ = Inr ()"

definition eq_action_hotbar :: "nat \<Rightarrow> nat \<Rightarrow> ControlError + EqAction" where
  "eq_action_hotbar bar button =
     and_then (eq_action_validate (Hotbar bar button)) (\<lambda>_. Inr (Hotbar bar button))"

definition eq_action_spell_gem :: "nat \<Rightarrow> ControlError + EqAction" where
  "eq_action_spell_gem gem = and_then (eq_action_validate (SpellGem gem)) (\<lambda>_. Inr (SpellGem gem))"

definition eq_action_keymap :: "string \<Rightarrow> ControlError + EqAction" where
  "eq_action_keymap mapping = and_then (eq_mapping_name_new mapping) (\<lambda>m. Inr (Keymap m))"

section \<open>Commands\<close>

datatype ClientTarget = TargetId ClientId | TargetWindowNumber nat | TargetIdentity string "string option"

datatype ActivationStatus = Activated | AlreadyActive

datatype InputKind = InputText | InputKeys

record MouseClutchOwner =
  mo_session_id :: nat
  mo_hold_id :: string

definition mouse_clutch_owner_new :: "nat \<Rightarrow> string \<Rightarrow> ControlError + MouseClutchOwner" where
  "mouse_clutch_owner_new session_id hold_id =
     (if hold_id = [] \<or> length hold_id > 128
      then refuse InvalidArgument ''hold_id must contain 1 to 128 bytes''
      else Inr \<lparr>mo_session_id = session_id, mo_hold_id = hold_id\<rparr>)"

datatype MouseClutchOperation = ClutchBegin | ClutchRenew | ClutchEnd

datatype CommandOutcome =
    ActivatedOutcome ActivationStatus bool
  | WindowNumbersSwapped nat nat
  | BroadcastSet bool
  | MouseClutchHoldUpdated bool
  | InputDelivered InputKind nat
  | EqActionDelivered EqAction
  | EqKeymapActionsListed "EqMappingName list" "nat list" "EqMappingName option"
  | EqActionBatchDelivered EqAction "nat list"

definition target_matches :: "ClientState \<Rightarrow> ClientTarget \<Rightarrow> bool" where
  "target_matches client target =
     (case target of
        TargetId i \<Rightarrow> cl_id client = i
      | TargetWindowNumber number \<Rightarrow> cl_window_number client = number
      | TargetIdentity character server \<Rightarrow>
          is_some_and (cl_character client) (\<lambda>name. eq_ignore_ascii_case name character)
          \<and> is_none_or server (\<lambda>expected.
              is_some_and (cl_server client) (\<lambda>actual. eq_ignore_ascii_case actual expected)))"

section \<open>The snapshot mapper\<close>

record SourceClient =
  src_private_key :: nat
  src_character :: "string option"
  src_server :: "string option"
  src_class_code :: "string option"
  src_window_number :: nat
  src_active :: bool
  src_activatable :: bool
  src_input_ready :: bool

record SnapshotMapper =
  sm_ids :: "(nat \<times> ClientId) list"
  sm_retired_ids :: "ClientId list"
  sm_next_id :: nat

definition mapper_new :: SnapshotMapper where
  "mapper_new = \<lparr>sm_ids = [], sm_retired_ids = [], sm_next_id = 0\<rparr>"

definition id_for_key :: "SnapshotMapper \<Rightarrow> nat \<Rightarrow> ClientId option" where
  "id_for_key m private_key = map_of (sm_ids m) private_key"

definition is_retired :: "SnapshotMapper \<Rightarrow> ClientId \<Rightarrow> bool" where
  "is_retired m i = (i \<in> set (sm_retired_ids m))"

definition generated_id :: "nat \<Rightarrow> ClientId" where
  "generated_id n = ''client-'' @ hex16 n"

definition retire_key :: "nat \<Rightarrow> SnapshotMapper \<Rightarrow> SnapshotMapper" where
  "retire_key key m =
     (case map_of (sm_ids m) key of
        None \<Rightarrow> m
      | Some i \<Rightarrow>
          let retired = sm_retired_ids m @ [i]
          in m\<lparr>sm_ids := bm_remove key (sm_ids m),
               sm_retired_ids := (if length retired > 256 then tl retired else retired)\<rparr>)"

definition assign_id :: "SourceClient \<Rightarrow> SnapshotMapper \<Rightarrow> SnapshotMapper" where
  "assign_id source m =
     (case map_of (sm_ids m) (src_private_key source) of
        Some _ \<Rightarrow> m
      | None \<Rightarrow>
          let n = u64_saturating_add (sm_next_id m) 1
          in m\<lparr>sm_next_id := n, sm_ids := (src_private_key source, generated_id n) # sm_ids m\<rparr>)"

definition map_source :: "SourceClient \<Rightarrow> SnapshotMapper \<times> ClientState list \<Rightarrow> SnapshotMapper \<times> ClientState list" where
  "map_source source acc =
     (let m = assign_id source (fst acc)
      in (m, snd acc @ [\<lparr>cl_id = the (map_of (sm_ids m) (src_private_key source)),
            cl_character = src_character source, cl_server = src_server source,
            cl_class_code = src_class_code source, cl_window_number = src_window_number source,
            cl_active = src_active source, cl_activatable = src_activatable source,
            cl_input_ready = src_input_ready source, cl_xtarget = xtarget_default\<rparr>]))"

definition window_cmp :: "ClientState \<Rightarrow> ClientState \<Rightarrow> ordering" where
  "window_cmp a b = cmp (cl_window_number a) (cl_window_number b)"

definition mapper_map ::
  "(nat list \<Rightarrow> nat list) \<Rightarrow> SourceClient list \<Rightarrow> BroadcastState \<Rightarrow> SnapshotMapper \<Rightarrow> StateData \<times> SnapshotMapper" where
  "mapper_map order sources broadcast m0 =
     (let live = src_private_key ` set sources;
          removed = filter (\<lambda>key. key \<notin> live) (order (map fst (sm_ids m0)));
          m1 = fold retire_key removed m0;
          (m2, unsorted) = fold map_source sources (m1, []);
          clients = sort_by window_cmp unsorted;
          input_available = (bc_available broadcast \<and> list_ex cl_input_ready clients)
      in (\<lparr>sd_clients = clients, sd_broadcast = broadcast, sd_mouse_clutch = MOUSE_CLUTCH_UNAVAILABLE,
           sd_capabilities = \<lparr>can_activate = True, can_swap_window_numbers = True,
             can_set_broadcast = bc_available broadcast, can_set_mouse_clutch = False,
             can_send_text = input_available, can_send_keys = input_available,
             can_eq_actions = eq_action_capabilities input_available\<rparr>\<rparr>, m2))"

end
