(* ===== verification/Trushar_Memory.thy ===== *)
theory Trushar_Memory
  imports Trushar_Control
begin

text \<open>
  The in-memory controller of \<^verbatim>\<open>crates/trushar/src/control.rs\<close>: the reference implementation of
  the \<open>Controller\<close> trait, against which the transport is tested. Every operation takes the
  controller and returns its result and the controller after it; an operation that fails may
  still have changed the state, as in the code. The lock is held for the whole of an operation's
  effect on the state, so operations are atomic here.
\<close>

section \<open>State\<close>

datatype RecordedInput =
    RecordedText ClientId string bool
  | RecordedKeys ClientId "KeyStroke list"
  | RecordedEqAction ClientId EqAction

record MemoryState =
  ms_clients :: "ClientState list"
  ms_broadcast :: BroadcastState
  ms_mouse_clutch_holds :: "MouseClutchOwner set"
  ms_mouse_clutch_sequences :: "MouseClutchOwner \<Rightarrow> nat option"
  ms_closed_sessions :: "nat \<Rightarrow> nat option"
  ms_closed_session_order :: "nat list"
  ms_next_id :: nat
  ms_activation_failure :: "string option"
  ms_broadcast_failure :: "string option"
  ms_input_failure :: "string option"
  ms_disappear_on_activate :: "ClientId set"
  ms_disappear_on_input :: "ClientId set"
  ms_retired_ids :: "ClientId set"
  ms_inputs :: "RecordedInput list"
  ms_mapped_actions :: "ClientId \<Rightarrow> EqMappingName set option"

definition memory_data :: "MemoryState \<Rightarrow> StateData" where
  "memory_data s =
     (let clients = sort_by window_cmp (ms_clients s);
          available = bc_available (ms_broadcast s);
          input_available = (available \<and> list_ex cl_input_ready clients);
          active_id = map_option cl_id (find cl_active clients);
          clutch_availability =
            (if \<not> available then ClutchInputUnavailable
             else if active_id = None then NoActiveClient
             else if list_ex (\<lambda>c. Some (cl_id c) \<noteq> active_id \<and> cl_input_ready c) clients then ClutchReady
             else NoCompatibleTargets)
      in \<lparr>sd_clients = clients, sd_broadcast = ms_broadcast s,
          sd_mouse_clutch = \<lparr>mc_phase = (if ms_mouse_clutch_holds s = {} then ClutchInactive else ClutchActive),
            mc_availability = clutch_availability\<rparr>,
          sd_capabilities = \<lparr>can_activate = True, can_swap_window_numbers = True,
            can_set_broadcast = available, can_set_mouse_clutch = available,
            can_send_text = input_available, can_send_keys = input_available,
            can_eq_actions = eq_action_capabilities input_available\<rparr>\<rparr>)"

record InMemoryController =
  im_state :: MemoryState
  im_hub :: StateHub

definition commit :: "MemoryState \<Rightarrow> InMemoryController \<Rightarrow> InMemoryController" where
  "commit s c = c\<lparr>im_state := s, im_hub := snd (hub_publish (memory_data s) (im_hub c))\<rparr>"

definition memory_new :: "BroadcastState \<Rightarrow> InMemoryController" where
  "memory_new broadcast =
     (let s = \<lparr>ms_clients = [], ms_broadcast = broadcast, ms_mouse_clutch_holds = {},
            ms_mouse_clutch_sequences = Map.empty, ms_closed_sessions = Map.empty, ms_closed_session_order = [],
            ms_next_id = 0, ms_activation_failure = None, ms_broadcast_failure = None,
            ms_input_failure = None, ms_disappear_on_activate = {}, ms_disappear_on_input = {},
            ms_retired_ids = {}, ms_inputs = [], ms_mapped_actions = Map.empty\<rparr>
      in \<lparr>im_state = s, im_hub = hub_new (memory_data s)\<rparr>)"

section \<open>Local operations\<close>

definition memory_default_mappings :: "EqMappingName set" where
  "memory_default_mappings =
     {''USE'', ''INVITE_FOLLOW''}
     \<union> (\<lambda>button. ''HOT1_'' @ nat_to_dec button) ` set [1..<MAX_HOTBAR_BUTTONS + 1]
     \<union> (\<lambda>gem. ''CAST'' @ nat_to_dec gem) ` set [1..<MAX_SPELL_GEMS + 1]"

definition add_client ::
  "nat \<Rightarrow> string option \<Rightarrow> string option \<Rightarrow> string option \<Rightarrow> bool \<Rightarrow> bool \<Rightarrow> InMemoryController
   \<Rightarrow> ClientId \<times> InMemoryController" where
  "add_client window_number character server class_code active activatable c =
     (let s = im_state c;
          n = u64_saturating_add (ms_next_id s) 1;
          i = generated_id n;
          others = (if active then map (\<lambda>cl. cl\<lparr>cl_active := False\<rparr>) (ms_clients s) else ms_clients s);
          new = \<lparr>cl_id = i, cl_character = character, cl_server = server, cl_class_code = class_code,
                 cl_window_number = window_number, cl_active = active, cl_activatable = activatable,
                 cl_input_ready = bc_available (ms_broadcast s), cl_xtarget = xtarget_default\<rparr>
      in (i, commit (s\<lparr>ms_next_id := n, ms_clients := others @ [new],
              ms_mapped_actions := (ms_mapped_actions s)(i \<mapsto> memory_default_mappings)\<rparr>) c))"

definition remove_client :: "ClientId \<Rightarrow> InMemoryController \<Rightarrow> InMemoryController" where
  "remove_client i c =
     (let s = im_state c
      in commit (s\<lparr>ms_retired_ids := (if list_ex (\<lambda>cl. cl_id cl = i) (ms_clients s)
                     then insert i (ms_retired_ids s) else ms_retired_ids s),
                   ms_clients := filter (\<lambda>cl. cl_id cl \<noteq> i) (ms_clients s),
                   ms_mapped_actions := (ms_mapped_actions s)(i := None)\<rparr>) c)"

text \<open>\<open>iter_mut().find\<close> followed by an update of the first match.\<close>

fun update_first :: "('a \<Rightarrow> bool) \<Rightarrow> ('a \<Rightarrow> 'a) \<Rightarrow> 'a list \<Rightarrow> 'a list" where
  "update_first P f [] = []"
| "update_first P f (x # xs) = (if P x then f x # xs else x # update_first P f xs)"

definition enrich_client ::
  "ClientId \<Rightarrow> string option \<Rightarrow> string option \<Rightarrow> string option \<Rightarrow> InMemoryController \<Rightarrow> InMemoryController" where
  "enrich_client i character server class_code c =
     (let s = im_state c
      in commit (s\<lparr>ms_clients := update_first (\<lambda>cl. cl_id cl = i)
           (\<lambda>cl. cl\<lparr>cl_character := character, cl_server := server, cl_class_code := class_code\<rparr>)
           (ms_clients s)\<rparr>) c)"

definition activate_only :: "ClientId \<Rightarrow> ClientState list \<Rightarrow> ClientState list" where
  "activate_only i clients = map (\<lambda>cl. cl\<lparr>cl_active := (cl_id cl = i)\<rparr>) clients"

definition set_active_locally :: "ClientId \<Rightarrow> InMemoryController \<Rightarrow> InMemoryController" where
  "set_active_locally i c =
     (let s = im_state c in commit (s\<lparr>ms_clients := activate_only i (ms_clients s)\<rparr>) c)"

definition set_input_ready :: "ClientId \<Rightarrow> bool \<Rightarrow> InMemoryController \<Rightarrow> InMemoryController" where
  "set_input_ready i input_ready c =
     (let s = im_state c
      in commit (s\<lparr>ms_clients := update_first (\<lambda>cl. cl_id cl = i)
           (\<lambda>cl. cl\<lparr>cl_input_ready := input_ready\<rparr>) (ms_clients s)\<rparr>) c)"

definition set_broadcast_availability :: "bool \<Rightarrow> InMemoryController \<Rightarrow> InMemoryController" where
  "set_broadcast_availability available c =
     (let s = im_state c; b = (ms_broadcast s)\<lparr>bc_available := available\<rparr>
      in commit (s\<lparr>ms_broadcast := (if \<not> available then b\<lparr>bc_enabled := False\<rparr> else b)\<rparr>) c)"

definition set_broadcast_locally :: "bool \<Rightarrow> InMemoryController \<Rightarrow> InMemoryController" where
  "set_broadcast_locally enabled c =
     (let s = im_state c
      in commit (s\<lparr>ms_broadcast := (if bc_available (ms_broadcast s)
           then (ms_broadcast s)\<lparr>bc_enabled := enabled\<rparr> else ms_broadcast s)\<rparr>) c)"

definition on_state :: "(MemoryState \<Rightarrow> MemoryState) \<Rightarrow> InMemoryController \<Rightarrow> InMemoryController" where
  "on_state f c = c\<lparr>im_state := f (im_state c)\<rparr>"

definition fail_next_activation :: "string \<Rightarrow> InMemoryController \<Rightarrow> InMemoryController" where
  "fail_next_activation message = on_state (\<lambda>s. s\<lparr>ms_activation_failure := Some message\<rparr>)"

definition fail_next_broadcast :: "string \<Rightarrow> InMemoryController \<Rightarrow> InMemoryController" where
  "fail_next_broadcast message = on_state (\<lambda>s. s\<lparr>ms_broadcast_failure := Some message\<rparr>)"

definition fail_next_input :: "string \<Rightarrow> InMemoryController \<Rightarrow> InMemoryController" where
  "fail_next_input message = on_state (\<lambda>s. s\<lparr>ms_input_failure := Some message\<rparr>)"

fun collect_results :: "('e + 'a) list \<Rightarrow> 'e + 'a list" where
  "collect_results [] = Inr []"
| "collect_results (r # rs) = and_then r (\<lambda>v. and_then (collect_results rs) (\<lambda>vs. Inr (v # vs)))"

definition set_mapped_actions ::
  "ClientId \<Rightarrow> string list \<Rightarrow> InMemoryController \<Rightarrow> (ControlError + unit) \<times> InMemoryController" where
  "set_mapped_actions i mappings c =
     (case collect_results (map eq_mapping_name_new mappings) of
        Inl e \<Rightarrow> (Inl e, c)
      | Inr names \<Rightarrow> (Inr (), on_state (\<lambda>s. s\<lparr>ms_mapped_actions := (ms_mapped_actions s)(i \<mapsto> set names)\<rparr>) c))"

definition disappear_on_next_activation :: "ClientId \<Rightarrow> InMemoryController \<Rightarrow> InMemoryController" where
  "disappear_on_next_activation i =
     on_state (\<lambda>s. s\<lparr>ms_disappear_on_activate := insert i (ms_disappear_on_activate s)\<rparr>)"

definition disappear_on_next_input :: "ClientId \<Rightarrow> InMemoryController \<Rightarrow> InMemoryController" where
  "disappear_on_next_input i =
     on_state (\<lambda>s. s\<lparr>ms_disappear_on_input := insert i (ms_disappear_on_input s)\<rparr>)"

section \<open>Commands\<close>

text \<open>The target resolution that \<open>activate\<close> and \<open>swap_window_numbers\<close> share.\<close>

definition resolve_index :: "MemoryState \<Rightarrow> ClientTarget \<Rightarrow> ControlError + nat" where
  "resolve_index s target =
     (let matches = filter (\<lambda>index. target_matches (ms_clients s ! index) target) [0..<length (ms_clients s)]
      in if matches = [] then
           (case target of
              TargetId i \<Rightarrow> if i \<in> ms_retired_ids s
                then refuse TargetDisappeared ''the target is no longer loaded''
                else refuse ClientNotFound ''no loaded client matches the target''
            | _ \<Rightarrow> refuse ClientNotFound ''no loaded client matches the target'')
         else if length matches > 1
         then refuse AmbiguousTarget ''more than one loaded client matches the target''
         else Inr (hd matches))"

definition remove_index :: "nat \<Rightarrow> 'a list \<Rightarrow> 'a list" where
  "remove_index index xs = take index xs @ drop (Suc index) xs"

type_synonym 'a command = "InMemoryController \<Rightarrow> (ControlError + 'a) \<times> InMemoryController"

definition activate :: "ClientTarget \<Rightarrow> CommandOutcome command" where
  "activate target c =
     (let s = im_state c
      in case resolve_index s target of
           Inl e \<Rightarrow> (Inl e, c)
         | Inr index \<Rightarrow>
             let i = cl_id (ms_clients s ! index)
             in if i \<in> ms_disappear_on_activate s
                then (refuse TargetDisappeared ''the target disappeared before activation'',
                      commit (s\<lparr>ms_disappear_on_activate := ms_disappear_on_activate s - {i},
                        ms_clients := remove_index index (ms_clients s),
                        ms_retired_ids := insert i (ms_retired_ids s)\<rparr>) c)
                else if \<not> cl_activatable (ms_clients s ! index)
                then (refuse ActivationFailed ''the loaded client is outside the supported activation set'', c)
                else (case ms_activation_failure s of
                    Some message \<Rightarrow> (refuse ActivationFailed message,
                      on_state (\<lambda>s. s\<lparr>ms_activation_failure := None\<rparr>) c)
                  | None \<Rightarrow>
                      let already_active = cl_active (ms_clients s ! index)
                      in (Inr (ActivatedOutcome (if already_active then AlreadyActive else Activated) True),
                          commit (if already_active then s
                            else s\<lparr>ms_clients := activate_only i (ms_clients s)\<rparr>) c)))"

fun position_from :: "('a \<Rightarrow> bool) \<Rightarrow> nat \<Rightarrow> 'a list \<Rightarrow> nat option" where
  "position_from P n [] = None"
| "position_from P n (x # xs) = (if P x then Some n else position_from P (Suc n) xs)"

definition swap_window_numbers :: "ClientTarget \<Rightarrow> CommandOutcome command" where
  "swap_window_numbers target c =
     (let s = im_state c; clients = ms_clients s
      in case resolve_index s target of
           Inl e \<Rightarrow> (Inl e, c)
         | Inr selected \<Rightarrow>
             (case position_from cl_active 0 clients of
                None \<Rightarrow> (refuse WindowNumberSwapFailed
                  ''there is no active client whose window number can be swapped'', c)
              | Some active_index \<Rightarrow>
                  let active_previous = cl_window_number (clients ! active_index);
                      selected_previous = cl_window_number (clients ! selected);
                      swapped = (if active_index \<noteq> selected
                        then (clients[active_index := (clients ! active_index)\<lparr>cl_window_number := selected_previous\<rparr>])
                               [selected := (clients ! selected)\<lparr>cl_window_number := active_previous\<rparr>]
                        else clients)
                  in (Inr (WindowNumbersSwapped active_previous selected_previous),
                      commit (s\<lparr>ms_clients := swapped\<rparr>) c)))"

definition set_broadcast_enabled :: "bool \<Rightarrow> CommandOutcome command" where
  "set_broadcast_enabled enabled c =
     (let s = im_state c
      in if \<not> bc_available (ms_broadcast s)
         then (refuse BroadcastUnavailable ''broadcasting is unavailable because trusik is disabled'', c)
         else (case ms_broadcast_failure s of
             Some message \<Rightarrow> (refuse BroadcastOperationFailed message,
               on_state (\<lambda>s. s\<lparr>ms_broadcast_failure := None\<rparr>) c)
           | None \<Rightarrow> (Inr (BroadcastSet enabled),
               commit (s\<lparr>ms_broadcast := (ms_broadcast s)\<lparr>bc_enabled := enabled\<rparr>\<rparr>) c)))"

definition update_mouse_clutch_hold ::
  "MouseClutchOwner \<Rightarrow> MouseClutchOperation \<Rightarrow> nat \<Rightarrow> CommandOutcome command" where
  "update_mouse_clutch_hold owner operation sequence c =
     (let s = im_state c
      in if ms_closed_sessions s (mo_session_id owner) \<noteq> None
         then (refuse MouseClutchHoldExpired ''the Mouse Clutch connection is no longer active'', c)
         else if sequence \<le> unwrap_or (ms_mouse_clutch_sequences s owner) 0
         then (Inr (MouseClutchHoldUpdated (owner \<in> ms_mouse_clutch_holds s)), commit s c)
         else let s1 = s\<lparr>ms_mouse_clutch_sequences := (ms_mouse_clutch_sequences s)(owner \<mapsto> sequence)\<rparr>
              in (case operation of
                    ClutchBegin \<Rightarrow>
                      if mc_availability (sd_mouse_clutch (memory_data s1)) \<noteq> ClutchReady
                      then (refuse MouseClutchNotReady
                        ''Mouse Clutch needs a foreground client and a compatible ready background target'',
                        c\<lparr>im_state := s1\<rparr>)
                      else (Inr (MouseClutchHoldUpdated True),
                        commit (s1\<lparr>ms_mouse_clutch_holds := insert owner (ms_mouse_clutch_holds s1)\<rparr>) c)
                  | ClutchRenew \<Rightarrow>
                      if owner \<notin> ms_mouse_clutch_holds s1
                      then (refuse MouseClutchHoldExpired ''the Mouse Clutch hold is no longer active'',
                        c\<lparr>im_state := s1\<rparr>)
                      else (Inr (MouseClutchHoldUpdated True), commit s1 c)
                  | ClutchEnd \<Rightarrow>
                      (Inr (MouseClutchHoldUpdated False),
                       commit (s1\<lparr>ms_mouse_clutch_holds := ms_mouse_clutch_holds s1 - {owner}\<rparr>) c)))"

text \<open>The \<open>while\<close> loop that forgets the oldest closed sessions.\<close>

fun expire_sessions :: "(nat \<Rightarrow> nat option) \<Rightarrow> nat list \<Rightarrow> (nat \<Rightarrow> nat option) \<times> nat list" where
  "expire_sessions closed [] = (closed, [])"
| "expire_sessions closed (expired # order) =
     (if length (expired # order) > 256 then expire_sessions (closed(expired := None)) order
      else (closed, expired # order))"

definition end_mouse_clutch_session :: "nat \<Rightarrow> nat \<Rightarrow> unit command" where
  "end_mouse_clutch_session session_id sequence c =
     (let s = im_state c;
          order = (if ms_closed_sessions s session_id = None
            then ms_closed_session_order s @ [session_id] else ms_closed_session_order s);
          (closed, order') = expire_sessions ((ms_closed_sessions s)(session_id \<mapsto> sequence)) order
      in (Inr (), commit (s\<lparr>ms_closed_sessions := closed, ms_closed_session_order := order',
            ms_mouse_clutch_holds := {owner \<in> ms_mouse_clutch_holds s. mo_session_id owner \<noteq> session_id},
            ms_mouse_clutch_sequences := (\<lambda>owner. if mo_session_id owner \<noteq> session_id
              then ms_mouse_clutch_sequences s owner else None)\<rparr>) c))"

text \<open>The checks every targeted input starts with.\<close>

definition prepare_memory_input :: "ClientId \<Rightarrow> unit command" where
  "prepare_memory_input i c =
     (let s = im_state c
      in if \<not> bc_available (ms_broadcast s)
         then (refuse InputUnavailable ''targeted input is unavailable because trusik is disabled'', c)
         else (case position_from (\<lambda>cl. cl_id cl = i) 0 (ms_clients s) of
             None \<Rightarrow> (refuse (if i \<in> ms_retired_ids s then TargetDisappeared else ClientNotFound)
               ''the target client is not loaded'', c)
           | Some index \<Rightarrow>
               if \<not> cl_input_ready (ms_clients s ! index)
               then (refuse InputUnavailable
                 ''targeted input is unavailable because the selected client's trusik proxy is not ready'', c)
               else if i \<in> ms_disappear_on_input s
               then (refuse TargetDisappeared ''the target disappeared before input delivery'',
                     commit (s\<lparr>ms_disappear_on_input := ms_disappear_on_input s - {i},
                       ms_clients := remove_index index (ms_clients s),
                       ms_mapped_actions := (ms_mapped_actions s)(cl_id (ms_clients s ! index) := None),
                       ms_retired_ids := insert (cl_id (ms_clients s ! index)) (ms_retired_ids s)\<rparr>) c)
               else (case ms_input_failure s of
                   Some message \<Rightarrow> (refuse InputOperationFailed message,
                     on_state (\<lambda>s. s\<lparr>ms_input_failure := None\<rparr>) c)
                 | None \<Rightarrow> (Inr (), c))))"

definition record_input :: "RecordedInput \<Rightarrow> InMemoryController \<Rightarrow> InMemoryController" where
  "record_input input = on_state (\<lambda>s. s\<lparr>ms_inputs := ms_inputs s @ [input]\<rparr>)"

text \<open>One targeted input: its validation, the common checks, and the delivery.\<close>

definition deliver ::
  "(ControlError + unit) \<Rightarrow> ClientId \<Rightarrow> RecordedInput \<Rightarrow> CommandOutcome \<Rightarrow> CommandOutcome command" where
  "deliver valid i input outcome c =
     (case valid of
        Inl e \<Rightarrow> (Inl e, c)
      | Inr _ \<Rightarrow>
          (case prepare_memory_input i c of
             (Inl e, c') \<Rightarrow> (Inl e, c')
           | (Inr _, c') \<Rightarrow> (Inr outcome, record_input input c')))"

definition send_text :: "ClientId \<Rightarrow> string \<Rightarrow> bool \<Rightarrow> CommandOutcome command" where
  "send_text i txt submit =
     deliver (validate_text_input txt) i (RecordedText i txt submit)
       (InputDelivered InputText (char_count txt + (if submit then 1 else 0)))"

definition send_keys :: "ClientId \<Rightarrow> KeyStroke list \<Rightarrow> CommandOutcome command" where
  "send_keys i strokes =
     deliver (validate_key_strokes strokes) i (RecordedKeys i strokes) (InputDelivered InputKeys (length strokes))"

definition send_eq_action :: "ClientId \<Rightarrow> EqAction \<Rightarrow> CommandOutcome command" where
  "send_eq_action i action =
     deliver (eq_action_validate action) i (RecordedEqAction i action) (EqActionDelivered action)"

section \<open>Keymap actions\<close>

definition memory_action_is_mapped :: "MemoryState \<Rightarrow> ClientId \<Rightarrow> EqAction \<Rightarrow> bool" where
  "memory_action_is_mapped s i action =
     is_some_and (ms_mapped_actions s i) (\<lambda>mappings. eq_action_mapping_name action \<in> mappings)"

definition memory_clients_for_listing :: "MemoryState \<Rightarrow> EqActionTargets \<Rightarrow> ControlError + ClientState list" where
  "memory_clients_for_listing s targets =
     (let active = map_option cl_id (find cl_active (ms_clients s));
          missing = refuse ClientNotFound ''no active client is available for the dynamic EQ action target''
      in case targets of
           AllLoaded \<Rightarrow> Inr (ms_clients s)
         | TargetsActive \<Rightarrow> (case active of None \<Rightarrow> missing
             | Some i \<Rightarrow> Inr (filter (\<lambda>cl. cl_id cl = i) (ms_clients s)))
         | BackgroundLoaded \<Rightarrow> (case active of None \<Rightarrow> missing
             | Some i \<Rightarrow> Inr (filter (\<lambda>cl. cl_id cl \<noteq> i) (ms_clients s)))
         | WindowNumbers numbers \<Rightarrow>
             Inr (filter (\<lambda>cl. cl_window_number cl \<in> set numbers) (ms_clients s)))"

definition memory_clients_for_delivery :: "MemoryState \<Rightarrow> EqActionTargets \<Rightarrow> ControlError + ClientState list" where
  "memory_clients_for_delivery s targets =
     and_then (memory_clients_for_listing s targets) (\<lambda>clients.
       case targets of
         AllLoaded \<Rightarrow> if clients = []
           then refuse ClientNotFound ''no loaded clients match the all-boxes target'' else Inr clients
       | BackgroundLoaded \<Rightarrow> if clients = []
           then refuse ClientNotFound ''no loaded clients match the background-boxes target'' else Inr clients
       | WindowNumbers numbers \<Rightarrow> if length clients \<noteq> length numbers
           then refuse ClientNotFound (''Stonemite box ''
             @ nat_to_dec (unwrap_or (find (\<lambda>number. \<not> list_ex (\<lambda>cl. cl_window_number cl = number) clients) numbers) 0)
             @ '' is not loaded'')
           else Inr clients
       | _ \<Rightarrow> Inr clients)"

definition shared_mappings :: "MemoryState \<Rightarrow> ClientState list \<Rightarrow> EqMappingName set" where
  "shared_mappings s clients =
     (case clients of
        [] \<Rightarrow> {}
      | first # rest \<Rightarrow>
          fold (\<lambda>cl shared. {mapping \<in> shared. mapping \<in> unwrap_or (ms_mapped_actions s (cl_id cl)) {}})
            rest (unwrap_or (ms_mapped_actions s (cl_id first)) {}))"

definition keymap_page :: "EqMappingName list \<Rightarrow> EqMappingName option \<Rightarrow> EqMappingName list \<times> EqMappingName option" where
  "keymap_page sorted_names after =
     (let mappings = (case after of None \<Rightarrow> sorted_names
            | Some a \<Rightarrow> filter (\<lambda>mapping. mapping > a) sorted_names)
      in (take EQ_KEYMAP_PAGE_SIZE mappings,
          if length mappings > EQ_KEYMAP_PAGE_SIZE then Some (mappings ! (EQ_KEYMAP_PAGE_SIZE - 1)) else None))"

definition list_eq_keymap_actions ::
  "EqActionTargets \<Rightarrow> EqMappingName option \<Rightarrow> CommandOutcome command" where
  "list_eq_keymap_actions targets after c =
     (and_then (eq_action_targets_validate targets) (\<lambda>_.
        and_then (memory_clients_for_listing (im_state c) targets) (\<lambda>clients.
          let (mappings, next_after) =
                keymap_page (sorted_list_of_set (shared_mappings (im_state c) clients)) after
          in Inr (EqKeymapActionsListed mappings (sort (map cl_window_number clients)) next_after))), c)"

text \<open>
  The loop that checks every selected client before anything is delivered. The first branch is
  the code's \<open>expect\<close>, a panic; it is unreachable, since the identifiers come from the clients.
\<close>

fun batch_check :: "MemoryState \<Rightarrow> EqAction \<Rightarrow> ClientId list \<Rightarrow> ControlError + unit" where
  "batch_check s action [] = Inr ()"
| "batch_check s action (i # ids) =
     (case find (\<lambda>cl. cl_id cl = i) (ms_clients s) of
        None \<Rightarrow> refuse InternalError ''selected memory client disappeared while locked''
      | Some client \<Rightarrow>
          if \<not> cl_input_ready client
          then refuse InputUnavailable (''targeted input is unavailable because Stonemite box ''
            @ nat_to_dec (cl_window_number client) @ '' is not ready'')
          else if \<not> memory_action_is_mapped s i action
          then refuse EqActionUnbound (''the selected EQ action is not mapped for Stonemite box ''
            @ nat_to_dec (cl_window_number client))
          else batch_check s action ids)"

definition window_of :: "MemoryState \<Rightarrow> ClientId \<Rightarrow> nat" where
  "window_of s i = cl_window_number (the (find (\<lambda>cl. cl_id cl = i) (ms_clients s)))"

definition send_eq_action_batch :: "EqActionTargets \<Rightarrow> EqAction \<Rightarrow> CommandOutcome command" where
  "send_eq_action_batch targets action c =
     (let s = im_state c
      in case and_then (eq_action_targets_validate targets) (\<lambda>_.
                and_then (eq_action_validate action) (\<lambda>_.
                and_then (memory_clients_for_delivery s targets) (\<lambda>clients.
                and_then (batch_check s action (map cl_id clients)) (\<lambda>_. Inr (map cl_id clients))))) of
           Inl e \<Rightarrow> (Inl e, c)
         | Inr client_ids \<Rightarrow>
             if \<not> bc_available (ms_broadcast s)
             then (refuse InputUnavailable ''targeted input is unavailable because trusik is disabled'', c)
             else (case find (\<lambda>i. i \<in> ms_disappear_on_input s) client_ids of
                 Some i \<Rightarrow>
                   let s1 = s\<lparr>ms_disappear_on_input := ms_disappear_on_input s - {i}\<rparr>
                   in (refuse TargetDisappeared ''a target disappeared before batch input delivery'',
                       (case position_from (\<lambda>cl. cl_id cl = i) 0 (ms_clients s) of
                          None \<Rightarrow> c\<lparr>im_state := s1\<rparr>
                        | Some index \<Rightarrow>
                            commit (s1\<lparr>ms_clients := remove_index index (ms_clients s),
                              ms_mapped_actions := (ms_mapped_actions s)(i := None),
                              ms_retired_ids := insert i (ms_retired_ids s)\<rparr>) c))
               | None \<Rightarrow>
                   (case ms_input_failure s of
                      Some message \<Rightarrow> (refuse InputOperationFailed message,
                        on_state (\<lambda>s. s\<lparr>ms_input_failure := None\<rparr>) c)
                    | None \<Rightarrow>
                        (Inr (EqActionBatchDelivered action (sort (map (window_of s) client_ids))),
                         fold (\<lambda>i. record_input (RecordedEqAction i action)) client_ids c))))"

end
