(* ===== verification/Trushar_Mapper.thy ===== *)
theory Trushar_Mapper
  imports Trushar_Control
begin

text \<open>
  What the \<open>SnapshotMapper\<close> promises: a loaded client keeps its identifier for as long as it is
  loaded, two loaded clients never share one, and an identifier is never given to another client
  later. It rests on the injectivity of the printed counter.
\<close>

section \<open>The printed counter\<close>

lemma of_radix_zeros: "of_radix b (replicate k 0 @ ds) 0 = of_radix b ds 0"
  by (induction k) auto

definition hex_value :: "string \<Rightarrow> nat" where
  "hex_value s = of_radix 16 (map (\<lambda>c. THE d. d < 16 \<and> digit_char d = c) s) 0"

lemma hex_digit_value: "d < 16 \<Longrightarrow> (THE e. e < 16 \<and> digit_char e = digit_char d) = d"
  by (rule the_equality) (auto simp: digit_char_inj)

lemma hex16_value: "hex_value (hex16 n) = n"
proof -
  have zero: "CHR ''0'' = digit_char 0" by code_simp
  have "map (\<lambda>c. THE d. d < 16 \<and> digit_char d = c) (map digit_char (radix_digits 16 n)) = radix_digits 16 n"
    using radix_digits_bound [of 16 _ n] by (auto simp: hex_digit_value intro!: map_idI)
  then show ?thesis
    by (simp add: hex_value_def hex16_def Let_def zero hex_digit_value map_replicate_const
        of_radix_zeros radix_digits_roundtrip)
qed

lemma generated_id_inj [simp]: "generated_id a = generated_id b \<longleftrightarrow> a = b"
  unfolding generated_id_def by (metis hex16_value same_append_eq)

section \<open>The invariant\<close>

definition issued :: "nat \<Rightarrow> ClientId set" where
  "issued n = generated_id ` {1..n}"

definition mapper_inv :: "SnapshotMapper \<Rightarrow> bool" where
  "mapper_inv m \<longleftrightarrow> distinct (map fst (sm_ids m)) \<and> distinct (map snd (sm_ids m) @ sm_retired_ids m)
     \<and> set (map snd (sm_ids m) @ sm_retired_ids m) \<subseteq> issued (sm_next_id m) \<and> length (sm_retired_ids m) \<le> 256"

lemma issued_mono: "a \<le> b \<Longrightarrow> issued a \<subseteq> issued b"
  by (auto simp: issued_def)

lemma issued_Suc: "generated_id (Suc n) \<notin> issued n" "issued (Suc n) = insert (generated_id (Suc n)) (issued n)"
  by (auto simp: issued_def atLeastAtMostSuc_conv)

lemma remove_split:
  assumes "distinct (map fst xs)" "map_of xs k = Some i"
  shows "mset (map snd xs) = add_mset i (mset (map snd (bm_remove k xs)))"
  using assms
proof (induction xs)
  case (Cons x xs)
  obtain k' v where x: "x = (k', v)" by fastforce
  show ?case
  proof (cases "k' = k")
    case True
    then have "bm_remove k xs = xs" using Cons.prems(1) x
      by (force simp: bm_remove_def filter_id_conv)
    then show ?thesis using Cons.prems x True by (simp add: bm_remove_def)
  next
    case False
    then show ?thesis using Cons x by (simp add: bm_remove_def)
  qed
qed simp

lemma remove_distinct: "distinct (map fst xs) \<Longrightarrow> distinct (map fst (bm_remove k xs))"
  by (simp add: bm_remove_def distinct_map_filter)

lemma distinct_move:
  assumes "distinct (xs @ ys)" "mset xs = add_mset i (mset xs')"
  shows "distinct (xs' @ ys @ [i])" "set (xs' @ ys @ [i]) = set (xs @ ys)"
proof -
  have "mset (xs' @ ys @ [i]) = mset (xs @ ys)" using assms(2) by simp
  then show "distinct (xs' @ ys @ [i])" "set (xs' @ ys @ [i]) = set (xs @ ys)"
    using assms(1) by (metis mset_eq_imp_distinct_iff, metis mset_eq_setD)
qed

lemma distinct_append_tl: "distinct (xs @ ys) \<Longrightarrow>
    distinct (xs @ (if P then tl ys else ys)) \<and> set (xs @ (if P then tl ys else ys)) \<subseteq> set (xs @ ys)"
  by (cases ys) auto

lemma mapper_inv_upd: "mapper_inv (m\<lparr>sm_ids := a, sm_retired_ids := b\<rparr>) \<longleftrightarrow> distinct (map fst a)
    \<and> distinct (map snd a @ b) \<and> set (map snd a @ b) \<subseteq> issued (sm_next_id m) \<and> length b \<le> 256"
  by (simp add: mapper_inv_def)

lemma retire_inv:
  assumes "mapper_inv m"
  shows "mapper_inv (retire_key k m)"
proof (cases "map_of (sm_ids m) k")
  case (Some i)
  let ?ids = "bm_remove k (sm_ids m)" and ?ret = "sm_retired_ids m @ [i]"
  note inv = assms [unfolded mapper_inv_def]
  have move: "distinct (map snd ?ids @ ?ret)" "set (map snd ?ids @ ?ret) = set (map snd (sm_ids m) @ sm_retired_ids m)"
    using distinct_move [OF _ remove_split [OF _ Some]] inv by blast+
  let ?ret' = "if length ?ret > 256 then tl ?ret else ?ret"
  have tl: "distinct (map snd ?ids @ ?ret')" "set (map snd ?ids @ ?ret') \<subseteq> set (map snd ?ids @ ?ret)"
    using distinct_append_tl [OF move(1)] by (rule conjunct1, rule conjunct2)
  have keys: "distinct (map fst ?ids)" using inv by (simp add: remove_distinct)
  have len: "length ?ret' \<le> 256" using inv by simp
  have old: "set (map snd ?ids @ ?ret) \<subseteq> issued (sm_next_id m)" unfolding move(2) using inv by blast
  have eq: "retire_key k m = m\<lparr>sm_ids := ?ids, sm_retired_ids := ?ret'\<rparr>"
    by (simp add: retire_key_def Some)
  show ?thesis unfolding eq mapper_inv_upd using keys tl len order_trans [OF tl(2) old] by (intro conjI)
qed (use assms in \<open>simp add: retire_key_def\<close>)

lemma retire_next [simp]: "sm_next_id (retire_key k m) = sm_next_id m"
  by (simp add: retire_key_def Let_def split: option.split)

lemma retire_lookup: "map_of (sm_ids (retire_key k m)) k' = (if k' = k then None else map_of (sm_ids m) k')"
  using bm_get_remove [of k "sm_ids m" k']
  by (auto simp: retire_key_def Let_def bm_get_def split: option.split)

lemma assign_inv: "mapper_inv m \<Longrightarrow> sm_next_id m < u64_max \<Longrightarrow> mapper_inv (assign_id s m)"
  using issued_Suc [of "sm_next_id m"]
  by (auto simp: mapper_inv_def assign_id_def Let_def u64_saturating_add_def map_of_eq_None_iff split: option.split)

lemma assign_next: "sm_next_id (assign_id s m) \<le> Suc (sm_next_id m)" "sm_next_id m < u64_max \<Longrightarrow> sm_next_id m \<le> sm_next_id (assign_id s m)"
  by (auto simp: assign_id_def Let_def u64_saturating_add_def split: option.split)

lemma assign_keeps: "map_of (sm_ids m) k = Some i \<Longrightarrow> map_of (sm_ids (assign_id s m)) k = Some i"
  by (auto simp: assign_id_def Let_def split: option.split)

lemma assign_lookup: "map_of (sm_ids (assign_id s m)) k \<noteq> None \<longleftrightarrow> map_of (sm_ids m) k \<noteq> None \<or> k = src_private_key s"
  by (auto simp: assign_id_def Let_def split: option.split)

lemma assign_fresh:
  assumes "map_of (sm_ids (assign_id s m)) k = Some i" "map_of (sm_ids m) k = None" "sm_next_id m < u64_max"
  shows "i \<notin> issued (sm_next_id m) \<and> i \<in> issued (sm_next_id (assign_id s m))"
proof -
  have "assign_id s m = m\<lparr>sm_next_id := Suc (sm_next_id m),
      sm_ids := (k, generated_id (Suc (sm_next_id m))) # sm_ids m\<rparr>" "i = generated_id (Suc (sm_next_id m))"
    using assms by (simp_all add: assign_id_def u64_saturating_add_def split: option.splits if_splits)
  then show ?thesis using issued_Suc [of "sm_next_id m"] by simp
qed

section \<open>One call\<close>

lemma retire_fold_inv: "mapper_inv m \<Longrightarrow> mapper_inv (fold retire_key ks m)"
  by (induction ks arbitrary: m) (simp_all add: retire_inv)

lemma retire_fold_next [simp]: "sm_next_id (fold retire_key ks m) = sm_next_id m"
  by (induction ks arbitrary: m) simp_all

lemma retire_fold_lookup:
  "map_of (sm_ids (fold retire_key ks m)) k = (if k \<in> set ks then None else map_of (sm_ids m) k)"
  by (induction ks arbitrary: m) (auto simp: retire_lookup)

text \<open>All that the identifier table goes through while the sources are assigned.\<close>

lemma assign_fold:
  assumes "mapper_inv m" "sm_next_id m + length ss \<le> u64_max"
  shows "mapper_inv (fold assign_id ss m)" "sm_next_id m \<le> sm_next_id (fold assign_id ss m)"
    "\<And>k i. map_of (sm_ids m) k = Some i \<Longrightarrow> map_of (sm_ids (fold assign_id ss m)) k = Some i"
    "\<And>k. map_of (sm_ids (fold assign_id ss m)) k \<noteq> None
      \<longleftrightarrow> map_of (sm_ids m) k \<noteq> None \<or> k \<in> src_private_key ` set ss"
    "\<And>k i. map_of (sm_ids (fold assign_id ss m)) k = Some i \<Longrightarrow> map_of (sm_ids m) k = None
      \<Longrightarrow> i \<in> issued (sm_next_id (fold assign_id ss m)) - issued (sm_next_id m)"
proof -
  have "mapper_inv (fold assign_id ss m) \<and> sm_next_id m \<le> sm_next_id (fold assign_id ss m)
      \<and> (\<forall>k i. map_of (sm_ids m) k = Some i \<longrightarrow> map_of (sm_ids (fold assign_id ss m)) k = Some i)
      \<and> (\<forall>k. map_of (sm_ids (fold assign_id ss m)) k \<noteq> None
          \<longleftrightarrow> map_of (sm_ids m) k \<noteq> None \<or> k \<in> src_private_key ` set ss)
      \<and> (\<forall>k i. map_of (sm_ids (fold assign_id ss m)) k = Some i \<longrightarrow> map_of (sm_ids m) k = None
          \<longrightarrow> i \<in> issued (sm_next_id (fold assign_id ss m)) - issued (sm_next_id m))"
    using assms
  proof (induction ss arbitrary: m)
    case (Cons s ss)
    let ?m1 = "assign_id s m" and ?m2 = "fold assign_id (s # ss) m"
    have lt: "sm_next_id m < u64_max" using Cons.prems(2) by simp
    have next1: "sm_next_id m \<le> sm_next_id ?m1" "sm_next_id ?m1 + length ss \<le> u64_max"
      using assign_next(1) [of s m] assign_next(2) [OF lt, of s] lt Cons.prems(2) by simp_all
    note IH = Cons.IH [OF assign_inv [OF Cons.prems(1) lt, of s] next1(2)]
    have fresh: "i \<in> issued (sm_next_id ?m2) - issued (sm_next_id m)"
      if "map_of (sm_ids ?m2) k = Some i" "map_of (sm_ids m) k = None" for k i
    proof (cases "map_of (sm_ids ?m1) k")
      case None
      then have "i \<in> issued (sm_next_id ?m2) - issued (sm_next_id ?m1)" using IH that(1) by simp
      then show ?thesis using issued_mono [OF next1(1)] by blast
    next
      case (Some j)
      then have "j = i" using IH that(1) by simp
      then show ?thesis using assign_fresh [OF _ that(2) lt, of s] Some IH
          issued_mono [of "sm_next_id ?m1" "sm_next_id ?m2"] by auto
    qed
    have keep: "map_of (sm_ids ?m2) k = Some i" if "map_of (sm_ids m) k = Some i" for k i
      using IH assign_keeps [OF that, of s] by simp
    have dom: "map_of (sm_ids ?m2) k \<noteq> None \<longleftrightarrow> map_of (sm_ids m) k \<noteq> None \<or> k \<in> src_private_key ` set (s # ss)" for k
      using IH assign_lookup [of s m k] by auto
    show ?case using IH next1(1) fresh keep dom by (intro conjI allI impI) simp_all
  qed simp
  then show "mapper_inv (fold assign_id ss m)" "sm_next_id m \<le> sm_next_id (fold assign_id ss m)"
    "\<And>k i. map_of (sm_ids m) k = Some i \<Longrightarrow> map_of (sm_ids (fold assign_id ss m)) k = Some i"
    "\<And>k. map_of (sm_ids (fold assign_id ss m)) k \<noteq> None
      \<longleftrightarrow> map_of (sm_ids m) k \<noteq> None \<or> k \<in> src_private_key ` set ss"
    "\<And>k i. map_of (sm_ids (fold assign_id ss m)) k = Some i \<Longrightarrow> map_of (sm_ids m) k = None
      \<Longrightarrow> i \<in> issued (sm_next_id (fold assign_id ss m)) - issued (sm_next_id m)"
    by simp_all
qed

lemma map_source_fold: "fst (fold map_source ss (m, cs)) = fold assign_id ss m"
  by (induction ss arbitrary: m cs) (simp_all add: map_source_def Let_def)

lemma mset_map_sort_by: "mset (map f (sort_by c xs)) = mset (map f xs)"
  by simp

lemma map_source_clients:
  assumes "mapper_inv m" "sm_next_id m + length ss \<le> u64_max"
  shows "map (\<lambda>c. (Some (cl_id c), cl_window_number c)) (snd (fold map_source ss (m, cs)))
    = map (\<lambda>c. (Some (cl_id c), cl_window_number c)) cs
      @ map (\<lambda>s. (id_for_key (fold assign_id ss m) (src_private_key s), src_window_number s)) ss"
  using assms
proof (induction ss arbitrary: m cs)
  case (Cons s ss)
  let ?m1 = "assign_id s m"
  have lt: "sm_next_id m < u64_max" using Cons.prems(2) by simp
  have m1: "mapper_inv ?m1" "sm_next_id ?m1 + length ss \<le> u64_max"
    using assign_inv [OF Cons.prems(1) lt] assign_next(1) [of s m] Cons.prems(2) by simp_all
  obtain i where i: "map_of (sm_ids ?m1) (src_private_key s) = Some i" using assign_lookup [of s m "src_private_key s"] by auto
  then have "id_for_key (fold assign_id ss ?m1) (src_private_key s) = Some i"
    using assign_fold(3) [OF m1] by (simp add: id_for_key_def)
  then show ?case using Cons.IH [OF m1] i by (simp add: map_source_def Let_def)
qed simp

definition mapper_step ::
  "SourceClient list \<Rightarrow> SnapshotMapper \<Rightarrow> StateData \<Rightarrow> SnapshotMapper \<Rightarrow> bool" where
  "mapper_step sources m data m' \<longleftrightarrow> (\<exists>order broadcast. mset (order (map fst (sm_ids m))) = mset (map fst (sm_ids m))
     \<and> mapper_map order sources broadcast m = (data, m'))"

lemma mapper_step_parts:
  assumes "mapper_step sources m data m'"
  obtains ks where "\<And>k. k \<in> set ks \<longleftrightarrow> map_of (sm_ids m) k \<noteq> None \<and> k \<notin> src_private_key ` set sources"
    "m' = fold assign_id sources (fold retire_key ks m)"
    "sd_clients data = sort_by window_cmp (snd (fold map_source sources (fold retire_key ks m, [])))"
proof -
  from assms obtain order broadcast where perm: "mset (order (map fst (sm_ids m))) = mset (map fst (sm_ids m))"
    and eq: "mapper_map order sources broadcast m = (data, m')" by (auto simp: mapper_step_def)
  define ks where "ks = filter (\<lambda>k. k \<notin> src_private_key ` set sources) (order (map fst (sm_ids m)))"
  have "k \<in> set ks \<longleftrightarrow> map_of (sm_ids m) k \<noteq> None \<and> k \<notin> src_private_key ` set sources" for k
    using mset_eq_setD [OF perm] by (auto simp: ks_def map_of_eq_None_iff)
  moreover have "m' = fst (fold map_source sources (fold retire_key ks m, []))"
    "sd_clients data = sort_by window_cmp (snd (fold map_source sources (fold retire_key ks m, [])))"
    using eq by (auto simp: mapper_map_def Let_def ks_def case_prod_beta)
  ultimately show thesis using that map_source_fold by metis
qed

lemma mapper_step_facts:
  assumes step: "mapper_step sources m data m'" and inv: "mapper_inv m"
    and room: "sm_next_id m + length sources \<le> u64_max"
  shows "mapper_inv m'" "sm_next_id m \<le> sm_next_id m'"
    "id_for_key m' k \<noteq> None \<longleftrightarrow> k \<in> src_private_key ` set sources"
    "k \<in> src_private_key ` set sources \<Longrightarrow> id_for_key m k = Some i \<Longrightarrow> id_for_key m' k = Some i"
    "id_for_key m' k = Some i \<Longrightarrow> id_for_key m k = Some i \<or> i \<in> issued (sm_next_id m') - issued (sm_next_id m)"
    "mset (map (\<lambda>c. (Some (cl_id c), cl_window_number c)) (sd_clients data))
      = mset (map (\<lambda>s. (id_for_key m' (src_private_key s), src_window_number s)) sources)"
    "sorted (map cl_window_number (sd_clients data))"
proof -
  obtain ks where ks: "\<And>k. k \<in> set ks \<longleftrightarrow> map_of (sm_ids m) k \<noteq> None \<and> k \<notin> src_private_key ` set sources"
    and m': "m' = fold assign_id sources (fold retire_key ks m)"
    and cl: "sd_clients data = sort_by window_cmp (snd (fold map_source sources (fold retire_key ks m, [])))"
    using mapper_step_parts [OF step] by blast
  define m1 where "m1 = fold retire_key ks m"
  have m1: "mapper_inv m1" "sm_next_id m1 + length sources \<le> u64_max" "sm_next_id m1 = sm_next_id m"
    using retire_fold_inv [OF inv] room by (simp_all add: m1_def)
  have look: "map_of (sm_ids m1) k = (if k \<in> set ks then None else map_of (sm_ids m) k)" for k
    by (simp add: m1_def retire_fold_lookup)
  note fold = assign_fold [OF m1(1,2)]
  note ids = id_for_key_def m' m1_def [symmetric]
  show "mapper_inv m'" "sm_next_id m \<le> sm_next_id m'" using fold(1,2) m1(3) by (simp_all add: ids)
  show "id_for_key m' k \<noteq> None \<longleftrightarrow> k \<in> src_private_key ` set sources"
    unfolding ids fold(4) look by (auto simp: ks)
  show "k \<in> src_private_key ` set sources \<Longrightarrow> id_for_key m k = Some i \<Longrightarrow> id_for_key m' k = Some i"
    unfolding ids by (rule fold(3)) (simp add: look ks)
  show "id_for_key m' k = Some i \<Longrightarrow> id_for_key m k = Some i \<or> i \<in> issued (sm_next_id m') - issued (sm_next_id m)"
    using fold(3) [of k] fold(5) [of k i] look [of k] m1(3) unfolding ids
    by (cases "map_of (sm_ids m1) k") (auto split: if_splits)
  show "mset (map (\<lambda>c. (Some (cl_id c), cl_window_number c)) (sd_clients data))
      = mset (map (\<lambda>s. (id_for_key m' (src_private_key s), src_window_number s)) sources)"
    using map_source_clients [OF m1(1,2), of "[]"] unfolding cl m' m1_def [symmetric] mset_map_sort_by
    by (simp only: append_Nil list.map)
  show "sorted (map cl_window_number (sd_clients data))"
    using key_cmp.sort_by_sorted [of cl_window_number] by (simp add: cl window_cmp_def [abs_def] sorted_map not_less)
qed

section \<open>The properties\<close>

text \<open>
  One call of the mapper. The published clients are exactly the loaded sources with the
  identifiers filed for them, sorted by window number; afterwards exactly the loaded sources
  have an identifier, no two of them the same one; a source that had an identifier keeps it.
  This holds in whatever order the hash map yields its keys.
\<close>

theorem identifiers_follow_sources:
  assumes step: "mapper_step sources m data m'" and inv: "mapper_inv m"
    and room: "sm_next_id m + length sources \<le> u64_max"
  shows "mset (map (\<lambda>c. (Some (cl_id c), cl_window_number c)) (sd_clients data))
      = mset (map (\<lambda>s. (id_for_key m' (src_private_key s), src_window_number s)) sources)
    \<and> sorted (map cl_window_number (sd_clients data))
    \<and> {k. id_for_key m' k \<noteq> None} = src_private_key ` set sources
    \<and> inj_on (id_for_key m') (src_private_key ` set sources)
    \<and> (\<forall>k \<in> src_private_key ` set sources. id_for_key m k \<noteq> None \<longrightarrow> id_for_key m' k = id_for_key m k)
    \<and> mapper_inv m'"
proof -
  note facts = mapper_step_facts [OF step inv room]
  have dist: "distinct (map fst (sm_ids m'))" "distinct (map snd (sm_ids m'))"
    using facts(1) by (auto simp: mapper_inv_def)
  have "inj_on (id_for_key m') (src_private_key ` set sources)"
  proof (rule inj_onI)
    fix a b assume a: "a \<in> src_private_key ` set sources" and eq: "id_for_key m' a = id_for_key m' b"
    obtain i where i: "id_for_key m' a = Some i" using facts(3) a by auto
    then have "(a, i) \<in> set (sm_ids m')" "(b, i) \<in> set (sm_ids m')"
      using eq map_of_SomeD [of "sm_ids m'"] by (simp_all add: id_for_key_def)
    then show "a = b" using dist(2) unfolding distinct_map inj_on_def by fastforce
  qed
  moreover have "\<forall>k \<in> src_private_key ` set sources. id_for_key m k \<noteq> None \<longrightarrow> id_for_key m' k = id_for_key m k"
    using facts(4) by force
  ultimately show ?thesis using facts(1,3,6,7) by blast
qed

definition sample_source_client :: "nat \<Rightarrow> nat \<Rightarrow> SourceClient" where
  "sample_source_client k w = \<lparr>src_private_key = k, src_character = None, src_server = None,
     src_class_code = None, src_window_number = w, src_active = False, src_activatable = True,
     src_input_ready = True\<rparr>"

lemma mapper_new_inv: "mapper_inv mapper_new"
  by (simp add: mapper_inv_def mapper_new_def)

lemma sample_mapper_step:
  "\<exists>data m'. mapper_step [sample_source_client 7 2, sample_source_client 9 1] mapper_new data m'"
  unfolding mapper_step_def by (metis prod.exhaust mset.simps(1) mapper_new_def SnapshotMapper.select_convs(1) list.map(1))

theorem identifiers_follow_sources_witness:
  "\<exists>m'. {k. id_for_key m' k \<noteq> None} = {7, 9}"
proof -
  obtain data m' where s: "mapper_step [sample_source_client 7 2, sample_source_client 9 1] mapper_new data m'"
    using sample_mapper_step by blast
  have "{k. id_for_key m' k \<noteq> None} = {7, 9}"
    using identifiers_follow_sources [OF s mapper_new_inv]
    by (simp add: mapper_new_def sample_source_client_def u64_max_def)
  then show ?thesis by blast
qed

text \<open>Any number of calls; each entry of the list is the sources of one call.\<close>

inductive mapper_run :: "SourceClient list list \<Rightarrow> SnapshotMapper \<Rightarrow> SnapshotMapper \<Rightarrow> bool" where
  run_nil: "mapper_run [] m m"
| run_step: "mapper_step sources m data m1 \<Longrightarrow> mapper_run rest m1 m2 \<Longrightarrow> mapper_run (sources # rest) m m2"

inductive_cases mapper_run_Nil: "mapper_run [] m m'"
inductive_cases mapper_run_Cons: "mapper_run (sources # rest) m m'"

lemma mapper_run_next:
  assumes "mapper_step sources m data m'"
  shows "sm_next_id m' \<le> sm_next_id m + length sources"
proof -
  have "sm_next_id (fold assign_id ss n) \<le> sm_next_id n + length ss" for ss n
  proof (induction ss arbitrary: n)
    case (Cons s ss)
    show ?case using Cons [of "assign_id s n"] assign_next(1) [of s n] by simp
  qed simp
  then show ?thesis using mapper_step_parts [OF assms] by (metis retire_fold_next)
qed

lemma mapper_run_mono:
  "mapper_run calls m m' \<Longrightarrow> mapper_inv m \<Longrightarrow> sm_next_id m + length (concat calls) \<le> u64_max
    \<Longrightarrow> issued (sm_next_id m) \<subseteq> issued (sm_next_id m')"
proof (induction rule: mapper_run.induct)
  case (run_step sources m data m1 rest m2)
  have room: "sm_next_id m + length sources \<le> u64_max" "sm_next_id m1 + length (concat rest) \<le> u64_max"
    using mapper_run_next [OF run_step.hyps(1)] run_step.prems(2) by simp_all
  note facts = mapper_step_facts [OF run_step.hyps(1) run_step.prems(1) room(1)]
  show ?case using run_step.IH [OF facts(1) room(2)] issued_mono [OF facts(2)] by blast
qed simp

text \<open>
  C16. No identifier is ever given away twice. After any number of calls, the identifier of a
  client is either the one that client had before them, and then it was loaded in every call,
  or it was never issued before. A client that was unloaded and comes back gets a new one, so a
  remote command addressed to the old client cannot reach another.
\<close>

theorem identifiers_never_reused:
  assumes "mapper_run calls m m'" "mapper_inv m" "sm_next_id m + length (concat calls) \<le> u64_max"
    "id_for_key m' k = Some i"
  shows "(id_for_key m k = Some i \<and> (\<forall>sources \<in> set calls. k \<in> src_private_key ` set sources))
    \<or> i \<in> issued (sm_next_id m') - issued (sm_next_id m)"
  using assms
proof (induction rule: mapper_run.induct)
  case (run_step sources m data m1 rest m2)
  have room: "sm_next_id m + length sources \<le> u64_max" using run_step.prems(2) by simp
  note facts = mapper_step_facts [OF run_step.hyps(1) run_step.prems(1) room]
  have room1: "sm_next_id m1 + length (concat rest) \<le> u64_max"
    using mapper_run_next [OF run_step.hyps(1)] run_step.prems(2) by simp
  from run_step.IH [OF facts(1) room1 run_step.prems(3)]
  show ?case
  proof
    assume same: "id_for_key m1 k = Some i \<and> (\<forall>sources \<in> set rest. k \<in> src_private_key ` set sources)"
    have k: "k \<in> src_private_key ` set sources" using facts(3) [of k] same by simp
    show ?thesis using facts(5) [of k i] same k mapper_run_mono [OF run_step.hyps(2) facts(1) room1] by auto
  next
    assume "i \<in> issued (sm_next_id m2) - issued (sm_next_id m1)"
    then show ?thesis using issued_mono [OF facts(2)] by blast
  qed
qed simp

theorem identifiers_never_reused_witness:
  "\<exists>m' i. id_for_key m' 7 = Some i \<and> i \<in> issued (sm_next_id m')"
proof -
  obtain data m' where s: "mapper_step [sample_source_client 7 2, sample_source_client 9 1] mapper_new data m'"
    using sample_mapper_step by blast
  have run: "mapper_run [[sample_source_client 7 2, sample_source_client 9 1]] mapper_new m'"
    by (rule run_step [OF s run_nil])
  obtain i where i: "id_for_key m' 7 = Some i"
    using mapper_step_facts(3) [OF s mapper_new_inv, of 7]
    by (auto simp: mapper_new_def sample_source_client_def u64_max_def)
  have "id_for_key mapper_new 7 = None" by (simp add: id_for_key_def mapper_new_def)
  then show ?thesis using identifiers_never_reused [OF run mapper_new_inv _ i] i
    by (auto simp: mapper_new_def u64_max_def)
qed

end
