(* ===== verification/Trushar_Guarantees.thy ===== *)
theory Trushar_Guarantees
  imports Trushar_Memory Trushar_Mapper
begin

text \<open>
  What the in-memory controller guarantees over any sequence of operations, and what its
  targeted inputs, its batches and its keymap pages promise.
\<close>

section \<open>Sequences of operations\<close>

datatype MemoryOp =
    OpAddClient nat "string option" "string option" "string option" bool bool
  | OpRemoveClient ClientId
  | OpEnrichClient ClientId "string option" "string option" "string option"
  | OpSetActiveLocally ClientId
  | OpSetInputReady ClientId bool
  | OpSetBroadcastAvailability bool
  | OpSetBroadcastLocally bool
  | OpFailNextActivation string
  | OpFailNextBroadcast string
  | OpFailNextInput string
  | OpSetMappedActions ClientId "string list"
  | OpDisappearOnNextActivation ClientId
  | OpDisappearOnNextInput ClientId
  | OpActivate ClientTarget
  | OpSwapWindowNumbers ClientTarget
  | OpSetBroadcastEnabled bool
  | OpUpdateMouseClutchHold MouseClutchOwner MouseClutchOperation nat
  | OpEndMouseClutchSession nat nat
  | OpSendText ClientId string bool
  | OpSendKeys ClientId "KeyStroke list"
  | OpSendEqAction ClientId EqAction
  | OpListEqKeymapActions EqActionTargets "EqMappingName option"
  | OpSendEqActionBatch EqActionTargets EqAction

fun memory_step :: "MemoryOp \<Rightarrow> InMemoryController \<Rightarrow> InMemoryController" where
  "memory_step (OpAddClient w ch sv cl a b) c = snd (add_client w ch sv cl a b c)"
| "memory_step (OpRemoveClient i) c = remove_client i c"
| "memory_step (OpEnrichClient i ch sv cl) c = enrich_client i ch sv cl c"
| "memory_step (OpSetActiveLocally i) c = set_active_locally i c"
| "memory_step (OpSetInputReady i b) c = set_input_ready i b c"
| "memory_step (OpSetBroadcastAvailability b) c = set_broadcast_availability b c"
| "memory_step (OpSetBroadcastLocally b) c = set_broadcast_locally b c"
| "memory_step (OpFailNextActivation m) c = fail_next_activation m c"
| "memory_step (OpFailNextBroadcast m) c = fail_next_broadcast m c"
| "memory_step (OpFailNextInput m) c = fail_next_input m c"
| "memory_step (OpSetMappedActions i names) c = snd (set_mapped_actions i names c)"
| "memory_step (OpDisappearOnNextActivation i) c = disappear_on_next_activation i c"
| "memory_step (OpDisappearOnNextInput i) c = disappear_on_next_input i c"
| "memory_step (OpActivate t) c = snd (activate t c)"
| "memory_step (OpSwapWindowNumbers t) c = snd (swap_window_numbers t c)"
| "memory_step (OpSetBroadcastEnabled b) c = snd (set_broadcast_enabled b c)"
| "memory_step (OpUpdateMouseClutchHold owner operation sequence) c
    = snd (update_mouse_clutch_hold owner operation sequence c)"
| "memory_step (OpEndMouseClutchSession session sequence) c = snd (end_mouse_clutch_session session sequence c)"
| "memory_step (OpSendText i t b) c = snd (send_text i t b c)"
| "memory_step (OpSendKeys i ks) c = snd (send_keys i ks c)"
| "memory_step (OpSendEqAction i a) c = snd (send_eq_action i a c)"
| "memory_step (OpListEqKeymapActions ts a) c = snd (list_eq_keymap_actions ts a c)"
| "memory_step (OpSendEqActionBatch ts a) c = snd (send_eq_action_batch ts a c)"

definition memory_run :: "MemoryOp list \<Rightarrow> InMemoryController \<Rightarrow> InMemoryController" where
  "memory_run ops c = fold memory_step ops c"

section \<open>The invariant\<close>

text \<open>What matters of the client list: identifiers and activity.\<close>

definition client_view :: "ClientState list \<Rightarrow> (ClientId \<times> bool) list" where
  "client_view cls = map (\<lambda>cl. (cl_id cl, cl_active cl)) cls"

definition clients_ok :: "ClientState list \<Rightarrow> ClientId set \<Rightarrow> nat \<Rightarrow> bool" where
  "clients_ok cls retired n \<longleftrightarrow> distinct (map fst (client_view cls)) \<and> length (filter snd (client_view cls)) \<le> 1
     \<and> set (map fst (client_view cls)) \<union> retired \<subseteq> issued n \<and> set (map fst (client_view cls)) \<inter> retired = {}"

definition sessions_ok :: "MouseClutchOwner set \<Rightarrow> (nat \<Rightarrow> nat option) \<Rightarrow> nat list \<Rightarrow> bool" where
  "sessions_ok holds closed order \<longleftrightarrow> dom closed = set order \<and> distinct order \<and> length order \<le> 256
     \<and> (\<forall>owner \<in> holds. closed (mo_session_id owner) = None)"

definition broadcast_ok :: "BroadcastState \<Rightarrow> bool" where
  "broadcast_ok b \<longleftrightarrow> (bc_enabled b \<longrightarrow> bc_available b)"

definition memory_ok :: "MemoryState \<Rightarrow> bool" where
  "memory_ok s \<longleftrightarrow> clients_ok (ms_clients s) (ms_retired_ids s) (ms_next_id s)
     \<and> sessions_ok (ms_mouse_clutch_holds s) (ms_closed_sessions s) (ms_closed_session_order s)
     \<and> broadcast_ok (ms_broadcast s)"

definition hub_synced :: "InMemoryController \<Rightarrow> bool" where
  "hub_synced c \<longleftrightarrow> snapshot_data (hub_watch (im_hub c)) = memory_data (im_state c)
     \<and> hub_current (im_hub c) = hub_watch (im_hub c)"

definition controller_ok :: "InMemoryController \<Rightarrow> bool" where
  "controller_ok c \<longleftrightarrow> memory_ok (im_state c) \<and> hub_synced c"

lemma publish_synced:
  "hub_current hub = hub_watch hub \<Longrightarrow> snapshot_data (hub_watch (snd (hub_publish data hub))) = data
    \<and> hub_current (snd (hub_publish data hub)) = hub_watch (snd (hub_publish data hub))"
  by (auto simp: hub_publish_def Let_def snapshot_data_def)

lemma commit_ok: "controller_ok c \<Longrightarrow> memory_ok s \<Longrightarrow> controller_ok (commit s c)"
  using publish_synced [of "im_hub c" "memory_data s"] by (simp add: controller_ok_def hub_synced_def commit_def)

lemma quiet_ok:
  "controller_ok c \<Longrightarrow> memory_ok s \<Longrightarrow> memory_data s = memory_data (im_state c) \<Longrightarrow> controller_ok (c\<lparr>im_state := s\<rparr>)"
  by (simp add: controller_ok_def hub_synced_def)

lemma same_data:
  "ms_clients s = ms_clients t \<Longrightarrow> ms_broadcast s = ms_broadcast t
    \<Longrightarrow> ms_mouse_clutch_holds s = ms_mouse_clutch_holds t \<Longrightarrow> memory_data s = memory_data t"
  by (simp add: memory_data_def)

lemma commit_same: "memory_ok (im_state c) \<Longrightarrow> memory_ok s \<Longrightarrow> controller_ok c \<Longrightarrow> controller_ok (commit s c)"
  by (rule commit_ok)

subsection \<open>Clients\<close>

lemma clients_ok_view: "client_view a = client_view b \<Longrightarrow> clients_ok a r n = clients_ok b r n"
  by (simp add: clients_ok_def)

lemma update_first_view:
  "(\<And>cl. cl_id (f cl) = cl_id cl \<and> cl_active (f cl) = cl_active cl) \<Longrightarrow> client_view (update_first P f cls) = client_view cls"
  by (induction cls) (simp_all add: client_view_def)

lemma filter_one: "distinct (map f xs) \<Longrightarrow> length (filter (\<lambda>x. f x = i) xs) \<le> 1"
  by (induction xs) (auto simp: filter_empty_conv image_iff)

lemma activate_only_ok: "clients_ok cls r n \<Longrightarrow> clients_ok (activate_only i cls) r n"
  using filter_one [of cl_id cls i]
  by (simp add: clients_ok_def client_view_def activate_only_def o_def filter_map)

lemma filter_sub: "length (filter P (filter Q xs)) \<le> length (filter P xs)"
  by (induction xs) auto

lemma filter_ok:
  assumes "clients_ok cls r n"
  shows "clients_ok (filter (\<lambda>cl. cl_id cl \<noteq> i) cls) (if list_ex (\<lambda>cl. cl_id cl = i) cls then insert i r else r) n"
proof -
  have "length (filter cl_active (filter (\<lambda>cl. cl_id cl \<noteq> i) cls)) \<le> length (filter cl_active cls)"
    by (rule filter_sub)
  then show ?thesis using assms
    by (auto simp: clients_ok_def client_view_def o_def filter_map distinct_map_filter list_ex_iff)
qed

lemma remove_index_filter:
  assumes "distinct (map f xs)" "n < length xs"
  shows "remove_index n xs = filter (\<lambda>x. f x \<noteq> f (xs ! n)) xs"
  using assms
proof (induction xs arbitrary: n)
  case (Cons x xs)
  show ?case
  proof (cases n)
    case 0
    then show ?thesis using Cons.prems by (auto simp: remove_index_def image_iff intro!: filter_True [symmetric])
  next
    case (Suc m)
    then have "f x \<noteq> f (xs ! m)" using Cons.prems by (auto simp: image_iff)
    then show ?thesis using Suc Cons.IH [of m] Cons.prems by (simp add: remove_index_def)
  qed
qed simp

lemma remove_index_ok:
  assumes "clients_ok cls r n" "k < length cls"
  shows "clients_ok (remove_index k cls) (insert (cl_id (cls ! k)) r) n"
proof -
  have "distinct (map cl_id cls)" using assms(1) by (simp add: clients_ok_def client_view_def o_def)
  moreover have "list_ex (\<lambda>cl. cl_id cl = cl_id (cls ! k)) cls" using assms(2) by (auto simp: list_ex_iff)
  ultimately show ?thesis
    using remove_index_filter [of cl_id cls k] filter_ok [OF assms(1), of "cl_id (cls ! k)"] assms(2) by simp
qed

lemma add_ok:
  assumes "clients_ok cls r n" "n < u64_max"
  shows "clients_ok (cls @ [cl\<lparr>cl_id := generated_id (u64_saturating_add n 1), cl_active := False\<rparr>]) r (u64_saturating_add n 1)"
    "clients_ok (map (\<lambda>cl. cl\<lparr>cl_active := False\<rparr>) cls
      @ [cl\<lparr>cl_id := generated_id (u64_saturating_add n 1), cl_active := True\<rparr>]) r (u64_saturating_add n 1)"
proof -
  have n: "u64_saturating_add n 1 = Suc n" using assms(2) by (simp add: u64_saturating_add_def)
  show "clients_ok (cls @ [cl\<lparr>cl_id := generated_id (u64_saturating_add n 1), cl_active := False\<rparr>]) r (u64_saturating_add n 1)"
    "clients_ok (map (\<lambda>cl. cl\<lparr>cl_active := False\<rparr>) cls
      @ [cl\<lparr>cl_id := generated_id (u64_saturating_add n 1), cl_active := True\<rparr>]) r (u64_saturating_add n 1)"
    using assms(1) issued_Suc [of n] unfolding n clients_ok_def client_view_def
    by (auto simp: o_def filter_map)
qed


lemma swap_view:
  assumes "a < length cls" "b < length cls"
  shows "client_view (cls[a := (cls ! a)\<lparr>cl_window_number := v\<rparr>, b := (cls ! b)\<lparr>cl_window_number := w\<rparr>]) = client_view cls"
  using assms by (auto simp: client_view_def map_update nth_list_update intro!: nth_equalityI)

lemma resolve_index_bound: "resolve_index s target = Inr k \<Longrightarrow> k < length (ms_clients s)"
proof -
  assume r: "resolve_index s target = Inr k"
  define ms where "ms = filter (\<lambda>i. target_matches (ms_clients s ! i) target) [0..<length (ms_clients s)]"
  have "ms \<noteq> [] \<and> k = hd ms"
    using r unfolding resolve_index_def Let_def ms_def [symmetric] by (auto split: if_splits ClientTarget.splits)
  then have "k \<in> set ms" by simp
  then show ?thesis by (simp add: ms_def)
qed

lemma position_from_Some:
  "position_from P n xs = Some k \<Longrightarrow> n \<le> k \<and> k - n < length xs \<and> P (xs ! (k - n))"
proof (induction xs arbitrary: n)
  case (Cons x xs)
  show ?case
  proof (cases "P x")
    case False
    then have rest: "Suc n \<le> k \<and> k - Suc n < length xs \<and> P (xs ! (k - Suc n))" using Cons by simp
    then have "k - n = Suc (k - Suc n)" by arith
    then show ?thesis using rest by simp
  qed (use Cons.prems in simp)
qed simp

lemmas position_Some = position_from_Some [where n = 0, simplified]

subsection \<open>Mouse clutch sessions\<close>

lemma expire_sessions_ok:
  assumes "dom closed = set order" "distinct order" "\<forall>owner \<in> holds. closed (mo_session_id owner) = None"
  shows "sessions_ok holds (fst (expire_sessions closed order)) (snd (expire_sessions closed order))"
  using assms
proof (induction closed order rule: expire_sessions.induct)
  case (2 closed expired order)
  show ?case
  proof (cases "length (expired # order) > 256")
    case True
    have "dom (closed(expired := None)) = set order" using 2(2,3) by auto
    moreover have "distinct order" "\<forall>owner \<in> holds. (closed(expired := None)) (mo_session_id owner) = None"
      using 2(3,4) by simp_all
    ultimately show ?thesis using 2(1) [OF True] unfolding expire_sessions.simps if_P [OF True] by blast
  next
    case False
    then show ?thesis using 2(2-4) by (simp add: sessions_ok_def)
  qed
qed (simp add: sessions_ok_def)

subsection \<open>Every operation\<close>

lemmas memory_ok_parts = memory_ok_def clients_ok_def [symmetric]

lemma ok_clients: "memory_ok s \<Longrightarrow> clients_ok cls r (ms_next_id s)
    \<Longrightarrow> memory_ok (s\<lparr>ms_clients := cls, ms_retired_ids := r\<rparr>)"
  by (simp add: memory_ok_def)

named_theorems ctl \<open>operations keep the controller sound\<close>

lemma ok_state: "controller_ok c \<Longrightarrow> memory_ok (im_state c)"
  by (simp add: controller_ok_def)

lemma ok_view: "memory_ok s \<Longrightarrow> clients_ok (ms_clients s) (ms_retired_ids s) (ms_next_id s)"
  by (simp add: memory_ok_def)

lemma ok_add_client [ctl]:
  assumes "controller_ok c" "ms_next_id (im_state c) < u64_max"
  shows "controller_ok (snd (add_client w ch sv cl a b c))"
proof -
  let ?s = "im_state c"
  let ?new = "\<lparr>cl_id = generated_id (u64_saturating_add (ms_next_id ?s) 1), cl_character = ch, cl_server = sv,
    cl_class_code = cl, cl_window_number = w, cl_active = a, cl_activatable = b,
    cl_input_ready = bc_available (ms_broadcast ?s), cl_xtarget = xtarget_default\<rparr>"
  have "clients_ok ((if a then map (\<lambda>cl. cl\<lparr>cl_active := False\<rparr>) (ms_clients ?s) else ms_clients ?s) @ [?new])
      (ms_retired_ids ?s) (u64_saturating_add (ms_next_id ?s) 1)"
    using add_ok [OF ok_view [OF ok_state [OF assms(1)]] assms(2), of ?new] by (cases a) simp_all
  then show ?thesis
    unfolding add_client_def Let_def snd_conv using ok_state [OF assms(1)]
    by (intro commit_ok [OF assms(1)]) (simp add: memory_ok_def)
qed

lemma ok_remove_client [ctl]: "controller_ok c \<Longrightarrow> controller_ok (remove_client i c)"
  unfolding remove_client_def Let_def
  using filter_ok [OF ok_view [OF ok_state], of c i] ok_state [of c]
  by (intro commit_ok) (simp_all add: memory_ok_def)

lemma ok_enrich_client [ctl]: "controller_ok c \<Longrightarrow> controller_ok (enrich_client i ch sv cl c)"
  unfolding enrich_client_def Let_def
  using ok_state [of c] by (intro commit_ok) (simp_all add: memory_ok_def clients_ok_def update_first_view)

lemma ok_set_input_ready [ctl]: "controller_ok c \<Longrightarrow> controller_ok (set_input_ready i b c)"
  unfolding set_input_ready_def Let_def
  using ok_state [of c] by (intro commit_ok) (simp_all add: memory_ok_def clients_ok_def update_first_view)

lemma ok_set_active_locally [ctl]: "controller_ok c \<Longrightarrow> controller_ok (set_active_locally i c)"
  unfolding set_active_locally_def Let_def
  using ok_state [of c] by (intro commit_ok) (simp_all add: memory_ok_def activate_only_ok)

lemma ok_set_broadcast_availability [ctl]: "controller_ok c \<Longrightarrow> controller_ok (set_broadcast_availability b c)"
  unfolding set_broadcast_availability_def Let_def
  using ok_state [of c] by (intro commit_ok) (simp_all add: memory_ok_def broadcast_ok_def)

lemma ok_set_broadcast_locally [ctl]: "controller_ok c \<Longrightarrow> controller_ok (set_broadcast_locally b c)"
  unfolding set_broadcast_locally_def Let_def
  using ok_state [of c] by (intro commit_ok) (auto simp: memory_ok_def broadcast_ok_def)

lemma ok_quiet:
  assumes "controller_ok c" "\<And>s. ms_clients (f s) = ms_clients s \<and> ms_broadcast (f s) = ms_broadcast s
      \<and> ms_mouse_clutch_holds (f s) = ms_mouse_clutch_holds s \<and> ms_retired_ids (f s) = ms_retired_ids s
      \<and> ms_next_id (f s) = ms_next_id s \<and> ms_closed_sessions (f s) = ms_closed_sessions s
      \<and> ms_closed_session_order (f s) = ms_closed_session_order s"
  shows "controller_ok (on_state f c)"
  unfolding on_state_def using assms(2) ok_state [OF assms(1)]
  by (intro quiet_ok [OF assms(1)] same_data) (simp_all add: memory_ok_def)

lemma ok_local [ctl]:
  "controller_ok c \<Longrightarrow> controller_ok (fail_next_activation m c)"
  "controller_ok c \<Longrightarrow> controller_ok (fail_next_broadcast m c)"
  "controller_ok c \<Longrightarrow> controller_ok (fail_next_input m c)"
  "controller_ok c \<Longrightarrow> controller_ok (disappear_on_next_activation i c)"
  "controller_ok c \<Longrightarrow> controller_ok (disappear_on_next_input i c)"
  "controller_ok c \<Longrightarrow> controller_ok (record_input r c)"
  "controller_ok c \<Longrightarrow> controller_ok (snd (set_mapped_actions i names c))"
  unfolding fail_next_activation_def fail_next_broadcast_def fail_next_input_def
    disappear_on_next_activation_def disappear_on_next_input_def record_input_def
  by (auto simp: set_mapped_actions_def intro!: ok_quiet split: sum.split)

lemma ok_activate [ctl]:
  assumes c: "controller_ok c"
  shows "controller_ok (snd (activate target c))"
proof (cases "resolve_index (im_state c) target")
  case (Inr k)
  note ok = ok_state [OF c] and view = ok_view [OF ok_state [OF c]]
  from remove_index_ok [OF view resolve_index_bound [OF Inr]] activate_only_ok [OF view] ok
  show ?thesis unfolding activate_def Let_def Inr
    by (auto simp: memory_ok_def intro!: commit_ok [OF c] ok_quiet [OF c] c split: option.split)
qed (use c in \<open>simp add: activate_def\<close>)

lemma ok_swap [ctl]:
  assumes c: "controller_ok c"
  shows "controller_ok (snd (swap_window_numbers target c))"
proof (cases "resolve_index (im_state c) target")
  case (Inr k)
  have "clients_ok ((ms_clients (im_state c))[a := (ms_clients (im_state c) ! a)\<lparr>cl_window_number := v\<rparr>,
        k := (ms_clients (im_state c) ! k)\<lparr>cl_window_number := w\<rparr>]) r n = clients_ok (ms_clients (im_state c)) r n"
    if "position_from cl_active 0 (ms_clients (im_state c)) = Some a" for a v w r n
    by (rule clients_ok_view [OF swap_view]) (use that position_Some resolve_index_bound [OF Inr] in blast)+
  then show ?thesis unfolding swap_window_numbers_def Let_def Inr using ok_state [OF c] c
    by (auto simp: memory_ok_def intro!: commit_ok [OF c] split: option.split)
qed (use c in \<open>simp add: swap_window_numbers_def\<close>)

lemma ok_set_broadcast_enabled [ctl]: "controller_ok c \<Longrightarrow> controller_ok (snd (set_broadcast_enabled b c))"
  using ok_state [of c]
  by (auto simp: set_broadcast_enabled_def Let_def memory_ok_def broadcast_ok_def intro!: commit_ok ok_quiet split: option.split)

lemma ok_clutch [ctl]:
  assumes c: "controller_ok c"
  shows "controller_ok (snd (update_mouse_clutch_hold owner operation sequence c))"
proof -
  let ?s1 = "(im_state c)\<lparr>ms_mouse_clutch_sequences := (ms_mouse_clutch_sequences (im_state c))(owner \<mapsto> sequence)\<rparr>"
  have ok1: "memory_ok ?s1" using ok_state [OF c] by (simp add: memory_ok_def)
  have data1: "memory_data ?s1 = memory_data (im_state c)" by (rule same_data) simp_all
  have holds: "memory_ok (?s1\<lparr>ms_mouse_clutch_holds := H\<rparr>)"
    if "H \<subseteq> insert owner (ms_mouse_clutch_holds (im_state c))" "ms_closed_sessions (im_state c) (mo_session_id owner) = None" for H
    using ok_state [OF c] that by (auto simp: memory_ok_def sessions_ok_def)
  show ?thesis unfolding update_mouse_clutch_hold_def Let_def
    using commit_ok [OF c ok_state [OF c]] commit_ok [OF c ok1] quiet_ok [OF c ok1 data1] c commit_ok [OF c holds]
    by (cases operation) auto
qed

lemma ok_end_session [ctl]:
  assumes c: "controller_ok c"
  shows "controller_ok (snd (end_mouse_clutch_session session sequence c))"
proof -
  let ?s = "im_state c"
  let ?order = "if ms_closed_sessions ?s session = None then ms_closed_session_order ?s @ [session] else ms_closed_session_order ?s"
  let ?holds = "{owner \<in> ms_mouse_clutch_holds ?s. mo_session_id owner \<noteq> session}"
  have "sessions_ok (ms_mouse_clutch_holds ?s) (ms_closed_sessions ?s) (ms_closed_session_order ?s)"
    using ok_state [OF c] by (simp add: memory_ok_def)
  then have "sessions_ok ?holds (fst (expire_sessions ((ms_closed_sessions ?s)(session \<mapsto> sequence)) ?order))
      (snd (expire_sessions ((ms_closed_sessions ?s)(session \<mapsto> sequence)) ?order))"
    by (intro expire_sessions_ok) (auto simp: sessions_ok_def)
  then show ?thesis unfolding end_mouse_clutch_session_def Let_def using ok_state [OF c]
    by (auto simp: case_prod_beta memory_ok_def intro!: commit_ok [OF c])
qed

lemma ok_prepare:
  assumes c: "controller_ok c"
  shows "controller_ok (snd (prepare_memory_input i c))"
proof -
  have rm: "memory_ok ((im_state c)\<lparr>ms_disappear_on_input := D, ms_clients := remove_index k (ms_clients (im_state c)),
      ms_mapped_actions := M, ms_retired_ids := insert (cl_id (ms_clients (im_state c) ! k)) (ms_retired_ids (im_state c))\<rparr>)"
    if "position_from P 0 (ms_clients (im_state c)) = Some k" for k D M P
    using remove_index_ok [OF ok_view [OF ok_state [OF c]], of k] ok_state [OF c] position_Some [OF that]
    by (simp add: memory_ok_def)
  show ?thesis unfolding prepare_memory_input_def Let_def
    using c rm by (auto intro!: commit_ok [OF c] ok_quiet [OF c] split: option.split)
qed

lemma ok_deliver: "controller_ok c \<Longrightarrow> controller_ok (snd (deliver valid i input outcome c))"
  using ok_prepare [of c i] by (auto simp: deliver_def intro!: ctl split: sum.split prod.split)

lemma ok_send [ctl]:
  "controller_ok c \<Longrightarrow> controller_ok (snd (send_text i t b c))"
  "controller_ok c \<Longrightarrow> controller_ok (snd (send_keys i ks c))"
  "controller_ok c \<Longrightarrow> controller_ok (snd (send_eq_action i a c))"
  "controller_ok c \<Longrightarrow> controller_ok (snd (list_eq_keymap_actions ts af c))"
  by (simp_all add: send_text_def send_keys_def send_eq_action_def list_eq_keymap_actions_def ok_deliver)

lemma ok_record_fold: "controller_ok c \<Longrightarrow> controller_ok (fold (\<lambda>i. record_input (RecordedEqAction i a)) ids c)"
  by (induction ids arbitrary: c) (simp_all add: ctl)

lemma ok_batch [ctl]:
  assumes c: "controller_ok c"
  shows "controller_ok (snd (send_eq_action_batch ts a c))"
proof -
  let ?s = "im_state c"
  have rm: "memory_ok (?s\<lparr>ms_disappear_on_input := D, ms_clients := remove_index k (ms_clients ?s),
      ms_mapped_actions := M, ms_retired_ids := insert i (ms_retired_ids ?s)\<rparr>)"
    if "position_from (\<lambda>cl. cl_id cl = i) 0 (ms_clients ?s) = Some k" for k D M i
    using remove_index_ok [OF ok_view [OF ok_state [OF c]], of k] ok_state [OF c] position_Some [OF that]
    by (simp add: memory_ok_def)
  have quiet: "controller_ok (c\<lparr>im_state := ?s\<lparr>ms_disappear_on_input := D\<rparr>\<rparr>)" for D
    using ok_state [OF c] by (intro quiet_ok [OF c] same_data) (simp_all add: memory_ok_def)
  show ?thesis unfolding send_eq_action_batch_def Let_def
    using c rm quiet by (auto intro!: commit_ok [OF c] ok_quiet [OF c] ok_record_fold split: option.split sum.split)
qed

subsection \<open>The counter of identifiers\<close>

lemma next_id_simps [simp]:
  "ms_next_id (im_state (commit s c)) = ms_next_id s"
  "ms_next_id (im_state (record_input r c)) = ms_next_id (im_state c)"
  "ms_next_id (im_state (snd (prepare_memory_input i c))) = ms_next_id (im_state c)"
  "ms_next_id (im_state (snd (deliver v i r out c))) = ms_next_id (im_state c)"
proof -
  show 1: "ms_next_id (im_state (commit s c)) = ms_next_id s" for s c by (simp add: commit_def)
  show 2: "ms_next_id (im_state (record_input r c)) = ms_next_id (im_state c)" for r c
    by (simp add: record_input_def on_state_def)
  show 3: "ms_next_id (im_state (snd (prepare_memory_input i c))) = ms_next_id (im_state c)" for i c
    by (simp add: prepare_memory_input_def Let_def on_state_def 1 split: option.split)
  show "ms_next_id (im_state (snd (deliver v i r out c))) = ms_next_id (im_state c)"
    using 3 [of i c] by (auto simp: deliver_def 2 split: sum.split prod.split)
qed

lemma next_id_record_fold [simp]:
  "ms_next_id (im_state (fold (\<lambda>i. record_input (g i)) ids c)) = ms_next_id (im_state c)"
  by (induction ids arbitrary: c) simp_all

lemma next_id_step: "ms_next_id (im_state (memory_step oper c)) \<le> Suc (ms_next_id (im_state c))"
  by (cases oper)
    (auto simp: add_client_def remove_client_def enrich_client_def set_active_locally_def set_input_ready_def
      set_broadcast_availability_def set_broadcast_locally_def fail_next_activation_def fail_next_broadcast_def
      fail_next_input_def set_mapped_actions_def disappear_on_next_activation_def disappear_on_next_input_def
      activate_def swap_window_numbers_def set_broadcast_enabled_def update_mouse_clutch_hold_def
      end_mouse_clutch_session_def send_text_def send_keys_def send_eq_action_def list_eq_keymap_actions_def
      send_eq_action_batch_def on_state_def Let_def u64_saturating_add_def
      split: sum.split option.split MouseClutchOperation.split prod.split)

lemma step_ok: "controller_ok c \<Longrightarrow> ms_next_id (im_state c) < u64_max \<Longrightarrow> controller_ok (memory_step oper c)"
  by (cases oper) (simp_all add: ctl)

lemma run_ok:
  assumes "controller_ok c" "ms_next_id (im_state c) + length ops \<le> u64_max"
  shows "controller_ok (memory_run ops c)"
  unfolding memory_run_def using assms
proof (induction ops arbitrary: c)
  case (Cons oper ops)
  from Cons.IH [OF step_ok [OF Cons.prems(1)], of oper] Cons.prems(2) next_id_step [of oper c]
  show ?case by simp
qed simp

lemma new_ok: "broadcast_ok b \<Longrightarrow> controller_ok (memory_new b)"
  by (simp add: memory_new_def Let_def controller_ok_def memory_ok_def clients_ok_def client_view_def sessions_ok_def
      hub_synced_def hub_new_def snapshot_data_def)



section \<open>Batches\<close>

lemma find_id:
  assumes "distinct (map cl_id cls)" "cl \<in> set cls"
  shows "find (\<lambda>x. cl_id x = cl_id cl) cls = Some cl"
  using assms by (induction cls) auto

lemma batch_check_Inr:
  assumes "distinct (map cl_id (ms_clients s))" "set clients \<subseteq> set (ms_clients s)"
    "batch_check s a (map cl_id clients) = Inr ()" "cl \<in> set clients"
  shows "cl_input_ready cl \<and> memory_action_is_mapped s (cl_id cl) a"
  using assms(2-4)
proof (induction clients)
  case (Cons x clients)
  have "find (\<lambda>y. cl_id y = cl_id x) (ms_clients s) = Some x" using find_id [OF assms(1)] Cons.prems(1) by simp
  then show ?case using Cons by (auto split: if_splits)
qed simp

lemma listing_subset: "memory_clients_for_listing s ts = Inr clients \<Longrightarrow> set clients \<subseteq> set (ms_clients s)"
  by (auto simp: memory_clients_for_listing_def Let_def split: EqActionTargets.splits option.splits)

lemma delivery_listing:
  "memory_clients_for_delivery s ts = Inr clients \<Longrightarrow> memory_clients_for_listing s ts = Inr clients"
  by (cases ts) (auto simp: memory_clients_for_delivery_def and_then_Inr split: if_splits)

lemma delivery_nonempty:
  assumes "memory_clients_for_delivery s ts = Inr clients" "eq_action_targets_validate ts = Inr ()"
  shows "clients \<noteq> []"
proof (cases ts)
  case TargetsActive
  then obtain i where i: "map_option cl_id (find cl_active (ms_clients s)) = Some i"
    "clients = filter (\<lambda>cl. cl_id cl = i) (ms_clients s)"
    using delivery_listing [OF assms(1)] by (auto simp: memory_clients_for_listing_def Let_def split: option.splits)
  then obtain cl where "find cl_active (ms_clients s) = Some cl" "cl_id cl = i" by auto
  then show ?thesis using i(2) by (auto simp: find_Some_iff filter_empty_conv)
qed (use assms in \<open>auto simp: memory_clients_for_delivery_def and_then_Inr split: if_splits\<close>)

lemma inputs_record_fold:
  "ms_inputs (im_state (fold (\<lambda>i. record_input (g i)) ids c)) = ms_inputs (im_state c) @ map g ids"
  by (induction ids arbitrary: c) (simp_all add: record_input_def on_state_def)

lemma inputs_commit [simp]: "ms_inputs (im_state (commit s c)) = ms_inputs s"
  by (simp add: commit_def)

text \<open>
  C27. A batch is delivered to every selected client or to none. A batch that fails records no
  input at all, whatever made it fail. A batch that succeeds was addressed to at least one
  client, every selected client was ready and has the action mapped, each of them received it
  exactly once, in order, and the reply lists their window numbers in ascending order.
\<close>

theorem batch_is_all_or_nothing:
  assumes ok: "controller_ok c" and batch: "send_eq_action_batch targets action c = (r, c')"
  shows "case r of
      Inl e \<Rightarrow> ms_inputs (im_state c') = ms_inputs (im_state c)
    | Inr outcome \<Rightarrow> \<exists>clients. memory_clients_for_delivery (im_state c) targets = Inr clients \<and> clients \<noteq> []
        \<and> (\<forall>cl \<in> set clients. cl_input_ready cl \<and> memory_action_is_mapped (im_state c) (cl_id cl) action)
        \<and> ms_inputs (im_state c') = ms_inputs (im_state c) @ map (\<lambda>cl. RecordedEqAction (cl_id cl) action) clients
        \<and> outcome = EqActionBatchDelivered action (sort (map cl_window_number clients))"
proof (cases r)
  case (Inl e)
  then show ?thesis using batch unfolding send_eq_action_batch_def Let_def
    by (auto simp: on_state_def split: sum.splits option.splits if_splits)
next
  case (Inr outcome)
  let ?s = "im_state c"
  obtain clients where cl: "memory_clients_for_delivery ?s targets = Inr clients"
    and chk: "batch_check ?s action (map cl_id clients) = Inr ()" and val: "eq_action_targets_validate targets = Inr ()"
    and out: "outcome = EqActionBatchDelivered action (sort (map (window_of ?s) (map cl_id clients)))"
    and c': "c' = fold (\<lambda>i. record_input (RecordedEqAction i action)) (map cl_id clients) c"
    using batch Inr unfolding send_eq_action_batch_def Let_def
    by (auto simp: and_then_Inr split: sum.splits option.splits if_splits)
  have dist: "distinct (map cl_id (ms_clients ?s))"
    using ok by (simp add: controller_ok_def memory_ok_def clients_ok_def client_view_def o_def)
  have sub: "set clients \<subseteq> set (ms_clients ?s)" by (rule listing_subset [OF delivery_listing [OF cl]])
  have "window_of ?s (cl_id x) = cl_window_number x" if "x \<in> set clients" for x
    using find_id [OF dist, of x] sub that by (auto simp: window_of_def)
  then have win: "map (window_of ?s) (map cl_id clients) = map cl_window_number clients" by simp
  have "\<forall>cl \<in> set clients. cl_input_ready cl \<and> memory_action_is_mapped ?s (cl_id cl) action"
    using batch_check_Inr [OF dist sub chk] by blast
  moreover have "ms_inputs (im_state c') = ms_inputs ?s @ map (\<lambda>cl. RecordedEqAction (cl_id cl) action) clients"
    unfolding c' inputs_record_fold by simp
  ultimately show ?thesis using Inr cl delivery_nonempty [OF cl val] out [unfolded win] by simp
qed

text \<open>A controller with two ready clients.\<close>

definition sample_controller :: InMemoryController where
  "sample_controller = memory_run [OpAddClient 2 None None None True True, OpAddClient 1 None None None False True]
     (memory_new \<lparr>bc_available = True, bc_enabled = False\<rparr>)"

lemma sample_controller_ok: "controller_ok sample_controller"
  unfolding sample_controller_def
  by (rule run_ok [OF new_ok]) (simp_all add: broadcast_ok_def memory_new_def Let_def u64_max_def)

theorem batch_is_all_or_nothing_witness:
  "case fst (send_eq_action_batch AllLoaded UseCenterScreen sample_controller) of
      Inl e \<Rightarrow> ms_inputs (im_state (snd (send_eq_action_batch AllLoaded UseCenterScreen sample_controller)))
        = ms_inputs (im_state sample_controller)
    | Inr outcome \<Rightarrow> \<exists>clients :: ClientState list. clients \<noteq> []
        \<and> outcome = EqActionBatchDelivered UseCenterScreen (sort (map cl_window_number clients))"
proof -
  note batch = batch_is_all_or_nothing [OF sample_controller_ok prod.collapse [symmetric], of AllLoaded UseCenterScreen]
  show ?thesis
  proof (cases "fst (send_eq_action_batch AllLoaded UseCenterScreen sample_controller)")
    case (Inl e)
    then show ?thesis using batch by simp
  next
    case (Inr outcome)
    then show ?thesis using batch by auto
  qed
qed

section \<open>Keymap pages\<close>

text \<open>A client that asks for page after page, for at most \<open>fuel\<close> pages.\<close>

fun collect_pages :: "nat \<Rightarrow> EqActionTargets \<Rightarrow> EqMappingName option \<Rightarrow> InMemoryController \<Rightarrow> EqMappingName list option" where
  "collect_pages 0 targets after c = None"
| "collect_pages (Suc fuel) targets after c =
     (case fst (list_eq_keymap_actions targets after c) of
        Inr (EqKeymapActionsListed mappings numbers next_after) \<Rightarrow>
          (case next_after of None \<Rightarrow> Some mappings
           | Some a \<Rightarrow> map_option (append mappings) (collect_pages fuel targets (Some a) c))
      | _ \<Rightarrow> None)"

definition names_after :: "EqMappingName option \<Rightarrow> EqMappingName list \<Rightarrow> EqMappingName list" where
  "names_after after names = (case after of None \<Rightarrow> names | Some a \<Rightarrow> filter (\<lambda>m. m > a) names)"

lemma names_after_page:
  assumes sorted: "sorted_wrt (<) names" and len: "length (names_after after names) > 64"
  shows "names_after (Some (names_after after names ! 63)) names = drop 64 (names_after after names)"
proof -
  define xs where "xs = names_after after names"
  define x where "x = xs ! 63"
  have sx: "sorted_wrt (<) xs"
    using sorted by (auto simp: xs_def names_after_def sorted_wrt_filter split: option.split)
  have x: "x \<in> set xs" "64 < length xs" using len by (auto simp: x_def xs_def)
  have "filter (\<lambda>m. m > x) names = filter (\<lambda>m. m > x) xs"
  proof (cases after)
    case (Some a)
    then have "x > a" using x(1) by (simp add: xs_def names_after_def)
    then have "filter (\<lambda>m. m > x) names = filter (\<lambda>m. m > a \<and> m > x) names"
      by (intro filter_cong [OF HOL.refl]) auto
    then show ?thesis by (simp add: xs_def names_after_def Some)
  qed (simp add: xs_def names_after_def)
  also have "\<dots> = filter (\<lambda>m. m > x) (take 64 xs) @ filter (\<lambda>m. m > x) (drop 64 xs)"
    by (metis append_take_drop_id filter_append)
  also have "filter (\<lambda>m. m > x) (take 64 xs) = []"
  proof -
    have "\<not> xs ! i > x" if "i < 64" for i
      using sorted_wrt_nth_less [OF sx, of i 63] that x(2) by (cases "i = 63") (auto simp: x_def)
    then show ?thesis by (auto simp: filter_empty_conv in_set_conv_nth)
  qed
  also have "filter (\<lambda>m. m > x) (drop 64 xs) = drop 64 xs"
    using sorted_wrt_nth_less [OF sx, of 63] x(2) by (auto simp: filter_id_conv in_set_conv_nth x_def)
  finally show ?thesis by (simp add: names_after_def [of "Some _"] x_def xs_def)
qed

text \<open>
  The pages of a keymap listing are complete. A client that starts without a cursor and
  follows \<open>next_after\<close> until there is none receives every mapping that all selected clients
  share, each exactly once and in ascending order, and it gets there after finitely many pages.
\<close>

theorem keymap_pages_complete:
  assumes "eq_action_targets_validate targets = Inr ()"
    "memory_clients_for_listing (im_state c) targets = Inr clients"
    "finite (shared_mappings (im_state c) clients)" "card (shared_mappings (im_state c) clients) < fuel"
  shows "collect_pages fuel targets None c = Some (sorted_list_of_set (shared_mappings (im_state c) clients))"
proof -
  define names where "names = sorted_list_of_set (shared_mappings (im_state c) clients)"
  have sorted: "sorted_wrt (<) names" by (simp add: names_def)
  have page: "fst (list_eq_keymap_actions targets after c) = Inr (EqKeymapActionsListed (take 64 (names_after after names))
      (sort (map cl_window_number clients))
      (if length (names_after after names) > 64 then Some (names_after after names ! 63) else None))" for after
    using assms(1,2) by (simp add: list_eq_keymap_actions_def keymap_page_def names_after_def names_def
        EQ_KEYMAP_PAGE_SIZE_def Let_def)
  have "collect_pages fuel targets after c = Some (names_after after names)" if "length (names_after after names) < fuel" for after
    using that
  proof (induction fuel arbitrary: after)
    case (Suc fuel)
    let ?xs = "names_after after names"
    show ?case
    proof (cases "length ?xs > 64")
      case True
      note rest = names_after_page [OF sorted True]
      have "length (names_after (Some (?xs ! 63)) names) < fuel" unfolding rest using Suc.prems True by simp
      from Suc.IH [OF this] show ?thesis using True by (simp add: page rest)
    next
      case False
      then show ?thesis by (simp add: page)
    qed
  qed simp
  from this [of None] show ?thesis using assms(3,4) by (simp add: names_after_def names_def)
qed

theorem keymap_pages_complete_witness:
  "collect_pages 1 TargetsActive None (set_active_locally ''x'' (memory_new BROADCAST_UNAVAILABLE)) = None
   \<and> collect_pages 1 AllLoaded None (memory_new BROADCAST_UNAVAILABLE) = Some []"
proof -
  have "collect_pages 1 AllLoaded None (memory_new BROADCAST_UNAVAILABLE) = Some []"
    using keymap_pages_complete [of AllLoaded "memory_new BROADCAST_UNAVAILABLE" "[]" 1]
    by (simp add: memory_clients_for_listing_def memory_new_def Let_def shared_mappings_def)
  moreover have "collect_pages 1 TargetsActive None (set_active_locally ''x'' (memory_new BROADCAST_UNAVAILABLE)) = None"
    by (simp add: list_eq_keymap_actions_def memory_clients_for_listing_def set_active_locally_def memory_new_def
        activate_only_def commit_def Let_def)
  ultimately show ?thesis by simp
qed

section \<open>Late mouse clutch messages\<close>

text \<open>
  A released mouse clutch stays released. Once a hold has been ended with a sequence
  number, every later message about it that carries the same or an older number, a delayed
  begin or renewal, changes nothing and is answered with not held.
\<close>

theorem released_clutch_stays_released:
  assumes "ms_closed_sessions (im_state c) (mo_session_id owner) = None"
    "unwrap_or (ms_mouse_clutch_sequences (im_state c) owner) 0 < n" "sequence \<le> n"
    "update_mouse_clutch_hold owner ClutchEnd n c = (r, c1)"
  shows "r = Inr (MouseClutchHoldUpdated False)
    \<and> fst (update_mouse_clutch_hold owner operation sequence c1) = Inr (MouseClutchHoldUpdated False)
    \<and> im_state (snd (update_mouse_clutch_hold owner operation sequence c1)) = im_state c1"
proof -
  let ?s1 = "(im_state c)\<lparr>ms_mouse_clutch_sequences := (ms_mouse_clutch_sequences (im_state c))(owner \<mapsto> n),
    ms_mouse_clutch_holds := ms_mouse_clutch_holds (im_state c) - {owner}\<rparr>"
  have c1: "c1 = commit ?s1 c" "r = Inr (MouseClutchHoldUpdated False)"
    using assms(1,2,4) by (simp_all add: update_mouse_clutch_hold_def Let_def)
  then have "im_state c1 = ?s1" by (simp add: commit_def)
  then show ?thesis using assms(1,3) c1(2) by (simp add: update_mouse_clutch_hold_def Let_def commit_def)
qed

theorem released_clutch_stays_released_witness:
  "fst (update_mouse_clutch_hold \<lparr>mo_session_id = 1, mo_hold_id = ''h''\<rparr> ClutchBegin 2
     (snd (update_mouse_clutch_hold \<lparr>mo_session_id = 1, mo_hold_id = ''h''\<rparr> ClutchEnd 3 (memory_new BROADCAST_UNAVAILABLE))))
   = Inr (MouseClutchHoldUpdated False)"
  using released_clutch_stays_released [of "memory_new BROADCAST_UNAVAILABLE" "\<lparr>mo_session_id = 1, mo_hold_id = ''h''\<rparr>" 3 2,
      OF _ _ _ prod.collapse [symmetric]] by (simp add: memory_new_def Let_def)

end
