(* ===== verification/Stonemite_Hotkeys.thy ===== *)
theory Stonemite_Hotkeys
  imports Ordered_Map
begin

text \<open>
  Hotkey names and their validation, from \<^verbatim>\<open>crates/stonemite/src/config.rs\<close>: the table of key
  names, the parser of combinations such as Ctrl+Shift+F9, and the two checks the settings
  dialog runs before it saves: no two global hotkeys may be the same chord, and the mouse clutch
  key may not be the key of any of them.

  \<open>str::to_uppercase\<close> follows the Unicode tables, which are not modelled: it is the argument
  \<open>upper\<close>, and where a theorem depends on it the hypothesis \<open>upper_ascii\<close> says that it is the
  ASCII conversion on ASCII text.
\<close>

type_synonym uppercase = "string \<Rightarrow> string"

definition upper_ascii :: "uppercase \<Rightarrow> bool" where
  "upper_ascii upper \<longleftrightarrow> (\<forall>s. list_all (\<lambda>c. byte c < 128) s \<longrightarrow> upper s = to_ascii_uppercase s)"

definition vk_names :: "(string \<times> nat) list" where
  "vk_names =
    [(''F1'', 0x70), (''F2'', 0x71), (''F3'', 0x72), (''F4'', 0x73), (''F5'', 0x74), (''F6'', 0x75),
     (''F7'', 0x76), (''F8'', 0x77), (''F9'', 0x78), (''F10'', 0x79), (''F11'', 0x7A), (''F12'', 0x7B),
     (''F13'', 0x7C), (''F14'', 0x7D), (''F15'', 0x7E), (''F16'', 0x7F), (''F17'', 0x80), (''F18'', 0x81),
     (''F19'', 0x82), (''F20'', 0x83), (''F21'', 0x84), (''F22'', 0x85), (''F23'', 0x86), (''F24'', 0x87),
     (''INSERT'', 0x2D), (''DELETE'', 0x2E), (''HOME'', 0x24), (''END'', 0x23),
     (''PAGEUP'', 0x21), (''PAGE_UP'', 0x21), (''PAGEDOWN'', 0x22), (''PAGE_DOWN'', 0x22),
     (''PAUSE'', 0x13), (''SCROLLLOCK'', 0x91), (''SCROLL_LOCK'', 0x91),
     (''A'', 0x41), (''B'', 0x42), (''C'', 0x43), (''D'', 0x44), (''E'', 0x45), (''F'', 0x46), (''G'', 0x47),
     (''H'', 0x48), (''I'', 0x49), (''J'', 0x4A), (''K'', 0x4B), (''L'', 0x4C), (''M'', 0x4D), (''N'', 0x4E),
     (''O'', 0x4F), (''P'', 0x50), (''Q'', 0x51), (''R'', 0x52), (''S'', 0x53), (''T'', 0x54), (''U'', 0x55),
     (''V'', 0x56), (''W'', 0x57), (''X'', 0x58), (''Y'', 0x59), (''Z'', 0x5A),
     (''0'', 0x30), (''1'', 0x31), (''2'', 0x32), (''3'', 0x33), (''4'', 0x34), (''5'', 0x35), (''6'', 0x36),
     (''7'', 0x37), (''8'', 0x38), (''9'', 0x39),
     (''SPACE'', 0x20), (''TAB'', 0x09), (''MINUS'', 0xBD), (''PLUS'', 0xBB), (''EQUALS'', 0xBB),
     (''BACKTICK'', 0xC0), (''OPENBRACKET'', 0xDB), (''CLOSEBRACKET'', 0xDD), (''BACKSLASH'', 0xDC),
     (''SEMICOLON'', 0xBA), (''QUOTE'', 0xDE), (''COMMA'', 0xBC), (''PERIOD'', 0xBE), (''SLASH'', 0xBF)]"

definition parse_vk_name :: "uppercase \<Rightarrow> string \<Rightarrow> nat option" where
  "parse_vk_name upper name = map_of vk_names (upper (trim name))"

text \<open>\<open>str::split\<close> with a character: the pieces between its occurrences.\<close>

fun split_on :: "char \<Rightarrow> string \<Rightarrow> string list" where
  "split_on c [] = [[]]"
| "split_on c (x # xs) =
     (if x = c then [] # split_on c xs
      else case split_on c xs of [] \<Rightarrow> [[x]] | p # ps \<Rightarrow> (x # p) # ps)"

text \<open>Modifiers are a bit mask: 1 for Alt, 2 for Ctrl, 4 for Shift.\<close>

definition parse_hotkey_part :: "uppercase \<Rightarrow> string \<Rightarrow> 32 word \<times> string option \<Rightarrow> 32 word \<times> string option" where
  "parse_hotkey_part upper part acc =
     (let name = upper (trim part)
      in if name = ''CTRL'' \<or> name = ''CONTROL'' then (or (fst acc) 2, snd acc)
         else if name = ''ALT'' then (or (fst acc) 1, snd acc)
         else if name = ''SHIFT'' then (or (fst acc) 4, snd acc)
         else (fst acc, Some (trim part)))"

definition parse_hotkey_combo :: "uppercase \<Rightarrow> string \<Rightarrow> (32 word \<times> nat) option" where
  "parse_hotkey_combo upper combo =
     (let (mods, key_part) = fold (parse_hotkey_part upper) (split_on CHR ''+'' combo) (0, None)
      in map_option (Pair mods) (parse_vk_name upper (unwrap_or key_part [])))"

record BoxIdentity =
  box_server :: string
  box_character :: string

definition box_matches :: "BoxIdentity \<Rightarrow> string \<Rightarrow> string \<Rightarrow> bool" where
  "box_matches b server character =
     (eq_ignore_ascii_case (box_server b) server \<and> eq_ignore_ascii_case (box_character b) character)"

record BoxCycle =
  cycle_name :: string
  cycle_next_hotkey :: string
  cycle_previous_hotkey :: string
  cycle_members :: "BoxIdentity list"

definition configured_global_hotkeys ::
  "string \<Rightarrow> string \<Rightarrow> string list \<Rightarrow> BoxCycle list \<Rightarrow> (string \<times> string) list" where
  "configured_global_hotkeys hide_hotkey broadcast_hotkey swap_hotkeys box_cycles =
     (''Hide overlay'', hide_hotkey) # (''Broadcast toggle'', broadcast_hotkey)
     # map (\<lambda>(index, hotkey). (''Window '' @ nat_to_dec (index + 1), hotkey)) (enumerate 0 swap_hotkeys)
     @ concat (map (\<lambda>cycle. [(cycle_name cycle @ '' next'', cycle_next_hotkey cycle),
         (cycle_name cycle @ '' previous'', cycle_previous_hotkey cycle)]) box_cycles)"

type_synonym chord = "32 word \<times> nat"

fun check_bindings ::
  "uppercase \<Rightarrow> (chord \<Rightarrow> (string \<times> string) option) \<Rightarrow> (string \<times> string) list \<Rightarrow> string + unit" where
  "check_bindings upper seen [] = Inr ()"
| "check_bindings upper seen ((label, raw) # rest) =
     (let binding = trim raw
      in if binding = [] then check_bindings upper seen rest
         else (case parse_hotkey_combo upper binding of
             None \<Rightarrow> Inl (label @ '' hotkey '' @ [CHR 0x27] @ binding @ [CHR 0x27] @ '' is not supported'')
           | Some chord \<Rightarrow>
               (case seen chord of
                  Some (existing_label, existing_binding) \<Rightarrow>
                    Inl (label @ '' hotkey ('' @ binding @ '') conflicts with '' @ existing_label
                      @ '' ('' @ existing_binding @ '')'')
                | None \<Rightarrow> check_bindings upper (seen(chord \<mapsto> (label, binding))) rest)))"

definition validate_global_hotkey_bindings ::
  "uppercase \<Rightarrow> string \<Rightarrow> string \<Rightarrow> string list \<Rightarrow> BoxCycle list \<Rightarrow> string + unit" where
  "validate_global_hotkey_bindings upper hide broadcast swaps cycles =
     check_bindings upper Map.empty (configured_global_hotkeys hide broadcast swaps cycles)"

definition validate_mouse_clutch_binding ::
  "uppercase \<Rightarrow> string \<Rightarrow> string \<Rightarrow> string \<Rightarrow> string list \<Rightarrow> BoxCycle list \<Rightarrow> string + nat option" where
  "validate_mouse_clutch_binding upper raw hide broadcast swaps cycles =
     (let binding = trim raw
      in if binding = [] then Inr None
         else if CHR ''+'' \<in> set binding then Inl ''Mouse Clutch uses one key without modifiers''
         else (case parse_vk_name upper binding of
             None \<Rightarrow> Inl (''Mouse Clutch key '' @ [CHR 0x27] @ binding @ [CHR 0x27] @ '' is not supported'')
           | Some vk \<Rightarrow>
               (case find (\<lambda>(_, hotkey). is_some_and (parse_hotkey_combo upper hotkey) (\<lambda>(_, existing_vk). existing_vk = vk))
                  (configured_global_hotkeys hide broadcast swaps cycles) of
                  Some (label, hotkey) \<Rightarrow>
                    Inl (''Mouse Clutch conflicts with '' @ label @ '' ('' @ hotkey @ '')'')
                | None \<Rightarrow> Inr (Some vk))))"

section \<open>Properties\<close>

text \<open>The bindings that are filled in.\<close>

definition filled_bindings :: "(string \<times> string) list \<Rightarrow> string list" where
  "filled_bindings hs = filter (\<lambda>b. b \<noteq> []) (map (\<lambda>(_, raw). trim raw) hs)"

lemma filled_bindings_Cons:
  "filled_bindings ((label, raw) # rest) = (if trim raw = [] then filled_bindings rest else trim raw # filled_bindings rest)"
  by (simp add: filled_bindings_def)

lemma check_bindings_iff:
  "check_bindings upper seen hs = Inr () \<longleftrightarrow>
     list_all (\<lambda>b. parse_hotkey_combo upper b \<noteq> None \<and> Option.bind (parse_hotkey_combo upper b) seen = None) (filled_bindings hs)
     \<and> distinct (map (parse_hotkey_combo upper) (filled_bindings hs))"
proof (induction upper seen hs rule: check_bindings.induct)
  case (1 upper seen)
  show ?case by (simp add: filled_bindings_def)
next
  case (2 upper seen label raw rest)
  show ?case
  proof (cases "parse_hotkey_combo upper (trim raw)")
    case None
    then show ?thesis using 2(1) by (simp add: filled_bindings_Cons Let_def)
  next
    case (Some chord)
    have swap: "list_all (\<lambda>b. parse_hotkey_combo upper b \<noteq> None
        \<and> Option.bind (parse_hotkey_combo upper b) (seen(chord \<mapsto> x)) = None) bs
      \<longleftrightarrow> list_all (\<lambda>b. parse_hotkey_combo upper b \<noteq> None \<and> Option.bind (parse_hotkey_combo upper b) seen = None) bs
        \<and> Some chord \<notin> parse_hotkey_combo upper ` set bs" for bs x
      by (induction bs) (auto split: option.splits if_splits)
    show ?thesis
    proof (cases "trim raw = [] \<or> seen chord \<noteq> None")
      case True
      then show ?thesis using 2(1) Some by (auto simp: filled_bindings_Cons Let_def)
    next
      case False
      then have ih: "check_bindings upper (seen(chord \<mapsto> (label, trim raw))) rest = Inr () \<longleftrightarrow>
          list_all (\<lambda>b. parse_hotkey_combo upper b \<noteq> None
            \<and> Option.bind (parse_hotkey_combo upper b) (seen(chord \<mapsto> (label, trim raw))) = None) (filled_bindings rest)
          \<and> distinct (map (parse_hotkey_combo upper) (filled_bindings rest))"
        using 2(2) [OF refl _ Some] by blast
      have "check_bindings upper (seen(chord \<mapsto> (label, trim raw))) rest = Inr () \<longleftrightarrow>
          list_all (\<lambda>b. parse_hotkey_combo upper b \<noteq> None \<and> Option.bind (parse_hotkey_combo upper b) seen = None) (filled_bindings rest)
          \<and> Some chord \<notin> parse_hotkey_combo upper ` set (filled_bindings rest)
          \<and> distinct (map (parse_hotkey_combo upper) (filled_bindings rest))"
        unfolding ih swap by blast
      moreover have "trim raw \<noteq> []" "seen chord = None" using False by blast+
      ultimately show ?thesis using Some by (auto simp: filled_bindings_Cons Let_def)
    qed
  qed
qed

text \<open>
  The settings are accepted exactly when every hotkey that is filled in can be parsed and
  no two of them are the same chord, whatever their labels and spelling.
\<close>

theorem accepted_hotkeys_are_distinct:
  "validate_global_hotkey_bindings upper hide broadcast swaps cycles = Inr () \<longleftrightarrow>
     list_all (\<lambda>b. parse_hotkey_combo upper b \<noteq> None)
       (filled_bindings (configured_global_hotkeys hide broadcast swaps cycles))
     \<and> distinct (map (parse_hotkey_combo upper) (filled_bindings (configured_global_hotkeys hide broadcast swaps cycles)))"
  by (auto simp: validate_global_hotkey_bindings_def check_bindings_iff list_all_iff split: bind_splits)

text \<open>
  A clutch key is accepted exactly when it names one key without modifiers that no global
  hotkey uses, with whatever modifiers; so the hook that swallows it never takes a hotkey away.
\<close>

theorem clutch_key_is_free:
  "validate_mouse_clutch_binding upper raw hide broadcast swaps cycles = Inr (Some vk) \<longleftrightarrow>
     trim raw \<noteq> [] \<and> CHR ''+'' \<notin> set (trim raw) \<and> parse_vk_name upper (trim raw) = Some vk
     \<and> list_all (\<lambda>(_, hotkey). vk \<notin> snd ` set_option (parse_hotkey_combo upper hotkey))
         (configured_global_hotkeys hide broadcast swaps cycles)"
proof -
  let ?uses = "\<lambda>(_ :: string, hotkey). is_some_and (parse_hotkey_combo upper hotkey) (\<lambda>(_, existing_vk). existing_vk = vk)"
  let ?hotkeys = "configured_global_hotkeys hide broadcast swaps cycles"
  have uses: "?uses h \<longleftrightarrow> vk \<in> snd ` set_option (parse_hotkey_combo upper (snd h))" for h
    by (cases "parse_hotkey_combo upper (snd h)") (auto split: prod.splits)
  have free: "find ?uses ?hotkeys = None \<longleftrightarrow> list_all (\<lambda>(_, hotkey). vk \<notin> snd ` set_option (parse_hotkey_combo upper hotkey)) ?hotkeys"
    by (simp add: find_None_iff list_all_iff uses split_beta Ball_def)
  show ?thesis
    by (cases "find ?uses ?hotkeys") (auto simp: validate_mouse_clutch_binding_def Let_def free [symmetric] split: option.split)
qed

end
