(* ===== verification/Stonemite_Broadcast.thy ===== *)
theory Stonemite_Broadcast
  imports Trusik_Protocol Trushar_Control Stonemite_Hotkeys "HOL-Library.AList"
begin

text \<open>
  The broadcast engine, \<^verbatim>\<open>crates/stonemite/src/broadcast.rs\<close>: it owns the shared-memory region of
  every EverQuest process, merges broadcast and targeted keys into it, and runs the mouse
  clutch. Everything happens on one thread, so an operation is a function on the engine's state.

  What the operating system answers is the argument \<open>env\<close> of an operation: the clock, the
  foreground process, the mouse buttons, whether a hook can be installed or removed, whether a
  process is alive and which mapping a region opens. A region that another thread has locked
  for ever would keep the writer spinning; operations that write keys are partial for that
  reason (\<open>None\<close>), and it is proved that this never happens. The hash map of targets is kept
  sorted, and the one of remote holds is an association list, since no operation depends on
  their order.
\<close>

unbundle bit_operations_syntax

section \<open>The mouse clutch\<close>

definition MOUSE_LEFT :: u8 where "MOUSE_LEFT = push_bit 0 1"
definition MOUSE_RIGHT :: u8 where "MOUSE_RIGHT = push_bit 1 1"
definition MOUSE_MIDDLE :: u8 where "MOUSE_MIDDLE = push_bit 2 1"
definition MOUSE_X1 :: u8 where "MOUSE_X1 = push_bit 3 1"
definition MOUSE_X2 :: u8 where "MOUSE_X2 = push_bit 4 1"
definition MOUSE_DRAIN_MS :: nat where "MOUSE_DRAIN_MS = 90"
definition REMOTE_MOUSE_CLUTCH_LEASE_MS :: nat where "REMOTE_MOUSE_CLUTCH_LEASE_MS = 2000"

datatype ClutchPhase = PhaseInactive | PhaseActive | PhaseReleasing | PhaseDraining

datatype MouseClutchStatus = StatusInactive | StatusActive | StatusReleasing

datatype BroadcastClutchAvailability = AvailReady | AvailNoActiveClient | AvailNoCompatibleTargets
  | AvailInputUnavailable

datatype MouseClutchControlError = ClutchUnavailable string | ClutchNotReady string
  | ClutchHoldExpired string | ClutchOperationFailed string

datatype ClutchKeyEffect = EffectPass | EffectSwallow | EffectActivate

record MouseClutch =
  clutch_phase :: ClutchPhase
  clutch_buttons :: u8
  clutch_swallowed_vk :: "nat option"
  clutch_local_owner_active :: bool
  clutch_source_pid :: "nat option"
  clutch_drain_deadline_ms :: nat

definition clutch_new :: "u8 \<Rightarrow> MouseClutch" where
  "clutch_new buttons = \<lparr>clutch_phase = PhaseInactive, clutch_buttons = buttons, clutch_swallowed_vk = None,
     clutch_local_owner_active = False, clutch_source_pid = None, clutch_drain_deadline_ms = 0\<rparr>"

definition clutch_status :: "MouseClutch \<Rightarrow> MouseClutchStatus" where
  "clutch_status c = (case clutch_phase c of
      PhaseInactive \<Rightarrow> StatusInactive
    | PhaseActive \<Rightarrow> StatusActive
    | PhaseReleasing \<Rightarrow> StatusReleasing
    | PhaseDraining \<Rightarrow> StatusReleasing)"

definition begin_drain :: "nat \<Rightarrow> MouseClutch \<Rightarrow> MouseClutch" where
  "begin_drain now_ms c = c\<lparr>clutch_phase := PhaseDraining,
     clutch_drain_deadline_ms := u64_saturating_add now_ms MOUSE_DRAIN_MS\<rparr>"

definition clutch_activate :: "nat \<Rightarrow> bool \<Rightarrow> MouseClutch \<Rightarrow> bool \<times> MouseClutch" where
  "clutch_activate source_pid has_targets c =
     (if clutch_phase c = PhaseActive then (clutch_source_pid c = Some source_pid, c)
      else if clutch_buttons c \<noteq> 0 \<or> \<not> has_targets then (False, c)
      else (True, c\<lparr>clutch_phase := PhaseActive, clutch_source_pid := Some source_pid,
              clutch_drain_deadline_ms := 0\<rparr>))"

definition release_if_unowned :: "nat \<Rightarrow> bool \<Rightarrow> MouseClutch \<Rightarrow> MouseClutch" where
  "release_if_unowned now_ms remote_owner_active c =
     (if clutch_local_owner_active c \<or> remote_owner_active \<or> clutch_phase c \<noteq> PhaseActive then c
      else if clutch_buttons c = 0 then begin_drain now_ms c
      else c\<lparr>clutch_phase := PhaseReleasing\<rparr>)"

definition on_key_down :: "nat \<Rightarrow> nat \<Rightarrow> bool \<Rightarrow> MouseClutch \<Rightarrow> ClutchKeyEffect \<times> MouseClutch" where
  "on_key_down vk source_pid has_targets c =
     (if clutch_swallowed_vk c = Some vk then (EffectSwallow, c)
      else let (activated, c') = clutch_activate source_pid has_targets (c\<lparr>clutch_swallowed_vk := Some vk\<rparr>)
           in if \<not> activated then (EffectSwallow, c')
              else (EffectActivate, c'\<lparr>clutch_local_owner_active := True\<rparr>))"

definition on_key_up :: "nat \<Rightarrow> nat \<Rightarrow> bool \<Rightarrow> MouseClutch \<Rightarrow> ClutchKeyEffect \<times> MouseClutch" where
  "on_key_up vk now_ms remote_owner_active c =
     (if clutch_swallowed_vk c \<noteq> Some vk then (EffectPass, c)
      else (EffectSwallow, release_if_unowned now_ms remote_owner_active
              (c\<lparr>clutch_swallowed_vk := None, clutch_local_owner_active := False\<rparr>)))"

definition set_button :: "u8 \<Rightarrow> bool \<Rightarrow> nat \<Rightarrow> MouseClutch \<Rightarrow> MouseClutch" where
  "set_button button pressed now_ms c =
     (let c' = c\<lparr>clutch_buttons := (if pressed then clutch_buttons c OR button
                                    else clutch_buttons c AND NOT button)\<rparr>
      in if clutch_phase c' = PhaseReleasing \<and> clutch_buttons c' = 0 then begin_drain now_ms c' else c')"

definition cancel_bounded :: "nat \<Rightarrow> MouseClutch \<Rightarrow> MouseClutch" where
  "cancel_bounded now_ms c =
     (let c' = c\<lparr>clutch_local_owner_active := False\<rparr>
      in if clutch_phase c' = PhaseActive \<or> clutch_phase c' = PhaseReleasing then begin_drain now_ms c' else c')"

definition force_inactive :: "MouseClutch \<Rightarrow> MouseClutch" where
  "force_inactive c = c\<lparr>clutch_phase := PhaseInactive, clutch_local_owner_active := False,
     clutch_source_pid := None, clutch_drain_deadline_ms := 0\<rparr>"

definition finish_drain_if_due :: "nat \<Rightarrow> MouseClutch \<Rightarrow> bool \<times> MouseClutch" where
  "finish_drain_if_due now_ms c =
     (if clutch_phase c = PhaseDraining \<and> now_ms \<ge> clutch_drain_deadline_ms c
      then (True, force_inactive c) else (False, c))"

section \<open>The engine\<close>

record ProcessShm =
  shm_pid :: nat
  shm_has_process_handle :: bool
  shm_ptr :: SharedKeyState
  shm_broadcast_keys :: "bool list"
  shm_targeted_keys :: "bool list"
  shm_targeted_active :: bool
  shm_mouse_selected :: bool

datatype FilterMode = Blacklist | Whitelist

record RemoteMouseHold =
  hold_source_pid :: nat
  hold_deadline_ms :: nat

type_synonym targets = "(nat, ProcessShm) btree_map"

record BroadcastEngine =
  be_targets :: targets
  be_active_pid :: "nat option"
  be_keyboard_hook :: bool
  be_mouse_hook :: bool
  be_broadcasting :: bool
  be_clutch_binding_vk :: "nat option"
  be_pending_clutch_binding :: "nat option option"
  be_clutch_key_is_down :: bool
  be_clutch :: MouseClutch
  be_remote_mouse_holds :: "(MouseClutchOwner \<times> RemoteMouseHold) list"
  be_remote_mouse_sequences :: "MouseClutchOwner \<Rightarrow> nat option"
  be_closed_remote_sessions :: "nat \<Rightarrow> nat option"
  be_closed_remote_session_order :: "nat list"
  be_clutch_status_dirty :: bool
  be_clutch_error :: "string option"
  be_eq_pids :: "nat list"
  be_mouse_eligible_pids :: "nat list"
  be_eq_was_foreground :: bool
  be_filter_mode :: FilterMode
  be_filter_scancodes :: "nat list"

text \<open>What opening the named mapping of a process gives.\<close>

datatype Mapping = MappingFailed | MappingCreated | MappingExisting SharedKeyState

record Win32Env =
  env_now_ms :: nat
  env_foreground_pid :: "nat option"
  env_mouse_buttons :: u8
  env_key_is_down :: "nat \<Rightarrow> bool"
  env_install_keyboard_hook :: "string option"
  env_install_mouse_hook :: "string option"
  env_remove_keyboard_hook :: "string option"
  env_remove_mouse_hook :: "string option"
  env_process_alive :: "nat \<Rightarrow> bool"
  env_open_process :: "nat \<Rightarrow> bool"
  env_mapping :: "nat \<Rightarrow> Mapping"

definition target_is_ready :: "ProcessShm \<Rightarrow> bool" where
  "target_is_ready target = proxy_is_ready (shm_ptr target)"

definition target_process_alive :: "Win32Env \<Rightarrow> ProcessShm \<Rightarrow> bool" where
  "target_process_alive env target = (\<not> shm_has_process_handle target \<or> env_process_alive env (shm_pid target))"

definition combined_key_value :: "bool \<Rightarrow> bool \<Rightarrow> u8" where
  "combined_key_value broadcast targeted = (if broadcast \<or> targeted then 0x80 else 0x00)"

definition write_combined_key :: "nat \<Rightarrow> ProcessShm \<Rightarrow> ProcessShm option" where
  "write_combined_key scan shm =
     map_option (\<lambda>p. shm\<lparr>shm_ptr := p\<rparr>)
       (set_controller_key (shm_ptr shm) scan
          (combined_key_value (shm_broadcast_keys shm ! scan) (shm_targeted_keys shm ! scan)))"

definition set_keyboard_source :: "u32 \<Rightarrow> bool \<Rightarrow> ProcessShm \<Rightarrow> ProcessShm" where
  "set_keyboard_source source active shm =
     shm\<lparr>shm_ptr := (shm_ptr shm)\<lparr>controller_keyboard_active :=
       (if active then controller_keyboard_active (shm_ptr shm) OR source
        else controller_keyboard_active (shm_ptr shm) AND NOT source)\<rparr>\<rparr>"

definition store_mouse_active :: "bool \<Rightarrow> ProcessShm \<Rightarrow> ProcessShm" where
  "store_mouse_active active shm =
     shm\<lparr>shm_mouse_selected := active,
         shm_ptr := (shm_ptr shm)\<lparr>controller_mouse_active := (if active then 1 else 0)\<rparr>\<rparr>"

text \<open>An update of every target by an operation that may not return.\<close>

fun try_map_targets :: "(nat \<Rightarrow> ProcessShm \<Rightarrow> ProcessShm option) \<Rightarrow> targets \<Rightarrow> targets option" where
  "try_map_targets f [] = Some []"
| "try_map_targets f ((pid, shm) # ts) =
     Option.bind (f pid shm) (\<lambda>shm'. map_option (\<lambda>rest. (pid, shm') # rest) (try_map_targets f ts))"

definition map_targets :: "(nat \<Rightarrow> ProcessShm \<Rightarrow> ProcessShm) \<Rightarrow> BroadcastEngine \<Rightarrow> BroadcastEngine" where
  "map_targets f s = s\<lparr>be_targets := map (\<lambda>(pid, shm). (pid, f pid shm)) (be_targets s)\<rparr>"

text \<open>The loops that clear the broadcast keys, and the targeted ones that are down.\<close>

fun clear_broadcast_keys :: "nat list \<Rightarrow> ProcessShm \<Rightarrow> ProcessShm option" where
  "clear_broadcast_keys [] shm = Some shm"
| "clear_broadcast_keys (scan # scans) shm =
     Option.bind (write_combined_key scan
       (shm\<lparr>shm_broadcast_keys := (shm_broadcast_keys shm)[scan := False]\<rparr>)) (clear_broadcast_keys scans)"

fun clear_targeted_keys :: "nat list \<Rightarrow> ProcessShm \<Rightarrow> ProcessShm option" where
  "clear_targeted_keys [] shm = Some shm"
| "clear_targeted_keys (scan # scans) shm =
     (if shm_targeted_keys shm ! scan
      then Option.bind (write_combined_key scan
        (shm\<lparr>shm_targeted_keys := (shm_targeted_keys shm)[scan := False]\<rparr>)) (clear_targeted_keys scans)
      else clear_targeted_keys scans shm)"

section \<open>Filters and hooks\<close>

record BroadcastConfig =
  cfg_filter_mode :: string
  cfg_filter_keys :: "string list"
  cfg_mouse_clutch_key :: string
  cfg_hide_hotkey :: string
  cfg_broadcast_hotkey :: string
  cfg_swap_hotkeys :: "string list"
  cfg_box_cycles :: "BoxCycle list"

definition mouse_clutch_vk :: "uppercase \<Rightarrow> BroadcastConfig \<Rightarrow> string + nat option" where
  "mouse_clutch_vk upper cfg = validate_mouse_clutch_binding upper (cfg_mouse_clutch_key cfg)
     (cfg_hide_hotkey cfg) (cfg_broadcast_hotkey cfg) (cfg_swap_hotkeys cfg) (cfg_box_cycles cfg)"

text \<open>\<open>vk_to_scan\<close> is the system's \<^verbatim>\<open>MapVirtualKeyW\<close>.\<close>

definition load_filter :: "uppercase \<Rightarrow> (nat \<Rightarrow> nat) \<Rightarrow> BroadcastConfig \<Rightarrow> FilterMode \<times> nat list" where
  "load_filter upper vk_to_scan cfg =
     (if cfg_filter_mode cfg = ''whitelist'' then Whitelist else Blacklist,
      filter_map (\<lambda>name. Option.bind (parse_vk_name upper name) (\<lambda>vk.
        let scan = vk_to_scan vk in if scan > 0 \<and> scan < 256 then Some scan else None)) (cfg_filter_keys cfg))"

definition passes_filter :: "BroadcastEngine \<Rightarrow> nat \<Rightarrow> bool" where
  "passes_filter s scan =
     (let in_list = scan \<in> set (be_filter_scancodes s)
      in case be_filter_mode s of Blacklist \<Rightarrow> \<not> in_list | Whitelist \<Rightarrow> in_list)"

definition remote_owned :: "BroadcastEngine \<Rightarrow> bool" where
  "remote_owned s = (be_remote_mouse_holds s \<noteq> [])"

definition keyboard_hook_needed :: "BroadcastEngine \<Rightarrow> bool" where
  "keyboard_hook_needed s = (be_broadcasting s \<or> be_clutch_binding_vk s \<noteq> None
     \<or> be_pending_clutch_binding s \<noteq> None \<or> clutch_swallowed_vk (be_clutch s) \<noteq> None)"

definition mouse_hook_needed :: "BroadcastEngine \<Rightarrow> bool" where
  "mouse_hook_needed s = (be_clutch_binding_vk s \<noteq> None \<or> be_pending_clutch_binding s \<noteq> None
     \<or> remote_owned s \<or> clutch_phase (be_clutch s) \<noteq> PhaseInactive)"

text \<open>The two removals; a later error replaces an earlier one.\<close>

definition remove_hooks :: "Win32Env \<Rightarrow> BroadcastEngine \<Rightarrow> (string + unit) \<times> BroadcastEngine" where
  "remove_hooks env s =
     (let (e1, s1) = (if \<not> mouse_hook_needed s \<and> be_mouse_hook s
            then (case env_remove_mouse_hook env of
                    None \<Rightarrow> (None, s\<lparr>be_mouse_hook := False\<rparr>)
                  | Some error \<Rightarrow> (Some (''failed to remove mouse hook: '' @ error), s))
            else (None, s));
          (e2, s2) = (if \<not> keyboard_hook_needed s1 \<and> be_keyboard_hook s1
            then (case env_remove_keyboard_hook env of
                    None \<Rightarrow> (e1, s1\<lparr>be_keyboard_hook := False\<rparr>)
                  | Some error \<Rightarrow> (Some (''failed to remove keyboard hook: '' @ error), s1))
            else (e1, s1))
      in (case e2 of None \<Rightarrow> Inr () | Some e \<Rightarrow> Inl e, s2))"

definition reconcile_hooks :: "Win32Env \<Rightarrow> BroadcastEngine \<Rightarrow> (string + unit) \<times> BroadcastEngine" where
  "reconcile_hooks env s =
     (let install_keyboard = (keyboard_hook_needed s \<and> \<not> be_keyboard_hook s)
      in case (if install_keyboard then env_install_keyboard_hook env else None) of
           Some error \<Rightarrow> (Inl (''failed to install keyboard hook: '' @ error), s)
         | None \<Rightarrow>
             let s1 = (if install_keyboard then s\<lparr>be_keyboard_hook := True\<rparr> else s);
                 install_mouse = (mouse_hook_needed s1 \<and> \<not> be_mouse_hook s1)
             in (case (if install_mouse then env_install_mouse_hook env else None) of
                   Some error \<Rightarrow> (Inl (''failed to install mouse hook: '' @ error), s1)
                 | None \<Rightarrow> remove_hooks env
                     (if install_mouse
                      then s1\<lparr>be_mouse_hook := True, be_clutch := (be_clutch s1)\<lparr>clutch_buttons := env_mouse_buttons env\<rparr>\<rparr>
                      else s1)))"

section \<open>Mouse targets\<close>

definition deactivate_mouse_targets :: "BroadcastEngine \<Rightarrow> BroadcastEngine" where
  "deactivate_mouse_targets = map_targets (\<lambda>_ shm. if shm_mouse_selected shm then store_mouse_active False shm else shm)"

definition mouse_target :: "BroadcastEngine \<Rightarrow> nat \<Rightarrow> nat \<Rightarrow> ProcessShm \<Rightarrow> bool" where
  "mouse_target s source_pid pid shm =
     (pid \<noteq> source_pid \<and> pid \<in> set (be_mouse_eligible_pids s) \<and> target_is_ready shm)"

definition has_ready_mouse_targets :: "BroadcastEngine \<Rightarrow> nat \<Rightarrow> bool" where
  "has_ready_mouse_targets s source_pid =
     (source_pid \<in> set (be_mouse_eligible_pids s)
      \<and> list_ex (\<lambda>(pid, shm). mouse_target s source_pid pid shm) (be_targets s))"

definition cancel_all_clutch_owners :: "nat \<Rightarrow> BroadcastEngine \<Rightarrow> BroadcastEngine" where
  "cancel_all_clutch_owners now_ms s =
     s\<lparr>be_remote_mouse_holds := [], be_clutch := cancel_bounded now_ms (be_clutch s),
       be_clutch_status_dirty := True\<rparr>"

definition activate_mouse_targets :: "nat \<Rightarrow> BroadcastEngine \<Rightarrow> bool \<times> BroadcastEngine" where
  "activate_mouse_targets source_pid s =
     (if \<not> has_ready_mouse_targets s source_pid then (False, s)
      else let s1 = map_targets (\<lambda>pid shm. if mouse_target s source_pid pid shm
                    then store_mouse_active True shm else shm) s;
               s2 = map_targets (\<lambda>pid shm. if shm_mouse_selected shm
                      \<and> (pid = source_pid \<or> pid \<notin> set (be_mouse_eligible_pids s) \<or> \<not> target_is_ready shm)
                    then store_mouse_active False shm else shm) s1
           in (True, s2))"

definition mouse_clutch_availability_for :: "Win32Env \<Rightarrow> BroadcastEngine \<Rightarrow> BroadcastClutchAvailability" where
  "mouse_clutch_availability_for env s =
     (case env_foreground_pid env of
        None \<Rightarrow> AvailNoActiveClient
      | Some pid \<Rightarrow>
          if \<not> (be_active_pid s = Some pid \<and> pid \<in> set (be_eq_pids s)) then AvailNoActiveClient
          else if has_ready_mouse_targets s pid then AvailReady else AvailNoCompatibleTargets)"

definition mouse_clutch_availability :: "Win32Env \<Rightarrow> BroadcastEngine option \<Rightarrow> BroadcastClutchAvailability" where
  "mouse_clutch_availability env st =
     (case st of None \<Rightarrow> AvailInputUnavailable | Some s \<Rightarrow> mouse_clutch_availability_for env s)"

definition extend_lease :: "Win32Env \<Rightarrow> nat" where
  "extend_lease env = u64_saturating_add (env_now_ms env) REMOTE_MOUSE_CLUTCH_LEASE_MS"

definition drop_hold :: "MouseClutchOwner \<Rightarrow> BroadcastEngine \<Rightarrow> BroadcastEngine" where
  "drop_hold owner s = s\<lparr>be_remote_mouse_holds := AList.delete owner (be_remote_mouse_holds s)\<rparr>"

text \<open>A remote \<open>Begin\<close> that is neither stale nor a repetition.\<close>

definition begin_remote_hold ::
  "Win32Env \<Rightarrow> MouseClutchOwner \<Rightarrow> nat \<Rightarrow> BroadcastEngine \<Rightarrow> (MouseClutchControlError + bool) \<times> BroadcastEngine" where
  "begin_remote_hold env owner source_pid s =
     (let resuming = (clutch_phase (be_clutch s) = PhaseActive \<and> clutch_source_pid (be_clutch s) = Some source_pid);
          s1 = s\<lparr>be_remote_mouse_holds := AList.update owner
                  \<lparr>hold_source_pid = source_pid, hold_deadline_ms = extend_lease env\<rparr> (be_remote_mouse_holds s)\<rparr>
      in case reconcile_hooks env s1 of
           (Inl error, s2) \<Rightarrow> (Inl (ClutchOperationFailed error), snd (reconcile_hooks env (drop_hold owner s2)))
         | (Inr _, s2) \<Rightarrow>
             if resuming then (Inr True, s2\<lparr>be_clutch_status_dirty := True\<rparr>)
             else let (activated, clutch) = clutch_activate source_pid True
                        ((be_clutch s2)\<lparr>clutch_buttons := env_mouse_buttons env\<rparr>);
                      s3 = s2\<lparr>be_clutch := clutch\<rparr>
                  in if \<not> activated
                     then (Inl (ClutchNotReady ''release every mouse button before engaging Mouse Clutch''),
                           snd (reconcile_hooks env (drop_hold owner s3)))
                     else (case activate_mouse_targets source_pid s3 of
                         (False, s4) \<Rightarrow>
                           (let s5 = drop_hold owner s4
                            in (Inl (ClutchNotReady ''Mouse Clutch has no compatible input-ready background target''),
                                snd (reconcile_hooks env (s5\<lparr>be_clutch := release_if_unowned (env_now_ms env) False (be_clutch s5)\<rparr>))))
                       | (True, s4) \<Rightarrow> (Inr True, s4\<lparr>be_clutch_status_dirty := True\<rparr>)))"

definition update_remote_mouse_clutch_hold ::
  "Win32Env \<Rightarrow> MouseClutchOwner \<Rightarrow> MouseClutchOperation \<Rightarrow> nat \<Rightarrow> BroadcastEngine option
   \<Rightarrow> (MouseClutchControlError + bool) \<times> BroadcastEngine option" where
  "update_remote_mouse_clutch_hold env owner operation sequence st =
     (case st of
        None \<Rightarrow> (Inl (ClutchUnavailable ''Mouse Clutch is unavailable because trusik is disabled''), None)
      | Some s0 \<Rightarrow>
          if be_closed_remote_sessions s0 (mo_session_id owner) \<noteq> None
          then (Inl (ClutchHoldExpired ''the Mouse Clutch connection is no longer active''), Some s0)
          else if sequence \<le> unwrap_or (be_remote_mouse_sequences s0 owner) 0
          then (Inr (map_of (be_remote_mouse_holds s0) owner \<noteq> None), Some s0)
          else let s = s0\<lparr>be_remote_mouse_sequences := (be_remote_mouse_sequences s0)(owner \<mapsto> sequence)\<rparr>
               in apsnd Some (case operation of
                    ClutchBegin \<Rightarrow>
                      (case map_of (be_remote_mouse_holds s) owner of
                         Some hold \<Rightarrow> (Inr True, s\<lparr>be_remote_mouse_holds := AList.update owner
                           (hold\<lparr>hold_deadline_ms := extend_lease env\<rparr>) (be_remote_mouse_holds s)\<rparr>)
                       | None \<Rightarrow>
                           (case mouse_clutch_availability_for env s of
                              AvailReady \<Rightarrow> begin_remote_hold env owner (the (env_foreground_pid env)) s
                            | AvailInputUnavailable \<Rightarrow>
                                (Inl (ClutchUnavailable ''Mouse Clutch is unavailable because trusik is disabled''), s)
                            | AvailNoActiveClient \<Rightarrow>
                                (Inl (ClutchNotReady ''Mouse Clutch needs a foreground EverQuest client''), s)
                            | AvailNoCompatibleTargets \<Rightarrow>
                                (Inl (ClutchNotReady ''Mouse Clutch needs a compatible input-ready background client''), s)))
                  | ClutchRenew \<Rightarrow>
                      (case map_of (be_remote_mouse_holds s) owner of
                         None \<Rightarrow> (Inl (ClutchHoldExpired ''the Mouse Clutch hold is no longer active''), s)
                       | Some hold \<Rightarrow>
                           if clutch_phase (be_clutch s) \<noteq> PhaseActive
                              \<or> clutch_source_pid (be_clutch s) \<noteq> Some (hold_source_pid hold)
                           then (Inl (ClutchHoldExpired ''the Mouse Clutch hold was canceled''), drop_hold owner s)
                           else (Inr True, s\<lparr>be_remote_mouse_holds := AList.update owner
                             (hold\<lparr>hold_deadline_ms := extend_lease env\<rparr>) (be_remote_mouse_holds s)\<rparr>))
                  | ClutchEnd \<Rightarrow>
                      (if map_of (be_remote_mouse_holds s) owner \<noteq> None
                       then let s1 = drop_hold owner s
                            in (Inr False, snd (reconcile_hooks env (s1\<lparr>
                                  be_clutch := release_if_unowned (env_now_ms env) (remote_owned s1) (be_clutch s1),
                                  be_clutch_status_dirty := True\<rparr>)))
                       else (Inr False, s))))"

fun expire_remote_sessions :: "(nat \<Rightarrow> nat option) \<Rightarrow> nat list \<Rightarrow> (nat \<Rightarrow> nat option) \<times> nat list" where
  "expire_remote_sessions closed [] = (closed, [])"
| "expire_remote_sessions closed (expired # order) =
     (if length (expired # order) > 256 then expire_remote_sessions (closed(expired := None)) order
      else (closed, expired # order))"

definition end_remote_mouse_clutch_session ::
  "Win32Env \<Rightarrow> nat \<Rightarrow> nat \<Rightarrow> BroadcastEngine \<Rightarrow> BroadcastEngine" where
  "end_remote_mouse_clutch_session env session_id sequence s =
     (let order = (if be_closed_remote_sessions s session_id = None
            then be_closed_remote_session_order s @ [session_id] else be_closed_remote_session_order s);
          (closed, order') = expire_remote_sessions ((be_closed_remote_sessions s)(session_id \<mapsto> sequence)) order;
          kept = filter (\<lambda>(owner, _). mo_session_id owner \<noteq> session_id) (be_remote_mouse_holds s);
          s1 = s\<lparr>be_closed_remote_sessions := closed, be_closed_remote_session_order := order',
                 be_remote_mouse_holds := kept,
                 be_remote_mouse_sequences := (\<lambda>owner. if mo_session_id owner \<noteq> session_id
                   then be_remote_mouse_sequences s owner else None)\<rparr>
      in if length kept \<noteq> length (be_remote_mouse_holds s)
         then snd (reconcile_hooks env (s1\<lparr>
                be_clutch := release_if_unowned (env_now_ms env) (remote_owned s1) (be_clutch s1),
                be_clutch_status_dirty := True\<rparr>))
         else s1)"

section \<open>Targets\<close>

definition is_target_ready :: "nat \<Rightarrow> BroadcastEngine option \<Rightarrow> bool" where
  "is_target_ready pid st = is_some_and (Option.bind st (\<lambda>s. bm_get (be_targets s) pid)) target_is_ready"

definition refresh_heartbeats :: "nat \<Rightarrow> BroadcastEngine \<Rightarrow> BroadcastEngine" where
  "refresh_heartbeats now_ms = map_targets (\<lambda>_ shm.
     shm\<lparr>shm_ptr := refresh_controller_heartbeat (shm_ptr shm) (of_nat now_ms)\<rparr>)"

definition set_active :: "Win32Env \<Rightarrow> bool \<Rightarrow> BroadcastEngine \<Rightarrow> ((string + unit) \<times> BroadcastEngine) option" where
  "set_active env active s =
     (if be_broadcasting s = active then Some (Inr (), s)
      else let (hook_result, s1) = reconcile_hooks env (s\<lparr>be_broadcasting := active\<rparr>)
           in case (active, hook_result) of
                (True, Inl error) \<Rightarrow> Some (Inl error, snd (reconcile_hooks env (s1\<lparr>be_broadcasting := False\<rparr>)))
              | _ \<Rightarrow>
                  map_option (\<lambda>ts. (hook_result,
                      map_targets (\<lambda>_. set_keyboard_source KEYBOARD_BROADCAST active) (s1\<lparr>be_targets := ts\<rparr>)))
                    (if \<not> active then try_map_targets (\<lambda>_. clear_broadcast_keys [0..<255]) (be_targets s1)
                     else Some (be_targets s1)))"

definition create_shm :: "Win32Env \<Rightarrow> nat \<Rightarrow> ProcessShm option" where
  "create_shm env pid =
     map_option (\<lambda>region. \<lparr>shm_pid = pid, shm_has_process_handle = env_open_process env pid,
         shm_ptr = refresh_controller_heartbeat region (of_nat (env_now_ms env)),
         shm_broadcast_keys = replicate 256 False, shm_targeted_keys = replicate 256 False,
         shm_targeted_active = False, shm_mouse_selected = False\<rparr>)
       (case env_mapping env pid of
          MappingFailed \<Rightarrow> None
        | MappingCreated \<Rightarrow> Some initialize
        | MappingExisting region \<Rightarrow> if \<not> is_compatible region then None else Some (retire_controller region))"

text \<open>What dropping a target leaves in its region.\<close>

definition process_shm_drop :: "ProcessShm \<Rightarrow> SharedKeyState" where
  "process_shm_drop shm = retire_controller (shm_ptr shm)"

definition store_suppress :: "nat option \<Rightarrow> BroadcastEngine \<Rightarrow> BroadcastEngine" where
  "store_suppress active = map_targets (\<lambda>pid shm.
     shm\<lparr>shm_ptr := (shm_ptr shm)\<lparr>suppress := (if Some pid = active then 0 else 1)\<rparr>\<rparr>)"

definition add_target :: "Win32Env \<Rightarrow> nat \<Rightarrow> BroadcastEngine \<Rightarrow> BroadcastEngine" where
  "add_target env pid s =
     (if bm_contains (be_targets s) pid then s
      else case create_shm env pid of
             None \<Rightarrow> s
           | Some shm \<Rightarrow> s\<lparr>be_targets := bm_insert pid
               (if be_broadcasting s then set_keyboard_source KEYBOARD_BROADCAST True shm else shm) (be_targets s)\<rparr>)"

definition update_targets :: "Win32Env \<Rightarrow> nat list \<Rightarrow> nat option \<Rightarrow> BroadcastEngine \<Rightarrow> BroadcastEngine" where
  "update_targets env pids active s =
     (let source_disappeared = is_some_and (clutch_source_pid (be_clutch s)) (\<lambda>pid. pid \<notin> set pids);
          selected_disappeared = list_ex (\<lambda>(pid, shm). shm_mouse_selected shm \<and> pid \<notin> set pids) (be_targets s);
          s1 = (if source_disappeared \<or> selected_disappeared
                then cancel_all_clutch_owners (env_now_ms env) s else s);
          s2 = s1\<lparr>be_eq_pids := pids, be_targets := filter (\<lambda>(pid, _). pid \<in> set pids) (be_targets s1)\<rparr>;
          s3 = fold (add_target env) pids s2
      in store_suppress active (s3\<lparr>be_active_pid := active\<rparr>))"

definition update_mouse_eligible_pids :: "Win32Env \<Rightarrow> nat list \<Rightarrow> BroadcastEngine \<Rightarrow> BroadcastEngine" where
  "update_mouse_eligible_pids env pids s =
     (let ineligible = list_ex (\<lambda>(pid, shm). shm_mouse_selected shm \<and> pid \<notin> set pids) (be_targets s);
          s1 = s\<lparr>be_mouse_eligible_pids := pids\<rparr>
      in if ineligible then cancel_all_clutch_owners (env_now_ms env) s1 else s1)"

definition set_active_pid :: "Win32Env \<Rightarrow> nat \<Rightarrow> BroadcastEngine \<Rightarrow> BroadcastEngine" where
  "set_active_pid env pid s =
     (let s1 = (if is_some_and (clutch_source_pid (be_clutch s)) (\<lambda>source. source \<noteq> pid)
                then cancel_all_clutch_owners (env_now_ms env) s else s)
      in store_suppress (Some pid) (s1\<lparr>be_active_pid := Some pid\<rparr>))"

section \<open>Lifecycle\<close>

definition broadcast_init :: "Win32Env \<Rightarrow> uppercase \<Rightarrow> (nat \<Rightarrow> nat) \<Rightarrow> BroadcastConfig \<Rightarrow> BroadcastEngine" where
  "broadcast_init env upper vk_to_scan cfg =
     (let (filter_mode, filter_scancodes) = load_filter upper vk_to_scan cfg;
          (binding, error) = (case mouse_clutch_vk upper cfg of
             Inr b \<Rightarrow> (b, None) | Inl e \<Rightarrow> (None, Some e));
          s = \<lparr>be_targets = [], be_active_pid = None, be_keyboard_hook = False, be_mouse_hook = False,
               be_broadcasting = False, be_clutch_binding_vk = binding, be_pending_clutch_binding = None,
               be_clutch_key_is_down = is_some_and binding (env_key_is_down env),
               be_clutch = clutch_new (env_mouse_buttons env), be_remote_mouse_holds = [],
               be_remote_mouse_sequences = Map.empty, be_closed_remote_sessions = Map.empty,
               be_closed_remote_session_order = [], be_clutch_status_dirty = False, be_clutch_error = error,
               be_eq_pids = [], be_mouse_eligible_pids = [], be_eq_was_foreground = False,
               be_filter_mode = filter_mode, be_filter_scancodes = filter_scancodes\<rparr>
      in case reconcile_hooks env s of
           (Inr _, s1) \<Rightarrow> s1
         | (Inl e, s1) \<Rightarrow>
             snd (reconcile_hooks env (s1\<lparr>be_clutch_binding_vk := None, be_clutch_error := Some e\<rparr>)))"

definition apply_pending_clutch_binding :: "Win32Env \<Rightarrow> BroadcastEngine \<Rightarrow> BroadcastEngine" where
  "apply_pending_clutch_binding env s =
     (if clutch_phase (be_clutch s) \<noteq> PhaseInactive \<or> clutch_swallowed_vk (be_clutch s) \<noteq> None then s
      else case be_pending_clutch_binding s of
             None \<Rightarrow> s
           | Some binding \<Rightarrow>
               (case reconcile_hooks env (s\<lparr>be_pending_clutch_binding := None, be_clutch_binding_vk := binding,
                   be_clutch_key_is_down := is_some_and binding (env_key_is_down env)\<rparr>) of
                  (Inr _, s1) \<Rightarrow> s1
                | (Inl error, s1) \<Rightarrow>
                    let s2 = deactivate_mouse_targets (s1\<lparr>be_clutch_binding_vk := None, be_clutch_error := Some error\<rparr>)
                    in snd (reconcile_hooks env (s2\<lparr>be_clutch := force_inactive (be_clutch s2)\<rparr>))))"

text \<open>The four parts of \<open>tick\<close>: expired holds, focus validation, the drain, the hooks.\<close>

definition expire_holds :: "Win32Env \<Rightarrow> BroadcastEngine \<Rightarrow> BroadcastEngine" where
  "expire_holds env s =
     (let kept = filter (\<lambda>(_, hold). env_now_ms env < hold_deadline_ms hold) (be_remote_mouse_holds s);
          s1 = s\<lparr>be_remote_mouse_holds := kept\<rparr>
      in if length kept \<noteq> length (be_remote_mouse_holds s)
         then s1\<lparr>be_clutch := release_if_unowned (env_now_ms env) (remote_owned s1) (be_clutch s1),
                 be_clutch_status_dirty := True\<rparr>
         else s1)"

definition validate_focus :: "Win32Env \<Rightarrow> BroadcastEngine \<Rightarrow> BroadcastEngine" where
  "validate_focus env s =
     (if clutch_phase (be_clutch s) = PhaseInactive then s
      else let source = clutch_source_pid (be_clutch s);
               source_is_foreground = (source \<noteq> None \<and> source = env_foreground_pid env
                 \<and> is_some_and source (\<lambda>pid. pid \<in> set (be_eq_pids s)));
               selected_ready = list_all (\<lambda>shm. shm_mouse_selected shm \<longrightarrow>
                 target_is_ready shm \<and> target_process_alive env shm) (bm_values (be_targets s));
               has_selected = list_ex shm_mouse_selected (bm_values (be_targets s))
           in if \<not> source_is_foreground \<or> \<not> selected_ready \<or> \<not> has_selected
              then cancel_all_clutch_owners (env_now_ms env) s else s)"

definition finish_drain :: "Win32Env \<Rightarrow> BroadcastEngine \<Rightarrow> BroadcastEngine" where
  "finish_drain env s =
     (let (finished, clutch) = finish_drain_if_due (env_now_ms env) (be_clutch s);
          s1 = s\<lparr>be_clutch := clutch\<rparr>
      in if finished then deactivate_mouse_targets s1 else s1)"

definition broadcast_tick :: "Win32Env \<Rightarrow> BroadcastEngine \<Rightarrow> bool \<times> BroadcastEngine" where
  "broadcast_tick env s =
     (let s1 = refresh_heartbeats (env_now_ms env) s;
          before = clutch_status (be_clutch s1);
          s2 = apply_pending_clutch_binding env (finish_drain env (validate_focus env (expire_holds env s1)));
          s3 = (case reconcile_hooks env s2 of
                  (Inl error, s') \<Rightarrow> s'\<lparr>be_clutch_error := Some error\<rparr> | (Inr _, s') \<Rightarrow> s');
          dirty = (be_clutch_status_dirty s3 \<or> before \<noteq> clutch_status (be_clutch s3))
      in (dirty, s3\<lparr>be_clutch_status_dirty := False\<rparr>))"

definition on_settings_changed :: "Win32Env \<Rightarrow> uppercase \<Rightarrow> (nat \<Rightarrow> nat) \<Rightarrow> BroadcastConfig \<Rightarrow> BroadcastEngine \<Rightarrow> BroadcastEngine" where
  "on_settings_changed env upper vk_to_scan cfg s =
     (let (mode, scancodes) = load_filter upper vk_to_scan cfg;
          (binding, error) = (case mouse_clutch_vk upper cfg of Inr b \<Rightarrow> (b, None) | Inl e \<Rightarrow> (None, Some e))
      in apply_pending_clutch_binding env (cancel_all_clutch_owners (env_now_ms env)
           (s\<lparr>be_filter_mode := mode, be_filter_scancodes := scancodes, be_clutch_error := error,
              be_pending_clutch_binding := Some binding\<rparr>)))"

definition broadcast_cleanup :: "Win32Env \<Rightarrow> BroadcastEngine \<Rightarrow> BroadcastEngine option" where
  "broadcast_cleanup env s =
     map_option (\<lambda>(_, s1).
       let s2 = deactivate_mouse_targets s1
       in snd (reconcile_hooks env (s2\<lparr>be_remote_mouse_holds := [],
            be_clutch := (force_inactive (be_clutch s2))\<lparr>clutch_swallowed_vk := None\<rparr>,
            be_clutch_binding_vk := None, be_pending_clutch_binding := None\<rparr>)))
       (set_active env False s)"

section \<open>Targeted input\<close>

datatype TargetedInputError = TargetedUnavailable string | TargetedOperationFailed string

definition begin_targeted_input ::
  "nat \<Rightarrow> BroadcastEngine option \<Rightarrow> (TargetedInputError + unit) \<times> BroadcastEngine option" where
  "begin_targeted_input pid st =
     (case st of
        None \<Rightarrow> (Inl (TargetedUnavailable ''targeted input is unavailable because trusik is disabled''), None)
      | Some s \<Rightarrow>
          (case bm_get (be_targets s) pid of
             None \<Rightarrow> (Inl (TargetedUnavailable ''target process has no trusik shared-memory target''), st)
           | Some shm \<Rightarrow>
               if \<not> target_is_ready shm
               then (Inl (TargetedUnavailable ''target process has not acknowledged a compatible trusik proxy''), st)
               else if shm_targeted_active shm
               then (Inl (TargetedOperationFailed ''target process already has an input sequence in progress''), st)
               else (Inr (), Some (s\<lparr>be_targets := bm_modify pid
                 (\<lambda>shm. set_keyboard_source KEYBOARD_TARGETED True (shm\<lparr>shm_targeted_active := True\<rparr>)) (be_targets s)\<rparr>))))"

definition set_targeted_key ::
  "nat \<Rightarrow> nat \<Rightarrow> bool \<Rightarrow> BroadcastEngine option \<Rightarrow> ((string + unit) \<times> BroadcastEngine option) option" where
  "set_targeted_key pid scan pressed st =
     (if scan = 0 \<or> scan = 255 then Some (Inl ''invalid DirectInput scan code'', st)
      else case st of
        None \<Rightarrow> Some (Inl ''targeted input is unavailable because trusik is disabled'', None)
      | Some s \<Rightarrow>
          (case bm_get (be_targets s) pid of
             None \<Rightarrow> Some (Inl ''target process disappeared during input delivery'', st)
           | Some shm \<Rightarrow>
               if \<not> shm_targeted_active shm then Some (Inl ''targeted input sequence is not active'', st)
               else map_option (\<lambda>shm'. (Inr (), Some (s\<lparr>be_targets := bm_insert pid shm' (be_targets s)\<rparr>)))
                      (write_combined_key scan
                        (shm\<lparr>shm_targeted_keys := (shm_targeted_keys shm)[scan := pressed]\<rparr>))))"

definition finish_targeted_input :: "nat \<Rightarrow> BroadcastEngine option \<Rightarrow> BroadcastEngine option option" where
  "finish_targeted_input pid st =
     (case st of
        None \<Rightarrow> Some None
      | Some s \<Rightarrow>
          (case bm_get (be_targets s) pid of
             None \<Rightarrow> Some st
           | Some shm \<Rightarrow>
               map_option (\<lambda>shm'. Some (s\<lparr>be_targets := bm_insert pid
                   (set_keyboard_source KEYBOARD_TARGETED False (shm'\<lparr>shm_targeted_active := False\<rparr>)) (be_targets s)\<rparr>))
                 (clear_targeted_keys [0..<255] shm)))"

section \<open>The hooks\<close>

definition direct_input_scan_code :: "nat \<Rightarrow> bool \<Rightarrow> nat option" where
  "direct_input_scan_code scan_code extended =
     (if scan_code > 255 then None
      else let scan = unat (if extended then (of_nat scan_code :: u8) OR 0x80 else of_nat scan_code)
           in if 1 \<le> scan \<and> scan \<le> 254 then Some scan else None)"

datatype MouseMessage = LButtonDown | LButtonUp | RButtonDown | RButtonUp | MButtonDown | MButtonUp
  | XButtonDown | XButtonUp | OtherMouseMessage

definition mouse_button_message :: "MouseMessage \<Rightarrow> u32 \<Rightarrow> (u8 \<times> bool) option" where
  "mouse_button_message message mouse_data =
     (let xbutton = (\<lambda>pressed. let which = drop_bit 16 mouse_data AND 0xffff
            in if which = 1 then Some (MOUSE_X1, pressed) else if which = 2 then Some (MOUSE_X2, pressed) else None)
      in case message of
           LButtonDown \<Rightarrow> Some (MOUSE_LEFT, True) | LButtonUp \<Rightarrow> Some (MOUSE_LEFT, False)
         | RButtonDown \<Rightarrow> Some (MOUSE_RIGHT, True) | RButtonUp \<Rightarrow> Some (MOUSE_RIGHT, False)
         | MButtonDown \<Rightarrow> Some (MOUSE_MIDDLE, True) | MButtonUp \<Rightarrow> Some (MOUSE_MIDDLE, False)
         | XButtonDown \<Rightarrow> xbutton True | XButtonUp \<Rightarrow> xbutton False
         | OtherMouseMessage \<Rightarrow> None)"

definition ll_mouse_proc :: "Win32Env \<Rightarrow> bool \<Rightarrow> MouseMessage \<Rightarrow> u32 \<Rightarrow> BroadcastEngine \<Rightarrow> BroadcastEngine" where
  "ll_mouse_proc env handled message mouse_data s =
     (if \<not> handled then s
      else case mouse_button_message message mouse_data of
             None \<Rightarrow> s
           | Some (button, pressed) \<Rightarrow>
               let clutch = set_button button pressed (env_now_ms env) (be_clutch s)
               in s\<lparr>be_clutch := clutch, be_clutch_status_dirty :=
                    (be_clutch_status_dirty s \<or> clutch_status (be_clutch s) \<noteq> clutch_status clutch)\<rparr>)"

datatype KeyMessage = KeyDownMessage | KeyUpMessage | OtherKeyMessage

record KeyboardEvent =
  kb_message :: KeyMessage
  kb_vk_code :: nat
  kb_scan_code :: nat
  kb_extended :: bool

datatype HookResult = HookSwallowed | HookPassed

text \<open>The last part of the keyboard hook: the key goes to every target but the foreground one.\<close>

definition broadcast_key :: "Win32Env \<Rightarrow> KeyboardEvent \<Rightarrow> BroadcastEngine \<Rightarrow> BroadcastEngine option" where
  "broadcast_key env kb s =
     (if \<not> be_broadcasting s then Some s
      else case direct_input_scan_code (kb_scan_code kb) (kb_extended kb) of
             None \<Rightarrow> Some s
           | Some scan \<Rightarrow>
               if \<not> passes_filter s scan then Some s
               else map_option (\<lambda>ts. s\<lparr>be_targets := ts\<rparr>)
                 (try_map_targets (\<lambda>pid shm. if Some pid = env_foreground_pid env then Some shm
                    else write_combined_key scan (shm\<lparr>shm_broadcast_keys :=
                      (shm_broadcast_keys shm)[scan := (kb_message kb = KeyDownMessage)]\<rparr>)) (be_targets s)))"

definition release_background_keys :: "BroadcastEngine \<Rightarrow> BroadcastEngine option" where
  "release_background_keys s =
     map_option (\<lambda>ts. s\<lparr>be_targets := ts\<rparr>)
       (try_map_targets (\<lambda>pid shm. if Some pid = be_active_pid s then Some shm
          else clear_broadcast_keys [0..<255] shm) (be_targets s))"

text \<open>A press of the clutch key in front of a client, and every other key.\<close>

definition press_clutch_key :: "Win32Env \<Rightarrow> KeyboardEvent \<Rightarrow> BroadcastEngine \<Rightarrow> BroadcastEngine" where
  "press_clutch_key env kb s =
     (let source_pid = unwrap_or (env_foreground_pid env) 0;
          (effect, clutch) = on_key_down (kb_vk_code kb) source_pid (has_ready_mouse_targets s source_pid) (be_clutch s);
          before = clutch_status (be_clutch s);
          s1 = s\<lparr>be_clutch := clutch\<rparr>;
          s2 = (if effect = EffectActivate then snd (activate_mouse_targets source_pid s1) else s1)
      in s2\<lparr>be_clutch_status_dirty := (be_clutch_status_dirty s2 \<or> before \<noteq> clutch_status (be_clutch s2))\<rparr>)"

definition release_clutch_key :: "Win32Env \<Rightarrow> KeyboardEvent \<Rightarrow> BroadcastEngine \<Rightarrow> BroadcastEngine" where
  "release_clutch_key env kb s =
     (let clutch = snd (on_key_up (kb_vk_code kb) (env_now_ms env) (remote_owned s) (be_clutch s))
      in s\<lparr>be_clutch_key_is_down := False, be_clutch := clutch,
           be_clutch_status_dirty := (be_clutch_status_dirty s \<or> clutch_status (be_clutch s) \<noteq> clutch_status clutch)\<rparr>)"

definition ordinary_key :: "Win32Env \<Rightarrow> KeyboardEvent \<Rightarrow> BroadcastEngine \<Rightarrow> BroadcastEngine option" where
  "ordinary_key env kb s =
     (if is_some_and (env_foreground_pid env) (\<lambda>pid. pid \<in> set (be_eq_pids s))
      then broadcast_key env kb (s\<lparr>be_eq_was_foreground := True\<rparr>)
      else if be_eq_was_foreground s then release_background_keys (s\<lparr>be_eq_was_foreground := False\<rparr>)
      else Some s)"

definition ll_keyboard_proc :: "Win32Env \<Rightarrow> bool \<Rightarrow> KeyboardEvent \<Rightarrow> BroadcastEngine \<Rightarrow> (HookResult \<times> BroadcastEngine) option" where
  "ll_keyboard_proc env handled kb s =
     (let key_down = (kb_message kb = KeyDownMessage); key_up = (kb_message kb = KeyUpMessage);
          eq_is_foreground = is_some_and (env_foreground_pid env) (\<lambda>pid. pid \<in> set (be_eq_pids s))
      in if \<not> handled then Some (HookPassed, s)
         else if key_down \<and> clutch_swallowed_vk (be_clutch s) = Some (kb_vk_code kb) then Some (HookSwallowed, s)
         else if key_up \<and> clutch_swallowed_vk (be_clutch s) = Some (kb_vk_code kb)
         then Some (HookSwallowed, release_clutch_key env kb s)
         else let s1 = (if key_up \<and> be_clutch_binding_vk s = Some (kb_vk_code kb)
                        then s\<lparr>be_clutch_key_is_down := False\<rparr> else s);
                  clutch_pressed = (key_down \<and> be_pending_clutch_binding s1 = None
                    \<and> be_clutch_binding_vk s1 = Some (kb_vk_code kb))
              in if clutch_pressed \<and> be_clutch_key_is_down s1 then Some (HookPassed, s1)
                 else let s2 = (if clutch_pressed then s1\<lparr>be_clutch_key_is_down := True\<rparr> else s1)
                   in if clutch_pressed \<and> eq_is_foreground
                      then Some (HookSwallowed, press_clutch_key env kb s2)
                      else map_option (Pair HookPassed) (ordinary_key env kb s2))"

end
