(* ===== verification/Broadcast_Keys.thy ===== *)
theory Broadcast_Keys
  imports Stonemite_Broadcast
begin

text \<open>
  The keys the broadcast engine holds down in a client. The shared region of every target shows
  a key as pressed exactly when the broadcast or the targeted input holds it, over every
  operation of the engine, and no operation waits for ever. From this follow the isolation of
  targeted input and what its end leaves behind.
\<close>

section \<open>Writing one key\<close>

text \<open>Two regions that agree in everything but the keys and their journal.\<close>

definition same_region :: "SharedKeyState \<Rightarrow> SharedKeyState \<Rightarrow> bool" where
  "same_region p q \<longleftrightarrow> magic p = magic q \<and> version p = version q \<and> proxy_ready p = proxy_ready q
     \<and> suppress p = suppress q \<and> controller_keyboard_active p = controller_keyboard_active q
     \<and> controller_mouse_active p = controller_mouse_active q
     \<and> controller_heartbeat_ms p = controller_heartbeat_ms q \<and> auto_type_keys p = auto_type_keys q
     \<and> auto_type_lease p = auto_type_lease q \<and> length (controller_keys p) = length (controller_keys q)"

lemma same_region_refl [simp]: "same_region p p"
  by (simp add: same_region_def)

lemma same_region_trans: "same_region p q \<Longrightarrow> same_region q r \<Longrightarrow> same_region p r"
  by (simp add: same_region_def)

lemma high_bit: "((0x80 :: u8) AND 0x80) \<noteq> 0" "((0 :: u8) AND 0x80) = 0"
  by simp_all

lemma combined_high_bit: "combined_key_value b t AND 0x80 \<noteq> 0 \<longleftrightarrow> b \<or> t"
  by (simp add: combined_key_value_def)

lemma combined_masked: "combined_key_value b t AND 0x80 = (if b \<or> t then 0x80 else 0)"
  by (simp add: combined_key_value_def)

lemma set_key_effect:
  assumes len: "length (controller_keys p) = KEY_COUNT" and even: "even (controller_sequence p)"
    and scan: "scan < KEY_COUNT"
  obtains q where "set_controller_key p scan (combined_key_value b t) = Some q" "even (controller_sequence q)"
    "same_region q p" "key_down q = (key_down p)(scan := b \<or> t)"
proof (cases "controller_keys p ! scan AND 0x80 = combined_key_value b t AND 0x80")
  case True
  have "(key_down p)(scan := b \<or> t) = key_down p"
    using True combined_high_bit [of b t] by (simp add: key_down_def fun_eq_iff)
  then show ?thesis
    using that [OF set_controller_key_same [OF scan even True]] unlock_even [OF even]
    by (simp add: same_region_def)
next
  case False
  let ?v = "if b \<or> t then 0x80 else 0 :: u8"
  let ?q = "(publish_controller_event (p\<lparr>controller_sequence := controller_sequence p + 1,
      controller_keys := (controller_keys p)[scan := ?v]\<rparr>) scan (b \<or> t))
      \<lparr>controller_sequence := unlock_sequence (controller_sequence p + 1)\<rparr>"
  have eq: "set_controller_key p scan (combined_key_value b t) = Some ?q"
    using set_controller_key_changed [OF scan even False] combined_high_bit [of b t] by simp
  have "key_down ?q = (key_down p)(scan := b \<or> t)"
    using len scan by (auto simp: key_down_def fun_eq_iff publish_controller_event_def Let_def)
  moreover have "same_region ?q p" by (simp add: same_region_def publish_controller_event_def Let_def)
  ultimately show ?thesis using that [OF eq] unlock_even [OF even] by simp
qed

section \<open>The invariant of a target\<close>

definition shm_wf :: "ProcessShm \<Rightarrow> bool" where
  "shm_wf shm \<longleftrightarrow> length (shm_broadcast_keys shm) = 256 \<and> length (shm_targeted_keys shm) = 256
     \<and> length (controller_keys (shm_ptr shm)) = KEY_COUNT \<and> even (controller_sequence (shm_ptr shm))"

text \<open>The keys outside \<open>stale\<close> are shown as they are held.\<close>

definition keys_merged :: "nat set \<Rightarrow> ProcessShm \<Rightarrow> bool" where
  "keys_merged stale shm \<longleftrightarrow> (\<forall>scan < 256. scan \<notin> stale \<longrightarrow>
     key_down (shm_ptr shm) scan = (shm_broadcast_keys shm ! scan \<or> shm_targeted_keys shm ! scan))"

lemma write_combined_key_effect:
  assumes wf: "shm_wf shm" and merged: "keys_merged stale shm" and scan: "scan < 256"
  obtains shm' where "write_combined_key scan shm = Some shm'" "shm_wf shm'" "keys_merged (stale - {scan}) shm'"
    "shm' = shm\<lparr>shm_ptr := shm_ptr shm'\<rparr>" "same_region (shm_ptr shm') (shm_ptr shm)"
proof -
  let ?b = "shm_broadcast_keys shm ! scan" and ?t = "shm_targeted_keys shm ! scan"
  obtain q where q: "set_controller_key (shm_ptr shm) scan (combined_key_value ?b ?t) = Some q"
    "even (controller_sequence q)" "same_region q (shm_ptr shm)" "key_down q = (key_down (shm_ptr shm))(scan := ?b \<or> ?t)"
    using set_key_effect [of "shm_ptr shm" scan ?b ?t] wf scan by (auto simp: shm_wf_def KEY_COUNT_def)
  show ?thesis
  proof (rule that [of "shm\<lparr>shm_ptr := q\<rparr>"])
    show "shm_wf (shm\<lparr>shm_ptr := q\<rparr>)" using wf q(2,3) by (simp add: shm_wf_def same_region_def)
    show "keys_merged (stale - {scan}) (shm\<lparr>shm_ptr := q\<rparr>)"
      using merged by (simp add: keys_merged_def q(4))
  qed (use q in \<open>simp_all add: write_combined_key_def\<close>)
qed

definition shm_ok :: "ProcessShm \<Rightarrow> bool" where
  "shm_ok shm \<longleftrightarrow> shm_wf shm \<and> keys_merged {} shm \<and> \<not> shm_targeted_keys shm ! 255
     \<and> (\<not> shm_targeted_active shm \<longrightarrow> (\<forall>scan < 256. \<not> shm_targeted_keys shm ! scan))"

lemma keys_merged_update:
  "keys_merged {} shm \<Longrightarrow> keys_merged {scan} (shm\<lparr>shm_targeted_keys := (shm_targeted_keys shm)[scan := b]\<rparr>)"
  "keys_merged {} shm \<Longrightarrow> keys_merged {scan} (shm\<lparr>shm_broadcast_keys := (shm_broadcast_keys shm)[scan := b]\<rparr>)"
  by (auto simp: keys_merged_def)

text \<open>A key of either source is set and written.\<close>

lemma set_broadcast_key_effect:
  assumes ok: "shm_ok shm" and scan: "scan < 256"
  obtains shm' where "write_combined_key scan (shm\<lparr>shm_broadcast_keys := (shm_broadcast_keys shm)[scan := b]\<rparr>) = Some shm'"
    "shm_ok shm'" "shm' = shm\<lparr>shm_broadcast_keys := (shm_broadcast_keys shm)[scan := b], shm_ptr := shm_ptr shm'\<rparr>"
    "same_region (shm_ptr shm') (shm_ptr shm)"
proof -
  let ?s = "shm\<lparr>shm_broadcast_keys := (shm_broadcast_keys shm)[scan := b]\<rparr>"
  have wf: "shm_wf ?s" "keys_merged {scan} ?s"
    using ok keys_merged_update(2) [of shm] by (auto simp: shm_ok_def shm_wf_def)
  obtain shm' where w: "write_combined_key scan ?s = Some shm'" "shm_wf shm'" "keys_merged ({scan} - {scan}) shm'"
    "shm' = ?s\<lparr>shm_ptr := shm_ptr shm'\<rparr>" "same_region (shm_ptr shm') (shm_ptr ?s)"
    by (rule write_combined_key_effect [OF wf scan]) blast
  have "shm_targeted_keys shm' = shm_targeted_keys shm" "shm_targeted_active shm' = shm_targeted_active shm"
    by (subst w(4); simp)+
  then have "shm_ok shm'" using w(2,3) ok by (simp add: shm_ok_def)
  then show ?thesis using that w(1,4,5) by simp
qed

lemma set_targeted_key_effect:
  assumes ok: "shm_ok shm" and scan: "scan < 255" and active: "shm_targeted_active shm \<or> \<not> b"
  obtains shm' where "write_combined_key scan (shm\<lparr>shm_targeted_keys := (shm_targeted_keys shm)[scan := b]\<rparr>) = Some shm'"
    "shm_ok shm'" "shm' = shm\<lparr>shm_targeted_keys := (shm_targeted_keys shm)[scan := b], shm_ptr := shm_ptr shm'\<rparr>"
    "same_region (shm_ptr shm') (shm_ptr shm)"
proof -
  let ?s = "shm\<lparr>shm_targeted_keys := (shm_targeted_keys shm)[scan := b]\<rparr>"
  have wf: "shm_wf ?s" "keys_merged {scan} ?s"
    using ok keys_merged_update(1) [of shm] by (auto simp: shm_ok_def shm_wf_def)
  obtain shm' where w: "write_combined_key scan ?s = Some shm'" "shm_wf shm'" "keys_merged ({scan} - {scan}) shm'"
    "shm' = ?s\<lparr>shm_ptr := shm_ptr shm'\<rparr>" "same_region (shm_ptr shm') (shm_ptr ?s)"
    using scan by (elim write_combined_key_effect [OF wf, of scan, rotated]) auto
  have "shm_targeted_keys shm' = (shm_targeted_keys shm)[scan := b]" "shm_targeted_active shm' = shm_targeted_active shm"
    by (subst w(4); simp)+
  then have "shm_ok shm'" using w(2,3) ok scan active
    by (auto simp: shm_ok_def shm_wf_def nth_list_update split: if_splits)
  then show ?thesis using that w(1,4,5) by simp
qed

section \<open>The loops over the keys\<close>

lemma clear_broadcast_keys_effect:
  "shm_ok shm \<Longrightarrow> \<forall>scan \<in> set scans. scan < 256 \<Longrightarrow>
   \<exists>shm'. clear_broadcast_keys scans shm = Some shm' \<and> shm_ok shm'
     \<and> (\<exists>p b. shm' = shm\<lparr>shm_broadcast_keys := b, shm_ptr := p\<rparr> \<and> same_region p (shm_ptr shm)
        \<and> (\<forall>scan. b ! scan \<longleftrightarrow> shm_broadcast_keys shm ! scan \<and> scan \<notin> set scans))"
proof (induction scans arbitrary: shm)
  case Nil
  then show ?case by (auto intro!: exI [of _ "shm_ptr shm"] exI [of _ "shm_broadcast_keys shm"])
next
  case (Cons scan scans)
  have len: "scan < length (shm_broadcast_keys shm)"
    using Cons.prems by (simp add: shm_ok_def shm_wf_def)
  obtain mid where mid: "write_combined_key scan
      (shm\<lparr>shm_broadcast_keys := (shm_broadcast_keys shm)[scan := False]\<rparr>) = Some mid" "shm_ok mid"
    "mid = shm\<lparr>shm_broadcast_keys := (shm_broadcast_keys shm)[scan := False], shm_ptr := shm_ptr mid\<rparr>"
    "same_region (shm_ptr mid) (shm_ptr shm)"
    using Cons.prems(2) by (elim set_broadcast_key_effect [OF Cons.prems(1), of scan False, rotated]) auto
  obtain shm' p b where rest: "clear_broadcast_keys scans mid = Some shm'" "shm_ok shm'"
    "shm' = mid\<lparr>shm_broadcast_keys := b, shm_ptr := p\<rparr>" "same_region p (shm_ptr mid)"
    "\<forall>scan. b ! scan \<longleftrightarrow> shm_broadcast_keys mid ! scan \<and> scan \<notin> set scans"
    using Cons.IH [OF mid(2)] Cons.prems(2) by auto
  have keys: "shm_broadcast_keys mid = (shm_broadcast_keys shm)[scan := False]" by (subst mid(3)) simp
  have "shm' = shm\<lparr>shm_broadcast_keys := b, shm_ptr := p\<rparr>" by (subst rest(3), subst mid(3)) simp
  moreover have "b ! i \<longleftrightarrow> shm_broadcast_keys shm ! i \<and> i \<notin> set (scan # scans)" for i
    using rest(5) len by (cases "i = scan") (auto simp: keys)
  ultimately show ?case using mid(1) rest(1,2) same_region_trans [OF rest(4) mid(4)] by auto
qed

lemma clear_targeted_keys_effect:
  "shm_ok shm \<Longrightarrow> \<forall>scan \<in> set scans. scan < 255 \<Longrightarrow>
   \<exists>shm'. clear_targeted_keys scans shm = Some shm' \<and> shm_ok shm'
     \<and> (\<exists>p t. shm' = shm\<lparr>shm_targeted_keys := t, shm_ptr := p\<rparr> \<and> same_region p (shm_ptr shm)
        \<and> (\<forall>scan. t ! scan \<longleftrightarrow> shm_targeted_keys shm ! scan \<and> scan \<notin> set scans))"
proof (induction scans arbitrary: shm)
  case Nil
  then show ?case by (auto intro!: exI [of _ "shm_ptr shm"] exI [of _ "shm_targeted_keys shm"])
next
  case (Cons scan scans)
  show ?case
  proof (cases "shm_targeted_keys shm ! scan")
    case False
    then show ?thesis using Cons.IH [OF Cons.prems(1)] Cons.prems(2) by fastforce
  next
    case True
    have len: "scan < length (shm_targeted_keys shm)"
      using Cons.prems by (simp add: shm_ok_def shm_wf_def)
    obtain mid where mid: "write_combined_key scan
        (shm\<lparr>shm_targeted_keys := (shm_targeted_keys shm)[scan := False]\<rparr>) = Some mid" "shm_ok mid"
      "mid = shm\<lparr>shm_targeted_keys := (shm_targeted_keys shm)[scan := False], shm_ptr := shm_ptr mid\<rparr>"
      "same_region (shm_ptr mid) (shm_ptr shm)"
      using Cons.prems(2) by (elim set_targeted_key_effect [OF Cons.prems(1), of scan False, rotated 2]) auto
    obtain shm' p t where rest: "clear_targeted_keys scans mid = Some shm'" "shm_ok shm'"
      "shm' = mid\<lparr>shm_targeted_keys := t, shm_ptr := p\<rparr>" "same_region p (shm_ptr mid)"
      "\<forall>scan. t ! scan \<longleftrightarrow> shm_targeted_keys mid ! scan \<and> scan \<notin> set scans"
      using Cons.IH [OF mid(2)] Cons.prems(2) by auto
    have keys: "shm_targeted_keys mid = (shm_targeted_keys shm)[scan := False]" by (subst mid(3)) simp
    have "shm' = shm\<lparr>shm_targeted_keys := t, shm_ptr := p\<rparr>" by (subst rest(3), subst mid(3)) simp
    moreover have "t ! i \<longleftrightarrow> shm_targeted_keys shm ! i \<and> i \<notin> set (scan # scans)" for i
      using rest(5) len by (cases "i = scan") (auto simp: keys)
    ultimately show ?thesis
      using True mid(1) rest(1,2) same_region_trans [OF rest(4) mid(4)] by auto
  qed
qed

section \<open>The region reflects the engine\<close>

text \<open>
  Everything the controller side of a region shows is a function of the engine: the keys, the
  two keyboard sources, the mouse flag and the suppression of local input.
\<close>

definition region_ok :: "bool \<Rightarrow> nat option \<Rightarrow> nat \<Rightarrow> ProcessShm \<Rightarrow> bool" where
  "region_ok broadcasting active pid shm \<longleftrightarrow> shm_ok shm \<and> shm_pid shm = pid
     \<and> (controller_keyboard_active (shm_ptr shm) AND KEYBOARD_BROADCAST \<noteq> 0 \<longleftrightarrow> broadcasting)
     \<and> (controller_keyboard_active (shm_ptr shm) AND KEYBOARD_TARGETED \<noteq> 0 \<longleftrightarrow> shm_targeted_active shm)
     \<and> (controller_mouse_active (shm_ptr shm) \<noteq> 0 \<longleftrightarrow> shm_mouse_selected shm)
     \<and> (suppress (shm_ptr shm) \<noteq> 0 \<longleftrightarrow> Some pid \<noteq> active)
     \<and> (\<not> broadcasting \<longrightarrow> (\<forall>scan < 256. \<not> shm_broadcast_keys shm ! scan))
     \<and> \<not> shm_broadcast_keys shm ! 255"

definition all_targets :: "(nat \<Rightarrow> ProcessShm \<Rightarrow> bool) \<Rightarrow> targets \<Rightarrow> bool" where
  "all_targets P ts \<longleftrightarrow> bm_wf ts \<and> (\<forall>(pid, shm) \<in> set ts. P pid shm)"

definition engine_ok :: "BroadcastEngine \<Rightarrow> bool" where
  "engine_ok s \<longleftrightarrow> all_targets (region_ok (be_broadcasting s) (be_active_pid s)) (be_targets s)"

text \<open>Updates of a region that leave its keys alone.\<close>

lemma shm_ok_ptr:
  assumes "controller_keys p = controller_keys (shm_ptr shm)" "controller_sequence p = controller_sequence (shm_ptr shm)"
  shows "shm_ok (shm\<lparr>shm_ptr := p\<rparr>) = shm_ok shm"
  using assms by (simp add: shm_ok_def shm_wf_def keys_merged_def key_down_def)

lemma shm_ok_mouse [simp]: "shm_ok (shm\<lparr>shm_mouse_selected := m\<rparr>) = shm_ok shm"
  by (simp add: shm_ok_def shm_wf_def keys_merged_def)

lemma source_bits:
  fixes w :: u32
  shows "(w OR KEYBOARD_BROADCAST) AND KEYBOARD_BROADCAST \<noteq> 0" "(w AND NOT KEYBOARD_BROADCAST) AND KEYBOARD_BROADCAST = 0"
    "(w OR KEYBOARD_TARGETED) AND KEYBOARD_TARGETED \<noteq> 0" "(w AND NOT KEYBOARD_TARGETED) AND KEYBOARD_TARGETED = 0"
    "(w OR KEYBOARD_TARGETED) AND KEYBOARD_BROADCAST = w AND KEYBOARD_BROADCAST"
    "(w AND NOT KEYBOARD_TARGETED) AND KEYBOARD_BROADCAST = w AND KEYBOARD_BROADCAST"
    "(w OR KEYBOARD_BROADCAST) AND KEYBOARD_TARGETED = w AND KEYBOARD_TARGETED"
    "(w AND NOT KEYBOARD_BROADCAST) AND KEYBOARD_TARGETED = w AND KEYBOARD_TARGETED"
  by (simp_all add: KEYBOARD_BROADCAST_def KEYBOARD_TARGETED_def bit.conj_disj_distrib2 and.assoc)

lemma all_targets_map:
  "(\<And>pid shm. P pid shm \<Longrightarrow> Q pid (f pid shm)) \<Longrightarrow> all_targets P ts \<Longrightarrow>
   all_targets Q (map (\<lambda>(pid, shm). (pid, f pid shm)) ts)"
  by (auto simp: all_targets_def bm_wf_def comp_def case_prod_unfold)

lemma all_targets_filter: "all_targets P ts \<Longrightarrow> all_targets P (filter Q ts)"
  by (auto simp: all_targets_def bm_wf_def sorted_wrt_filter sorted_wrt_map)

lemma all_targets_insert: "all_targets P ts \<Longrightarrow> P pid shm \<Longrightarrow> all_targets P (bm_insert pid shm ts)"
  using bm_insert_entries by (fastforce simp: all_targets_def)

lemma all_targets_get: "all_targets P ts \<Longrightarrow> bm_get ts pid = Some shm \<Longrightarrow> P pid shm"
  using bm_get_in [of ts pid shm] by (auto simp: all_targets_def)

lemma all_targets_modify:
  "all_targets P ts \<Longrightarrow> (\<And>shm. bm_get ts pid = Some shm \<Longrightarrow> P pid (f shm)) \<Longrightarrow> all_targets P (bm_modify pid f ts)"
  by (auto simp: all_targets_def bm_modify_def bm_wf_get bm_wf_def comp_def case_prod_unfold)

lemma try_map_targets_all:
  assumes "all_targets P ts" "\<And>pid shm. P pid shm \<Longrightarrow> \<exists>shm'. f pid shm = Some shm' \<and> Q pid shm'"
  obtains ts' where "try_map_targets f ts = Some ts'" "all_targets Q ts'" "map fst ts' = map fst ts"
proof -
  have total: "\<exists>ts'. try_map_targets f ts = Some ts' \<and> map fst ts' = map fst ts \<and> (\<forall>(pid, shm) \<in> set ts'. Q pid shm)"
    if "\<forall>(pid, shm) \<in> set ts. P pid shm" for ts
    using that
  proof (induction ts)
    case (Cons t ts)
    obtain pid shm where t: "t = (pid, shm)" by fastforce
    obtain shm' where "f pid shm = Some shm'" "Q pid shm'" using assms(2) Cons.prems t by force
    moreover obtain ts' where "try_map_targets f ts = Some ts'" "map fst ts' = map fst ts"
      "\<forall>(pid, shm) \<in> set ts'. Q pid shm" using Cons by auto
    ultimately show ?case by (auto simp: t)
  qed simp
  have "\<forall>(pid, shm) \<in> set ts. P pid shm" using assms(1) by (simp add: all_targets_def)
  then obtain ts' where "try_map_targets f ts = Some ts'" "map fst ts' = map fst ts" "\<forall>(pid, shm) \<in> set ts'. Q pid shm"
    using total by blast
  then show ?thesis using that assms(1) by (simp add: all_targets_def bm_wf_def)
qed

text \<open>What one target operation keeps.\<close>

lemma region_keyboard_source:
  "region_ok broadcasting active pid shm \<Longrightarrow> (\<not> b \<Longrightarrow> \<forall>scan < 256. \<not> shm_broadcast_keys shm ! scan) \<Longrightarrow>
   region_ok b active pid (set_keyboard_source KEYBOARD_BROADCAST b shm)"
  using source_bits [of "controller_keyboard_active (shm_ptr shm)"]
  by (cases b) (simp_all add: region_ok_def set_keyboard_source_def shm_ok_ptr)

lemma region_mouse: "region_ok broadcasting active pid shm \<Longrightarrow> region_ok broadcasting active pid (store_mouse_active m shm)"
  by (simp add: region_ok_def store_mouse_active_def shm_ok_ptr)

lemma region_heartbeat: "region_ok broadcasting active pid shm \<Longrightarrow>
    region_ok broadcasting active pid (shm\<lparr>shm_ptr := refresh_controller_heartbeat (shm_ptr shm) now\<rparr>)"
  by (simp add: region_ok_def refresh_controller_heartbeat_def shm_ok_ptr)

lemma region_suppress: "region_ok broadcasting old pid shm \<Longrightarrow>
    region_ok broadcasting active pid (shm\<lparr>shm_ptr := (shm_ptr shm)\<lparr>suppress := (if Some pid = active then 0 else 1)\<rparr>\<rparr>)"
  by (simp add: region_ok_def shm_ok_ptr)

lemma region_write:
  assumes "region_ok broadcasting active pid shm" "shm_ok shm'" "shm' = shm\<lparr>shm_broadcast_keys := b, shm_ptr := p\<rparr>"
    "same_region p (shm_ptr shm)" "\<not> broadcasting \<Longrightarrow> \<forall>scan < 256. \<not> b ! scan" "\<not> b ! 255"
  shows "region_ok broadcasting active pid shm'"
  using assms by (simp add: region_ok_def same_region_def)

lemma region_write_targeted:
  assumes "region_ok broadcasting active pid shm" "shm_ok shm'" "shm' = shm\<lparr>shm_targeted_keys := t, shm_ptr := p\<rparr>"
    "same_region p (shm_ptr shm)"
  shows "region_ok broadcasting active pid shm'"
  using assms by (simp add: region_ok_def same_region_def)

lemma key_range: "scan < 256 \<longleftrightarrow> scan = 255 \<or> scan \<in> set [0..<255]" for scan :: nat
  by auto

lemma region_clear_broadcast:
  assumes "region_ok broadcasting active pid shm"
  shows "\<exists>shm'. clear_broadcast_keys [0..<255] shm = Some shm' \<and> region_ok broadcasting active pid shm'
    \<and> (\<forall>scan < 256. \<not> shm_broadcast_keys shm' ! scan)"
proof -
  obtain shm' p b where c: "clear_broadcast_keys [0..<255] shm = Some shm'" "shm_ok shm'"
    "shm' = shm\<lparr>shm_broadcast_keys := b, shm_ptr := p\<rparr>" "same_region p (shm_ptr shm)"
    "\<forall>scan. b ! scan \<longleftrightarrow> shm_broadcast_keys shm ! scan \<and> scan \<notin> set [0..<255]"
    using clear_broadcast_keys_effect [of shm "[0..<255]"] assms by (auto simp: region_ok_def)
  have up: "\<forall>scan < 256. \<not> b ! scan"
    using c(5) assms key_range by (auto simp: region_ok_def)
  then show ?thesis using region_write [OF assms c(2,3,4)] c(1) by (simp add: c(3))
qed

lemma region_broadcast_key:
  assumes ok: "region_ok broadcasting active pid shm" and scan: "scan < 255" and on: "broadcasting"
  shows "\<exists>shm'. write_combined_key scan (shm\<lparr>shm_broadcast_keys := (shm_broadcast_keys shm)[scan := b]\<rparr>) = Some shm'
    \<and> region_ok broadcasting active pid shm'"
proof -
  obtain shm' where w: "write_combined_key scan (shm\<lparr>shm_broadcast_keys := (shm_broadcast_keys shm)[scan := b]\<rparr>) = Some shm'"
    "shm_ok shm'" "shm' = shm\<lparr>shm_broadcast_keys := (shm_broadcast_keys shm)[scan := b], shm_ptr := shm_ptr shm'\<rparr>"
    "same_region (shm_ptr shm') (shm_ptr shm)"
    using scan ok by (elim set_broadcast_key_effect [of shm scan b, rotated 2]) (auto simp: region_ok_def)
  then show ?thesis using region_write [OF ok w(2,3,4)] on scan ok by (simp add: region_ok_def)
qed

lemma region_targeted_key:
  assumes ok: "region_ok broadcasting active pid shm" and scan: "scan < 255" and on: "shm_targeted_active shm"
  shows "\<exists>shm'. write_combined_key scan (shm\<lparr>shm_targeted_keys := (shm_targeted_keys shm)[scan := b]\<rparr>) = Some shm'
    \<and> region_ok broadcasting active pid shm'"
proof -
  obtain shm' where w: "write_combined_key scan (shm\<lparr>shm_targeted_keys := (shm_targeted_keys shm)[scan := b]\<rparr>) = Some shm'"
    "shm_ok shm'" "shm' = shm\<lparr>shm_targeted_keys := (shm_targeted_keys shm)[scan := b], shm_ptr := shm_ptr shm'\<rparr>"
    "same_region (shm_ptr shm') (shm_ptr shm)"
    using scan ok on by (elim set_targeted_key_effect [of shm scan b, rotated 3]) (auto simp: region_ok_def)
  then show ?thesis using region_write_targeted [OF ok w(2,3,4)] by blast
qed

text \<open>Finishing targeted input: the keys of the sequence go up, the broadcast keys stay.\<close>

lemma region_finish_targeted:
  assumes ok: "region_ok broadcasting active pid shm"
  shows "\<exists>shm'. clear_targeted_keys [0..<255] shm = Some shm' \<and> shm_broadcast_keys shm' = shm_broadcast_keys shm
    \<and> (\<forall>scan < 256. \<not> shm_targeted_keys shm' ! scan)
    \<and> region_ok broadcasting active pid (set_keyboard_source KEYBOARD_TARGETED False (shm'\<lparr>shm_targeted_active := False\<rparr>))"
proof -
  obtain shm' p t where c: "clear_targeted_keys [0..<255] shm = Some shm'" "shm_ok shm'"
    "shm' = shm\<lparr>shm_targeted_keys := t, shm_ptr := p\<rparr>" "same_region p (shm_ptr shm)"
    "\<forall>scan. t ! scan \<longleftrightarrow> shm_targeted_keys shm ! scan \<and> scan \<notin> set [0..<255]"
    using clear_targeted_keys_effect [of shm "[0..<255]"] ok by (auto simp: region_ok_def)
  have up: "\<forall>scan < 256. \<not> t ! scan"
    using c(5) ok key_range by (auto simp: region_ok_def shm_ok_def)
  have "region_ok broadcasting active pid shm'" by (rule region_write_targeted [OF ok c(2,3,4)])
  moreover have "shm_targeted_keys shm' = t" "shm_broadcast_keys shm' = shm_broadcast_keys shm" by (simp_all add: c(3))
  moreover have "shm_ok (shm'\<lparr>shm_targeted_active := False\<rparr>)"
    using c(2) up \<open>shm_targeted_keys shm' = t\<close> by (simp add: shm_ok_def shm_wf_def keys_merged_def)
  ultimately show ?thesis
    using c(1) up source_bits [of "controller_keyboard_active (shm_ptr shm')"] shm_ok_ptr [where shm = "shm'\<lparr>shm_targeted_active := False\<rparr>"]
    by (simp add: region_ok_def set_keyboard_source_def)
qed

section \<open>Every operation keeps it\<close>

lemma remove_hooks_frame [simp]:
  "be_targets (snd (remove_hooks env s)) = be_targets s"
  "be_broadcasting (snd (remove_hooks env s)) = be_broadcasting s"
  "be_active_pid (snd (remove_hooks env s)) = be_active_pid s"
  by (cases "env_remove_mouse_hook env"; cases "env_remove_keyboard_hook env"; simp add: remove_hooks_def)+

lemma reconcile_hooks_frame [simp]:
  "be_targets (snd (reconcile_hooks env s)) = be_targets s"
  "be_broadcasting (snd (reconcile_hooks env s)) = be_broadcasting s"
  "be_active_pid (snd (reconcile_hooks env s)) = be_active_pid s"
  by (cases "env_install_mouse_hook env"; cases "env_install_keyboard_hook env"; simp add: reconcile_hooks_def Let_def)+

lemma engine_ok_reconcile [simp]: "engine_ok (snd (reconcile_hooks env s)) = engine_ok s"
  by (simp add: engine_ok_def)

lemma reconcile_hooks_frame_eq:
  assumes "reconcile_hooks env s = (r, s')"
  shows "be_targets s' = be_targets s" "be_broadcasting s' = be_broadcasting s" "be_active_pid s' = be_active_pid s"
  using reconcile_hooks_frame [of env s] by (simp_all add: assms)

lemma engine_ok_cong:
  "be_targets s' = be_targets s \<Longrightarrow> be_broadcasting s' = be_broadcasting s \<Longrightarrow> be_active_pid s' = be_active_pid s \<Longrightarrow>
   engine_ok s' = engine_ok s"
  by (simp add: engine_ok_def)

lemma engine_ok_map_targets:
  "engine_ok s \<Longrightarrow> (\<And>pid shm. region_ok (be_broadcasting s) (be_active_pid s) pid shm \<Longrightarrow>
     region_ok (be_broadcasting s) (be_active_pid s) pid (f pid shm)) \<Longrightarrow> engine_ok (map_targets f s)"
  unfolding engine_ok_def map_targets_def
  using all_targets_map [of "region_ok (be_broadcasting s) (be_active_pid s)"] by simp

lemma engine_ok_mouse:
  assumes "engine_ok s"
  shows "engine_ok (deactivate_mouse_targets s)" "engine_ok (snd (activate_mouse_targets source s))"
proof -
  show "engine_ok (deactivate_mouse_targets s)"
    unfolding deactivate_mouse_targets_def by (rule engine_ok_map_targets [OF assms]) (simp add: region_mouse)
  show "engine_ok (snd (activate_mouse_targets source s))"
    using assms by (auto simp: activate_mouse_targets_def region_mouse Let_def intro!: engine_ok_map_targets)
qed

lemma engine_ok_cancel [simp]: "engine_ok (cancel_all_clutch_owners now s) = engine_ok s"
  by (simp add: cancel_all_clutch_owners_def engine_ok_def)

lemma engine_ok_suppress:
  assumes "all_targets (\<lambda>pid shm. \<exists>old. region_ok (be_broadcasting s) old pid shm) (be_targets s)"
  shows "engine_ok (store_suppress active (s\<lparr>be_active_pid := active\<rparr>))"
proof -
  have "all_targets (region_ok (be_broadcasting s) active) (map (\<lambda>(pid, shm). (pid,
      shm\<lparr>shm_ptr := (shm_ptr shm)\<lparr>suppress := (if Some pid = active then 0 else 1)\<rparr>\<rparr>)) (be_targets s))"
    by (rule all_targets_map [OF _ assms]) (blast intro: region_suppress)
  then show ?thesis by (simp add: engine_ok_def store_suppress_def map_targets_def)
qed

lemma engine_ok_any_active: "engine_ok s \<Longrightarrow>
    all_targets (\<lambda>pid shm. \<exists>old. region_ok (be_broadcasting s) old pid shm) (be_targets s)"
  by (auto simp: engine_ok_def all_targets_def)

lemma set_active_keeps:
  assumes ok: "engine_ok s"
  obtains r s' where "set_active env active s = Some (r, s')" "engine_ok s'"
proof (cases "be_broadcasting s = active")
  case True
  then show ?thesis using ok that by (simp add: set_active_def)
next
  case False
  obtain r s1 where rec: "reconcile_hooks env (s\<lparr>be_broadcasting := active\<rparr>) = (r, s1)" by fastforce
  note frame = reconcile_hooks_frame_eq [OF rec, simplified]
  show ?thesis
  proof (cases "active \<and> isl r")
    case True
    then have "engine_ok (s1\<lparr>be_broadcasting := False\<rparr>)" using ok False frame by (simp add: engine_ok_def)
    then show ?thesis using True False that rec by (auto simp: set_active_def isl_def)
  next
    case hooks: False
    have all: "all_targets (region_ok (be_broadcasting s) (be_active_pid s)) (be_targets s1)"
      using ok frame by (simp add: engine_ok_def)
    let ?cleared = "\<lambda>pid shm. region_ok (be_broadcasting s) (be_active_pid s) pid shm
      \<and> (\<not> active \<longrightarrow> (\<forall>scan < 256. \<not> shm_broadcast_keys shm ! scan))"
    obtain ts where ts: "(if \<not> active then try_map_targets (\<lambda>_. clear_broadcast_keys [0..<255]) (be_targets s1)
        else Some (be_targets s1)) = Some ts" "all_targets ?cleared ts"
    proof (cases active)
      case True
      then show ?thesis using that all by simp
    next
      case inactive: False
      show ?thesis by (rule try_map_targets_all [OF all region_clear_broadcast]) (use that inactive in auto)
    qed
    have "all_targets (region_ok active (be_active_pid s))
        (map (\<lambda>(pid, shm). (pid, set_keyboard_source KEYBOARD_BROADCAST active shm)) ts)"
      by (rule all_targets_map [OF _ ts(2)], rule region_keyboard_source) auto
    then have "engine_ok (map_targets (\<lambda>_. set_keyboard_source KEYBOARD_BROADCAST active) (s1\<lparr>be_targets := ts\<rparr>))"
      by (simp add: engine_ok_def map_targets_def frame)
    then show ?thesis using False hooks that ts(1)
      rec by (cases active; cases r) (auto simp: set_active_def)
  qed
qed

text \<open>A mapping that exists has the layout of the shared structure.\<close>

definition env_ok :: "Win32Env \<Rightarrow> bool" where
  "env_ok env \<longleftrightarrow> (\<forall>pid region. env_mapping env pid = MappingExisting region \<longrightarrow> shared_wf region)"

lemma create_shm_ok:
  assumes "env_ok env" "create_shm env pid = Some shm"
  shows "region_ok False (Some pid) pid shm"
proof -
  have fresh: "shm_ok \<lparr>shm_pid = pid, shm_has_process_handle = h, shm_ptr = p,
      shm_broadcast_keys = replicate 256 False, shm_targeted_keys = replicate 256 False,
      shm_targeted_active = False, shm_mouse_selected = False\<rparr>"
    if "length (controller_keys p) = KEY_COUNT" "even (controller_sequence p)" "\<forall>i < 256. controller_keys p ! i = 0" for p h
    using that by (simp add: shm_ok_def shm_wf_def keys_merged_def key_down_def)
  show ?thesis using assms
    by (auto simp: create_shm_def env_ok_def region_ok_def refresh_controller_heartbeat_def initialize_def unpublished_def
        retire_controller_def reset_keys_def shared_wf_def KEY_COUNT_def intro!: fresh split: Mapping.splits if_splits)
qed

lemma add_target_keeps:
  assumes "env_ok env" "all_targets (\<lambda>pid shm. \<exists>old. region_ok (be_broadcasting s) old pid shm) (be_targets s)"
  shows "all_targets (\<lambda>pid shm. \<exists>old. region_ok (be_broadcasting s) old pid shm) (be_targets (add_target env pid s))
    \<and> be_broadcasting (add_target env pid s) = be_broadcasting s"
  using assms create_shm_ok [OF assms(1), of pid] region_keyboard_source [of False "Some pid" pid _ True]
  by (auto simp: add_target_def split: option.splits intro!: all_targets_insert)

lemma update_targets_keeps:
  assumes env: "env_ok env" and ok: "engine_ok s"
  shows "engine_ok (update_targets env pids active s)"
proof -
  let ?P = "\<lambda>s. all_targets (\<lambda>pid shm. \<exists>old. region_ok (be_broadcasting s) old pid shm) (be_targets s)"
  have step: "?P (fold (add_target env) pids s)" if "?P s" for s
    using that
  proof (induction pids arbitrary: s)
    case (Cons pid pids)
    then show ?case using add_target_keeps [OF env, of s pid] by simp
  qed simp
  have base: "?P (s1\<lparr>be_eq_pids := pids, be_targets := filter Q (be_targets s1)\<rparr>)" if "engine_ok s1" for s1 Q
    using all_targets_filter [OF engine_ok_any_active [OF that]] by simp
  show ?thesis unfolding update_targets_def Let_def
    by (rule engine_ok_suppress, rule step, rule base) (simp add: ok)
qed

text \<open>The fields the regions do not depend on.\<close>

lemma engine_ok_fields [simp]:
  "engine_ok (s\<lparr>be_clutch := c\<rparr>) = engine_ok s"
  "engine_ok (s\<lparr>be_clutch_binding_vk := v\<rparr>) = engine_ok s"
  "engine_ok (s\<lparr>be_pending_clutch_binding := w\<rparr>) = engine_ok s"
  "engine_ok (s\<lparr>be_clutch_key_is_down := d\<rparr>) = engine_ok s"
  "engine_ok (s\<lparr>be_remote_mouse_holds := h\<rparr>) = engine_ok s"
  "engine_ok (s\<lparr>be_remote_mouse_sequences := q\<rparr>) = engine_ok s"
  "engine_ok (s\<lparr>be_closed_remote_sessions := cs\<rparr>) = engine_ok s"
  "engine_ok (s\<lparr>be_closed_remote_session_order := co\<rparr>) = engine_ok s"
  "engine_ok (s\<lparr>be_clutch_status_dirty := sd\<rparr>) = engine_ok s"
  "engine_ok (s\<lparr>be_clutch_error := e\<rparr>) = engine_ok s"
  "engine_ok (s\<lparr>be_mouse_eligible_pids := m\<rparr>) = engine_ok s"
  "engine_ok (s\<lparr>be_eq_was_foreground := f\<rparr>) = engine_ok s"
  "engine_ok (s\<lparr>be_filter_mode := fm\<rparr>) = engine_ok s"
  "engine_ok (s\<lparr>be_filter_scancodes := fs\<rparr>) = engine_ok s"
  by (simp_all add: engine_ok_def)

lemma engine_ok_reconcile_eq: "reconcile_hooks env s = (r, s') \<Longrightarrow> engine_ok s' = engine_ok s"
  using engine_ok_reconcile [of env s] by simp

lemma engine_ok_activate_eq: "activate_mouse_targets source s = (r, s') \<Longrightarrow> engine_ok s \<Longrightarrow> engine_ok s'"
  using engine_ok_mouse(2) [of s source] by simp

lemmas engine_ok_steps = engine_ok_reconcile_eq engine_ok_activate_eq engine_ok_mouse

lemma apply_pending_keeps: "engine_ok s \<Longrightarrow> engine_ok (apply_pending_clutch_binding env s)"
  by (auto simp: apply_pending_clutch_binding_def Let_def engine_ok_steps split: option.split prod.split sum.split)

lemma heartbeats_keep: "engine_ok s \<Longrightarrow> engine_ok (refresh_heartbeats now s)"
  unfolding refresh_heartbeats_def by (rule engine_ok_map_targets) (simp_all add: region_heartbeat)

lemma tick_parts_keep:
  assumes "engine_ok s"
  shows "engine_ok (expire_holds env s)" "engine_ok (validate_focus env s)" "engine_ok (finish_drain env s)"
proof -
  show "engine_ok (expire_holds env s)" using assms by (simp add: expire_holds_def Let_def)
  show "engine_ok (validate_focus env s)" using assms by (simp add: validate_focus_def Let_def)
  show "engine_ok (finish_drain env s)" using assms by (simp add: finish_drain_def Let_def engine_ok_mouse split: prod.split)
qed

lemma tick_keeps: "engine_ok s \<Longrightarrow> engine_ok (snd (broadcast_tick env s))"
proof -
  assume "engine_ok s"
  then have "engine_ok (apply_pending_clutch_binding env (finish_drain env (validate_focus env
      (expire_holds env (refresh_heartbeats (env_now_ms env) s)))))"
    by (intro apply_pending_keeps tick_parts_keep heartbeats_keep)
  then show ?thesis
    by (auto simp: broadcast_tick_def Let_def engine_ok_steps split: prod.split sum.split)
qed

lemma settings_keep: "engine_ok s \<Longrightarrow> engine_ok (on_settings_changed env upper vk_to_scan cfg s)"
  by (auto simp: on_settings_changed_def Let_def intro!: apply_pending_keeps split: prod.split)

lemma remote_hold_keeps: "engine_ok s \<Longrightarrow> engine_ok (snd (begin_remote_hold env owner source s))"
  by (auto simp: begin_remote_hold_def drop_hold_def Let_def engine_ok_steps split: prod.split sum.split bool.split)

lemma update_remote_keeps:
  assumes "engine_ok s"
  shows "\<exists>r s'. update_remote_mouse_clutch_hold env owner operation sequence (Some s) = (r, Some s') \<and> engine_ok s'"
proof -
  have none: "snd (update_remote_mouse_clutch_hold env owner operation sequence (Some s)) \<noteq> None"
    by (simp add: update_remote_mouse_clutch_hold_def Let_def apsnd_def map_prod_def split: prod.split)
  have "engine_ok (the (snd (update_remote_mouse_clutch_hold env owner operation sequence (Some s))))"
    using assms remote_hold_keeps [of "s\<lparr>be_remote_mouse_sequences := q\<rparr>" for q]
    by (auto simp: update_remote_mouse_clutch_hold_def drop_hold_def Let_def
        split: MouseClutchOperation.split option.split BroadcastClutchAvailability.split)
  then show ?thesis using none
    by (cases "update_remote_mouse_clutch_hold env owner operation sequence (Some s)") auto
qed

lemma end_session_keeps: "engine_ok s \<Longrightarrow> engine_ok (end_remote_mouse_clutch_session env session_id sequence s)"
  by (auto simp: end_remote_mouse_clutch_session_def Let_def split: prod.split)

lemma set_active_pid_keeps: "engine_ok s \<Longrightarrow> engine_ok (set_active_pid env pid s)"
  unfolding set_active_pid_def Let_def by (rule engine_ok_suppress, rule engine_ok_any_active) simp

lemma eligible_keeps: "engine_ok s \<Longrightarrow> engine_ok (update_mouse_eligible_pids env pids s)"
  by (simp add: update_mouse_eligible_pids_def Let_def)

lemma mouse_proc_keeps: "engine_ok s \<Longrightarrow> engine_ok (ll_mouse_proc env handled message mouse_data s)"
  by (simp add: ll_mouse_proc_def Let_def split: option.split prod.split)

lemma broadcast_key_keeps:
  assumes ok: "engine_ok s"
  shows "\<exists>s'. broadcast_key env kb s = Some s' \<and> engine_ok s'"
proof (cases "be_broadcasting s \<and> direct_input_scan_code (kb_scan_code kb) (kb_extended kb) \<noteq> None")
  case True
  then obtain scan where scan: "direct_input_scan_code (kb_scan_code kb) (kb_extended kb) = Some scan" by blast
  have bound: "scan < 255" using scan by (auto simp: direct_input_scan_code_def Let_def split: if_splits)
  let ?R = "region_ok (be_broadcasting s) (be_active_pid s)"
  let ?f = "\<lambda>pid shm. if Some pid = env_foreground_pid env then Some shm
      else write_combined_key scan (shm\<lparr>shm_broadcast_keys :=
        (shm_broadcast_keys shm)[scan := (kb_message kb = KeyDownMessage)]\<rparr>)"
  have all: "all_targets ?R (be_targets s)" using ok by (simp add: engine_ok_def)
  have step: "\<exists>shm'. ?f pid shm = Some shm' \<and> ?R pid shm'" if "?R pid shm" for pid shm
    using region_broadcast_key [OF that bound] that True by simp
  obtain ts where "try_map_targets ?f (be_targets s) = Some ts" "all_targets ?R ts"
    by (rule try_map_targets_all [OF all step]) blast+
  then show ?thesis using True ok by (auto simp: broadcast_key_def scan engine_ok_def)
qed (use ok in \<open>auto simp: broadcast_key_def\<close>)

lemma release_background_keeps:
  assumes ok: "engine_ok s"
  shows "\<exists>s'. release_background_keys s = Some s' \<and> engine_ok s'"
proof -
  let ?R = "region_ok (be_broadcasting s) (be_active_pid s)"
  let ?f = "\<lambda>pid shm. if Some pid = be_active_pid s then Some shm else clear_broadcast_keys [0..<255] shm"
  have all: "all_targets ?R (be_targets s)" using ok by (simp add: engine_ok_def)
  have step: "\<exists>shm'. ?f pid shm = Some shm' \<and> ?R pid shm'" if "?R pid shm" for pid shm
    using region_clear_broadcast [OF that] that by auto
  obtain ts where "try_map_targets ?f (be_targets s) = Some ts" "all_targets ?R ts"
    by (rule try_map_targets_all [OF all step]) blast+
  then show ?thesis by (simp add: release_background_keys_def engine_ok_def)
qed

lemma ordinary_key_keeps: "engine_ok s \<Longrightarrow> \<exists>s'. ordinary_key env kb s = Some s' \<and> engine_ok s'"
  using broadcast_key_keeps [of "s\<lparr>be_eq_was_foreground := True\<rparr>"] release_background_keeps [of "s\<lparr>be_eq_was_foreground := False\<rparr>"]
  by (simp add: ordinary_key_def)

lemma clutch_key_keeps: "engine_ok s \<Longrightarrow> engine_ok (press_clutch_key env kb s)" "engine_ok s \<Longrightarrow> engine_ok (release_clutch_key env kb s)"
  by (simp_all add: press_clutch_key_def release_clutch_key_def engine_ok_mouse Let_def split: prod.split)

lemma keyboard_proc_keeps:
  assumes "engine_ok s"
  shows "\<exists>r s'. ll_keyboard_proc env handled kb s = Some (r, s') \<and> engine_ok s'"
proof -
  have ordinary: "\<exists>r s'. map_option (Pair HookPassed) (ordinary_key env kb t) = Some (r, s') \<and> engine_ok s'"
    if "engine_ok t" for t using ordinary_key_keeps [OF that, of env kb] by auto
  show ?thesis using assms unfolding ll_keyboard_proc_def Let_def
    by (simp add: clutch_key_keeps ordinary del: map_option_eq_Some)
qed

lemma begin_targeted_keeps:
  assumes ok: "engine_ok s"
  shows "\<exists>r s'. begin_targeted_input pid (Some s) = (r, Some s') \<and> engine_ok s'"
proof -
  have "all_targets (region_ok (be_broadcasting s) (be_active_pid s)) (bm_modify pid
      (\<lambda>shm. set_keyboard_source KEYBOARD_TARGETED True (shm\<lparr>shm_targeted_active := True\<rparr>)) (be_targets s))"
    if get: "bm_get (be_targets s) pid = Some shm" for shm
  proof (rule all_targets_modify)
    show all: "all_targets (region_ok (be_broadcasting s) (be_active_pid s)) (be_targets s)"
      using ok by (simp add: engine_ok_def)
    fix shm' assume "bm_get (be_targets s) pid = Some shm'"
    then have "region_ok (be_broadcasting s) (be_active_pid s) pid shm'" by (rule all_targets_get [OF all])
    moreover have "shm_ok (shm'\<lparr>shm_targeted_active := True\<rparr>)" if "shm_ok shm'"
      using that by (simp add: shm_ok_def shm_wf_def keys_merged_def)
    ultimately show "region_ok (be_broadcasting s) (be_active_pid s) pid
        (set_keyboard_source KEYBOARD_TARGETED True (shm'\<lparr>shm_targeted_active := True\<rparr>))"
      using source_bits [of "controller_keyboard_active (shm_ptr shm')"]
        shm_ok_ptr [where shm = "shm'\<lparr>shm_targeted_active := True\<rparr>"]
      by (simp add: region_ok_def set_keyboard_source_def)
  qed
  then show ?thesis using ok by (auto simp: begin_targeted_input_def engine_ok_def split: option.split)
qed

lemma set_targeted_keeps:
  assumes ok: "engine_ok s" and scan: "scan < 256"
  shows "\<exists>r s'. set_targeted_key pid scan pressed (Some s) = Some (r, Some s') \<and> engine_ok s'"
proof (cases "bm_get (be_targets s) pid")
  case None
  then show ?thesis using ok by (simp add: set_targeted_key_def)
next
  case (Some shm)
  have all: "all_targets (region_ok (be_broadcasting s) (be_active_pid s)) (be_targets s)"
    using ok by (simp add: engine_ok_def)
  show ?thesis
  proof (cases "shm_targeted_active shm \<and> scan \<noteq> 255")
    case True
    then have "scan < 255" using scan by simp
    then obtain shm' where "write_combined_key scan
        (shm\<lparr>shm_targeted_keys := (shm_targeted_keys shm)[scan := pressed]\<rparr>) = Some shm'"
      "region_ok (be_broadcasting s) (be_active_pid s) pid shm'"
      using region_targeted_key [OF all_targets_get [OF all Some]] True by blast
    then show ?thesis
      using Some True ok all_targets_insert [OF all] by (simp add: set_targeted_key_def engine_ok_def)
  qed (use Some ok in \<open>auto simp: set_targeted_key_def\<close>)
qed

lemma finish_targeted_keeps:
  assumes ok: "engine_ok s"
  shows "\<exists>s'. finish_targeted_input pid (Some s) = Some (Some s') \<and> engine_ok s'"
proof (cases "bm_get (be_targets s) pid")
  case None
  then show ?thesis using ok by (simp add: finish_targeted_input_def)
next
  case (Some shm)
  have all: "all_targets (region_ok (be_broadcasting s) (be_active_pid s)) (be_targets s)"
    using ok by (simp add: engine_ok_def)
  then show ?thesis
    using region_finish_targeted [OF all_targets_get [OF all Some]] all_targets_insert [OF all] Some
    by (auto simp: finish_targeted_input_def engine_ok_def)
qed

section \<open>Runs of the engine\<close>

text \<open>The calls the program makes, each with what the operating system answers at its time.\<close>

datatype BroadcastOp = OpKeyboard bool KeyboardEvent | OpMouse bool MouseMessage u32 | OpTick | OpSetActive bool
  | OpUpdateTargets "nat list" "nat option" | OpUpdateEligible "nat list" | OpSetActivePid nat
  | OpSettings BroadcastConfig | OpRemoteHold MouseClutchOwner MouseClutchOperation nat | OpEndSession nat nat
  | OpBeginTargeted nat | OpTargetedKey nat u8 bool | OpFinishTargeted nat

fun broadcast_step :: "uppercase \<Rightarrow> (nat \<Rightarrow> nat) \<Rightarrow> Win32Env \<Rightarrow> BroadcastOp \<Rightarrow> BroadcastEngine \<Rightarrow> BroadcastEngine option" where
  "broadcast_step upper vts env (OpKeyboard handled kb) s = map_option snd (ll_keyboard_proc env handled kb s)"
| "broadcast_step upper vts env (OpMouse handled message mouse_data) s = Some (ll_mouse_proc env handled message mouse_data s)"
| "broadcast_step upper vts env OpTick s = Some (snd (broadcast_tick env s))"
| "broadcast_step upper vts env (OpSetActive active) s = map_option snd (set_active env active s)"
| "broadcast_step upper vts env (OpUpdateTargets pids active) s = Some (update_targets env pids active s)"
| "broadcast_step upper vts env (OpUpdateEligible pids) s = Some (update_mouse_eligible_pids env pids s)"
| "broadcast_step upper vts env (OpSetActivePid pid) s = Some (set_active_pid env pid s)"
| "broadcast_step upper vts env (OpSettings cfg) s = Some (on_settings_changed env upper vts cfg s)"
| "broadcast_step upper vts env (OpRemoteHold owner operation sequence) s =
     snd (update_remote_mouse_clutch_hold env owner operation sequence (Some s))"
| "broadcast_step upper vts env (OpEndSession session_id sequence) s =
     Some (end_remote_mouse_clutch_session env session_id sequence s)"
| "broadcast_step upper vts env (OpBeginTargeted pid) s = snd (begin_targeted_input pid (Some s))"
| "broadcast_step upper vts env (OpTargetedKey pid scan pressed) s =
     Option.bind (set_targeted_key pid (unat scan) pressed (Some s)) snd"
| "broadcast_step upper vts env (OpFinishTargeted pid) s = Option.bind (finish_targeted_input pid (Some s)) (\<lambda>st. st)"

fun broadcast_run :: "uppercase \<Rightarrow> (nat \<Rightarrow> nat) \<Rightarrow> (Win32Env \<times> BroadcastOp) list \<Rightarrow> BroadcastEngine \<Rightarrow> BroadcastEngine option" where
  "broadcast_run upper vts [] s = Some s"
| "broadcast_run upper vts ((env, op) # steps) s =
     Option.bind (broadcast_step upper vts env op s) (broadcast_run upper vts steps)"

lemma scan_byte: "unat (scan :: u8) < 256"
  by (rule unat_u8)

lemma step_keeps:
  assumes "env_ok env" "engine_ok s"
  shows "\<exists>s'. broadcast_step upper vts env op s = Some s' \<and> engine_ok s'"
proof (cases op)
  case (OpKeyboard handled kb)
  then show ?thesis using keyboard_proc_keeps [OF assms(2), of env handled kb] by auto
next
  case (OpSetActive active)
  then show ?thesis using set_active_keeps [OF assms(2), of env active] by (metis broadcast_step.simps(4) option.simps(9) snd_conv)
next
  case (OpRemoteHold owner operation sequence)
  then show ?thesis using update_remote_keeps [OF assms(2), of env owner operation sequence] by auto
next
  case (OpBeginTargeted pid)
  then show ?thesis using begin_targeted_keeps [OF assms(2), of pid] by auto
next
  case (OpTargetedKey pid scan pressed)
  then show ?thesis using set_targeted_keeps [OF assms(2) scan_byte, of pid scan pressed] by auto
next
  case (OpFinishTargeted pid)
  then show ?thesis using finish_targeted_keeps [OF assms(2), of pid] by auto
qed (use assms in \<open>simp_all add: mouse_proc_keeps tick_keeps update_targets_keeps eligible_keeps set_active_pid_keeps
      settings_keep end_session_keeps\<close>)

lemma run_keeps:
  "list_all (\<lambda>(env, _). env_ok env) steps \<Longrightarrow> engine_ok s \<Longrightarrow>
   \<exists>s'. broadcast_run upper vts steps s = Some s' \<and> engine_ok s'"
proof (induction steps arbitrary: s)
  case (Cons step steps)
  obtain env op where step: "step = (env, op)" by fastforce
  obtain mid where "broadcast_step upper vts env op s = Some mid" "engine_ok mid"
    using step_keeps [of env s upper vts op] Cons.prems by (auto simp: step)
  then show ?case using Cons.IH [of mid] Cons.prems(1) by (simp add: step)
qed simp

lemma init_ok: "engine_ok (broadcast_init env upper vts cfg)"
proof -
  have start: "engine_ok s" if "be_targets s = []" for s
    using that by (simp add: engine_ok_def all_targets_def)
  have targets: "be_targets (broadcast_init env upper vts cfg) = []"
    by (auto simp: broadcast_init_def Let_def dest: reconcile_hooks_frame_eq(1) split: prod.split sum.split)
  show ?thesis by (rule start [OF targets])
qed

lemma engine_ok_get: "engine_ok s \<Longrightarrow> bm_get (be_targets s) pid = Some shm \<Longrightarrow>
    region_ok (be_broadcasting s) (be_active_pid s) pid shm"
  by (simp add: engine_ok_def all_targets_get)

section \<open>Properties\<close>

text \<open>
  C2. Whatever the program calls and whatever the system answers, every call of the broadcast
  engine returns, and the region of every target reflects the engine: a key is down exactly when
  the broadcast or a targeted sequence holds it, the keyboard sources, the mouse flag and the
  suppression follow the engine's state, and without broadcast no broadcast key is held, without
  a targeted sequence no targeted key.
\<close>

theorem region_reflects_engine:
  assumes "list_all (\<lambda>(env, _). env_ok env) steps"
  shows "\<exists>s. broadcast_run upper vts steps (broadcast_init env0 upper vts cfg) = Some s
    \<and> (\<forall>pid shm. bm_get (be_targets s) pid = Some shm \<longrightarrow>
        (\<forall>scan < 256. key_down (shm_ptr shm) scan = (shm_broadcast_keys shm ! scan \<or> shm_targeted_keys shm ! scan))
      \<and> (controller_keyboard_active (shm_ptr shm) AND KEYBOARD_BROADCAST \<noteq> 0 \<longleftrightarrow> be_broadcasting s)
      \<and> (controller_keyboard_active (shm_ptr shm) AND KEYBOARD_TARGETED \<noteq> 0 \<longleftrightarrow> shm_targeted_active shm)
      \<and> (controller_mouse_active (shm_ptr shm) \<noteq> 0 \<longleftrightarrow> shm_mouse_selected shm)
      \<and> (suppress (shm_ptr shm) \<noteq> 0 \<longleftrightarrow> Some pid \<noteq> be_active_pid s)
      \<and> (\<not> be_broadcasting s \<longrightarrow> (\<forall>scan < 256. \<not> shm_broadcast_keys shm ! scan))
      \<and> (\<not> shm_targeted_active shm \<longrightarrow> (\<forall>scan < 256. \<not> shm_targeted_keys shm ! scan)))"
proof -
  obtain s where run: "broadcast_run upper vts steps (broadcast_init env0 upper vts cfg) = Some s" "engine_ok s"
    using run_keeps [OF assms init_ok] by blast
  show ?thesis
    by (intro exI [of _ s] conjI allI impI run)
      (use engine_ok_get [OF run(2)] in \<open>auto simp: region_ok_def shm_ok_def keys_merged_def\<close>)
qed

text \<open>A system with two EverQuest processes, the first in the foreground.\<close>

definition demo_env :: "nat \<Rightarrow> nat \<Rightarrow> Win32Env" where
  "demo_env now foreground = \<lparr>env_now_ms = now, env_foreground_pid = Some foreground, env_mouse_buttons = 0,
     env_key_is_down = (\<lambda>_. False), env_install_keyboard_hook = None, env_install_mouse_hook = None,
     env_remove_keyboard_hook = None, env_remove_mouse_hook = None, env_process_alive = (\<lambda>_. True),
     env_open_process = (\<lambda>_. True), env_mapping = (\<lambda>_. MappingCreated)\<rparr>"

definition demo_config :: BroadcastConfig where
  "demo_config = \<lparr>cfg_filter_mode = ''blacklist'', cfg_filter_keys = [], cfg_mouse_clutch_key = [],
     cfg_hide_hotkey = [], cfg_broadcast_hotkey = [], cfg_swap_hotkeys = [], cfg_box_cycles = []\<rparr>"

abbreviation demo_key :: "KeyMessage \<Rightarrow> KeyboardEvent" where
  "demo_key message \<equiv> \<lparr>kb_message = message, kb_vk_code = 87, kb_scan_code = 17, kb_extended = False\<rparr>"

definition demo_steps :: "(Win32Env \<times> BroadcastOp) list" where
  "demo_steps = [(demo_env 0 1, OpUpdateTargets [1, 2] (Some 1)), (demo_env 1 1, OpSetActive True),
     (demo_env 2 1, OpKeyboard True (demo_key KeyDownMessage))]"

definition demo_engine :: BroadcastEngine where
  "demo_engine = the (broadcast_run (\<lambda>s. s) (\<lambda>_. 0) demo_steps (broadcast_init (demo_env 0 1) (\<lambda>s. s) (\<lambda>_. 0) demo_config))"

lemma demo_engine_target: "map_option (\<lambda>shm. shm_broadcast_keys shm ! 17) (bm_get (be_targets demo_engine) 2) = Some True"
  by code_simp

theorem region_reflects_engine_witness:
  "\<exists>s shm. broadcast_run (\<lambda>s. s) (\<lambda>_. 0) demo_steps (broadcast_init (demo_env 0 1) (\<lambda>s. s) (\<lambda>_. 0) demo_config) = Some s
    \<and> bm_get (be_targets s) 2 = Some shm \<and> key_down (shm_ptr shm) 17
    \<and> (suppress (shm_ptr shm) \<noteq> 0) = (Some 2 \<noteq> be_active_pid s)"
proof -
  have env: "list_all (\<lambda>(env, _). env_ok env) demo_steps"
    by (simp add: demo_steps_def env_ok_def demo_env_def)
  obtain shm where shm: "bm_get (be_targets demo_engine) 2 = Some shm" "shm_broadcast_keys shm ! 17"
    using demo_engine_target by auto
  show ?thesis
    using region_reflects_engine [OF env, of "\<lambda>s. s" "\<lambda>_. 0" "demo_env 0 1" demo_config] shm
    by (auto simp: demo_engine_def)
qed

text \<open>Lookups after an update of all targets.\<close>

lemma try_map_targets_get:
  "try_map_targets f ts = Some ts' \<Longrightarrow> bm_get ts' pid = Option.bind (bm_get ts pid) (f pid)"
  by (induction ts arbitrary: ts') (auto simp: bm_get_def bind_eq_Some_conv)

lemma map_targets_get: "bm_get (be_targets (map_targets f s)) pid = map_option (f pid) (bm_get (be_targets s) pid)"
proof -
  have "map_of (map (\<lambda>(pid, shm). (pid, f pid shm)) ts) pid = map_option (f pid) (map_of ts pid)" for ts
    by (induction ts) auto
  then show ?thesis by (simp add: map_targets_def bm_get_def)
qed

definition targeted_op :: "nat \<Rightarrow> BroadcastOp \<Rightarrow> bool" where
  "targeted_op pid op = (case op of OpBeginTargeted p \<Rightarrow> p = pid | OpTargetedKey p _ _ \<Rightarrow> p = pid
     | OpFinishTargeted p \<Rightarrow> p = pid | _ \<Rightarrow> False)"

text \<open>
  C23. Targeted input is isolated: beginning, driving and finishing a sequence for one process
  leaves every other target and the engine's broadcast keys as they are, and once the sequence
  is finished the process sees exactly its broadcast keys.
\<close>

theorem targeted_input_is_isolated:
  assumes env: "list_all (\<lambda>(env, _). env_ok env) steps"
    and run: "broadcast_run upper vts steps (broadcast_init env0 upper vts cfg) = Some s"
    and target: "bm_get (be_targets s) pid = Some shm" and op: "targeted_op pid op"
  shows "\<exists>s' shm'. broadcast_step upper vts env op s = Some s' \<and> bm_get (be_targets s') pid = Some shm'
    \<and> shm_broadcast_keys shm' = shm_broadcast_keys shm
    \<and> (\<forall>other. other \<noteq> pid \<longrightarrow> bm_get (be_targets s') other = bm_get (be_targets s) other)
    \<and> (op = OpFinishTargeted pid \<longrightarrow> (\<forall>scan < 256. key_down (shm_ptr shm') scan = shm_broadcast_keys shm ! scan))"
proof -
  have ok: "engine_ok s" using run_keeps [OF env init_ok [of env0 upper vts cfg], of upper vts] run by auto
  note region = engine_ok_get [OF ok target]
  consider "op = OpBeginTargeted pid" | scan pressed where "op = OpTargetedKey pid scan pressed" | "op = OpFinishTargeted pid"
    using op by (auto simp: targeted_op_def split: BroadcastOp.splits)
  then show ?thesis
  proof cases
    case 1
    then show ?thesis using target by (auto simp: begin_targeted_input_def set_keyboard_source_def)
  next
    case (2 scan pressed)
    show ?thesis
    proof (cases "shm_targeted_active shm \<and> unat scan \<noteq> 255 \<and> unat scan \<noteq> 0")
      case True
      then have "unat scan < 255" using scan_byte [of scan] by simp
      then obtain shm' where w: "write_combined_key (unat scan)
          (shm\<lparr>shm_targeted_keys := (shm_targeted_keys shm)[unat scan := pressed]\<rparr>) = Some shm'"
        "shm' = shm\<lparr>shm_targeted_keys := (shm_targeted_keys shm)[unat scan := pressed], shm_ptr := shm_ptr shm'\<rparr>"
        using set_targeted_key_effect [of shm "unat scan" pressed] region True by (metis region_ok_def)
      have "shm_broadcast_keys shm' = shm_broadcast_keys shm" by (subst w(2)) simp
      then show ?thesis using 2 True target w(1) by (simp add: set_targeted_key_def)
    qed (use 2 target in \<open>auto simp: set_targeted_key_def\<close>)
  next
    case 3
    obtain shm' where c: "clear_targeted_keys [0..<255] shm = Some shm'" "shm_broadcast_keys shm' = shm_broadcast_keys shm"
      "\<forall>scan < 256. \<not> shm_targeted_keys shm' ! scan" "region_ok (be_broadcasting s) (be_active_pid s) pid
        (set_keyboard_source KEYBOARD_TARGETED False (shm'\<lparr>shm_targeted_active := False\<rparr>))"
      using region_finish_targeted [OF region] by blast
    then show ?thesis using 3 target
      by (simp add: finish_targeted_input_def region_ok_def shm_ok_def keys_merged_def set_keyboard_source_def)
  qed
qed

theorem targeted_input_is_isolated_witness:
  "\<exists>s' shm'. broadcast_step (\<lambda>s. s) (\<lambda>_. 0) (demo_env 3 1) (OpFinishTargeted 2) demo_engine = Some s'
     \<and> bm_get (be_targets s') 2 = Some shm' \<and> key_down (shm_ptr shm') 17"
proof -
  have env: "list_all (\<lambda>(env, _). env_ok env) demo_steps"
    by (simp add: demo_steps_def env_ok_def demo_env_def)
  obtain shm where shm: "bm_get (be_targets demo_engine) 2 = Some shm" "shm_broadcast_keys shm ! 17"
    using demo_engine_target by auto
  have run: "broadcast_run (\<lambda>s. s) (\<lambda>_. 0) demo_steps (broadcast_init (demo_env 0 1) (\<lambda>s. s) (\<lambda>_. 0) demo_config) = Some demo_engine"
    using run_keeps [OF env init_ok [of "demo_env 0 1" "\<lambda>s. s" "\<lambda>_. 0" demo_config], of "\<lambda>s. s" "\<lambda>_. 0"] by (auto simp: demo_engine_def)
  show ?thesis
    using targeted_input_is_isolated [OF env run shm(1), of "OpFinishTargeted 2" "demo_env 3 1"] shm(2)
    by (auto simp: targeted_op_def)
qed

section \<open>Keys that stay down\<close>

text \<open>A key that has nothing to do with the clutch.\<close>

definition plain_key :: "BroadcastEngine \<Rightarrow> KeyboardEvent \<Rightarrow> bool" where
  "plain_key s kb \<longleftrightarrow> clutch_swallowed_vk (be_clutch s) \<noteq> Some (kb_vk_code kb) \<and> be_clutch_binding_vk s \<noteq> Some (kb_vk_code kb)"

lemma keyboard_proc_plain:
  assumes "plain_key s kb"
  shows "ll_keyboard_proc env True kb s = map_option (Pair HookPassed)
    (if is_some_and (env_foreground_pid env) (\<lambda>pid. pid \<in> set (be_eq_pids s))
     then broadcast_key env kb (s\<lparr>be_eq_was_foreground := True\<rparr>)
     else if be_eq_was_foreground s then release_background_keys (s\<lparr>be_eq_was_foreground := False\<rparr>) else Some s)"
  using assms by (simp add: ll_keyboard_proc_def ordinary_key_def plain_key_def Let_def)

text \<open>The fields that neither a key nor a change of the foreground process touches.\<close>

definition same_routing :: "BroadcastEngine \<Rightarrow> BroadcastEngine \<Rightarrow> bool" where
  "same_routing s s' \<longleftrightarrow> be_eq_pids s' = be_eq_pids s \<and> be_broadcasting s' = be_broadcasting s
     \<and> be_filter_mode s' = be_filter_mode s \<and> be_filter_scancodes s' = be_filter_scancodes s
     \<and> be_clutch_binding_vk s' = be_clutch_binding_vk s
     \<and> clutch_swallowed_vk (be_clutch s') = clutch_swallowed_vk (be_clutch s)"

lemma same_routing_plain: "same_routing s s' \<Longrightarrow> plain_key s' kb = plain_key s kb"
  "same_routing s s' \<Longrightarrow> passes_filter s' scan = passes_filter s scan"
  by (simp_all add: same_routing_def plain_key_def passes_filter_def)

lemma plain_step_frame:
  assumes "plain_key s kb" "broadcast_step upper vts env (OpKeyboard True kb) s = Some s'"
  shows "same_routing s s'" "be_active_pid s' = be_active_pid s"
  using assms by (auto simp: keyboard_proc_plain broadcast_key_def release_background_keys_def same_routing_def
      split: if_splits option.splits)

lemma set_active_pid_frame: "same_routing s (set_active_pid env pid s)" "be_active_pid (set_active_pid env pid s) = Some pid"
  by (simp_all add: set_active_pid_def store_suppress_def map_targets_def cancel_all_clutch_owners_def cancel_bounded_def
      begin_drain_def same_routing_def Let_def)

text \<open>The three ways a key press or release passes a target.\<close>

lemma press_reaches_background:
  assumes plain: "plain_key s kb" and step: "broadcast_step upper vts env (OpKeyboard True kb) s = Some s'"
    and fg: "env_foreground_pid env = Some a" "a \<in> set (be_eq_pids s)" "a \<noteq> b"
    and key: "be_broadcasting s" "direct_input_scan_code (kb_scan_code kb) (kb_extended kb) = Some scan" "passes_filter s scan"
    and ok: "engine_ok s" and target: "bm_get (be_targets s) b = Some shm"
  obtains shm' where "bm_get (be_targets s') b = Some shm'" "shm_broadcast_keys shm' ! scan = (kb_message kb = KeyDownMessage)"
proof -
  have bound: "scan < 255" using key(2) by (auto simp: direct_input_scan_code_def Let_def split: if_splits)
  let ?s = "shm\<lparr>shm_broadcast_keys := (shm_broadcast_keys shm)[scan := (kb_message kb = KeyDownMessage)]\<rparr>"
  have region: "shm_ok shm" using engine_ok_get [OF ok target] by (simp add: region_ok_def)
  have "scan < 256" using bound by simp
  then obtain shm' where w: "write_combined_key scan ?s = Some shm'" "shm' = ?s\<lparr>shm_ptr := shm_ptr shm'\<rparr>"
    by (rule set_broadcast_key_effect [OF region, of scan "kb_message kb = KeyDownMessage"]) blast
  have "passes_filter (s\<lparr>be_eq_was_foreground := True\<rparr>) scan" using key(3) by (simp add: passes_filter_def)
  then have "bm_get (be_targets s') b = Some shm'"
    using step plain fg key target w(1)
    by (auto simp: keyboard_proc_plain broadcast_key_def is_some_and_def dest!: try_map_targets_get [where pid = b])
  moreover have "shm_broadcast_keys shm' ! scan = (kb_message kb = KeyDownMessage)"
    using region bound by (subst w(2)) (simp add: shm_ok_def shm_wf_def)
  ultimately show ?thesis by (rule that)
qed

lemma foreground_is_skipped:
  assumes plain: "plain_key s kb" and step: "broadcast_step upper vts env (OpKeyboard True kb) s = Some s'"
    and fg: "env_foreground_pid env = Some b" "b \<in> set (be_eq_pids s)"
  shows "bm_get (be_targets s') b = bm_get (be_targets s) b"
  using step plain fg
  by (cases "bm_get (be_targets s) b")
    (auto simp: keyboard_proc_plain broadcast_key_def is_some_and_def dest!: try_map_targets_get [where pid = b]
      split: if_splits option.splits)

lemma active_is_skipped:
  assumes plain: "plain_key s kb" and step: "broadcast_step upper vts env (OpKeyboard True kb) s = Some s'"
    and fg: "\<not> is_some_and (env_foreground_pid env) (\<lambda>pid. pid \<in> set (be_eq_pids s))" and active: "be_active_pid s = Some b"
  shows "bm_get (be_targets s') b = bm_get (be_targets s) b"
  using step plain fg active
  by (cases "bm_get (be_targets s) b")
    (auto simp: keyboard_proc_plain release_background_keys_def dest!: try_map_targets_get [where pid = b]
      split: if_splits)

text \<open>
  A broadcast key can stay down: a key pressed while one client is in the foreground and
  released after another client has become the foreground one is still down in the region of
  that client, and it stays down when EverQuest loses the focus, because the release and the
  clearing on focus loss both leave the foreground client out.
\<close>

theorem switched_key_stays_down:
  assumes env: "list_all (\<lambda>(env, _). env_ok env) (steps @ [(env1, OpKeyboard True down), (env2, OpSetActivePid b),
      (env3, OpKeyboard True up), (env4, OpKeyboard True other)])"
    and run: "broadcast_run upper vts steps (broadcast_init env0 upper vts cfg) = Some s"
    and plain: "plain_key s down" "plain_key s up" "plain_key s other"
    and key: "be_broadcasting s" "passes_filter s scan" "kb_message down = KeyDownMessage"
      "direct_input_scan_code (kb_scan_code down) (kb_extended down) = Some scan"
    and clients: "a \<in> set (be_eq_pids s)" "b \<in> set (be_eq_pids s)" "a \<noteq> b" "bm_get (be_targets s) b = Some shm"
    and focus: "env_foreground_pid env1 = Some a" "env_foreground_pid env3 = Some b"
      "env_foreground_pid env4 = Some c" "c \<notin> set (be_eq_pids s)"
  shows "\<exists>s' shm'. broadcast_run upper vts [(env1, OpKeyboard True down), (env2, OpSetActivePid b),
      (env3, OpKeyboard True up), (env4, OpKeyboard True other)] s = Some s'
    \<and> bm_get (be_targets s') b = Some shm' \<and> key_down (shm_ptr shm') scan"
proof -
  have envs: "env_ok env1" "env_ok env2" "env_ok env3" "env_ok env4" and pre: "list_all (\<lambda>(env, _). env_ok env) steps"
    using env by simp_all
  have ok: "engine_ok s" using run_keeps [OF pre init_ok [of env0 upper vts cfg], of upper vts] run by auto
  obtain s1 where s1: "broadcast_step upper vts env1 (OpKeyboard True down) s = Some s1" "engine_ok s1"
    using step_keeps [OF envs(1) ok] by blast
  note r1 = plain_step_frame(1) [OF plain(1) s1(1)]
  obtain shm1 where shm1: "bm_get (be_targets s1) b = Some shm1" "shm_broadcast_keys shm1 ! scan"
    using press_reaches_background [OF plain(1) s1(1) focus(1) clients(1,3) key(1,4,2) ok clients(4)] key(3) by auto
  define s2 where "s2 = set_active_pid env2 b s1"
  have ok2: "engine_ok s2" using set_active_pid_keeps [OF s1(2)] by (simp add: s2_def)
  have r2: "same_routing s s2" using r1 set_active_pid_frame(1) [of s1 env2 b] by (simp add: same_routing_def s2_def)
  have keys2: "map_option shm_broadcast_keys (bm_get (be_targets s2) b) = Some (shm_broadcast_keys shm1)"
    using shm1(1) by (simp add: s2_def set_active_pid_def store_suppress_def map_targets_get cancel_all_clutch_owners_def Let_def option.map_comp comp_def)
  obtain s3 where s3: "broadcast_step upper vts env3 (OpKeyboard True up) s2 = Some s3" "engine_ok s3"
    using step_keeps [OF envs(3) ok2] by blast
  have p2: "plain_key s2 up" using plain(2) same_routing_plain(1) [OF r2] by simp
  have r3: "same_routing s s3" using plain_step_frame(1) [OF p2 s3(1)] r2 by (simp add: same_routing_def)
  have keys3: "bm_get (be_targets s3) b = bm_get (be_targets s2) b"
    by (rule foreground_is_skipped [OF p2 s3(1) focus(2)]) (use r2 clients(2) in \<open>simp add: same_routing_def\<close>)
  obtain s4 where s4: "broadcast_step upper vts env4 (OpKeyboard True other) s3 = Some s4" "engine_ok s4"
    using step_keeps [OF envs(4) s3(2)] by blast
  have p3: "plain_key s3 other" using plain(3) same_routing_plain(1) [OF r3] by simp
  have keys4: "bm_get (be_targets s4) b = bm_get (be_targets s3) b"
    by (rule active_is_skipped [OF p3 s4(1)])
      (use r3 focus(3,4) plain_step_frame(2) [OF p2 s3(1)] set_active_pid_frame(2) [of env2 b s1]
       in \<open>simp_all add: same_routing_def is_some_and_def s2_def\<close>)
  obtain shm4 where shm4: "bm_get (be_targets s4) b = Some shm4" "shm_broadcast_keys shm4 ! scan"
    using keys2 keys3 keys4 shm1(2) by auto
  have "scan < 256" using key(4) by (auto simp: direct_input_scan_code_def Let_def split: if_splits)
  then have "key_down (shm_ptr shm4) scan"
    using engine_ok_get [OF s4(2) shm4(1)] shm4(2) by (simp add: region_ok_def shm_ok_def keys_merged_def)
  then show ?thesis using s1(1) s3(1) s4(1) shm4(1) by (auto simp: s2_def)
qed

definition demo_ready :: BroadcastEngine where
  "demo_ready = the (broadcast_run (\<lambda>s. s) (\<lambda>_. 0) (take 2 demo_steps)
     (broadcast_init (demo_env 0 1) (\<lambda>s. s) (\<lambda>_. 0) demo_config))"

lemma demo_ready_facts:
  "plain_key demo_ready (demo_key message)" "be_broadcasting demo_ready" "passes_filter demo_ready 17"
  "set (be_eq_pids demo_ready) = {1, 2}" "bm_get (be_targets demo_ready) 2 \<noteq> None"
proof -
  have "plain_key demo_ready (demo_key KeyDownMessage)" by code_simp
  then show "plain_key demo_ready (demo_key message)" by (simp add: plain_key_def)
qed code_simp+

theorem switched_key_stays_down_witness:
  "\<exists>s' shm'. broadcast_run (\<lambda>s. s) (\<lambda>_. 0) [(demo_env 2 1, OpKeyboard True (demo_key KeyDownMessage)),
      (demo_env 3 2, OpSetActivePid 2), (demo_env 4 2, OpKeyboard True (demo_key KeyUpMessage)),
      (demo_env 5 3, OpKeyboard True (demo_key KeyUpMessage))] demo_ready = Some s'
    \<and> bm_get (be_targets s') 2 = Some shm' \<and> key_down (shm_ptr shm') 17"
proof -
  let ?steps = "take 2 demo_steps"
  have env: "list_all (\<lambda>(env, _). env_ok env) (?steps @ [(demo_env 2 1, OpKeyboard True (demo_key KeyDownMessage)),
      (demo_env 3 2, OpSetActivePid 2), (demo_env 4 2, OpKeyboard True (demo_key KeyUpMessage)),
      (demo_env 5 3, OpKeyboard True (demo_key KeyUpMessage))])"
    by (simp add: demo_steps_def env_ok_def demo_env_def)
  then have pre: "list_all (\<lambda>(env, _). env_ok env) ?steps" by simp
  have run: "broadcast_run (\<lambda>s. s) (\<lambda>_. 0) ?steps (broadcast_init (demo_env 0 1) (\<lambda>s. s) (\<lambda>_. 0) demo_config) = Some demo_ready"
    using run_keeps [OF pre init_ok [of "demo_env 0 1" "\<lambda>s. s" "\<lambda>_. 0" demo_config], of "\<lambda>s. s" "\<lambda>_. 0"]
    by (auto simp: demo_ready_def)
  obtain shm where "bm_get (be_targets demo_ready) 2 = Some shm" using demo_ready_facts(5) by blast
  then show ?thesis
    by (intro switched_key_stays_down [OF env run _ _ _ _ _ _ _ _ _ _ \<open>bm_get (be_targets demo_ready) 2 = Some shm\<close>,
          where a = 1 and c = 3])
      (simp_all add: demo_ready_facts demo_env_def direct_input_scan_code_def)
qed

end
