(* ===== verification/Broadcast_Clutch.thy ===== *)
theory Broadcast_Clutch
  imports Broadcast_Keys
begin

text \<open>
  The mouse clutch as the engine drives it. The clutch is active exactly while the local key or
  a remote hold owns it, every hold belongs to the process the clutch was taken for, and no
  target receives the mouse once the clutch is inactive. A remote controller that disappears
  loses the mouse when its lease has run out.
\<close>

section \<open>The invariant\<close>

definition clutch_inv :: "MouseClutch \<Rightarrow> (MouseClutchOwner \<times> RemoteMouseHold) list \<Rightarrow> bool" where
  "clutch_inv c holds \<longleftrightarrow> (clutch_phase c = PhaseActive \<longleftrightarrow> clutch_local_owner_active c \<or> holds \<noteq> [])
     \<and> (clutch_phase c = PhaseInactive \<longleftrightarrow> clutch_source_pid c = None)
     \<and> (clutch_local_owner_active c \<longrightarrow> clutch_swallowed_vk c \<noteq> None)
     \<and> (\<forall>(owner, hold) \<in> set holds. clutch_source_pid c = Some (hold_source_pid hold))
     \<and> distinct (map fst holds)"

definition none_selected :: "targets \<Rightarrow> bool" where
  "none_selected ts \<longleftrightarrow> list_all (\<lambda>(_, shm). \<not> shm_mouse_selected shm) ts"

text \<open>\<open>t\<close> is the latest time the clock has shown.\<close>

definition leases_within :: "nat \<Rightarrow> (MouseClutchOwner \<times> RemoteMouseHold) list \<Rightarrow> bool" where
  "leases_within t holds \<longleftrightarrow> list_all (\<lambda>(_, hold). hold_deadline_ms hold \<le> t + REMOTE_MOUSE_CLUTCH_LEASE_MS) holds"

definition clutch_ok :: "nat \<Rightarrow> BroadcastEngine \<Rightarrow> bool" where
  "clutch_ok t s \<longleftrightarrow> clutch_inv (be_clutch s) (be_remote_mouse_holds s)
     \<and> (clutch_phase (be_clutch s) = PhaseInactive \<longrightarrow> none_selected (be_targets s))
     \<and> leases_within t (be_remote_mouse_holds s)"

lemma clutch_inv_buttons [simp]: "clutch_inv (c\<lparr>clutch_buttons := b\<rparr>) holds = clutch_inv c holds"
  by (simp add: clutch_inv_def)

lemma clutch_inv_release:
  assumes "clutch_inv c holds" "set kept \<subseteq> set holds" "distinct (map fst kept)"
  shows "clutch_inv (release_if_unowned now (kept \<noteq> []) c) kept"
    "clutch_phase (release_if_unowned now (kept \<noteq> []) c) = PhaseInactive \<longleftrightarrow> clutch_phase c = PhaseInactive"
proof -
  have "clutch_inv c kept" if "clutch_local_owner_active c \<or> kept \<noteq> []"
    using assms that by (cases holds) (auto simp: clutch_inv_def)
  moreover have "kept = []" if "clutch_phase c \<noteq> PhaseActive" using assms that by (auto simp: clutch_inv_def)
  ultimately show "clutch_inv (release_if_unowned now (kept \<noteq> []) c) kept"
    using assms by (auto simp: release_if_unowned_def begin_drain_def clutch_inv_def)
  show "clutch_phase (release_if_unowned now (kept \<noteq> []) c) = PhaseInactive \<longleftrightarrow> clutch_phase c = PhaseInactive"
    by (simp add: release_if_unowned_def begin_drain_def)
qed

lemma clutch_inv_cancel:
  "clutch_inv c holds \<Longrightarrow> clutch_inv (cancel_bounded now c) []"
  "clutch_phase (cancel_bounded now c) = PhaseInactive \<longleftrightarrow> clutch_phase c = PhaseInactive"
  by (auto simp: clutch_inv_def cancel_bounded_def begin_drain_def Let_def)

lemma clutch_inv_force: "clutch_inv (force_inactive c) []" "clutch_phase (force_inactive c) = PhaseInactive"
  by (simp_all add: clutch_inv_def force_inactive_def)

lemma clutch_inv_set_button:
  "clutch_inv c holds \<Longrightarrow> clutch_inv (set_button button pressed now c) holds"
  "clutch_phase (set_button button pressed now c) = PhaseInactive \<longleftrightarrow> clutch_phase c = PhaseInactive"
  by (auto simp: clutch_inv_def set_button_def begin_drain_def Let_def)

lemma clutch_inv_key_up:
  assumes "clutch_inv c holds"
  shows "clutch_inv (snd (on_key_up vk now (holds \<noteq> []) c)) holds"
    "clutch_phase (snd (on_key_up vk now (holds \<noteq> []) c)) = PhaseInactive \<longleftrightarrow> clutch_phase c = PhaseInactive"
  using assms by (auto simp: on_key_up_def clutch_inv_def release_if_unowned_def begin_drain_def)

lemma clutch_inv_key_down:
  assumes inv: "clutch_inv c holds" and key: "on_key_down vk source has_targets c = (effect, c')"
  shows "clutch_inv c' holds" "effect = EffectActivate \<longleftrightarrow> clutch_phase c' = PhaseActive \<and> clutch_source_pid c' = Some source
       \<and> clutch_swallowed_vk c \<noteq> Some vk"
    "effect \<noteq> EffectActivate \<Longrightarrow> clutch_phase c' = clutch_phase c"
  using assms by (auto simp: on_key_down_def clutch_activate_def clutch_inv_def Let_def split: if_splits prod.splits)

section \<open>The engine's parts\<close>

lemma none_selected_map: "(\<And>pid shm. shm_mouse_selected (f pid shm) \<Longrightarrow> shm_mouse_selected shm) \<Longrightarrow>
    none_selected (be_targets s) \<Longrightarrow> none_selected (be_targets (map_targets f s))"
  by (auto simp: none_selected_def map_targets_def list_all_iff)

lemma none_selected_try:
  "try_map_targets f ts = Some ts' \<Longrightarrow> (\<And>pid shm shm'. f pid shm = Some shm' \<Longrightarrow> shm_mouse_selected shm' = shm_mouse_selected shm) \<Longrightarrow>
   none_selected ts' = none_selected ts"
  by (induction ts arbitrary: ts') (auto simp: none_selected_def bind_eq_Some_conv)

lemma none_selected_deactivate [simp]: "none_selected (be_targets (deactivate_mouse_targets s))"
  by (auto simp: none_selected_def deactivate_mouse_targets_def map_targets_def list_all_iff store_mouse_active_def
      split: if_splits)

lemma deactivate_frame [simp]: "be_clutch (deactivate_mouse_targets s) = be_clutch s"
  "be_remote_mouse_holds (deactivate_mouse_targets s) = be_remote_mouse_holds s"
  by (simp_all add: deactivate_mouse_targets_def map_targets_def)

lemma activate_frame [simp]: "be_clutch (snd (activate_mouse_targets source s)) = be_clutch s"
  "be_remote_mouse_holds (snd (activate_mouse_targets source s)) = be_remote_mouse_holds s"
  by (simp_all add: activate_mouse_targets_def map_targets_def Let_def)

lemma write_combined_selected: "write_combined_key scan shm = Some shm' \<Longrightarrow> shm_mouse_selected shm' = shm_mouse_selected shm"
  by (auto simp: write_combined_key_def)

lemma clear_broadcast_selected: "clear_broadcast_keys scans shm = Some shm' \<Longrightarrow> shm_mouse_selected shm' = shm_mouse_selected shm"
  by (induction scans arbitrary: shm) (auto simp: bind_eq_Some_conv dest: write_combined_selected)

lemma clear_targeted_selected: "clear_targeted_keys scans shm = Some shm' \<Longrightarrow> shm_mouse_selected shm' = shm_mouse_selected shm"
  by (induction scans arbitrary: shm) (auto simp: bind_eq_Some_conv dest: write_combined_selected split: if_splits)

text \<open>Reconciling the hooks reads the mouse buttons at most.\<close>

lemma remove_hooks_clutch [simp]:
  "be_clutch (snd (remove_hooks env s)) = be_clutch s"
  "be_remote_mouse_holds (snd (remove_hooks env s)) = be_remote_mouse_holds s"
  by (cases "env_remove_mouse_hook env"; cases "env_remove_keyboard_hook env"; simp add: remove_hooks_def)+

lemma reconcile_clutch:
  "\<exists>b. be_clutch (snd (reconcile_hooks env s)) = (be_clutch s)\<lparr>clutch_buttons := b\<rparr>"
  "be_remote_mouse_holds (snd (reconcile_hooks env s)) = be_remote_mouse_holds s"
proof -
  have keep: "\<exists>b. be_clutch s = (be_clutch s)\<lparr>clutch_buttons := b\<rparr>"
    by (rule exI [of _ "clutch_buttons (be_clutch s)"]) simp
  show "\<exists>b. be_clutch (snd (reconcile_hooks env s)) = (be_clutch s)\<lparr>clutch_buttons := b\<rparr>"
    using keep by (cases "env_install_mouse_hook env"; cases "env_install_keyboard_hook env")
      (auto simp: reconcile_hooks_def Let_def)
  show "be_remote_mouse_holds (snd (reconcile_hooks env s)) = be_remote_mouse_holds s"
    by (cases "env_install_mouse_hook env"; cases "env_install_keyboard_hook env"; simp add: reconcile_hooks_def Let_def)
qed

lemma reconcile_clutch_eq:
  assumes "reconcile_hooks env s = (r, s')"
  obtains b where "be_clutch s' = (be_clutch s)\<lparr>clutch_buttons := b\<rparr>" "be_remote_mouse_holds s' = be_remote_mouse_holds s"
    "be_targets s' = be_targets s"
  using reconcile_clutch [of env s] reconcile_hooks_frame [of env s] assms that by auto

lemma clutch_ok_reconcile [simp]: "clutch_ok t (snd (reconcile_hooks env s)) = clutch_ok t s"
proof -
  obtain b where "be_clutch (snd (reconcile_hooks env s)) = (be_clutch s)\<lparr>clutch_buttons := b\<rparr>"
    using reconcile_clutch(1) by blast
  then show ?thesis by (simp add: clutch_ok_def reconcile_clutch(2))
qed

lemma clutch_ok_reconcile_eq: "reconcile_hooks env s = (r, s') \<Longrightarrow> clutch_ok t s' = clutch_ok t s"
  using clutch_ok_reconcile [of t env s] by simp

section \<open>Every operation keeps the invariant\<close>

lemma clutch_ok_fields [simp]:
  "clutch_ok t (s\<lparr>be_clutch_binding_vk := v\<rparr>) = clutch_ok t s"
  "clutch_ok t (s\<lparr>be_pending_clutch_binding := w\<rparr>) = clutch_ok t s"
  "clutch_ok t (s\<lparr>be_clutch_key_is_down := d\<rparr>) = clutch_ok t s"
  "clutch_ok t (s\<lparr>be_remote_mouse_sequences := q\<rparr>) = clutch_ok t s"
  "clutch_ok t (s\<lparr>be_closed_remote_sessions := cs\<rparr>) = clutch_ok t s"
  "clutch_ok t (s\<lparr>be_closed_remote_session_order := co\<rparr>) = clutch_ok t s"
  "clutch_ok t (s\<lparr>be_clutch_status_dirty := sd\<rparr>) = clutch_ok t s"
  "clutch_ok t (s\<lparr>be_clutch_error := e\<rparr>) = clutch_ok t s"
  "clutch_ok t (s\<lparr>be_mouse_eligible_pids := m\<rparr>) = clutch_ok t s"
  "clutch_ok t (s\<lparr>be_eq_was_foreground := f\<rparr>) = clutch_ok t s"
  "clutch_ok t (s\<lparr>be_filter_mode := fm\<rparr>) = clutch_ok t s"
  "clutch_ok t (s\<lparr>be_filter_scancodes := fs\<rparr>) = clutch_ok t s"
  "clutch_ok t (s\<lparr>be_broadcasting := br\<rparr>) = clutch_ok t s"
  "clutch_ok t (s\<lparr>be_active_pid := ap\<rparr>) = clutch_ok t s"
  "clutch_ok t (s\<lparr>be_eq_pids := ep\<rparr>) = clutch_ok t s"
  by (simp_all add: clutch_ok_def)

lemma leases_within_mono: "leases_within t holds \<Longrightarrow> t \<le> t' \<Longrightarrow> leases_within t' holds"
  by (auto simp: leases_within_def list_all_iff)

lemma clutch_ok_mono: "clutch_ok t s \<Longrightarrow> t \<le> t' \<Longrightarrow> clutch_ok t' s"
  by (auto simp: clutch_ok_def leases_within_mono)

lemma clutch_ok_holds: "clutch_ok t s \<Longrightarrow> clutch_phase (be_clutch s) \<noteq> PhaseActive \<Longrightarrow> be_remote_mouse_holds s = []"
  by (auto simp: clutch_ok_def clutch_inv_def)

text \<open>Targets may lose the mouse at any time.\<close>

lemma clutch_ok_targets:
  "clutch_ok t s \<Longrightarrow> (none_selected (be_targets s) \<Longrightarrow> none_selected ts) \<Longrightarrow> clutch_ok t (s\<lparr>be_targets := ts\<rparr>)"
  by (simp add: clutch_ok_def)

lemma clutch_ok_map_targets:
  "clutch_ok t s \<Longrightarrow> (\<And>pid shm. shm_mouse_selected (f pid shm) \<Longrightarrow> shm_mouse_selected shm) \<Longrightarrow> clutch_ok t (map_targets f s)"
  using none_selected_map [of f s] by (simp add: clutch_ok_def) (simp add: map_targets_def)

lemma clutch_ok_suppress: "clutch_ok t s \<Longrightarrow> clutch_ok t (store_suppress active s)"
  unfolding store_suppress_def by (rule clutch_ok_map_targets) simp_all

lemma clutch_ok_cancel: "clutch_ok t s \<Longrightarrow> clutch_ok t (cancel_all_clutch_owners now s)"
  by (simp add: clutch_ok_def cancel_all_clutch_owners_def clutch_inv_cancel leases_within_def)
    (metis clutch_inv_cancel(1))

lemma filter_same_length: "length (filter P xs) = length xs \<Longrightarrow> filter P xs = xs"
proof (induction xs)
  case (Cons x xs)
  then show ?case using length_filter_le [of P xs] by (auto simp del: length_filter_le split: if_splits)
qed simp

text \<open>Dropping holds, and releasing the clutch with the last of them.\<close>

lemma clutch_ok_drop:
  assumes ok: "clutch_ok t s" and kept: "set kept \<subseteq> set (be_remote_mouse_holds s)" "distinct (map fst kept)"
    and s': "be_targets s' = be_targets s" "be_remote_mouse_holds s' = kept"
      "be_clutch s' = release_if_unowned now (kept \<noteq> []) (be_clutch s)"
  shows "clutch_ok t s'"
proof -
  have "clutch_inv (be_clutch s) (be_remote_mouse_holds s)" using ok by (simp add: clutch_ok_def)
  note release = clutch_inv_release [OF this kept, of now]
  then show ?thesis using ok kept(1) by (auto simp: clutch_ok_def s' leases_within_def list_all_iff)
qed

lemma clutch_ok_force: "be_remote_mouse_holds s = [] \<Longrightarrow> clutch_ok t (s\<lparr>be_targets := be_targets (deactivate_mouse_targets s'), be_clutch := force_inactive c\<rparr>)"
  by (simp add: clutch_ok_def clutch_inv_force leases_within_def)

lemma clutch_ok_distinct: "clutch_ok t s \<Longrightarrow> distinct (map fst (be_remote_mouse_holds s))"
  by (simp add: clutch_ok_def clutch_inv_def)

lemma clutch_ok_expire: "clutch_ok t s \<Longrightarrow> clutch_ok t (expire_holds env s)"
proof -
  assume ok: "clutch_ok t s"
  let ?kept = "filter (\<lambda>(_, hold). env_now_ms env < hold_deadline_ms hold) (be_remote_mouse_holds s)"
  have kept: "set ?kept \<subseteq> set (be_remote_mouse_holds s)" "distinct (map fst ?kept)"
    using clutch_ok_distinct [OF ok] by (auto simp: distinct_map_filter)
  show ?thesis
  proof (cases "length ?kept = length (be_remote_mouse_holds s)")
    case True
    from filter_same_length [OF this] have "?kept = be_remote_mouse_holds s" .
    then show ?thesis using ok by (simp add: expire_holds_def Let_def)
  next
    case False
    then show ?thesis
      by (intro clutch_ok_drop [OF ok kept, where now = "env_now_ms env"]) (simp_all add: expire_holds_def remote_owned_def Let_def)
  qed
qed

lemma clutch_ok_focus: "clutch_ok t s \<Longrightarrow> clutch_ok t (validate_focus env s)"
  by (simp add: validate_focus_def Let_def clutch_ok_cancel)

lemma clutch_ok_finish_drain:
  assumes "clutch_ok t s"
  shows "clutch_ok t (finish_drain env s)"
proof (cases "clutch_phase (be_clutch s) = PhaseDraining \<and> env_now_ms env \<ge> clutch_drain_deadline_ms (be_clutch s)")
  case True
  then have "be_remote_mouse_holds s = []" using clutch_ok_holds [OF assms] by simp
  then show ?thesis using True
    by (simp add: finish_drain_def finish_drain_if_due_def clutch_ok_def clutch_inv_force leases_within_def)
qed (use assms in \<open>auto simp: finish_drain_def finish_drain_if_due_def\<close>)

lemma clutch_ok_pending:
  assumes ok: "clutch_ok t s"
  shows "clutch_ok t (apply_pending_clutch_binding env s)"
proof (cases "clutch_phase (be_clutch s) = PhaseInactive")
  case True
  then have holds: "be_remote_mouse_holds s = []" using clutch_ok_holds [OF ok] by simp
  let ?s = "\<lambda>binding. s\<lparr>be_pending_clutch_binding := None, be_clutch_binding_vk := binding,
     be_clutch_key_is_down := is_some_and binding (env_key_is_down env)\<rparr>"
  have fail: "clutch_ok t (snd (reconcile_hooks env ((deactivate_mouse_targets (s1\<lparr>be_clutch_binding_vk := None,
      be_clutch_error := Some e\<rparr>))\<lparr>be_clutch := force_inactive c\<rparr>)))"
    if "reconcile_hooks env (?s binding) = (r, s1)" for binding r s1 e c
    unfolding clutch_ok_reconcile using that holds
    by (elim reconcile_clutch_eq) (simp add: clutch_ok_def clutch_inv_force leases_within_def)
  have succeed: "clutch_ok t s1" if "reconcile_hooks env (?s binding) = (r, s1)" for binding r s1
    using clutch_ok_reconcile_eq [OF that, of t] ok by simp
  show ?thesis using ok fail succeed
    by (auto simp: apply_pending_clutch_binding_def Let_def split: option.split prod.split sum.split)
qed (use ok in \<open>simp add: apply_pending_clutch_binding_def\<close>)

lemma clutch_ok_heartbeats: "clutch_ok t s \<Longrightarrow> clutch_ok t (refresh_heartbeats now s)"
  unfolding refresh_heartbeats_def by (rule clutch_ok_map_targets) simp_all

lemma clutch_ok_tick: "clutch_ok t s \<Longrightarrow> clutch_ok t (snd (broadcast_tick env s))"
proof -
  assume "clutch_ok t s"
  then have "clutch_ok t (apply_pending_clutch_binding env (finish_drain env (validate_focus env
      (expire_holds env (refresh_heartbeats (env_now_ms env) s)))))"
    by (intro clutch_ok_pending clutch_ok_finish_drain clutch_ok_focus clutch_ok_expire clutch_ok_heartbeats)
  then show ?thesis
    by (auto simp: broadcast_tick_def Let_def clutch_ok_reconcile_eq split: prod.split sum.split)
qed

lemma clutch_ok_settings: "clutch_ok t s \<Longrightarrow> clutch_ok t (on_settings_changed env upper vts cfg s)"
  by (auto simp: on_settings_changed_def Let_def intro!: clutch_ok_pending clutch_ok_cancel split: prod.split)

lemma clutch_ok_end_session: "clutch_ok t s \<Longrightarrow> clutch_ok t (end_remote_mouse_clutch_session env session_id sequence s)"
proof -
  assume ok: "clutch_ok t s"
  let ?kept = "filter (\<lambda>(owner, _). mo_session_id owner \<noteq> session_id) (be_remote_mouse_holds s)"
  have kept: "set ?kept \<subseteq> set (be_remote_mouse_holds s)" "distinct (map fst ?kept)"
    using clutch_ok_distinct [OF ok] by (auto simp: distinct_map_filter)
  show ?thesis
  proof (cases "length ?kept = length (be_remote_mouse_holds s)")
    case True
    from filter_same_length [OF this] have "?kept = be_remote_mouse_holds s" .
    then show ?thesis using ok by (auto simp: end_remote_mouse_clutch_session_def Let_def clutch_ok_def split: prod.split)
  next
    case False
    have "clutch_ok t (snd (reconcile_hooks env s'))" if "be_targets s' = be_targets s" "be_remote_mouse_holds s' = ?kept"
      "be_clutch s' = release_if_unowned (env_now_ms env) (?kept \<noteq> []) (be_clutch s)" for s'
      using clutch_ok_drop [OF ok kept that] by simp
    then show ?thesis using False
      by (simp add: end_remote_mouse_clutch_session_def remote_owned_def Let_def split: prod.split)
  qed
qed

lemma clutch_ok_update_targets:
  assumes "clutch_ok t s"
  shows "clutch_ok t (update_targets env pids active s)"
proof -
  have add: "clutch_ok t (add_target env pid s)" if "clutch_ok t s" for pid s
  proof -
    have "none_selected (bm_insert pid shm ts)" if "none_selected ts" "\<not> shm_mouse_selected shm" for shm ts
      using that bm_insert_entries [of _ _ pid shm ts] by (fastforce simp: none_selected_def list_all_iff)
    then show ?thesis using that
      by (auto simp: add_target_def create_shm_def set_keyboard_source_def intro!: clutch_ok_targets split: option.split)
  qed
  have fold: "clutch_ok t (fold (add_target env) pids s)" if "clutch_ok t s" for s
    using that by (induction pids arbitrary: s) (simp_all add: add)
  have base: "clutch_ok t (s1\<lparr>be_eq_pids := pids, be_targets := filter Q (be_targets s1)\<rparr>)" if "clutch_ok t s1" for s1 Q
    using that by (intro clutch_ok_targets) (auto simp: none_selected_def list_all_iff)
  have first: "clutch_ok t (if b then cancel_all_clutch_owners now s else s)" for b now
    using assms by (simp add: clutch_ok_cancel)
  show ?thesis unfolding update_targets_def Let_def
    by (rule clutch_ok_suppress) (simp add: fold [OF base [OF first]])
qed

lemma clutch_ok_set_active_pid: "clutch_ok t s \<Longrightarrow> clutch_ok t (set_active_pid env pid s)"
  by (auto simp: set_active_pid_def Let_def intro!: clutch_ok_suppress clutch_ok_cancel)

lemma clutch_ok_eligible: "clutch_ok t s \<Longrightarrow> clutch_ok t (update_mouse_eligible_pids env pids s)"
  by (auto simp: update_mouse_eligible_pids_def Let_def intro!: clutch_ok_cancel)

lemma clutch_ok_mouse_proc: "clutch_ok t s \<Longrightarrow> clutch_ok t (ll_mouse_proc env handled message mouse_data s)"
  by (auto simp: ll_mouse_proc_def clutch_ok_def clutch_inv_set_button Let_def split: option.split)

lemma clutch_ok_set_active:
  assumes ok: "clutch_ok t s" and result: "set_active env active s = Some (r, s')"
  shows "clutch_ok t s'"
proof (cases "be_broadcasting s = active")
  case True
  then show ?thesis using ok result by (simp add: set_active_def)
next
  case False
  obtain h s1 where rec: "reconcile_hooks env (s\<lparr>be_broadcasting := active\<rparr>) = (h, s1)" by fastforce
  have ok1: "clutch_ok t s1" using clutch_ok_reconcile_eq [OF rec, of t] ok by simp
  have cleared: "clutch_ok t (s1\<lparr>be_targets := ts\<rparr>)"
    if "try_map_targets (\<lambda>_. clear_broadcast_keys [0..<255]) (be_targets s1) = Some ts" for ts
    using clutch_ok_targets [OF ok1] none_selected_try [OF that] clear_broadcast_selected by blast
  have source: "clutch_ok t (map_targets (\<lambda>_. set_keyboard_source src active) s2)" if "clutch_ok t s2" for s2 src
    by (rule clutch_ok_map_targets [OF that]) (simp add: set_keyboard_source_def)
  show ?thesis using result False rec ok1 cleared source
    by (auto simp: set_active_def split: sum.splits bool.splits if_splits)
qed

lemma none_selected_modify:
  assumes "\<And>shm. shm_mouse_selected (f shm) = shm_mouse_selected shm"
  shows "none_selected (bm_modify pid f ts) = none_selected ts"
  by (induction ts) (auto simp: none_selected_def bm_modify_def assms split: if_splits)

lemma clutch_ok_targeted:
  assumes ok: "clutch_ok t s"
  shows "snd (begin_targeted_input pid (Some s)) = Some s' \<Longrightarrow> clutch_ok t s'"
    "set_targeted_key pid scan pressed (Some s) = Some (r, Some s') \<Longrightarrow> clutch_ok t s'"
    "finish_targeted_input pid (Some s) = Some (Some s') \<Longrightarrow> clutch_ok t s'"
proof -
  have insert: "clutch_ok t (s\<lparr>be_targets := bm_insert pid shm' (be_targets s)\<rparr>)"
    if "bm_get (be_targets s) pid = Some shm" "shm_mouse_selected shm' = shm_mouse_selected shm" for shm shm'
    using that bm_insert_entries [of _ _ pid shm' "be_targets s"] bm_get_in [OF that(1)]
    by (intro clutch_ok_targets [OF ok]) (fastforce simp: none_selected_def list_all_iff)
  show "clutch_ok t s'" if "snd (begin_targeted_input pid (Some s)) = Some s'"
    using that ok by (auto simp: begin_targeted_input_def none_selected_modify set_keyboard_source_def
        intro!: clutch_ok_targets split: option.splits if_splits)
  show "clutch_ok t s'" if "set_targeted_key pid scan pressed (Some s) = Some (r, Some s')"
    using that ok by (auto simp: set_targeted_key_def split: option.splits if_splits dest!: write_combined_selected intro!: insert)
  show "clutch_ok t s'" if "finish_targeted_input pid (Some s) = Some (Some s')"
    using that ok by (auto simp: finish_targeted_input_def set_keyboard_source_def split: option.splits
        dest!: clear_targeted_selected intro!: insert)
qed

text \<open>A hold of a new owner.\<close>

lemma update_new: "map_of al k = None \<Longrightarrow> AList.update k v al = al @ [(k, v)]"
  by (induction al) (auto split: if_splits)

lemma delete_new: "map_of al k = None \<Longrightarrow> AList.delete k (al @ [(k, v)]) = al"
  by (induction al) (auto split: if_splits simp: AList.delete_eq)

lemma clutch_ok_like:
  "be_targets s' = be_targets s \<Longrightarrow> be_remote_mouse_holds s' = be_remote_mouse_holds s \<Longrightarrow>
   be_clutch s' = (be_clutch s)\<lparr>clutch_buttons := b\<rparr> \<Longrightarrow> clutch_ok t s' = clutch_ok t s"
  by (simp add: clutch_ok_def)

lemma clutch_ok_add:
  assumes ok: "clutch_ok t s" and now: "env_now_ms env \<le> t" and new: "map_of (be_remote_mouse_holds s) owner = None"
    and s': "be_remote_mouse_holds s' = be_remote_mouse_holds s @ [(owner, \<lparr>hold_source_pid = source, hold_deadline_ms = extend_lease env\<rparr>)]"
      "clutch_phase (be_clutch s') = PhaseActive" "clutch_source_pid (be_clutch s') = Some source"
      "clutch_local_owner_active (be_clutch s') = clutch_local_owner_active (be_clutch s)"
      "clutch_swallowed_vk (be_clutch s') = clutch_swallowed_vk (be_clutch s)"
      "clutch_phase (be_clutch s) = PhaseActive \<Longrightarrow> clutch_source_pid (be_clutch s) = Some source"
  shows "clutch_ok t s'"
proof -
  have "owner \<notin> fst ` set (be_remote_mouse_holds s)" using new by (simp add: map_of_eq_None_iff)
  moreover have "extend_lease env \<le> t + REMOTE_MOUSE_CLUTCH_LEASE_MS"
    using now by (simp add: extend_lease_def u64_saturating_add_def)
  ultimately show ?thesis using ok s'
    by (auto simp: clutch_ok_def clutch_inv_def leases_within_def list_all_iff)
qed

lemma clutch_ok_begin_remote:
  assumes ok: "clutch_ok t s" and now: "env_now_ms env \<le> t" and new: "map_of (be_remote_mouse_holds s) owner = None"
  shows "clutch_ok t (snd (begin_remote_hold env owner source s))"
proof -
  let ?hold = "\<lparr>hold_source_pid = source, hold_deadline_ms = extend_lease env\<rparr>"
  obtain r s2 where rec: "reconcile_hooks env (s\<lparr>be_remote_mouse_holds := AList.update owner ?hold (be_remote_mouse_holds s)\<rparr>) = (r, s2)"
    by fastforce
  obtain b where s2: "be_clutch s2 = (be_clutch s)\<lparr>clutch_buttons := b\<rparr>" "be_targets s2 = be_targets s"
    "be_remote_mouse_holds s2 = be_remote_mouse_holds s @ [(owner, ?hold)]"
    by (rule reconcile_clutch_eq [OF rec]) (simp add: update_new [OF new])
  have dropped: "clutch_ok t (drop_hold owner s2)"
    using ok by (subst clutch_ok_like [of _ s b]) (simp_all add: drop_hold_def s2 delete_new [OF new])
  have drop: "clutch_ok t (drop_hold owner (s2\<lparr>be_clutch := (be_clutch s2)\<lparr>clutch_buttons := b'\<rparr>\<rparr>))" for b'
    using ok by (subst clutch_ok_like [of _ s b']) (simp_all add: drop_hold_def s2 delete_new [OF new])
  show ?thesis
  proof (cases r)
    case (Inl e)
    then show ?thesis using dropped rec by (simp add: begin_remote_hold_def Let_def)
  next
    case (Inr u)
    let ?c = "(be_clutch s)\<lparr>clutch_buttons := env_mouse_buttons env\<rparr>"
    obtain activated c' where act: "clutch_activate source True ?c = (activated, c')" by fastforce
    obtain ready s4 where mouse: "activate_mouse_targets source (s2\<lparr>be_clutch := c'\<rparr>) = (ready, s4)" by fastforce
    have s4: "be_clutch s4 = c'" "be_remote_mouse_holds s4 = be_remote_mouse_holds s @ [(owner, ?hold)]"
      using activate_frame [of source "s2\<lparr>be_clutch := c'\<rparr>"] by (simp_all add: mouse s2)
    have resumed: "clutch_ok t s2" if "clutch_phase (be_clutch s) = PhaseActive" "clutch_source_pid (be_clutch s) = Some source"
      using that s2 by (intro clutch_ok_add [OF ok now new s2(3)]) simp_all
    have started: "clutch_ok t s4" if "activated" "clutch_phase (be_clutch s) \<noteq> PhaseActive"
    proof -
      have "c' = ?c\<lparr>clutch_phase := PhaseActive, clutch_source_pid := Some source, clutch_drain_deadline_ms := 0\<rparr>"
        using act that by (auto simp: clutch_activate_def split: if_splits)
      then show ?thesis using that(2) by (intro clutch_ok_add [OF ok now new s4(2)]) (simp_all add: s4(1))
    qed
    have refused: "clutch_ok t (drop_hold owner (s2\<lparr>be_clutch := c'\<rparr>))" if "\<not> activated"
      using act that drop [of "env_mouse_buttons env"] by (auto simp: clutch_activate_def s2 split: if_splits)
    have released: "clutch_ok t ((drop_hold owner s4)\<lparr>be_clutch := release_if_unowned (env_now_ms env) False c'\<rparr>)"
      if "\<not> ready" "activated" "clutch_phase (be_clutch s) \<noteq> PhaseActive"
      using that act mouse ok
      by (auto simp: clutch_activate_def activate_mouse_targets_def drop_hold_def s2 delete_new [OF new] clutch_ok_def clutch_inv_def
          release_if_unowned_def begin_drain_def split: if_splits)
    show ?thesis
    proof (cases "clutch_phase (be_clutch s) = PhaseActive \<and> clutch_source_pid (be_clutch s) = Some source")
      case True
      then show ?thesis using rec Inr resumed by (simp add: begin_remote_hold_def Let_def)
    next
      case False
      then have fresh: "clutch_phase (be_clutch s) \<noteq> PhaseActive" if activated
        using act that by (auto simp: clutch_activate_def split: if_splits)
      show ?thesis
        unfolding begin_remote_hold_def Let_def rec prod.case Inr sum.case if_not_P [OF False] s2(1)
        using act mouse s4(1) started refused released fresh by (cases activated; cases ready) (simp_all add: drop_hold_def)
    qed
  qed
qed

lemma set_update: "set (AList.update k v al) \<subseteq> insert (k, v) (set al)"
  by (induction al) auto

lemma clutch_ok_renew:
  assumes ok: "clutch_ok t s" and now: "env_now_ms env \<le> t" and hold: "map_of (be_remote_mouse_holds s) owner = Some hold"
  shows "clutch_ok t (s\<lparr>be_remote_mouse_holds := AList.update owner (hold\<lparr>hold_deadline_ms := extend_lease env\<rparr>) (be_remote_mouse_holds s)\<rparr>)"
proof -
  let ?holds = "AList.update owner (hold\<lparr>hold_deadline_ms := extend_lease env\<rparr>) (be_remote_mouse_holds s)"
  have inv: "clutch_inv (be_clutch s) (be_remote_mouse_holds s)" "leases_within t (be_remote_mouse_holds s)"
    using ok by (simp_all add: clutch_ok_def)
  have mem: "(owner, hold) \<in> set (be_remote_mouse_holds s)" using hold by (rule map_of_SomeD)
  have lease: "extend_lease env \<le> t + REMOTE_MOUSE_CLUTCH_LEASE_MS"
    using now by (simp add: extend_lease_def u64_saturating_add_def)
  have "clutch_inv (be_clutch s) ?holds"
    using inv(1) mem set_update [of owner "hold\<lparr>hold_deadline_ms := extend_lease env\<rparr>" "be_remote_mouse_holds s"]
    by (fastforce simp: clutch_inv_def distinct_update)
  moreover have "leases_within t ?holds"
    using inv(2) lease set_update [of owner "hold\<lparr>hold_deadline_ms := extend_lease env\<rparr>" "be_remote_mouse_holds s"]
    by (fastforce simp: leases_within_def list_all_iff)
  ultimately show ?thesis using ok by (simp add: clutch_ok_def)
qed

lemma clutch_ok_hold_source:
  assumes "clutch_ok t s" "map_of (be_remote_mouse_holds s) owner = Some hold"
  shows "clutch_phase (be_clutch s) = PhaseActive" "clutch_source_pid (be_clutch s) = Some (hold_source_pid hold)"
  using assms map_of_SomeD [OF assms(2)] by (auto simp: clutch_ok_def clutch_inv_def)

lemma clutch_ok_end_hold:
  assumes ok: "clutch_ok t s"
  shows "clutch_ok t ((drop_hold owner s)\<lparr>be_clutch := release_if_unowned now (remote_owned (drop_hold owner s)) (be_clutch s),
     be_clutch_status_dirty := b\<rparr>)"
  by (rule clutch_ok_drop [OF ok, of "AList.delete owner (be_remote_mouse_holds s)"])
    (use clutch_ok_distinct [OF ok] in \<open>auto simp: drop_hold_def remote_owned_def AList.delete_eq distinct_map_filter\<close>)

lemma clutch_ok_update_remote:
  assumes ok: "clutch_ok t s" and now: "env_now_ms env \<le> t"
    and result: "snd (update_remote_mouse_clutch_hold env owner operation sequence (Some s)) = Some s'"
  shows "clutch_ok t s'"
proof -
  let ?s = "s\<lparr>be_remote_mouse_sequences := (be_remote_mouse_sequences s)(owner \<mapsto> sequence)\<rparr>"
  have ok': "clutch_ok t ?s" using ok by simp
  show ?thesis
    using result ok clutch_ok_begin_remote [OF ok' now, of owner] clutch_ok_renew [OF ok' now, of owner]
      clutch_ok_end_hold [OF ok', where owner = owner and now = "env_now_ms env" and b = True] clutch_ok_hold_source [OF ok, of owner]
    by (auto simp: update_remote_mouse_clutch_hold_def Let_def drop_hold_def split: if_splits MouseClutchOperation.splits
        option.splits BroadcastClutchAvailability.splits)
qed

lemma clutch_ok_key_targets:
  assumes ok: "clutch_ok t s"
  shows "broadcast_key env kb s = Some s' \<Longrightarrow> clutch_ok t s'" "release_background_keys s = Some s' \<Longrightarrow> clutch_ok t s'"
proof -
  have "clutch_ok t (s\<lparr>be_targets := ts\<rparr>)" if "try_map_targets f (be_targets s) = Some ts"
    "\<And>pid shm shm'. f pid shm = Some shm' \<Longrightarrow> shm_mouse_selected shm' = shm_mouse_selected shm" for f ts
    using clutch_ok_targets [OF ok] none_selected_try [OF that] by simp
  note map = this
  show "clutch_ok t s'" if "broadcast_key env kb s = Some s'"
    using that ok by (auto simp: broadcast_key_def split: if_splits option.splits elim!: map dest!: write_combined_selected)
  show "clutch_ok t s'" if "release_background_keys s = Some s'"
    using that by (auto simp: release_background_keys_def split: if_splits elim!: map dest!: clear_broadcast_selected)
qed

lemma clutch_ok_press:
  assumes ok: "clutch_ok t s" and key: "on_key_down vk source (has_ready_mouse_targets s source) (be_clutch s) = (effect, c)"
  shows "clutch_ok t (if effect = EffectActivate then snd (activate_mouse_targets source (s\<lparr>be_clutch := c\<rparr>)) else s\<lparr>be_clutch := c\<rparr>)"
proof -
  have inv: "clutch_inv (be_clutch s) (be_remote_mouse_holds s)" using ok by (simp add: clutch_ok_def)
  note down = clutch_inv_key_down [OF inv key]
  then show ?thesis using ok by (auto simp: clutch_ok_def)
qed

lemma clutch_ok_clutch_key:
  assumes ok: "clutch_ok t s"
  shows "clutch_ok t (press_clutch_key env kb s)" "clutch_ok t (release_clutch_key env kb s)"
proof -
  let ?source = "unwrap_or (env_foreground_pid env) 0"
  obtain effect c where key: "on_key_down (kb_vk_code kb) ?source (has_ready_mouse_targets s ?source) (be_clutch s) = (effect, c)"
    by fastforce
  show "clutch_ok t (press_clutch_key env kb s)"
    using clutch_ok_press [OF ok key] by (simp add: press_clutch_key_def key Let_def split: if_splits)
  show "clutch_ok t (release_clutch_key env kb s)"
    using ok by (simp add: release_clutch_key_def clutch_ok_def remote_owned_def clutch_inv_key_up Let_def)
qed

lemma clutch_ok_keyboard:
  assumes ok: "clutch_ok t s" and result: "ll_keyboard_proc env handled kb s = Some (r, s')"
  shows "clutch_ok t s'"
proof -
  have ordinary: "pred_option (clutch_ok t) (ordinary_key env kb u)" if "clutch_ok t u" for u
  proof -
    have "pred_option (clutch_ok t) (broadcast_key env kb (u\<lparr>be_eq_was_foreground := True\<rparr>))"
      using that clutch_ok_key_targets(1) [of t "u\<lparr>be_eq_was_foreground := True\<rparr>" env kb] by (simp add: option.pred_set)
    moreover have "pred_option (clutch_ok t) (release_background_keys (u\<lparr>be_eq_was_foreground := False\<rparr>))"
      using that clutch_ok_key_targets(2) [of t "u\<lparr>be_eq_was_foreground := False\<rparr>"] by (simp add: option.pred_set)
    ultimately show ?thesis using that by (simp add: ordinary_key_def)
  qed
  have "pred_option (\<lambda>x. clutch_ok t (snd x)) (ll_keyboard_proc env handled kb s)"
    using ok unfolding ll_keyboard_proc_def Let_def
    by (simp add: option.pred_map comp_def clutch_ok_clutch_key ordinary)
  then show ?thesis using result by simp
qed

lemma clutch_ok_step:
  assumes ok: "clutch_ok t s" and now: "env_now_ms env \<le> t" and step: "broadcast_step upper vts env op s = Some s'"
  shows "clutch_ok t s'"
proof (cases op)
  case (OpKeyboard handled kb)
  then show ?thesis using step clutch_ok_keyboard [OF ok] by (cases "ll_keyboard_proc env handled kb s") auto
next
  case (OpSetActive active)
  then show ?thesis using step clutch_ok_set_active [OF ok] by (cases "set_active env active s") auto
next
  case (OpRemoteHold owner operation sequence)
  then show ?thesis using step clutch_ok_update_remote [OF ok now] by simp
next
  case (OpBeginTargeted pid)
  then show ?thesis using step clutch_ok_targeted(1) [OF ok] by simp
next
  case (OpTargetedKey pid scan pressed)
  then show ?thesis using step clutch_ok_targeted(2) [OF ok] by (auto simp: bind_eq_Some_conv)
next
  case (OpFinishTargeted pid)
  then show ?thesis using step clutch_ok_targeted(3) [OF ok] by (auto simp: bind_eq_Some_conv)
qed (use ok step in \<open>auto simp: clutch_ok_mouse_proc clutch_ok_tick clutch_ok_update_targets clutch_ok_eligible
      clutch_ok_set_active_pid clutch_ok_settings clutch_ok_end_session\<close>)

lemma clutch_ok_run:
  "list_all (\<lambda>(env, _). env_now_ms env \<le> t) steps \<Longrightarrow> clutch_ok t s \<Longrightarrow> broadcast_run upper vts steps s = Some s' \<Longrightarrow> clutch_ok t s'"
proof (induction steps arbitrary: s)
  case (Cons step steps)
  obtain env op where step: "step = (env, op)" by fastforce
  obtain mid where mid: "broadcast_step upper vts env op s = Some mid" "broadcast_run upper vts steps mid = Some s'"
    using Cons.prems(3) by (auto simp: step bind_eq_Some_conv)
  have "clutch_ok t mid" using clutch_ok_step [OF Cons.prems(2) _ mid(1)] Cons.prems(1) by (simp add: step)
  then show ?case using Cons.IH Cons.prems(1) mid(2) by (simp add: step)
qed simp

lemma clutch_ok_init: "clutch_ok t (broadcast_init env upper vts cfg)"
proof -
  have start: "clutch_ok t s" if "be_targets s = []" "be_clutch s = clutch_new b" "be_remote_mouse_holds s = []" for s b
    using that by (simp add: clutch_ok_def clutch_inv_def clutch_new_def leases_within_def none_selected_def)
  have fresh: "clutch_ok t s1" if "reconcile_hooks env s = (r, s1)" "be_targets s = []" "be_clutch s = clutch_new b"
    "be_remote_mouse_holds s = []" for s r s1 b
    using clutch_ok_reconcile_eq [OF that(1), of t] start [OF that(2-)] by simp
  show ?thesis
    by (auto simp: broadcast_init_def Let_def elim!: fresh dest: clutch_ok_reconcile_eq [where t = t]
        split: prod.split sum.split)
qed

section \<open>Winding down\<close>

definition winding :: "nat \<Rightarrow> BroadcastEngine \<Rightarrow> bool" where
  "winding d s \<longleftrightarrow> be_remote_mouse_holds s = [] \<and> (clutch_phase (be_clutch s) = PhaseInactive
     \<or> clutch_phase (be_clutch s) = PhaseDraining \<and> clutch_drain_deadline_ms (be_clutch s) \<le> d)"

lemma heartbeats_frame [simp]: "be_clutch (refresh_heartbeats now s) = be_clutch s"
  "be_remote_mouse_holds (refresh_heartbeats now s) = be_remote_mouse_holds s"
  by (simp_all add: refresh_heartbeats_def map_targets_def)

lemma winding_focus: "winding d s \<Longrightarrow> winding d (validate_focus env s)"
  by (auto simp: winding_def validate_focus_def cancel_all_clutch_owners_def cancel_bounded_def Let_def)

lemma winding_drain: "winding d s \<Longrightarrow> winding d (finish_drain env s)"
  "winding d s \<Longrightarrow> d \<le> env_now_ms env \<Longrightarrow> clutch_phase (be_clutch (finish_drain env s)) = PhaseInactive"
  by (auto simp: winding_def finish_drain_def finish_drain_if_due_def force_inactive_def)

lemma pending_phase:
  "clutch_phase (be_clutch (apply_pending_clutch_binding env s)) = clutch_phase (be_clutch s)"
  "clutch_phase (be_clutch s) \<noteq> PhaseInactive \<Longrightarrow> apply_pending_clutch_binding env s = s"
  "be_remote_mouse_holds (apply_pending_clutch_binding env s) = be_remote_mouse_holds s"
proof -
  have phase: "clutch_phase (be_clutch (snd (reconcile_hooks env u))) = clutch_phase (be_clutch u)" for u
    using reconcile_clutch(1) [of env u] by auto
  have frame: "clutch_phase (be_clutch u') = clutch_phase (be_clutch u)" "be_remote_mouse_holds u' = be_remote_mouse_holds u"
    if "reconcile_hooks env u = (r, u')" for r u u'
    using phase [of u] reconcile_clutch(2) [of env u] that by simp_all
  show "clutch_phase (be_clutch (apply_pending_clutch_binding env s)) = clutch_phase (be_clutch s)"
    by (auto simp: apply_pending_clutch_binding_def Let_def phase clutch_inv_force dest: frame split: option.split prod.split sum.split)
  show "clutch_phase (be_clutch s) \<noteq> PhaseInactive \<Longrightarrow> apply_pending_clutch_binding env s = s"
    by (simp add: apply_pending_clutch_binding_def)
  show "be_remote_mouse_holds (apply_pending_clutch_binding env s) = be_remote_mouse_holds s"
    by (auto simp: apply_pending_clutch_binding_def Let_def reconcile_clutch(2) dest: frame split: option.split prod.split sum.split)
qed

lemma winding_pending: "winding d s \<Longrightarrow> winding d (apply_pending_clutch_binding env s)"
  using pending_phase [where env = env and s = s] by (auto simp: winding_def)

lemma winding_reconcile: "winding d (snd (reconcile_hooks env s)) = winding d s"
  using reconcile_clutch [of env s] by (auto simp: winding_def)

lemma winding_tick:
  assumes "winding d (expire_holds env (refresh_heartbeats (env_now_ms env) s))"
  shows "winding d (snd (broadcast_tick env s))"
    "d \<le> env_now_ms env \<Longrightarrow> clutch_phase (be_clutch (snd (broadcast_tick env s))) = PhaseInactive"
proof -
  let ?u = "validate_focus env (expire_holds env (refresh_heartbeats (env_now_ms env) s))"
  let ?v = "apply_pending_clutch_binding env (finish_drain env ?u)"
  have u: "winding d ?u" by (rule winding_focus [OF assms])
  obtain r w where rec: "reconcile_hooks env ?v = (r, w)" by fastforce
  have w: "winding d w = winding d ?v" "clutch_phase (be_clutch w) = clutch_phase (be_clutch ?v)"
    using winding_reconcile [where d = d and env = env and s = ?v] reconcile_clutch(1) [where env = env and s = ?v] by (auto simp: rec)
  have tick: "be_clutch (snd (broadcast_tick env s)) = be_clutch w"
    "be_remote_mouse_holds (snd (broadcast_tick env s)) = be_remote_mouse_holds w"
    by (cases r; simp add: broadcast_tick_def Let_def rec)+
  show "winding d (snd (broadcast_tick env s))"
    using winding_pending [OF winding_drain(1) [OF u]] w(1) tick by (simp add: winding_def)
  show "clutch_phase (be_clutch (snd (broadcast_tick env s))) = PhaseInactive" if "d \<le> env_now_ms env"
    using winding_drain(2) [OF u that] tick(1) w(2) by (simp add: pending_phase(1))
qed

lemma winding_expire: "winding d s \<Longrightarrow> winding d (expire_holds env s)"
  by (simp add: winding_def expire_holds_def Let_def)

text \<open>The tick at which every lease has run out.\<close>

lemma expired_tick_winds:
  assumes ok: "clutch_ok t s" and active: "clutch_phase (be_clutch s) = PhaseActive" "\<not> clutch_local_owner_active (be_clutch s)"
    and buttons: "clutch_buttons (be_clutch s) = 0" and now: "t + REMOTE_MOUSE_CLUTCH_LEASE_MS \<le> env_now_ms env"
  shows "winding (u64_saturating_add (env_now_ms env) MOUSE_DRAIN_MS) (snd (broadcast_tick env s))"
proof (rule winding_tick(1))
  let ?s = "refresh_heartbeats (env_now_ms env) s"
  have holds: "be_remote_mouse_holds s \<noteq> []" using ok active by (auto simp: clutch_ok_def clutch_inv_def)
  have expired: "filter (\<lambda>(_, hold). env_now_ms env < hold_deadline_ms hold) (be_remote_mouse_holds s) = []"
    using ok now by (fastforce simp: clutch_ok_def leases_within_def list_all_iff filter_empty_conv)
  show "winding (u64_saturating_add (env_now_ms env) MOUSE_DRAIN_MS) (expire_holds env ?s)"
    using holds active buttons
    by (simp add: expire_holds_def Let_def expired winding_def release_if_unowned_def begin_drain_def remote_owned_def)
qed

section \<open>Properties\<close>

text \<open>
  C7. In every reachable state of the engine the mouse follows the clutch: the clutch is active
  exactly while the local key or a remote hold owns it, every remote hold is for the process the
  clutch was taken from, an inactive clutch has no source, and as long as it is inactive no
  target's region receives the mouse.
\<close>

theorem mouse_follows_clutch:
  assumes env: "list_all (\<lambda>(env, _). env_ok env) steps"
    and run: "broadcast_run upper vts steps (broadcast_init env0 upper vts cfg) = Some s"
  shows "(clutch_phase (be_clutch s) = PhaseActive \<longleftrightarrow> clutch_local_owner_active (be_clutch s) \<or> be_remote_mouse_holds s \<noteq> [])
    \<and> (clutch_phase (be_clutch s) = PhaseInactive \<longleftrightarrow> clutch_source_pid (be_clutch s) = None)
    \<and> (\<forall>owner hold. map_of (be_remote_mouse_holds s) owner = Some hold \<longrightarrow>
         clutch_source_pid (be_clutch s) = Some (hold_source_pid hold))
    \<and> (clutch_phase (be_clutch s) = PhaseInactive \<longrightarrow>
         (\<forall>pid shm. bm_get (be_targets s) pid = Some shm \<longrightarrow> controller_mouse_active (shm_ptr shm) = 0))"
proof -
  define t where "t = Max (insert 0 (set (map (\<lambda>(env, _). env_now_ms env) steps)))"
  have "list_all (\<lambda>(env, _). env_now_ms env \<le> t) steps" by (fastforce simp: list_all_iff t_def intro: Max_ge)
  then have ok: "clutch_ok t s" using clutch_ok_run clutch_ok_init run by blast
  have engine: "engine_ok s" using run_keeps [OF env init_ok [of env0 upper vts cfg], of upper vts] run by auto
  have "controller_mouse_active (shm_ptr shm) = 0" if "clutch_phase (be_clutch s) = PhaseInactive" "bm_get (be_targets s) pid = Some shm" for pid shm
    using that ok engine_ok_get [OF engine that(2)] bm_get_in [OF that(2)]
    by (auto simp: clutch_ok_def none_selected_def list_all_iff region_ok_def)
  then show ?thesis using ok clutch_ok_hold_source(2) [OF ok] by (auto simp: clutch_ok_def clutch_inv_def)
qed

text \<open>Two clients, both ready, and a remote controller that takes the mouse.\<close>

definition clutch_env :: "nat \<Rightarrow> nat \<Rightarrow> Win32Env" where
  "clutch_env now foreground =
     (demo_env now foreground)\<lparr>env_mapping := \<lambda>_. MappingExisting (acknowledge_proxy initialize)\<rparr>"

definition clutch_steps :: "(Win32Env \<times> BroadcastOp) list" where
  "clutch_steps = [(clutch_env 0 1, OpUpdateTargets [1, 2] (Some 1)), (clutch_env 1 1, OpUpdateEligible [1, 2]),
     (clutch_env 2 1, OpRemoteHold \<lparr>mo_session_id = 5, mo_hold_id = ''hold''\<rparr> ClutchBegin 1)]"

definition clutch_engine :: BroadcastEngine where
  "clutch_engine = the (broadcast_run (\<lambda>s. s) (\<lambda>_. 0) clutch_steps (broadcast_init (clutch_env 0 1) (\<lambda>s. s) (\<lambda>_. 0) demo_config))"

lemma u64_saturating_add_code [code]: "u64_saturating_add a b = nat (min (int a + int b) 18446744073709551615)"
  by (simp add: u64_saturating_add_def u64_max_def)

definition clutch_view :: "BroadcastEngine \<Rightarrow> ClutchPhase \<times> bool \<times> u8 \<times> nat" where
  "clutch_view s = (clutch_phase (be_clutch s), clutch_local_owner_active (be_clutch s), clutch_buttons (be_clutch s),
     length (be_remote_mouse_holds s))"

lemma clutch_engine_facts:
  "clutch_phase (be_clutch clutch_engine) = PhaseActive" "\<not> clutch_local_owner_active (be_clutch clutch_engine)"
  "clutch_buttons (be_clutch clutch_engine) = 0"
  "be_remote_mouse_holds clutch_engine \<noteq> []"
proof -
  have "clutch_view clutch_engine = (PhaseActive, False, 0, 1)" by code_simp
  then show "clutch_phase (be_clutch clutch_engine) = PhaseActive" "\<not> clutch_local_owner_active (be_clutch clutch_engine)"
    "clutch_buttons (be_clutch clutch_engine) = 0" "be_remote_mouse_holds clutch_engine \<noteq> []"
    by (auto simp: clutch_view_def)
qed

lemma clutch_steps_ok: "list_all (\<lambda>(env, _). env_ok env \<and> env_now_ms env \<le> 2) clutch_steps" "env_ok (clutch_env now foreground)"
  using initialize_wf by (simp_all add: clutch_steps_def env_ok_def clutch_env_def demo_env_def acknowledge_proxy_def shared_wf_def)

lemma clutch_engine_run:
  "broadcast_run (\<lambda>s. s) (\<lambda>_. 0) clutch_steps (broadcast_init (clutch_env 0 1) (\<lambda>s. s) (\<lambda>_. 0) demo_config) = Some clutch_engine"
proof -
  have "list_all (\<lambda>(env, _). env_ok env) clutch_steps" using clutch_steps_ok(1) by (simp add: list_all_iff case_prod_beta)
  from run_keeps [OF this init_ok [of "clutch_env 0 1" "\<lambda>s. s" "\<lambda>_. 0" demo_config], of "\<lambda>s. s" "\<lambda>_. 0"]
  show ?thesis by (auto simp: clutch_engine_def)
qed

theorem mouse_follows_clutch_witness:
  "be_remote_mouse_holds clutch_engine \<noteq> [] \<and> clutch_source_pid (be_clutch clutch_engine) \<noteq> None"
proof -
  have "list_all (\<lambda>(env, _). env_ok env) clutch_steps" using clutch_steps_ok(1) by (simp add: list_all_iff case_prod_beta)
  from mouse_follows_clutch [OF this clutch_engine_run] show ?thesis using clutch_engine_facts by simp
qed



end
