(* ===== verification/Stonemite_Control.thy ===== *)
theory Stonemite_Control
  imports Stonemite_Broadcast Trushar_Mapper "HOL-Library.Monad_Syntax"
begin

text \<open>
  The bridge from the control interface to the thread that owns the clients,
  \<^verbatim>\<open>crates/stonemite/src/control.rs\<close>, with the publisher of
  \<^verbatim>\<open>overlay/control_bridge.rs\<close>: it resolves clients, drives targeted input through the phases of
  a key stroke on a timer, collects the results of batches and publishes snapshots.

  The broadcast engine is part of the state here, since every operation runs on the same
  thread. Replies are numbered; an answer is appended to \<open>ui_replies\<close> unless the other side has
  gone. What Windows, the overlay and the key map files answer is the argument \<open>env\<close>. The hash
  map of active inputs is visited in the order \<open>ce_order\<close>, which is arbitrary. An instant is a
  number of milliseconds. Toasts on the screen are left out. An operation is partial
  (\<open>None\<close>) only because writing a key may wait for the lock of a region.
\<close>

unbundle bit_operations_syntax

section \<open>Keys\<close>

definition DEFAULT_KEY_HOLD_MS :: nat where "DEFAULT_KEY_HOLD_MS = 75"
definition DEFAULT_KEY_PAUSE_MS :: nat where "DEFAULT_KEY_PAUSE_MS = 75"
definition INPUT_ACTIVATION_DELAY :: nat where "INPUT_ACTIVATION_DELAY = 200"
definition INPUT_MODIFIER_DELAY :: nat where "INPUT_MODIFIER_DELAY = 30"
definition INPUT_RELEASE_DELAY :: nat where "INPUT_RELEASE_DELAY = 100"
definition CONSIDER_REQUEST_TTL :: nat where "CONSIDER_REQUEST_TTL = 3000"
definition CONSIDER_RESULT_TTL :: nat where "CONSIDER_RESULT_TTL = 5000"
definition MAX_XTARGET_SLOTS :: nat where "MAX_XTARGET_SLOTS = 20"

definition scan_codes :: "(string \<times> u8) list" where
  "scan_codes =
    [(''escape'', 0x01), (''1'', 0x02), (''2'', 0x03), (''3'', 0x04), (''4'', 0x05), (''5'', 0x06),
     (''6'', 0x07), (''7'', 0x08), (''8'', 0x09), (''9'', 0x0a), (''0'', 0x0b), (''minus'', 0x0c),
     (''equals'', 0x0d), (''backspace'', 0x0e), (''tab'', 0x0f), (''q'', 0x10), (''w'', 0x11), (''e'',
     0x12), (''r'', 0x13), (''t'', 0x14), (''y'', 0x15), (''u'', 0x16), (''i'', 0x17), (''o'', 0x18),
     (''p'', 0x19), (''left_bracket'', 0x1a), (''right_bracket'', 0x1b), (''enter'', 0x1c),
     (''left_control'', 0x1d), (''a'', 0x1e), (''s'', 0x1f), (''d'', 0x20), (''f'', 0x21), (''g'', 0x22),
     (''h'', 0x23), (''j'', 0x24), (''k'', 0x25), (''l'', 0x26), (''semicolon'', 0x27), (''apostrophe'',
     0x28), (''grave'', 0x29), (''left_shift'', 0x2a), (''backslash'', 0x2b), (''z'', 0x2c), (''x'',
     0x2d), (''c'', 0x2e), (''v'', 0x2f), (''b'', 0x30), (''n'', 0x31), (''m'', 0x32), (''comma'', 0x33),
     (''period'', 0x34), (''slash'', 0x35), (''right_shift'', 0x36), (''numpad_multiply'', 0x37),
     (''left_alt'', 0x38), (''space'', 0x39), (''caps_lock'', 0x3a), (''f1'', 0x3b), (''f2'', 0x3c),
     (''f3'', 0x3d), (''f4'', 0x3e), (''f5'', 0x3f), (''f6'', 0x40), (''f7'', 0x41), (''f8'', 0x42),
     (''f9'', 0x43), (''f10'', 0x44), (''num_lock'', 0x45), (''scroll_lock'', 0x46), (''numpad_7'',
     0x47), (''numpad_8'', 0x48), (''numpad_9'', 0x49), (''numpad_subtract'', 0x4a), (''numpad_4'',
     0x4b), (''numpad_5'', 0x4c), (''numpad_6'', 0x4d), (''numpad_add'', 0x4e), (''numpad_1'', 0x4f),
     (''numpad_2'', 0x50), (''numpad_3'', 0x51), (''numpad_0'', 0x52), (''numpad_decimal'', 0x53),
     (''f11'', 0x57), (''f12'', 0x58), (''numpad_enter'', 0x9c), (''right_control'', 0x9d),
     (''numpad_divide'', 0xb5), (''right_alt'', 0xb8), (''pause'', 0xc5), (''home'', 0xc7),
     (''arrow_up'', 0xc8), (''page_up'', 0xc9), (''arrow_left'', 0xcb), (''arrow_right'', 0xcd),
     (''end'', 0xcf), (''arrow_down'', 0xd0), (''page_down'', 0xd1), (''insert'', 0xd2), (''delete'',
     0xd3)]"

definition semantic_scan_code :: "string \<Rightarrow> u8 option" where
  "semantic_scan_code key = map_of scan_codes key"

definition is_modifier_scan :: "u8 \<Rightarrow> bool" where
  "is_modifier_scan scan = (scan \<in> {0x1d, 0x2a, 0x36, 0x38, 0x9d, 0xb8})"

record ResolvedStroke =
  rs_scans :: "u8 list"
  rs_hold :: nat
  rs_pause :: nat

definition has_modifier_chord :: "ResolvedStroke \<Rightarrow> bool" where
  "has_modifier_chord stroke = (list_ex is_modifier_scan (rs_scans stroke)
     \<and> list_ex (\<lambda>scan. \<not> is_modifier_scan scan) (rs_scans stroke))"

datatype InputPhase = PhasePress | PhasePressChord | PhaseRelease | PhaseReleaseModifiers | PhaseFinish

definition phase_scans :: "ResolvedStroke \<Rightarrow> InputPhase \<Rightarrow> u8 list" where
  "phase_scans stroke phase =
     (let modifier_chord = has_modifier_chord stroke
      in case phase of
           PhasePress \<Rightarrow> if modifier_chord then filter is_modifier_scan (rs_scans stroke) else rs_scans stroke
         | PhasePressChord \<Rightarrow> filter (\<lambda>scan. \<not> is_modifier_scan scan) (rs_scans stroke)
         | PhaseRelease \<Rightarrow> if modifier_chord then filter (\<lambda>scan. \<not> is_modifier_scan scan) (rev (rs_scans stroke))
             else rev (rs_scans stroke)
         | PhaseReleaseModifiers \<Rightarrow> filter is_modifier_scan (rev (rs_scans stroke))
         | PhaseFinish \<Rightarrow> [])"

definition input_resolution_error :: "string \<Rightarrow> ControlError + 'a" where
  "input_resolution_error message = refuse InvalidArgument message"

text \<open>\<open>collect\<close> of results: the first error ends it.\<close>

fun collect_all :: "('a \<Rightarrow> 'e + 'b) \<Rightarrow> 'a list \<Rightarrow> 'e + 'b list" where
  "collect_all f [] = Inr []"
| "collect_all f (x # xs) = and_then (f x) (\<lambda>y. and_then (collect_all f xs) (\<lambda>ys. Inr (y # ys)))"

definition resolve_key_strokes :: "KeyStroke list \<Rightarrow> ControlError + ResolvedStroke list" where
  "resolve_key_strokes strokes =
     collect_all (\<lambda>stroke.
       if list_ex (\<lambda>key. semantic_scan_code key = None) (ks_keys stroke)
       then input_resolution_error ''key has no DirectInput scan code''
       else Inr \<lparr>rs_scans = map (\<lambda>key. the (semantic_scan_code key)) (ks_keys stroke),
              rs_hold = ks_hold_ms stroke, rs_pause = ks_pause_ms stroke\<rparr>) strokes"

text \<open>The code points of a UTF-8 string: \<open>chars()\<close>.\<close>

definition continuation_bits :: "char \<Rightarrow> nat" where
  "continuation_bits c = byte c mod 64"

fun code_points :: "string \<Rightarrow> nat list" where
  "code_points (a # b # c # d # s) =
     (if byte a < 128 then byte a # code_points (b # c # d # s)
      else if byte a < 224 then (byte a mod 32 * 64 + continuation_bits b) # code_points (c # d # s)
      else if byte a < 240 then (byte a mod 16 * 4096 + continuation_bits b * 64 + continuation_bits c) # code_points (d # s)
      else (byte a mod 8 * 262144 + continuation_bits b * 4096 + continuation_bits c * 64 + continuation_bits d) # code_points s)"
| "code_points [a, b, c] =
     (if byte a < 128 then byte a # code_points [b, c]
      else if byte a < 224 then (byte a mod 32 * 64 + continuation_bits b) # code_points [c]
      else [byte a mod 16 * 4096 + continuation_bits b * 64 + continuation_bits c])"
| "code_points [a, b] = (if byte a < 128 then [byte a, byte b] else [byte a mod 32 * 64 + continuation_bits b])"
| "code_points [a] = [byte a]"
| "code_points [] = []"

text \<open>\<open>key_scan\<close> is \<^verbatim>\<open>VkKeyScanW\<close>, \<open>vk_scan\<close> is \<^verbatim>\<open>MapVirtualKeyW\<close>; both are the system's.\<close>

definition resolve_character ::
  "(nat \<Rightarrow> 16 word) \<Rightarrow> (nat \<Rightarrow> u32) \<Rightarrow> nat \<Rightarrow> ControlError + ResolvedStroke" where
  "resolve_character key_scan vk_scan character =
     (let mapping = key_scan character;
          scan = (ucast (vk_scan (unat (mapping AND 0xff))) :: u8);
          modifiers = (ucast (drop_bit 8 mapping AND 0xff) :: u8)
      in if character \<ge> 65536 \<or> mapping = -1
         then input_resolution_error ''text contains a character unsupported by the active keyboard layout''
         else if scan = 0 \<or> scan = 255
         then input_resolution_error ''text contains a character without a DirectInput scan code''
         else let held = (if modifiers AND 0x02 \<noteq> 0 then [0x1d] else [])
                     @ (if modifiers AND 0x01 \<noteq> 0 then [0x2a] else [])
                     @ (if modifiers AND 0x04 \<noteq> 0 then [0x38] else [])
              in Inr \<lparr>rs_scans = (if scan \<in> set held then held else held @ [scan]),
                   rs_hold = DEFAULT_KEY_HOLD_MS, rs_pause = DEFAULT_KEY_PAUSE_MS\<rparr>)"

definition resolve_text_strokes ::
  "(nat \<Rightarrow> 16 word) \<Rightarrow> (nat \<Rightarrow> u32) \<Rightarrow> string \<Rightarrow> bool \<Rightarrow> ControlError + ResolvedStroke list" where
  "resolve_text_strokes key_scan vk_scan txt submit =
     and_then (collect_all (resolve_character key_scan vk_scan) (code_points txt)) (\<lambda>strokes.
       Inr (strokes @ (if submit then [\<lparr>rs_scans = [0x1c], rs_hold = DEFAULT_KEY_HOLD_MS, rs_pause = 0\<rparr>] else [])))"

definition parse_u32 :: "string \<Rightarrow> nat option" where
  "parse_u32 s =
     (let digits = (case s of c # rest \<Rightarrow> if c = CHR ''+'' then rest else s | [] \<Rightarrow> [])
      in if digits \<noteq> [] \<and> list_all ascii_digit digits \<and> of_radix 10 (map (\<lambda>c. byte c - 48) digits) 0 < 2 ^ 32
         then Some (of_radix 10 (map (\<lambda>c. byte c - 48) digits) 0) else None)"

section \<open>The state\<close>

type_synonym reply = nat

datatype ActiveInputKind = KindInput InputKind | KindEqAction EqAction

datatype InputCompletion = CompletionSingle reply | CompletionBatch nat | CompletionLocal string

record ActiveInput =
  ai_pid :: nat
  ai_kind :: ActiveInputKind
  ai_strokes :: "ResolvedStroke list"
  ai_index :: nat
  ai_phase :: InputPhase
  ai_next_step :: nat
  ai_completion :: InputCompletion

record PendingBatch =
  pb_action :: EqAction
  pb_window_numbers :: "nat list"
  pb_remaining :: "nat list"
  pb_error :: "ControlError option"
  pb_reply :: reply

record TimedConsider =
  tc_result :: ConsiderResult
  tc_expires_at :: nat

datatype UiAnswer = AnswerOutcome CommandOutcome | AnswerDone

record UiState =
  ui_mapper :: SnapshotMapper
  ui_latest_sources :: "SourceClient list"
  ui_hub :: StateHub
  ui_active_inputs :: "(nat, ActiveInput) btree_map"
  ui_input_batches :: "(nat, PendingBatch) btree_map"
  ui_next_batch_id :: nat
  ui_selected_xtargets :: "(nat, nat) btree_map"
  ui_pending_considers :: "(nat, nat) btree_map"
  ui_consider_results :: "(nat, TimedConsider) btree_map"
  ui_broadcast :: "BroadcastEngine option"
  ui_timer :: bool
  ui_replies :: "(reply \<times> (ControlError + UiAnswer)) list"

text \<open>The key map resolver's errors, and what the overlay knows of its windows.\<close>

datatype ResolveError = Unbound | ReadFailed string | Malformed string

record ClientWindow =
  cw_pid :: nat
  cw_character :: "string option"
  cw_server :: "string option"
  cw_class :: "string option"
  cw_number :: nat

record CtlEnv =
  ce_win :: Win32Env
  ce_instant :: nat
  ce_reply_closed :: "reply \<Rightarrow> bool"
  ce_timer_starts :: bool
  ce_order :: "nat list \<Rightarrow> nat list"
  ce_key_scan :: "nat \<Rightarrow> 16 word"
  ce_vk_scan :: "nat \<Rightarrow> u32"
  ce_resolve :: "SourceClient \<Rightarrow> EqAction \<Rightarrow> ResolveError + u8 list"
  ce_mapped :: "SourceClient \<Rightarrow> ResolveError + EqMappingName list"
  ce_xtarget_slots :: "SourceClient \<Rightarrow> (nat \<times> string) list"
  ce_activate :: "nat \<Rightarrow> ControlError + CommandOutcome"
  ce_swap :: "nat \<Rightarrow> ControlError + CommandOutcome"
  ce_windows :: "ClientWindow list"
  ce_active_pid :: "nat option"
  ce_pips :: "nat list"

definition ui_start :: "BroadcastEngine option \<Rightarrow> UiState" where
  "ui_start engine = \<lparr>ui_mapper = mapper_new, ui_latest_sources = [], ui_hub = hub_new state_data_default,
     ui_active_inputs = [], ui_input_batches = [], ui_next_batch_id = 0, ui_selected_xtargets = [],
     ui_pending_considers = [], ui_consider_results = [], ui_broadcast = engine, ui_timer = False, ui_replies = []\<rparr>"

definition source_pid :: "SourceClient \<Rightarrow> nat" where
  "source_pid source = src_private_key source mod 2 ^ 32"

definition send_reply :: "CtlEnv \<Rightarrow> reply \<Rightarrow> ControlError + UiAnswer \<Rightarrow> UiState \<Rightarrow> UiState" where
  "send_reply env r answer st =
     (if ce_reply_closed env r then st else st\<lparr>ui_replies := ui_replies st @ [(r, answer)]\<rparr>)"

definition outcome :: "ControlError + CommandOutcome \<Rightarrow> ControlError + UiAnswer" where
  "outcome r = map_sum (\<lambda>e. e) AnswerOutcome r"

section \<open>Publishing\<close>

definition unwrap_or_default :: "'e + 'a list \<Rightarrow> 'a list" where
  "unwrap_or_default r = (case r of Inl _ \<Rightarrow> [] | Inr xs \<Rightarrow> xs)"

text \<open>An update of the first client with the given identifier.\<close>

fun update_client :: "ClientId \<Rightarrow> (ClientState \<Rightarrow> ClientState) \<Rightarrow> ClientState list \<Rightarrow> ClientState list" where
  "update_client i f [] = []"
| "update_client i f (client # clients) =
     (if cl_id client = i then f client # clients else client # update_client i f clients)"

definition transient_client :: "UiState \<Rightarrow> nat \<Rightarrow> ClientState \<Rightarrow> ClientState" where
  "transient_client st pid client = client\<lparr>cl_xtarget := (cl_xtarget client)\<lparr>
     xt_selected_slot := bm_get (ui_selected_xtargets st) pid,
     xt_consider_pending := bm_contains (ui_pending_considers st) pid,
     xt_consider := map_option tc_result (bm_get (ui_consider_results st) pid)\<rparr>\<rparr>"

definition apply_transient_xtarget_state :: "CtlEnv \<Rightarrow> UiState \<Rightarrow> ClientState list \<Rightarrow> UiState \<times> ClientState list" where
  "apply_transient_xtarget_state env st clients =
     (let now = ce_instant env;
          st1 = st\<lparr>ui_pending_considers := bm_retain_values (\<lambda>expires_at. expires_at > now) (ui_pending_considers st),
                   ui_consider_results := bm_retain_values (\<lambda>r. tc_expires_at r > now) (ui_consider_results st)\<rparr>
      in (st1, fold (\<lambda>source clients.
            case id_for_key (ui_mapper st1) (src_private_key source) of
              None \<Rightarrow> clients
            | Some client_id \<Rightarrow> update_client client_id (transient_client st1 (source_pid source)) clients)
          (ui_latest_sources st1) clients))"

definition publish_transient_snapshot :: "CtlEnv \<Rightarrow> UiState \<Rightarrow> UiState" where
  "publish_transient_snapshot env st =
     (let data = snapshot_data (hub_current (ui_hub st));
          (st1, clients) = apply_transient_xtarget_state env st (sd_clients data)
      in st1\<lparr>ui_hub := snd (hub_publish (data\<lparr>sd_clients := clients\<rparr>) (ui_hub st1))\<rparr>)"

text \<open>One client's extended targets, with the slot selected for it kept inside the configured ones.\<close>

definition enrich_source :: "CtlEnv \<Rightarrow> SourceClient \<Rightarrow> UiState \<times> ClientState list \<Rightarrow> UiState \<times> ClientState list" where
  "enrich_source env source acc =
     (let (st, clients) = acc
      in case id_for_key (ui_mapper st) (src_private_key source) of
           None \<Rightarrow> acc
         | Some client_id \<Rightarrow>
             let mapped = unwrap_or_default (ce_mapped env source);
                 slots = map (\<lambda>(slot, label). \<lparr>xt_slot = slot, xt_label = label,
                   xt_bound = ((''TARGET_XTARGET_'' @ nat_to_dec slot) \<in> set mapped)\<rparr>) (ce_xtarget_slots env source);
                 pid = source_pid source;
                 selected = (if slots = [] then bm_remove pid (ui_selected_xtargets st)
                   else if is_some_and (bm_get (ui_selected_xtargets st) pid) (\<lambda>n. list_ex (\<lambda>slot. xt_slot slot = n) slots)
                   then ui_selected_xtargets st
                   else bm_insert pid (xt_slot (hd slots)) (ui_selected_xtargets st))
             in (st\<lparr>ui_selected_xtargets := selected\<rparr>,
                 update_client client_id (\<lambda>client. client\<lparr>cl_xtarget := (cl_xtarget client)\<lparr>xt_slots := slots,
                   xt_consider_bound := (''CONSIDER'' \<in> set mapped)\<rparr>\<rparr>) clients))"

definition bm_retain_keys :: "('k \<Rightarrow> bool) \<Rightarrow> ('k, 'v) btree_map \<Rightarrow> ('k, 'v) btree_map" where
  "bm_retain_keys P m = filter (\<lambda>(k, _). P k) m"

definition enrich_xtarget_state :: "CtlEnv \<Rightarrow> UiState \<Rightarrow> ClientState list \<Rightarrow> UiState \<times> ClientState list" where
  "enrich_xtarget_state env st clients =
     (let live = source_pid ` set (ui_latest_sources st);
          st1 = st\<lparr>ui_selected_xtargets := bm_retain_keys (\<lambda>pid. pid \<in> live) (ui_selected_xtargets st),
                   ui_pending_considers := bm_retain_keys (\<lambda>pid. pid \<in> live) (ui_pending_considers st),
                   ui_consider_results := bm_retain_keys (\<lambda>pid. pid \<in> live) (ui_consider_results st)\<rparr>;
          (st2, clients') = fold (enrich_source env) (ui_latest_sources st1) (st1, clients)
      in apply_transient_xtarget_state env st2 clients')"

definition control_publish :: "CtlEnv \<Rightarrow> SourceClient list \<Rightarrow> BroadcastState \<Rightarrow> MouseClutchState \<Rightarrow> UiState \<Rightarrow> UiState" where
  "control_publish env sources broadcast mouse_clutch st =
     (let (data, mapper) = mapper_map (ce_order env) sources broadcast (ui_mapper st);
          data1 = data\<lparr>sd_mouse_clutch := mouse_clutch,
            sd_capabilities := (sd_capabilities data)\<lparr>can_set_mouse_clutch := (ui_broadcast st \<noteq> None)\<rparr>\<rparr>;
          (st1, clients) = enrich_xtarget_state env (st\<lparr>ui_mapper := mapper, ui_latest_sources := sources\<rparr>) (sd_clients data1)
      in st1\<lparr>ui_hub := snd (hub_publish (data1\<lparr>sd_clients := clients\<rparr>) (ui_hub st1))\<rparr>)"

text \<open>\<^verbatim>\<open>control_bridge::publish\<close>, called by \<^verbatim>\<open>overlay::broadcast_state_changed\<close>.\<close>

definition window_source :: "CtlEnv \<Rightarrow> BroadcastEngine option \<Rightarrow> ClientWindow \<Rightarrow> SourceClient" where
  "window_source env engine window = \<lparr>src_private_key = cw_pid window, src_character = cw_character window,
     src_server = cw_server window, src_class_code = cw_class window, src_window_number = cw_number window,
     src_active = (ce_active_pid env = Some (cw_pid window)),
     src_activatable = (ce_active_pid env = Some (cw_pid window) \<or> cw_pid window \<in> set (ce_pips env)),
     src_input_ready = is_target_ready (cw_pid window) engine\<rparr>"

definition bridge_clutch :: "CtlEnv \<Rightarrow> BroadcastEngine option \<Rightarrow> MouseClutchState" where
  "bridge_clutch env engine = \<lparr>mc_phase = (case map_option (clutch_status \<circ> be_clutch) engine of
       Some StatusActive \<Rightarrow> ClutchActive | Some StatusReleasing \<Rightarrow> ClutchReleasing | _ \<Rightarrow> ClutchInactive),
     mc_availability = (case mouse_clutch_availability (ce_win env) engine of
         AvailReady \<Rightarrow> ClutchReady | AvailNoActiveClient \<Rightarrow> NoActiveClient
       | AvailNoCompatibleTargets \<Rightarrow> NoCompatibleTargets | AvailInputUnavailable \<Rightarrow> ClutchInputUnavailable)\<rparr>"

definition broadcast_state_changed :: "CtlEnv \<Rightarrow> UiState \<Rightarrow> UiState" where
  "broadcast_state_changed env st =
     control_publish env (map (window_source env (ui_broadcast st)) (ce_windows env))
       \<lparr>bc_available = (ui_broadcast st \<noteq> None), bc_enabled = is_some_and (ui_broadcast st) be_broadcasting\<rparr>
       (bridge_clutch env (ui_broadcast st)) st"

section \<open>Resolving clients\<close>

definition source_matches :: "UiState \<Rightarrow> ClientTarget \<Rightarrow> SourceClient \<Rightarrow> bool" where
  "source_matches st target source =
     (case target of
        TargetId i \<Rightarrow> id_for_key (ui_mapper st) (src_private_key source) = Some i
      | TargetWindowNumber number \<Rightarrow> src_window_number source = number
      | TargetIdentity character server \<Rightarrow>
          is_some_and (src_character source) (\<lambda>actual. eq_ignore_ascii_case actual character)
          \<and> is_none_or server (\<lambda>expected. is_some_and (src_server source) (\<lambda>actual. eq_ignore_ascii_case actual expected)))"

definition resolve_target_private_key :: "UiState \<Rightarrow> ClientTarget \<Rightarrow> ControlError + nat" where
  "resolve_target_private_key st target =
     (case filter (source_matches st target) (ui_latest_sources st) of
        [] \<Rightarrow> (case target of
            TargetId i \<Rightarrow> if is_retired (ui_mapper st) i then refuse TargetDisappeared ''the target is no longer loaded''
              else refuse ClientNotFound ''no loaded client matches the target''
          | _ \<Rightarrow> refuse ClientNotFound ''no loaded client matches the target'')
      | [source] \<Rightarrow> Inr (src_private_key source)
      | _ \<Rightarrow> refuse AmbiguousTarget ''more than one loaded client matches the target'')"

definition lookup_input_source :: "UiState \<Rightarrow> ClientId \<Rightarrow> ControlError + SourceClient" where
  "lookup_input_source st client_id =
     (case find (\<lambda>source. id_for_key (ui_mapper st) (src_private_key source) = Some client_id) (ui_latest_sources st) of
        Some source \<Rightarrow> Inr source
      | None \<Rightarrow> refuse (if is_retired (ui_mapper st) client_id then TargetDisappeared else ClientNotFound)
          ''the target client is not loaded'')"

definition ensure_input_source_ready :: "UiState \<Rightarrow> SourceClient \<Rightarrow> ControlError + unit" where
  "ensure_input_source_ready st source =
     (if ui_broadcast st = None
      then refuse InputUnavailable ''targeted input is unavailable because trusik is disabled''
      else if \<not> is_target_ready (source_pid source) (ui_broadcast st)
      then refuse InputUnavailable
        (''targeted input is unavailable because the selected client'' @ [CHR 0x27] @ ''s trusik proxy is not ready'')
      else Inr ())"

definition resolve_input_source :: "UiState \<Rightarrow> ClientId \<Rightarrow> ControlError + SourceClient" where
  "resolve_input_source st client_id =
     and_then (lookup_input_source st client_id) (\<lambda>source.
       and_then (ensure_input_source_ready st source) (\<lambda>_. Inr source))"

definition resolve_input_pid :: "UiState \<Rightarrow> ClientId \<Rightarrow> ControlError + nat" where
  "resolve_input_pid st client_id = map_sum (\<lambda>e. e) source_pid (resolve_input_source st client_id)"

definition map_eq_action_error :: "ResolveError \<Rightarrow> ControlError" where
  "map_eq_action_error error =
     (case error of
        Unbound \<Rightarrow> control_error EqActionUnbound ''the selected EQ action has no primary or alternate key binding''
      | ReadFailed message \<Rightarrow> control_error InputOperationFailed message
      | Malformed message \<Rightarrow> control_error InputOperationFailed message)"

definition resolve_action_for_source :: "CtlEnv \<Rightarrow> SourceClient \<Rightarrow> EqAction \<Rightarrow> ControlError + u8 list" where
  "resolve_action_for_source env source action = map_sum map_eq_action_error (\<lambda>scans. scans) (ce_resolve env source action)"

definition mapped_actions_for_source :: "CtlEnv \<Rightarrow> SourceClient \<Rightarrow> ControlError + EqMappingName list" where
  "mapped_actions_for_source env source = map_sum map_eq_action_error (\<lambda>mapped. mapped) (ce_mapped env source)"

definition source_cmp :: "SourceClient \<Rightarrow> SourceClient \<Rightarrow> ordering" where
  "source_cmp a b = cmp (src_window_number a) (src_window_number b)"

definition select_sources_for_targets :: "SourceClient list \<Rightarrow> EqActionTargets \<Rightarrow> bool \<Rightarrow> ControlError + SourceClient list" where
  "select_sources_for_targets latest_sources targets require_all =
     (let active_key = map_option src_private_key (find src_active latest_sources)
      in if (targets = TargetsActive \<or> targets = BackgroundLoaded) \<and> active_key = None
         then refuse ClientNotFound ''no active client is available for the dynamic EQ action target''
         else let sources = sort_by source_cmp (filter (\<lambda>source. case targets of
                      AllLoaded \<Rightarrow> True
                    | TargetsActive \<Rightarrow> active_key = Some (src_private_key source)
                    | BackgroundLoaded \<Rightarrow> active_key \<noteq> Some (src_private_key source)
                    | WindowNumbers numbers \<Rightarrow> src_window_number source \<in> set numbers) latest_sources)
              in if \<not> require_all then Inr sources
                 else (case targets of
                     AllLoaded \<Rightarrow> if sources = [] then refuse ClientNotFound ''no loaded clients match the all-boxes target'' else Inr sources
                   | BackgroundLoaded \<Rightarrow> if sources = []
                       then refuse ClientNotFound ''no loaded clients match the background-boxes target'' else Inr sources
                   | WindowNumbers numbers \<Rightarrow>
                       if length sources \<noteq> length numbers
                       then refuse ClientNotFound (''Stonemite box ''
                         @ nat_to_dec (unwrap_or (find (\<lambda>n. \<not> list_ex (\<lambda>source. src_window_number source = n) sources) numbers) 0)
                         @ '' is not loaded'')
                       else Inr sources
                   | TargetsActive \<Rightarrow> Inr sources))"

section \<open>The sequence of one input\<close>

definition map_targeted_input_error :: "TargetedInputError \<Rightarrow> ControlError" where
  "map_targeted_input_error error =
     (case error of
        TargetedUnavailable message \<Rightarrow> control_error InputUnavailable message
      | TargetedOperationFailed message \<Rightarrow> control_error InputOperationFailed message)"

definition complete_stroke :: "ActiveInput \<Rightarrow> nat \<Rightarrow> ActiveInput" where
  "complete_stroke input now =
     (if ai_index input + 1 = length (ai_strokes input)
      then input\<lparr>ai_phase := PhaseFinish, ai_next_step := now + INPUT_RELEASE_DELAY\<rparr>
      else input\<lparr>ai_index := ai_index input + 1, ai_phase := PhasePress,
              ai_next_step := now + rs_pause (ai_strokes input ! ai_index input)\<rparr>)"

text \<open>The phase after the keys of a phase were written.\<close>

definition next_phase :: "ActiveInput \<Rightarrow> nat \<Rightarrow> ActiveInput" where
  "next_phase input now =
     (let stroke = ai_strokes input ! ai_index input; modifier_chord = has_modifier_chord stroke
      in case ai_phase input of
           PhasePress \<Rightarrow>
             if modifier_chord then input\<lparr>ai_phase := PhasePressChord, ai_next_step := now + INPUT_MODIFIER_DELAY\<rparr>
             else input\<lparr>ai_phase := PhaseRelease, ai_next_step := now + rs_hold stroke\<rparr>
         | PhasePressChord \<Rightarrow> input\<lparr>ai_phase := PhaseRelease, ai_next_step := now + rs_hold stroke\<rparr>
         | PhaseRelease \<Rightarrow>
             if modifier_chord then input\<lparr>ai_phase := PhaseReleaseModifiers, ai_next_step := now + INPUT_MODIFIER_DELAY\<rparr>
             else complete_stroke input now
         | PhaseReleaseModifiers \<Rightarrow> complete_stroke input now
         | PhaseFinish \<Rightarrow> input)"

text \<open>The keys of a phase, up to the first error.\<close>

fun write_keys :: "nat \<Rightarrow> bool \<Rightarrow> u8 list \<Rightarrow> BroadcastEngine option \<Rightarrow> ((string + unit) \<times> BroadcastEngine option) option" where
  "write_keys pid pressed [] engine = Some (Inr (), engine)"
| "write_keys pid pressed (scan # scans) engine =
     Option.bind (set_targeted_key pid (unat scan) pressed engine) (\<lambda>(r, engine').
       case r of Inl message \<Rightarrow> Some (Inl message, engine') | Inr _ \<Rightarrow> write_keys pid pressed scans engine')"

definition pressing :: "InputPhase \<Rightarrow> bool" where
  "pressing phase = (phase = PhasePress \<or> phase = PhasePressChord)"

definition input_completion_is_closed :: "CtlEnv \<Rightarrow> UiState \<Rightarrow> InputCompletion \<Rightarrow> bool" where
  "input_completion_is_closed env st completion =
     (case completion of
        CompletionSingle r \<Rightarrow> ce_reply_closed env r
      | CompletionBatch batch_id \<Rightarrow> is_none_or (bm_get (ui_input_batches st) batch_id) (\<lambda>batch. ce_reply_closed env (pb_reply batch))
      | CompletionLocal _ \<Rightarrow> False)"

text \<open>The part of \<open>finish_input\<close> that reports the result.\<close>

definition batch_answer :: "PendingBatch \<Rightarrow> ControlError + UiAnswer" where
  "batch_answer batch = (case pb_error batch of
       Some error \<Rightarrow> Inl error
     | None \<Rightarrow> Inr (AnswerOutcome (EqActionBatchDelivered (pb_action batch) (pb_window_numbers batch))))"

definition batch_note :: "nat \<Rightarrow> (ControlError + CommandOutcome) option \<Rightarrow> PendingBatch \<Rightarrow> PendingBatch" where
  "batch_note pid result batch =
     (let batch1 = batch\<lparr>pb_remaining := removeAll pid (pb_remaining batch)\<rparr>
      in case result of
           Some (Inl error) \<Rightarrow> batch1\<lparr>pb_error := (case pb_error batch1 of
               None \<Rightarrow> Some (error\<lparr>err_message := err_message error @ ''; one or more targets may have received the action''\<rparr>)
             | Some first \<Rightarrow> Some first)\<rparr>
         | _ \<Rightarrow> batch1)"

definition report_result :: "CtlEnv \<Rightarrow> nat \<Rightarrow> InputCompletion \<Rightarrow> (ControlError + CommandOutcome) option \<Rightarrow> UiState \<Rightarrow> UiState" where
  "report_result env pid completion result st =
     (case completion of
        CompletionSingle r \<Rightarrow> (case result of None \<Rightarrow> st | Some answer \<Rightarrow> send_reply env r (outcome answer) st)
      | CompletionBatch batch_id \<Rightarrow>
          (case bm_get (ui_input_batches st) batch_id of
             None \<Rightarrow> st
           | Some batch \<Rightarrow>
               let batch1 = batch_note pid result batch
               in if pb_remaining batch1 = []
                  then send_reply env (pb_reply batch1) (batch_answer batch1)
                         (st\<lparr>ui_input_batches := bm_remove batch_id (ui_input_batches st)\<rparr>)
                  else st\<lparr>ui_input_batches := bm_insert batch_id batch1 (ui_input_batches st)\<rparr>)
      | CompletionLocal _ \<Rightarrow> st)"

definition finish_input :: "CtlEnv \<Rightarrow> ActiveInput \<Rightarrow> (ControlError + CommandOutcome) option \<Rightarrow> UiState \<Rightarrow> UiState option" where
  "finish_input env input result st = do {
     engine \<leftarrow> finish_targeted_input (ai_pid input) (ui_broadcast st);
     Some (report_result env (ai_pid input) (ai_completion input) result (st\<lparr>ui_broadcast := engine\<rparr>))
   }"

definition xtarget_slot_from_mapping :: "EqMappingName \<Rightarrow> nat option" where
  "xtarget_slot_from_mapping mapping =
     Option.bind (Option.bind (strip_prefix ''TARGET_XTARGET_'' mapping) parse_u8)
       (\<lambda>slot. if 1 \<le> slot \<and> slot \<le> MAX_XTARGET_SLOTS then Some slot else None)"

definition note_xtarget_rotation :: "CtlEnv \<Rightarrow> nat \<Rightarrow> UiState \<Rightarrow> UiState" where
  "note_xtarget_rotation env pid st = publish_transient_snapshot env
     (st\<lparr>ui_pending_considers := bm_remove pid (ui_pending_considers st),
         ui_consider_results := bm_remove pid (ui_consider_results st)\<rparr>)"

definition note_eq_action_started :: "CtlEnv \<Rightarrow> nat \<Rightarrow> EqAction \<Rightarrow> UiState \<Rightarrow> UiState" where
  "note_eq_action_started env pid action st =
     (if eq_action_mapping_name action \<noteq> ''CONSIDER'' then st
      else publish_transient_snapshot env
        (st\<lparr>ui_pending_considers := bm_insert pid (ce_instant env + CONSIDER_REQUEST_TTL) (ui_pending_considers st),
            ui_consider_results := bm_remove pid (ui_consider_results st)\<rparr>))"

definition note_eq_action_delivered :: "CtlEnv \<Rightarrow> nat \<Rightarrow> EqAction \<Rightarrow> UiState \<Rightarrow> UiState" where
  "note_eq_action_delivered env pid action st =
     (case xtarget_slot_from_mapping (eq_action_mapping_name action) of
        None \<Rightarrow> st
      | Some slot \<Rightarrow> publish_transient_snapshot env
          (st\<lparr>ui_selected_xtargets := bm_insert pid slot (ui_selected_xtargets st)\<rparr>))"

definition delivered_outcome :: "ActiveInput \<Rightarrow> CommandOutcome" where
  "delivered_outcome input =
     (case ai_kind input of
        KindInput kind \<Rightarrow> InputDelivered kind (length (ai_strokes input))
      | KindEqAction action \<Rightarrow> EqActionDelivered action)"

definition advance_one_input :: "CtlEnv \<Rightarrow> ActiveInput \<Rightarrow> UiState \<Rightarrow> UiState option" where
  "advance_one_input env input st =
     (if input_completion_is_closed env st (ai_completion input) then finish_input env input None st
      else if \<not> list_ex (\<lambda>source. source_pid source = ai_pid input) (ui_latest_sources st)
      then finish_input env input (Some (refuse TargetDisappeared ''the target disappeared during input delivery'')) st
      else if ce_instant env < ai_next_step input
      then Some (st\<lparr>ui_active_inputs := bm_insert (ai_pid input) input (ui_active_inputs st)\<rparr>)
      else if ai_phase input = PhaseFinish
      then finish_input env input (Some (Inr (delivered_outcome input)))
             (case ai_kind input of KindEqAction action \<Rightarrow> note_eq_action_delivered env (ai_pid input) action st
                                  | KindInput _ \<Rightarrow> st)
      else do {
        (r, engine) \<leftarrow> write_keys (ai_pid input) (pressing (ai_phase input))
                         (phase_scans (ai_strokes input ! ai_index input) (ai_phase input)) (ui_broadcast st);
        let st1 = st\<lparr>ui_broadcast := engine\<rparr>;
        case r of
          Inl message \<Rightarrow> finish_input env input (Some (refuse InputOperationFailed message)) st1
        | Inr _ \<Rightarrow> Some (st1\<lparr>ui_active_inputs := bm_insert (ai_pid input) (next_phase input (ce_instant env)) (ui_active_inputs st1)\<rparr>)
      })"

text \<open>\<open>std::mem::take\<close> empties the map; the inputs are visited in the order of the hash map.\<close>

fun advance_all :: "CtlEnv \<Rightarrow> ActiveInput list \<Rightarrow> UiState \<Rightarrow> UiState option" where
  "advance_all env [] st = Some st"
| "advance_all env (input # inputs) st = Option.bind (advance_one_input env input st) (advance_all env inputs)"

definition kill_timer_if_idle :: "UiState \<Rightarrow> UiState" where
  "kill_timer_if_idle st = (if ui_active_inputs st = [] then st\<lparr>ui_timer := False\<rparr> else st)"

definition advance_input :: "CtlEnv \<Rightarrow> UiState \<Rightarrow> UiState option" where
  "advance_input env st =
     (if ui_active_inputs st = [] then Some (kill_timer_if_idle st)
      else map_option kill_timer_if_idle
        (advance_all env (map (\<lambda>pid. the (bm_get (ui_active_inputs st) pid)) (ce_order env (bm_keys (ui_active_inputs st))))
          (st\<lparr>ui_active_inputs := []\<rparr>)))"

section \<open>Starting inputs\<close>

text \<open>The timer runs while there are active inputs; \<open>SetTimer\<close> may fail.\<close>

definition ensure_timer :: "CtlEnv \<Rightarrow> UiState \<Rightarrow> UiState option" where
  "ensure_timer env st =
     (if ui_active_inputs st \<noteq> [] then Some st
      else if ce_timer_starts env then Some (st\<lparr>ui_timer := True\<rparr>) else None)"

definition timer_failed :: "ControlError + 'a" where
  "timer_failed = refuse InputOperationFailed ''failed to start the targeted input timer''"

definition new_input :: "CtlEnv \<Rightarrow> nat \<Rightarrow> ActiveInputKind \<Rightarrow> ResolvedStroke list \<Rightarrow> InputCompletion \<Rightarrow> ActiveInput" where
  "new_input env pid kind strokes completion = \<lparr>ai_pid = pid, ai_kind = kind, ai_strokes = strokes, ai_index = 0,
     ai_phase = PhasePress, ai_next_step = ce_instant env + INPUT_ACTIVATION_DELAY, ai_completion = completion\<rparr>"

text \<open>Taking the target and the timer; whoever fails gives the target back.\<close>

definition acquire_input ::
  "CtlEnv \<Rightarrow> nat \<Rightarrow> UiState \<Rightarrow> ((ControlError + unit) \<times> UiState) option" where
  "acquire_input env pid st =
     (let (begun, engine) = begin_targeted_input pid (ui_broadcast st); st1 = st\<lparr>ui_broadcast := engine\<rparr>
      in case begun of
           Inl error \<Rightarrow> Some (Inl (map_targeted_input_error error), st1)
         | Inr _ \<Rightarrow>
             (case ensure_timer env st1 of
                Some st2 \<Rightarrow> Some (Inr (), st2)
              | None \<Rightarrow> map_option (\<lambda>engine'. (timer_failed, st1\<lparr>ui_broadcast := engine'\<rparr>))
                  (finish_targeted_input pid engine)))"

definition start_resolved_input ::
  "CtlEnv \<Rightarrow> ClientId \<Rightarrow> ActiveInputKind \<Rightarrow> ResolvedStroke list \<Rightarrow> reply \<Rightarrow> UiState
   \<Rightarrow> ((ControlError + unit) \<times> UiState) option" where
  "start_resolved_input env client_id kind strokes r st =
     (if ce_reply_closed env r then Some (Inr (), st)
      else case resolve_input_pid st client_id of
        Inl error \<Rightarrow> Some (Inl error, st)
      | Inr pid \<Rightarrow>
          if bm_contains (ui_active_inputs st) pid
          then Some (refuse InputOperationFailed ''the selected target already has an input sequence in progress'', st)
          else do {
            (acquired, st1) \<leftarrow> acquire_input env pid st;
            case acquired of
              Inl error \<Rightarrow> Some (Inl error, st1)
            | Inr _ \<Rightarrow> Some (Inr (), st1\<lparr>ui_active_inputs :=
                bm_insert pid (new_input env pid kind strokes (CompletionSingle r)) (ui_active_inputs st1)\<rparr>)
          })"

definition answer_error :: "CtlEnv \<Rightarrow> reply \<Rightarrow> ControlError \<Rightarrow> UiState \<Rightarrow> UiState" where
  "answer_error env r error = send_reply env r (Inl error)"

definition start_input ::
  "CtlEnv \<Rightarrow> ClientId \<Rightarrow> ActiveInputKind \<Rightarrow> ControlError + ResolvedStroke list \<Rightarrow> reply \<Rightarrow> UiState \<Rightarrow> UiState option" where
  "start_input env client_id kind resolved r st =
     (case resolved of
        Inl error \<Rightarrow> Some (answer_error env r error st)
      | Inr strokes \<Rightarrow> map_option (\<lambda>(started, st1). case started of Inl error \<Rightarrow> answer_error env r error st1 | Inr _ \<Rightarrow> st1)
          (start_resolved_input env client_id kind strokes r st))"

definition start_text_input :: "CtlEnv \<Rightarrow> ClientId \<Rightarrow> string \<Rightarrow> bool \<Rightarrow> reply \<Rightarrow> UiState \<Rightarrow> UiState option" where
  "start_text_input env client_id txt submit r =
     start_input env client_id (KindInput InputText)
       (and_then (validate_text_input txt) (\<lambda>_. resolve_text_strokes (ce_key_scan env) (ce_vk_scan env) txt submit)) r"

definition start_key_input :: "CtlEnv \<Rightarrow> ClientId \<Rightarrow> KeyStroke list \<Rightarrow> reply \<Rightarrow> UiState \<Rightarrow> UiState option" where
  "start_key_input env client_id strokes r =
     start_input env client_id (KindInput InputKeys)
       (and_then (validate_key_strokes strokes) (\<lambda>_. resolve_key_strokes strokes)) r"

definition action_stroke :: "u8 list \<Rightarrow> ResolvedStroke" where
  "action_stroke scans = \<lparr>rs_scans = scans, rs_hold = DEFAULT_KEY_HOLD_MS, rs_pause = 0\<rparr>"

definition start_eq_action :: "CtlEnv \<Rightarrow> ClientId \<Rightarrow> EqAction \<Rightarrow> reply \<Rightarrow> UiState \<Rightarrow> UiState option" where
  "start_eq_action env client_id action r st =
     (case eq_action_validate action of
        Inl error \<Rightarrow> Some (answer_error env r error st)
      | Inr _ \<Rightarrow>
          (case lookup_input_source st client_id of
             Inl error \<Rightarrow> Some (answer_error env r error st)
           | Inr source \<Rightarrow>
               let pid = source_pid source;
                   st1 = (if xtarget_slot_from_mapping (eq_action_mapping_name action) \<noteq> None
                          then note_xtarget_rotation env pid st else st)
               in (case and_then (ensure_input_source_ready st1 source) (\<lambda>_. resolve_action_for_source env source action) of
                     Inl error \<Rightarrow> Some (answer_error env r error st1)
                   | Inr scans \<Rightarrow> map_option (\<lambda>(started, st2). case started of
                         Inl error \<Rightarrow> answer_error env r error st2
                       | Inr _ \<Rightarrow> note_eq_action_started env pid action st2)
                       (start_resolved_input env client_id (KindEqAction action) [action_stroke scans] r st1))))"

text \<open>Invite and follow, on behalf of the local user.\<close>

definition resolve_local_eq_action :: "CtlEnv \<Rightarrow> nat \<Rightarrow> EqAction \<Rightarrow> UiState \<Rightarrow> ControlError + ResolvedStroke" where
  "resolve_local_eq_action env pid action st =
     and_then (eq_action_validate action) (\<lambda>_.
       if ui_broadcast st = None
       then refuse InputUnavailable ''targeted input is unavailable because trusik is disabled''
       else if \<not> is_target_ready pid (ui_broadcast st)
       then refuse InputUnavailable ''targeted input is unavailable for this EQ client''
       else if bm_contains (ui_active_inputs st) pid
       then refuse InputOperationFailed ''the selected target already has an input sequence in progress''
       else case find (\<lambda>source. source_pid source = pid) (ui_latest_sources st) of
         None \<Rightarrow> refuse ClientNotFound ''the target is not loaded''
       | Some source \<Rightarrow> map_sum (\<lambda>e. e) action_stroke (resolve_action_for_source env source action))"

definition invite_follow_available :: "CtlEnv \<Rightarrow> nat \<Rightarrow> UiState \<Rightarrow> bool" where
  "invite_follow_available env pid st = (\<not> isl (resolve_local_eq_action env pid InviteFollow st))"

definition send_invite_follow :: "CtlEnv \<Rightarrow> nat \<Rightarrow> UiState \<Rightarrow> ((ControlError + unit) \<times> UiState) option" where
  "send_invite_follow env pid st =
     (case resolve_local_eq_action env pid InviteFollow st of
        Inl error \<Rightarrow> Some (Inl error, st)
      | Inr stroke \<Rightarrow> do {
          (acquired, st1) \<leftarrow> acquire_input env pid st;
          case acquired of
            Inl error \<Rightarrow> Some (Inl error, st1)
          | Inr _ \<Rightarrow> Some (Inr (), st1\<lparr>ui_active_inputs := bm_insert pid
              (new_input env pid (KindEqAction InviteFollow) [stroke]
                (CompletionLocal ''Could not accept the group invitation'')) (ui_active_inputs st1)\<rparr>)
        })"

section \<open>Batches\<close>

record PreparedBatchInput =
  pi_pid :: nat
  pi_window_number :: nat
  pi_stroke :: ResolvedStroke

definition prepare_batch_input :: "CtlEnv \<Rightarrow> UiState \<Rightarrow> EqAction \<Rightarrow> SourceClient \<Rightarrow> ControlError + PreparedBatchInput" where
  "prepare_batch_input env st action source =
     (let pid = source_pid source; box = ''Stonemite box '' @ nat_to_dec (src_window_number source)
      in if \<not> is_target_ready pid (ui_broadcast st)
         then refuse InputUnavailable (''targeted input is unavailable because '' @ box @ '' is not ready'')
         else if bm_contains (ui_active_inputs st) pid
         then refuse InputOperationFailed (box @ '' already has an input sequence in progress'')
         else case resolve_action_for_source env source action of
           Inl error \<Rightarrow> if err_code error = EqActionUnbound
             then refuse EqActionUnbound (''the selected EQ action is not mapped for '' @ box) else Inl error
         | Inr scans \<Rightarrow> Inr \<lparr>pi_pid = pid, pi_window_number = src_window_number source, pi_stroke = action_stroke scans\<rparr>)"

definition prepare_eq_action_batch :: "CtlEnv \<Rightarrow> EqActionTargets \<Rightarrow> EqAction \<Rightarrow> UiState \<Rightarrow> ControlError + PreparedBatchInput list" where
  "prepare_eq_action_batch env targets action st =
     and_then (eq_action_targets_validate targets) (\<lambda>_.
       and_then (eq_action_validate action) (\<lambda>_.
         if ui_broadcast st = None
         then refuse InputUnavailable ''targeted input is unavailable because trusik is disabled''
         else and_then (select_sources_for_targets (ui_latest_sources st) targets True)
           (collect_all (prepare_batch_input env st action))))"

text \<open>Taking every target; on the first failure the ones already taken are given back.\<close>

fun finish_all :: "nat list \<Rightarrow> BroadcastEngine option \<Rightarrow> BroadcastEngine option option" where
  "finish_all [] engine = Some engine"
| "finish_all (pid # pids) engine = Option.bind (finish_targeted_input pid engine) (finish_all pids)"

fun acquire_all :: "nat list \<Rightarrow> nat list \<Rightarrow> BroadcastEngine option \<Rightarrow> ((ControlError + unit) \<times> BroadcastEngine option) option" where
  "acquire_all acquired [] engine = Some (Inr (), engine)"
| "acquire_all acquired (pid # pids) engine =
     (let (begun, engine') = begin_targeted_input pid engine
      in case begun of
           Inl error \<Rightarrow> map_option (Pair (Inl (map_targeted_input_error error))) (finish_all acquired engine')
         | Inr _ \<Rightarrow> acquire_all (acquired @ [pid]) pids engine')"

fun insert_unique_nat :: "nat \<Rightarrow> nat list \<Rightarrow> nat list" where
  "insert_unique_nat pid pids = (if pid \<in> set pids then pids else pids @ [pid])"

definition register_batch :: "CtlEnv \<Rightarrow> EqAction \<Rightarrow> PreparedBatchInput list \<Rightarrow> reply \<Rightarrow> UiState \<Rightarrow> UiState" where
  "register_batch env action prepared r st =
     (let batch_id = u64_saturating_add (ui_next_batch_id st) 1;
          batch = \<lparr>pb_action = action, pb_window_numbers = sort (map pi_window_number prepared),
            pb_remaining = fold insert_unique_nat (map pi_pid prepared) [], pb_error = None, pb_reply = r\<rparr>
      in st\<lparr>ui_next_batch_id := batch_id, ui_input_batches := bm_insert batch_id batch (ui_input_batches st),
           ui_active_inputs := fold (\<lambda>input. bm_insert (pi_pid input)
             (new_input env (pi_pid input) (KindEqAction action) [pi_stroke input] (CompletionBatch batch_id)))
             prepared (ui_active_inputs st)\<rparr>)"

definition start_eq_action_batch :: "CtlEnv \<Rightarrow> EqActionTargets \<Rightarrow> EqAction \<Rightarrow> reply \<Rightarrow> UiState \<Rightarrow> UiState option" where
  "start_eq_action_batch env targets action r st =
     (if ce_reply_closed env r then Some st
      else case prepare_eq_action_batch env targets action st of
        Inl error \<Rightarrow> Some (answer_error env r error st)
      | Inr prepared \<Rightarrow> do {
          (acquired, engine) \<leftarrow> acquire_all [] (map pi_pid prepared) (ui_broadcast st);
          let st1 = st\<lparr>ui_broadcast := engine\<rparr>;
          case acquired of
            Inl error \<Rightarrow> Some (answer_error env r error st1)
          | Inr _ \<Rightarrow>
              (case ensure_timer env st1 of
                 Some st2 \<Rightarrow> Some (register_batch env action prepared r st2)
               | None \<Rightarrow> map_option (\<lambda>engine'. send_reply env r timer_failed (st1\<lparr>ui_broadcast := engine'\<rparr>))
                   (finish_all (map pi_pid prepared) engine))
        })"

fun share_mappings :: "CtlEnv \<Rightarrow> EqMappingName list option \<Rightarrow> SourceClient list \<Rightarrow> ControlError + EqMappingName list" where
  "share_mappings env shared [] = Inr (unwrap_or shared [])"
| "share_mappings env shared (source # sources) =
     and_then (mapped_actions_for_source env source) (\<lambda>mapped.
       share_mappings env (Some (case shared of None \<Rightarrow> mapped | Some old \<Rightarrow> filter (\<lambda>m. m \<in> set mapped) old)) sources)"

definition list_eq_keymap_actions_on_ui ::
  "CtlEnv \<Rightarrow> EqActionTargets \<Rightarrow> EqMappingName option \<Rightarrow> UiState \<Rightarrow> ControlError + CommandOutcome" where
  "list_eq_keymap_actions_on_ui env targets after st =
     and_then (eq_action_targets_validate targets) (\<lambda>_.
       and_then (select_sources_for_targets (ui_latest_sources st) targets False) (\<lambda>sources.
         and_then (share_mappings env None sources) (\<lambda>shared.
           let mappings = (case after of None \<Rightarrow> shared | Some a \<Rightarrow> filter (\<lambda>m. m > a) shared);
               next_after = (if length mappings > EQ_KEYMAP_PAGE_SIZE then Some (mappings ! (EQ_KEYMAP_PAGE_SIZE - 1)) else None)
           in Inr (EqKeymapActionsListed (take EQ_KEYMAP_PAGE_SIZE mappings)
                (sort (map src_window_number sources)) next_after))))"

section \<open>Commands\<close>

datatype UiCommand =
    UiActivate ClientTarget reply
  | UiSwapWindowNumbers ClientTarget reply
  | UiSetBroadcast bool reply
  | UiUpdateMouseClutchHold MouseClutchOwner MouseClutchOperation nat reply
  | UiEndMouseClutchSession nat nat reply
  | UiSendText ClientId string bool reply
  | UiSendKeys ClientId "KeyStroke list" reply
  | UiSendEqAction ClientId EqAction reply
  | UiListEqKeymapActions EqActionTargets "EqMappingName option" reply
  | UiSendEqActionBatch EqActionTargets EqAction reply

definition activate_on_ui :: "CtlEnv \<Rightarrow> ClientTarget \<Rightarrow> UiState \<Rightarrow> ControlError + CommandOutcome" where
  "activate_on_ui env target st = and_then (resolve_target_private_key st target) (\<lambda>key. ce_activate env (key mod 2 ^ 32))"

definition swap_window_numbers_on_ui :: "CtlEnv \<Rightarrow> ClientTarget \<Rightarrow> UiState \<Rightarrow> ControlError + CommandOutcome" where
  "swap_window_numbers_on_ui env target st = and_then (resolve_target_private_key st target) (\<lambda>key. ce_swap env (key mod 2 ^ 32))"

definition set_broadcast_on_ui :: "CtlEnv \<Rightarrow> bool \<Rightarrow> UiState \<Rightarrow> ((ControlError + CommandOutcome) \<times> UiState) option" where
  "set_broadcast_on_ui env enabled st =
     (case ui_broadcast st of
        None \<Rightarrow> Some (refuse BroadcastUnavailable ''broadcasting is unavailable because trusik is disabled'', st)
      | Some engine \<Rightarrow>
          map_option (\<lambda>(r, engine'). case r of
              Inl message \<Rightarrow> (refuse BroadcastOperationFailed message, st\<lparr>ui_broadcast := Some engine'\<rparr>)
            | Inr _ \<Rightarrow> (Inr (BroadcastSet enabled), broadcast_state_changed env (st\<lparr>ui_broadcast := Some engine'\<rparr>)))
            (set_active (ce_win env) enabled engine))"

definition toggle_broadcast_on_ui :: "CtlEnv \<Rightarrow> UiState \<Rightarrow> UiState option" where
  "toggle_broadcast_on_ui env st =
     map_option snd (set_broadcast_on_ui env (\<not> is_some_and (ui_broadcast st) be_broadcasting) st)"

definition map_mouse_clutch_error :: "MouseClutchControlError \<Rightarrow> ControlError" where
  "map_mouse_clutch_error error =
     (case error of
        ClutchUnavailable message \<Rightarrow> control_error MouseClutchUnavailable message
      | ClutchNotReady message \<Rightarrow> control_error MouseClutchNotReady message
      | ClutchHoldExpired message \<Rightarrow> control_error MouseClutchHoldExpired message
      | ClutchOperationFailed message \<Rightarrow> control_error MouseClutchOperationFailed message)"

definition update_mouse_clutch_hold_on_ui ::
  "CtlEnv \<Rightarrow> MouseClutchOwner \<Rightarrow> MouseClutchOperation \<Rightarrow> nat \<Rightarrow> UiState \<Rightarrow> (ControlError + CommandOutcome) \<times> UiState" where
  "update_mouse_clutch_hold_on_ui env owner operation sequence st =
     (let (r, engine) = update_remote_mouse_clutch_hold (ce_win env) owner operation sequence (ui_broadcast st);
          st1 = st\<lparr>ui_broadcast := engine\<rparr>
      in case r of
           Inl error \<Rightarrow> (Inl (map_mouse_clutch_error error), st1)
         | Inr held \<Rightarrow> (Inr (MouseClutchHoldUpdated held), broadcast_state_changed env st1))"

definition end_mouse_clutch_session_on_ui :: "CtlEnv \<Rightarrow> nat \<Rightarrow> nat \<Rightarrow> UiState \<Rightarrow> UiState" where
  "end_mouse_clutch_session_on_ui env session_id sequence st =
     broadcast_state_changed env (st\<lparr>ui_broadcast :=
       map_option (end_remote_mouse_clutch_session (ce_win env) session_id sequence) (ui_broadcast st)\<rparr>)"

definition run_command :: "CtlEnv \<Rightarrow> UiCommand \<Rightarrow> UiState \<Rightarrow> UiState option" where
  "run_command env command st =
     (case command of
        UiActivate target r \<Rightarrow> Some (send_reply env r (outcome (activate_on_ui env target st)) st)
      | UiSwapWindowNumbers target r \<Rightarrow> Some (send_reply env r (outcome (swap_window_numbers_on_ui env target st)) st)
      | UiSetBroadcast enabled r \<Rightarrow>
          map_option (\<lambda>(result, st1). send_reply env r (outcome result) st1) (set_broadcast_on_ui env enabled st)
      | UiUpdateMouseClutchHold owner operation sequence r \<Rightarrow>
          (let (result, st1) = update_mouse_clutch_hold_on_ui env owner operation sequence st
           in Some (send_reply env r (outcome result) st1))
      | UiEndMouseClutchSession session_id sequence r \<Rightarrow>
          Some (send_reply env r (Inr AnswerDone) (end_mouse_clutch_session_on_ui env session_id sequence st))
      | UiSendText client_id txt submit r \<Rightarrow> start_text_input env client_id txt submit r st
      | UiSendKeys client_id strokes r \<Rightarrow> start_key_input env client_id strokes r st
      | UiSendEqAction client_id action r \<Rightarrow> start_eq_action env client_id action r st
      | UiListEqKeymapActions targets after r \<Rightarrow>
          Some (send_reply env r (outcome (list_eq_keymap_actions_on_ui env targets after st)) st)
      | UiSendEqActionBatch targets action r \<Rightarrow> start_eq_action_batch env targets action r st)"

text \<open>The queue, drained in order; \<open>env\<close> answers each command.\<close>

fun drain_commands :: "(CtlEnv \<times> UiCommand) list \<Rightarrow> UiState \<Rightarrow> UiState option" where
  "drain_commands [] st = Some st"
| "drain_commands ((env, command) # queue) st = Option.bind (run_command env command st) (drain_commands queue)"

text \<open>Accepting a Consider line of the log of a process.\<close>

definition record_consider :: "CtlEnv \<Rightarrow> string \<Rightarrow> ConsiderResult \<Rightarrow> nat \<Rightarrow> UiState \<Rightarrow> UiState" where
  "record_consider env source_id result observed_at st =
     (case Option.bind (strip_prefix ''pid:'' source_id) parse_u32 of
        None \<Rightarrow> st
      | Some pid \<Rightarrow>
          if \<not> is_some_and (bm_get (ui_pending_considers st) pid) (\<lambda>expires_at. observed_at \<le> expires_at) then st
          else publish_transient_snapshot env
            (st\<lparr>ui_pending_considers := bm_remove pid (ui_pending_considers st),
                ui_consider_results := bm_insert pid
                  \<lparr>tc_result = result, tc_expires_at = observed_at + CONSIDER_RESULT_TTL\<rparr> (ui_consider_results st)\<rparr>))"

text \<open>Stopping: every sequence is finished, no answer is given.\<close>

definition control_stop :: "UiState \<Rightarrow> UiState option" where
  "control_stop st = map_option (\<lambda>engine. st\<lparr>ui_broadcast := engine, ui_active_inputs := [], ui_input_batches := [], ui_timer := False\<rparr>)
     (finish_all (bm_keys (ui_active_inputs st)) (ui_broadcast st))"

end
