(* ===== verification/Control_Input.thy ===== *)
theory Control_Input
  imports Broadcast_Clutch Stonemite_Control
begin

text \<open>
  What a sequence of targeted input is meant to do, and what its operations do to the engine.
  A sequence has a script, the keys held in each phase, and a number of phases left; the targeted
  keys of a client change only by the operations of its own sequence (\<open>targeted_frame\<close>), and
  those are described exactly (\<open>begin_effect\<close>, \<open>write_keys_effect\<close>, \<open>finish_effect\<close>).
\<close>

section \<open>The script of a sequence\<close>

text \<open>What one key stroke is meant to do: modifiers go down first and up last.\<close>

definition stroke_script :: "ResolvedStroke \<Rightarrow> (bool \<times> u8) list" where
  "stroke_script stroke =
     (let scans = rs_scans stroke;
          order = (if has_modifier_chord stroke
            then filter is_modifier_scan scans @ filter (\<lambda>scan. \<not> is_modifier_scan scan) scans else scans)
      in map (Pair True) order @ map (Pair False) (if has_modifier_chord stroke
           then rev (filter (\<lambda>scan. \<not> is_modifier_scan scan) scans) @ rev (filter is_modifier_scan scans) else rev scans))"

text \<open>The keys written in the current phase, and the phases until the sequence is over.\<close>

definition phase_events :: "ActiveInput \<Rightarrow> (bool \<times> u8) list" where
  "phase_events input = map (Pair (pressing (ai_phase input))) (phase_scans (ai_strokes input ! ai_index input) (ai_phase input))"

fun play :: "nat list \<Rightarrow> ActiveInput \<Rightarrow> (bool \<times> u8) list \<times> ActiveInput" where
  "play [] input = ([], input)"
| "play (now # clock) input =
     (if ai_phase input = PhaseFinish then ([], input)
      else let (events, input') = play clock (next_phase input now) in (phase_events input @ events, input'))"

definition phases_of :: "ResolvedStroke \<Rightarrow> nat" where
  "phases_of stroke = (if has_modifier_chord stroke then 4 else 2)"

definition phases_from :: "ResolvedStroke \<Rightarrow> InputPhase \<Rightarrow> nat" where
  "phases_from stroke phase = (case phase of PhasePress \<Rightarrow> phases_of stroke | PhasePressChord \<Rightarrow> 3
     | PhaseRelease \<Rightarrow> (if has_modifier_chord stroke then 2 else 1) | PhaseReleaseModifiers \<Rightarrow> 1 | PhaseFinish \<Rightarrow> 0)"

definition phases_left :: "ActiveInput \<Rightarrow> nat" where
  "phases_left input = (if ai_phase input = PhaseFinish then 0
     else phases_from (ai_strokes input ! ai_index input) (ai_phase input)
       + sum_list (map phases_of (drop (ai_index input + 1) (ai_strokes input))))"

text \<open>No stroke is held, or paused after, for longer than the 15 seconds a sequence may take.\<close>

definition strokes_ok :: "ResolvedStroke list \<Rightarrow> bool" where
  "strokes_ok strokes \<longleftrightarrow> strokes \<noteq> []
     \<and> list_all (\<lambda>stroke. rs_hold stroke \<le> MAX_INPUT_DURATION_MS \<and> rs_pause stroke \<le> MAX_INPUT_DURATION_MS) strokes"

definition input_wf :: "ActiveInput \<Rightarrow> bool" where
  "input_wf input \<longleftrightarrow> ai_index input < length (ai_strokes input) \<and> strokes_ok (ai_strokes input)
     \<and> (ai_phase input \<in> {PhasePressChord, PhaseReleaseModifiers} \<longrightarrow>
          has_modifier_chord (ai_strokes input ! ai_index input))"

lemma complete_stroke_wf: "input_wf input \<Longrightarrow> input_wf (complete_stroke input now)"
  by (auto simp: input_wf_def complete_stroke_def)

lemma next_phase_wf: "input_wf input \<Longrightarrow> input_wf (next_phase input now)"
  using complete_stroke_wf [of input now]
  by (auto simp: next_phase_def Let_def input_wf_def split: InputPhase.split)

lemma next_phase_frame [simp]:
  "ai_pid (next_phase input now) = ai_pid input" "ai_kind (next_phase input now) = ai_kind input"
  "ai_strokes (next_phase input now) = ai_strokes input" "ai_completion (next_phase input now) = ai_completion input"
  by (simp_all add: next_phase_def complete_stroke_def Let_def split: InputPhase.split)

lemma complete_stroke_left:
  "input_wf input \<Longrightarrow> phases_left (complete_stroke input now) = sum_list (map phases_of (drop (ai_index input + 1) (ai_strokes input)))"
  by (auto simp: complete_stroke_def phases_left_def input_wf_def phases_from_def Cons_nth_drop_Suc [symmetric] split: if_splits)

lemma next_phase_left:
  "input_wf input \<Longrightarrow> ai_phase input \<noteq> PhaseFinish \<Longrightarrow> Suc (phases_left (next_phase input now)) = phases_left input"
proof -
  assume wf: "input_wf input" and phase: "ai_phase input \<noteq> PhaseFinish"
  have update: "phases_left (input\<lparr>ai_phase := p, ai_next_step := t\<rparr>) = phases_from (ai_strokes input ! ai_index input) p
      + sum_list (map phases_of (drop (ai_index input + 1) (ai_strokes input)))" if "p \<noteq> PhaseFinish" for p t
    using that by (simp add: phases_left_def)
  show ?thesis using wf phase
    by (cases "ai_phase input")
      (auto simp: next_phase_def Let_def update complete_stroke_left [OF wf] phases_left_def [of input] phases_from_def
        phases_of_def input_wf_def)
qed

text \<open>The keys held during a phase: what the phases before it left down.\<close>

definition held_scans :: "ActiveInput \<Rightarrow> u8 list" where
  "held_scans input =
     (let stroke = ai_strokes input ! ai_index input
      in case ai_phase input of
           PhasePress \<Rightarrow> [] | PhasePressChord \<Rightarrow> filter is_modifier_scan (rs_scans stroke)
         | PhaseRelease \<Rightarrow> rs_scans stroke | PhaseReleaseModifiers \<Rightarrow> filter is_modifier_scan (rs_scans stroke)
         | PhaseFinish \<Rightarrow> [])"

lemma held_scans_complete: "held_scans (complete_stroke input now) = []"
  by (simp add: held_scans_def complete_stroke_def)

lemma held_scans_next:
  assumes wf: "input_wf input" and phase: "ai_phase input \<noteq> PhaseFinish"
  shows "set (held_scans (next_phase input now)) =
     (if pressing (ai_phase input) then set (held_scans input) \<union> set (phase_scans (ai_strokes input ! ai_index input) (ai_phase input))
      else set (held_scans input) - set (phase_scans (ai_strokes input ! ai_index input) (ai_phase input)))"
  using assms held_scans_complete [of input now]
  by (cases "ai_phase input")
    (auto simp: held_scans_def next_phase_def phase_scans_def pressing_def input_wf_def Let_def)

text \<open>What is left to play, by the phase.\<close>

definition rest_of_stroke :: "ActiveInput \<Rightarrow> (bool \<times> u8) list" where
  "rest_of_stroke input =
     (let stroke = ai_strokes input ! ai_index input; scans = rs_scans stroke; chord = has_modifier_chord stroke;
          mods = filter is_modifier_scan scans; keys = filter (\<lambda>scan. \<not> is_modifier_scan scan) scans;
          up = map (Pair False) (if chord then rev keys @ rev mods else rev scans)
      in case ai_phase input of
           PhasePress \<Rightarrow> stroke_script stroke | PhasePressChord \<Rightarrow> map (Pair True) keys @ up
         | PhaseRelease \<Rightarrow> up | PhaseReleaseModifiers \<Rightarrow> map (Pair False) (rev mods) | PhaseFinish \<Rightarrow> [])"

definition rest_of_script :: "ActiveInput \<Rightarrow> (bool \<times> u8) list" where
  "rest_of_script input = (if ai_phase input = PhaseFinish then []
     else rest_of_stroke input @ concat (map stroke_script (drop (ai_index input + 1) (ai_strokes input))))"

lemma rest_of_script_complete:
  "input_wf input \<Longrightarrow> rest_of_script (complete_stroke input now) = concat (map stroke_script (drop (ai_index input + 1) (ai_strokes input)))"
  by (auto simp: complete_stroke_def rest_of_script_def rest_of_stroke_def input_wf_def Let_def Cons_nth_drop_Suc [symmetric] split: if_splits)

lemma rest_of_script_step:
  assumes "input_wf input" "ai_phase input \<noteq> PhaseFinish"
  shows "rest_of_script input = phase_events input @ rest_of_script (next_phase input now)"
proof -
  let ?later = "concat (map stroke_script (drop (ai_index input + 1) (ai_strokes input)))"
  have update: "rest_of_script (input\<lparr>ai_phase := p, ai_next_step := t\<rparr>) = rest_of_stroke (input\<lparr>ai_phase := p\<rparr>) @ ?later"
    if "p \<noteq> PhaseFinish" for p t
    using that by (simp add: rest_of_script_def rest_of_stroke_def Let_def)
  have start: "rest_of_script input = rest_of_stroke input @ ?later" using assms(2) by (simp add: rest_of_script_def)
  show ?thesis unfolding start using assms rest_of_script_complete [OF assms(1), of now]
    by (cases "ai_phase input") (simp_all add: next_phase_def update rest_of_stroke_def phase_events_def phase_scans_def
        pressing_def stroke_script_def input_wf_def rev_filter Let_def)
qed

lemma play_script:
  "input_wf input \<Longrightarrow> phases_left input \<le> length clock \<Longrightarrow>
   fst (play clock input) = rest_of_script input \<and> ai_phase (snd (play clock input)) = PhaseFinish"
proof (induction clock arbitrary: input)
  case Nil
  then have "ai_phase input = PhaseFinish"
    by (auto simp: phases_left_def phases_from_def phases_of_def split: InputPhase.splits if_splits)
  then show ?case by (simp add: rest_of_script_def)
next
  case (Cons now clock)
  show ?case
  proof (cases "ai_phase input = PhaseFinish")
    case True
    then show ?thesis by (simp add: rest_of_script_def)
  next
    case False
    have "phases_left (next_phase input now) \<le> length clock"
      using next_phase_left [OF Cons.prems(1) False, of now] Cons.prems(2) by simp
    from Cons.IH [OF next_phase_wf [OF Cons.prems(1)] this] show ?thesis
      using False rest_of_script_step [OF Cons.prems(1) False, of now] by (simp add: case_prod_beta Let_def)
  qed
qed

section \<open>The targeted keys of the engine\<close>

text \<open>The targeted keys of a process, while a sequence is active for it.\<close>

definition targeted_keys_of :: "BroadcastEngine \<Rightarrow> nat \<Rightarrow> bool list option" where
  "targeted_keys_of s pid = Option.bind (bm_get (be_targets s) pid)
     (\<lambda>shm. if shm_targeted_active shm then Some (shm_targeted_keys shm) else None)"

definition targeted_frame :: "BroadcastEngine \<Rightarrow> BroadcastEngine \<Rightarrow> bool" where
  "targeted_frame s s' \<longleftrightarrow> (\<forall>pid. targeted_keys_of s' pid = targeted_keys_of s pid \<or> targeted_keys_of s' pid = None)"

lemma targeted_frame_refl [simp]: "targeted_frame s s"
  by (simp add: targeted_frame_def)

lemma targeted_frame_trans: "targeted_frame s1 s2 \<Longrightarrow> targeted_frame s2 s3 \<Longrightarrow> targeted_frame s1 s3"
  unfolding targeted_frame_def by metis

lemma targeted_frame_targets: "be_targets s' = be_targets s \<Longrightarrow> targeted_frame s s'"
  by (simp add: targeted_frame_def targeted_keys_of_def)

text \<open>Every operation but those of targeted input is such a frame; \<open>tf t\<close> collects the rules.\<close>

lemma targeted_frame_same: "targeted_frame t s \<Longrightarrow> be_targets s' = be_targets s \<Longrightarrow> targeted_frame t s'"
  by (simp add: targeted_frame_def targeted_keys_of_def)

lemma targeted_frame_fields [simp]:
  "targeted_frame t (s\<lparr>be_clutch := c\<rparr>) = targeted_frame t s"
  "targeted_frame t (s\<lparr>be_clutch_binding_vk := v\<rparr>) = targeted_frame t s"
  "targeted_frame t (s\<lparr>be_pending_clutch_binding := w\<rparr>) = targeted_frame t s"
  "targeted_frame t (s\<lparr>be_clutch_key_is_down := d\<rparr>) = targeted_frame t s"
  "targeted_frame t (s\<lparr>be_remote_mouse_holds := h\<rparr>) = targeted_frame t s"
  "targeted_frame t (s\<lparr>be_remote_mouse_sequences := q\<rparr>) = targeted_frame t s"
  "targeted_frame t (s\<lparr>be_closed_remote_sessions := cs\<rparr>) = targeted_frame t s"
  "targeted_frame t (s\<lparr>be_closed_remote_session_order := co\<rparr>) = targeted_frame t s"
  "targeted_frame t (s\<lparr>be_clutch_status_dirty := sd\<rparr>) = targeted_frame t s"
  "targeted_frame t (s\<lparr>be_clutch_error := e\<rparr>) = targeted_frame t s"
  "targeted_frame t (s\<lparr>be_mouse_eligible_pids := m\<rparr>) = targeted_frame t s"
  "targeted_frame t (s\<lparr>be_eq_was_foreground := f\<rparr>) = targeted_frame t s"
  "targeted_frame t (s\<lparr>be_filter_mode := fm\<rparr>) = targeted_frame t s"
  "targeted_frame t (s\<lparr>be_filter_scancodes := fs\<rparr>) = targeted_frame t s"
  "targeted_frame t (s\<lparr>be_broadcasting := br\<rparr>) = targeted_frame t s"
  "targeted_frame t (s\<lparr>be_active_pid := ap\<rparr>) = targeted_frame t s"
  "targeted_frame t (s\<lparr>be_eq_pids := ep\<rparr>) = targeted_frame t s"
  by (simp_all add: targeted_frame_def targeted_keys_of_def)

lemma targeted_frame_reconcile [simp]: "targeted_frame t (snd (reconcile_hooks env s)) = targeted_frame t s"
  by (simp add: targeted_frame_def targeted_keys_of_def)

lemma targeted_frame_reconcile_eq: "reconcile_hooks env s = (r, s') \<Longrightarrow> targeted_frame t s' = targeted_frame t s"
  using targeted_frame_reconcile [of t env s] by simp

abbreviation keeps_targeted :: "ProcessShm \<Rightarrow> ProcessShm \<Rightarrow> bool" where
  "keeps_targeted shm shm' \<equiv> shm_targeted_active shm' = shm_targeted_active shm \<and> shm_targeted_keys shm' = shm_targeted_keys shm"

lemma targeted_frame_map:
  assumes "targeted_frame t s" "\<And>pid shm. keeps_targeted shm (f pid shm)"
  shows "targeted_frame t (map_targets f s)"
proof -
  have "targeted_keys_of (map_targets f s) pid = targeted_keys_of s pid" for pid
    using assms(2) by (simp add: targeted_keys_of_def map_targets_get split: Option.bind_split)
  then show ?thesis using assms(1) by (simp add: targeted_frame_def)
qed

lemma targeted_frame_try:
  assumes "targeted_frame t s" "try_map_targets f (be_targets s) = Some ts"
    "\<And>pid shm shm'. f pid shm = Some shm' \<Longrightarrow> keeps_targeted shm shm'"
  shows "targeted_frame t (s\<lparr>be_targets := ts\<rparr>)"
proof -
  have "targeted_keys_of (s\<lparr>be_targets := ts\<rparr>) pid = targeted_keys_of s pid \<or> targeted_keys_of (s\<lparr>be_targets := ts\<rparr>) pid = None" for pid
    using assms(3) by (auto simp: targeted_keys_of_def try_map_targets_get [OF assms(2)] split: bind_splits)
  then show ?thesis using assms(1) unfolding targeted_frame_def by metis
qed

lemma write_combined_targeted: "write_combined_key scan shm = Some shm' \<Longrightarrow> keeps_targeted shm shm'"
  by (auto simp: write_combined_key_def)

lemma write_broadcast_targeted:
  "write_combined_key scan (shm\<lparr>shm_broadcast_keys := b\<rparr>) = Some shm' \<Longrightarrow> keeps_targeted shm shm'"
  by (auto dest: write_combined_targeted)

lemma clear_broadcast_targeted: "clear_broadcast_keys scans shm = Some shm' \<Longrightarrow> keeps_targeted shm shm'"
  by (induction scans arbitrary: shm) (auto simp: bind_eq_Some_conv dest: write_broadcast_targeted)

lemma targeted_frame_mouse:
  "targeted_frame t s \<Longrightarrow> targeted_frame t (deactivate_mouse_targets s)"
  "targeted_frame t s \<Longrightarrow> targeted_frame t (snd (activate_mouse_targets source s))"
  by (auto simp: deactivate_mouse_targets_def activate_mouse_targets_def store_mouse_active_def Let_def
      intro!: targeted_frame_map split: if_splits)

lemma targeted_frame_activate_eq: "activate_mouse_targets source s = (r, s') \<Longrightarrow> targeted_frame t s \<Longrightarrow> targeted_frame t s'"
  using targeted_frame_mouse(2) [of t s source] by simp

lemmas targeted_frame_steps = targeted_frame_mouse targeted_frame_reconcile_eq targeted_frame_activate_eq

lemma targeted_frame_cancel [simp]: "targeted_frame t (cancel_all_clutch_owners now s) = targeted_frame t s"
  by (simp add: cancel_all_clutch_owners_def)

lemma targeted_frame_suppress: "targeted_frame t s \<Longrightarrow> targeted_frame t (store_suppress active s)"
  by (auto simp: store_suppress_def intro!: targeted_frame_map)

lemma targeted_frame_pending: "targeted_frame t s \<Longrightarrow> targeted_frame t (apply_pending_clutch_binding env s)"
  by (auto simp: apply_pending_clutch_binding_def Let_def targeted_frame_steps split: option.split prod.split sum.split)

lemma targeted_frame_tick: "targeted_frame t s \<Longrightarrow> targeted_frame t (snd (broadcast_tick env s))"
proof -
  assume "targeted_frame t s"
  then have "targeted_frame t (refresh_heartbeats (env_now_ms env) s)"
    by (auto simp: refresh_heartbeats_def intro!: targeted_frame_map)
  then have "targeted_frame t (expire_holds env (refresh_heartbeats (env_now_ms env) s))"
    by (simp add: expire_holds_def Let_def)
  then have "targeted_frame t (validate_focus env (expire_holds env (refresh_heartbeats (env_now_ms env) s)))"
    by (simp add: validate_focus_def Let_def)
  then have "targeted_frame t (apply_pending_clutch_binding env (finish_drain env (validate_focus env
      (expire_holds env (refresh_heartbeats (env_now_ms env) s)))))"
    by (intro targeted_frame_pending) (simp add: finish_drain_def targeted_frame_mouse Let_def split: prod.split)
  then show ?thesis
    by (auto simp: broadcast_tick_def Let_def targeted_frame_steps split: prod.split sum.split)
qed

lemma targeted_frame_settings: "targeted_frame t s \<Longrightarrow> targeted_frame t (on_settings_changed env upper vts cfg s)"
  by (auto simp: on_settings_changed_def Let_def intro!: targeted_frame_pending split: prod.split)

lemma targeted_frame_begin_remote: "targeted_frame t s \<Longrightarrow> targeted_frame t (snd (begin_remote_hold env owner source s))"
  by (auto simp: begin_remote_hold_def drop_hold_def Let_def targeted_frame_steps split: prod.split sum.split bool.split)

lemma targeted_frame_remote:
  assumes "targeted_frame t s" "snd (update_remote_mouse_clutch_hold env owner operation sequence (Some s)) = Some s'"
  shows "targeted_frame t s'"
  using assms targeted_frame_begin_remote [of t "s\<lparr>be_remote_mouse_sequences := q\<rparr>" for q]
  by (auto simp: update_remote_mouse_clutch_hold_def drop_hold_def Let_def
      split: if_splits MouseClutchOperation.splits option.splits BroadcastClutchAvailability.splits)

lemma targeted_frame_end_session: "targeted_frame t s \<Longrightarrow> targeted_frame t (end_remote_mouse_clutch_session env session_id sequence s)"
  by (auto simp: end_remote_mouse_clutch_session_def Let_def split: prod.split)

lemma targeted_frame_set_active_pid: "targeted_frame t s \<Longrightarrow> targeted_frame t (set_active_pid env pid s)"
  by (auto simp: set_active_pid_def Let_def intro!: targeted_frame_suppress)

lemma targeted_frame_eligible: "targeted_frame t s \<Longrightarrow> targeted_frame t (update_mouse_eligible_pids env pids s)"
  by (simp add: update_mouse_eligible_pids_def Let_def)

lemma targeted_frame_mouse_proc: "targeted_frame t s \<Longrightarrow> targeted_frame t (ll_mouse_proc env handled message mouse_data s)"
  by (simp add: ll_mouse_proc_def Let_def split: option.split prod.split)

lemma targeted_frame_ordinary:
  "targeted_frame t s \<Longrightarrow> ordinary_key env kb s = Some s' \<Longrightarrow> targeted_frame t s'"
proof -
  assume frame: "targeted_frame t s" and key: "ordinary_key env kb s = Some s'"
  have broadcast: "targeted_frame t u'" if "broadcast_key env kb u = Some u'" "targeted_frame t u" for u u'
    using that by (auto simp: broadcast_key_def split: if_splits option.splits elim!: targeted_frame_try
        dest!: write_broadcast_targeted)
  have release: "targeted_frame t u'" if "release_background_keys u = Some u'" "targeted_frame t u" for u u'
    using that by (auto simp: release_background_keys_def split: if_splits elim!: targeted_frame_try dest!: clear_broadcast_targeted)
  show ?thesis using key frame by (auto simp: ordinary_key_def split: if_splits intro: broadcast release)
qed

lemma targeted_frame_clutch_key:
  "targeted_frame t s \<Longrightarrow> targeted_frame t (press_clutch_key env kb s)"
  "targeted_frame t s \<Longrightarrow> targeted_frame t (release_clutch_key env kb s)"
  by (simp_all add: press_clutch_key_def release_clutch_key_def targeted_frame_mouse Let_def split: prod.split)

lemma targeted_frame_keyboard:
  assumes frame: "targeted_frame t s" and result: "ll_keyboard_proc env handled kb s = Some (r, s')"
  shows "targeted_frame t s'"
proof -
  have ordinary: "pred_option (targeted_frame t) (ordinary_key env kb u)" if "targeted_frame t u" for u
    using targeted_frame_ordinary [OF that] by (simp add: option.pred_set)
  have "pred_option (\<lambda>x. targeted_frame t (snd x)) (ll_keyboard_proc env handled kb s)"
    using frame unfolding ll_keyboard_proc_def Let_def
    by (simp add: option.pred_map comp_def targeted_frame_clutch_key ordinary)
  then show ?thesis using result by simp
qed

lemma targeted_frame_set_active:
  assumes frame: "targeted_frame t s" and result: "set_active env active s = Some (r, s')"
  shows "targeted_frame t s'"
proof (cases "be_broadcasting s = active")
  case True
  then show ?thesis using frame result by (simp add: set_active_def)
next
  case False
  obtain h s1 where rec: "reconcile_hooks env (s\<lparr>be_broadcasting := active\<rparr>) = (h, s1)" by fastforce
  have frame1: "targeted_frame t s1" using targeted_frame_reconcile_eq [OF rec, of t] frame by simp
  have cleared: "targeted_frame t (s1\<lparr>be_targets := ts\<rparr>)"
    if "try_map_targets (\<lambda>_. clear_broadcast_keys [0..<255]) (be_targets s1) = Some ts" for ts
    by (rule targeted_frame_try [OF frame1 that]) (rule clear_broadcast_targeted)
  have source: "targeted_frame t (map_targets (\<lambda>_. set_keyboard_source src active) s2)" if "targeted_frame t s2" for s2 src
    by (rule targeted_frame_map [OF that]) (simp add: set_keyboard_source_def)
  show ?thesis using result False rec frame1 cleared source
    by (auto simp: set_active_def split: sum.splits bool.splits if_splits)
qed

lemma targeted_frame_update_targets:
  assumes "targeted_frame t s"
  shows "targeted_frame t (update_targets env pids active s)"
proof -
  have add: "targeted_frame t (add_target env pid s)" if frame: "targeted_frame t s" for pid s
  proof (cases "bm_contains (be_targets s) pid \<or> create_shm env pid = None")
    case True
    then show ?thesis using frame by (auto simp: add_target_def)
  next
    case False
    then obtain shm where shm: "create_shm env pid = Some shm" "\<not> shm_targeted_active shm"
      by (auto simp: create_shm_def)
    then have "targeted_frame s (add_target env pid s)"
      using False by (auto simp: targeted_frame_def targeted_keys_of_def add_target_def bm_contains_def set_keyboard_source_def)
    then show ?thesis by (rule targeted_frame_trans [OF frame])
  qed
  have fold: "targeted_frame t (fold (add_target env) pids s)" if "targeted_frame t s" for s
    using that by (induction pids arbitrary: s) (simp_all add: add)
  have "bm_get (filter (\<lambda>(pid, _). pid \<in> set pids) ts) pid = (if pid \<in> set pids then bm_get ts pid else None)" for ts :: targets and pid
    by (induction ts) (auto simp: bm_get_def)
  then have base: "targeted_frame t (s1\<lparr>be_eq_pids := pids, be_targets := filter (\<lambda>(pid, _). pid \<in> set pids) (be_targets s1)\<rparr>)"
    if "targeted_frame t s1" for s1
    using that by (auto simp: targeted_frame_def targeted_keys_of_def)
  show ?thesis unfolding update_targets_def Let_def
    using assms by (intro targeted_frame_suppress) (simp add: fold [OF base])
qed

text \<open>The operations of the engine that other parts of the program call.\<close>

definition foreign_op :: "BroadcastOp \<Rightarrow> bool" where
  "foreign_op op = (case op of OpBeginTargeted _ \<Rightarrow> False | OpTargetedKey _ _ _ \<Rightarrow> False | OpFinishTargeted _ \<Rightarrow> False | _ \<Rightarrow> True)"

lemma targeted_frame_step:
  assumes "foreign_op op" "broadcast_step upper vts env op s = Some s'"
  shows "targeted_frame s s'"
proof (cases op)
  case (OpKeyboard handled kb)
  then show ?thesis using assms targeted_frame_keyboard [OF targeted_frame_refl]
    by (cases "ll_keyboard_proc env handled kb s") auto
next
  case (OpSetActive active)
  then show ?thesis using assms targeted_frame_set_active [OF targeted_frame_refl]
    by (cases "set_active env active s") auto
next
  case (OpRemoteHold owner operation sequence)
  then show ?thesis using assms targeted_frame_remote [OF targeted_frame_refl] by simp
qed (use assms in \<open>auto simp: foreign_op_def targeted_frame_mouse_proc targeted_frame_tick targeted_frame_update_targets
      targeted_frame_eligible targeted_frame_set_active_pid targeted_frame_settings targeted_frame_end_session\<close>)

section \<open>The operations of a sequence\<close>

lemma region_ok_targeted: "region_ok b a pid shm \<Longrightarrow> \<not> shm_targeted_active shm \<Longrightarrow> scan < 256 \<Longrightarrow> \<not> shm_targeted_keys shm ! scan"
  by (simp add: region_ok_def shm_ok_def)

lemma begin_effect:
  assumes ok: "engine_ok s"
  obtains r s' where "begin_targeted_input pid (Some s) = (r, Some s')" "engine_ok s'"
    "\<And>other. other \<noteq> pid \<Longrightarrow> targeted_keys_of s' other = targeted_keys_of s other"
    "isl r \<Longrightarrow> s' = s"
    "\<not> isl r \<Longrightarrow> \<exists>ks. targeted_keys_of s' pid = Some ks \<and> (\<forall>scan < 256. \<not> ks ! scan)"
proof -
  obtain r s' where begun: "begin_targeted_input pid (Some s) = (r, Some s')" "engine_ok s'"
    using begin_targeted_keeps [OF ok] by blast
  have "targeted_keys_of s' other = targeted_keys_of s other" if "other \<noteq> pid" for other
    using begun(1) that by (auto simp: begin_targeted_input_def targeted_keys_of_def split: option.splits if_splits)
  moreover have "isl r \<longrightarrow> s' = s"
    using begun(1) by (cases r) (auto simp: begin_targeted_input_def split: option.splits if_splits)
  moreover have "\<exists>ks. targeted_keys_of s' pid = Some ks \<and> (\<forall>scan < 256. \<not> ks ! scan)" if accepted: "\<not> isl r"
  proof -
    obtain shm where shm: "bm_get (be_targets s) pid = Some shm" "\<not> shm_targeted_active shm"
      "s' = s\<lparr>be_targets := bm_modify pid (\<lambda>shm. set_keyboard_source KEYBOARD_TARGETED True (shm\<lparr>shm_targeted_active := True\<rparr>)) (be_targets s)\<rparr>"
      using begun(1) accepted by (auto simp: begin_targeted_input_def split: option.splits if_splits)
    then show ?thesis using region_ok_targeted [OF engine_ok_get [OF ok shm(1)] shm(2)]
      by (simp add: targeted_keys_of_def set_keyboard_source_def)
  qed
  ultimately show ?thesis using begun that by blast
qed

lemma finish_effect:
  assumes ok: "engine_ok s"
  obtains s' where "finish_targeted_input pid (Some s) = Some (Some s')" "engine_ok s'" "targeted_keys_of s' pid = None"
    "\<And>other. other \<noteq> pid \<Longrightarrow> targeted_keys_of s' other = targeted_keys_of s other"
proof -
  obtain s' where fin: "finish_targeted_input pid (Some s) = Some (Some s')" "engine_ok s'"
    using finish_targeted_keeps [OF ok] by blast
  have "targeted_keys_of s' pid = None" "\<And>other. other \<noteq> pid \<Longrightarrow> targeted_keys_of s' other = targeted_keys_of s other"
    using fin(1) by (auto simp: finish_targeted_input_def targeted_keys_of_def set_keyboard_source_def split: option.splits)
  then show ?thesis using fin that by blast
qed

lemma set_key_targeted_effect:
  assumes ok: "engine_ok s" and scan: "scan < 256"
  obtains r s' where "set_targeted_key pid scan pressed (Some s) = Some (r, Some s')" "engine_ok s'"
    "\<And>other. other \<noteq> pid \<Longrightarrow> targeted_keys_of s' other = targeted_keys_of s other"
    "targeted_keys_of s pid = None \<Longrightarrow> targeted_keys_of s' pid = None"
    "\<And>ks. r = Inr () \<Longrightarrow> targeted_keys_of s pid = Some ks \<Longrightarrow> targeted_keys_of s' pid = Some (ks[scan := pressed])"
    "\<And>ks. targeted_keys_of s pid = Some ks \<Longrightarrow> length ks = 256"
proof -
  obtain r s' where set: "set_targeted_key pid scan pressed (Some s) = Some (r, Some s')" "engine_ok s'"
    using set_targeted_keeps [OF ok scan] by blast
  have keep: "shm_targeted_active shm' = shm_targeted_active shm \<and> shm_targeted_keys shm' = k"
    if "write_combined_key scan (shm\<lparr>shm_targeted_keys := k\<rparr>) = Some shm'" for shm shm' k
    using write_combined_targeted [OF that] by simp
  have len: "length ks = 256" if "targeted_keys_of s pid = Some ks" for ks
    using that engine_ok_get [OF ok] by (auto simp: targeted_keys_of_def bind_eq_Some_conv region_ok_def shm_ok_def shm_wf_def split: if_splits)
  have others: "targeted_keys_of s' other = targeted_keys_of s other" if "other \<noteq> pid" for other
    using set(1) that by (auto simp: set_targeted_key_def targeted_keys_of_def split: option.splits if_splits)
  have gone: "targeted_keys_of s' pid = None" if "targeted_keys_of s pid = None"
    using set(1) that by (auto simp: set_targeted_key_def targeted_keys_of_def split: option.splits if_splits dest!: keep)
  have kept: "targeted_keys_of s' pid = Some (ks[scan := pressed])" if "r = Inr ()" "targeted_keys_of s pid = Some ks" for ks
    using set(1) that by (auto simp: set_targeted_key_def targeted_keys_of_def split: option.splits if_splits dest!: keep)
  show ?thesis by (rule that [OF set others gone kept len])
qed

lemma write_keys_effect:
  "engine_ok s \<Longrightarrow> \<exists>r s'. write_keys pid pressed scans (Some s) = Some (r, Some s') \<and> engine_ok s'
    \<and> (\<forall>other. other \<noteq> pid \<longrightarrow> targeted_keys_of s' other = targeted_keys_of s other)
    \<and> (targeted_keys_of s pid = None \<longrightarrow> targeted_keys_of s' pid = None)
    \<and> (\<forall>ks. r = Inr () \<longrightarrow> targeted_keys_of s pid = Some ks \<longrightarrow> (\<exists>ks'. targeted_keys_of s' pid = Some ks'
        \<and> (\<forall>scan < 256. ks' ! scan = (if scan \<in> unat ` set scans then pressed else ks ! scan))))"
proof (induction scans arbitrary: s)
  case Nil
  then show ?case by simp
next
  case (Cons scan scans)
  obtain r mid where one: "set_targeted_key pid (unat scan) pressed (Some s) = Some (r, Some mid)" "engine_ok mid"
    "\<And>other. other \<noteq> pid \<Longrightarrow> targeted_keys_of mid other = targeted_keys_of s other"
    "targeted_keys_of s pid = None \<Longrightarrow> targeted_keys_of mid pid = None"
    "\<And>ks. r = Inr () \<Longrightarrow> targeted_keys_of s pid = Some ks \<Longrightarrow> targeted_keys_of mid pid = Some (ks[unat scan := pressed])"
    "\<And>ks. targeted_keys_of s pid = Some ks \<Longrightarrow> length ks = 256"
    by (rule set_key_targeted_effect [OF Cons.prems scan_byte [of scan], where pid = pid and pressed = pressed]) (rule that; assumption)
  show ?case
  proof (cases r)
    case (Inl message)
    then show ?thesis using one(1-4) by auto
  next
    case (Inr u)
    obtain r' s' where rest: "write_keys pid pressed scans (Some mid) = Some (r', Some s')" "engine_ok s'"
      "\<forall>other. other \<noteq> pid \<longrightarrow> targeted_keys_of s' other = targeted_keys_of mid other"
      "targeted_keys_of mid pid = None \<longrightarrow> targeted_keys_of s' pid = None"
      "\<forall>ks. r' = Inr () \<longrightarrow> targeted_keys_of mid pid = Some ks \<longrightarrow> (\<exists>ks'. targeted_keys_of s' pid = Some ks'
        \<and> (\<forall>scan < 256. ks' ! scan = (if scan \<in> unat ` set scans then pressed else ks ! scan)))"
      using Cons.IH [OF one(2)] by (elim exE conjE) (rule that; assumption)
    have "\<exists>ks'. targeted_keys_of s' pid = Some ks' \<and> (\<forall>n < 256. ks' ! n = (if n \<in> unat ` set (scan # scans) then pressed else ks ! n))"
      if written: "r' = Inr ()" "targeted_keys_of s pid = Some ks" for ks
    proof -
      obtain ks' where ks': "targeted_keys_of s' pid = Some ks'"
        "\<forall>n < 256. ks' ! n = (if n \<in> unat ` set scans then pressed else ks[unat scan := pressed] ! n)"
        using rest(5) written(1) one(5) [OF _ written(2)] Inr by fastforce
      then show ?thesis using one(6) [OF written(2)] by (auto simp: nth_list_update)
    qed
    then show ?thesis using one(1,3,4) rest(1-4) Inr by simp
  qed
qed

end
