(* ===== verification/Control_Guarantees.thy ===== *)
theory Control_Guarantees
  imports Control_Input
begin

text \<open>
  Targeted input end to end. In every state the bridge can reach, the keys a client is shown on
  behalf of a sequence are those of the phase the sequence is in, no client is left with keys of
  a sequence that has ended, a sequence plays exactly its script, and every sequence ends. The
  invariant is \<open>ctl_ok\<close>; each operation of the bridge has a lemma that keeps it, and
  \<open>ctl_step\<close> is any of the operations the other parts of the program call.
\<close>

section \<open>What a client is shown follows the phase of its sequence\<close>

definition shows_phase :: "ActiveInput \<Rightarrow> bool list \<Rightarrow> bool" where
  "shows_phase input keys \<longleftrightarrow> list_all (\<lambda>scan. keys ! scan = (scan \<in> unat ` set (held_scans input))) [0..<256]"

lemma shows_phase_iff: "shows_phase input keys \<longleftrightarrow> (\<forall>scan < 256. keys ! scan \<longleftrightarrow> scan \<in> unat ` set (held_scans input))"
  by (auto simp: shows_phase_def list_all_iff)

definition serves :: "ActiveInput list \<Rightarrow> UiState \<Rightarrow> nat \<Rightarrow> ActiveInput \<Rightarrow> bool" where
  "serves todo st pid input \<longleftrightarrow> ai_pid input = pid \<and> (input \<in> set todo \<or> bm_get (ui_active_inputs st) pid = Some input)"

text \<open>
  The invariant while the sequences in \<open>todo\<close> have been taken out of the map to be advanced. The
  processes in \<open>E\<close> are in the middle of an operation and owe nothing.
\<close>

definition inputs_wf :: "ActiveInput list \<Rightarrow> UiState \<Rightarrow> bool" where
  "inputs_wf todo st \<longleftrightarrow> distinct (map ai_pid todo) \<and> bm_wf (ui_active_inputs st)
     \<and> (\<forall>input \<in> set todo. input_wf input \<and> bm_get (ui_active_inputs st) (ai_pid input) = None)
     \<and> (\<forall>pid input. bm_get (ui_active_inputs st) pid = Some input \<longrightarrow> ai_pid input = pid \<and> input_wf input)
     \<and> (todo \<noteq> [] \<or> ui_active_inputs st \<noteq> [] \<longrightarrow> ui_timer st)"

definition engine_shows :: "nat set \<Rightarrow> ActiveInput list \<Rightarrow> UiState \<Rightarrow> bool" where
  "engine_shows E todo st \<longleftrightarrow> (\<forall>s pid keys. ui_broadcast st = Some s \<longrightarrow> pid \<notin> E \<longrightarrow> targeted_keys_of s pid = Some keys
     \<longrightarrow> (\<exists>input. serves todo st pid input \<and> shows_phase input keys))"

definition ctl_ok :: "nat set \<Rightarrow> ActiveInput list \<Rightarrow> UiState \<Rightarrow> bool" where
  "ctl_ok E todo st \<longleftrightarrow> inputs_wf todo st \<and> is_some_and (ui_broadcast st) engine_ok \<and> engine_shows E todo st"

text \<open>What the bookkeeping around a sequence does not touch.\<close>

definition same_inputs :: "UiState \<Rightarrow> UiState \<Rightarrow> bool" where
  "same_inputs st st' \<longleftrightarrow> ui_active_inputs st' = ui_active_inputs st \<and> ui_broadcast st' = ui_broadcast st \<and> ui_timer st' = ui_timer st"

lemma ctl_ok_same: "same_inputs st st' \<Longrightarrow> ctl_ok E todo st' = ctl_ok E todo st"
  by (simp add: same_inputs_def ctl_ok_def inputs_wf_def engine_shows_def serves_def)

lemma same_inputs_refl [simp]: "same_inputs st st"
  by (simp add: same_inputs_def)

lemma same_inputs_trans: "same_inputs a b \<Longrightarrow> same_inputs b c \<Longrightarrow> same_inputs a c"
  by (simp add: same_inputs_def)

lemma same_inputs_reply [simp]: "same_inputs st (send_reply env r answer st')  = same_inputs st st'"
  by (simp add: send_reply_def same_inputs_def)

lemma same_inputs_fields [simp]:
  "same_inputs st (st'\<lparr>ui_hub := h\<rparr>) = same_inputs st st'"
  "same_inputs st (st'\<lparr>ui_mapper := m\<rparr>) = same_inputs st st'"
  "same_inputs st (st'\<lparr>ui_latest_sources := l\<rparr>) = same_inputs st st'"
  "same_inputs st (st'\<lparr>ui_input_batches := b\<rparr>) = same_inputs st st'"
  "same_inputs st (st'\<lparr>ui_next_batch_id := n\<rparr>) = same_inputs st st'"
  "same_inputs st (st'\<lparr>ui_selected_xtargets := x\<rparr>) = same_inputs st st'"
  "same_inputs st (st'\<lparr>ui_pending_considers := p\<rparr>) = same_inputs st st'"
  "same_inputs st (st'\<lparr>ui_consider_results := r\<rparr>) = same_inputs st st'"
  by (simp_all add: same_inputs_def)

lemma same_inputs_transient [simp]: "same_inputs st (publish_transient_snapshot env st') = same_inputs st st'"
  by (simp add: publish_transient_snapshot_def apply_transient_xtarget_state_def Let_def)

lemma same_inputs_enrich: "same_inputs st (fst (fold (enrich_source env) sources acc)) = same_inputs st (fst acc)"
proof (induction sources arbitrary: acc)
  case (Cons source sources)
  have "same_inputs st (fst (enrich_source env source acc)) = same_inputs st (fst acc)"
    by (simp add: enrich_source_def Let_def split: prod.split option.split)
  then show ?case using Cons.IH by simp
qed simp

lemma same_inputs_publish [simp]: "same_inputs st (control_publish env sources b c st') = same_inputs st st'"
  using same_inputs_enrich
  by (simp add: control_publish_def enrich_xtarget_state_def apply_transient_xtarget_state_def Let_def case_prod_beta)

lemma same_inputs_changed [simp]: "same_inputs st (broadcast_state_changed env st') = same_inputs st st'"
  by (simp add: broadcast_state_changed_def)

lemma same_inputs_notes [simp]:
  "same_inputs st (note_xtarget_rotation env pid st') = same_inputs st st'"
  "same_inputs st (note_eq_action_started env pid action st') = same_inputs st st'"
  "same_inputs st (note_eq_action_delivered env pid action st') = same_inputs st st'"
  "same_inputs st (report_result env pid completion result st') = same_inputs st st'"
  "same_inputs st (record_consider env source_id res t st') = same_inputs st st'"
  by (auto simp: note_xtarget_rotation_def note_eq_action_started_def note_eq_action_delivered_def report_result_def
      record_consider_def Let_def split: option.split InputCompletion.split)

lemma not_among: "pid \<notin> ai_pid ` set todo \<longleftrightarrow> (\<forall>i \<in> set todo. ai_pid i \<noteq> pid)"
  by auto

lemma ctl_ok_taken: "ctl_ok {} (input # todo) st \<Longrightarrow> ctl_ok {ai_pid input} todo st"
  unfolding ctl_ok_def inputs_wf_def engine_shows_def serves_def by simp metis

text \<open>An engine that serves the process \<open>pid\<close> only.\<close>

lemma ctl_ok_engine:
  assumes "ctl_ok E todo st" "ui_broadcast st = Some s" "engine_ok s'"
    "\<And>other. other \<noteq> pid \<Longrightarrow> targeted_keys_of s' other = targeted_keys_of s other"
    "targeted_keys_of s' pid = None \<or> pid \<in> F" "E \<subseteq> insert pid F"
  shows "ctl_ok F todo (st\<lparr>ui_broadcast := Some s'\<rparr>)"
proof -
  have "\<exists>input. serves todo st other input \<and> shows_phase input keys"
    if "other \<notin> F" "targeted_keys_of s' other = Some keys" for other keys
  proof -
    have "other \<noteq> pid" using that assms(5) by auto
    then show ?thesis using that assms(1,2,4,6) by (auto simp: ctl_ok_def engine_shows_def)
  qed
  then show ?thesis using assms(1,3) by (simp add: ctl_ok_def inputs_wf_def engine_shows_def serves_def)
qed

lemma ctl_finish:
  assumes ok: "ctl_ok E todo st" and sub: "E \<subseteq> insert pid F"
  shows "\<exists>engine. finish_targeted_input pid (ui_broadcast st) = Some engine \<and> ctl_ok F todo (st\<lparr>ui_broadcast := engine\<rparr>)"
proof (cases "ui_broadcast st")
  case None
  then show ?thesis using ok by (auto simp: ctl_ok_def inputs_wf_def engine_shows_def)
next
  case (Some s)
  then have "engine_ok s" using ok by (simp add: ctl_ok_def)
  then obtain s' where fin: "finish_targeted_input pid (Some s) = Some (Some s')" "engine_ok s'" "targeted_keys_of s' pid = None"
    "\<And>other. other \<noteq> pid \<Longrightarrow> targeted_keys_of s' other = targeted_keys_of s other"
    by (rule finish_effect [where pid = pid]) (rule that; assumption)
  show ?thesis using ctl_ok_engine [OF ok Some fin(2) fin(4), where F = F] fin(1,3) sub Some by auto
qed

lemma ctl_finish_input:
  assumes ok: "ctl_ok E todo st" and sub: "E \<subseteq> {ai_pid input}"
  shows "\<exists>st'. finish_input env input result st = Some st' \<and> ctl_ok {} todo st'"
proof -
  obtain engine where fin: "finish_targeted_input (ai_pid input) (ui_broadcast st) = Some engine"
    "ctl_ok {} todo (st\<lparr>ui_broadcast := engine\<rparr>)"
    using ctl_finish [OF ok, of "ai_pid input" "{}"] sub by blast
  show ?thesis using fin(1) ctl_ok_same [of "st\<lparr>ui_broadcast := engine\<rparr>"
      "report_result env (ai_pid input) (ai_completion input) result (st\<lparr>ui_broadcast := engine\<rparr>)" "{}" todo] fin(2)
    by (simp add: finish_input_def)
qed

lemma ctl_insert:
  assumes ok: "ctl_ok E todo st" and new: "input_wf input" "ai_pid input = pid" "pid \<notin> ai_pid ` set todo" and timer: "ui_timer st"
    and shows_it: "\<And>s keys. ui_broadcast st = Some s \<Longrightarrow> targeted_keys_of s pid = Some keys \<Longrightarrow> shows_phase input keys"
  shows "ctl_ok (E - {pid}) todo (st\<lparr>ui_active_inputs := bm_insert pid input (ui_active_inputs st)\<rparr>)"
proof -
  have "\<exists>i. serves todo (st\<lparr>ui_active_inputs := bm_insert pid input (ui_active_inputs st)\<rparr>) other i \<and> shows_phase i keys"
    if engine: "ui_broadcast st = Some s" "other \<notin> E - {pid}" "targeted_keys_of s other = Some keys" for s other keys
  proof (cases "other = pid")
    case True
    then show ?thesis using shows_it engine new by (auto simp: serves_def)
  next
    case False
    then show ?thesis using ok engine by (auto simp: ctl_ok_def engine_shows_def serves_def)
  qed
  moreover have "inputs_wf todo (st\<lparr>ui_active_inputs := bm_insert pid input (ui_active_inputs st)\<rparr>)"
    using ok new timer by (auto simp: ctl_ok_def inputs_wf_def not_among)
  ultimately show ?thesis using ok by (simp add: ctl_ok_def engine_shows_def)
qed

lemma ctl_keys_of_head:
  assumes "ctl_ok {} (input # todo) st" "ui_broadcast st = Some s" "targeted_keys_of s (ai_pid input) = Some keys"
  shows "shows_phase input keys"
proof -
  obtain i where i: "serves (input # todo) st (ai_pid input) i" "shows_phase i keys"
    using assms by (auto simp: ctl_ok_def engine_shows_def)
  have "i = input" using i(1) assms(1) by (auto simp: serves_def ctl_ok_def inputs_wf_def not_among simp del: image_iff)
  then show ?thesis using i(2) by simp
qed

lemma ctl_write:
  assumes ok: "ctl_ok {} (input # todo) st" and phase: "ai_phase input \<noteq> PhaseFinish"
  shows "\<exists>r engine. write_keys (ai_pid input) (pressing (ai_phase input))
      (phase_scans (ai_strokes input ! ai_index input) (ai_phase input)) (ui_broadcast st) = Some (r, engine)
    \<and> ctl_ok {ai_pid input} todo (st\<lparr>ui_broadcast := engine\<rparr>)
    \<and> (r = Inr () \<longrightarrow> ctl_ok {} todo (st\<lparr>ui_broadcast := engine,
          ui_active_inputs := bm_insert (ai_pid input) (next_phase input now) (ui_active_inputs st)\<rparr>))"
proof -
  let ?pid = "ai_pid input" and ?scans = "phase_scans (ai_strokes input ! ai_index input) (ai_phase input)"
  have wf: "input_wf input" "?pid \<notin> ai_pid ` set todo" "ui_timer st" using ok by (auto simp: ctl_ok_def inputs_wf_def)
  have taken: "ctl_ok {?pid} todo st" using ok by (rule ctl_ok_taken)
  show ?thesis
  proof (cases "ui_broadcast st")
    case None
    then show ?thesis using ok by (simp add: ctl_ok_def)
  next
    case (Some s)
    obtain r s' where written: "write_keys ?pid (pressing (ai_phase input)) ?scans (Some s) = Some (r, Some s')" "engine_ok s'"
      "\<And>other. other \<noteq> ?pid \<Longrightarrow> targeted_keys_of s' other = targeted_keys_of s other"
      "targeted_keys_of s ?pid = None \<longrightarrow> targeted_keys_of s' ?pid = None"
      "\<And>ks. r = Inr () \<Longrightarrow> targeted_keys_of s ?pid = Some ks \<Longrightarrow> (\<exists>ks'. targeted_keys_of s' ?pid = Some ks'
        \<and> (\<forall>scan < 256. ks' ! scan = (if scan \<in> unat ` set ?scans then pressing (ai_phase input) else ks ! scan)))"
      using write_keys_effect [of s ?pid "pressing (ai_phase input)" ?scans] ok Some by (auto simp: ctl_ok_def)
    have mid: "ctl_ok {?pid} todo (st\<lparr>ui_broadcast := Some s'\<rparr>)"
      using ctl_ok_engine [OF taken Some written(2,3), where F = "{?pid}"] by auto
    have "shows_phase (next_phase input now) keys" if "r = Inr ()" and keys: "targeted_keys_of s' ?pid = Some keys" for keys
    proof -
      obtain ks where ks: "targeted_keys_of s ?pid = Some ks" using written(4) keys by (cases "targeted_keys_of s ?pid") auto
      have old: "\<forall>scan < 256. ks ! scan \<longleftrightarrow> scan \<in> unat ` set (held_scans input)"
        using ctl_keys_of_head [OF ok Some ks] by (simp add: shows_phase_iff)
      have new: "\<forall>scan < 256. keys ! scan = (if scan \<in> unat ` set ?scans then pressing (ai_phase input) else ks ! scan)"
        using written(5) [OF that(1) ks] keys by auto
      have inj: "unat ` (A - B) = unat ` A - unat ` B" for A B :: "u8 set"
        by (rule image_set_diff) (simp add: inj_on_def word_unat_eq_iff)
      show ?thesis using old new held_scans_next [OF wf(1) phase, of now] by (auto simp: shows_phase_iff inj image_Un)
    qed
    then show ?thesis using written(1) Some mid ctl_insert [OF mid next_phase_wf [OF wf(1), of now] _ wf(2)] wf(3) by auto
  qed
qed

lemma note_delivered_same: "same_inputs st (note_eq_action_delivered env pid action st)"
  by simp

lemma ctl_advance_one:
  assumes ok: "ctl_ok {} (input # todo) st"
  shows "\<exists>st'. advance_one_input env input st = Some st' \<and> ctl_ok {} todo st'"
proof -
  have wf: "input_wf input" "ai_pid input \<notin> ai_pid ` set todo" "ui_timer st" using ok by (auto simp: ctl_ok_def inputs_wf_def)
  have taken: "ctl_ok {ai_pid input} todo st" using ok by (rule ctl_ok_taken)
  note finish = ctl_finish_input [OF taken order_refl]
  have kept: "ctl_ok {} todo (st\<lparr>ui_active_inputs := bm_insert (ai_pid input) input (ui_active_inputs st)\<rparr>)"
    using ctl_insert [OF taken wf(1) refl wf(2,3)] ctl_keys_of_head [OF ok] by simp
  have noted: "\<exists>st'. finish_input env input result (case ai_kind input of KindEqAction action \<Rightarrow> note_eq_action_delivered env (ai_pid input) action st
      | KindInput k \<Rightarrow> st) = Some st' \<and> ctl_ok {} todo st'" for result
  proof (rule ctl_finish_input [OF _ order_refl])
    show "ctl_ok {ai_pid input} todo (case ai_kind input of KindEqAction action \<Rightarrow> note_eq_action_delivered env (ai_pid input) action st
      | KindInput k \<Rightarrow> st)"
      by (cases "ai_kind input") (simp_all only: ActiveInputKind.case taken ctl_ok_same [OF note_delivered_same])
  qed
  show ?thesis
  proof (cases "input_completion_is_closed env st (ai_completion input)
      \<or> \<not> list_ex (\<lambda>source. source_pid source = ai_pid input) (ui_latest_sources st)
      \<or> ce_instant env < ai_next_step input \<or> ai_phase input = PhaseFinish")
    case True
    then show ?thesis using finish kept noted unfolding advance_one_input_def by auto
  next
    case False
    then have phase: "ai_phase input \<noteq> PhaseFinish" by blast
    obtain r engine where written: "write_keys (ai_pid input) (pressing (ai_phase input))
      (phase_scans (ai_strokes input ! ai_index input) (ai_phase input)) (ui_broadcast st) = Some (r, engine)"
      "ctl_ok {ai_pid input} todo (st\<lparr>ui_broadcast := engine\<rparr>)"
      "r = Inr () \<Longrightarrow> ctl_ok {} todo (st\<lparr>ui_broadcast := engine,
          ui_active_inputs := bm_insert (ai_pid input) (next_phase input (ce_instant env)) (ui_active_inputs st)\<rparr>)"
      using ctl_write [OF ok phase, of "ce_instant env"] by (elim exE conjE) (rule that; (assumption | erule mp))
    show ?thesis using False written(1,3) ctl_finish_input [OF written(2) order_refl]
      by (cases r) (auto simp: advance_one_input_def)
  qed
qed

lemma ctl_advance_all:
  "ctl_ok {} inputs st \<Longrightarrow> \<exists>st'. advance_all env inputs st = Some st' \<and> ctl_ok {} [] st'"
proof (induction inputs arbitrary: st)
  case (Cons input inputs)
  then show ?case using ctl_advance_one [OF Cons.prems, of env] by fastforce
qed simp

section \<open>Starting and stopping sequences\<close>

definition all_released :: "nat \<Rightarrow> UiState \<Rightarrow> bool" where
  "all_released pid st \<longleftrightarrow> (\<forall>s keys. ui_broadcast st = Some s \<longrightarrow> targeted_keys_of s pid = Some keys \<longrightarrow> (\<forall>scan < 256. \<not> keys ! scan))"

lemma all_released_fields [simp]:
  "all_released pid (st\<lparr>ui_active_inputs := a\<rparr>) = all_released pid st"
  "all_released pid (st\<lparr>ui_timer := t\<rparr>) = all_released pid st"
  by (simp_all add: all_released_def)

lemma ctl_begin:
  assumes ok: "ctl_ok E [] st"
  obtains r engine where "begin_targeted_input pid (ui_broadcast st) = (r, engine)"
    "isl r \<Longrightarrow> engine = ui_broadcast st"
    "\<not> isl r \<Longrightarrow> ctl_ok (insert pid E) [] (st\<lparr>ui_broadcast := engine\<rparr>) \<and> all_released pid (st\<lparr>ui_broadcast := engine\<rparr>)
       \<and> (\<forall>other. other \<noteq> pid \<longrightarrow> all_released other st \<longrightarrow> all_released other (st\<lparr>ui_broadcast := engine\<rparr>))"
proof (cases "ui_broadcast st")
  case None
  then show ?thesis using ok by (simp add: ctl_ok_def)
next
  case (Some s)
  then have "engine_ok s" using ok by (simp add: ctl_ok_def)
  then obtain r s' where begun: "begin_targeted_input pid (Some s) = (r, Some s')" "engine_ok s'"
    "\<And>other. other \<noteq> pid \<Longrightarrow> targeted_keys_of s' other = targeted_keys_of s other"
    "isl r \<Longrightarrow> s' = s"
    "\<not> isl r \<Longrightarrow> \<exists>ks. targeted_keys_of s' pid = Some ks \<and> (\<forall>scan < 256. \<not> ks ! scan)"
    by (rule begin_effect [where pid = pid]) (rule that; assumption)
  have ok': "ctl_ok (insert pid E) [] (st\<lparr>ui_broadcast := Some s'\<rparr>)"
    using ctl_ok_engine [OF ok Some begun(2,3), where F = "insert pid E"] by auto
  have clean: "all_released pid (st\<lparr>ui_broadcast := Some s'\<rparr>)" if "\<not> isl r"
    using begun(5) [OF that] by (auto simp: all_released_def)
  have others: "all_released other st \<longrightarrow> all_released other (st\<lparr>ui_broadcast := Some s'\<rparr>)" if "other \<noteq> pid" for other
    using begun(3) [OF that] Some by (simp add: all_released_def)
  show ?thesis by (rule that [of r "Some s'"]) (use begun(1,4) Some ok' clean others in auto)
qed

lemma ctl_timer: "ctl_ok E todo st \<Longrightarrow> ensure_timer env st = Some st' \<Longrightarrow>
  ctl_ok E todo st' \<and> (todo = [] \<longrightarrow> ui_timer st') \<and> ui_active_inputs st' = ui_active_inputs st
  \<and> ui_broadcast st' = ui_broadcast st"
  by (auto simp: ensure_timer_def ctl_ok_def inputs_wf_def engine_shows_def serves_def split: if_splits)

lemma ctl_acquire:
  assumes ok: "ctl_ok {} [] st"
  obtains r st' where "acquire_input env pid st = Some (r, st')"
    "isl r \<Longrightarrow> ctl_ok {} [] st'"
    "\<not> isl r \<Longrightarrow> ctl_ok {pid} [] st' \<and> ui_timer st' \<and> all_released pid st'"
proof -
  obtain r engine where begun: "begin_targeted_input pid (ui_broadcast st) = (r, engine)"
    "isl r \<Longrightarrow> engine = ui_broadcast st"
    "\<not> isl r \<Longrightarrow> ctl_ok {pid} [] (st\<lparr>ui_broadcast := engine\<rparr>) \<and> all_released pid (st\<lparr>ui_broadcast := engine\<rparr>)
       \<and> (\<forall>other. other \<noteq> pid \<longrightarrow> all_released other st \<longrightarrow> all_released other (st\<lparr>ui_broadcast := engine\<rparr>))"
    by (rule ctl_begin [OF ok, of pid]) (rule that; assumption)
  show ?thesis
  proof (cases r)
    case (Inl error)
    show ?thesis using begun(1,2) Inl ok
      by (intro that [of "Inl (map_targeted_input_error error)" st]) (simp_all add: acquire_input_def)
  next
    case (Inr u)
    have mid: "ctl_ok {pid} [] (st\<lparr>ui_broadcast := engine\<rparr>)" "all_released pid (st\<lparr>ui_broadcast := engine\<rparr>)"
      using begun(3) Inr by auto
    show ?thesis
    proof (cases "ensure_timer env (st\<lparr>ui_broadcast := engine\<rparr>)")
      case None
      obtain engine' where fin: "finish_targeted_input pid engine = Some engine'" "ctl_ok {} [] (st\<lparr>ui_broadcast := engine'\<rparr>)"
        using ctl_finish [OF mid(1), of pid "{}"] by auto
      show ?thesis using begun(1) Inr None fin
        by (intro that [of timer_failed "st\<lparr>ui_broadcast := engine'\<rparr>"]) (simp_all add: acquire_input_def timer_failed_def)
    next
      case (Some st2)
      show ?thesis using begun(1) Inr Some ctl_timer [OF mid(1) Some] mid(2)
        by (intro that [of "Inr ()" st2]) (simp_all add: acquire_input_def all_released_def)
    qed
  qed
qed

lemma new_input_wf: "strokes_ok strokes \<Longrightarrow> input_wf (new_input env pid kind strokes completion)"
  by (simp add: input_wf_def new_input_def strokes_ok_def)

lemma new_input_pid [simp]: "ai_pid (new_input env pid kind strokes completion) = pid"
  by (simp add: new_input_def)

lemma new_input_shows: "(\<forall>scan < 256. \<not> keys ! scan) \<Longrightarrow> shows_phase (new_input env pid kind strokes completion) keys"
  by (simp add: shows_phase_iff held_scans_def new_input_def)

lemma ctl_insert_new:
  assumes ok: "ctl_ok E [] st" and strokes: "strokes_ok strokes" and timer: "ui_timer st" and released: "all_released pid st"
  shows "ctl_ok (E - {pid}) [] (st\<lparr>ui_active_inputs := bm_insert pid (new_input env pid kind strokes completion) (ui_active_inputs st)\<rparr>)"
  by (rule ctl_insert [OF ok new_input_wf [OF strokes] new_input_pid _ timer])
    (use released new_input_shows in \<open>auto simp: all_released_def\<close>)

lemma ctl_start_resolved:
  assumes ok: "ctl_ok {} [] st" and strokes: "strokes_ok strokes"
  shows "\<exists>r' st'. start_resolved_input env client_id kind strokes r st = Some (r', st') \<and> ctl_ok {} [] st'"
proof (cases "resolve_input_pid st client_id")
  case (Inl error)
  then show ?thesis using ok by (simp add: start_resolved_input_def)
next
  case (Inr pid)
  obtain a st' where acquired: "acquire_input env pid st = Some (a, st')"
    "isl a \<Longrightarrow> ctl_ok {} [] st'" "\<not> isl a \<Longrightarrow> ctl_ok {pid} [] st' \<and> ui_timer st' \<and> all_released pid st'"
    by (rule ctl_acquire [OF ok, where env = env and pid = pid]) (rule that; assumption)
  show ?thesis using Inr ok acquired ctl_insert_new [OF _ strokes, of "{pid}" st' pid]
    by (cases a) (auto simp: start_resolved_input_def)
qed

lemma ctl_reply [simp]: "ctl_ok E todo (send_reply env r answer st) = ctl_ok E todo st" "ctl_ok E todo (answer_error env r e st) = ctl_ok E todo st"
  by (simp_all add: answer_error_def ctl_ok_same [OF same_inputs_reply [THEN iffD2, OF same_inputs_refl]])

lemma ctl_start_input:
  assumes ok: "ctl_ok {} [] st" and strokes: "\<And>ss. resolved = Inr ss \<Longrightarrow> strokes_ok ss"
  shows "\<exists>st'. start_input env client_id kind resolved r st = Some st' \<and> ctl_ok {} [] st'"
proof (cases resolved)
  case (Inl error)
  then show ?thesis using ok by (simp add: start_input_def)
next
  case (Inr ss)
  obtain r' st' where started: "start_resolved_input env client_id kind ss r st = Some (r', st')" "ctl_ok {} [] st'"
    using ctl_start_resolved [OF ok strokes [OF Inr]] by blast
  show ?thesis using Inr started by (cases r') (simp_all add: start_input_def)
qed

lemma collect_all_length: "collect_all f xs = Inr ys \<Longrightarrow> length ys = length xs"
  by (induction xs arbitrary: ys) (auto split: sum.splits simp: and_then_def)

lemma code_points_nonempty: "t \<noteq> [] \<Longrightarrow> code_points t \<noteq> []"
  by (cases t rule: code_points.cases) auto

lemma collect_all_all: "collect_all f xs = Inr ys \<Longrightarrow> \<forall>x \<in> set xs. \<forall>y. f x = Inr y \<longrightarrow> P y \<Longrightarrow> list_all P ys"
  by (induction xs arbitrary: ys) (auto split: sum.splits simp: and_then_def)

lemma text_strokes_ok:
  "and_then (validate_text_input t) (\<lambda>_. resolve_text_strokes ks vs t submit) = Inr ss \<Longrightarrow> strokes_ok ss"
proof -
  assume resolved: "and_then (validate_text_input t) (\<lambda>_. resolve_text_strokes ks vs t submit) = Inr ss"
  then obtain strokes where strokes: "collect_all (resolve_character ks vs) (code_points t) = Inr strokes" "t \<noteq> []"
    "ss = strokes @ (if submit then [\<lparr>rs_scans = [0x1c], rs_hold = DEFAULT_KEY_HOLD_MS, rs_pause = 0\<rparr>] else [])"
    by (auto simp: and_then_Inr resolve_text_strokes_def validate_text_input_def split: if_splits)
  have "rs_hold y \<le> MAX_INPUT_DURATION_MS \<and> rs_pause y \<le> MAX_INPUT_DURATION_MS" if "resolve_character ks vs c = Inr y" for c y
    using that by (auto simp: resolve_character_def Let_def input_resolution_error_def MAX_INPUT_DURATION_MS_def
        DEFAULT_KEY_HOLD_MS_def DEFAULT_KEY_PAUSE_MS_def split: if_splits)
  then have "list_all (\<lambda>y. rs_hold y \<le> MAX_INPUT_DURATION_MS \<and> rs_pause y \<le> MAX_INPUT_DURATION_MS) strokes"
    by (intro collect_all_all [OF strokes(1)]) blast
  then show ?thesis using strokes(2,3) collect_all_length [OF strokes(1)] code_points_nonempty [OF strokes(2)]
    by (auto simp: strokes_ok_def DEFAULT_KEY_HOLD_MS_def MAX_INPUT_DURATION_MS_def)
qed

lemma key_strokes_ok:
  "and_then (validate_key_strokes strokes) (\<lambda>_. resolve_key_strokes strokes) = Inr ss \<Longrightarrow> strokes_ok ss"
proof -
  assume "and_then (validate_key_strokes strokes) (\<lambda>_. resolve_key_strokes strokes) = Inr ss"
  then have resolved: "resolve_key_strokes strokes = Inr ss" "strokes \<noteq> []"
    "sum_list (map (\<lambda>s. ks_hold_ms s + ks_pause_ms s) strokes) \<le> MAX_INPUT_DURATION_MS"
    by (auto simp: and_then_Inr validate_key_strokes_def split: if_splits)
  have "ks_hold_ms x \<le> MAX_INPUT_DURATION_MS \<and> ks_pause_ms x \<le> MAX_INPUT_DURATION_MS" if "x \<in> set strokes" for x
    using member_le_sum_list [of "ks_hold_ms x + ks_pause_ms x" "map (\<lambda>s. ks_hold_ms s + ks_pause_ms s) strokes"] that resolved(3) by auto
  then have "list_all (\<lambda>y. rs_hold y \<le> MAX_INPUT_DURATION_MS \<and> rs_pause y \<le> MAX_INPUT_DURATION_MS) ss"
    using resolved(1) unfolding resolve_key_strokes_def
    by (intro collect_all_all) (auto simp: input_resolution_error_def split: if_splits)
  then show ?thesis using resolved(1,2) by (auto simp: strokes_ok_def resolve_key_strokes_def dest: collect_all_length)
qed

lemma action_stroke_ok: "strokes_ok [action_stroke scans]"
  by (simp add: strokes_ok_def action_stroke_def DEFAULT_KEY_HOLD_MS_def MAX_INPUT_DURATION_MS_def)

lemma ctl_start_action:
  assumes ok: "ctl_ok {} [] st"
  shows "\<exists>st'. start_eq_action env client_id action r st = Some st' \<and> ctl_ok {} [] st'"
proof -
  have rot: "ctl_ok {} [] (if b then note_xtarget_rotation env pid st else st)" for b pid
    using ok ctl_ok_same [of st "note_xtarget_rotation env pid st"] by simp
  have started: "\<exists>r' st'. start_resolved_input env client_id kind [action_stroke scans] r st0 = Some (r', st') \<and> ctl_ok {} [] st'"
    if "ctl_ok {} [] st0" for kind scans st0
    by (rule ctl_start_resolved [OF that action_stroke_ok])
  have noted: "ctl_ok {} [] (note_eq_action_started env pid action st0)" if "ctl_ok {} [] st0" for pid st0
    using that ctl_ok_same [of st0 "note_eq_action_started env pid action st0"] by simp
  show ?thesis
  proof (cases "eq_action_validate action")
    case (Inl error)
    then show ?thesis using ok by (simp add: start_eq_action_def)
  next
    case (Inr u)
    show ?thesis
    proof (cases "lookup_input_source st client_id")
      case (Inl error)
      then show ?thesis using Inr ok by (simp add: start_eq_action_def)
    next
      case source: (Inr source)
      define st1 where "st1 = (if xtarget_slot_from_mapping (eq_action_mapping_name action) \<noteq> None
        then note_xtarget_rotation env (source_pid source) st else st)"
      have ok1: "ctl_ok {} [] st1" unfolding st1_def by (rule rot)
      show ?thesis
      proof (cases "and_then (ensure_input_source_ready st1 source) (\<lambda>_. resolve_action_for_source env source action)")
        case (Inl error)
        then show ?thesis using Inr source ok1 by (simp add: start_eq_action_def st1_def Let_def)
      next
        case scans: (Inr scans)
        obtain r' st' where go: "start_resolved_input env client_id (KindEqAction action) [action_stroke scans] r st1 = Some (r', st')"
          "ctl_ok {} [] st'" using started [OF ok1] by blast
        show ?thesis
          by (cases r') (use Inr source scans go noted [OF go(2)] in \<open>simp_all add: start_eq_action_def st1_def Let_def\<close>)
      qed
    qed
  qed
qed

lemma ctl_invite:
  assumes ok: "ctl_ok {} [] st"
  shows "\<exists>r' st'. send_invite_follow env pid st = Some (r', st') \<and> ctl_ok {} [] st'"
proof (cases "resolve_local_eq_action env pid InviteFollow st")
  case (Inl error)
  then show ?thesis using ok by (simp add: send_invite_follow_def)
next
  case (Inr stroke)
  obtain a st' where acquired: "acquire_input env pid st = Some (a, st')"
    "isl a \<Longrightarrow> ctl_ok {} [] st'" "\<not> isl a \<Longrightarrow> ctl_ok {pid} [] st' \<and> ui_timer st' \<and> all_released pid st'"
    by (rule ctl_acquire [OF ok, where env = env and pid = pid]) (rule that; assumption)
  obtain scans where "stroke = action_stroke scans"
    using Inr by (auto simp: resolve_local_eq_action_def and_then_Inr map_sum_def split: if_splits option.splits sum.splits)
  then have stroke: "strokes_ok [stroke]" by (simp add: action_stroke_ok)
  show ?thesis using Inr acquired stroke ctl_insert_new [of "{pid}" st' "[stroke]" pid]
    by (cases a) (auto simp: send_invite_follow_def)
qed

text \<open>Batches: every target is taken, or those already taken are given back.\<close>

lemma ctl_finish_all:
  "ctl_ok E [] st \<Longrightarrow> E \<subseteq> set pids \<Longrightarrow>
   \<exists>engine. finish_all pids (ui_broadcast st) = Some engine \<and> ctl_ok {} [] (st\<lparr>ui_broadcast := engine\<rparr>)"
proof (induction pids arbitrary: E st)
  case Nil
  then show ?case by simp
next
  case (Cons pid pids)
  obtain engine where fin: "finish_targeted_input pid (ui_broadcast st) = Some engine" "ctl_ok (E - {pid}) [] (st\<lparr>ui_broadcast := engine\<rparr>)"
    using ctl_finish [OF Cons.prems(1), of pid "E - {pid}"] by auto
  have "E - {pid} \<subseteq> set pids" using Cons.prems(2) by auto
  from Cons.IH [OF fin(2) this] show ?case using fin(1) by simp
qed

lemma ctl_acquire_all:
  "ctl_ok (set acquired) [] st \<Longrightarrow> \<forall>pid \<in> set acquired. all_released pid st \<Longrightarrow>
   \<exists>r engine. acquire_all acquired pids (ui_broadcast st) = Some (r, engine)
     \<and> (isl r \<longrightarrow> ctl_ok {} [] (st\<lparr>ui_broadcast := engine\<rparr>))
     \<and> (\<not> isl r \<longrightarrow> ctl_ok (set (acquired @ pids)) [] (st\<lparr>ui_broadcast := engine\<rparr>)
           \<and> (\<forall>pid \<in> set (acquired @ pids). all_released pid (st\<lparr>ui_broadcast := engine\<rparr>)))"
proof (induction pids arbitrary: acquired st)
  case Nil
  then show ?case by simp
next
  case (Cons pid pids)
  obtain r engine where begun: "begin_targeted_input pid (ui_broadcast st) = (r, engine)"
    "isl r \<Longrightarrow> engine = ui_broadcast st"
    "\<not> isl r \<Longrightarrow> ctl_ok (insert pid (set acquired)) [] (st\<lparr>ui_broadcast := engine\<rparr>) \<and> all_released pid (st\<lparr>ui_broadcast := engine\<rparr>)
       \<and> (\<forall>other. other \<noteq> pid \<longrightarrow> all_released other st \<longrightarrow> all_released other (st\<lparr>ui_broadcast := engine\<rparr>))"
    by (rule ctl_begin [OF Cons.prems(1), of pid]) (rule that; assumption)
  show ?case
  proof (cases r)
    case (Inl error)
    then show ?thesis using begun(1,2) ctl_finish_all [OF Cons.prems(1), of acquired] by auto
  next
    case (Inr u)
    have "ctl_ok (set (acquired @ [pid])) [] (st\<lparr>ui_broadcast := engine\<rparr>)"
      "\<forall>p \<in> set (acquired @ [pid]). all_released p (st\<lparr>ui_broadcast := engine\<rparr>)"
      using begun(3) Inr Cons.prems(2) by auto
    from Cons.IH [OF this] show ?thesis using begun(1) Inr by simp
  qed
qed

lemma ctl_insert_prepared:
  "ctl_ok E [] st \<Longrightarrow> ui_timer st \<Longrightarrow> \<forall>input \<in> set prepared. all_released (pi_pid input) st \<and> strokes_ok [pi_stroke input] \<Longrightarrow>
   ctl_ok (E - pi_pid ` set prepared) [] (st\<lparr>ui_active_inputs := fold (\<lambda>input. bm_insert (pi_pid input)
     (new_input env (pi_pid input) kind [pi_stroke input] completion)) prepared (ui_active_inputs st)\<rparr>)"
proof (induction prepared arbitrary: E st)
  case Nil
  then show ?case by simp
next
  case (Cons input prepared)
  have "ctl_ok (E - {pi_pid input}) [] (st\<lparr>ui_active_inputs := bm_insert (pi_pid input)
      (new_input env (pi_pid input) kind [pi_stroke input] completion) (ui_active_inputs st)\<rparr>)"
    using ctl_insert_new [OF Cons.prems(1), of "[pi_stroke input]" "pi_pid input"] Cons.prems(2,3) by simp
  from Cons.IH [OF this] have "ctl_ok (E - {pi_pid input} - pi_pid ` set prepared) [] (st\<lparr>ui_active_inputs :=
      fold (\<lambda>input. bm_insert (pi_pid input) (new_input env (pi_pid input) kind [pi_stroke input] completion)) prepared
        (bm_insert (pi_pid input) (new_input env (pi_pid input) kind [pi_stroke input] completion) (ui_active_inputs st))\<rparr>)"
    using Cons.prems(2,3) by simp
  moreover have "E - pi_pid ` set (input # prepared) = E - {pi_pid input} - pi_pid ` set prepared" by auto
  ultimately show ?case by (simp only: fold_simps)
qed

lemma prepared_strokes_ok:
  "prepare_eq_action_batch env targets action st = Inr prepared \<Longrightarrow> \<forall>input \<in> set prepared. strokes_ok [pi_stroke input]"
proof -
  assume "prepare_eq_action_batch env targets action st = Inr prepared"
  then obtain sources where "collect_all (prepare_batch_input env st action) sources = Inr prepared"
    by (auto simp: prepare_eq_action_batch_def and_then_Inr split: if_splits)
  then have "list_all (\<lambda>input. strokes_ok [pi_stroke input]) prepared"
    by (rule collect_all_all) (auto simp: prepare_batch_input_def Let_def action_stroke_ok split: if_splits sum.splits)
  then show ?thesis by (simp add: list_all_iff)
qed

lemma ctl_start_batch:
  assumes ok: "ctl_ok {} [] st"
  shows "\<exists>st'. start_eq_action_batch env targets action r st = Some st' \<and> ctl_ok {} [] st'"
proof (cases "ce_reply_closed env r \<or> isl (prepare_eq_action_batch env targets action st)")
  case True
  then show ?thesis using ok by (cases "prepare_eq_action_batch env targets action st") (auto simp: start_eq_action_batch_def)
next
  case False
  then obtain prepared where open_batch: "\<not> ce_reply_closed env r" "prepare_eq_action_batch env targets action st = Inr prepared"
    by (cases "prepare_eq_action_batch env targets action st") auto
  have strokes: "\<forall>input \<in> set prepared. strokes_ok [pi_stroke input]"
    by (rule prepared_strokes_ok [OF open_batch(2)])
  obtain a engine where acquired: "acquire_all [] (map pi_pid prepared) (ui_broadcast st) = Some (a, engine)"
    "isl a \<longrightarrow> ctl_ok {} [] (st\<lparr>ui_broadcast := engine\<rparr>)"
    "\<not> isl a \<longrightarrow> ctl_ok (pi_pid ` set prepared) [] (st\<lparr>ui_broadcast := engine\<rparr>)
       \<and> (\<forall>pid \<in> pi_pid ` set prepared. all_released pid (st\<lparr>ui_broadcast := engine\<rparr>))"
    using ctl_acquire_all [of "[]" st "map pi_pid prepared"] ok by auto
  show ?thesis
  proof (cases a)
    case (Inl error)
    then show ?thesis using open_batch acquired by (simp add: start_eq_action_batch_def)
  next
    case (Inr u)
    let ?st1 = "st\<lparr>ui_broadcast := engine\<rparr>"
    have mid: "ctl_ok (pi_pid ` set prepared) [] ?st1" "\<forall>input \<in> set prepared. all_released (pi_pid input) ?st1"
      using acquired(3) Inr by auto
    show ?thesis
    proof (cases "ensure_timer env ?st1")
      case None
      then show ?thesis using open_batch acquired(1) Inr ctl_finish_all [OF mid(1), of "map pi_pid prepared"]
        by (auto simp: start_eq_action_batch_def)
    next
      case (Some st2)
      have timed: "ctl_ok (pi_pid ` set prepared) [] st2" "ui_timer st2"
        "\<forall>input \<in> set prepared. all_released (pi_pid input) st2 \<and> strokes_ok [pi_stroke input]"
        using ctl_timer [OF mid(1) Some] mid(2) strokes by (auto simp: all_released_def)
      have "ctl_ok {} [] (register_batch env action prepared r st2)"
        using ctl_insert_prepared [OF timed, of env "KindEqAction action"]
        by (simp add: register_batch_def Let_def ctl_ok_def inputs_wf_def engine_shows_def serves_def)
      then show ?thesis using open_batch acquired(1) Inr Some by (simp add: start_eq_action_batch_def)
    qed
  qed
qed

section \<open>The steps of the bridge\<close>

datatype CtlOp = CtlCommand UiCommand | CtlTimer | CtlInvite nat | CtlToggle | CtlPublish
  | CtlConsider string ConsiderResult nat | CtlEngine BroadcastOp | CtlStop

fun ctl_step :: "uppercase \<Rightarrow> (nat \<Rightarrow> nat) \<Rightarrow> CtlEnv \<Rightarrow> CtlOp \<Rightarrow> UiState \<Rightarrow> UiState option" where
  "ctl_step upper vts env (CtlCommand command) st = run_command env command st"
| "ctl_step upper vts env CtlTimer st = advance_input env st"
| "ctl_step upper vts env (CtlInvite pid) st = map_option snd (send_invite_follow env pid st)"
| "ctl_step upper vts env CtlToggle st = toggle_broadcast_on_ui env st"
| "ctl_step upper vts env CtlPublish st = Some (broadcast_state_changed env st)"
| "ctl_step upper vts env (CtlConsider source_id result observed_at) st = Some (record_consider env source_id result observed_at st)"
| "ctl_step upper vts env (CtlEngine op) st =
     (case ui_broadcast st of None \<Rightarrow> Some st
      | Some s \<Rightarrow> map_option (\<lambda>s'. st\<lparr>ui_broadcast := Some s'\<rparr>) (broadcast_step upper vts (ce_win env) op s))"
| "ctl_step upper vts env CtlStop st = control_stop st"

fun ctl_run :: "uppercase \<Rightarrow> (nat \<Rightarrow> nat) \<Rightarrow> (CtlEnv \<times> CtlOp) list \<Rightarrow> UiState \<Rightarrow> UiState option" where
  "ctl_run upper vts [] st = Some st"
| "ctl_run upper vts ((env, op) # steps) st = Option.bind (ctl_step upper vts env op st) (ctl_run upper vts steps)"

text \<open>What is asked of the environment: sound regions, and a hash map that yields each of its keys once.\<close>

definition ctl_env_ok :: "CtlEnv \<Rightarrow> bool" where
  "ctl_env_ok env \<longleftrightarrow> env_ok (ce_win env) \<and> (\<forall>pids. mset (ce_order env pids) = mset pids)"

definition ctl_op_ok :: "CtlOp \<Rightarrow> bool" where
  "ctl_op_ok op = (case op of CtlEngine engine_op \<Rightarrow> foreign_op engine_op | _ \<Rightarrow> True)"

lemma ctl_ok_foreign:
  assumes ok: "ctl_ok E todo st" and engine: "ui_broadcast st = Some s" "engine_ok s'" "targeted_frame s s'"
  shows "ctl_ok E todo (st\<lparr>ui_broadcast := Some s'\<rparr>)"
proof -
  have "\<exists>input. serves todo st pid input \<and> shows_phase input keys"
    if pid: "pid \<notin> E" "targeted_keys_of s' pid = Some keys" for pid keys
  proof -
    have "targeted_keys_of s pid = Some keys" using engine(3) pid(2) unfolding targeted_frame_def by (metis option.simps(3))
    then show ?thesis using ok engine(1) pid(1) by (simp add: ctl_ok_def engine_shows_def)
  qed
  then show ?thesis using ok engine(2) by (simp add: ctl_ok_def inputs_wf_def engine_shows_def serves_def)
qed

lemma taken_order:
  assumes ok: "ctl_ok {} [] st" and perm: "mset order = mset (bm_keys (ui_active_inputs st))"
  shows "ctl_ok {} (map (\<lambda>pid. the (bm_get (ui_active_inputs st) pid)) order) (st\<lparr>ui_active_inputs := []\<rparr>)"
proof -
  have keys: "distinct order" "set order = set (bm_keys (ui_active_inputs st))"
    using ok bm_wf_distinct [of "ui_active_inputs st"] perm mset_eq_imp_distinct_iff [OF perm] mset_eq_setD [OF perm]
    by (auto simp: ctl_ok_def inputs_wf_def)
  have entry: "\<exists>i. bm_get (ui_active_inputs st) pid = Some i \<and> ai_pid i = pid \<and> input_wf i" if "pid \<in> set order" for pid
    using that ok keys(2) bm_contains_iff [of "ui_active_inputs st" pid]
    by (auto simp: ctl_ok_def inputs_wf_def bm_contains_def)
  have pids: "map (ai_pid \<circ> (\<lambda>pid. the (bm_get (ui_active_inputs st) pid))) order = order"
    by (rule map_idI) (use entry in fastforce)
  have timer: "order \<noteq> [] \<longrightarrow> ui_timer st" using ok keys(2) by (auto simp: ctl_ok_def inputs_wf_def)
  have wf: "inputs_wf (map (\<lambda>pid. the (bm_get (ui_active_inputs st) pid)) order) (st\<lparr>ui_active_inputs := []\<rparr>)"
    using entry timer keys(1) pids by (fastforce simp: inputs_wf_def)
  have "\<exists>input. serves (map (\<lambda>pid. the (bm_get (ui_active_inputs st) pid)) order) (st\<lparr>ui_active_inputs := []\<rparr>) pid input \<and> shows_phase input keys"
    if engine: "ui_broadcast st = Some s" "targeted_keys_of s pid = Some keys" for s pid keys
  proof -
    obtain input where input: "bm_get (ui_active_inputs st) pid = Some input" "ai_pid input = pid" "shows_phase input keys"
      using ok engine by (auto simp: ctl_ok_def engine_shows_def serves_def)
    have "pid \<in> set order" using input(1) keys(2) bm_contains_iff [of "ui_active_inputs st" pid] by (simp add: bm_contains_def)
    then show ?thesis using input by (intro exI [of _ input]) (force simp: serves_def)
  qed
  then show ?thesis using ok wf by (simp add: ctl_ok_def engine_shows_def)
qed

lemma ctl_advance:
  assumes ok: "ctl_ok {} [] st" and env: "ctl_env_ok env"
  shows "\<exists>st'. advance_input env st = Some st' \<and> ctl_ok {} [] st'"
proof -
  have idle: "ctl_ok {} [] (kill_timer_if_idle st')" if "ctl_ok {} [] st'" for st'
    using that by (cases "ui_active_inputs st' = []") (auto simp: kill_timer_if_idle_def ctl_ok_def inputs_wf_def engine_shows_def serves_def)
  have "ctl_ok {} (map (\<lambda>pid. the (bm_get (ui_active_inputs st) pid)) (ce_order env (bm_keys (ui_active_inputs st))))
      (st\<lparr>ui_active_inputs := []\<rparr>)"
    by (rule taken_order [OF ok]) (use env in \<open>simp add: ctl_env_ok_def\<close>)
  from ctl_advance_all [OF this, of env] show ?thesis
    using idle ok by (auto simp: advance_input_def)
qed

lemma ctl_stop:
  assumes ok: "ctl_ok {} [] st"
  shows "\<exists>st'. control_stop st = Some st' \<and> ctl_ok {} [] st'"
proof -
  have unserved: "targeted_keys_of s pid = None" if engine: "ui_broadcast st = Some s" "pid \<notin> set (bm_keys (ui_active_inputs st))" for s pid
  proof (rule ccontr)
    assume "targeted_keys_of s pid \<noteq> None"
    then obtain input where "bm_get (ui_active_inputs st) pid = Some input"
      using ok engine(1) by (auto simp: ctl_ok_def engine_shows_def serves_def)
    then show False using engine(2) bm_contains_iff [of "ui_active_inputs st" pid] by (simp add: bm_contains_def)
  qed
  have "ctl_ok (set (bm_keys (ui_active_inputs st))) [] (st\<lparr>ui_active_inputs := []\<rparr>)"
    using ok unserved by (simp add: ctl_ok_def inputs_wf_def engine_shows_def)
  from ctl_finish_all [OF this order_refl] obtain engine where
    "finish_all (bm_keys (ui_active_inputs st)) (ui_broadcast st) = Some engine"
    "ctl_ok {} [] (st\<lparr>ui_active_inputs := [], ui_broadcast := engine\<rparr>)" by auto
  then show ?thesis by (simp add: control_stop_def ctl_ok_def inputs_wf_def engine_shows_def serves_def)
qed

lemma ctl_set_broadcast:
  assumes ok: "ctl_ok {} [] st"
  shows "\<exists>r st'. set_broadcast_on_ui env enabled st = Some (r, st') \<and> ctl_ok {} [] st'"
proof (cases "ui_broadcast st")
  case None
  then show ?thesis using ok by (simp add: set_broadcast_on_ui_def)
next
  case (Some s)
  then have s: "engine_ok s" using ok by (simp add: ctl_ok_def)
  obtain r s' where set: "set_active (ce_win env) enabled s = Some (r, s')" "engine_ok s'"
    by (rule set_active_keeps [OF s, where env = "ce_win env" and active = enabled]) (rule that; assumption)
  have ok': "ctl_ok {} [] (st\<lparr>ui_broadcast := Some s'\<rparr>)"
    by (rule ctl_ok_foreign [OF ok Some set(2) targeted_frame_set_active [OF targeted_frame_refl set(1)]])
  have "ctl_ok {} [] (broadcast_state_changed env (st\<lparr>ui_broadcast := Some s'\<rparr>))"
    using ok' ctl_ok_same [of "st\<lparr>ui_broadcast := Some s'\<rparr>" "broadcast_state_changed env (st\<lparr>ui_broadcast := Some s'\<rparr>)"] by simp
  then show ?thesis using Some set(1) ok' by (cases r) (simp_all add: set_broadcast_on_ui_def)
qed

lemma ctl_changed: "ctl_ok E todo st \<Longrightarrow> ctl_ok E todo (broadcast_state_changed env st)"
  using ctl_ok_same [of st "broadcast_state_changed env st"] by simp

lemma ctl_clutch_hold:
  assumes ok: "ctl_ok {} [] st"
  shows "ctl_ok {} [] (snd (update_mouse_clutch_hold_on_ui env owner operation sequence st))"
proof (cases "ui_broadcast st")
  case None
  then show ?thesis using ok by (simp add: ctl_ok_def)
next
  case (Some s)
  then have s: "engine_ok s" using ok by (simp add: ctl_ok_def)
  obtain r s' where held: "update_remote_mouse_clutch_hold (ce_win env) owner operation sequence (Some s) = (r, Some s')" "engine_ok s'"
    using update_remote_keeps [OF s] by blast
  have "ctl_ok {} [] (st\<lparr>ui_broadcast := Some s'\<rparr>)"
    by (rule ctl_ok_foreign [OF ok Some held(2) targeted_frame_remote [OF targeted_frame_refl, of "ce_win env" owner operation sequence]])
      (simp add: held(1))
  then show ?thesis using Some held(1)
    by (cases r) (simp_all add: update_mouse_clutch_hold_on_ui_def ctl_changed)
qed

lemma ctl_end_session:
  assumes ok: "ctl_ok {} [] st"
  shows "ctl_ok {} [] (end_mouse_clutch_session_on_ui env session_id sequence st)"
proof (cases "ui_broadcast st")
  case None
  then show ?thesis using ok by (simp add: ctl_ok_def)
next
  case (Some s)
  then have s: "engine_ok s" using ok by (simp add: ctl_ok_def)
  have "ctl_ok {} [] (st\<lparr>ui_broadcast := Some (end_remote_mouse_clutch_session (ce_win env) session_id sequence s)\<rparr>)"
    by (rule ctl_ok_foreign [OF ok Some end_session_keeps [OF s] targeted_frame_end_session [OF targeted_frame_refl]])
  then show ?thesis using Some by (simp add: end_mouse_clutch_session_on_ui_def ctl_changed)
qed

lemma ctl_command:
  assumes ok: "ctl_ok {} [] st"
  shows "\<exists>st'. run_command env command st = Some st' \<and> ctl_ok {} [] st'"
proof (cases command)
  case (UiSetBroadcast enabled r)
  obtain x st' where "set_broadcast_on_ui env enabled st = Some (x, st')" "ctl_ok {} [] st'"
    using ctl_set_broadcast [OF ok] by blast
  then show ?thesis by (simp add: UiSetBroadcast run_command_def)
next
  case (UiUpdateMouseClutchHold owner operation sequence r)
  show ?thesis using ctl_clutch_hold [OF ok, of env owner operation sequence]
    by (cases "update_mouse_clutch_hold_on_ui env owner operation sequence st") (simp add: UiUpdateMouseClutchHold run_command_def)
next
  case (UiSendText client_id t submit r)
  show ?thesis unfolding UiSendText run_command_def UiCommand.case start_text_input_def
    by (rule ctl_start_input [OF ok]) (rule text_strokes_ok)
next
  case (UiSendKeys client_id strokes r)
  show ?thesis unfolding UiSendKeys run_command_def UiCommand.case start_key_input_def
    by (rule ctl_start_input [OF ok]) (rule key_strokes_ok)
qed (simp_all add: run_command_def ok ctl_start_action ctl_start_batch ctl_end_session)

lemma ctl_step_ok:
  assumes ok: "ctl_ok {} [] st" and env: "ctl_env_ok env" and op: "ctl_op_ok op"
  shows "\<exists>st'. ctl_step upper vts env op st = Some st' \<and> ctl_ok {} [] st'"
proof (cases op)
  case (CtlInvite pid)
  obtain r st' where "send_invite_follow env pid st = Some (r, st')" "ctl_ok {} [] st'"
    using ctl_invite [OF ok] by blast
  then show ?thesis by (simp add: CtlInvite)
next
  case CtlToggle
  obtain r st' where "set_broadcast_on_ui env (\<not> is_some_and (ui_broadcast st) be_broadcasting) st = Some (r, st')" "ctl_ok {} [] st'"
    using ctl_set_broadcast [OF ok] by blast
  then show ?thesis by (simp add: CtlToggle toggle_broadcast_on_ui_def)
next
  case (CtlConsider source_id result observed_at)
  then show ?thesis using ok ctl_ok_same [of st "record_consider env source_id result observed_at st"] by simp
next
  case (CtlEngine engine_op)
  show ?thesis
  proof (cases "ui_broadcast st")
    case None
    then show ?thesis using ok by (simp add: CtlEngine)
  next
    case (Some s)
    then have s: "engine_ok s" using ok by (simp add: ctl_ok_def)
    obtain s' where stepped: "broadcast_step upper vts (ce_win env) engine_op s = Some s'" "engine_ok s'"
      using step_keeps [OF _ s, of "ce_win env" upper vts engine_op] env by (auto simp: ctl_env_ok_def)
    have "ctl_ok {} [] (st\<lparr>ui_broadcast := Some s'\<rparr>)"
      by (rule ctl_ok_foreign [OF ok Some stepped(2) targeted_frame_step [OF _ stepped(1)]])
        (use op CtlEngine in \<open>simp add: ctl_op_ok_def\<close>)
    then show ?thesis using Some stepped(1) by (simp add: CtlEngine)
  qed
qed (simp_all add: ok env ctl_command ctl_advance ctl_changed ctl_stop)

lemma ctl_run_ok:
  "list_all (\<lambda>(env, op). ctl_env_ok env \<and> ctl_op_ok op) steps \<Longrightarrow> ctl_ok {} [] st \<Longrightarrow>
   \<exists>st'. ctl_run upper vts steps st = Some st' \<and> ctl_ok {} [] st'"
proof (induction steps arbitrary: st)
  case (Cons step steps)
  obtain env op where step: "step = (env, op)" by fastforce
  obtain mid where mid: "ctl_step upper vts env op st = Some mid" "ctl_ok {} [] mid"
    using ctl_step_ok [OF Cons.prems(2)] Cons.prems(1) step by fastforce
  show ?case using Cons.IH [OF _ mid(2)] Cons.prems(1) mid(1) step by simp
qed simp

lemma ctl_start_ok: "ctl_ok {} [] (ui_start (Some (broadcast_init env upper vts cfg)))"
proof -
  have "be_targets (broadcast_init env upper vts cfg) = []"
    by (auto simp: broadcast_init_def Let_def dest: reconcile_hooks_frame_eq(1) split: prod.split sum.split)
  then show ?thesis using init_ok [of env upper vts cfg]
    by (simp add: ctl_ok_def inputs_wf_def engine_shows_def ui_start_def targeted_keys_of_def)
qed

text \<open>
  C3. Whatever commands arrive, timers fire and keys are typed, in any order: the bridge never
  stops short, the targeted keys a background client is shown are the keys of the phase its
  sequence is in and of no other, a client without a sequence is shown none, and the timer runs
  while a sequence is waiting for it.
\<close>

theorem keys_follow_phase:
  assumes "list_all (\<lambda>(env, op). ctl_env_ok env \<and> ctl_op_ok op) steps"
  shows "\<exists>st s. ctl_run upper vts steps (ui_start (Some (broadcast_init env0 upper vts cfg))) = Some st \<and> ui_broadcast st = Some s
    \<and> (\<forall>pid shm. bm_get (be_targets s) pid = Some shm \<longrightarrow> (\<forall>scan < 256. key_down (shm_ptr shm) scan
        = (shm_broadcast_keys shm ! scan \<or> (shm_targeted_active shm \<and> (\<exists>input. bm_get (ui_active_inputs st) pid = Some input
             \<and> scan \<in> unat ` set (held_scans input))))))
    \<and> (ui_active_inputs st \<noteq> [] \<longrightarrow> ui_timer st)"
proof -
  obtain st where run: "ctl_run upper vts steps (ui_start (Some (broadcast_init env0 upper vts cfg))) = Some st" "ctl_ok {} [] st"
    using ctl_run_ok [OF assms ctl_start_ok] by blast
  then obtain s where s: "ui_broadcast st = Some s" "engine_ok s"
    by (cases "ui_broadcast st") (simp_all add: ctl_ok_def)
  have "key_down (shm_ptr shm) scan = (shm_broadcast_keys shm ! scan \<or> (shm_targeted_active shm
      \<and> (\<exists>input. bm_get (ui_active_inputs st) pid = Some input \<and> scan \<in> unat ` set (held_scans input))))"
    if shm: "bm_get (be_targets s) pid = Some shm" "scan < 256" for pid shm scan
  proof -
    have region: "region_ok (be_broadcasting s) (be_active_pid s) pid shm" by (rule engine_ok_get [OF s(2) shm(1)])
    then have merged: "key_down (shm_ptr shm) scan = (shm_broadcast_keys shm ! scan \<or> shm_targeted_keys shm ! scan)"
      using shm(2) by (simp add: region_ok_def shm_ok_def keys_merged_def)
    show ?thesis
    proof (cases "shm_targeted_active shm")
      case False
      then show ?thesis using merged region_ok_targeted [OF region _ shm(2)] by simp
    next
      case True
      then have "targeted_keys_of s pid = Some (shm_targeted_keys shm)" using shm(1) by (simp add: targeted_keys_of_def)
      then obtain input where "bm_get (ui_active_inputs st) pid = Some input" "shows_phase input (shm_targeted_keys shm)"
        using run(2) s(1) by (auto simp: ctl_ok_def engine_shows_def serves_def)
      then show ?thesis using merged True shm(2) by (simp add: shows_phase_iff)
    qed
  qed
  then show ?thesis using run s(1) by (auto simp: ctl_ok_def inputs_wf_def)
qed

text \<open>A system with two clients, whose second one is sent the key \<open>w\<close>.\<close>

definition demo_ctl_env :: "nat \<Rightarrow> CtlEnv" where
  "demo_ctl_env now = \<lparr>ce_win = clutch_env now 1, ce_instant = now, ce_reply_closed = (\<lambda>_. False), ce_timer_starts = True,
     ce_order = (\<lambda>pids. pids), ce_key_scan = (\<lambda>_. 0), ce_vk_scan = (\<lambda>_. 0), ce_resolve = (\<lambda>_ _. Inl Unbound),
     ce_mapped = (\<lambda>_. Inl Unbound), ce_xtarget_slots = (\<lambda>_. []), ce_activate = (\<lambda>_. refuse ClientNotFound []),
     ce_swap = (\<lambda>_. refuse ClientNotFound []),
     ce_windows = [\<lparr>cw_pid = 1, cw_character = None, cw_server = None, cw_class = None, cw_number = 1\<rparr>,
       \<lparr>cw_pid = 2, cw_character = None, cw_server = None, cw_class = None, cw_number = 2\<rparr>],
     ce_active_pid = Some 1, ce_pips = []\<rparr>"

definition demo_ctl_steps :: "(CtlEnv \<times> CtlOp) list" where
  "demo_ctl_steps = [(demo_ctl_env 0, CtlEngine (OpUpdateTargets [1, 2] (Some 1))), (demo_ctl_env 0, CtlPublish),
     (demo_ctl_env 1, CtlCommand (UiSendKeys (generated_id 2) [\<lparr>ks_keys = [''w''], ks_hold_ms = 75, ks_pause_ms = 0\<rparr>] 7)),
     (demo_ctl_env 201, CtlTimer)]"

definition demo_ctl :: UiState where
  "demo_ctl = the (ctl_run (\<lambda>s. s) (\<lambda>_. 0) demo_ctl_steps (ui_start (Some (broadcast_init (clutch_env 0 1) (\<lambda>s. s) (\<lambda>_. 0) demo_config))))"

definition demo_ctl_view :: "UiState \<Rightarrow> (nat \<times> int \<times> int \<times> u8 list) list \<times> bool option" where
  "demo_ctl_view st = (map (\<lambda>(pid, input). (pid, int (ai_next_step input), int (phases_left input), held_scans input)) (ui_active_inputs st),
     Option.bind (ui_broadcast st) (\<lambda>s. map_option (\<lambda>shm. shm_targeted_active shm) (bm_get (be_targets s) 2)))"

lemma source_pid_code [code]: "source_pid source = nat (int (src_private_key source) mod 4294967296)"
  by (simp add: source_pid_def nat_mod_distrib)

lemma validate_key_strokes_code [code]: "validate_key_strokes strokes =
   (if strokes = [] \<or> int (length strokes) > 64 then refuse InvalidArgument ''send_keys must contain 1 to 64 key strokes''
    else if int (sum_list (map (\<lambda>s. ks_hold_ms s + ks_pause_ms s) strokes)) > 15000
    then refuse InvalidArgument ''the key sequence duration must not exceed 15 seconds'' else Inr ())"
  by (simp add: validate_key_strokes_def MAX_KEY_STROKES_def MAX_INPUT_DURATION_MS_def)

lemma demo_ctl_facts: "demo_ctl_view demo_ctl = ([(2, 276, 1, [17])], Some True)"
  by code_simp

lemma demo_ctl_steps_ok: "list_all (\<lambda>(env, op). ctl_env_ok env \<and> ctl_op_ok op) demo_ctl_steps" "ctl_env_ok (demo_ctl_env now)"
  using clutch_steps_ok(2) by (simp_all add: demo_ctl_steps_def ctl_env_ok_def ctl_op_ok_def foreign_op_def demo_ctl_env_def)

lemma demo_ctl_run:
  "ctl_run (\<lambda>s. s) (\<lambda>_. 0) demo_ctl_steps (ui_start (Some (broadcast_init (clutch_env 0 1) (\<lambda>s. s) (\<lambda>_. 0) demo_config))) = Some demo_ctl"
  using ctl_run_ok [OF demo_ctl_steps_ok(1) ctl_start_ok [of "clutch_env 0 1" "\<lambda>s. s" "\<lambda>_. 0" demo_config], of "\<lambda>s. s" "\<lambda>_. 0"]
  by (auto simp: demo_ctl_def)

lemma demo_ctl_state:
  obtains input s shm where "ui_active_inputs demo_ctl = [(2, input)]" "ai_next_step input = 276" "phases_left input = 1"
    "held_scans input = [17]" "ui_broadcast demo_ctl = Some s" "bm_get (be_targets s) 2 = Some shm" "shm_targeted_active shm"
  using demo_ctl_facts that by (auto simp: demo_ctl_view_def bind_eq_Some_conv)

theorem keys_follow_phase_witness:
  "\<exists>st s shm. ctl_run (\<lambda>s. s) (\<lambda>_. 0) demo_ctl_steps (ui_start (Some (broadcast_init (clutch_env 0 1) (\<lambda>s. s) (\<lambda>_. 0) demo_config))) = Some st
    \<and> ui_broadcast st = Some s \<and> bm_get (be_targets s) 2 = Some shm \<and> key_down (shm_ptr shm) 17 \<and> ui_timer st"
proof -
  obtain input s shm where demo: "ui_active_inputs demo_ctl = [(2, input)]" "held_scans input = [17]"
    "ui_broadcast demo_ctl = Some s" "bm_get (be_targets s) 2 = Some shm" "shm_targeted_active shm"
    by (rule demo_ctl_state) (rule that; assumption)
  show ?thesis
    using keys_follow_phase [OF demo_ctl_steps_ok(1), of "\<lambda>s. s" "\<lambda>_. 0" "clutch_env 0 1" demo_config] demo demo_ctl_run
    by (auto simp: bm_get_def)
qed

text \<open>
  C17. A sequence plays exactly its script: as its phases pass, the keys written are, stroke by
  stroke, the modifiers down, the other keys down, the other keys up, the modifiers up, each key
  going up in the reverse order, and nothing else; then the sequence is over.
\<close>

theorem sequence_plays_script:
  assumes "strokes_ok strokes" "sum_list (map phases_of strokes) \<le> length clock"
  shows "fst (play clock (new_input env pid kind strokes completion)) = concat (map stroke_script strokes)
    \<and> ai_phase (snd (play clock (new_input env pid kind strokes completion))) = PhaseFinish"
proof -
  let ?input = "new_input env pid kind strokes completion"
  obtain first others where strokes: "strokes = first # others"
    using assms(1) by (cases strokes) (auto simp: strokes_ok_def)
  have "phases_left ?input \<le> length clock"
    using assms(2) by (simp add: strokes new_input_def phases_left_def phases_from_def)
  from play_script [OF new_input_wf [OF assms(1)] this] show ?thesis
    by (simp add: strokes new_input_def rest_of_script_def rest_of_stroke_def Let_def)
qed

theorem sequence_plays_script_witness:
  "fst (play [200, 230, 305, 335] (new_input (demo_ctl_env 0) 2 (KindInput InputKeys)
     [\<lparr>rs_scans = [17, 0x2a], rs_hold = 75, rs_pause = 0\<rparr>] (CompletionSingle 7)))
   = [(True, 0x2a), (True, 17), (False, 17), (False, 0x2a)]"
  using sequence_plays_script [of "[\<lparr>rs_scans = [17, 0x2a], rs_hold = 75, rs_pause = 0\<rparr>]" "[200, 230, 305, 335]"
      "demo_ctl_env 0" 2 "KindInput InputKeys" "CompletionSingle 7"]
  by (simp add: strokes_ok_def MAX_INPUT_DURATION_MS_def phases_of_def stroke_script_def has_modifier_chord_def is_modifier_scan_def)

section \<open>Every sequence ends\<close>

lemma next_phase_due:
  assumes "input_wf input"
  shows "ai_next_step (next_phase input now) \<le> max (ai_next_step input) (now + MAX_INPUT_DURATION_MS)"
proof -
  have "rs_hold (ai_strokes input ! ai_index input) \<le> MAX_INPUT_DURATION_MS \<and> rs_pause (ai_strokes input ! ai_index input) \<le> MAX_INPUT_DURATION_MS"
    using assms by (auto simp: input_wf_def strokes_ok_def list_all_length)
  then show ?thesis
    by (auto simp: next_phase_def complete_stroke_def Let_def INPUT_MODIFIER_DELAY_def INPUT_RELEASE_DELAY_def MAX_INPUT_DURATION_MS_def
        split: InputPhase.split)
qed

definition due_within :: "nat \<Rightarrow> nat \<Rightarrow> UiState \<Rightarrow> bool" where
  "due_within t k st \<longleftrightarrow> (\<forall>pid input. bm_get (ui_active_inputs st) pid = Some input \<longrightarrow> ai_next_step input \<le> t \<and> phases_left input < k)"

lemma publish_active: "ui_active_inputs (publish_transient_snapshot env st) = ui_active_inputs st"
  using same_inputs_transient [of st env st] by (simp add: same_inputs_def)

lemma finish_active:
  "finish_input env input result st = Some st' \<Longrightarrow> ui_active_inputs st' = ui_active_inputs st"
proof -
  assume "finish_input env input result st = Some st'"
  then obtain engine where "st' = report_result env (ai_pid input) (ai_completion input) result (st\<lparr>ui_broadcast := engine\<rparr>)"
    by (auto simp: finish_input_def bind_eq_Some_conv)
  then show ?thesis
    using same_inputs_notes(4) [of "st\<lparr>ui_broadcast := engine\<rparr>" env "ai_pid input" "ai_completion input" result "st\<lparr>ui_broadcast := engine\<rparr>"]
    by (simp add: same_inputs_def)
qed

lemma advance_one_active:
  assumes "advance_one_input env input st = Some st'" "ai_next_step input \<le> ce_instant env"
  shows "ui_active_inputs st' = ui_active_inputs st \<or> (ai_phase input \<noteq> PhaseFinish
    \<and> ui_active_inputs st' = bm_insert (ai_pid input) (next_phase input (ce_instant env)) (ui_active_inputs st))"
proof (cases "input_completion_is_closed env st (ai_completion input)
    \<or> \<not> list_ex (\<lambda>source. source_pid source = ai_pid input) (ui_latest_sources st) \<or> ai_phase input = PhaseFinish")
  case True
  then show ?thesis using assms
    by (auto simp: advance_one_input_def note_eq_action_delivered_def publish_active
        dest!: finish_active split: if_splits ActiveInputKind.splits option.splits)
next
  case False
  then obtain r engine where "write_keys (ai_pid input) (pressing (ai_phase input))
      (phase_scans (ai_strokes input ! ai_index input) (ai_phase input)) (ui_broadcast st) = Some (r, engine)"
    using assms by (auto simp: advance_one_input_def bind_eq_Some_conv)
  then show ?thesis using False assms
    by (cases r) (auto simp: advance_one_input_def dest: finish_active)
qed

lemma advance_all_active:
  "advance_all env inputs st = Some st' \<Longrightarrow> \<forall>input \<in> set inputs. ai_next_step input \<le> ce_instant env \<Longrightarrow>
   bm_get (ui_active_inputs st') pid = Some i \<Longrightarrow>
   bm_get (ui_active_inputs st) pid = Some i \<or> (\<exists>input \<in> set inputs. ai_phase input \<noteq> PhaseFinish \<and> i = next_phase input (ce_instant env))"
proof (induction inputs arbitrary: st)
  case (Cons input inputs)
  obtain mid where mid: "advance_one_input env input st = Some mid" "advance_all env inputs mid = Some st'"
    using Cons.prems(1) by (auto simp: bind_eq_Some_conv)
  have "bm_get (ui_active_inputs mid) pid = Some i \<or> (\<exists>input \<in> set inputs. ai_phase input \<noteq> PhaseFinish \<and> i = next_phase input (ce_instant env))"
    using Cons.IH [OF mid(2) _ Cons.prems(3)] Cons.prems(2) by simp
  then show ?case using advance_one_active [OF mid(1)] Cons.prems(2) by (auto split: if_splits)
qed simp

lemma advance_due:
  assumes ok: "ctl_ok {} [] st" and env: "ctl_env_ok env" and due: "due_within (ce_instant env) (Suc k) st"
    and advanced: "advance_input env st = Some st'"
  shows "due_within (ce_instant env + MAX_INPUT_DURATION_MS) k st'"
proof (cases "ui_active_inputs st = []")
  case True
  then show ?thesis using advanced by (auto simp: advance_input_def kill_timer_if_idle_def due_within_def)
next
  case False
  let ?inputs = "map (\<lambda>pid. the (bm_get (ui_active_inputs st) pid)) (ce_order env (bm_keys (ui_active_inputs st)))"
  obtain mid where mid: "advance_all env ?inputs (st\<lparr>ui_active_inputs := []\<rparr>) = Some mid" "st' = kill_timer_if_idle mid"
    using advanced False by (auto simp: advance_input_def)
  have perm: "set (ce_order env (bm_keys (ui_active_inputs st))) = set (bm_keys (ui_active_inputs st))"
    by (rule mset_eq_setD) (use env in \<open>simp add: ctl_env_ok_def\<close>)
  have old: "input_wf input \<and> ai_next_step input \<le> ce_instant env \<and> phases_left input < Suc k" if member: "input \<in> set ?inputs" for input
  proof -
    obtain pid where pid: "pid \<in> set (bm_keys (ui_active_inputs st))" "input = the (bm_get (ui_active_inputs st) pid)"
      using member perm by auto
    then obtain i where "bm_get (ui_active_inputs st) pid = Some i"
      using bm_contains_iff [of "ui_active_inputs st" pid] by (auto simp: bm_contains_def)
    then show ?thesis using pid(2) due ok by (simp add: due_within_def ctl_ok_def inputs_wf_def)
  qed
  have "ai_next_step i \<le> ce_instant env + MAX_INPUT_DURATION_MS \<and> phases_left i < k" if active: "bm_get (ui_active_inputs mid) pid = Some i" for pid i
  proof -
    obtain input where input: "input \<in> set ?inputs" "ai_phase input \<noteq> PhaseFinish" "i = next_phase input (ce_instant env)"
      using advance_all_active [OF mid(1) _ active] old by auto
    show ?thesis using next_phase_due [of input "ce_instant env"] next_phase_left [of input "ce_instant env"] old [OF input(1)] input(2,3) by auto
  qed
  then show ?thesis unfolding mid(2) by (simp add: due_within_def kill_timer_if_idle_def)
qed

lemma ticks_drain:
  "ctl_ok {} [] st \<Longrightarrow> list_all ctl_env_ok ticks \<Longrightarrow>
   sorted_wrt (\<lambda>a b. ce_instant a + MAX_INPUT_DURATION_MS \<le> ce_instant b) ticks \<Longrightarrow>
   ticks \<noteq> [] \<Longrightarrow> due_within (ce_instant (hd ticks)) (length ticks) st \<Longrightarrow>
   \<exists>st'. ctl_run upper vts (map (\<lambda>env. (env, CtlTimer)) ticks) st = Some st' \<and> ctl_ok {} [] st'
     \<and> ui_active_inputs st' = [] \<and> \<not> ui_timer st'"
proof (induction ticks arbitrary: st)
  case (Cons env ticks)
  obtain mid where mid: "advance_input env st = Some mid" "ctl_ok {} [] mid"
    using ctl_advance [OF Cons.prems(1), of env] Cons.prems(2) by auto
  have due: "due_within (ce_instant env + MAX_INPUT_DURATION_MS) (length ticks) mid"
    by (rule advance_due [OF Cons.prems(1) _ _ mid(1)]) (use Cons.prems in simp_all)
  show ?case
  proof (cases "ticks = []")
    case True
    have "bm_get (ui_active_inputs mid) pid = None" for pid
      using due True by (cases "bm_get (ui_active_inputs mid) pid") (auto simp: due_within_def)
    then have "ui_active_inputs mid = []"
      using bm_contains_iff [of "ui_active_inputs mid"] by (cases "ui_active_inputs mid") (auto simp: bm_contains_def)
    moreover obtain m where m: "mid = kill_timer_if_idle m" using mid(1) by (auto simp: advance_input_def split: if_splits)
    moreover have "\<not> ui_timer mid" using calculation(1) unfolding m by (auto simp: kill_timer_if_idle_def split: if_splits)
    ultimately show ?thesis using True mid by simp
  next
    case False
    have "due_within (ce_instant (hd ticks)) (length ticks) mid"
      using due Cons.prems(3) False by (cases ticks) (fastforce simp: due_within_def)+
    from Cons.IH [OF mid(2) _ _ False this] show ?thesis using Cons.prems(2,3) mid(1) by simp
  qed
qed simp

text \<open>
  C10. No sequence runs for ever: in whatever state the bridge has reached, once the timer has
  fired more often than the longest sequence has phases left, at intervals no shorter than the
  longest delay a stroke may ask for, no sequence is left, the timer is stopped and no client
  is shown a targeted key.
\<close>

theorem every_sequence_ends:
  assumes steps: "list_all (\<lambda>(env, op). ctl_env_ok env \<and> ctl_op_ok op) steps"
    and reached: "ctl_run upper vts steps (ui_start (Some (broadcast_init env0 upper vts cfg))) = Some st"
    and ticks: "list_all ctl_env_ok ticks" "ticks \<noteq> []"
      "sorted_wrt (\<lambda>a b. ce_instant a + MAX_INPUT_DURATION_MS \<le> ce_instant b) ticks"
    and waiting: "list_all (\<lambda>(pid, input). ai_next_step input \<le> ce_instant (hd ticks) \<and> phases_left input < length ticks)
      (ui_active_inputs st)"
  shows "\<exists>st' s'. ctl_run upper vts (map (\<lambda>env. (env, CtlTimer)) ticks) st = Some st' \<and> ui_broadcast st' = Some s'
    \<and> ui_active_inputs st' = [] \<and> \<not> ui_timer st'
    \<and> (\<forall>pid shm. bm_get (be_targets s') pid = Some shm \<longrightarrow> \<not> shm_targeted_active shm)"
proof -
  have ok: "ctl_ok {} [] st" using ctl_run_ok [OF steps ctl_start_ok, of upper vts env0 upper vts cfg] reached by auto
  have "due_within (ce_instant (hd ticks)) (length ticks) st"
    using waiting by (auto simp: due_within_def list_all_iff dest!: bm_get_in)
  from ticks_drain [OF ok ticks(1,3,2) this] obtain st' where drained:
    "ctl_run upper vts (map (\<lambda>env. (env, CtlTimer)) ticks) st = Some st'" "ctl_ok {} [] st'"
    "ui_active_inputs st' = []" "\<not> ui_timer st'" by blast
  then obtain s' where s': "ui_broadcast st' = Some s'" by (cases "ui_broadcast st'") (simp_all add: ctl_ok_def)
  have none: "targeted_keys_of s' pid = None" for pid
    using drained(2,3) s' by (cases "targeted_keys_of s' pid") (auto simp: ctl_ok_def engine_shows_def serves_def)
  then have "\<not> shm_targeted_active shm" if "bm_get (be_targets s') pid = Some shm" for pid shm
    using that none [of pid] by (simp add: targeted_keys_of_def split: if_splits)
  then show ?thesis using drained s' by blast
qed

theorem every_sequence_ends_witness:
  "\<exists>st'. ctl_run (\<lambda>s. s) (\<lambda>_. 0) [(demo_ctl_env 20000, CtlTimer), (demo_ctl_env 40000, CtlTimer)] demo_ctl = Some st'
    \<and> ui_active_inputs st' = [] \<and> \<not> ui_timer st'"
proof -
  obtain input where demo: "ui_active_inputs demo_ctl = [(2, input)]" "ai_next_step input \<le> 20000 \<and> phases_left input < 2"
    by (rule demo_ctl_state) simp
  have instant: "ce_instant (demo_ctl_env now) = now" for now by (simp add: demo_ctl_env_def)
  show ?thesis
    using every_sequence_ends [OF demo_ctl_steps_ok(1) demo_ctl_run, of "[demo_ctl_env 20000, demo_ctl_env 40000]"] demo
    by (auto simp: demo_ctl_steps_ok(2) MAX_INPUT_DURATION_MS_def instant)
qed

end
