(* ===== verification/Rust_Float.thy ===== *)
theory Rust_Float
  imports Rust_Prelude
begin

text \<open>
  The part of \<^verbatim>\<open>f64\<close> the trigger engine uses, on exact integers. A finite number is a
  mantissa and a binary exponent, \<open>m * 2 ^ e\<close>, at most 53 bits wide and with \<open>e\<close> at
  least \<open>-1074\<close>; every operation computes the exact result and rounds it once, to nearest with
  ties to even, as IEEE 754 demands. The two zeros are one value here: no operation of the
  engine tells them apart. \<open>f64_parse\<close> is \<^verbatim>\<open>str::parse\<close> and \<open>f64_display\<close> is \<^verbatim>\<open>Display\<close>, which
  prints the shortest digits that read back as the same number, without an exponent.
\<close>

datatype f64 = Finite int int | Infinite bool | NotANumber

section \<open>Rounding\<close>

function bit_length :: "int \<Rightarrow> nat" where
  "bit_length n = (if n \<le> 0 then 0 else Suc (bit_length (n div 2)))"
  by pat_completeness auto
termination by (relation "measure nat") auto

declare bit_length.simps [simp del]

text \<open>\<open>2 ^ e\<close> as a fraction: the numerator and the denominator.\<close>

definition scale_up :: "int \<Rightarrow> int" where "scale_up e = 2 ^ nat e"

definition round_div :: "int \<Rightarrow> int \<Rightarrow> int" where
  "round_div p q = (let m = p div q; r = p mod q in if 2 * r > q \<or> (2 * r = q \<and> odd m) then m + 1 else m)"

text \<open>The mantissa of \<open>p / q\<close> at the exponent \<open>e\<close>.\<close>

definition mantissa_at :: "int \<Rightarrow> int \<Rightarrow> int \<Rightarrow> int" where
  "mantissa_at p q e = round_div (p * scale_up (- e)) (q * scale_up e)"

definition pack :: "bool \<Rightarrow> int \<Rightarrow> int \<Rightarrow> f64" where
  "pack negative m e =
     (let (m, e) = (if m = 2 ^ 53 then (2 ^ 52, e + 1) else (m, e))
      in if m = 0 then Finite 0 (- 1074)
         else if e > 971 then Infinite negative else Finite (if negative then - m else m) e)"

text \<open>The number nearest to \<open>p / q\<close>, for \<open>p \<ge> 0\<close> and \<open>q > 0\<close>.\<close>

definition f64_ratio :: "bool \<Rightarrow> int \<Rightarrow> int \<Rightarrow> f64" where
  "f64_ratio negative p q =
     (if p = 0 then Finite 0 (- 1074)
      else let e = max (- 1074) (int (bit_length p) - int (bit_length q) - 53);
               m = mantissa_at p q e
           in if m \<ge> 2 ^ 53 then pack negative (mantissa_at p q (e + 1)) (e + 1) else pack negative m e)"

definition f64_scaled :: "int \<Rightarrow> int \<Rightarrow> f64" where
  "f64_scaled m e = f64_ratio (m < 0) (\<bar>m\<bar> * scale_up e) (scale_up (- e))"

definition f64_of_int :: "int \<Rightarrow> f64" where
  "f64_of_int n = f64_scaled n 0"

section \<open>Arithmetic and comparison\<close>

fun f64_add :: "f64 \<Rightarrow> f64 \<Rightarrow> f64" where
  "f64_add (Finite m1 e1) (Finite m2 e2) =
     (let e = min e1 e2 in f64_scaled (m1 * scale_up (e1 - e) + m2 * scale_up (e2 - e)) e)"
| "f64_add (Infinite a) (Infinite b) = (if a = b then Infinite a else NotANumber)"
| "f64_add (Infinite a) (Finite _ _) = Infinite a"
| "f64_add (Finite _ _) (Infinite b) = Infinite b"
| "f64_add _ _ = NotANumber"

fun f64_neg :: "f64 \<Rightarrow> f64" where
  "f64_neg (Finite m e) = Finite (- m) e"
| "f64_neg (Infinite a) = Infinite (\<not> a)"
| "f64_neg NotANumber = NotANumber"

definition f64_sub :: "f64 \<Rightarrow> f64 \<Rightarrow> f64" where
  "f64_sub a b = f64_add a (f64_neg b)"

fun f64_mul :: "f64 \<Rightarrow> f64 \<Rightarrow> f64" where
  "f64_mul (Finite m1 e1) (Finite m2 e2) = f64_scaled (m1 * m2) (e1 + e2)"
| "f64_mul (Infinite a) (Infinite b) = Infinite (a \<noteq> b)"
| "f64_mul (Infinite a) (Finite m _) = (if m = 0 then NotANumber else Infinite (a \<noteq> (m < 0)))"
| "f64_mul (Finite m _) (Infinite b) = (if m = 0 then NotANumber else Infinite (b \<noteq> (m < 0)))"
| "f64_mul _ _ = NotANumber"

text \<open>Comparisons; every one with \<^const>\<open>NotANumber\<close> is false.\<close>

fun f64_lt :: "f64 \<Rightarrow> f64 \<Rightarrow> bool" where
  "f64_lt (Finite m1 e1) (Finite m2 e2) =
     (let e = min e1 e2 in m1 * scale_up (e1 - e) < m2 * scale_up (e2 - e))"
| "f64_lt (Infinite a) (Infinite b) = (a \<and> \<not> b)"
| "f64_lt (Infinite a) (Finite _ _) = a"
| "f64_lt (Finite _ _) (Infinite b) = (\<not> b)"
| "f64_lt _ _ = False"

fun f64_le :: "f64 \<Rightarrow> f64 \<Rightarrow> bool" where
  "f64_le NotANumber _ = False"
| "f64_le _ NotANumber = False"
| "f64_le a b = (\<not> f64_lt b a)"

definition f64_positive :: "f64 \<Rightarrow> bool" where
  "f64_positive x = f64_lt (Finite 0 0) x"

definition f64_max :: "f64 \<Rightarrow> f64 \<Rightarrow> f64" where
  "f64_max a b = (if a = NotANumber then b else if b = NotANumber then a else if f64_lt a b then b else a)"

fun f64_is_finite :: "f64 \<Rightarrow> bool" where
  "f64_is_finite (Finite _ _) = True"
| "f64_is_finite _ = False"

section \<open>Conversions\<close>

text \<open>The integer part of \<open>\<bar>m\<bar> * 2 ^ e\<close>.\<close>

definition whole_part :: "int \<Rightarrow> int \<Rightarrow> int" where
  "whole_part m e = (\<bar>m\<bar> * scale_up e) div scale_up (- e)"

text \<open>\<^verbatim>\<open>as u64\<close> and \<^verbatim>\<open>as i64\<close> truncate and saturate.\<close>

fun f64_as_u64 :: "f64 \<Rightarrow> nat" where
  "f64_as_u64 (Finite m e) = (if m \<le> 0 then 0 else nat (min (whole_part m e) 18446744073709551615))"
| "f64_as_u64 (Infinite negative) = (if negative then 0 else u64_max)"
| "f64_as_u64 NotANumber = 0"

definition i64_saturate :: "int \<Rightarrow> int" where
  "i64_saturate n = max (- 9223372036854775808) (min n 9223372036854775807)"

fun f64_as_i64 :: "f64 \<Rightarrow> int" where
  "f64_as_i64 (Finite m e) = i64_saturate (if m < 0 then - whole_part m e else whole_part m e)"
| "f64_as_i64 (Infinite negative) = (if negative then i64_min else i64_max)"
| "f64_as_i64 NotANumber = 0"

text \<open>\<^verbatim>\<open>round\<close>: half away from zero.\<close>

fun f64_round :: "f64 \<Rightarrow> f64" where
  "f64_round (Finite m e) =
     (if e \<ge> 0 then Finite m e
      else let n = (2 * \<bar>m\<bar> + scale_up (- e)) div (2 * scale_up (- e))
           in f64_of_int (if m < 0 then - n else n))"
| "f64_round x = x"

text \<open>\<^verbatim>\<open>value.fract() == 0.0 && value.abs() < 1e15\<close>.\<close>

fun small_integer :: "f64 \<Rightarrow> bool" where
  "small_integer (Finite m e) = ((\<bar>m\<bar> * scale_up e) mod scale_up (- e) = 0 \<and> whole_part m e < 1000000000000000)"
| "small_integer _ = False"

section \<open>Text\<close>

text \<open>Decimal digits of a non-negative integer.\<close>

function int_digits :: "int \<Rightarrow> string" where
  "int_digits n = (if n < 10 then [digit_char (nat n)] else int_digits (n div 10) @ [digit_char (nat (n mod 10))])"
  by pat_completeness auto
termination by (relation "measure nat") auto

declare int_digits.simps [simp del]

definition digits_value :: "string \<Rightarrow> int" where
  "digits_value ds = fold (\<lambda>d acc. acc * 10 + (int (of_char d) - 48)) ds 0"

text \<open>The decimal point position of \<open>p / q\<close>: \<open>k\<close> with \<open>10 ^ (k - 1) \<le> p / q < 10 ^ k\<close>.\<close>

fun small_magnitude :: "nat \<Rightarrow> int \<Rightarrow> int \<Rightarrow> int" where
  "small_magnitude 0 p q = 0"
| "small_magnitude (Suc fuel) p q = (if p * 10 \<ge> q then 0 else small_magnitude fuel (p * 10) q - 1)"

definition magnitude :: "int \<Rightarrow> int \<Rightarrow> int" where
  "magnitude p q = (if p \<ge> q then int (length (int_digits (p div q))) else small_magnitude 400 p q)"

definition power_of_ten :: "int \<Rightarrow> int" where "power_of_ten k = 10 ^ nat k"

text \<open>\<open>p / q\<close> with \<open>n\<close> significant digits, as an integer times a power of ten.\<close>

definition with_digits :: "int \<Rightarrow> int \<Rightarrow> nat \<Rightarrow> int \<times> int" where
  "with_digits p q n =
     (let s = magnitude p q - int n
      in (round_div (p * power_of_ten (- s)) (q * power_of_ten s), s))"

definition f64_decimal :: "bool \<Rightarrow> int \<Rightarrow> int \<Rightarrow> f64" where
  "f64_decimal negative d s = f64_ratio negative (d * power_of_ten s) (power_of_ten (- s))"

text \<open>The fewest digits that read back as the number.\<close>

fun shortest :: "f64 \<Rightarrow> int \<Rightarrow> int \<Rightarrow> nat list \<Rightarrow> int \<times> int" where
  "shortest x p q [] = with_digits p q 17"
| "shortest x p q (n # ns) =
     (let (d, s) = with_digits p q n in if f64_decimal False d s = x then (d, s) else shortest x p q ns)"

definition plain_decimal :: "int \<Rightarrow> int \<Rightarrow> string" where
  "plain_decimal d s =
     (let ds = int_digits d; k = int (length ds) + s
      in if s \<ge> 0 then ds @ replicate (nat s) (CHR ''0'')
         else if k \<le> 0 then ''0.'' @ replicate (nat (- k)) (CHR ''0'') @ ds
         else take (nat k) ds @ ''.'' @ drop (nat k) ds)"

fun f64_display :: "f64 \<Rightarrow> string" where
  "f64_display NotANumber = ''NaN''"
| "f64_display (Infinite negative) = (if negative then ''-inf'' else ''inf'')"
| "f64_display (Finite m e) =
     (if m = 0 then ''0''
      else let p = \<bar>m\<bar> * scale_up e; q = scale_up (- e); (d, s) = shortest (Finite \<bar>m\<bar> e) p q [1..<17]
           in (if m < 0 then ''-'' else []) @ plain_decimal d s)"

text \<open>\<^verbatim>\<open>parse\<close>: a sign, digits with at most one point and at least one digit, an exponent.\<close>

definition split_sign :: "string \<Rightarrow> bool \<times> string" where
  "split_sign s = (case s of c # rest \<Rightarrow> if c = CHR ''-'' then (True, rest) else if c = CHR ''+'' then (False, rest) else (False, s)
     | [] \<Rightarrow> (False, []))"

definition parse_exponent :: "string \<Rightarrow> int option" where
  "parse_exponent s =
     (case s of
        [] \<Rightarrow> Some 0
      | c # rest \<Rightarrow>
          if c \<noteq> CHR ''e'' \<and> c \<noteq> CHR ''E'' then None
          else let (negative, ds) = split_sign rest
               in if ds = [] \<or> \<not> list_all ascii_digit ds then None
                  else Some (if negative then - digits_value ds else digits_value ds))"

definition f64_parse :: "string \<Rightarrow> f64 option" where
  "f64_parse s =
     (let (negative, body) = split_sign s; lower = to_ascii_lowercase body
      in if lower = ''inf'' \<or> lower = ''infinity'' then Some (Infinite negative)
         else if lower = ''nan'' then Some NotANumber
         else let whole = takeWhile ascii_digit body; rest = dropWhile ascii_digit body;
                  (frac, tail) = (case rest of c # r \<Rightarrow> if c = CHR ''.'' then (takeWhile ascii_digit r, dropWhile ascii_digit r) else ([], rest)
                    | [] \<Rightarrow> ([], []))
              in if whole = [] \<and> frac = [] then None
                 else map_option (\<lambda>e. f64_decimal negative (digits_value (whole @ frac)) (e - int (length frac)))
                        (parse_exponent tail))"

section \<open>Facts\<close>

lemma f64_positive_zero [simp]: "\<not> f64_positive (Finite 0 e)"
  by (simp add: f64_positive_def scale_up_def Let_def)

lemma f64_as_u64_bound: "f64_as_u64 x \<le> u64_max"
  by (cases x) (auto simp: u64_max_def)

text \<open>Samples: parsing, printing and the milliseconds of a number of seconds.\<close>

lemma f64_samples:
  "map_option f64_display (f64_parse ''0.1'') = Some ''0.1''"
  "map_option f64_display (f64_parse ''-12.50'') = Some ''-12.5''"
  "map_option f64_display (f64_parse ''1e22'') = Some ''10000000000000000000000''"
  "map_option (\<lambda>x. f64_as_i64 (f64_mul x (f64_of_int 1000))) (f64_parse ''0.75'') = Some 750"
  "Option.bind (f64_parse ''0.1'') (\<lambda>a. map_option (\<lambda>b. f64_display (f64_add a b)) (f64_parse ''0.2'')) = Some ''0.30000000000000004''"
  by code_simp+

end
