(* ===== verification/Trigger_Text.thy ===== *)
theory Trigger_Text
  imports Rust_Float Trushar_Control Stonemite_Hotkeys
begin

text \<open>
  The text side of the trigger engine: \<^verbatim>\<open>crates/eqtrigger/src/netregex.rs\<close> and
  \<^verbatim>\<open>crates/eqtrigger/src/substitute.rs\<close>. The regular expression engine itself
  (\<^verbatim>\<open>fancy-regex\<close>) is the argument \<open>rx\<close>; what the crate does around it, the rejection of
  constructs, the collection of all matches and the quick test before it, is modelled. The one
  fixed pattern of \<open>replace_tokens\<close> is written as a scanner. Unicode case mappings are the
  argument \<open>uni\<close>.
\<close>

section \<open>Captures: a map that ignores the case of its keys\<close>

type_synonym MatchMap = "(string \<times> string) list"

fun mm_insert :: "string \<Rightarrow> string \<Rightarrow> MatchMap \<Rightarrow> MatchMap" where
  "mm_insert key val [] = [(key, val)]"
| "mm_insert key val ((existing, old) # entries) =
     (if eq_ignore_ascii_case existing key then (existing, val) # entries
      else (existing, old) # mm_insert key val entries)"

definition mm_get :: "MatchMap \<Rightarrow> string \<Rightarrow> string option" where
  "mm_get entries key = map_option snd (find (\<lambda>(existing, _). eq_ignore_ascii_case existing key) entries)"

section \<open>Searching without case\<close>

definition starts_with_ignore_case :: "string \<Rightarrow> string \<Rightarrow> bool" where
  "starts_with_ignore_case haystack prefix =
     (length prefix \<le> length haystack \<and> eq_ignore_ascii_case (take (length prefix) haystack) prefix)"

text \<open>Some window of the haystack equals the needle.\<close>

fun some_window :: "string \<Rightarrow> string \<Rightarrow> bool" where
  "some_window needle [] = False"
| "some_window needle (c # cs) = (starts_with_ignore_case (c # cs) needle \<or> some_window needle cs)"

definition contains_ignore_case :: "string \<Rightarrow> string \<Rightarrow> bool" where
  "contains_ignore_case haystack needle =
     (if needle = [] then False else if length needle > length haystack then False else some_window needle haystack)"

section \<open>The regular expression adapter\<close>

definition MAX_PATTERN_LEN :: nat where "MAX_PATTERN_LEN = 4096"

text \<open>The engine: building, the names of the groups, the groups of the first match from a position.\<close>

record 'r RegexEngine =
  rx_build :: "string \<Rightarrow> string + 'r"
  rx_names :: "'r \<Rightarrow> string option list"
  rx_captures :: "'r \<Rightarrow> string \<Rightarrow> nat \<Rightarrow> string + (nat \<times> nat) option list option"
  rx_escape :: "string \<Rightarrow> string"

record RegexCompatError =
  rce_reason :: string
  rce_detail :: string

definition unsupported :: "string \<Rightarrow> RegexCompatError" where
  "unsupported what = \<lparr>rce_reason = ''unsupported-construct'',
     rce_detail = ''this pattern uses a .NET-only regex feature: '' @ what\<rparr>"

definition ellipsis :: string where "ellipsis = [CHR 0xE2, CHR 0x80, CHR 0xA6]"

definition balancing_group :: "string \<Rightarrow> bool" where
  "balancing_group rest =
     (case opt_or (strip_prefix ''<'' rest) (strip_prefix ''P<'' rest) of
        None \<Rightarrow> False
      | Some inner \<Rightarrow> CHR ''>'' \<in> set inner \<and> CHR ''-'' \<in> set (takeWhile (\<lambda>c. c \<noteq> CHR ''>'') inner))"

definition explicit_capture :: "string \<Rightarrow> bool" where
  "explicit_capture rest =
     (let flag_run = takeWhile (\<lambda>c. c \<in> {CHR ''i'', CHR ''m'', CHR ''s'', CHR ''x'', CHR ''n'', CHR ''-''}) rest;
          after = drop (length flag_run) rest
      in flag_run \<noteq> [] \<and> after \<noteq> [] \<and> hd after \<in> {CHR '':'', CHR '')''} \<and> CHR ''n'' \<in> set flag_run)"

text \<open>The scan of \<open>detect_unsupported\<close> from a position; the characters of class names are bytes.\<close>

fun detect_from :: "bool \<Rightarrow> string \<Rightarrow> RegexCompatError option" where
  "detect_from in_class [] = None"
| "detect_from in_class (c # cs) =
     (let following = (\<lambda>d. cs \<noteq> [] \<and> hd cs = d)
      in if c = CHR 0x5C then (case cs of [] \<Rightarrow> None | _ # cs' \<Rightarrow> detect_from in_class cs')
         else if c = CHR ''['' \<and> \<not> in_class then detect_from True cs
         else if c = CHR '']'' \<and> in_class then detect_from False cs
         else if c = CHR ''-'' \<and> in_class \<and> following (CHR ''['')
         then Some (unsupported ''character-class subtraction ([a-[b]])'')
         else if c = CHR ''('' \<and> \<not> in_class \<and> following (CHR ''?'')
         then (let rest = tl cs
               in if rest \<noteq> [] \<and> hd rest = CHR ''('' then Some (unsupported (''conditional expression ((?('' @ ellipsis @ '')'' @ ellipsis @ ''))''))
                  else if balancing_group rest then Some (unsupported (''balancing group ((?<a-b>'' @ ellipsis @ ''))''))
                  else if explicit_capture rest then Some (unsupported ''inline (?n) explicit-capture option'')
                  else detect_from in_class cs)
         else if c \<in> {CHR ''*'', CHR ''+'', CHR ''?'', CHR 0x7D} \<and> \<not> in_class \<and> following (CHR ''+'')
         then Some (unsupported ''possessive quantifier (e.g. *+)'')
         else detect_from in_class cs)"

definition detect_unsupported :: "string \<Rightarrow> RegexCompatError option" where
  "detect_unsupported pattern = detect_from False pattern"

fun translate :: "string \<Rightarrow> string" where
  "translate [] = []"
| "translate (c # cs) =
     (if c = CHR 0x5C
      then (case cs of
              [] \<Rightarrow> [CHR 0x5C]
            | n # rest \<Rightarrow> (if n = CHR ''Z'' then CHR 0x5C # ''z'' else [CHR 0x5C, n]) @ translate rest)
      else c # translate cs)"

record 'r CompatRegex =
  cr_regex :: 'r
  cr_group_names :: "string option list"

definition compat_compile :: "'r RegexEngine \<Rightarrow> string \<Rightarrow> RegexCompatError + 'r CompatRegex" where
  "compat_compile rx pattern =
     (if length pattern > MAX_PATTERN_LEN
      then Inl \<lparr>rce_reason = ''pattern-too-long'', rce_detail = ''pattern is '' @ nat_to_dec (length pattern)
        @ '' characters; the limit is '' @ nat_to_dec MAX_PATTERN_LEN\<rparr>
      else case detect_unsupported pattern of
        Some error \<Rightarrow> Inl error
      | None \<Rightarrow> map_sum (\<lambda>detail. \<lparr>rce_reason = ''invalid-regex'', rce_detail = detail\<rparr>)
          (\<lambda>regex. \<lparr>cr_regex = regex, cr_group_names = rx_names rx regex\<rparr>) (rx_build rx (''(?i)'' @ translate pattern)))"

record MatchOutcome =
  mo_captures :: MatchMap
  mo_spans :: "(nat \<times> nat) list"

definition slice :: "string \<Rightarrow> nat \<times> nat \<Rightarrow> string" where
  "slice line span = take (snd span - fst span) (drop (fst span) line)"

text \<open>The groups of one match, from slot 1 on; a group without a name goes by its number.\<close>

definition collect_groups :: "string \<Rightarrow> string option list \<Rightarrow> (nat \<times> nat) option list \<Rightarrow> MatchMap \<Rightarrow> MatchMap" where
  "collect_groups line names groups captures =
     fold (\<lambda>(slot, name) captures.
         case (if slot < length groups then groups ! slot else None) of
           None \<Rightarrow> captures
         | Some span \<Rightarrow> mm_insert (case name of Some n \<Rightarrow> n | None \<Rightarrow> nat_to_dec slot) (slice line span) captures)
       (drop 1 (zip [0..<length names] names)) captures"

text \<open>At most 64 matches are taken; an error of the engine ends the scan.\<close>

fun snapshot_from ::
  "'r RegexEngine \<Rightarrow> 'r CompatRegex \<Rightarrow> string \<Rightarrow> nat \<Rightarrow> nat \<Rightarrow> bool \<times> MatchOutcome \<Rightarrow> string + bool \<times> MatchOutcome" where
  "snapshot_from rx regex line 0 start acc = Inr acc"
| "snapshot_from rx regex line (Suc budget) start acc =
     (if start > length line then Inr acc
      else case rx_captures rx (cr_regex regex) line start of
        Inl error \<Rightarrow> Inl error
      | Inr None \<Rightarrow> Inr acc
      | Inr (Some groups) \<Rightarrow>
          (case groups of
             Some (b, e) # _ \<Rightarrow>
               let outcome = snd acc
               in snapshot_from rx regex line budget (if e > b then e else e + 1)
                    (True, \<lparr>mo_captures = collect_groups line (cr_group_names regex) groups (mo_captures outcome),
                            mo_spans = mo_spans outcome @ [(b, e)]\<rparr>)
           | _ \<Rightarrow> Inr acc))"

definition snapshot_matches :: "'r RegexEngine \<Rightarrow> 'r CompatRegex \<Rightarrow> string \<Rightarrow> string + MatchOutcome option" where
  "snapshot_matches rx regex line =
     map_sum (\<lambda>e. e) (\<lambda>(found, outcome). if found then Some outcome else None)
       (snapshot_from rx regex line 64 0 (False, \<lparr>mo_captures = [], mo_spans = []\<rparr>))"

section \<open>The quick test before the regular expression\<close>

definition searchable_prefix :: "string \<Rightarrow> nat \<Rightarrow> string" where
  "searchable_prefix pattern start = takeWhile (\<lambda>c. ascii_alphanumeric c \<or> c = CHR '' '') (drop start pattern)"

datatype Prefilter = PrefilterNone | StartsWith string | Contains string

definition prefilter_for_pattern :: "string \<Rightarrow> Prefilter" where
  "prefilter_for_pattern pattern =
     (if length pattern \<le> 3 then PrefilterNone
      else case strip_prefix ''^'' pattern of
        Some rest \<Rightarrow> let prefix = searchable_prefix rest 0 in if prefix \<noteq> [] then StartsWith prefix else PrefilterNone
      | None \<Rightarrow> let prefix = searchable_prefix pattern 0 in if length prefix > 2 then Contains prefix else PrefilterNone)"

fun admits :: "Prefilter \<Rightarrow> string \<Rightarrow> bool" where
  "admits PrefilterNone line = True"
| "admits (StartsWith prefix) line = starts_with_ignore_case line prefix"
| "admits (Contains needle) line = contains_ignore_case line needle"

section \<open>Codes and tokens\<close>

definition CHARACTER_CODE :: string where "CHARACTER_CODE = CHR 0x7B # ''c'' @ [CHR 0x7D]"
definition COUNTER_CODE :: string where "COUNTER_CODE = CHR 0x7B # ''counter'' @ [CHR 0x7D]"
definition REPEATED_CODE :: string where "REPEATED_CODE = CHR 0x7B # ''repeated'' @ [CHR 0x7D]"
definition LOGTIME_CODE :: string where "LOGTIME_CODE = CHR 0x7B # ''logtime'' @ [CHR 0x7D]"
definition NULL_CODE :: string where "NULL_CODE = CHR 0x7B # ''null'' @ [CHR 0x7D]"
definition LINE_CODE :: string where "LINE_CODE = CHR 0x7B # ''l'' @ [CHR 0x7D]"
definition TIMER_WARN_TIME_CODE :: string where
  "TIMER_WARN_TIME_CODE = CHR 0x7B # ''timer-warn-time-value'' @ [CHR 0x7D]"

text \<open>Case mappings of Unicode, on the UTF-8 of a text.\<close>

record Unicode =
  uni_upper :: "string \<Rightarrow> string"
  uni_lower :: "string \<Rightarrow> string"
  uni_alphabetic :: "string \<Rightarrow> bool"
  uni_numeric :: "string \<Rightarrow> bool"

text \<open>The length of the character a byte starts.\<close>

definition char_bytes :: "char \<Rightarrow> nat" where
  "char_bytes c = (let n = (of_char c :: nat) in if n < 128 then 1 else if n < 224 then 2 else if n < 240 then 3 else 4)"

definition parse_usize :: "string \<Rightarrow> nat option" where
  "parse_usize s =
     (let digits = (case s of c # rest \<Rightarrow> if c = CHR ''+'' then rest else s | [] \<Rightarrow> [])
      in if digits \<noteq> [] \<and> list_all ascii_digit digits \<and> digits_value digits \<le> int u64_max
         then Some (nat (digits_value digits)) else None)"

datatype Pad = PadLeft | PadRight | PadCenter

definition pad :: "string \<Rightarrow> string option \<Rightarrow> Pad \<Rightarrow> string" where
  "pad val arg side =
     (let width = unwrap_or (Option.bind arg (\<lambda>a. parse_usize (trim a))) 0; len = char_count val
      in if width \<le> len then val
         else let missing = width - len; spaces = (\<lambda>n. replicate n (CHR '' ''))
              in case side of
                   PadLeft \<Rightarrow> spaces missing @ val
                 | PadRight \<Rightarrow> val @ spaces missing
                 | PadCenter \<Rightarrow> let left = missing div 2 in spaces left @ val @ spaces (missing - left))"

text \<open>A comma before every third digit from the right; the absolute value of the least integer wraps to itself.\<close>

fun group_digits :: "nat \<Rightarrow> string \<Rightarrow> string" where
  "group_digits n [] = []"
| "group_digits n (d # ds) = (if n > 0 \<and> n mod 3 = 0 then [CHR '','', d] else [d]) @ group_digits (Suc n) ds"

definition group_thousands :: "f64 \<Rightarrow> string" where
  "group_thousands number =
     (let rounded = f64_as_i64 (f64_round number);
          body = rev (group_digits 0 (rev (if rounded = i64_min then int_to_dec rounded else int_digits \<bar>rounded\<bar>)))
      in if rounded < 0 then CHR ''-'' # body else body)"

definition apply_modifier :: "Unicode \<Rightarrow> string \<Rightarrow> string option \<Rightarrow> string option \<Rightarrow> string" where
  "apply_modifier uni val modifier arg =
     (case modifier of
        None \<Rightarrow> val
      | Some m \<Rightarrow>
          let kind = to_ascii_lowercase m
          in if kind = ''capitalize''
             then (case val of [] \<Rightarrow> [] | c # _ \<Rightarrow> uni_upper uni (take (char_bytes c) val) @ drop (char_bytes c) val)
             else if kind = ''upper'' then uni_upper uni val
             else if kind = ''lower'' then uni_lower uni val
             else if kind = ''number'' then (case f64_parse val of Some number \<Rightarrow> group_thousands number | None \<Rightarrow> val)
             else if kind = ''padleft'' then pad val arg PadLeft
             else if kind = ''padright'' then pad val arg PadRight
             else if kind = ''center'' then pad val arg PadCenter
             else val)"

text \<open>
  The pattern \<^verbatim>\<open>\$?\{(?<name>[a-zA-Z0-9_]+)(?:\.(?<modifier>[a-zA-Z0-9_]+)(?::(?<arg>[^}]*))?)?\}\<close> at a
  position: the name, the modifier, its argument, the text after it.
\<close>

definition word_byte :: "char \<Rightarrow> bool" where
  "word_byte c = (ascii_alphanumeric c \<or> c = CHR ''_'')"

record Token =
  tok_name :: string
  tok_modifier :: "string option"
  tok_arg :: "string option"

definition scan_body :: "string \<Rightarrow> (Token \<times> string) option" where
  "scan_body body =
     (let name = takeWhile word_byte body
      in if name = [] then None
         else case dropWhile word_byte body of
           [] \<Rightarrow> None
         | c # r \<Rightarrow>
             if c = CHR 0x7D then Some (\<lparr>tok_name = name, tok_modifier = None, tok_arg = None\<rparr>, r)
             else if c \<noteq> CHR ''.'' then None
             else let modifier = takeWhile word_byte r
                  in if modifier = [] then None
                     else case dropWhile word_byte r of
                       [] \<Rightarrow> None
                     | d # r2 \<Rightarrow>
                         if d = CHR 0x7D then Some (\<lparr>tok_name = name, tok_modifier = Some modifier, tok_arg = None\<rparr>, r2)
                         else if d \<noteq> CHR '':'' then None
                         else case dropWhile (\<lambda>b. b \<noteq> CHR 0x7D) r2 of
                           [] \<Rightarrow> None
                         | _ # r3 \<Rightarrow> Some (\<lparr>tok_name = name, tok_modifier = Some modifier,
                               tok_arg = Some (takeWhile (\<lambda>b. b \<noteq> CHR 0x7D) r2)\<rparr>, r3))"

definition scan_token :: "string \<Rightarrow> (Token \<times> string) option" where
  "scan_token s =
     (case s of
        c # rest \<Rightarrow>
          if c = CHR 0x7B then scan_body rest
          else if c = CHR ''$'' \<and> rest \<noteq> [] \<and> hd rest = CHR 0x7B then scan_body (tl rest)
          else None
      | [] \<Rightarrow> None)"

lemma dropWhile_shorter: "length (dropWhile P xs) \<le> length xs"
  by (induction xs) auto

lemma scan_body_shorter: "scan_body s = Some (t, rest) \<Longrightarrow> length rest < length s"
proof -
  have step: "dropWhile P xs = c # r \<Longrightarrow> length r < length xs" for P and xs r :: string and c
    using dropWhile_shorter [of P xs] by simp
  assume "scan_body s = Some (t, rest)"
  then show ?thesis
    by (auto simp: scan_body_def Let_def split: if_splits list.splits dest!: step)
qed

lemma scan_token_shorter: "scan_token s = Some (t, rest) \<Longrightarrow> length rest < length s"
  by (cases s) (auto simp: scan_token_def split: if_splits dest!: scan_body_shorter)

text \<open>Tokens that do not resolve stay as they are written.\<close>

function replace_tokens_from :: "Unicode \<Rightarrow> (string \<Rightarrow> string option) \<Rightarrow> string \<Rightarrow> string" where
  "replace_tokens_from uni resolve s =
     (case s of
        [] \<Rightarrow> []
      | c # cs \<Rightarrow>
          (case scan_token s of
             None \<Rightarrow> c # replace_tokens_from uni resolve cs
           | Some (t, rest) \<Rightarrow>
               (case resolve (tok_name t) of
                  Some val \<Rightarrow> apply_modifier uni val (tok_modifier t) (tok_arg t)
                | None \<Rightarrow> take (length s - length rest) s)
               @ replace_tokens_from uni resolve rest))"
  by pat_completeness auto
termination
  by (relation "measure (\<lambda>(_, _, s). length s)") (auto dest: scan_token_shorter)

declare replace_tokens_from.simps [simp del]

definition replace_tokens :: "Unicode \<Rightarrow> (string \<Rightarrow> string option) \<Rightarrow> string \<Rightarrow> string" where
  "replace_tokens uni resolve t = (if CHR 0x7B \<notin> set t then t else replace_tokens_from uni resolve t)"

definition replace_from_matches :: "Unicode \<Rightarrow> string \<Rightarrow> MatchMap option \<Rightarrow> string" where
  "replace_from_matches uni t matches =
     (case matches of
        Some m \<Rightarrow> if t \<noteq> [] then replace_tokens uni (mm_get m) t else t
      | None \<Rightarrow> t)"

text \<open>Every occurrence of a code, whatever its case.\<close>

function replace_code_from :: "string \<Rightarrow> string \<Rightarrow> string \<Rightarrow> string" where
  "replace_code_from code val s =
     (case s of
        [] \<Rightarrow> []
      | c # cs \<Rightarrow> if code \<noteq> [] \<and> starts_with_ignore_case s code then val @ replace_code_from code val (drop (length code) s)
          else c # replace_code_from code val cs)"
  by pat_completeness auto
termination by (relation "measure (\<lambda>(_, _, s). length s)") auto

declare replace_code_from.simps [simp del]

definition replace_code :: "string \<Rightarrow> string \<Rightarrow> string \<Rightarrow> string" where
  "replace_code t code val = (if length t < length code then t else replace_code_from code val t)"

definition replace_line_code :: "string \<Rightarrow> string \<Rightarrow> string" where
  "replace_line_code t line = replace_code t LINE_CODE line"

definition contains_code :: "string \<Rightarrow> string \<Rightarrow> bool" where
  "contains_code t code = contains_ignore_case t code"

definition resolve_template ::
  "Unicode \<Rightarrow> string \<Rightarrow> string \<Rightarrow> MatchMap option \<Rightarrow> MatchMap option \<Rightarrow> MatchMap option \<Rightarrow> MatchMap \<Rightarrow> string option" where
  "resolve_template uni template line matches original_matches previous_matches variables =
     (if template = [] \<or> eq_ignore_ascii_case template NULL_CODE then None
      else let t1 = replace_from_matches uni template original_matches;
               t2 = replace_from_matches uni t1 matches;
               t3 = replace_from_matches uni t2 previous_matches;
               t4 = replace_line_code t3 line
           in Some (replace_tokens uni (mm_get variables) t4))"

definition speakable :: "char \<Rightarrow> bool" where
  "speakable c = (ascii_alphanumeric c \<or> c \<in> set '' .,!?;:\"-()'' \<or> c = CHR 0x27)"

definition sanitize_tts :: "string \<Rightarrow> string" where
  "sanitize_tts t = filter speakable t"

end
