(* ===== verification/Trigger_Model.thy ===== *)
theory Trigger_Model
  imports Trigger_Text Ordered_Map
begin

text \<open>
  The trigger library, \<^verbatim>\<open>crates/eqtrigger/src/model.rs\<close>, the number constraints and durations of
  \<^verbatim>\<open>crates/eqtrigger/src/pattern.rs\<close>, and the running timers of
  \<^verbatim>\<open>crates/eqtrigger/src/timers.rs\<close>. Identifiers are random; a fresh one is an argument of a
  default. The expansion of GINA macros into regular expressions rests on the Unicode
  classes of the \<^verbatim>\<open>regex\<close> crate and is not modelled: it is the field \<open>tools_expand\<close> of the tools.
\<close>

section \<open>The library\<close>

definition SCHEMA_VERSION :: nat where "SCHEMA_VERSION = 1"

text \<open>Retained fields of other formats: the values of \<^verbatim>\<open>serde_json\<close>, a number as it is written.\<close>

datatype Json = JsonNull | JsonBool bool | JsonNumber string | JsonString string
  | JsonArray "Json list" | JsonObject "(string \<times> Json) list"

type_synonym Passthrough = "(string, Json) btree_map"

type_synonym TriggerId = nat
type_synonym FolderId = nat
type_synonym ProfileId = nat
type_synonym OverlayId = nat

record Folder =
  fo_id :: FolderId
  fo_name :: string
  fo_parent :: "FolderId option"
  fo_index :: nat
  fo_expanded :: bool

definition folder_default :: "FolderId \<Rightarrow> Folder" where
  "folder_default fresh = \<lparr>fo_id = fresh, fo_name = [], fo_parent = None, fo_index = 0, fo_expanded = True\<rparr>"

datatype PresentationTarget = TargetSource | TargetActiveClient | TargetAllClients | TargetGlobal

record Pattern =
  pat_text :: string
  pat_use_regex :: bool

definition pattern_literal :: "string \<Rightarrow> Pattern" where "pattern_literal t = \<lparr>pat_text = t, pat_use_regex = False\<rparr>"
definition pattern_regex :: "string \<Rightarrow> Pattern" where "pattern_regex t = \<lparr>pat_text = t, pat_use_regex = True\<rparr>"
definition pattern_is_empty :: "Pattern \<Rightarrow> bool" where "pattern_is_empty p = (trim (pat_text p) = [])"

datatype TimerKind = Countdown | FastCountdown | Progress | Looping

fun timer_kind_code :: "TimerKind \<Rightarrow> int" where
  "timer_kind_code Countdown = 1" | "timer_kind_code FastCountdown = 2"
| "timer_kind_code Progress = 3" | "timer_kind_code Looping = 4"

definition timer_kind_from_code :: "int \<Rightarrow> TimerKind option" where
  "timer_kind_from_code code = (if code = 1 then Some Countdown else if code = 2 then Some FastCountdown
     else if code = 3 then Some Progress else if code = 4 then Some Looping else None)"

definition accepts_dynamic_duration :: "TimerKind \<Rightarrow> bool" where
  "accepts_dynamic_duration kind = (kind = Countdown \<or> kind = Progress)"

datatype TimerRestartMode = StartNew | RestartAll | RestartSameName | IgnoreIfAnyRunning | IgnoreIfSameNameRunning

fun restart_mode_code :: "TimerRestartMode \<Rightarrow> int" where
  "restart_mode_code StartNew = 0" | "restart_mode_code RestartAll = 1" | "restart_mode_code RestartSameName = 2"
| "restart_mode_code IgnoreIfAnyRunning = 3" | "restart_mode_code IgnoreIfSameNameRunning = 4"

definition restart_mode_from_code :: "int \<Rightarrow> TimerRestartMode option" where
  "restart_mode_from_code code = (if code = 0 then Some StartNew else if code = 1 then Some RestartAll
     else if code = 2 then Some RestartSameName else if code = 3 then Some IgnoreIfAnyRunning
     else if code = 4 then Some IgnoreIfSameNameRunning else None)"

record TimerStageActions =
  sa_display_text :: "string option"
  sa_speak_text :: "string option"
  sa_sound :: "string option"

definition stage_default :: TimerStageActions where
  "stage_default = \<lparr>sa_display_text = None, sa_speak_text = None, sa_sound = None\<rparr>"

definition stage_is_empty :: "TimerStageActions \<Rightarrow> bool" where
  "stage_is_empty a = (sa_display_text a = None \<and> sa_speak_text a = None \<and> sa_sound a = None)"

record TimerBehavior =
  tb_kind :: TimerKind
  tb_timer_name :: string
  tb_duration_seconds :: f64
  tb_reset_duration_seconds :: f64
  tb_times_to_loop :: nat
  tb_restart_mode :: TimerRestartMode
  tb_warning_seconds :: nat
  tb_warning :: TimerStageActions
  tb_end :: TimerStageActions
  tb_early_end :: TimerStageActions
  tb_end_early_patterns :: "Pattern list"
  tb_end_early_repeated_count :: nat
  tb_end_clear_variables :: "string list"

definition behavior_default :: TimerBehavior where
  "behavior_default = \<lparr>tb_kind = Countdown, tb_timer_name = [], tb_duration_seconds = f64_of_int 30,
     tb_reset_duration_seconds = f64_of_int 0, tb_times_to_loop = 0, tb_restart_mode = StartNew, tb_warning_seconds = 0,
     tb_warning = stage_default, tb_end = stage_default, tb_early_end = stage_default, tb_end_early_patterns = [],
     tb_end_early_repeated_count = 0, tb_end_clear_variables = []\<rparr>"

datatype VariableOp = SetValue | SetCounter | ClearVariable

record VariableAction =
  va_op :: VariableOp
  va_name :: string
  va_value :: string
  va_step :: f64
  va_initial_value :: f64
  va_time_to_live_seconds :: f64

definition action_default :: VariableAction where
  "action_default = \<lparr>va_op = SetValue, va_name = [], va_value = [], va_step = f64_of_int 1,
     va_initial_value = f64_of_int 0, va_time_to_live_seconds = f64_of_int 0\<rparr>"

record Quarantine =
  qu_reason :: string
  qu_detail :: string

record Trigger =
  tg_id :: TriggerId
  tg_name :: string
  tg_folder :: "FolderId option"
  tg_index :: nat
  tg_enabled :: bool
  tg_comments :: string
  tg_pattern :: Pattern
  tg_previous_pattern :: "Pattern option"
  tg_condition :: string
  tg_lockout_seconds :: f64
  tg_repeated_reset_seconds :: f64
  tg_variable_actions :: "VariableAction list"
  tg_display_text :: "string option"
  tg_speak_text :: "string option"
  tg_sound :: "string option"
  tg_timer :: "TimerBehavior option"
  tg_priority :: int
  tg_voice_rate :: int
  tg_volume :: int
  tg_text_overlays :: "OverlayId list"
  tg_timer_overlays :: "OverlayId list"
  tg_font_color :: "string option"
  tg_active_color :: "string option"
  tg_idle_color :: "string option"
  tg_reset_color :: "string option"
  tg_target :: PresentationTarget
  tg_quarantine :: "Quarantine option"
  tg_passthrough :: Passthrough

definition trigger_default :: "TriggerId \<Rightarrow> Trigger" where
  "trigger_default fresh = \<lparr>tg_id = fresh, tg_name = [], tg_folder = None, tg_index = 0, tg_enabled = False, tg_comments = [],
     tg_pattern = pattern_literal [], tg_previous_pattern = None, tg_condition = [], tg_lockout_seconds = f64_of_int 0,
     tg_repeated_reset_seconds = f64_ratio False 3 4, tg_variable_actions = [], tg_display_text = None, tg_speak_text = None,
     tg_sound = None, tg_timer = None, tg_priority = 3, tg_voice_rate = 0, tg_volume = 4, tg_text_overlays = [],
     tg_timer_overlays = [], tg_font_color = None, tg_active_color = None, tg_idle_color = None, tg_reset_color = None,
     tg_target = TargetSource, tg_quarantine = None, tg_passthrough = []\<rparr>"

record CharacterSelector =
  cs_character :: string
  cs_server :: string

definition selector_matches :: "CharacterSelector \<Rightarrow> string \<Rightarrow> string \<Rightarrow> bool" where
  "selector_matches sel character server =
     (eq_ignore_ascii_case (cs_character sel) character \<and> (cs_server sel = [] \<or> eq_ignore_ascii_case (cs_server sel) server))"

datatype ProfileAssignment = AssignGlobal | AssignCharacters "CharacterSelector list"

record Profile =
  pr_id :: ProfileId
  pr_name :: string
  pr_enabled :: bool
  pr_assignment :: ProfileAssignment
  pr_triggers :: "TriggerId list"
  pr_folders :: "FolderId list"
  pr_voice :: "string option"
  pr_voice_rate :: int
  pr_volume :: int

definition profile_default :: "ProfileId \<Rightarrow> Profile" where
  "profile_default fresh = \<lparr>pr_id = fresh, pr_name = [], pr_enabled = True, pr_assignment = AssignGlobal, pr_triggers = [],
     pr_folders = [], pr_voice = None, pr_voice_rate = 0, pr_volume = 100\<rparr>"

record TextOverlayPreset =
  xo_id :: OverlayId
  xo_name :: string
  xo_is_default :: bool
  xo_font_size :: string
  xo_font_color :: string
  xo_background_color :: string
  xo_fade_delay_seconds :: nat
  xo_passthrough :: Passthrough

definition text_overlay_default :: "OverlayId \<Rightarrow> TextOverlayPreset" where
  "text_overlay_default fresh = \<lparr>xo_id = fresh, xo_name = [], xo_is_default = False, xo_font_size = ''12pt'',
     xo_font_color = ''#FFFFFFFF'', xo_background_color = ''#5F000000'', xo_fade_delay_seconds = 10, xo_passthrough = []\<rparr>"

datatype TimerOverlayMode = OverlayStandard | OverlayCooldown

record TimerOverlayPreset =
  to_id :: OverlayId
  to_name :: string
  to_is_default :: bool
  to_mode :: TimerOverlayMode
  to_sort_by :: int
  to_font_color :: string
  to_active_color :: string
  to_idle_color :: string
  to_reset_color :: string
  to_background_color :: string
  to_show_millis :: bool
  to_passthrough :: Passthrough

definition timer_overlay_default :: "OverlayId \<Rightarrow> TimerOverlayPreset" where
  "timer_overlay_default fresh = \<lparr>to_id = fresh, to_name = [], to_is_default = False, to_mode = OverlayStandard, to_sort_by = 0,
     to_font_color = ''#FFFFFFFF'', to_active_color = ''#FF1D397E'', to_idle_color = ''#FF8F1515'',
     to_reset_color = ''#FF8F1515'', to_background_color = ''#5F000000'', to_show_millis = False, to_passthrough = []\<rparr>"

record AssetRecord =
  as_name :: string
  as_file_name :: string
  as_sha256 :: string
  as_size :: nat

record TriggerLibrary =
  lib_schema_version :: nat
  lib_folders :: "Folder list"
  lib_triggers :: "Trigger list"
  lib_profiles :: "Profile list"
  lib_text_overlays :: "TextOverlayPreset list"
  lib_timer_overlays :: "TimerOverlayPreset list"
  lib_assets :: "AssetRecord list"

definition library_new :: TriggerLibrary where
  "library_new = \<lparr>lib_schema_version = SCHEMA_VERSION, lib_folders = [], lib_triggers = [], lib_profiles = [],
     lib_text_overlays = [], lib_timer_overlays = [], lib_assets = []\<rparr>"

definition library_trigger :: "TriggerLibrary \<Rightarrow> TriggerId \<Rightarrow> Trigger option" where
  "library_trigger lib i = find (\<lambda>trigger. tg_id trigger = i) (lib_triggers lib)"

definition library_folder :: "TriggerLibrary \<Rightarrow> FolderId \<Rightarrow> Folder option" where
  "library_folder lib i = find (\<lambda>folder. fo_id folder = i) (lib_folders lib)"

text \<open>A folder and every folder under it, found breadth first.\<close>

definition add_child :: "FolderId \<Rightarrow> Folder \<Rightarrow> FolderId list \<Rightarrow> FolderId list" where
  "add_child parent child found = (if fo_parent child = Some parent \<and> fo_id child \<notin> set found then found @ [fo_id child] else found)"

lemma add_children:
  fixes found :: "FolderId list"
  shows "\<exists>more. fold (add_child parent) folders found = found @ more \<and> distinct more \<and> set more \<inter> set found = {} \<and> set more \<subseteq> fo_id ` set folders"
proof (induction folders arbitrary: found)
  case (Cons child folders)
  obtain more where more: "fold (add_child parent) folders (add_child parent child found) = add_child parent child found @ more"
    "distinct more" "set more \<inter> set (add_child parent child found) = {}" "set more \<subseteq> fo_id ` set folders"
    using Cons.IH by blast
  show ?case
  proof (cases "fo_parent child = Some parent \<and> fo_id child \<notin> set found")
    case True
    then have here: "add_child parent child found = found @ [fo_id child]" by (simp add: add_child_def)
    show ?thesis using more True unfolding here by (intro exI [of _ "fo_id child # more"]) (auto simp: here)
  next
    case False
    then have here: "add_child parent child found = found" by (simp add: add_child_def)
    show ?thesis using more unfolding here by (intro exI [of _ more]) (auto simp: here)
  qed
qed simp

lemma add_child_adds:
  "set (fold (add_child parent) folders found) = set found \<union> {fo_id child | child. child \<in> set folders \<and> fo_parent child = Some parent}"
proof (induction folders arbitrary: found)
  case (Cons child folders)
  have "set (add_child parent child found) = set found \<union> (if fo_parent child = Some parent then {fo_id child} else {})"
    by (auto simp: add_child_def)
  then show ?case using Cons.IH [of "add_child parent child found"] by auto
qed simp

lemma add_child_distinct: "distinct found \<Longrightarrow> distinct (fold (add_child parent) folders found)"
  using add_children [of parent folders found] by auto

function subtree_loop :: "Folder list \<Rightarrow> nat \<Rightarrow> FolderId list \<Rightarrow> FolderId list" where
  "subtree_loop folders cursor found =
     (if cursor < length found
      then subtree_loop folders (Suc cursor) (fold (add_child (found ! cursor)) folders found)
      else found)"
  by pat_completeness auto
termination
proof (relation "measure (\<lambda>(folders, cursor, found). card (fo_id ` set folders - set found) + length found - cursor)")
  fix folders cursor and found :: "FolderId list"
  assume inside: "cursor < length found"
  let ?next = "fold (add_child (found ! cursor)) folders found"
  obtain more where more: "?next = found @ more" "distinct more" "set more \<inter> set found = {}" "set more \<subseteq> fo_id ` set folders"
    using add_children by blast
  have fresh: "set more \<subseteq> fo_id ` set folders - set found" using more(3,4) by auto
  have "fo_id ` set folders - set ?next = (fo_id ` set folders - set found) - set more" using more(1) by auto
  then have "card (fo_id ` set folders - set ?next) + length more = card (fo_id ` set folders - set found)"
    using card_Diff_subset [OF _ fresh] card_mono [OF _ fresh] distinct_card [OF more(2)] by simp
  then show "((folders, Suc cursor, ?next), folders, cursor, found)
      \<in> measure (\<lambda>(folders, cursor, found). card (fo_id ` set folders - set found) + length found - cursor)"
    using inside more(1) by simp
qed simp

declare subtree_loop.simps [simp del]

definition folder_subtree :: "TriggerLibrary \<Rightarrow> FolderId \<Rightarrow> FolderId list" where
  "folder_subtree lib folder = subtree_loop (lib_folders lib) 0 [folder]"

text \<open>The folders under a folder, by their parents.\<close>

inductive under :: "Folder list \<Rightarrow> FolderId \<Rightarrow> FolderId \<Rightarrow> bool" for folders root where
  under_root: "under folders root root"
| under_child: "under folders root parent \<Longrightarrow> child \<in> set folders \<Longrightarrow> fo_parent child = Some parent
    \<Longrightarrow> under folders root (fo_id child)"

lemma subtree_loop_reaches:
  assumes "\<And>i. i \<in> set found \<Longrightarrow> under folders root i" "distinct found" "root \<in> set found" "cursor \<le> length found"
    "\<And>child i. i < cursor \<Longrightarrow> child \<in> set folders \<Longrightarrow> fo_parent child = Some (found ! i) \<Longrightarrow> fo_id child \<in> set found"
  shows "set (subtree_loop folders cursor found) = Collect (under folders root) \<and> distinct (subtree_loop folders cursor found)"
  using assms
proof (induction folders cursor found rule: subtree_loop.induct)
  case (1 folders cursor found)
  show ?case
  proof (cases "cursor < length found")
    case True
    let ?next = "fold (add_child (found ! cursor)) folders found"
    obtain more where more: "?next = found @ more" using add_children by blast
    have "set (subtree_loop folders (Suc cursor) ?next) = Collect (under folders root) \<and> distinct (subtree_loop folders (Suc cursor) ?next)"
    proof (rule "1.IH" [OF True])
      fix i assume "i \<in> set ?next"
      then show "under folders root i"
        using "1.prems"(1) under_child [OF "1.prems"(1) [OF nth_mem [OF True]]] unfolding add_child_adds by auto
    next
      show "distinct ?next" by (rule add_child_distinct [OF "1.prems"(2)])
    next
      show "root \<in> set ?next" using "1.prems"(3) more by simp
    next
      show "Suc cursor \<le> length ?next" using True more by simp
    next
      fix child i
      assume i: "i < Suc cursor" and child: "child \<in> set folders" "fo_parent child = Some (?next ! i)"
      have same: "?next ! i = found ! i" using i True more by (simp add: nth_append)
      show "fo_id child \<in> set ?next"
      proof (cases "i = cursor")
        case True
        then show ?thesis using child unfolding add_child_adds same by auto
      next
        case False
        then have "fo_id child \<in> set found" using "1.prems"(5) [of i child] i child same by simp
        then show ?thesis using more by simp
      qed
    qed
    then show ?thesis using True by (simp add: subtree_loop.simps [of folders cursor found])
  next
    case False
    have "under folders root i \<Longrightarrow> i \<in> set found" for i
    proof (induction rule: under.induct)
      case (under_child parent child)
      then obtain k where "k < length found" "found ! k = parent" by (auto simp: in_set_conv_nth)
      then show ?case using "1.prems"(5) [of k child] under_child(2,3) False by simp
    qed (rule "1.prems"(3))
    then show ?thesis using False "1.prems"(1,2) by (auto simp: subtree_loop.simps [of folders cursor found])
  qed
qed

lemma folder_subtree_reaches:
  "set (folder_subtree lib folder) = Collect (under (lib_folders lib) folder) \<and> distinct (folder_subtree lib folder)"
  unfolding folder_subtree_def by (rule subtree_loop_reaches) (auto intro: under_root)

text \<open>
  The folders of a subtree are exactly the folder itself and those whose chain of parents
  reaches it, each once, whatever the parents: a cycle of folders ends the search as well.
\<close>

theorem folder_subtree_is_reachable:
  "set (folder_subtree lib folder) = Collect (under (lib_folders lib) folder) \<and> distinct (folder_subtree lib folder)"
  by (rule folder_subtree_reaches)

section \<open>Number constraints and durations\<close>

datatype NumberOp = NumGreater | NumGreaterEqual | NumLess | NumLessEqual | NumEqual

definition number_op_parse :: "string \<Rightarrow> NumberOp option" where
  "number_op_parse op = map_of [(''>'', NumGreater), (''>='', NumGreaterEqual), (''<'', NumLess), (''<='', NumLessEqual),
     (''='', NumEqual), (''=='', NumEqual)] op"

fun number_op_flipped :: "NumberOp \<Rightarrow> NumberOp" where
  "number_op_flipped NumGreater = NumLess" | "number_op_flipped NumGreaterEqual = NumLessEqual"
| "number_op_flipped NumLess = NumGreater" | "number_op_flipped NumLessEqual = NumGreaterEqual"
| "number_op_flipped NumEqual = NumEqual"

fun number_op_check :: "NumberOp \<Rightarrow> int \<Rightarrow> int \<Rightarrow> bool" where
  "number_op_check NumGreater l r = (l > r)" | "number_op_check NumGreaterEqual l r = (l \<ge> r)"
| "number_op_check NumLess l r = (l < r)" | "number_op_check NumLessEqual l r = (l \<le> r)"
| "number_op_check NumEqual l r = (l = r)"

record NumberConstraint =
  nc_key :: string
  nc_op :: NumberOp
  nc_value :: int

definition parse_plain_u32 :: "string \<Rightarrow> int option" where
  "parse_plain_u32 t = (if t = [] \<or> \<not> list_all ascii_digit t then None
     else if digits_value t < 4294967296 then Some (digits_value t) else None)"

definition trim_end_char :: "char \<Rightarrow> string \<Rightarrow> string" where
  "trim_end_char c t = rev (dropWhile (\<lambda>b. b = c) (rev t))"

definition trim_start_char :: "char \<Rightarrow> string \<Rightarrow> string" where
  "trim_start_char c t = dropWhile (\<lambda>b. b = c) t"

definition ascii_letter :: "char \<Rightarrow> bool" where "ascii_letter c = (ascii_upper c \<or> ascii_lower c)"

definition unit_letters :: string where "unit_letters = ''dhmsDHMS''"

text \<open>The seconds of one segment, at a position from the right; wrapping as in a release build.\<close>

definition segment_seconds :: "bool \<Rightarrow> nat \<Rightarrow> string \<Rightarrow> nat option" where
  "segment_seconds labeled position segment =
     (let (digits, label) = (if segment \<noteq> [] \<and> ascii_letter (last segment)
            then (butlast segment, Some (byte_to_lower (last segment))) else (segment, None))
      in if segment = [] then None
         else Option.bind (parse_usize digits) (\<lambda>n.
           map_option (\<lambda>multiplier. n * multiplier mod 2 ^ 64)
             (case label of
                Some u \<Rightarrow> map_of [(CHR ''s'', 1), (CHR ''m'', 60), (CHR ''h'', 3600), (CHR ''d'', 86400)] u
              | None \<Rightarrow> if labeled then None
                  else map_of [(0, 1), (1, 60), (2, 3600), (3, 86400)] position)))"

fun sum_segments :: "bool \<Rightarrow> nat \<Rightarrow> string list \<Rightarrow> f64 \<Rightarrow> f64 option" where
  "sum_segments labeled position [] acc = Some acc"
| "sum_segments labeled position (segment # segments) acc =
     Option.bind (segment_seconds labeled position (trim segment)) (\<lambda>n.
       sum_segments labeled (Suc position) segments (f64_add acc (f64_of_int (int n))))"

definition simple_time_to_seconds :: "string \<Rightarrow> f64" where
  "simple_time_to_seconds t =
     (let segments = split_on (CHR '':'') (trim_end_char (CHR '':'') (trim t));
          labeled = list_ex (\<lambda>segment. segment \<noteq> [] \<and> last segment \<in> set unit_letters) segments
      in if segments = [] \<or> length segments > 4 then f64_of_int 0
         else unwrap_or (sum_segments labeled 0 (rev segments) (f64_of_int 0)) (f64_of_int 0))"

text \<open>All constraints of one capture; a value that is no number passes.\<close>

definition capture_passes :: "NumberConstraint list \<Rightarrow> string \<Rightarrow> string \<Rightarrow> bool" where
  "capture_passes constraints name val = list_all (\<lambda>c. eq_ignore_ascii_case (nc_key c) name \<longrightarrow>
     is_none_or (parse_plain_u32 val) (\<lambda>n. number_op_check (nc_op c) n (nc_value c))) constraints"

fun check_captures :: "NumberConstraint list \<Rightarrow> MatchMap \<Rightarrow> f64 option \<Rightarrow> bool \<times> f64 option" where
  "check_captures constraints [] duration = (True, duration)"
| "check_captures constraints ((name, val) # captures) duration =
     (if eq_ignore_ascii_case name ''ts''
      then let seconds = simple_time_to_seconds val
           in if f64_positive seconds then check_captures constraints captures (Some seconds) else (False, None)
      else if capture_passes constraints name val then check_captures constraints captures duration
      else (False, None))"

definition check_constraints :: "NumberConstraint list \<Rightarrow> MatchMap \<Rightarrow> bool \<times> f64 option" where
  "check_constraints constraints captures = check_captures constraints captures None"

section \<open>Running timers\<close>

type_synonym EngineMillis = nat

record 'r TriggerTools =
  tools_rx :: "'r RegexEngine"
  tools_expand :: "string \<Rightarrow> string \<times> NumberConstraint list"
  tools_uni :: Unicode

datatype 'r CompiledEnder = EnderRegex "'r CompatRegex" "NumberConstraint list" | EnderLiteral string

definition ender_matches :: "'r TriggerTools \<Rightarrow> 'r CompiledEnder \<Rightarrow> string \<Rightarrow> MatchMap option" where
  "ender_matches tools ender line =
     (case ender of
        EnderRegex regex constraints \<Rightarrow>
          (case snapshot_matches (tools_rx tools) regex line of
             Inr (Some outcome) \<Rightarrow> if fst (check_constraints constraints (mo_captures outcome)) then Some (mo_captures outcome) else None
           | _ \<Rightarrow> None)
      | EnderLiteral t \<Rightarrow> if t \<noteq> [] \<and> contains_ignore_case line t then Some [] else None)"

record 'r ActiveTimer =
  at_trigger_index :: nat
  at_trigger_id :: TriggerId
  at_kind :: TimerKind
  at_display_name :: string
  at_display_name_template :: string
  at_begin :: EngineMillis
  at_end :: EngineMillis
  at_duration_ms :: nat
  at_reset_at :: "EngineMillis option"
  at_warning_at :: "EngineMillis option"
  at_warned :: bool
  at_loop_count :: nat
  at_early_enders :: "'r CompiledEnder list"
  at_original_matches :: MatchMap
  at_previous_matches :: MatchMap
  at_source_line :: string
  at_log_time :: "string option"
  at_counter_count :: int
  at_repeated_count :: int

definition timer_is_ended :: "EngineMillis \<Rightarrow> 'r ActiveTimer \<Rightarrow> bool" where
  "timer_is_ended now timer = (now \<ge> at_end timer)"

definition warning_due :: "EngineMillis \<Rightarrow> 'r ActiveTimer \<Rightarrow> bool" where
  "warning_due now timer = (\<not> at_warned timer \<and> is_some_and (at_warning_at timer) (\<lambda>at. now \<ge> at))"

definition resolve_display_name :: "Unicode \<Rightarrow> 'r ActiveTimer \<Rightarrow> MatchMap \<Rightarrow> string" where
  "resolve_display_name uni timer variables =
     (let n0 = at_display_name_template timer;
          n1 = (if at_counter_count timer \<ge> 0 then replace_code n0 COUNTER_CODE (int_to_dec (at_counter_count timer)) else n0);
          n2 = (if at_repeated_count timer \<ge> 0 then replace_code n1 REPEATED_CODE (int_to_dec (at_repeated_count timer)) else n1);
          n3 = (case at_log_time timer of Some t \<Rightarrow> replace_code n2 LOGTIME_CODE t | None \<Rightarrow> n2)
      in replace_tokens uni (mm_get variables) n3)"

end
