(* ===== verification/Trigger_Conditions.thy ===== *)
theory Trigger_Conditions
  imports Trigger_Text
begin

text \<open>
  The condition language of triggers, \<^verbatim>\<open>crates/eqtrigger/src/conditions.rs\<close>: the tokenizer,
  the recursive descent parser with its bound on nesting, and the evaluation against a
  resolver of variables. A token list stands for the token vector from the current index on;
  the depth counter goes down again whenever a nested expression is complete, so it is an
  argument here.
\<close>

definition MAX_NESTING_DEPTH :: nat where "MAX_NESTING_DEPTH = 10"

datatype CompareOp = OpEq | OpNe | OpGt | OpGe | OpLt | OpLe | OpContains

datatype Operand = Variable string | Str string | Number f64 | Boolean bool | Null

datatype Condition =
    Or Condition Condition
  | And Condition Condition
  | Not Condition
  | Compare Operand CompareOp Operand
  | Truthy Operand

datatype CToken = TVariable string | TStr string | TNumber f64 | TBool bool | TNull | TOp CompareOp
  | TAnd | TOr | TNot | TLeftParen | TRightParen | TEnd

section \<open>Tokens\<close>

definition word_token :: "string \<Rightarrow> CToken option" where
  "word_token word =
     (let lower = to_ascii_lowercase word
      in map_of
          [(''eq'', TOp OpEq), (''neq'', TOp OpNe), (''gt'', TOp OpGt), (''ge'', TOp OpGe), (''gte'', TOp OpGe),
           (''lt'', TOp OpLt), (''le'', TOp OpLe), (''lte'', TOp OpLe), (''contains'', TOp OpContains),
           (''and'', TAnd), (''or'', TOr), (''not'', TNot), (''true'', TBool True), (''false'', TBool False),
           (''null'', TNull)] lower)"

text \<open>The characters of a text, each as its UTF-8 bytes.\<close>

function utf8_chars :: "string \<Rightarrow> string list" where
  "utf8_chars s = (case s of [] \<Rightarrow> [] | c # _ \<Rightarrow> take (char_bytes c) s # utf8_chars (drop (char_bytes c) s))"
  by pat_completeness auto
termination by (relation "measure length") (auto simp: char_bytes_def Let_def)

declare utf8_chars.simps [simp del]

definition is_whitespace_char :: "string \<Rightarrow> bool" where
  "is_whitespace_char c = is_whitespace_bytes (map of_char c)"

definition is_digit_char :: "string \<Rightarrow> bool" where
  "is_digit_char c = (case c of [b] \<Rightarrow> ascii_digit b | _ \<Rightarrow> False)"

definition is_letter_char :: "Unicode \<Rightarrow> string \<Rightarrow> bool" where
  "is_letter_char uni c = (case c of [b] \<Rightarrow> ascii_upper b \<or> ascii_lower b | _ \<Rightarrow> uni_alphabetic uni c)"

definition is_name_char :: "Unicode \<Rightarrow> string \<Rightarrow> bool" where
  "is_name_char uni c = (is_letter_char uni c \<or> is_digit_char c \<or> (length c > 1 \<and> uni_numeric uni c) \<or> c = ''_'' \<or> c = ''.'')"

text \<open>What follows the digits, the point and the digits of a number.\<close>

definition number_rest :: "string list \<Rightarrow> string list" where
  "number_rest body =
     (case dropWhile is_digit_char body of
        c # r \<Rightarrow> if c = ''.'' then dropWhile is_digit_char r else c # r
      | [] \<Rightarrow> [])"

definition number_token :: "string list \<Rightarrow> (CToken \<times> string list) option" where
  "number_token cs =
     (let rest = number_rest (if hd cs = ''-'' then tl cs else cs)
      in map_option (\<lambda>x. (TNumber x, rest)) (f64_parse (concat (take (length cs - length rest) cs))))"

text \<open>The text up to a closing character, which must exist.\<close>

definition delimited :: "string \<Rightarrow> string list \<Rightarrow> (string \<times> string list) option" where
  "delimited close cs =
     (case dropWhile (\<lambda>d. d \<noteq> close) cs of
        [] \<Rightarrow> None
      | _ # rest \<Rightarrow> Some (concat (takeWhile (\<lambda>d. d \<noteq> close) cs), rest))"

definition two_char_token :: "string \<Rightarrow> CToken option" where
  "two_char_token two = map_of [(''=='', TOp OpEq), (''!='', TOp OpNe), (''<>'', TOp OpNe), (''>='', TOp OpGe),
     (''<='', TOp OpLe), (''&&'', TAnd), (''||'', TOr)] two"

definition one_char_token :: "string \<Rightarrow> CToken option" where
  "one_char_token one = map_of [(''='', TOp OpEq), (''>'', TOp OpGt), (''<'', TOp OpLt), (''!'', TNot)] one"

definition operator_token :: "string \<Rightarrow> string list \<Rightarrow> (CToken \<times> string list) option" where
  "operator_token c cs =
     (case two_char_token (c @ concat (take 1 cs)) of
        Some t \<Rightarrow> Some (t, tl cs)
      | None \<Rightarrow> map_option (\<lambda>t. (t, cs)) (one_char_token c))"

definition word_or_name :: "Unicode \<Rightarrow> string \<Rightarrow> string list \<Rightarrow> CToken \<times> string list" where
  "word_or_name uni c cs =
     (let word = c @ concat (takeWhile (is_name_char uni) cs)
      in (unwrap_or (word_token word) (TStr word), dropWhile (is_name_char uni) cs))"

text \<open>One token at the front of the characters, with the characters after it.\<close>

abbreviation open_brace :: string where "open_brace \<equiv> [CHR 0x7B]"
abbreviation close_brace :: string where "close_brace \<equiv> [CHR 0x7D]"

definition next_token :: "Unicode \<Rightarrow> string \<Rightarrow> string list \<Rightarrow> (CToken \<times> string list) option" where
  "next_token uni c cs =
     (if c = open_brace then map_option (apfst TVariable) (delimited close_brace cs)
      else if c = ''$'' \<and> cs \<noteq> [] \<and> hd cs = open_brace then map_option (apfst TVariable) (delimited close_brace (tl cs))
      else if c = [CHR 0x22] \<or> c = [CHR 0x27] then map_option (apfst TStr) (delimited c cs)
      else if c = ''('' then Some (TLeftParen, cs)
      else if c = '')'' then Some (TRightParen, cs)
      else if is_digit_char c \<or> (c = ''-'' \<and> cs \<noteq> [] \<and> is_digit_char (hd cs)) then number_token (c # cs)
      else if c \<in> {''='', ''!'', ''<'', ''>'', ''&'', ''|''} then operator_token c cs
      else if is_letter_char uni c \<or> c = ''_'' then Some (word_or_name uni c cs)
      else None)"

lemma dropWhile_le: "length (dropWhile P xs) \<le> length xs"
  by (induction xs) auto

lemma number_rest_le: "length (number_rest cs) \<le> length cs"
proof (cases "dropWhile is_digit_char cs")
  case (Cons c r)
  then have "Suc (length r) \<le> length cs" using dropWhile_le [of is_digit_char cs] by simp
  then show ?thesis using Cons le_trans [OF dropWhile_le [of is_digit_char r]] by (auto simp: number_rest_def)
next
  case Nil
  show ?thesis unfolding number_rest_def Nil by simp
qed

lemma number_token_shorter:
  "number_token (c # cs) = Some (t, rest) \<Longrightarrow> is_digit_char c \<or> c = ''-'' \<Longrightarrow> length rest \<le> length cs"
  using number_rest_le [of cs] by (auto simp: number_token_def number_rest_def Let_def split: if_splits)

lemma delimited_shorter: "map_option (apfst f) (delimited close cs) = Some (t, rest) \<Longrightarrow> length rest \<le> length cs"
  using dropWhile_le [of "\<lambda>d. d \<noteq> close" cs] by (auto simp: delimited_def split: list.splits)

lemma operator_token_shorter: "operator_token c cs = Some (t, rest) \<Longrightarrow> length rest \<le> length cs"
  by (auto simp: operator_token_def split: option.splits)

lemma word_or_name_shorter: "word_or_name uni c cs = (t, rest) \<Longrightarrow> length rest \<le> length cs"
  by (auto simp: word_or_name_def Let_def dropWhile_le)

lemma next_token_shorter:
  assumes token: "next_token uni c cs = Some (t, rest)"
  shows "length rest \<le> length cs"
proof -
  have behind: "length rest \<le> length cs" if "map_option (apfst f) (delimited close (tl cs)) = Some (t, rest)" for f close
    using delimited_shorter [OF that] by simp
  have same: "length rest \<le> length cs" if "Some (u, cs) = Some (t, rest)" for u
    using that by simp
  have word: "length rest \<le> length cs" if "Some (word_or_name uni c cs) = Some (t, rest)"
    using that by (simp add: word_or_name_shorter)
  show ?thesis using token unfolding next_token_def
    by (simp only: split: if_split_asm)
      (erule delimited_shorter behind same word operator_token_shorter notE [OF option.distinct(1)] | (erule number_token_shorter, blast))+
qed

function tokenize_from :: "Unicode \<Rightarrow> string list \<Rightarrow> CToken list option" where
  "tokenize_from uni [] = Some [TEnd]"
| "tokenize_from uni (c # cs) =
     (if is_whitespace_char c then tokenize_from uni cs
      else case next_token uni c cs of
        None \<Rightarrow> None
      | Some (t, rest) \<Rightarrow> map_option (\<lambda>ts. t # ts) (tokenize_from uni rest))"
  by pat_completeness auto
termination
  by (relation "measure (\<lambda>(_, cs). length cs)") (auto dest!: next_token_shorter)

definition tokenize :: "Unicode \<Rightarrow> string \<Rightarrow> CToken list option" where
  "tokenize uni input = tokenize_from uni (utf8_chars input)"

section \<open>The parser\<close>

definition current :: "CToken list \<Rightarrow> CToken" where
  "current ts = (case ts of t # _ \<Rightarrow> t | [] \<Rightarrow> TEnd)"

definition advance_token :: "CToken list \<Rightarrow> CToken list" where
  "advance_token ts = (if length ts > 1 then tl ts else ts)"

datatype Primary = POperand Operand | PExpression Condition

definition parse_primary_operand :: "CToken list \<Rightarrow> (Operand \<times> CToken list) option" where
  "parse_primary_operand ts =
     map_option (\<lambda>operand. (operand, advance_token ts))
       (case current ts of
          TVariable name \<Rightarrow> Some (Variable name) | TStr t \<Rightarrow> Some (Str t) | TNumber x \<Rightarrow> Some (Number x)
        | TBool b \<Rightarrow> Some (Boolean b) | TNull \<Rightarrow> Some Null | _ \<Rightarrow> None)"

text \<open>
  The bound on nesting makes the recursion structural: \<open>room\<close> is how much deeper the parser may
  go, and \<open>nested\<close> is the parser one level down. A chain consumes a token in every turn, so the
  number of tokens bounds its turns.
\<close>

type_synonym condition_parser = "CToken list \<Rightarrow> (Condition \<times> CToken list) option"

definition parse_primary :: "condition_parser \<Rightarrow> CToken list \<Rightarrow> (Primary \<times> CToken list) option" where
  "parse_primary nested ts =
     (if current ts = TLeftParen
      then Option.bind (nested (advance_token ts)) (\<lambda>(node, ts1).
             if current ts1 = TRightParen then Some (PExpression node, advance_token ts1) else None)
      else map_option (\<lambda>(operand, ts1). (POperand operand, ts1)) (parse_primary_operand ts))"

definition parse_comparison :: "condition_parser \<Rightarrow> condition_parser" where
  "parse_comparison nested ts =
     Option.bind (parse_primary nested ts) (\<lambda>(left, ts1).
       case current ts1 of
         TOp op \<Rightarrow> Option.bind (parse_primary_operand (advance_token ts1)) (\<lambda>(right, ts2).
           case left of POperand l \<Rightarrow> Some (Compare l op right, ts2) | PExpression _ \<Rightarrow> None)
       | _ \<Rightarrow> Some (case left of POperand operand \<Rightarrow> Truthy operand | PExpression condition \<Rightarrow> condition, ts1))"

fun chain :: "nat \<Rightarrow> condition_parser \<Rightarrow> CToken \<Rightarrow> (Condition \<Rightarrow> Condition \<Rightarrow> Condition) \<Rightarrow> Condition \<Rightarrow> condition_parser" where
  "chain turns sub separator build node ts =
     (if current ts \<noteq> separator then Some (node, ts)
      else case turns of
        0 \<Rightarrow> None
      | Suc turns' \<Rightarrow> Option.bind (sub (advance_token ts))
          (\<lambda>(right, ts1). chain turns' sub separator build (build node right) ts1))"

declare chain.simps [simp del]

definition parse_and :: "condition_parser \<Rightarrow> condition_parser" where
  "parse_and unary ts = Option.bind (unary ts) (\<lambda>(node, ts1). chain (length ts1) unary TAnd And node ts1)"

definition parse_or :: "condition_parser \<Rightarrow> condition_parser" where
  "parse_or unary ts = Option.bind (parse_and unary ts) (\<lambda>(node, ts1). chain (length ts1) (parse_and unary) TOr Or node ts1)"

fun parse_unary :: "nat \<Rightarrow> condition_parser" where
  "parse_unary 0 ts = (if current ts = TNot then None else parse_comparison (\<lambda>_. None) ts)"
| "parse_unary (Suc room) ts =
     (if current ts = TNot
      then map_option (\<lambda>(operand, ts1). (Not operand, ts1)) (parse_unary room (advance_token ts))
      else parse_comparison (parse_or (parse_unary room)) ts)"

definition parse_tokens :: "CToken list \<Rightarrow> Condition option" where
  "parse_tokens ts = Option.bind (parse_or (parse_unary MAX_NESTING_DEPTH) ts)
     (\<lambda>(node, rest). if current rest = TEnd then Some node else None)"

definition parse_condition :: "Unicode \<Rightarrow> string \<Rightarrow> Condition option" where
  "parse_condition uni expression =
     (if trim expression = [] then None else Option.bind (tokenize uni expression) parse_tokens)"

section \<open>Evaluation\<close>

definition format_number :: "f64 \<Rightarrow> string" where
  "format_number x = (if small_integer x then int_to_dec (f64_as_i64 x) else f64_display x)"

definition parse_number :: "string \<Rightarrow> f64 option" where
  "parse_number t =
     (let s = trim t in if s = [] then None
      else case f64_parse s of Some x \<Rightarrow> if f64_is_finite x then Some x else None | None \<Rightarrow> None)"

fun operand_value :: "(string \<Rightarrow> string option) \<Rightarrow> Operand \<Rightarrow> string option" where
  "operand_value resolve (Variable name) = resolve name"
| "operand_value resolve (Str t) = Some t"
| "operand_value resolve (Number x) = Some (format_number x)"
| "operand_value resolve (Boolean b) = Some (if b then ''true'' else ''false'')"
| "operand_value resolve Null = None"

definition equals :: "string option \<Rightarrow> Operand \<Rightarrow> string option \<Rightarrow> Operand \<Rightarrow> bool" where
  "equals left left_operand right right_operand =
     (case (left, right) of
        (Some l, Some r) \<Rightarrow> eq_ignore_ascii_case l r
      | _ \<Rightarrow> (left_operand = Null \<or> right_operand = Null) \<and> left = None \<and> right = None)"

definition ordered :: "(f64 \<Rightarrow> f64 \<Rightarrow> bool) \<Rightarrow> string option \<Rightarrow> string option \<Rightarrow> bool" where
  "ordered holds left right =
     (let value = (\<lambda>v. case v of None \<Rightarrow> Some (Finite 0 (- 1074)) | Some t \<Rightarrow> parse_number t)
      in case (value left, value right) of (Some l, Some r) \<Rightarrow> holds l r | _ \<Rightarrow> False)"

definition compare_values :: "string option \<Rightarrow> Operand \<Rightarrow> CompareOp \<Rightarrow> string option \<Rightarrow> Operand \<Rightarrow> bool" where
  "compare_values left left_operand op right right_operand =
     (case op of
        OpEq \<Rightarrow> equals left left_operand right right_operand
      | OpNe \<Rightarrow> \<not> equals left left_operand right right_operand
      | OpContains \<Rightarrow> (case (left, right) of (Some l, Some r) \<Rightarrow> contains_ignore_case l r | _ \<Rightarrow> False)
      | OpGt \<Rightarrow> ordered (\<lambda>l r. f64_lt r l) left right
      | OpGe \<Rightarrow> ordered (\<lambda>l r. f64_le r l) left right
      | OpLt \<Rightarrow> ordered f64_lt left right
      | OpLe \<Rightarrow> ordered f64_le left right)"

fun evaluate :: "(string \<Rightarrow> string option) \<Rightarrow> Condition \<Rightarrow> bool" where
  "evaluate resolve (Or left right) = (evaluate resolve left \<or> evaluate resolve right)"
| "evaluate resolve (And left right) = (evaluate resolve left \<and> evaluate resolve right)"
| "evaluate resolve (Not inner) = (\<not> evaluate resolve inner)"
| "evaluate resolve (Truthy operand) =
     (case operand of
        Variable name \<Rightarrow> is_some_and (resolve name) (\<lambda>val. val \<noteq> [])
      | Boolean b \<Rightarrow> b
      | Null \<Rightarrow> False
      | _ \<Rightarrow> True)"
| "evaluate resolve (Compare left op right) =
     compare_values (operand_value resolve left) left op (operand_value resolve right) right"

section \<open>Printing a condition\<close>

text \<open>
  The tokens of a condition, with parentheses only where the grammar needs them: level 0 is the
  place of a disjunction, 1 of a conjunction, 2 of a unary expression.
\<close>

fun operand_token :: "Operand \<Rightarrow> CToken" where
  "operand_token (Variable name) = TVariable name"
| "operand_token (Str t) = TStr t"
| "operand_token (Number x) = TNumber x"
| "operand_token (Boolean b) = TBool b"
| "operand_token Null = TNull"

definition wrap :: "bool \<Rightarrow> CToken list \<Rightarrow> CToken list" where
  "wrap b ts = (if b then TLeftParen # ts @ [TRightParen] else ts)"

fun show_at :: "nat \<Rightarrow> Condition \<Rightarrow> CToken list" where
  "show_at n (Or left right) = wrap (n > 0) (show_at 0 left @ TOr # show_at 1 right)"
| "show_at n (And left right) = wrap (n > 1) (show_at 1 left @ TAnd # show_at 2 right)"
| "show_at n (Not inner) = TNot # show_at 2 inner"
| "show_at n (Truthy operand) = [operand_token operand]"
| "show_at n (Compare left op right) = [operand_token left, TOp op, operand_token right]"

text \<open>How deep negations and parentheses are nested in it.\<close>

fun depth_at :: "nat \<Rightarrow> Condition \<Rightarrow> nat" where
  "depth_at n (Or left right) = (if n > 0 then 1 else 0) + max (depth_at 0 left) (depth_at 1 right)"
| "depth_at n (And left right) = (if n > 1 then 1 else 0) + max (depth_at 1 left) (depth_at 2 right)"
| "depth_at n (Not inner) = Suc (depth_at 2 inner)"
| "depth_at n (Truthy operand) = 0"
| "depth_at n (Compare left op right) = 0"

definition not_operator :: "CToken list \<Rightarrow> bool" where
  "not_operator ts \<longleftrightarrow> ts \<noteq> [] \<and> (\<forall>op. current ts \<noteq> TOp op)"

lemma current_Cons [simp]: "current (t # ts) = t"
  by (simp add: current_def)

lemma advance_Cons [simp]: "ts \<noteq> [] \<Longrightarrow> advance_token (t # ts) = ts"
  by (simp add: advance_token_def)

lemma parse_operand_token [simp]:
  "ts \<noteq> [] \<Longrightarrow> parse_primary_operand (operand_token operand # ts) = Some (operand, ts)"
  by (cases operand) (simp_all add: parse_primary_operand_def)

lemma operand_token_kind [simp]: "operand_token operand \<noteq> TLeftParen" "operand_token operand \<noteq> TNot"
  by (cases operand; simp)+

lemma chain_stop [simp]: "current ts \<noteq> separator \<Longrightarrow> chain turns sub separator build node ts = Some (node, ts)"
  by (simp add: chain.simps)

lemma chain_turn: "current ts = separator \<Longrightarrow> chain (Suc turns) sub separator build node ts =
  Option.bind (sub (advance_token ts)) (\<lambda>(right, ts1). chain turns sub separator build (build node right) ts1)"
  by (subst chain.simps) simp

lemma comparison_cases:
  assumes "not_operator rest"
  shows "parse_comparison nested (operand_token operand # rest) = Some (Truthy operand, rest)"
    "parse_comparison nested (operand_token left # TOp op # operand_token right # rest) = Some (Compare left op right, rest)"
  using assms
  by (auto simp: parse_comparison_def parse_primary_def not_operator_def split: CToken.split)

lemma comparison_parenthesised:
  assumes "not_operator rest" "nested (ts @ TRightParen # rest) = Some (c, TRightParen # rest)"
  shows "parse_comparison nested (TLeftParen # ts @ TRightParen # rest) = Some (c, rest)"
  using assms
  by (auto simp: parse_comparison_def parse_primary_def not_operator_def split: CToken.split)

text \<open>What the parser does on a printed condition, at each level; a chain may go on behind it.\<close>

definition reads_back :: "Condition \<Rightarrow> bool" where
  "reads_back c \<longleftrightarrow> (\<forall>room rest. not_operator rest \<longrightarrow>
     (depth_at 2 c \<le> room \<longrightarrow> parse_unary room (show_at 2 c @ rest) = Some (c, rest))
     \<and> (depth_at 1 c \<le> room \<longrightarrow> (\<exists>turns \<ge> length rest.
           parse_and (parse_unary room) (show_at 1 c @ rest) = chain turns (parse_unary room) TAnd And c rest))
     \<and> (depth_at 0 c \<le> room \<longrightarrow> current rest \<noteq> TAnd \<longrightarrow> (\<exists>turns \<ge> length rest.
           parse_or (parse_unary room) (show_at 0 c @ rest) = chain turns (parse_and (parse_unary room)) TOr Or c rest)))"

lemma reads_backD:
  assumes "reads_back c" "not_operator rest"
  shows "depth_at 2 c \<le> room \<Longrightarrow> parse_unary room (show_at 2 c @ rest) = Some (c, rest)"
    "depth_at 1 c \<le> room \<Longrightarrow> \<exists>turns \<ge> length rest.
       parse_and (parse_unary room) (show_at 1 c @ rest) = chain turns (parse_unary room) TAnd And c rest"
    "depth_at 0 c \<le> room \<Longrightarrow> current rest \<noteq> TAnd \<Longrightarrow> \<exists>turns \<ge> length rest.
       parse_or (parse_unary room) (show_at 0 c @ rest) = chain turns (parse_and (parse_unary room)) TOr Or c rest"
  using assms unfolding reads_back_def by blast+

text \<open>A condition printed alike on the levels 1 and 2, or on all of them.\<close>

lemma and_of_unary:
  "parse_unary room (show_at 2 c @ rest) = Some (c, rest) \<Longrightarrow> show_at 1 c = show_at 2 c \<Longrightarrow>
   \<exists>turns \<ge> length rest. parse_and (parse_unary room) (show_at 1 c @ rest) = chain turns (parse_unary room) TAnd And c rest"
  by (auto simp: parse_and_def)

lemma or_of_and:
  assumes "\<exists>turns \<ge> length rest. parse_and (parse_unary room) (show_at 1 c @ rest) = chain turns (parse_unary room) TAnd And c rest"
    "show_at 0 c = show_at 1 c" "current rest \<noteq> TAnd"
  shows "\<exists>turns \<ge> length rest. parse_or (parse_unary room) (show_at 0 c @ rest) = chain turns (parse_and (parse_unary room)) TOr Or c rest"
  using assms by (auto simp: parse_or_def)

lemma reads_back_atom:
  assumes "\<And>room rest. not_operator rest \<Longrightarrow> depth_at 2 c \<le> room \<Longrightarrow> parse_unary room (show_at 2 c @ rest) = Some (c, rest)"
    "show_at 1 c = show_at 2 c" "show_at 0 c = show_at 1 c" "depth_at 1 c = depth_at 2 c" "depth_at 0 c = depth_at 2 c"
  shows "reads_back c"
  unfolding reads_back_def using assms and_of_unary or_of_and by metis

lemma parenthesised:
  assumes "\<exists>turns \<ge> Suc (length rest). parse_or (parse_unary room) (show_at 0 c @ TRightParen # rest)
      = chain turns (parse_and (parse_unary room)) TOr Or c (TRightParen # rest)"
    "show_at 2 c = TLeftParen # show_at 0 c @ [TRightParen]" "not_operator rest"
  shows "parse_unary (Suc room) (show_at 2 c @ rest) = Some (c, rest)"
proof -
  have "parse_or (parse_unary room) (show_at 0 c @ TRightParen # rest) = Some (c, TRightParen # rest)"
    using assms(1) by auto
  from comparison_parenthesised [where ts = "show_at 0 c" and c = c and nested = "parse_or (parse_unary room)", OF assms(3) this] show ?thesis by (simp add: assms(2))
qed

lemma not_operator_Cons [simp]: "not_operator (TAnd # ts)" "not_operator (TOr # ts)" "not_operator (TRightParen # ts)" "not_operator [TEnd]"
  by (simp_all add: not_operator_def)

lemma reads_back_And:
  assumes left: "reads_back left" and right: "reads_back right"
  shows "reads_back (And left right)"
proof -
  have level1: "\<exists>turns \<ge> length rest. parse_and (parse_unary room) (show_at 1 (And left right) @ rest)
      = chain turns (parse_unary room) TAnd And (And left right) rest"
    if here: "not_operator rest" "depth_at 1 (And left right) \<le> room" for room rest
  proof -
    obtain turns where turns: "turns \<ge> length (TAnd # show_at 2 right @ rest)"
      "parse_and (parse_unary room) (show_at 1 left @ TAnd # show_at 2 right @ rest)
        = chain turns (parse_unary room) TAnd And left (TAnd # show_at 2 right @ rest)"
      using reads_backD(2) [OF left, of "TAnd # show_at 2 right @ rest" room] here by auto
    obtain turns' where "turns = Suc turns'" using turns(1) by (cases turns) auto
    moreover have "parse_unary room (show_at 2 right @ rest) = Some (right, rest)"
      using reads_backD(1) [OF right here(1)] here(2) by simp
    moreover have "rest \<noteq> []" using here(1) by (simp add: not_operator_def)
    ultimately show ?thesis using turns by (intro exI [of _ turns']) (simp add: chain_turn wrap_def)
  qed
  have level0: "\<exists>turns \<ge> length rest. parse_or (parse_unary room) (show_at 0 (And left right) @ rest)
      = chain turns (parse_and (parse_unary room)) TOr Or (And left right) rest"
    if "not_operator rest" "depth_at 0 (And left right) \<le> room" "current rest \<noteq> TAnd" for room rest
    using that by (intro or_of_and level1) (simp_all add: wrap_def)
  have level2: "parse_unary room (show_at 2 (And left right) @ rest) = Some (And left right, rest)"
    if here: "not_operator rest" "depth_at 2 (And left right) \<le> room" for room rest
  proof -
    obtain r where r: "room = Suc r" using here(2) by (cases room) auto
    show ?thesis unfolding r
      by (rule parenthesised [OF _ _ here(1)]) (use here r level0 [of "TRightParen # rest" r] in \<open>auto simp: wrap_def\<close>)
  qed
  show ?thesis unfolding reads_back_def using level0 level1 level2 by blast
qed

lemma reads_back_Or:
  assumes left: "reads_back left" and right: "reads_back right"
  shows "reads_back (Or left right)"
proof -
  have level0: "\<exists>turns \<ge> length rest. parse_or (parse_unary room) (show_at 0 (Or left right) @ rest)
      = chain turns (parse_and (parse_unary room)) TOr Or (Or left right) rest"
    if here: "not_operator rest" "depth_at 0 (Or left right) \<le> room" "current rest \<noteq> TAnd" for room rest
  proof -
    obtain turns where turns: "turns \<ge> length (TOr # show_at 1 right @ rest)"
      "parse_or (parse_unary room) (show_at 0 left @ TOr # show_at 1 right @ rest)
        = chain turns (parse_and (parse_unary room)) TOr Or left (TOr # show_at 1 right @ rest)"
      using reads_backD(3) [OF left, of "TOr # show_at 1 right @ rest" room] here by auto
    obtain turns' where "turns = Suc turns'" using turns(1) by (cases turns) auto
    moreover have "parse_and (parse_unary room) (show_at 1 right @ rest) = Some (right, rest)"
      using reads_backD(2) [OF right here(1), of room] here(2,3) by auto
    moreover have "rest \<noteq> []" using here(1) by (simp add: not_operator_def)
    ultimately show ?thesis using turns by (intro exI [of _ turns']) (simp add: chain_turn wrap_def)
  qed
  have level2: "parse_unary room (show_at 2 (Or left right) @ rest) = Some (Or left right, rest)"
    if here: "not_operator rest" "depth_at 2 (Or left right) \<le> room" for room rest
  proof -
    obtain r where r: "room = Suc r" using here(2) by (cases room) auto
    show ?thesis unfolding r
      by (rule parenthesised [OF _ _ here(1)]) (use here r level0 [of "TRightParen # rest" r] in \<open>auto simp: wrap_def\<close>)
  qed
  have level1: "\<exists>turns \<ge> length rest. parse_and (parse_unary room) (show_at 1 (Or left right) @ rest)
      = chain turns (parse_unary room) TAnd And (Or left right) rest"
    if "not_operator rest" "depth_at 1 (Or left right) \<le> room" for room rest
    by (rule and_of_unary [OF level2]) (use that in \<open>auto simp: wrap_def\<close>)
  show ?thesis unfolding reads_back_def using level0 level1 level2 by blast
qed

lemma reads_back_all: "reads_back c"
proof (induction c)
  case (Not inner)
  have "parse_unary room (show_at 2 (Not inner) @ rest) = Some (Not inner, rest)"
    if here: "not_operator rest" "depth_at 2 (Not inner) \<le> room" for room rest
  proof -
    obtain r where r: "room = Suc r" using here(2) by (cases room) auto
    have "show_at 2 inner @ rest \<noteq> []" using here(1) by (simp add: not_operator_def)
    then show ?thesis using reads_backD(1) [OF Not.IH here(1), of r] here(2) by (simp add: r)
  qed
  then show ?case by (rule reads_back_atom) simp_all
next
  case (Compare left op right)
  have "parse_unary room (show_at 2 (Compare left op right) @ rest) = Some (Compare left op right, rest)"
    if "not_operator rest" for room rest
    using comparison_cases(2) [OF that] by (cases room) simp_all
  then show ?case by (intro reads_back_atom) simp_all
next
  case (Truthy operand)
  have "parse_unary room (show_at 2 (Truthy operand) @ rest) = Some (Truthy operand, rest)"
    if "not_operator rest" for room rest
    using comparison_cases(1) [OF that] by (cases room) simp_all
  then show ?case by (intro reads_back_atom) simp_all
qed (simp_all add: reads_back_And reads_back_Or)

lemma parse_shown:
  assumes "depth_at 0 c \<le> MAX_NESTING_DEPTH"
  shows "parse_tokens (show_at 0 c @ [TEnd]) = Some c"
  using reads_backD(3) [OF reads_back_all not_operator_Cons(4) assms] by (auto simp: parse_tokens_def)

section \<open>Nothing deeper is accepted\<close>

lemma depth_levels:
  shows "depth_at 0 c \<le> depth_at (Suc 0) c" and "depth_at (Suc 0) c \<le> depth_at 2 c" and "depth_at 2 c \<le> Suc (depth_at 0 c)"
proof -
  show "depth_at 0 c \<le> depth_at (Suc 0) c" by (cases c) (auto simp: max_def)
  show "depth_at (Suc 0) c \<le> depth_at 2 c" by (cases c) (auto simp: max_def)
  show "depth_at 2 c \<le> Suc (depth_at 0 c)" by (cases c) (auto simp: max_def)
qed

lemma chain_keeps:
  assumes "\<And>ts c ts'. sub ts = Some (c, ts') \<Longrightarrow> P c" "\<And>l r. Q l \<Longrightarrow> P r \<Longrightarrow> Q (build l r)"
  shows "Q node \<Longrightarrow> chain turns sub separator build node ts = Some (c, ts') \<Longrightarrow> Q c"
proof (induction turns arbitrary: node ts)
  case 0
  then show ?case by (simp add: chain.simps split: if_splits)
next
  case (Suc turns)
  show ?case
  proof (cases "current ts = separator")
    case False
    then show ?thesis using Suc.prems by simp
  next
    case True
    then obtain right ts1 where "sub (advance_token ts) = Some (right, ts1)"
      "chain turns sub separator build (build node right) ts1 = Some (c, ts')"
      using Suc.prems(2) by (auto simp: chain_turn bind_eq_Some_conv)
    then show ?thesis using Suc.IH assms Suc.prems(1) by blast
  qed
qed

lemma comparison_depth:
  assumes nested: "\<And>ts c ts'. nested ts = Some (c, ts') \<Longrightarrow> depth_at 2 c \<le> room" and parsed: "parse_comparison nested ts = Some (c, ts')"
  shows "depth_at 2 c \<le> room"
proof -
  obtain left ts1 where left: "parse_primary nested ts = Some (left, ts1)"
    using parsed by (auto simp: parse_comparison_def bind_eq_Some_conv)
  show ?thesis
  proof (cases left)
    case (POperand operand)
    then show ?thesis using parsed left by (auto simp: parse_comparison_def bind_eq_Some_conv split: CToken.splits)
  next
    case (PExpression condition)
    then obtain ts2 where "nested (advance_token ts) = Some (condition, ts2)"
      using left by (auto simp: parse_primary_def bind_eq_Some_conv split: if_splits)
    then have "depth_at 2 condition \<le> room" by (rule nested)
    moreover have "c = condition" using parsed left PExpression by (simp add: parse_comparison_def bind_eq_Some_conv split: CToken.splits)
    ultimately show ?thesis by simp
  qed
qed

lemma parse_depth: "parse_unary room ts = Some (c, ts') \<Longrightarrow> depth_at 2 c \<le> room"
  and parse_or_depth: "parse_or (parse_unary room) ts = Some (c, ts') \<Longrightarrow> depth_at 0 c \<le> room"
proof -
  have conjunction: "depth_at (Suc 0) c \<le> room"
    if sub: "\<And>ts c ts'. unary ts = Some (c, ts') \<Longrightarrow> depth_at 2 c \<le> room" and parsed: "parse_and unary ts = Some (c, ts')"
    for unary room ts c ts'
  proof -
    obtain node ts1 where node: "unary ts = Some (node, ts1)" "chain (length ts1) unary TAnd And node ts1 = Some (c, ts')"
      using parsed by (auto simp: parse_and_def bind_eq_Some_conv)
    show ?thesis
      by (rule chain_keeps [where P = "\<lambda>c. depth_at 2 c \<le> room" and Q = "\<lambda>c. depth_at (Suc 0) c \<le> room", OF _ _ _ node(2)])
        (use sub le_trans [OF depth_levels(2) sub [OF node(1)]] in auto)
  qed
  have disjunction: "depth_at 0 c \<le> room"
    if sub: "\<And>ts c ts'. unary ts = Some (c, ts') \<Longrightarrow> depth_at 2 c \<le> room" and parsed: "parse_or unary ts = Some (c, ts')"
    for unary room ts c ts'
  proof -
    obtain node ts1 where node: "parse_and unary ts = Some (node, ts1)" "chain (length ts1) (parse_and unary) TOr Or node ts1 = Some (c, ts')"
      using parsed by (auto simp: parse_or_def bind_eq_Some_conv)
    show ?thesis
      by (rule chain_keeps [where P = "\<lambda>c. depth_at (Suc 0) c \<le> room" and Q = "\<lambda>c. depth_at 0 c \<le> room", OF _ _ _ node(2)])
        (use conjunction [OF sub] le_trans [OF depth_levels(1) conjunction [OF sub node(1)]] in auto)
  qed
  have unary: "parse_unary room ts = Some (c, ts') \<Longrightarrow> depth_at 2 c \<le> room" for room ts c ts'
  proof (induction room arbitrary: ts c ts')
    case 0
    then show ?case using comparison_depth [of "\<lambda>_. None" 0] by (auto split: if_splits)
  next
    case (Suc room)
    have nested: "depth_at 2 c \<le> Suc room" if "parse_or (parse_unary room) ts = Some (c, ts')" for ts c ts'
    proof -
      have "depth_at 0 c \<le> room" by (rule disjunction [OF _ that]) (rule Suc.IH)
      then show ?thesis using depth_levels(3) [of c] by simp
    qed
    show ?case
    proof (cases "current ts = TNot")
      case True
      then show ?thesis using Suc by auto
    next
      case False
      then show ?thesis using Suc.prems comparison_depth [OF nested] by simp
    qed
  qed
  show "parse_unary room ts = Some (c, ts') \<Longrightarrow> depth_at 2 c \<le> room" by (rule unary)
  show "parse_or (parse_unary room) ts = Some (c, ts') \<Longrightarrow> depth_at 0 c \<le> room" by (rule disjunction [OF unary])
qed

section \<open>Printing as text\<close>

fun op_text :: "CompareOp \<Rightarrow> string" where
  "op_text OpEq = ''==''" | "op_text OpNe = ''!=''" | "op_text OpGt = ''>''" | "op_text OpGe = ''>=''"
| "op_text OpLt = ''<''" | "op_text OpLe = ''<=''" | "op_text OpContains = ''contains''"

fun token_text :: "CToken \<Rightarrow> string" where
  "token_text (TVariable name) = open_brace @ name @ close_brace"
| "token_text (TStr t) = CHR 0x22 # t @ [CHR 0x22]"
| "token_text (TNumber x) = f64_display x"
| "token_text (TBool b) = (if b then ''true'' else ''false'')"
| "token_text TNull = ''null''"
| "token_text (TOp op) = op_text op"
| "token_text TAnd = ''and''"
| "token_text TOr = ''or''"
| "token_text TNot = ''not''"
| "token_text TLeftParen = ''(''"
| "token_text TRightParen = '')''"
| "token_text TEnd = []"

definition tokens_text :: "CToken list \<Rightarrow> string" where
  "tokens_text ts = concat (map (\<lambda>t. token_text t @ '' '') ts)"

definition render :: "Condition \<Rightarrow> string" where
  "render c = tokens_text (show_at 0 c)"

text \<open>Texts that may stand in a literal: ASCII without the closing character; numbers are left out.\<close>

definition plain :: "char \<Rightarrow> string \<Rightarrow> bool" where
  "plain close t = list_all (\<lambda>b. byte b < 128 \<and> b \<noteq> close) t"

fun token_plain :: "CToken \<Rightarrow> bool" where
  "token_plain (TVariable name) = plain (CHR 0x7D) name"
| "token_plain (TStr t) = plain (CHR 0x22) t"
| "token_plain (TNumber x) = False"
| "token_plain TEnd = False"
| "token_plain _ = True"

definition printable :: "Condition \<Rightarrow> bool" where
  "printable c = list_all token_plain (show_at 0 c)"

lemma utf8_chars_ascii: "list_all (\<lambda>b. byte b < 128) s \<Longrightarrow> utf8_chars s = map (\<lambda>b. [b]) s"
  by (induction s) (simp_all add: utf8_chars.simps [of "[]"] utf8_chars.simps [of "_ # _"] char_bytes_def)

lemma delimited_plain:
  "plain close t \<Longrightarrow> delimited [close] (map (\<lambda>b. [b]) t @ [close] # cs) = Some (t, cs)"
proof -
  assume "plain close t"
  then have "takeWhile (\<lambda>d. d \<noteq> [close]) (map (\<lambda>b. [b]) t @ [close] # cs) = map (\<lambda>b. [b]) t"
    "dropWhile (\<lambda>d. d \<noteq> [close]) (map (\<lambda>b. [b]) t @ [close] # cs) = [close] # cs"
    by (induction t) (auto simp: plain_def)
  then show ?thesis by (simp add: delimited_def comp_def)
qed

lemmas ascii_tests = is_whitespace_char_def is_whitespace_bytes_def is_digit_char_def is_letter_char_def is_name_char_def
  ascii_upper_def ascii_lower_def ascii_digit_def

lemma tokenize_blank: "tokenize_from uni ('' '' # cs) = tokenize_from uni cs"
  by (simp add: ascii_tests)

lemma word_before_blank:
  assumes "is_letter_char uni [b]" "list_all (\<lambda>c. is_letter_char uni [c]) w" "word_token (b # w) = Some t"
    "\<not> is_whitespace_char [b]"
  shows "tokenize_from uni (map (\<lambda>c. [c]) (b # w) @ '' '' # cs) = map_option ((#) t) (tokenize_from uni cs)"
proof -
  have blank: "\<not> is_name_char uni '' ''" by (simp add: ascii_tests)
  have "takeWhile (is_name_char uni) (map (\<lambda>c. [c]) w @ '' '' # cs) = map (\<lambda>c. [c]) w"
    "dropWhile (is_name_char uni) (map (\<lambda>c. [c]) w @ '' '' # cs) = '' '' # cs"
    using assms(2) blank by (induction w) (auto simp: is_name_char_def)
  then have "word_or_name uni [b] (map (\<lambda>c. [c]) w @ '' '' # cs) = (t, '' '' # cs)"
    using assms(3) by (simp add: word_or_name_def unwrap_or_def comp_def)
  moreover have letter: "ascii_upper b \<or> ascii_lower b" using assms(1) by (simp add: is_letter_char_def)
  then have "b \<noteq> CHR 0x7B" "b \<noteq> CHR ''$''" "b \<noteq> CHR 0x22" "b \<noteq> CHR 0x27" "b \<noteq> CHR ''(''" "b \<noteq> CHR '')''" "\<not> ascii_digit b"
    "b \<noteq> CHR ''-''" "b \<noteq> CHR ''=''" "b \<noteq> CHR ''!''" "b \<noteq> CHR ''<''" "b \<noteq> CHR ''>''" "b \<noteq> CHR ''&''" "b \<noteq> CHR ''|''"
    by (auto simp: ascii_upper_def ascii_lower_def ascii_digit_def)
  then have "next_token uni [b] (map (\<lambda>c. [c]) w @ '' '' # cs) = Some (word_or_name uni [b] (map (\<lambda>c. [c]) w @ '' '' # cs))"
    using letter by (simp add: next_token_def is_letter_char_def is_digit_char_def)
  ultimately show ?thesis using assms(4) tokenize_blank [of uni cs] by simp
qed

lemma variable_before_blank:
  "plain (CHR 0x7D) name \<Longrightarrow>
   tokenize_from uni (map (\<lambda>c. [c]) (token_text (TVariable name)) @ '' '' # cs) = map_option ((#) (TVariable name)) (tokenize_from uni cs)"
  using delimited_plain [of "CHR 0x7D" name "'' '' # cs"] tokenize_blank [of uni cs]
  by (simp add: next_token_def is_whitespace_char_def is_whitespace_bytes_def)

lemma string_before_blank:
  "plain (CHR 0x22) t \<Longrightarrow>
   tokenize_from uni (map (\<lambda>c. [c]) (token_text (TStr t)) @ '' '' # cs) = map_option ((#) (TStr t)) (tokenize_from uni cs)"
  using delimited_plain [of "CHR 0x22" t "'' '' # cs"] tokenize_blank [of uni cs]
  by (simp add: next_token_def is_whitespace_char_def is_whitespace_bytes_def)

lemma token_before_blank:
  assumes "token_plain t"
  shows "tokenize_from uni (map (\<lambda>c. [c]) (token_text t) @ '' '' # cs) = map_option ((#) t) (tokenize_from uni cs)"
proof -
  have operator: "tokenize_from uni (map (\<lambda>c. [c]) (op_text op) @ '' '' # cs) = map_option ((#) (TOp op)) (tokenize_from uni cs)"
    if "op \<noteq> OpContains" for op
    using that tokenize_blank [of uni cs]
    by (cases op) (simp_all add: next_token_def operator_token_def two_char_token_def one_char_token_def ascii_tests)
  have word: "tokenize_from uni (map (\<lambda>c. [c]) (b # w) @ '' '' # cs) = map_option ((#) u) (tokenize_from uni cs)"
    if "list_all ascii_lower (b # w)" "word_token (b # w) = Some u" for b w u
    by (rule word_before_blank) (use that in \<open>auto simp: is_letter_char_def is_whitespace_char_def is_whitespace_bytes_def ascii_lower_def list_all_iff\<close>)
  show ?thesis
  proof (cases t)
    case (TVariable name)
    then show ?thesis using assms variable_before_blank by simp
  next
    case (TStr u)
    then show ?thesis using assms string_before_blank by simp
  next
    case (TOp op)
    then show ?thesis using operator [of op] word [of "CHR ''c''" "''ontains''"]
      by (cases "op = OpContains") (simp_all add: word_token_def to_ascii_lowercase_def byte_to_lower_def ascii_tests)
  next
    case (TBool b)
    then show ?thesis using word [of "CHR ''t''" "''rue''"] word [of "CHR ''f''" "''alse''"]
      by (cases b) (simp_all add: word_token_def to_ascii_lowercase_def byte_to_lower_def ascii_tests)
  next
    case TNull
    then show ?thesis using word [of "CHR ''n''" "''ull''"] by (simp add: word_token_def to_ascii_lowercase_def byte_to_lower_def ascii_tests)
  next
    case TAnd
    then show ?thesis using word [of "CHR ''a''" "''nd''"] by (simp add: word_token_def to_ascii_lowercase_def byte_to_lower_def ascii_tests)
  next
    case TOr
    then show ?thesis using word [of "CHR ''o''" "''r''"] by (simp add: word_token_def to_ascii_lowercase_def byte_to_lower_def ascii_tests)
  next
    case TNot
    then show ?thesis using word [of "CHR ''n''" "''ot''"] by (simp add: word_token_def to_ascii_lowercase_def byte_to_lower_def ascii_tests)
  next
    case TLeftParen
    then show ?thesis using tokenize_blank [of uni cs] by (simp add: next_token_def ascii_tests)
  next
    case TRightParen
    then show ?thesis using tokenize_blank [of uni cs] by (simp add: next_token_def ascii_tests)
  qed (use assms in simp_all)
qed

lemma tokenize_text:
  "list_all token_plain ts \<Longrightarrow> tokenize_from uni (map (\<lambda>c. [c]) (tokens_text ts)) = Some (ts @ [TEnd])"
proof (induction ts)
  case Nil
  then show ?case by (simp add: tokens_text_def)
next
  case (Cons t ts)
  then show ?case using token_before_blank [of t uni "map (\<lambda>c. [c]) (tokens_text ts)"]
    by (simp add: tokens_text_def)
qed

lemma tokens_text_ascii: "list_all token_plain ts \<Longrightarrow> list_all (\<lambda>b. byte b < 128) (tokens_text ts)"
proof (induction ts)
  case (Cons t ts)
  have "list_all (\<lambda>b. byte b < 128) (op_text op)" for op by (cases op) simp_all
  then have "list_all (\<lambda>b. byte b < 128) (token_text t)"
    using Cons.prems by (cases t) (auto simp: plain_def list_all_iff)
  then show ?case using Cons by (simp add: tokens_text_def)
qed (simp add: tokens_text_def)

lemma trailing_ws_true: "trailing_ws s = n \<Longrightarrow> n \<noteq> 0 \<Longrightarrow> is_whitespace_bytes (map byte (rev (take n (rev s))))"
  by (auto simp: trailing_ws_def split: if_splits)

lemma trim_graphic: "33 \<le> byte c \<Longrightarrow> byte c < 128 \<Longrightarrow> trim (c # s) \<noteq> []"
proof -
  assume c: "33 \<le> byte c" "byte c < 128"
  have white: "\<not> is_whitespace_bytes (byte c # bs)" for bs
    using c by (auto simp: is_whitespace_bytes_def split: list.split)
  have start: "leading_ws (c # s) = 0" using white by (simp add: leading_ws_def numeral_2_eq_2 numeral_3_eq_3)
  have "trim_end (c # t) \<noteq> []" for t
  proof (induction "length t" arbitrary: t rule: less_induct)
    case less
    have all: "\<not> is_whitespace_bytes (map byte (rev (take n (rev (c # t)))))" if "length t < n" for n
      using white that by (simp add: take_rev)
    have small: "trailing_ws (c # t) \<le> length t"
    proof (rule ccontr)
      assume long: "\<not> trailing_ws (c # t) \<le> length t"
      then have "trailing_ws (c # t) \<noteq> 0" by simp
      from trailing_ws_true [OF refl this] all [of "trailing_ws (c # t)"] long show False by linarith
    qed
    show ?case
    proof (cases "trailing_ws (c # t) = 0")
      case True
      then show ?thesis by (simp add: trim_end.simps)
    next
      case False
      then have "take (length (c # t) - trailing_ws (c # t)) (c # t) = c # take (length t - trailing_ws (c # t)) t"
        using small by (simp add: Suc_diff_le)
      then show ?thesis using False less [of "take (length t - trailing_ws (c # t)) t"] small
        by (simp add: trim_end.simps [of "c # t"])
    qed
  qed
  then show ?thesis using start by (simp add: trim_def trim_start.simps [of "c # s"])
qed

lemma show_nonempty: "\<exists>t ts. show_at n c = t # ts"
proof -
  have "show_at n c \<noteq> []" by (cases c) (simp_all add: wrap_def)
  then show ?thesis by (simp add: neq_Nil_conv)
qed

lemma render_starts: "printable c \<Longrightarrow> \<exists>b s. render c = b # s \<and> 33 \<le> byte b \<and> byte b < 128"
proof -
  assume printable: "printable c"
  obtain t ts where ts: "show_at 0 c = t # ts" using show_nonempty by blast
  then have "token_plain t" using printable by (simp add: printable_def)
  moreover have "\<exists>b s. op_text op = b # s \<and> 33 \<le> byte b \<and> byte b < 128" for op by (cases op) simp_all
  ultimately have "\<exists>b s. token_text t = b # s \<and> 33 \<le> byte b \<and> byte b < 128"
    by (cases t) auto
  then show ?thesis by (auto simp: render_def tokens_text_def ts)
qed


definition demo_condition :: Condition where
  "demo_condition = And (Not (Truthy (Variable ''paused'')))
     (Or (Compare (Variable ''who'') OpEq (Str ''a gnoll'')) (And (Truthy (Boolean True)) (Compare (Variable ''n'') OpGe Null)))"


text \<open>
  The parser accepts exactly what it should: a condition is the result of parsing some
  sequence of tokens if, and only if, its negations and the parentheses it needs are nested at
  most ten deep.
\<close>

theorem accepted_conditions:
  "(\<exists>ts. parse_tokens ts = Some c) \<longleftrightarrow> depth_at 0 c \<le> MAX_NESTING_DEPTH"
proof
  assume "\<exists>ts. parse_tokens ts = Some c"
  then show "depth_at 0 c \<le> MAX_NESTING_DEPTH"
    by (auto simp: parse_tokens_def bind_eq_Some_conv split: if_splits dest!: parse_or_depth)
next
  assume "depth_at 0 c \<le> MAX_NESTING_DEPTH"
  then show "\<exists>ts. parse_tokens ts = Some c" using parse_shown by blast
qed

end
