(* ===== verification/Trigger_Engine.thy ===== *)
theory Trigger_Engine
  imports Trigger_Model Trigger_Conditions
begin

text \<open>
  The trigger engine, \<^verbatim>\<open>crates/eqtrigger/src/engine.rs\<close>: the compilation of a library, the
  state of a character, the evaluation of a log line and the virtual clock. The trace of the
  test bench observes a run and changes nothing; the model is the run without one. Hash maps
  are sorted association lists; where their iteration order shows, in \<open>advance\<close> over the
  characters, it is an argument. Times are unsigned 64-bit numbers, and their sums
  wrap as in a release build.
\<close>

definition u64_wrapping_sub :: "nat \<Rightarrow> nat \<Rightarrow> nat" where
  "u64_wrapping_sub a b = (a + 2 ^ 64 - b) mod 2 ^ 64"

definition i64_wrap :: "int \<Rightarrow> int" where
  "i64_wrap x = (x + 2 ^ 63) mod 2 ^ 64 - 2 ^ 63"

text \<open>\<^verbatim>\<open>(seconds * 1000.0) as u64\<close>.\<close>

definition seconds_to_millis :: "f64 \<Rightarrow> nat" where
  "seconds_to_millis seconds = f64_as_u64 (f64_mul seconds (f64_of_int 1000))"

lemma u64_wrapping_add_code [code]: "u64_wrapping_add a b = nat ((int a + int b) mod 18446744073709551616)"
proof -
  have "nat ((int a + int b) mod 18446744073709551616) = (a + b) mod 18446744073709551616"
    using nat_mod_distrib [of "int a + int b" 18446744073709551616] by (simp add: nat_add_distrib)
  then show ?thesis by (simp add: u64_wrapping_add_def)
qed

lemma u64_wrapping_sub_code [code]: "u64_wrapping_sub a b =
    (if int b \<le> int a + 18446744073709551616 then nat ((int a + 18446744073709551616 - int b) mod 18446744073709551616) else 0)"
proof (cases "b \<le> a + 18446744073709551616")
  case True
  then have "nat (int a + 18446744073709551616 - int b) = a + 18446744073709551616 - b" by simp
  moreover have "int b \<le> int a + 18446744073709551616" using True by linarith
  ultimately show ?thesis
    using nat_mod_distrib [of "int a + 18446744073709551616 - int b" 18446744073709551616] by (simp add: u64_wrapping_sub_def)
next
  case False
  then have "\<not> int b \<le> int a + 18446744073709551616" by linarith
  then show ?thesis using False by (simp add: u64_wrapping_sub_def)
qed

section \<open>Actions\<close>

record CharacterContext =
  cx_key :: string
  cx_character :: string
  cx_server :: string

datatype ActionPhase = Initial | TimerWarning | TimerEnd | TimerEndEarly

datatype TriggerAction = DisplayText string "OverlayId list" "string option" | PlaySound string int | Speak string "int option" int

record ActionEvent =
  ae_character :: string
  ae_trigger_id :: TriggerId
  ae_trigger_name :: string
  ae_phase :: ActionPhase
  ae_target :: PresentationTarget
  ae_priority :: int
  ae_action :: TriggerAction

record ActionBatch =
  ab_events :: "ActionEvent list"
  ab_timers_changed :: bool

definition batch_default :: ActionBatch where
  "batch_default = \<lparr>ab_events = [], ab_timers_changed = False\<rparr>"

definition push_event :: "ActionEvent \<Rightarrow> ActionBatch \<Rightarrow> ActionBatch" where
  "push_event event batch = batch\<lparr>ab_events := ab_events batch @ [event]\<rparr>"

section \<open>Compilation\<close>

datatype 'r Matcher =
    MatchRegex "'r CompatRegex" "NumberConstraint list" Prefilter string bool
  | MatchLiteral string bool

record TemplateFlags =
  tf_counter :: bool
  tf_repeated :: bool
  tf_logtime :: bool

definition flags_for :: "string \<Rightarrow> TemplateFlags" where
  "flags_for template = \<lparr>tf_counter = contains_code template COUNTER_CODE,
     tf_repeated = contains_code template REPEATED_CODE, tf_logtime = contains_code template LOGTIME_CODE\<rparr>"

record 'r CompiledTrigger =
  ct_id :: TriggerId
  ct_name :: string
  ct_trigger :: Trigger
  ct_matcher :: "'r Matcher"
  ct_previous :: "'r Matcher option"
  ct_condition :: "Condition option"
  ct_condition_invalid :: bool
  ct_display_template :: string
  ct_speak_template :: string
  ct_timer_name_template :: string
  ct_warning_display :: string
  ct_warning_speak :: string
  ct_end_display :: string
  ct_end_speak :: string
  ct_early_display :: string
  ct_early_speak :: string
  ct_ender_templates :: "Pattern list"
  ct_speak_flags :: TemplateFlags
  ct_display_flags :: TemplateFlags
  ct_timer_flags :: TemplateFlags

record CompiledProfile =
  cp_assignment :: ProfileAssignment
  cp_members :: "nat list"

record 'r CompiledLibrary =
  cl_triggers :: "'r CompiledTrigger list"
  cl_profiles :: "CompiledProfile list"
  cl_compile_errors :: "(TriggerId \<times> string) list"

definition compat_error_text :: "RegexCompatError \<Rightarrow> string" where
  "compat_error_text error = rce_reason error @ '': '' @ rce_detail error"

definition compile_matcher :: "'r TriggerTools \<Rightarrow> Pattern \<Rightarrow> string + 'r Matcher" where
  "compile_matcher tools pattern =
     (let needs_character = contains_code (pat_text pattern) CHARACTER_CODE
      in if \<not> pat_use_regex pattern then Inr (MatchLiteral (pat_text pattern) needs_character)
         else let (expanded, constraints) = tools_expand tools (pat_text pattern)
              in if needs_character
                 then map_sum compat_error_text (\<lambda>regex. MatchRegex regex constraints PrefilterNone expanded True)
                   (compat_compile (tools_rx tools) (replace_code expanded CHARACTER_CODE ''X''))
                 else map_sum compat_error_text (\<lambda>regex. MatchRegex regex constraints (prefilter_for_pattern expanded) expanded False)
                   (compat_compile (tools_rx tools) expanded))"

text \<open>The previous pattern, where there is one that is not blank; an error of it fails the trigger.\<close>

definition compile_previous :: "'r TriggerTools \<Rightarrow> Pattern option \<Rightarrow> string + 'r Matcher option" where
  "compile_previous tools previous =
     (case previous of
        Some pattern \<Rightarrow> if pattern_is_empty pattern then Inr None else map_sum (\<lambda>e. e) Some (compile_matcher tools pattern)
      | None \<Rightarrow> Inr None)"

definition preprocess :: "nat \<Rightarrow> string option \<Rightarrow> string" where
  "preprocess warning_seconds t = replace_code (unwrap_or t []) TIMER_WARN_TIME_CODE (nat_to_dec warning_seconds)"

definition stage_text :: "(TimerStageActions \<Rightarrow> string option) \<Rightarrow> (TimerBehavior \<Rightarrow> TimerStageActions) \<Rightarrow> Trigger \<Rightarrow> string" where
  "stage_text field stage trigger =
     preprocess (case tg_timer trigger of Some timer \<Rightarrow> tb_warning_seconds timer | None \<Rightarrow> 0)
       (Option.bind (tg_timer trigger) (\<lambda>timer. field (stage timer)))"

definition timer_name_source :: "Trigger \<Rightarrow> string" where
  "timer_name_source trigger =
     (case tg_timer trigger of
        Some behavior \<Rightarrow> if trim (tb_timer_name behavior) \<noteq> [] then tb_timer_name behavior else tg_name trigger
      | None \<Rightarrow> tg_name trigger)"

definition compiled_trigger :: "'r TriggerTools \<Rightarrow> Trigger \<Rightarrow> 'r Matcher \<Rightarrow> 'r Matcher option \<Rightarrow> 'r CompiledTrigger" where
  "compiled_trigger tools trigger matcher previous =
     (let condition = parse_condition (tools_uni tools) (tg_condition trigger);
          warning_seconds = (case tg_timer trigger of Some timer \<Rightarrow> tb_warning_seconds timer | None \<Rightarrow> 0);
          display_template = preprocess warning_seconds (tg_display_text trigger);
          speak_template = preprocess warning_seconds (tg_speak_text trigger);
          timer_name_template = preprocess warning_seconds (Some (timer_name_source trigger))
      in \<lparr>ct_id = tg_id trigger, ct_name = tg_name trigger, ct_trigger = trigger, ct_matcher = matcher, ct_previous = previous,
          ct_condition = condition, ct_condition_invalid = (condition = None \<and> trim (tg_condition trigger) \<noteq> []),
          ct_display_template = display_template, ct_speak_template = speak_template,
          ct_timer_name_template = timer_name_template,
          ct_warning_display = stage_text sa_display_text tb_warning trigger,
          ct_warning_speak = stage_text sa_speak_text tb_warning trigger,
          ct_end_display = stage_text sa_display_text tb_end trigger,
          ct_end_speak = stage_text sa_speak_text tb_end trigger,
          ct_early_display = stage_text sa_display_text tb_early_end trigger,
          ct_early_speak = stage_text sa_speak_text tb_early_end trigger,
          ct_ender_templates = (case tg_timer trigger of
             Some timer \<Rightarrow> filter (\<lambda>p. \<not> pattern_is_empty p) (tb_end_early_patterns timer) | None \<Rightarrow> []),
          ct_speak_flags = flags_for speak_template, ct_display_flags = flags_for display_template,
          ct_timer_flags = flags_for timer_name_template\<rparr>)"

definition compile_trigger :: "'r TriggerTools \<Rightarrow> Trigger \<Rightarrow> string + 'r CompiledTrigger" where
  "compile_trigger tools trigger =
     (case compile_matcher tools (tg_pattern trigger) of
        Inl error \<Rightarrow> Inl error
      | Inr matcher \<Rightarrow> map_sum (\<lambda>e. e) (compiled_trigger tools trigger matcher) (compile_previous tools (tg_previous_pattern trigger)))"

text \<open>The compiled triggers, the index of an identifier (a later one replaces it), the errors.\<close>

definition compilable :: "Trigger \<Rightarrow> bool" where
  "compilable trigger = (tg_enabled trigger \<and> tg_quarantine trigger = None \<and> \<not> pattern_is_empty (tg_pattern trigger))"

definition compile_one ::
  "'r TriggerTools \<Rightarrow> Trigger \<Rightarrow> 'r CompiledTrigger list \<times> (TriggerId \<rightharpoonup> nat) \<times> (TriggerId \<times> string) list
     \<Rightarrow> 'r CompiledTrigger list \<times> (TriggerId \<rightharpoonup> nat) \<times> (TriggerId \<times> string) list" where
  "compile_one tools trigger acc =
     (case acc of (triggers, index_by_id, errors) \<Rightarrow>
        if \<not> compilable trigger then acc
        else case compile_trigger tools trigger of
          Inr compiled \<Rightarrow> (triggers @ [compiled], index_by_id(tg_id trigger \<mapsto> length triggers), errors)
        | Inl error \<Rightarrow> (triggers, index_by_id, errors @ [(tg_id trigger, error)]))"

definition folder_members :: "TriggerLibrary \<Rightarrow> (TriggerId \<rightharpoonup> nat) \<Rightarrow> FolderId \<Rightarrow> nat list" where
  "folder_members library index_by_id folder =
     (let subtree = folder_subtree library folder
      in filter_map (\<lambda>trigger. case tg_folder trigger of
             Some parent \<Rightarrow> if parent \<in> set subtree then index_by_id (tg_id trigger) else None
           | None \<Rightarrow> None) (lib_triggers library))"

text \<open>\<^verbatim>\<open>sort_unstable\<close> of indexes, then \<^verbatim>\<open>dedup\<close> of equal neighbours.\<close>

definition sorted_indexes :: "nat list \<Rightarrow> nat list" where
  "sorted_indexes members = remdups_adj (sort members)"

definition compile_profile :: "TriggerLibrary \<Rightarrow> (TriggerId \<rightharpoonup> nat) \<Rightarrow> Profile \<Rightarrow> CompiledProfile" where
  "compile_profile library index_by_id profile =
     \<lparr>cp_assignment = pr_assignment profile,
      cp_members = sorted_indexes (filter_map index_by_id (pr_triggers profile)
        @ concat (map (folder_members library index_by_id) (pr_folders profile)))\<rparr>"

definition compile_library :: "'r TriggerTools \<Rightarrow> TriggerLibrary \<Rightarrow> 'r CompiledLibrary" where
  "compile_library tools library =
     (case fold (compile_one tools) (lib_triggers library) ([], Map.empty, []) of
        (triggers, index_by_id, errors) \<Rightarrow>
          \<lparr>cl_triggers = triggers,
           cl_profiles = map (compile_profile library index_by_id) (filter pr_enabled (lib_profiles library)),
           cl_compile_errors = errors\<rparr>)"

definition active_trigger_count :: "'r CompiledLibrary \<Rightarrow> nat" where
  "active_trigger_count lib = length (cl_triggers lib)"

definition assigned :: "ProfileAssignment \<Rightarrow> string \<Rightarrow> string \<Rightarrow> bool" where
  "assigned assignment character server =
     (case assignment of AssignGlobal \<Rightarrow> True | AssignCharacters sels \<Rightarrow> list_ex (\<lambda>sel. selector_matches sel character server) sels)"

definition active_for :: "'r CompiledLibrary \<Rightarrow> string \<Rightarrow> string \<Rightarrow> nat list" where
  "active_for lib character server =
     (if cl_profiles lib = [] then [0..<length (cl_triggers lib)]
      else sorted_indexes (concat (map cp_members (filter (\<lambda>profile. assigned (cp_assignment profile) character server) (cl_profiles lib)))))"

section \<open>The state of a character\<close>

record RepeatedData =
  rd_count :: int
  rd_last_ms :: EngineMillis

type_synonym Buckets = "(nat, (string, RepeatedData) btree_map) btree_map"

definition repeat_key :: "string \<Rightarrow> string" where "repeat_key val = to_ascii_lowercase val"

definition trigger_count :: string where "trigger_count = ''trigger-count''"

definition update_repeated :: "Buckets \<Rightarrow> nat \<Rightarrow> string \<Rightarrow> EngineMillis \<Rightarrow> f64 \<Rightarrow> Buckets \<times> int" where
  "update_repeated buckets index val now reset_seconds =
     (if val = [] \<or> f64_lt reset_seconds (f64_of_int 0) then (buckets, -1)
      else let bucket = unwrap_or (bm_get buckets index) [];
               data = unwrap_or (bm_get bucket (repeat_key val)) \<lparr>rd_count = 0, rd_last_ms = 0\<rparr>;
               reset_ms = seconds_to_millis reset_seconds;
               count = (if rd_count data = 0 \<or> now - rd_last_ms data > reset_ms then 1 else i64_wrap (rd_count data + 1))
           in (bm_insert index (bm_insert (repeat_key val) \<lparr>rd_count = count, rd_last_ms = now\<rparr> bucket) buckets, count))"

definition get_repeated :: "Buckets \<Rightarrow> nat \<Rightarrow> string \<Rightarrow> int" where
  "get_repeated buckets index val =
     (case Option.bind (bm_get buckets index) (\<lambda>bucket. bm_get bucket (repeat_key val)) of Some data \<Rightarrow> rd_count data | None \<Rightarrow> -1)"

definition forget_repeated :: "nat \<Rightarrow> string \<Rightarrow> Buckets \<Rightarrow> Buckets" where
  "forget_repeated index val buckets = bm_modify index (bm_remove (repeat_key val)) buckets"

record VariableStore =
  vs_values :: "(string, string) btree_map"
  vs_counters :: "(string, f64) btree_map"
  vs_expiry :: "(string, EngineMillis) btree_map"

definition store_default :: VariableStore where
  "store_default = \<lparr>vs_values = [], vs_counters = [], vs_expiry = []\<rparr>"

definition store_key :: "string \<Rightarrow> string" where "store_key name = to_ascii_lowercase name"

definition store_get :: "VariableStore \<Rightarrow> string \<Rightarrow> string option" where
  "store_get store name = bm_get (vs_values store) (store_key name)"

definition store_set :: "string \<Rightarrow> string \<Rightarrow> EngineMillis option \<Rightarrow> VariableStore \<Rightarrow> VariableStore" where
  "store_set name val expires_at store =
     store\<lparr>vs_values := bm_insert (store_key name) val (vs_values store),
           vs_expiry := (case expires_at of
              Some at \<Rightarrow> bm_insert (store_key name) at (vs_expiry store)
            | None \<Rightarrow> bm_remove (store_key name) (vs_expiry store))\<rparr>"

definition store_remove :: "string \<Rightarrow> VariableStore \<Rightarrow> VariableStore" where
  "store_remove key store = \<lparr>vs_values = bm_remove key (vs_values store), vs_counters = bm_remove key (vs_counters store),
     vs_expiry = bm_remove key (vs_expiry store)\<rparr>"

definition store_clear :: "string \<Rightarrow> VariableStore \<Rightarrow> VariableStore" where
  "store_clear name store = store_remove (store_key name) store"

definition store_expire :: "EngineMillis \<Rightarrow> VariableStore \<Rightarrow> VariableStore" where
  "store_expire now store =
     (let expired = map fst (filter (\<lambda>(_, at). now \<ge> at) (vs_expiry store)) in fold store_remove expired store)"

definition store_as_match_map :: "VariableStore \<Rightarrow> MatchMap" where
  "store_as_match_map store = fold (\<lambda>(key, val). mm_insert key val) (vs_values store) []"

record 'r CharState =
  cs_context :: CharacterContext
  cs_active :: "nat list"
  cs_disabled :: "bool list"
  cs_character_regexes :: "(nat \<times> bool, 'r CompatRegex option) btree_map"
  cs_variables :: VariableStore
  cs_counter_times :: Buckets
  cs_repeated_text :: Buckets
  cs_repeated_timer :: Buckets
  cs_repeated_speak :: Buckets
  cs_lockout_until :: "(nat, EngineMillis) btree_map"
  cs_previous_line :: "string option"
  cs_timers :: "'r ActiveTimer list"

record 'r TriggerEngine =
  te_compiled :: "'r CompiledLibrary"
  te_characters :: "(string, 'r CharState) btree_map"

definition trigger_engine_new :: "'r CompiledLibrary \<Rightarrow> 'r TriggerEngine" where
  "trigger_engine_new compiled = \<lparr>te_compiled = compiled, te_characters = []\<rparr>"

definition remove_character :: "string \<Rightarrow> 'r TriggerEngine \<Rightarrow> bool \<times> 'r TriggerEngine" where
  "remove_character key engine =
     (bm_contains (te_characters engine) key, engine\<lparr>te_characters := bm_remove key (te_characters engine)\<rparr>)"

definition new_char_state :: "'r CompiledLibrary \<Rightarrow> CharacterContext \<Rightarrow> 'r CharState" where
  "new_char_state lib context =
     \<lparr>cs_context = context, cs_active = active_for lib (cx_character context) (cx_server context),
      cs_disabled = replicate (length (cl_triggers lib)) False, cs_character_regexes = [],
      cs_variables = store_default, cs_counter_times = [], cs_repeated_text = [],
      cs_repeated_timer = [], cs_repeated_speak = [], cs_lockout_until = [],
      cs_previous_line = None, cs_timers = []\<rparr>"

definition state_for :: "'r TriggerEngine \<Rightarrow> CharacterContext \<Rightarrow> 'r CharState" where
  "state_for engine context = unwrap_or (bm_get (te_characters engine) (cx_key context)) (new_char_state (te_compiled engine) context)"

section \<open>Matching a line\<close>

record LineMatch =
  lm_captures :: MatchMap
  lm_spans :: "(nat \<times> nat) list"
  lm_dynamic_duration :: "f64 option"

text \<open>The regular expression of a trigger for a character, built once.\<close>

definition character_regex ::
  "'r TriggerTools \<Rightarrow> nat \<times> bool \<Rightarrow> string \<Rightarrow> 'r CharState \<Rightarrow> 'r CharState \<times> 'r CompatRegex option" where
  "character_regex tools slot expanded state =
     (case bm_get (cs_character_regexes state) slot of
        Some entry \<Rightarrow> (state, entry)
      | None \<Rightarrow>
          let pattern = replace_code expanded CHARACTER_CODE (rx_escape (tools_rx tools) (cx_character (cs_context state)));
              entry = (case compat_compile (tools_rx tools) pattern of Inr regex \<Rightarrow> Some regex | Inl _ \<Rightarrow> None)
          in (state\<lparr>cs_character_regexes := bm_insert slot entry (cs_character_regexes state)\<rparr>, entry))"

text \<open>An error of the matcher disables the trigger for the character.\<close>

definition match_outcome ::
  "'r TriggerTools \<Rightarrow> nat \<Rightarrow> NumberConstraint list \<Rightarrow> 'r CompatRegex \<Rightarrow> string \<Rightarrow> 'r CharState \<Rightarrow> 'r CharState \<times> LineMatch option" where
  "match_outcome tools index constraints regex line state =
     (case snapshot_matches (tools_rx tools) regex line of
        Inl _ \<Rightarrow> (state\<lparr>cs_disabled := (cs_disabled state)[index := True]\<rparr>, None)
      | Inr None \<Rightarrow> (state, None)
      | Inr (Some outcome) \<Rightarrow>
          (let (passed, duration) = check_constraints constraints (mo_captures outcome)
           in (state, if passed then Some \<lparr>lm_captures = mo_captures outcome, lm_spans = mo_spans outcome,
                                           lm_dynamic_duration = duration\<rparr> else None)))"

definition check_line ::
  "'r TriggerTools \<Rightarrow> 'r CompiledLibrary \<Rightarrow> nat \<Rightarrow> string \<Rightarrow> bool \<Rightarrow> 'r CharState \<Rightarrow> 'r CharState \<times> LineMatch option" where
  "check_line tools lib index line is_previous state =
     (let compiled = cl_triggers lib ! index
      in case (if is_previous then ct_previous compiled else Some (ct_matcher compiled)) of
           None \<Rightarrow> (state, None)
         | Some (MatchLiteral literal needs_character) \<Rightarrow>
             let t = (if needs_character then replace_code literal CHARACTER_CODE (cx_character (cs_context state)) else literal)
             in (state, if t \<noteq> [] \<and> contains_ignore_case line t
                        then Some \<lparr>lm_captures = [], lm_spans = [], lm_dynamic_duration = None\<rparr> else None)
         | Some (MatchRegex regex constraints prefilter expanded needs_character) \<Rightarrow>
             if \<not> admits prefilter line then (state, None)
             else if needs_character
             then (let (state, entry) = character_regex tools (index, is_previous) expanded state
                   in case entry of
                        None \<Rightarrow> (state, None)
                      | Some own \<Rightarrow> match_outcome tools index constraints own line state)
             else match_outcome tools index constraints regex line state)"

section \<open>Presentation\<close>

definition is_sound_file :: "string \<Rightarrow> bool" where
  "is_sound_file t = (let lower = to_ascii_lowercase t; ends = (\<lambda>e. take (length e) (rev lower) = rev e)
      in ends ''.wav'' \<or> ends ''.mp3'')"

definition action_event :: "'r CompiledLibrary \<Rightarrow> 'r CharState \<Rightarrow> nat \<Rightarrow> ActionPhase \<Rightarrow> TriggerAction \<Rightarrow> ActionEvent" where
  "action_event lib state index phase action =
     (let compiled = cl_triggers lib ! index
      in \<lparr>ae_character = cx_key (cs_context state), ae_trigger_id = ct_id compiled, ae_trigger_name = ct_name compiled,
          ae_phase = phase, ae_target = tg_target (ct_trigger compiled), ae_priority = tg_priority (ct_trigger compiled),
          ae_action = action\<rparr>)"

definition display_event :: "'r CompiledLibrary \<Rightarrow> 'r CharState \<Rightarrow> nat \<Rightarrow> ActionPhase \<Rightarrow> string \<Rightarrow> ActionEvent" where
  "display_event lib state index phase t =
     (let trigger = ct_trigger (cl_triggers lib ! index)
      in action_event lib state index phase (DisplayText t (tg_text_overlays trigger) (tg_font_color trigger)))"

text \<open>The matches a template of a stage sees, and the line it speaks of.\<close>

record Sources =
  so_line :: string
  so_matches :: "MatchMap option"
  so_original :: "MatchMap option"
  so_previous :: "MatchMap option"
  so_log_time :: "string option"
  so_counter_count :: int

definition fill_template :: "'r TriggerTools \<Rightarrow> Sources \<Rightarrow> 'r CharState \<Rightarrow> string \<Rightarrow> string option" where
  "fill_template tools sources state template =
     map_option (\<lambda>t. replace_code t CHARACTER_CODE (cx_character (cs_context state)))
       (resolve_template (tools_uni tools) template (so_line sources) (so_matches sources) (so_original sources)
          (so_previous sources) (store_as_match_map (cs_variables state)))"

text \<open>The codes of an initial text: the repeat count, which it updates, the counter, the time.\<close>

definition fill_logtime :: "TemplateFlags \<Rightarrow> Sources \<Rightarrow> string \<Rightarrow> string" where
  "fill_logtime flags sources t =
     (case so_log_time sources of Some log_time \<Rightarrow> if tf_logtime flags then replace_code t LOGTIME_CODE log_time else t | None \<Rightarrow> t)"

definition fill_counter :: "bool \<Rightarrow> Sources \<Rightarrow> string \<Rightarrow> string" where
  "fill_counter wanted sources t = (if wanted then replace_code t COUNTER_CODE (int_to_dec (so_counter_count sources)) else t)"

definition speak_codes ::
  "'r CompiledTrigger \<Rightarrow> nat \<Rightarrow> Sources \<Rightarrow> EngineMillis \<Rightarrow> string \<Rightarrow> 'r CharState \<Rightarrow> string \<times> 'r CharState" where
  "speak_codes compiled index sources now tts state =
     (let flags = ct_speak_flags compiled;
          (buckets, repeated) = (if tf_repeated flags
            then update_repeated (cs_repeated_speak state) index tts now (tg_repeated_reset_seconds (ct_trigger compiled))
            else (cs_repeated_speak state, 0));
          t1 = (if tf_repeated flags then replace_code tts REPEATED_CODE (int_to_dec repeated) else tts);
          t2 = fill_counter (tf_counter flags \<and> so_counter_count sources > 0) sources t1
      in (fill_logtime flags sources t2, state\<lparr>cs_repeated_speak := buckets\<rparr>))"

definition display_codes ::
  "'r CompiledTrigger \<Rightarrow> nat \<Rightarrow> Sources \<Rightarrow> EngineMillis \<Rightarrow> string \<Rightarrow> 'r CharState \<Rightarrow> string \<times> 'r CharState" where
  "display_codes compiled index sources now t state =
     (let flags = ct_display_flags compiled;
          (buckets, repeated) = (if tf_repeated flags
            then update_repeated (cs_repeated_text state) index t now (tg_repeated_reset_seconds (ct_trigger compiled))
            else (cs_repeated_text state, 0));
          t1 = (if tf_repeated flags then replace_code t REPEATED_CODE (int_to_dec repeated) else t);
          t2 = fill_counter (tf_counter flags) sources t1
      in (fill_logtime flags sources t2, state\<lparr>cs_repeated_text := buckets\<rparr>))"

definition push_speech ::
  "'r TriggerTools \<Rightarrow> 'r CompiledLibrary \<Rightarrow> nat \<Rightarrow> ActionPhase \<Rightarrow> string \<Rightarrow> Sources \<Rightarrow> EngineMillis
     \<Rightarrow> 'r CharState \<times> ActionBatch \<Rightarrow> 'r CharState \<times> ActionBatch" where
  "push_speech tools lib index phase speak_template sources now run =
     (let (state, batch) = run; compiled = cl_triggers lib ! index; trigger = ct_trigger compiled
      in if speak_template = [] \<or> eq_ignore_ascii_case speak_template NULL_CODE then run
         else case fill_template tools sources state speak_template of
           None \<Rightarrow> run
         | Some filled \<Rightarrow>
             let (coded, state) = (if phase = Initial then speak_codes compiled index sources now filled state else (filled, state));
                 tts = sanitize_tts coded
             in if trim tts = [] then (state, batch)
                else (state, push_event (action_event lib state index phase
                   (Speak tts (if tg_voice_rate trigger > 0 then Some (tg_voice_rate trigger - 1) else None) (tg_volume trigger))) batch))"

text \<open>A sound file wins over the spoken text.\<close>

definition push_audio ::
  "'r TriggerTools \<Rightarrow> 'r CompiledLibrary \<Rightarrow> nat \<Rightarrow> ActionPhase \<Rightarrow> string option \<Rightarrow> string \<Rightarrow> Sources \<Rightarrow> EngineMillis
     \<Rightarrow> 'r CharState \<times> ActionBatch \<Rightarrow> 'r CharState \<times> ActionBatch" where
  "push_audio tools lib index phase sound speak_template sources now run =
     (case (case sound of Some file \<Rightarrow> if is_sound_file file then Some file else None | None \<Rightarrow> None) of
        Some file \<Rightarrow>
          (fst run, if eq_ignore_ascii_case file NULL_CODE then snd run
             else push_event (action_event lib (fst run) index phase
               (PlaySound file (tg_volume (ct_trigger (cl_triggers lib ! index))))) (snd run))
      | None \<Rightarrow> push_speech tools lib index phase speak_template sources now run)"

section \<open>Firing a trigger\<close>

text \<open>Variables.\<close>

definition format_counter :: "f64 \<Rightarrow> string" where
  "format_counter val = (if small_integer val then int_to_dec (f64_as_i64 val) else f64_display val)"

definition set_counter :: "VariableAction \<Rightarrow> string \<Rightarrow> EngineMillis option \<Rightarrow> VariableStore \<Rightarrow> VariableStore" where
  "set_counter action name expires_at store =
     (let held = (case bm_get (vs_counters store) (store_key name) of
            Some counter \<Rightarrow> counter
          | None \<Rightarrow> unwrap_or (Option.bind (store_get store name) f64_parse) (va_initial_value action));
          updated = f64_add held (va_step action)
      in store_set name (format_counter updated) expires_at
           (store\<lparr>vs_counters := bm_insert (store_key name) updated (vs_counters store)\<rparr>))"

text \<open>The texts a line's captures, those of the previous line and the line itself fill in.\<close>

definition from_captures :: "'r TriggerTools \<Rightarrow> MatchMap \<Rightarrow> MatchMap \<Rightarrow> string \<Rightarrow> string" where
  "from_captures tools captures previous t =
     replace_from_matches (tools_uni tools) (replace_from_matches (tools_uni tools) t (Some captures)) (Some previous)"

definition apply_variable_action ::
  "'r TriggerTools \<Rightarrow> string \<Rightarrow> MatchMap \<Rightarrow> MatchMap \<Rightarrow> EngineMillis \<Rightarrow> VariableAction \<Rightarrow> VariableStore \<Rightarrow> VariableStore" where
  "apply_variable_action tools line captures previous now action store =
     (let name = trim (va_name action);
          expires_at = (if f64_positive (va_time_to_live_seconds action)
            then Some (u64_wrapping_add now (seconds_to_millis (va_time_to_live_seconds action))) else None)
      in if name = [] then store
         else case va_op action of
           ClearVariable \<Rightarrow> store_clear name store
         | SetCounter \<Rightarrow> set_counter action name expires_at store
         | SetValue \<Rightarrow>
             if va_value action = [] then store
             else store_set name
               (replace_tokens (tools_uni tools) (mm_get (store_as_match_map store))
                  (replace_line_code (from_captures tools captures previous (va_value action)) line))
               expires_at store)"

definition apply_variable_actions ::
  "'r TriggerTools \<Rightarrow> 'r CompiledLibrary \<Rightarrow> nat \<Rightarrow> string \<Rightarrow> MatchMap \<Rightarrow> MatchMap \<Rightarrow> EngineMillis \<Rightarrow> 'r CharState \<Rightarrow> 'r CharState" where
  "apply_variable_actions tools lib index line captures previous now state =
     state\<lparr>cs_variables := fold (apply_variable_action tools line captures previous now)
        (tg_variable_actions (ct_trigger (cl_triggers lib ! index))) (cs_variables state)\<rparr>"

text \<open>Timers.\<close>

definition runs_name :: "nat \<Rightarrow> string \<Rightarrow> 'r ActiveTimer \<Rightarrow> bool" where
  "runs_name index name timer = (at_trigger_index timer = index \<and> eq_ignore_ascii_case (at_display_name timer) name)"

text \<open>The timers that stay when one starts; none where it does not start.\<close>

fun restart_timers :: "TimerRestartMode \<Rightarrow> nat \<Rightarrow> string \<Rightarrow> 'r ActiveTimer list \<Rightarrow> 'r ActiveTimer list option" where
  "restart_timers StartNew index name timers = Some timers"
| "restart_timers RestartAll index name timers = Some (filter (\<lambda>timer. at_trigger_index timer \<noteq> index) timers)"
| "restart_timers RestartSameName index name timers = Some (filter (\<lambda>timer. \<not> runs_name index name timer) timers)"
| "restart_timers IgnoreIfAnyRunning index name timers =
     (if list_ex (\<lambda>timer. at_trigger_index timer = index) timers then None else Some timers)"
| "restart_timers IgnoreIfSameNameRunning index name timers = (if list_ex (runs_name index name) timers then None else Some timers)"

definition compile_ender :: "'r TriggerTools \<Rightarrow> MatchMap \<Rightarrow> MatchMap \<Rightarrow> string \<Rightarrow> Pattern \<Rightarrow> 'r CompiledEnder option" where
  "compile_ender tools captures previous character template =
     (let pattern = replace_code (from_captures tools captures previous (pat_text template)) CHARACTER_CODE character
      in if pat_use_regex template
         then (let (expanded, constraints) = tools_expand tools pattern
               in case compat_compile (tools_rx tools) expanded of
                    Inr regex \<Rightarrow> Some (EnderRegex regex constraints)
                  | Inl _ \<Rightarrow> None)
         else Some (EnderLiteral pattern))"

definition timer_duration_ms :: "f64 \<Rightarrow> nat" where
  "timer_duration_ms seconds = f64_as_u64 (f64_max (f64_mul seconds (f64_of_int 1000)) (f64_of_int 0))"

definition warning_time :: "TimerBehavior \<Rightarrow> f64 \<Rightarrow> EngineMillis \<Rightarrow> EngineMillis option" where
  "warning_time behavior duration_seconds now =
     (if tb_warning_seconds behavior > 0
         \<and> f64_positive (f64_sub duration_seconds (f64_of_int (int (tb_warning_seconds behavior))))
      then Some (u64_wrapping_sub (u64_wrapping_add now (timer_duration_ms duration_seconds)) (tb_warning_seconds behavior * 1000))
      else None)"

definition new_timer ::
  "'r TriggerTools \<Rightarrow> 'r CompiledTrigger \<Rightarrow> TimerBehavior \<Rightarrow> nat \<Rightarrow> string \<Rightarrow> string \<Rightarrow> f64 option \<Rightarrow> Sources \<Rightarrow> EngineMillis \<Rightarrow> nat
     \<Rightarrow> 'r CharState \<Rightarrow> 'r ActiveTimer" where
  "new_timer tools compiled behavior index display_name template dynamic sources now loop_count state =
     (let duration_seconds = unwrap_or dynamic (tb_duration_seconds behavior);
          duration_ms = timer_duration_ms duration_seconds;
          captures = unwrap_or (so_matches sources) [];
          previous = unwrap_or (so_previous sources) []
      in \<lparr>at_trigger_index = index, at_trigger_id = ct_id compiled, at_kind = tb_kind behavior,
          at_display_name = display_name, at_display_name_template = template, at_begin = now,
          at_end = u64_wrapping_add now duration_ms, at_duration_ms = duration_ms,
          at_reset_at = (if f64_positive (tb_reset_duration_seconds behavior)
             then Some (u64_wrapping_add now (seconds_to_millis (tb_reset_duration_seconds behavior))) else None),
          at_warning_at = warning_time behavior duration_seconds now, at_warned = False, at_loop_count = loop_count,
          at_early_enders = filter_map (compile_ender tools captures previous (cx_character (cs_context state))) (ct_ender_templates compiled),
          at_original_matches = captures, at_previous_matches = previous, at_source_line = so_line sources,
          at_log_time = so_log_time sources,
          at_counter_count = (if tf_counter (ct_timer_flags compiled) then so_counter_count sources else -1),
          at_repeated_count = (if tf_repeated (ct_timer_flags compiled)
             then get_repeated (cs_repeated_timer state) index template else -1)\<rparr>)"

definition start_timer ::
  "'r TriggerTools \<Rightarrow> 'r CompiledLibrary \<Rightarrow> nat \<Rightarrow> TimerBehavior \<Rightarrow> string \<Rightarrow> string \<Rightarrow> f64 option \<Rightarrow> Sources \<Rightarrow> EngineMillis \<Rightarrow> nat
     \<Rightarrow> 'r CharState \<Rightarrow> 'r CharState" where
  "start_timer tools lib index behavior display_name template dynamic sources now loop_count state =
     (case restart_timers (tb_restart_mode behavior) index display_name (cs_timers state) of
        None \<Rightarrow> state
      | Some timers \<Rightarrow> state\<lparr>cs_timers := timers @
          [new_timer tools (cl_triggers lib ! index) behavior index display_name template dynamic sources now loop_count state]\<rparr>)"

definition timer_template :: "'r TriggerTools \<Rightarrow> 'r CompiledTrigger \<Rightarrow> Sources \<Rightarrow> 'r CharState \<Rightarrow> string" where
  "timer_template tools compiled sources state =
     replace_code (replace_line_code
        (from_captures tools (unwrap_or (so_matches sources) []) (unwrap_or (so_previous sources) []) (ct_timer_name_template compiled))
        (so_line sources)) CHARACTER_CODE (cx_character (cs_context state))"

text \<open>The timer section of \<^verbatim>\<open>handle_trigger\<close>.\<close>

definition count_timer_name :: "'r CompiledTrigger \<Rightarrow> nat \<Rightarrow> string \<Rightarrow> EngineMillis \<Rightarrow> 'r CharState \<Rightarrow> 'r CharState" where
  "count_timer_name compiled index name now state =
     (if tf_repeated (ct_timer_flags compiled)
      then state\<lparr>cs_repeated_timer := fst (update_repeated (cs_repeated_timer state) index name now
             (tg_repeated_reset_seconds (ct_trigger compiled)))\<rparr>
      else state)"

definition fire_timer ::
  "'r TriggerTools \<Rightarrow> 'r CompiledLibrary \<Rightarrow> nat \<Rightarrow> f64 option \<Rightarrow> Sources \<Rightarrow> EngineMillis \<Rightarrow> nat
     \<Rightarrow> 'r CharState \<times> ActionBatch \<Rightarrow> 'r CharState \<times> ActionBatch" where
  "fire_timer tools lib index dynamic_duration sources now loop_count run =
     (let (state, batch) = run; compiled = cl_triggers lib ! index;
          template = timer_template tools compiled sources state;
          state = count_timer_name compiled index template now state
      in case tg_timer (ct_trigger compiled) of
           None \<Rightarrow> (state, batch)
         | Some behavior \<Rightarrow>
             let dynamic = (case dynamic_duration of
                   Some d \<Rightarrow> if accepts_dynamic_duration (tb_kind behavior) \<and> f64_positive d then Some d else None
                 | None \<Rightarrow> None)
             in if f64_positive (tb_duration_seconds behavior) \<or> dynamic \<noteq> None
                then (start_timer tools lib index behavior
                        (replace_tokens (tools_uni tools) (store_get (cs_variables state)) template) template dynamic sources now loop_count state,
                      batch\<lparr>ab_timers_changed := True\<rparr>)
                else (state, batch))"

definition push_display ::
  "'r TriggerTools \<Rightarrow> 'r CompiledLibrary \<Rightarrow> nat \<Rightarrow> Sources \<Rightarrow> EngineMillis \<Rightarrow> 'r CharState \<times> ActionBatch \<Rightarrow> 'r CharState \<times> ActionBatch" where
  "push_display tools lib index sources now run =
     (let (state, batch) = run; compiled = cl_triggers lib ! index
      in case fill_template tools sources state (ct_display_template compiled) of
           None \<Rightarrow> (state, batch)
         | Some filled \<Rightarrow>
             let (t, state) = display_codes compiled index sources now filled state
             in (state, push_event (display_event lib state index Initial t) batch))"

text \<open>The lockout of initial firings: none where it blocks.\<close>

definition pass_lockout :: "'r CompiledLibrary \<Rightarrow> nat \<Rightarrow> EngineMillis \<Rightarrow> nat \<Rightarrow> 'r CharState \<Rightarrow> 'r CharState option" where
  "pass_lockout lib index now loop_count state =
     (let lockout_seconds = tg_lockout_seconds (ct_trigger (cl_triggers lib ! index))
      in if loop_count = 0 \<and> f64_positive lockout_seconds
         then if is_some_and (bm_get (cs_lockout_until state) index) (\<lambda>until. now \<le> until) then None
              else Some (state\<lparr>cs_lockout_until :=
                bm_insert index (u64_wrapping_add now (seconds_to_millis lockout_seconds)) (cs_lockout_until state)\<rparr>)
         else Some state)"

definition count_firing :: "'r CompiledTrigger \<Rightarrow> nat \<Rightarrow> EngineMillis \<Rightarrow> 'r CharState \<Rightarrow> 'r CharState \<times> int" where
  "count_firing compiled index now state =
     (if tf_counter (ct_speak_flags compiled) \<or> tf_counter (ct_display_flags compiled) \<or> tf_counter (ct_timer_flags compiled)
      then let (buckets, count) = update_repeated (cs_counter_times state) index trigger_count now
                 (tg_repeated_reset_seconds (ct_trigger compiled))
           in (state\<lparr>cs_counter_times := buckets\<rparr>, count)
      else (state, -1))"

definition handle_trigger ::
  "'r TriggerTools \<Rightarrow> 'r CompiledLibrary \<Rightarrow> nat \<Rightarrow> string \<Rightarrow> string option \<Rightarrow> MatchMap \<Rightarrow> MatchMap \<Rightarrow> f64 option \<Rightarrow> EngineMillis \<Rightarrow> nat
     \<Rightarrow> 'r CharState \<times> ActionBatch \<Rightarrow> 'r CharState \<times> ActionBatch" where
  "handle_trigger tools lib index line log_time captures previous dynamic_duration now loop_count run =
     (let compiled = cl_triggers lib ! index
      in case pass_lockout lib index now loop_count (fst run) of
           None \<Rightarrow> run
         | Some unlocked \<Rightarrow>
             let (counted, counter_count) = count_firing compiled index now unlocked;
                 state = apply_variable_actions tools lib index line captures previous now counted;
                 sources = \<lparr>so_line = line, so_matches = Some captures, so_original = None, so_previous = Some previous,
                            so_log_time = log_time, so_counter_count = counter_count\<rparr>
             in push_display tools lib index sources now
                  (push_audio tools lib index Initial (tg_sound (ct_trigger compiled)) (ct_speak_template compiled) sources now
                     (fire_timer tools lib index dynamic_duration sources now loop_count (state, snd run))))"

section \<open>Timer stages\<close>

definition or_stage :: "string option \<Rightarrow> string option \<Rightarrow> string option" where
  "or_stage early ending = (case early of Some s \<Rightarrow> if s \<noteq> [] then Some s else ending | None \<Rightarrow> ending)"

text \<open>The sound, the spoken and the shown text of a stage; an early end falls back to the end.\<close>

fun stage_parts :: "'r CompiledTrigger \<Rightarrow> TimerBehavior \<Rightarrow> ActionPhase \<Rightarrow> string option \<times> string \<times> string" where
  "stage_parts compiled behavior TimerWarning = (sa_sound (tb_warning behavior), ct_warning_speak compiled, ct_warning_display compiled)"
| "stage_parts compiled behavior TimerEnd = (sa_sound (tb_end behavior), ct_end_speak compiled, ct_end_display compiled)"
| "stage_parts compiled behavior TimerEndEarly =
     (let sound = or_stage (sa_sound (tb_early_end behavior)) (sa_sound (tb_end behavior))
      in (sound,
          if ct_early_speak compiled = [] \<and> sound = None then ct_end_speak compiled else ct_early_speak compiled,
          if ct_early_display compiled = [] then ct_end_display compiled else ct_early_display compiled))"
| "stage_parts compiled behavior Initial = (None, [], [])"

definition stage_sources :: "'r ActiveTimer \<Rightarrow> ActionPhase \<Rightarrow> MatchMap \<Rightarrow> string \<Rightarrow> Sources" where
  "stage_sources timer phase early_matches line =
     \<lparr>so_line = line,
      so_matches = Some (if phase = TimerEndEarly then early_matches else at_original_matches timer),
      so_original = (if phase = TimerEndEarly then Some (at_original_matches timer) else None),
      so_previous = Some (at_previous_matches timer), so_log_time = at_log_time timer,
      so_counter_count = at_counter_count timer\<rparr>"

definition fire_timer_stage ::
  "'r TriggerTools \<Rightarrow> 'r CompiledLibrary \<Rightarrow> 'r ActiveTimer \<Rightarrow> ActionPhase \<Rightarrow> MatchMap \<Rightarrow> string \<Rightarrow> EngineMillis
     \<Rightarrow> 'r CharState \<times> ActionBatch \<Rightarrow> 'r CharState \<times> ActionBatch" where
  "fire_timer_stage tools lib timer phase early_matches line now run =
     (let index = at_trigger_index timer; compiled = cl_triggers lib ! index
      in case tg_timer (ct_trigger compiled) of
           None \<Rightarrow> run
         | Some behavior \<Rightarrow>
             let (sound, speak_template, display_template) = stage_parts compiled behavior phase;
                 sources = stage_sources timer phase early_matches line;
                 (state, batch) = push_audio tools lib index phase sound speak_template sources now run
             in case fill_template tools sources state display_template of
                  None \<Rightarrow> (state, batch)
                | Some t \<Rightarrow> (state, push_event (display_event lib state index phase t) batch))"

definition expire_variables :: "EngineMillis \<Rightarrow> 'r CharState \<Rightarrow> 'r CharState" where
  "expire_variables now state = state\<lparr>cs_variables := store_expire now (cs_variables state)\<rparr>"

definition bare_variable :: "string \<Rightarrow> string" where
  "bare_variable name = trim (trim_end_char (CHR 0x7D) (trim_start_char (CHR 0x7B) (trim_start_char (CHR ''$'') (trim name))))"

definition clear_end_variables :: "'r CompiledLibrary \<Rightarrow> nat \<Rightarrow> 'r CharState \<Rightarrow> 'r CharState" where
  "clear_end_variables lib index state =
     (case tg_timer (ct_trigger (cl_triggers lib ! index)) of
        None \<Rightarrow> state
      | Some behavior \<Rightarrow> state\<lparr>cs_variables :=
          fold (\<lambda>name store. if bare_variable name \<noteq> [] then store_clear (bare_variable name) store else store)
            (tb_end_clear_variables behavior) (cs_variables state)\<rparr>)"

text \<open>The matches with which a line ends a timer early, or a repeat count does.\<close>

definition count_reached :: "'r CompiledLibrary \<Rightarrow> 'r CharState \<Rightarrow> 'r ActiveTimer \<Rightarrow> bool" where
  "count_reached lib state timer =
     (let compiled = cl_triggers lib ! at_trigger_index timer
      in case tg_timer (ct_trigger compiled) of
           None \<Rightarrow> False
         | Some behavior \<Rightarrow>
             tb_end_early_repeated_count behavior > 0
             \<and> (tf_counter (ct_timer_flags compiled) \<or> tf_repeated (ct_timer_flags compiled))
             \<and> (let stop = int (tb_end_early_repeated_count behavior)
                in get_repeated (cs_repeated_timer state) (at_trigger_index timer) (at_display_name timer) \<ge> stop
                   \<or> get_repeated (cs_counter_times state) (at_trigger_index timer) trigger_count \<ge> stop))"

definition ends_early :: "'r TriggerTools \<Rightarrow> 'r CompiledLibrary \<Rightarrow> 'r CharState \<Rightarrow> string \<Rightarrow> 'r ActiveTimer \<Rightarrow> MatchMap option" where
  "ends_early tools lib state line timer =
     (case filter_map (\<lambda>ender. ender_matches tools ender line) (at_early_enders timer) of
        captures # _ \<Rightarrow> Some captures
      | [] \<Rightarrow> if count_reached lib state timer then Some [] else None)"

definition end_timer_early ::
  "'r TriggerTools \<Rightarrow> 'r CompiledLibrary \<Rightarrow> string \<Rightarrow> EngineMillis \<Rightarrow> 'r ActiveTimer \<times> MatchMap
     \<Rightarrow> 'r CharState \<times> ActionBatch \<Rightarrow> 'r CharState \<times> ActionBatch" where
  "end_timer_early tools lib line now ended run =
     (let (timer, early_matches) = ended; (state, batch) = run; index = at_trigger_index timer;
          state = state\<lparr>cs_repeated_timer := forget_repeated index (at_display_name timer) (cs_repeated_timer state),
                        cs_counter_times := forget_repeated index trigger_count (cs_counter_times state)\<rparr>;
          (state, batch) = fire_timer_stage tools lib timer TimerEndEarly early_matches line now
            (expire_variables now state, batch\<lparr>ab_timers_changed := True\<rparr>)
      in (clear_end_variables lib index state, batch))"

definition check_timer_enders ::
  "'r TriggerTools \<Rightarrow> 'r CompiledLibrary \<Rightarrow> string \<Rightarrow> EngineMillis \<Rightarrow> 'r CharState \<times> ActionBatch \<Rightarrow> 'r CharState \<times> ActionBatch" where
  "check_timer_enders tools lib line now run =
     (let (state, batch) = run;
          ended = filter_map (\<lambda>timer. map_option (Pair timer) (ends_early tools lib state line timer)) (cs_timers state);
          state = state\<lparr>cs_timers := filter (\<lambda>timer. ends_early tools lib state line timer = None) (cs_timers state)\<rparr>
      in fold (end_timer_early tools lib line now) ended (state, batch))"

section \<open>A log line\<close>

text \<open>The variable a condition sees: the stored one, the capture, the capture of the previous line.\<close>

definition condition_lookup :: "VariableStore \<Rightarrow> MatchMap \<Rightarrow> MatchMap \<Rightarrow> string \<Rightarrow> string option" where
  "condition_lookup store captures previous name =
     (let filled = (\<lambda>v. case v of Some t \<Rightarrow> if t \<noteq> [] then Some t else None | None \<Rightarrow> None)
      in opt_or (filled (store_get store name)) (opt_or (filled (mm_get captures name)) (filled (mm_get previous name))))"

text \<open>The captures of the previous line, where the trigger asks for one.\<close>

definition check_previous ::
  "'r TriggerTools \<Rightarrow> 'r CompiledLibrary \<Rightarrow> nat \<Rightarrow> 'r CharState \<Rightarrow> 'r CharState \<times> MatchMap option" where
  "check_previous tools lib index state =
     (if ct_previous (cl_triggers lib ! index) = None then (state, Some [])
      else case cs_previous_line state of
        None \<Rightarrow> (state, None)
      | Some previous \<Rightarrow> apsnd (map_option lm_captures) (check_line tools lib index previous True state))"

definition condition_passes :: "'r CompiledTrigger \<Rightarrow> VariableStore \<Rightarrow> MatchMap \<Rightarrow> MatchMap \<Rightarrow> bool" where
  "condition_passes compiled store captures previous =
     (case ct_condition compiled of
        Some condition \<Rightarrow> evaluate (condition_lookup store captures previous) condition
      | None \<Rightarrow> \<not> ct_condition_invalid compiled)"

text \<open>One active trigger; the variables expire once, before the first condition.\<close>

definition judge_trigger ::
  "'r TriggerTools \<Rightarrow> 'r CompiledLibrary \<Rightarrow> string \<Rightarrow> string option \<Rightarrow> EngineMillis \<Rightarrow> nat \<Rightarrow> LineMatch \<Rightarrow> MatchMap \<Rightarrow> ActionBatch
     \<Rightarrow> 'r CharState \<Rightarrow> 'r CharState \<times> ActionBatch" where
  "judge_trigger tools lib line log_time now index line_match previous batch state =
     (if condition_passes (cl_triggers lib ! index) (cs_variables state) (lm_captures line_match) previous
      then handle_trigger tools lib index line log_time (lm_captures line_match) previous (lm_dynamic_duration line_match) now 0 (state, batch)
      else (state, batch))"

fun process_matched ::
  "'r TriggerTools \<Rightarrow> 'r CompiledLibrary \<Rightarrow> string \<Rightarrow> string option \<Rightarrow> EngineMillis \<Rightarrow> nat \<Rightarrow> bool \<Rightarrow> ActionBatch \<Rightarrow> LineMatch
     \<Rightarrow> 'r CharState \<times> MatchMap option \<Rightarrow> bool \<times> 'r CharState \<times> ActionBatch" where
  "process_matched tools lib line log_time now index expired batch line_match (state, None) = (expired, state, batch)"
| "process_matched tools lib line log_time now index expired batch line_match (state, Some previous) =
     (True, judge_trigger tools lib line log_time now index line_match previous batch
        (if expired then state else expire_variables now state))"

fun process_checked ::
  "'r TriggerTools \<Rightarrow> 'r CompiledLibrary \<Rightarrow> string \<Rightarrow> string option \<Rightarrow> EngineMillis \<Rightarrow> nat \<Rightarrow> bool \<Rightarrow> ActionBatch
     \<Rightarrow> 'r CharState \<times> LineMatch option \<Rightarrow> bool \<times> 'r CharState \<times> ActionBatch" where
  "process_checked tools lib line log_time now index expired batch (state, None) = (expired, state, batch)"
| "process_checked tools lib line log_time now index expired batch (state, Some line_match) =
     process_matched tools lib line log_time now index expired batch line_match (check_previous tools lib index state)"

fun process_trigger ::
  "'r TriggerTools \<Rightarrow> 'r CompiledLibrary \<Rightarrow> string \<Rightarrow> string option \<Rightarrow> EngineMillis \<Rightarrow> nat
     \<Rightarrow> bool \<times> 'r CharState \<times> ActionBatch \<Rightarrow> bool \<times> 'r CharState \<times> ActionBatch" where
  "process_trigger tools lib line log_time now index (expired, state, batch) =
     (if cs_disabled state ! index then (expired, state, batch)
      else process_checked tools lib line log_time now index expired batch (check_line tools lib index line False state))"

definition process_state ::
  "'r TriggerTools \<Rightarrow> 'r CompiledLibrary \<Rightarrow> string \<Rightarrow> string option \<Rightarrow> EngineMillis \<Rightarrow> 'r CharState \<Rightarrow> 'r CharState \<times> ActionBatch" where
  "process_state tools lib line log_time now state =
     (let (_, run) = fold (process_trigger tools lib line log_time now) (cs_active state) (False, state, batch_default);
          (state, batch) = check_timer_enders tools lib line now run
      in (state\<lparr>cs_previous_line := Some line\<rparr>, batch))"

definition process_line ::
  "'r TriggerTools \<Rightarrow> CharacterContext \<Rightarrow> string \<Rightarrow> string option \<Rightarrow> EngineMillis \<Rightarrow> 'r TriggerEngine \<Rightarrow> 'r TriggerEngine \<times> ActionBatch" where
  "process_line tools context line log_time now engine =
     (if line = [] then (engine, batch_default)
      else let (state, batch) = process_state tools (te_compiled engine) line log_time now (state_for engine context)
           in (engine\<lparr>te_characters := bm_insert (cx_key context) state (te_characters engine)\<rparr>, batch))"

section \<open>The virtual clock\<close>

definition fire_warning ::
  "'r TriggerTools \<Rightarrow> 'r CompiledLibrary \<Rightarrow> EngineMillis \<Rightarrow> nat \<Rightarrow> 'r CharState \<times> ActionBatch \<Rightarrow> 'r CharState \<times> ActionBatch" where
  "fire_warning tools lib now position run =
     (let (state, batch) = run; timer = cs_timers state ! position
      in if warning_due now timer
         then let warned = timer\<lparr>at_warned := True\<rparr>
              in fire_timer_stage tools lib warned TimerWarning [] (at_source_line timer) now
                   (expire_variables now (state\<lparr>cs_timers := (cs_timers state)[position := warned]\<rparr>), batch)
         else run)"

definition repeat_timer ::
  "'r TriggerTools \<Rightarrow> 'r CompiledLibrary \<Rightarrow> EngineMillis \<Rightarrow> 'r ActiveTimer \<Rightarrow> 'r CharState \<times> ActionBatch \<Rightarrow> 'r CharState \<times> ActionBatch" where
  "repeat_timer tools lib now timer run =
     (case tg_timer (ct_trigger (cl_triggers lib ! at_trigger_index timer)) of
        None \<Rightarrow> run
      | Some behavior \<Rightarrow>
          if tb_kind behavior = Looping \<and> tb_times_to_loop behavior > at_loop_count timer
          then handle_trigger tools lib (at_trigger_index timer) (at_source_line timer) (at_log_time timer)
                 (at_original_matches timer) (at_previous_matches timer) None now (at_loop_count timer + 1) run
          else run)"

definition end_timer ::
  "'r TriggerTools \<Rightarrow> 'r CompiledLibrary \<Rightarrow> EngineMillis \<Rightarrow> 'r ActiveTimer \<Rightarrow> 'r CharState \<times> ActionBatch \<Rightarrow> 'r CharState \<times> ActionBatch" where
  "end_timer tools lib now timer run =
     (let (state, batch) = run;
          (state, batch) = fire_timer_stage tools lib timer TimerEnd [] (at_source_line timer) now
            (expire_variables now state, batch\<lparr>ab_timers_changed := True\<rparr>)
      in repeat_timer tools lib now timer (clear_end_variables lib (at_trigger_index timer) state, batch))"

definition advance_state ::
  "'r TriggerTools \<Rightarrow> 'r CompiledLibrary \<Rightarrow> EngineMillis \<Rightarrow> 'r CharState \<times> ActionBatch \<Rightarrow> 'r CharState \<times> ActionBatch" where
  "advance_state tools lib now run =
     (let (state, batch) = fold (fire_warning tools lib now) [0..<length (cs_timers (fst run))] run;
          ended = filter (timer_is_ended now) (cs_timers state);
          state = state\<lparr>cs_timers := filter (\<lambda>timer. \<not> timer_is_ended now timer) (cs_timers state)\<rparr>
      in fold (end_timer tools lib now) ended (state, batch))"

text \<open>One character of the table after another, in the table's own order \<open>keys\<close>.\<close>

definition advance_one ::
  "'r TriggerTools \<Rightarrow> EngineMillis \<Rightarrow> string \<Rightarrow> 'r TriggerEngine \<times> ActionBatch \<Rightarrow> 'r TriggerEngine \<times> ActionBatch" where
  "advance_one tools now key acc =
     (let (engine, batch) = acc
      in case bm_get (te_characters engine) key of
           None \<Rightarrow> acc
         | Some state \<Rightarrow>
             let (state, batch) = advance_state tools (te_compiled engine) now (state, batch)
             in (engine\<lparr>te_characters := bm_insert key state (te_characters engine)\<rparr>, batch))"

definition advance :: "'r TriggerTools \<Rightarrow> string list \<Rightarrow> EngineMillis \<Rightarrow> 'r TriggerEngine \<Rightarrow> 'r TriggerEngine \<times> ActionBatch" where
  "advance tools keys now engine = fold (advance_one tools now) keys (engine, batch_default)"

definition clear_variables :: "string \<Rightarrow> 'r TriggerEngine \<Rightarrow> 'r TriggerEngine" where
  "clear_variables key engine =
     engine\<lparr>te_characters := bm_modify key (\<lambda>state. state\<lparr>cs_variables := store_default\<rparr>) (te_characters engine)\<rparr>"

section \<open>Snapshots\<close>

record TimerSnapshot =
  ts_character :: string
  ts_trigger_id :: TriggerId
  ts_kind :: TimerKind
  ts_display_name :: string
  ts_begin_ms :: EngineMillis
  ts_end_ms :: EngineMillis
  ts_duration_ms :: nat
  ts_reset_at_ms :: "EngineMillis option"
  ts_warned :: bool
  ts_target :: PresentationTarget
  ts_timer_overlays :: "OverlayId list"
  ts_font_color :: "string option"
  ts_active_color :: "string option"
  ts_idle_color :: "string option"
  ts_reset_color :: "string option"

definition remaining_ms :: "EngineMillis \<Rightarrow> TimerSnapshot \<Rightarrow> nat" where
  "remaining_ms now snapshot = ts_end_ms snapshot - now"

definition snapshot_timer :: "'r TriggerTools \<Rightarrow> 'r CompiledLibrary \<Rightarrow> 'r CharState \<Rightarrow> 'r ActiveTimer \<Rightarrow> TimerSnapshot" where
  "snapshot_timer tools lib state timer =
     (let trigger = ct_trigger (cl_triggers lib ! at_trigger_index timer)
      in \<lparr>ts_character = cx_key (cs_context state), ts_trigger_id = at_trigger_id timer, ts_kind = at_kind timer,
          ts_display_name = resolve_display_name (tools_uni tools) timer (store_as_match_map (cs_variables state)),
          ts_begin_ms = at_begin timer, ts_end_ms = at_end timer, ts_duration_ms = at_duration_ms timer,
          ts_reset_at_ms = at_reset_at timer, ts_warned = at_warned timer, ts_target = tg_target trigger,
          ts_timer_overlays = tg_timer_overlays trigger, ts_font_color = tg_font_color trigger,
          ts_active_color = tg_active_color trigger, ts_idle_color = tg_idle_color trigger,
          ts_reset_color = tg_reset_color trigger\<rparr>)"

text \<open>The timers of all characters, in the table's order \<open>keys\<close>, sorted by their end and name.\<close>

definition timer_snapshots :: "'r TriggerTools \<Rightarrow> string list \<Rightarrow> 'r TriggerEngine \<Rightarrow> TimerSnapshot list" where
  "timer_snapshots tools keys engine =
     sort_by (\<lambda>a b. then_with (cmp (ts_end_ms a) (ts_end_ms b)) (cmp (ts_display_name a) (ts_display_name b)))
       (concat (map (\<lambda>key. case bm_get (te_characters engine) key of
            Some state \<Rightarrow> map (snapshot_timer tools (te_compiled engine) state) (cs_timers state)
          | None \<Rightarrow> []) keys))"

end
