(* ===== verification/Trigger_Invariants.thy ===== *)
theory Trigger_Invariants
  imports Trigger_Engine
begin

text \<open>
  The invariants of the trigger engine. Every operation on a character keeps its context and
  its active triggers, never enables a trigger again, keeps the lockouts that still hold and
  only appends actions of the triggers at hand (\<open>keeps\<close>); the timers it leaves obey the restart
  modes and the loop counts, and a change of them is reported (\<open>tends\<close>). The operations of the
  whole engine preserve \<open>triggers_ok\<close>.
\<close>

section \<open>What every step keeps\<close>

definition announces :: "'r CompiledLibrary \<Rightarrow> CharacterContext \<Rightarrow> nat set \<Rightarrow> ActionEvent \<Rightarrow> bool" where
  "announces lib context indexes event \<longleftrightarrow> ae_character event = cx_key context
     \<and> (\<exists>i\<in>indexes. ae_trigger_id event = ct_id (cl_triggers lib ! i)
          \<and> ae_trigger_name event = ct_name (cl_triggers lib ! i)
          \<and> ae_target event = tg_target (ct_trigger (cl_triggers lib ! i))
          \<and> ae_priority event = tg_priority (ct_trigger (cl_triggers lib ! i)))"

definition same_person :: "'r CharState \<Rightarrow> 'r CharState \<Rightarrow> bool" where
  "same_person s s' \<longleftrightarrow> cs_context s' = cs_context s \<and> cs_active s' = cs_active s
     \<and> length (cs_disabled s') = length (cs_disabled s)
     \<and> (\<forall>i<length (cs_disabled s). cs_disabled s ! i \<longrightarrow> cs_disabled s' ! i)"

definition holds_lockouts :: "EngineMillis \<Rightarrow> 'r CharState \<Rightarrow> 'r CharState \<Rightarrow> bool" where
  "holds_lockouts now s s' \<longleftrightarrow>
     (\<forall>j until. bm_get (cs_lockout_until s) j = Some until \<and> now \<le> until \<longrightarrow> bm_get (cs_lockout_until s') j = Some until)"

definition keeps ::
  "'r CompiledLibrary \<Rightarrow> nat set \<Rightarrow> EngineMillis \<Rightarrow> 'r CharState \<times> ActionBatch \<Rightarrow> 'r CharState \<times> ActionBatch \<Rightarrow> bool" where
  "keeps lib indexes now r r' \<longleftrightarrow> same_person (fst r) (fst r') \<and> holds_lockouts now (fst r) (fst r')
     \<and> (\<exists>events. ab_events (snd r') = ab_events (snd r) @ events \<and> (\<forall>e\<in>set events. announces lib (cs_context (fst r)) indexes e))"

lemma same_person_refl [simp]: "same_person s s"
  by (simp add: same_person_def)

lemma same_person_trans: "same_person s s' \<Longrightarrow> same_person s' s'' \<Longrightarrow> same_person s s''"
  by (simp add: same_person_def)

lemma holds_lockouts_refl [simp]: "holds_lockouts now s s"
  by (simp add: holds_lockouts_def)

lemma holds_lockouts_trans: "holds_lockouts now s s' \<Longrightarrow> holds_lockouts now s' s'' \<Longrightarrow> holds_lockouts now s s''"
  by (simp add: holds_lockouts_def)

lemma announces_mono: "announces lib context I e \<Longrightarrow> I \<subseteq> J \<Longrightarrow> announces lib context J e"
  by (auto simp: announces_def)

lemma keeps_refl [simp, intro]: "keeps lib I now r r"
  by (auto simp: keeps_def)

lemma keeps_trans [trans]:
  assumes "keeps lib I now r r'" "keeps lib I now r' r''"
  shows "keeps lib I now r r''"
proof -
  obtain es where es: "ab_events (snd r') = ab_events (snd r) @ es" "\<forall>e\<in>set es. announces lib (cs_context (fst r)) I e"
    using assms(1) by (auto simp: keeps_def)
  obtain fs where fs: "ab_events (snd r'') = ab_events (snd r') @ fs" "\<forall>e\<in>set fs. announces lib (cs_context (fst r')) I e"
    using assms(2) by (auto simp: keeps_def)
  have same: "same_person (fst r) (fst r')" "same_person (fst r') (fst r'')" "holds_lockouts now (fst r) (fst r')"
    "holds_lockouts now (fst r') (fst r'')"
    using assms by (auto simp: keeps_def)
  have "cs_context (fst r') = cs_context (fst r)" using same(1) by (simp add: same_person_def)
  then have "\<exists>events. ab_events (snd r'') = ab_events (snd r) @ events \<and> (\<forall>e\<in>set events. announces lib (cs_context (fst r)) I e)"
    using es fs by (intro exI [of _ "es @ fs"]) auto
  then show ?thesis
    using same_person_trans [OF same(1,2)] holds_lockouts_trans [OF same(3,4)] by (simp add: keeps_def)
qed

lemma keeps_mono: "keeps lib I now r r' \<Longrightarrow> I \<subseteq> J \<Longrightarrow> keeps lib J now r r'"
  unfolding keeps_def using announces_mono [of lib _ I _ J] by blast

lemma keeps_fold:
  assumes "\<And>x r. x \<in> set xs \<Longrightarrow> keeps lib I now r (f x r)"
  shows "keeps lib I now r (fold f xs r)"
  using assms
proof (induction xs arbitrary: r)
  case (Cons x xs)
  have "keeps lib I now r (f x r)" by (rule Cons.prems) simp
  also have "keeps lib I now (f x r) (fold f xs (f x r))" by (rule Cons.IH) (simp add: Cons.prems)
  finally show ?case by simp
qed simp

text \<open>A step that changes neither the person nor the batch.\<close>

lemma keeps_state:
  "same_person s s' \<Longrightarrow> holds_lockouts now s s' \<Longrightarrow> keeps lib I now (s, b) (s', b)"
  by (simp add: keeps_def)

lemma keeps_push:
  assumes "same_person s s'" "holds_lockouts now s s'" "i \<in> I"
  shows "keeps lib I now (s, b) (s', push_event (action_event lib s' i phase action) b)"
proof -
  have "announces lib (cs_context s) I (action_event lib s' i phase action)"
    using assms(1,3) by (auto simp: announces_def action_event_def Let_def same_person_def)
  then show ?thesis using assms by (simp add: keeps_def push_event_def)
qed

named_theorems quiet \<open>the fields an operation leaves alone\<close>

lemma speak_codes_quiet [quiet]:
  assumes "speak_codes compiled index sources now t s = (t', s')"
  shows "same_person s s' \<and> holds_lockouts n s s' \<and> cs_timers s' = cs_timers s"
  using assms by (auto simp: speak_codes_def Let_def same_person_def holds_lockouts_def split: prod.splits)

lemma display_codes_quiet [quiet]:
  assumes "display_codes compiled index sources now t s = (t', s')"
  shows "same_person s s' \<and> holds_lockouts n s s' \<and> cs_timers s' = cs_timers s"
  using assms by (auto simp: display_codes_def Let_def same_person_def holds_lockouts_def split: prod.splits)

lemma push_speech_keeps: "i \<in> I \<Longrightarrow> keeps lib I now r (push_speech tools lib i phase template sources now r)"
  by (cases r) (auto simp: push_speech_def Let_def intro!: keeps_push keeps_state dest: speak_codes_quiet split: option.splits prod.splits if_splits)

lemma push_speech_timers: "cs_timers (fst (push_speech tools lib i phase template sources now r)) = cs_timers (fst r)
    \<and> ab_timers_changed (snd (push_speech tools lib i phase template sources now r)) = ab_timers_changed (snd r)"
  by (cases r) (auto simp: push_speech_def Let_def push_event_def dest: speak_codes_quiet split: option.splits prod.splits if_splits)

lemma push_audio_keeps: "i \<in> I \<Longrightarrow> keeps lib I now r (push_audio tools lib i phase sound template sources now r)"
  by (cases r) (auto simp: push_audio_def intro!: keeps_push push_speech_keeps split: option.splits)

lemma push_audio_timers [simp]:
  "cs_timers (fst (push_audio tools lib i phase sound template sources now r)) = cs_timers (fst r)"
  "ab_timers_changed (snd (push_audio tools lib i phase sound template sources now r)) = ab_timers_changed (snd r)"
  using push_speech_timers [of tools lib i phase template sources now r]
  by (auto simp: push_audio_def push_event_def split: option.splits)

lemma push_display_keeps: "i \<in> I \<Longrightarrow> keeps lib I now r (push_display tools lib i sources now r)"
  by (cases r) (auto simp: push_display_def display_event_def Let_def intro!: keeps_push keeps_state
      dest: display_codes_quiet split: option.splits prod.splits)

lemma push_display_timers [simp]:
  "cs_timers (fst (push_display tools lib i sources now r)) = cs_timers (fst r)"
  "ab_timers_changed (snd (push_display tools lib i sources now r)) = ab_timers_changed (snd r)"
  by (auto simp: push_display_def display_event_def push_event_def Let_def dest: display_codes_quiet split: option.splits prod.splits)

lemma fire_timer_stage_keeps:
  assumes "at_trigger_index timer \<in> I"
  shows "keeps lib I now r (fire_timer_stage tools lib timer phase early line now r)"
proof (cases "tg_timer (ct_trigger (cl_triggers lib ! at_trigger_index timer))")
  case (Some behavior)
  obtain sound speak_template display_template where parts:
    "stage_parts (cl_triggers lib ! at_trigger_index timer) behavior phase = (sound, speak_template, display_template)"
    by (cases "stage_parts (cl_triggers lib ! at_trigger_index timer) behavior phase")
  let ?r = "push_audio tools lib (at_trigger_index timer) phase sound speak_template (stage_sources timer phase early line) now r"
  have first: "keeps lib I now r ?r" by (rule push_audio_keeps [OF assms])
  obtain s b where r: "?r = (s, b)" by (cases ?r)
  have "keeps lib I now (s, b) (fire_timer_stage tools lib timer phase early line now r)"
    using assms unfolding fire_timer_stage_def
    by (simp add: Some parts r Let_def display_event_def keeps_push split: option.split)
  then show ?thesis using keeps_trans [OF first] r by simp
qed (simp add: fire_timer_stage_def Let_def)

lemma fire_timer_stage_timers [simp]:
  "cs_timers (fst (fire_timer_stage tools lib timer phase early line now r)) = cs_timers (fst r)"
  "ab_timers_changed (snd (fire_timer_stage tools lib timer phase early line now r)) = ab_timers_changed (snd r)"
proof -
  have "cs_timers (fst (fire_timer_stage tools lib timer phase early line now r)) = cs_timers (fst r)
      \<and> ab_timers_changed (snd (fire_timer_stage tools lib timer phase early line now r)) = ab_timers_changed (snd r)"
  proof (cases "tg_timer (ct_trigger (cl_triggers lib ! at_trigger_index timer))")
    case (Some behavior)
    obtain sound speak_template display_template where parts:
      "stage_parts (cl_triggers lib ! at_trigger_index timer) behavior phase = (sound, speak_template, display_template)"
      by (cases "stage_parts (cl_triggers lib ! at_trigger_index timer) behavior phase")
    let ?r = "push_audio tools lib (at_trigger_index timer) phase sound speak_template (stage_sources timer phase early line) now r"
    obtain s b where r: "?r = (s, b)" by (cases ?r)
    have "cs_timers s = cs_timers (fst r)" "ab_timers_changed b = ab_timers_changed (snd r)"
      using push_audio_timers [of tools lib "at_trigger_index timer" phase sound speak_template "stage_sources timer phase early line" now r]
      unfolding r by simp_all
    then show ?thesis
      by (simp add: fire_timer_stage_def Some parts r Let_def display_event_def push_event_def split: option.split)
  qed (simp add: fire_timer_stage_def Let_def)
  then show "cs_timers (fst (fire_timer_stage tools lib timer phase early line now r)) = cs_timers (fst r)"
    "ab_timers_changed (snd (fire_timer_stage tools lib timer phase early line now r)) = ab_timers_changed (snd r)" by simp_all
qed

lemma count_firing_quiet:
  assumes "count_firing compiled index now s = (s', n')"
  shows "same_person s s' \<and> holds_lockouts n s s' \<and> cs_timers s' = cs_timers s \<and> cs_lockout_until s' = cs_lockout_until s"
  using assms by (auto simp: count_firing_def Let_def same_person_def holds_lockouts_def split: prod.splits if_splits)

lemma apply_variable_actions_quiet:
  "same_person s (apply_variable_actions tools lib index line captures previous now s)"
  "holds_lockouts n s (apply_variable_actions tools lib index line captures previous now s)"
  "cs_timers (apply_variable_actions tools lib index line captures previous now s) = cs_timers s"
  by (simp_all add: apply_variable_actions_def same_person_def holds_lockouts_def)

lemma expire_variables_quiet [simp]:
  "same_person s (expire_variables now s)" "holds_lockouts n s (expire_variables now s)" "cs_timers (expire_variables now s) = cs_timers s"
  "cs_context (expire_variables now s) = cs_context s"
  by (simp_all add: expire_variables_def same_person_def holds_lockouts_def)

lemma clear_end_variables_quiet [simp]:
  "same_person s (clear_end_variables lib index s)" "holds_lockouts n s (clear_end_variables lib index s)"
  "cs_timers (clear_end_variables lib index s) = cs_timers s"
  by (auto simp: clear_end_variables_def same_person_def holds_lockouts_def split: option.split)

lemma count_timer_name_quiet [simp]:
  "same_person s (count_timer_name compiled index name now s)" "holds_lockouts n s (count_timer_name compiled index name now s)"
  "cs_timers (count_timer_name compiled index name now s) = cs_timers s"
  by (simp_all add: count_timer_name_def same_person_def holds_lockouts_def)

lemma start_timer_quiet:
  "same_person s (start_timer tools lib index behavior display_name template dynamic sources now loop_count s)"
  "holds_lockouts n s (start_timer tools lib index behavior display_name template dynamic sources now loop_count s)"
  by (auto simp: start_timer_def same_person_def holds_lockouts_def split: option.split)

lemma same_person_timers [simp]: "same_person s (s\<lparr>cs_timers := ts\<rparr>)" "holds_lockouts now s (s\<lparr>cs_timers := ts\<rparr>)"
  by (simp_all add: same_person_def holds_lockouts_def)

lemma keeps_changed: "keeps lib I now (s, b) (s', b') \<Longrightarrow> keeps lib I now (s, b\<lparr>ab_timers_changed := c\<rparr>) (s', b')"
  by (simp add: keeps_def)

lemma keeps_changed': "keeps lib I now (s, b) (s', b') \<Longrightarrow> keeps lib I now (s, b) (s', b'\<lparr>ab_timers_changed := c\<rparr>)"
  by (simp add: keeps_def)

lemma fire_timer_keeps: "keeps lib I now r (fire_timer tools lib index dynamic sources now loop_count r)"
proof (cases r)
  case (Pair s b)
  let ?s = "count_timer_name (cl_triggers lib ! index) index (timer_template tools (cl_triggers lib ! index) sources s) now s"
  have "keeps lib I now (s, b) (?s, b)" by (rule keeps_state) simp_all
  moreover have "keeps lib I now (?s, b) (fire_timer tools lib index dynamic sources now loop_count (s, b))"
    unfolding fire_timer_def Let_def
    by (auto intro!: keeps_changed' keeps_state start_timer_quiet split: option.split)
  ultimately show ?thesis unfolding Pair by (rule keeps_trans)
qed

lemma pass_lockout_keeps:
  assumes "pass_lockout lib index now loop_count s = Some s'"
  shows "same_person s s'" "holds_lockouts now s s'" "cs_timers s' = cs_timers s" "cs_context s' = cs_context s"
  using assms by (auto simp: pass_lockout_def Let_def same_person_def holds_lockouts_def is_some_and_def split: if_splits option.splits)

lemma handle_trigger_keeps:
  assumes "index \<in> I"
  shows "keeps lib I now r (handle_trigger tools lib index line log_time captures previous dynamic now loop_count r)"
proof (cases "pass_lockout lib index now loop_count (fst r)")
  case (Some unlocked)
  obtain s b where r: "r = (s, b)" by (cases r)
  obtain counted firings where counted: "count_firing (cl_triggers lib ! index) index now unlocked = (counted, firings)"
    by (cases "count_firing (cl_triggers lib ! index) index now unlocked")
  let ?s = "apply_variable_actions tools lib index line captures previous now counted"
  have "same_person s ?s" "holds_lockouts now s ?s"
    using pass_lockout_keeps(1,2) [OF Some] count_firing_quiet [OF counted] unfolding r fst_conv
    by (blast intro: same_person_trans holds_lockouts_trans apply_variable_actions_quiet)+
  then have "keeps lib I now (s, b) (?s, b)" by (rule keeps_state)
  then show ?thesis
    using Some unfolding handle_trigger_def
    by (auto simp: counted r Let_def intro: assms keeps_trans [OF _ keeps_trans [OF fire_timer_keeps keeps_trans [OF push_audio_keeps push_display_keeps]]])
qed (simp add: handle_trigger_def)

lemma end_timer_early_keeps:
  assumes "at_trigger_index (fst ended) \<in> I"
  shows "keeps lib I now r (end_timer_early tools lib line now ended r)"
proof -
  obtain timer early where ended: "ended = (timer, early)" by (cases ended)
  obtain s b where r: "r = (s, b)" by (cases r)
  let ?i = "at_trigger_index timer"
  let ?s = "expire_variables now (s\<lparr>cs_repeated_timer := forget_repeated ?i (at_display_name timer) (cs_repeated_timer s),
      cs_counter_times := forget_repeated ?i trigger_count (cs_counter_times s)\<rparr>)"
  let ?r = "fire_timer_stage tools lib timer TimerEndEarly early line now (?s, b\<lparr>ab_timers_changed := True\<rparr>)"
  have "keeps lib I now (s, b) (?s, b)"
    by (rule keeps_state) (simp_all add: expire_variables_def same_person_def holds_lockouts_def)
  also have "keeps lib I now (?s, b) ?r"
    using fire_timer_stage_keeps [of timer I lib now "(?s, b\<lparr>ab_timers_changed := True\<rparr>)" tools TimerEndEarly early line] assms ended
    by (simp add: keeps_def)
  also have "keeps lib I now ?r (clear_end_variables lib ?i (fst ?r), snd ?r)"
    by (cases ?r) (simp add: keeps_state)
  finally show ?thesis by (simp add: end_timer_early_def ended r Let_def case_prod_beta)
qed

lemma check_timer_enders_keeps:
  assumes "at_trigger_index ` set (cs_timers (fst r)) \<subseteq> I"
  shows "keeps lib I now r (check_timer_enders tools lib line now r)"
proof -
  obtain s b where r: "r = (s, b)" by (cases r)
  let ?s = "s\<lparr>cs_timers := filter (\<lambda>t. ends_early tools lib s line t = None) (cs_timers s)\<rparr>"
  let ?ended = "filter_map (\<lambda>timer. map_option (Pair timer) (ends_early tools lib s line timer)) (cs_timers s)"
  have "keeps lib I now (s, b) (?s, b)" by (rule keeps_state) simp_all
  moreover have "keeps lib I now (?s, b) (fold (end_timer_early tools lib line now) ?ended (?s, b))"
  proof (rule keeps_fold)
    fix ended r' assume "ended \<in> set ?ended"
    then have "fst ended \<in> set (cs_timers s)" by (auto simp: map_filter_def)
    then have "at_trigger_index (fst ended) \<in> I" using assms unfolding r by auto
    then show "keeps lib I now r' (end_timer_early tools lib line now ended r')" by (rule end_timer_early_keeps)
  qed
  ultimately have "keeps lib I now (s, b) (fold (end_timer_early tools lib line now) ?ended (?s, b))" by (rule keeps_trans)
  then show ?thesis unfolding check_timer_enders_def r by (simp add: Let_def)
qed

lemma stays_disabled: "i < length xs \<Longrightarrow> xs ! i \<Longrightarrow> xs[k := True] ! i"
  by (cases "k = i") auto

lemma check_line_quiet:
  assumes "check_line tools lib index line is_previous s = (s', m)"
  shows "same_person s s'" "holds_lockouts now s s'" "cs_timers s' = cs_timers s" "cs_context s' = cs_context s" "cs_variables s' = cs_variables s"
    "cs_lockout_until s' = cs_lockout_until s"
proof -
  have "same_person s s' \<and> cs_timers s' = cs_timers s \<and> cs_variables s' = cs_variables s \<and> cs_lockout_until s' = cs_lockout_until s"
    using assms
    by (auto simp: check_line_def match_outcome_def character_regex_def Let_def same_person_def stays_disabled
        split: option.splits Matcher.splits if_splits prod.splits sum.splits)
  then show "same_person s s'" "holds_lockouts now s s'" "cs_timers s' = cs_timers s" "cs_context s' = cs_context s" "cs_variables s' = cs_variables s"
    "cs_lockout_until s' = cs_lockout_until s"
    by (auto simp: same_person_def holds_lockouts_def)
qed

section \<open>The running timers\<close>

definition restart_mode_of :: "'r CompiledLibrary \<Rightarrow> nat \<Rightarrow> TimerRestartMode option" where
  "restart_mode_of lib index = map_option tb_restart_mode (tg_timer (ct_trigger (cl_triggers lib ! index)))"

text \<open>Two timers of one trigger run together only where its restart mode lets them.\<close>

definition may_coexist :: "'r CompiledLibrary \<Rightarrow> nat \<times> string \<Rightarrow> nat \<times> string \<Rightarrow> bool" where
  "may_coexist lib a b \<longleftrightarrow> fst a = fst b \<longrightarrow>
     restart_mode_of lib (fst a) = Some StartNew
     \<or> restart_mode_of lib (fst a) \<in> {Some RestartSameName, Some IgnoreIfSameNameRunning} \<and> \<not> eq_ignore_ascii_case (snd a) (snd b)"

definition timer_slot :: "'r ActiveTimer \<Rightarrow> nat \<times> string" where
  "timer_slot t = (at_trigger_index t, at_display_name t)"

definition loops_within :: "'r CompiledLibrary \<Rightarrow> nat \<Rightarrow> nat \<Rightarrow> bool" where
  "loops_within lib index loop_count \<longleftrightarrow> index < length (cl_triggers lib)
     \<and> (\<forall>behavior. tg_timer (ct_trigger (cl_triggers lib ! index)) = Some behavior \<longrightarrow> loop_count \<le> tb_times_to_loop behavior)"

definition timer_sound :: "'r CompiledLibrary \<Rightarrow> 'r ActiveTimer \<Rightarrow> bool" where
  "timer_sound lib t \<longleftrightarrow> loops_within lib (at_trigger_index t) (at_loop_count t)
     \<and> tg_timer (ct_trigger (cl_triggers lib ! at_trigger_index t)) \<noteq> None"

definition timers_ok :: "'r CompiledLibrary \<Rightarrow> 'r ActiveTimer list \<Rightarrow> bool" where
  "timers_ok lib ts \<longleftrightarrow> (\<forall>t\<in>set ts. timer_sound lib t) \<and> sorted_wrt (may_coexist lib) (map timer_slot ts)"

definition unwarned :: "'r ActiveTimer \<Rightarrow> 'r ActiveTimer" where
  "unwarned t = t\<lparr>at_warned := False\<rparr>"

text \<open>A step on the timers: it keeps them sound, and it reports a change of them.\<close>

definition tends :: "'r CompiledLibrary \<Rightarrow> 'r CharState \<times> ActionBatch \<Rightarrow> 'r CharState \<times> ActionBatch \<Rightarrow> bool" where
  "tends lib r r' \<longleftrightarrow> (timers_ok lib (cs_timers (fst r)) \<longrightarrow> timers_ok lib (cs_timers (fst r')))
     \<and> (ab_timers_changed (snd r) \<longrightarrow> ab_timers_changed (snd r'))
     \<and> (ab_timers_changed (snd r') \<or> map unwarned (cs_timers (fst r')) = map unwarned (cs_timers (fst r)))"

lemma tends_refl [simp, intro]: "tends lib r r"
  by (simp add: tends_def)

lemma tends_trans [trans]: "tends lib r r' \<Longrightarrow> tends lib r' r'' \<Longrightarrow> tends lib r r''"
  by (auto simp: tends_def)

lemma tends_fold: "(\<And>x r. x \<in> set xs \<Longrightarrow> tends lib r (f x r)) \<Longrightarrow> tends lib r (fold f xs r)"
proof (induction xs arbitrary: r)
  case (Cons x xs)
  have "tends lib r (f x r)" by (rule Cons.prems) simp
  also have "tends lib (f x r) (fold f xs (f x r))" by (rule Cons.IH) (simp add: Cons.prems)
  finally show ?case by simp
qed simp

lemma tends_same: "cs_timers (fst r') = cs_timers (fst r) \<Longrightarrow> ab_timers_changed (snd r') = ab_timers_changed (snd r) \<Longrightarrow> tends lib r r'"
  by (simp add: tends_def)

lemma timers_ok_filter: "timers_ok lib ts \<Longrightarrow> timers_ok lib (filter P ts)"
  by (auto simp: timers_ok_def sorted_wrt_map intro: sorted_wrt_filter)

lemma timers_ok_snoc:
  "timers_ok lib (ts @ [t]) \<longleftrightarrow> timers_ok lib ts \<and> timer_sound lib t \<and> (\<forall>a\<in>set ts. may_coexist lib (timer_slot a) (timer_slot t))"
  by (auto simp: timers_ok_def sorted_wrt_append)

lemma restart_timers_ok:
  assumes "restart_timers mode index name ts = Some kept" "timers_ok lib ts" "restart_mode_of lib index = Some mode"
  shows "timers_ok lib kept \<and> (\<forall>a\<in>set kept. may_coexist lib (timer_slot a) (index, name))"
  using assms by (cases mode) (auto simp: may_coexist_def timer_slot_def runs_name_def list_ex_iff timers_ok_filter split: if_splits)

lemma start_timer_ok:
  assumes "timers_ok lib (cs_timers s)" "loops_within lib index loop_count"
    "tg_timer (ct_trigger (cl_triggers lib ! index)) = Some behavior"
  shows "timers_ok lib (cs_timers (start_timer tools lib index behavior display_name template dynamic sources now loop_count s))"
proof (cases "restart_timers (tb_restart_mode behavior) index display_name (cs_timers s)")
  case (Some kept)
  have mode: "restart_mode_of lib index = Some (tb_restart_mode behavior)" by (simp add: restart_mode_of_def assms(3))
  let ?t = "new_timer tools (cl_triggers lib ! index) behavior index display_name template dynamic sources now loop_count s"
  have slot: "timer_slot ?t = (index, display_name)" "at_trigger_index ?t = index" "at_loop_count ?t = loop_count"
    by (simp_all add: new_timer_def Let_def timer_slot_def)
  then have "timer_sound lib ?t" using assms(2,3) by (simp add: timer_sound_def)
  then show ?thesis
    using restart_timers_ok [OF Some assms(1) mode] Some slot by (simp add: start_timer_def timers_ok_snoc)
qed (simp add: start_timer_def assms)

lemma fire_timer_tends:
  assumes "loops_within lib index loop_count"
  shows "tends lib r (fire_timer tools lib index dynamic sources now loop_count r)"
proof -
  obtain s b where r: "r = (s, b)" by (cases r)
  show ?thesis
    unfolding r fire_timer_def Let_def
    by (auto simp: tends_def assms start_timer_ok split: option.split)
qed

lemma handle_trigger_tends:
  assumes "loops_within lib index loop_count"
  shows "tends lib r (handle_trigger tools lib index line log_time captures previous dynamic now loop_count r)"
proof (cases "pass_lockout lib index now loop_count (fst r)")
  case (Some unlocked)
  obtain s b where r: "r = (s, b)" by (cases r)
  obtain counted firings where counted: "count_firing (cl_triggers lib ! index) index now unlocked = (counted, firings)"
    by (cases "count_firing (cl_triggers lib ! index) index now unlocked")
  let ?s = "apply_variable_actions tools lib index line captures previous now counted"
  have "cs_timers ?s = cs_timers s"
    by (simp add: apply_variable_actions_quiet(3) count_firing_quiet [OF counted] pass_lockout_keeps(3) [OF Some] r)
  then have "tends lib (s, b) (?s, b)" by (simp add: tends_same)
  also have "tends lib (?s, b) (handle_trigger tools lib index line log_time captures previous dynamic now loop_count r)"
    using Some unfolding handle_trigger_def
    by (auto simp: counted r Let_def intro: tends_trans [OF fire_timer_tends [OF assms] tends_same])
  finally show ?thesis unfolding r .
qed (simp add: handle_trigger_def)

lemma end_timer_early_tends: "ab_timers_changed (snd (end_timer_early tools lib line now ended r))
    \<and> cs_timers (fst (end_timer_early tools lib line now ended r)) = cs_timers (fst r)"
proof -
  obtain timer early where ended: "ended = (timer, early)" by (cases ended)
  obtain s b where r: "r = (s, b)" by (cases r)
  show ?thesis by (simp add: end_timer_early_def ended r Let_def case_prod_beta)
qed

lemma end_timers_early: "cs_timers (fst (fold (end_timer_early tools lib line now) ended r)) = cs_timers (fst r)
    \<and> (ab_timers_changed (snd (fold (end_timer_early tools lib line now) ended r)) \<longleftrightarrow> ab_timers_changed (snd r) \<or> ended \<noteq> [])"
  by (induction ended arbitrary: r) (auto simp: end_timer_early_tends)

lemma check_timer_enders_timers:
  "cs_timers (fst (check_timer_enders tools lib line now (s, b))) = filter (\<lambda>t. ends_early tools lib s line t = None) (cs_timers s)"
  by (simp add: check_timer_enders_def Let_def end_timers_early)

lemma check_timer_enders_tends: "tends lib r (check_timer_enders tools lib line now r)"
proof -
  obtain s b where r: "r = (s, b)" by (cases r)
  let ?ended = "filter_map (\<lambda>timer. map_option (Pair timer) (ends_early tools lib s line timer)) (cs_timers s)"
  have "filter (\<lambda>t. ends_early tools lib s line t = None) (cs_timers s) = cs_timers s" if "?ended = []"
    using that by (auto simp: filter_id_conv map_filter_def filter_empty_conv)
  then show ?thesis
    unfolding r tends_def using check_timer_enders_timers [of tools lib line now s b]
    by (auto simp: timers_ok_filter check_timer_enders_def Let_def end_timers_early)
qed

section \<open>A log line\<close>

lemma check_previous_quiet:
  assumes "check_previous tools lib index s = (s', m)"
  shows "same_person s s'" "holds_lockouts now s s'" "cs_timers s' = cs_timers s" "cs_lockout_until s' = cs_lockout_until s"
proof -
  have "same_person s s' \<and> cs_timers s' = cs_timers s \<and> cs_lockout_until s' = cs_lockout_until s"
  proof (cases "ct_previous (cl_triggers lib ! index) = None \<or> cs_previous_line s = None")
    case True
    then show ?thesis using assms by (auto simp: check_previous_def split: if_splits)
  next
    case False
    then obtain line where "cs_previous_line s = Some line" "ct_previous (cl_triggers lib ! index) \<noteq> None" by auto
    then obtain m' where checked: "check_line tools lib index line True s = (s', m')"
      using assms by (cases "check_line tools lib index line True s") (auto simp: check_previous_def)
    then show ?thesis using check_line_quiet [OF checked] by simp
  qed
  then show "same_person s s'" "holds_lockouts now s s'" "cs_timers s' = cs_timers s" "cs_lockout_until s' = cs_lockout_until s"
    by (auto simp: holds_lockouts_def)
qed

text \<open>One trigger either leaves the run as it was but for its matching, or handles the firing.\<close>

lemma process_trigger_cases:
  "\<exists>s'. same_person s s' \<and> cs_timers s' = cs_timers s \<and> cs_lockout_until s' = cs_lockout_until s
     \<and> ((\<exists>e'. process_trigger tools lib line log_time now index (expired, s, b) = (e', s', b))
        \<or> \<not> cs_disabled s ! index \<and> (\<exists>captures previous dynamic. process_trigger tools lib line log_time now index (expired, s, b)
             = (True, handle_trigger tools lib index line log_time captures previous dynamic now 0 (s', b))))"
proof (cases "cs_disabled s ! index")
  case False
  obtain s1 m where m: "check_line tools lib index line False s = (s1, m)" by (cases "check_line tools lib index line False s")
  note one = check_line_quiet [OF m]
  show ?thesis
  proof (cases m)
    case None
    then show ?thesis using False m one by (intro exI [of _ s1]) simp
  next
    case (Some line_match)
    obtain s2 p where p: "check_previous tools lib index s1 = (s2, p)" by (cases "check_previous tools lib index s1")
    note two = check_previous_quiet [OF p]
    show ?thesis
    proof (cases p)
      case None
      then show ?thesis using False m p Some one two by (intro exI [of _ s2]) (auto intro: same_person_trans)
    next
      case found: (Some previous)
      let ?s = "if expired then s2 else expire_variables now s2"
      have "same_person s ?s" "cs_timers ?s = cs_timers s" "cs_lockout_until ?s = cs_lockout_until s"
        using one two by (auto simp: expire_variables_def same_person_def)
      then show ?thesis using False m p Some found by (intro exI [of _ ?s]) (auto simp: judge_trigger_def)
    qed
  qed
qed auto

declare process_trigger.simps [simp del]

lemma holds_same_lockouts: "cs_lockout_until s' = cs_lockout_until s \<Longrightarrow> holds_lockouts now s s'"
  by (simp add: holds_lockouts_def)

lemma process_trigger_keeps: "keeps lib {index} now (snd acc) (snd (process_trigger tools lib line log_time now index acc))"
proof -
  obtain expired s b where acc: "acc = (expired, s, b)" by (cases acc)
  obtain s' where s': "same_person s s'" "cs_lockout_until s' = cs_lockout_until s"
    and out: "(\<exists>e'. process_trigger tools lib line log_time now index (expired, s, b) = (e', s', b))
        \<or> \<not> cs_disabled s ! index \<and> (\<exists>captures previous dynamic. process_trigger tools lib line log_time now index (expired, s, b)
             = (True, handle_trigger tools lib index line log_time captures previous dynamic now 0 (s', b)))"
    using process_trigger_cases [of s tools lib line log_time now index expired b] by blast
  have first: "keeps lib {index} now (s, b) (s', b)" using s' by (simp add: keeps_state holds_same_lockouts)
  from out show ?thesis
    unfolding acc by (auto simp: first intro: keeps_trans [OF first handle_trigger_keeps])
qed

lemma process_trigger_tends:
  "index < length (cl_triggers lib) \<Longrightarrow> tends lib (snd acc) (snd (process_trigger tools lib line log_time now index acc))"
proof -
  assume index: "index < length (cl_triggers lib)"
  obtain expired s b where acc: "acc = (expired, s, b)" by (cases acc)
  obtain s' where s': "cs_timers s' = cs_timers s"
    and out: "(\<exists>e'. process_trigger tools lib line log_time now index (expired, s, b) = (e', s', b))
        \<or> \<not> cs_disabled s ! index \<and> (\<exists>captures previous dynamic. process_trigger tools lib line log_time now index (expired, s, b)
             = (True, handle_trigger tools lib index line log_time captures previous dynamic now 0 (s', b)))"
    using process_trigger_cases [of s tools lib line log_time now index expired b] by blast
  have first: "tends lib (s, b) (s', b)" using s' by (simp add: tends_same)
  have "loops_within lib index 0" using index by (simp add: loops_within_def)
  then show ?thesis using out unfolding acc by (auto simp: first intro: tends_trans [OF first handle_trigger_tends])
qed

lemma process_triggers_keep: "set active \<subseteq> I \<Longrightarrow>
    keeps lib I now (snd acc) (snd (fold (process_trigger tools lib line log_time now) active acc))"
proof (induction active arbitrary: acc)
  case (Cons index active)
  let ?f = "process_trigger tools lib line log_time now"
  have "keeps lib I now (snd acc) (snd (?f index acc))" by (rule keeps_mono [OF process_trigger_keeps]) (use Cons.prems in simp)
  also have "keeps lib I now (snd (?f index acc)) (snd (fold ?f active (?f index acc)))" by (rule Cons.IH) (use Cons.prems in simp)
  finally show ?case by simp
qed simp

lemma process_triggers_tend: "set active \<subseteq> {..<length (cl_triggers lib)} \<Longrightarrow>
    tends lib (snd acc) (snd (fold (process_trigger tools lib line log_time now) active acc))"
proof (induction active arbitrary: acc)
  case (Cons index active)
  let ?f = "process_trigger tools lib line log_time now"
  have "tends lib (snd acc) (snd (?f index acc))" by (rule process_trigger_tends) (use Cons.prems in simp)
  also have "tends lib (snd (?f index acc)) (snd (fold ?f active (?f index acc)))" by (rule Cons.IH) (use Cons.prems in simp)
  finally show ?case by simp
qed simp

text \<open>The triggers that may speak when a line arrives: the active ones and those of running timers.\<close>

definition voices :: "'r CharState \<Rightarrow> nat set" where
  "voices s = set (cs_active s) \<union> at_trigger_index ` set (cs_timers s)"

section \<open>What a firing does to the timers\<close>

definition starts_one :: "nat \<Rightarrow> EngineMillis \<Rightarrow> nat \<Rightarrow> 'r ActiveTimer list \<Rightarrow> 'r ActiveTimer list \<Rightarrow> bool" where
  "starts_one index now loop_count ts ts' \<longleftrightarrow> ts' = ts \<or> (\<exists>P t. ts' = filter P ts @ [t]
     \<and> at_trigger_index t = index \<and> at_begin t = now \<and> at_loop_count t = loop_count \<and> \<not> at_warned t)"

lemma starts_one_refl [simp]: "starts_one index now loop_count ts ts"
  by (simp add: starts_one_def)

lemma restart_timers_filter: "restart_timers mode index name ts = Some kept \<Longrightarrow> \<exists>P. kept = filter P ts"
  by (cases mode) (auto split: if_splits intro: exI [of _ "\<lambda>_. True"])

lemma start_timer_starts: "starts_one index now loop_count (cs_timers s)
    (cs_timers (start_timer tools lib index behavior display_name template dynamic sources now loop_count s))"
proof (cases "restart_timers (tb_restart_mode behavior) index display_name (cs_timers s)")
  case (Some kept)
  obtain P where "kept = filter P (cs_timers s)" using restart_timers_filter [OF Some] by blast
  then show ?thesis using Some by (auto simp: start_timer_def starts_one_def new_timer_def Let_def)
qed (simp add: start_timer_def)

lemma fire_timer_starts: "starts_one index now loop_count (cs_timers (fst r)) (cs_timers (fst (fire_timer tools lib index dynamic sources now loop_count r)))"
proof -
  obtain s b where r: "r = (s, b)" by (cases r)
  note started = start_timer_starts [where s = "count_timer_name (cl_triggers lib ! index) index
      (timer_template tools (cl_triggers lib ! index) sources s) now s" and index = index and now = now and loop_count = loop_count]
  show ?thesis
    unfolding r fire_timer_def Let_def using started by (simp split: option.split)
qed

lemma handle_trigger_starts:
  "starts_one index now loop_count (cs_timers (fst r))
     (cs_timers (fst (handle_trigger tools lib index line log_time captures previous dynamic now loop_count r)))"
proof (cases "pass_lockout lib index now loop_count (fst r)")
  case (Some unlocked)
  obtain s b where r: "r = (s, b)" by (cases r)
  obtain counted firings where counted: "count_firing (cl_triggers lib ! index) index now unlocked = (counted, firings)"
    by (cases "count_firing (cl_triggers lib ! index) index now unlocked")
  let ?s = "apply_variable_actions tools lib index line captures previous now counted"
  have same: "cs_timers ?s = cs_timers s"
    by (simp add: apply_variable_actions_quiet(3) count_firing_quiet [OF counted] pass_lockout_keeps(3) [OF Some] r)
  show ?thesis
    unfolding handle_trigger_def using Some
    by (simp add: counted r Let_def) (metis fire_timer_starts fst_conv same)
qed (simp add: handle_trigger_def)

definition started_by :: "nat set \<Rightarrow> EngineMillis \<Rightarrow> nat set \<Rightarrow> 'r ActiveTimer list \<Rightarrow> 'r ActiveTimer list \<Rightarrow> bool" where
  "started_by I now loops ts ts' \<longleftrightarrow>
     (\<forall>t\<in>set ts'. t \<in> set ts \<or> at_trigger_index t \<in> I \<and> at_begin t = now \<and> at_loop_count t \<in> loops)"

lemma started_by_refl [simp]: "started_by I now loops ts ts"
  by (simp add: started_by_def)

lemma started_by_trans: "started_by I now loops ts ts' \<Longrightarrow> started_by I now loops ts' ts'' \<Longrightarrow> started_by I now loops ts ts''"
  by (auto simp: started_by_def)

lemma starts_one_started: "starts_one index now loop_count ts ts' \<Longrightarrow> index \<in> I \<Longrightarrow> loop_count \<in> loops \<Longrightarrow> started_by I now loops ts ts'"
  by (auto simp: starts_one_def started_by_def)

lemma process_triggers_start: "set active \<subseteq> I \<Longrightarrow> started_by I now {0} (cs_timers (fst (snd acc)))
    (cs_timers (fst (snd (fold (process_trigger tools lib line log_time now) active acc))))"
proof (induction active arbitrary: acc)
  case (Cons index active)
  let ?f = "process_trigger tools lib line log_time now"
  obtain expired s b where acc: "acc = (expired, s, b)" by (cases acc)
  obtain s' where s': "cs_timers s' = cs_timers s"
    and out: "(\<exists>e'. ?f index (expired, s, b) = (e', s', b)) \<or> \<not> cs_disabled s ! index \<and>
        (\<exists>captures previous dynamic. ?f index (expired, s, b)
          = (True, handle_trigger tools lib index line log_time captures previous dynamic now 0 (s', b)))"
    using process_trigger_cases [of s tools lib line log_time now index expired b] by blast
  have "starts_one index now 0 (cs_timers s) (cs_timers (fst (snd (?f index acc))))"
    using out unfolding acc s' [symmetric] by (auto simp: handle_trigger_starts [where r = "(s', b)", simplified])
  then have "started_by I now {0} (cs_timers s) (cs_timers (fst (snd (?f index acc))))"
    by (rule starts_one_started) (use Cons.prems in auto)
  then show ?case
    using Cons.IH [of "?f index acc"] Cons.prems unfolding acc by (auto intro: started_by_trans)
qed simp

section \<open>One character, one line\<close>

definition char_ok :: "'r CompiledLibrary \<Rightarrow> 'r CharState \<Rightarrow> bool" where
  "char_ok lib s \<longleftrightarrow> set (cs_active s) \<subseteq> {..<length (cl_triggers lib)}
     \<and> length (cs_disabled s) = length (cl_triggers lib) \<and> timers_ok lib (cs_timers s)"

lemma process_state_step:
  assumes "process_state tools lib line log_time now s = (s', b')"
  shows "keeps lib (voices s) now (s, batch_default) (s', b')"
    and "set (cs_active s) \<subseteq> {..<length (cl_triggers lib)} \<Longrightarrow> tends lib (s, batch_default) (s', b')"
proof -
  obtain expired r where r: "fold (process_trigger tools lib line log_time now) (cs_active s) (False, s, batch_default) = (expired, r)"
    by (cases "fold (process_trigger tools lib line log_time now) (cs_active s) (False, s, batch_default)")
  let ?c = "check_timer_enders tools lib line now r"
  have out: "s' = fst ?c\<lparr>cs_previous_line := Some line\<rparr>" "b' = snd ?c"
    using assms by (simp_all add: process_state_def r case_prod_beta)
  have "keeps lib (voices s) now (s, batch_default) r"
    using process_triggers_keep [of "cs_active s" "voices s" lib now "(False, s, batch_default)" tools line log_time]
    by (simp add: r voices_def)
  moreover have "started_by (set (cs_active s)) now {0} (cs_timers s) (cs_timers (fst r))"
    using process_triggers_start [of "cs_active s" "set (cs_active s)" now "(False, s, batch_default)" tools lib line log_time]
    by (simp add: r)
  then have "at_trigger_index ` set (cs_timers (fst r)) \<subseteq> voices s" by (auto simp: started_by_def voices_def)
  then have "keeps lib (voices s) now r ?c" by (rule check_timer_enders_keeps)
  ultimately have "keeps lib (voices s) now (s, batch_default) ?c" by (rule keeps_trans)
  moreover have "keeps lib (voices s) now (fst ?c, snd ?c) (s', b')"
    unfolding out by (rule keeps_state) (simp_all add: same_person_def holds_lockouts_def)
  ultimately show "keeps lib (voices s) now (s, batch_default) (s', b')"
    using keeps_trans [of lib "voices s" now "(s, batch_default)" ?c "(s', b')"] by simp
  assume active: "set (cs_active s) \<subseteq> {..<length (cl_triggers lib)}"
  have "tends lib (s, batch_default) r"
    using process_triggers_tend [OF active, of "(False, s, batch_default)" tools line log_time now] by (simp add: r)
  also have "tends lib r ?c" by (rule check_timer_enders_tends)
  also have "tends lib ?c (s', b')" unfolding out by (rule tends_same) simp_all
  finally show "tends lib (s, batch_default) (s', b')" .
qed

lemma char_ok_keeps:
  assumes "keeps lib I now r r'" "tends lib r r'" "char_ok lib (fst r)"
  shows "char_ok lib (fst r')"
  using assms by (auto simp: keeps_def tends_def char_ok_def same_person_def)

section \<open>The clock\<close>

definition warn_timer :: "EngineMillis \<Rightarrow> 'r ActiveTimer \<Rightarrow> 'r ActiveTimer" where
  "warn_timer now t = (if warning_due now t then t\<lparr>at_warned := True\<rparr> else t)"

lemma warn_timer_slot [simp]: "timer_slot (warn_timer now t) = timer_slot t" "timer_sound lib (warn_timer now t) = timer_sound lib t"
  "unwarned (warn_timer now t) = unwarned t" "at_trigger_index (warn_timer now t) = at_trigger_index t"
  "at_end (warn_timer now t) = at_end t" "at_loop_count (warn_timer now t) = at_loop_count t" "\<not> warning_due now (warn_timer now t)"
  by (simp_all add: warn_timer_def timer_slot_def timer_sound_def unwarned_def warning_due_def)

lemma warn_timer_ended [simp]: "timer_is_ended now (warn_timer now t) = timer_is_ended now t"
  by (simp add: timer_is_ended_def)

lemma fire_warning_timers:
  "cs_timers (fst (fire_warning tools lib now position r))
     = (cs_timers (fst r))[position := warn_timer now (cs_timers (fst r) ! position)]"
  by (cases r) (simp add: fire_warning_def Let_def warn_timer_def)

lemma fire_warnings_timers: "k \<le> length (cs_timers (fst r)) \<Longrightarrow>
    cs_timers (fst (fold (fire_warning tools lib now) [0..<k] r))
      = map (warn_timer now) (take k (cs_timers (fst r))) @ drop k (cs_timers (fst r))"
proof (induction k)
  case (Suc k)
  let ?ts = "cs_timers (fst r)"
  have k: "k < length ?ts" using Suc.prems by simp
  have split: "drop k ?ts = ?ts ! k # drop (Suc k) ?ts" using k by (simp add: Cons_nth_drop_Suc)
  show ?case
    using Suc k by (simp add: fire_warning_timers split list_update_append nth_append take_Suc_conv_app_nth)
qed simp

lemma fire_warning_keeps:
  assumes "position < length (cs_timers (fst r))" "at_trigger_index ` set (cs_timers (fst r)) \<subseteq> I"
  shows "keeps lib I now r (fire_warning tools lib now position r)"
proof (cases r)
  case (Pair s b)
  let ?t = "(cs_timers s ! position)\<lparr>at_warned := True\<rparr>"
  let ?s = "expire_variables now (s\<lparr>cs_timers := (cs_timers s)[position := ?t]\<rparr>)"
  have "keeps lib I now (s, b) (?s, b)"
    by (rule keeps_state) (simp_all add: expire_variables_def same_person_def holds_lockouts_def)
  moreover have "at_trigger_index ?t \<in> I" using assms unfolding Pair by auto
  then have "keeps lib I now (?s, b) (fire_timer_stage tools lib ?t TimerWarning [] (at_source_line (cs_timers s ! position)) now (?s, b))"
    by (rule fire_timer_stage_keeps)
  ultimately show ?thesis unfolding Pair fire_warning_def by (auto simp: Let_def intro: keeps_trans)
qed

lemma fire_warnings_keep:
  assumes "at_trigger_index ` set (cs_timers (fst r)) \<subseteq> I" "k \<le> length (cs_timers (fst r))"
  shows "keeps lib I now r (fold (fire_warning tools lib now) [0..<k] r)"
  using assms(2)
proof (induction k)
  case (Suc k)
  let ?r = "fold (fire_warning tools lib now) [0..<k] r"
  have timers: "cs_timers (fst ?r) = map (warn_timer now) (take k (cs_timers (fst r))) @ drop k (cs_timers (fst r))"
    using Suc.prems by (intro fire_warnings_timers) simp
  have "at_trigger_index ` set (cs_timers (fst ?r)) \<subseteq> I"
    using assms(1) by (auto simp: timers dest!: in_set_takeD [of _ k] in_set_dropD [of _ k])
  then have "keeps lib I now ?r (fire_warning tools lib now k ?r)"
    by (rule fire_warning_keeps [rotated]) (use Suc.prems in \<open>simp add: timers\<close>)
  then show ?case using Suc by (auto intro: keeps_trans)
qed simp

lemma repeat_timer_keeps: "at_trigger_index timer \<in> I \<Longrightarrow> keeps lib I now r (repeat_timer tools lib now timer r)"
  by (auto simp: repeat_timer_def intro: handle_trigger_keeps split: option.split)

lemma repeat_timer_tends: "timer_sound lib timer \<Longrightarrow> tends lib r (repeat_timer tools lib now timer r)"
  by (auto simp: repeat_timer_def timer_sound_def loops_within_def intro!: handle_trigger_tends split: option.split)

lemma end_timer_unfold:
  obtains s b where "end_timer tools lib now timer r = repeat_timer tools lib now timer (s, b)"
    "keeps lib {at_trigger_index timer} now r (s, b)" "cs_timers s = cs_timers (fst r)" "ab_timers_changed b"
proof -
  obtain s0 b0 where r: "r = (s0, b0)" by (cases r)
  let ?i = "at_trigger_index timer"
  let ?r = "fire_timer_stage tools lib timer TimerEnd [] (at_source_line timer) now (expire_variables now s0, b0\<lparr>ab_timers_changed := True\<rparr>)"
  have "keeps lib {?i} now (s0, b0) (expire_variables now s0, b0\<lparr>ab_timers_changed := True\<rparr>)"
    by (intro keeps_changed' keeps_state) simp_all
  also have "keeps lib {?i} now (expire_variables now s0, b0\<lparr>ab_timers_changed := True\<rparr>) ?r"
    by (rule fire_timer_stage_keeps) simp
  also have "keeps lib {?i} now ?r (clear_end_variables lib ?i (fst ?r), snd ?r)"
    by (cases ?r) (simp add: keeps_state)
  finally have kept: "keeps lib {?i} now (s0, b0) (clear_end_variables lib ?i (fst ?r), snd ?r)" .
  show ?thesis
    by (rule that [of "clear_end_variables lib ?i (fst ?r)" "snd ?r"]) (use kept in \<open>simp_all add: end_timer_def r Let_def case_prod_beta\<close>)
qed

lemma end_timer_keeps: "at_trigger_index timer \<in> I \<Longrightarrow> keeps lib I now r (end_timer tools lib now timer r)"
  by (rule end_timer_unfold [where timer = timer and r = r and tools = tools and lib = lib and now = now])
    (auto intro: keeps_trans [OF keeps_mono repeat_timer_keeps])

lemma end_timer_tends:
  assumes "timer_sound lib timer"
  shows "tends lib r (end_timer tools lib now timer r)" "ab_timers_changed (snd (end_timer tools lib now timer r))"
proof -
  obtain s b where e: "end_timer tools lib now timer r = repeat_timer tools lib now timer (s, b)"
    "cs_timers s = cs_timers (fst r)" "ab_timers_changed b"
    by (rule end_timer_unfold [where timer = timer and r = r and tools = tools and lib = lib and now = now])
  have "tends lib (s, b) (end_timer tools lib now timer r)" unfolding e(1) by (rule repeat_timer_tends [OF assms])
  then show "tends lib r (end_timer tools lib now timer r)" "ab_timers_changed (snd (end_timer tools lib now timer r))"
    using e(2,3) by (auto simp: tends_def)
qed

text \<open>The repeats a timer may still make, its own run included.\<close>

definition runs_left :: "'r CompiledLibrary \<Rightarrow> 'r ActiveTimer \<Rightarrow> nat" where
  "runs_left lib t = (case tg_timer (ct_trigger (cl_triggers lib ! at_trigger_index t)) of
     Some behavior \<Rightarrow> tb_times_to_loop behavior - at_loop_count t + 1 | None \<Rightarrow> 1)"

definition work :: "'r CompiledLibrary \<Rightarrow> 'r ActiveTimer list \<Rightarrow> nat" where
  "work lib ts = sum_list (map (runs_left lib) ts)"

lemma work_append [simp]: "work lib (ts @ us) = work lib ts + work lib us"
  by (simp add: work_def)

lemma work_filter: "work lib (filter P ts) \<le> work lib ts"
  by (induction ts) (auto simp: work_def)

lemma work_split: "work lib ts = work lib (filter P ts) + work lib (filter (\<lambda>t. \<not> P t) ts)"
  by (induction ts) (auto simp: work_def)

lemma runs_left_warn [simp]: "runs_left lib (warn_timer now t) = runs_left lib t"
  by (simp add: runs_left_def warn_timer_def split: option.split)

lemma work_warn [simp]: "work lib (map (warn_timer now) ts) = work lib ts"
  by (simp add: work_def comp_def)

lemma end_timer_timers:
  "started_by {at_trigger_index timer} now {Suc (at_loop_count timer)} (cs_timers (fst r)) (cs_timers (fst (end_timer tools lib now timer r)))
    \<and> Suc (work lib (cs_timers (fst (end_timer tools lib now timer r)))) \<le> work lib (cs_timers (fst r)) + runs_left lib timer"
proof -
  obtain s b where e: "end_timer tools lib now timer r = repeat_timer tools lib now timer (s, b)" "cs_timers s = cs_timers (fst r)"
    by (rule end_timer_unfold [where timer = timer and r = r and tools = tools and lib = lib and now = now])
  let ?ts' = "cs_timers (fst (end_timer tools lib now timer r))"
  have positive: "runs_left lib timer > 0" by (simp add: runs_left_def split: option.split)
  have "?ts' = cs_timers (fst r) \<or>
      (starts_one (at_trigger_index timer) now (Suc (at_loop_count timer)) (cs_timers (fst r)) ?ts'
       \<and> (\<exists>behavior. tg_timer (ct_trigger (cl_triggers lib ! at_trigger_index timer)) = Some behavior
            \<and> at_loop_count timer < tb_times_to_loop behavior))"
    unfolding e(1) repeat_timer_def
    using handle_trigger_starts [where r = "(s, b)" and index = "at_trigger_index timer" and now = now and loop_count = "Suc (at_loop_count timer)"]
    by (auto simp: e(2) split: option.split)
  then show ?thesis
  proof (elim disjE conjE exE)
    assume "?ts' = cs_timers (fst r)"
    then show ?thesis using positive by simp
  next
    fix behavior
    assume one: "starts_one (at_trigger_index timer) now (Suc (at_loop_count timer)) (cs_timers (fst r)) ?ts'"
      and behavior: "tg_timer (ct_trigger (cl_triggers lib ! at_trigger_index timer)) = Some behavior"
      "at_loop_count timer < tb_times_to_loop behavior"
    have "started_by {at_trigger_index timer} now {Suc (at_loop_count timer)} (cs_timers (fst r)) ?ts'"
      by (rule starts_one_started [OF one]) simp_all
    moreover have "Suc (work lib ?ts') \<le> work lib (cs_timers (fst r)) + runs_left lib timer"
      using one positive unfolding starts_one_def
    proof (elim disjE exE conjE)
      fix P t
      assume t: "?ts' = filter P (cs_timers (fst r)) @ [t]" "at_trigger_index t = at_trigger_index timer" "at_loop_count t = Suc (at_loop_count timer)"
      have "Suc (runs_left lib t) \<le> runs_left lib timer" using t(2,3) behavior by (simp add: runs_left_def)
      then show ?thesis using work_filter [of lib P "cs_timers (fst r)"] unfolding t(1) by (simp add: work_def)
    qed simp
    ultimately show ?thesis ..
  qed
qed

lemma end_timers_timers:
  "started_by (at_trigger_index ` set ended) now {0<..} (cs_timers (fst r)) (cs_timers (fst (fold (end_timer tools lib now) ended r)))
    \<and> work lib (cs_timers (fst (fold (end_timer tools lib now) ended r))) + length ended \<le> work lib (cs_timers (fst r)) + work lib ended"
proof (induction ended arbitrary: r)
  case (Cons t ended)
  let ?r = "end_timer tools lib now t r"
  have one: "started_by {at_trigger_index t} now {Suc (at_loop_count t)} (cs_timers (fst r)) (cs_timers (fst ?r))"
    "Suc (work lib (cs_timers (fst ?r))) \<le> work lib (cs_timers (fst r)) + runs_left lib t"
    using end_timer_timers by blast+
  note rest = Cons.IH [of ?r]
  have "started_by (at_trigger_index ` set (t # ended)) now {0<..} (cs_timers (fst r)) (cs_timers (fst (fold (end_timer tools lib now) ended ?r)))"
    using one(1) rest unfolding started_by_def by fastforce
  then show ?case using one(2) rest by (simp add: work_def)
qed simp

section \<open>One character, one tick\<close>

lemma fire_warnings_changed:
  "ab_timers_changed (snd (fold (fire_warning tools lib now) ps r)) = ab_timers_changed (snd r)"
proof (induction ps arbitrary: r)
  case (Cons p ps)
  have "ab_timers_changed (snd (fire_warning tools lib now p r)) = ab_timers_changed (snd r)"
    by (cases r) (simp add: fire_warning_def Let_def)
  then show ?case using Cons.IH by simp
qed simp

lemma advance_state_parts:
  obtains s b where
    "advance_state tools lib now r = fold (end_timer tools lib now) (filter (timer_is_ended now) (map (warn_timer now) (cs_timers (fst r)))) (s, b)"
    "cs_timers s = filter (\<lambda>t. \<not> timer_is_ended now t) (map (warn_timer now) (cs_timers (fst r)))"
    "keeps lib (at_trigger_index ` set (cs_timers (fst r))) now r (s, b)"
    "ab_timers_changed b = ab_timers_changed (snd r)"
proof -
  let ?n = "length (cs_timers (fst r))"
  obtain s b where w: "fold (fire_warning tools lib now) [0..<?n] r = (s, b)" by (cases "fold (fire_warning tools lib now) [0..<?n] r")
  let ?I = "at_trigger_index ` set (cs_timers (fst r))"
  have timers: "cs_timers s = map (warn_timer now) (cs_timers (fst r))"
    using fire_warnings_timers [of ?n r tools lib now] by (simp add: w)
  have "keeps lib ?I now r (s, b)" using fire_warnings_keep [of r ?I ?n lib now tools] by (simp add: w)
  moreover have "keeps lib ?I now (s, b) (s\<lparr>cs_timers := filter (\<lambda>t. \<not> timer_is_ended now t) (cs_timers s)\<rparr>, b)"
    by (rule keeps_state) simp_all
  ultimately have "keeps lib ?I now r (s\<lparr>cs_timers := filter (\<lambda>t. \<not> timer_is_ended now t) (cs_timers s)\<rparr>, b)" by (rule keeps_trans)
  moreover have "ab_timers_changed b = ab_timers_changed (snd r)"
    using fire_warnings_changed [of tools lib now "[0..<?n]" r] by (simp add: w)
  ultimately show ?thesis
    by (intro that [of "s\<lparr>cs_timers := filter (\<lambda>t. \<not> timer_is_ended now t) (cs_timers s)\<rparr>" b])
      (simp_all add: advance_state_def w timers)
qed

lemma timers_ok_warn: "timers_ok lib (map (warn_timer now) ts) = timers_ok lib ts"
  by (simp add: timers_ok_def comp_def)

lemma advance_state_step:
  shows "keeps lib (at_trigger_index ` set (cs_timers (fst r))) now r (advance_state tools lib now r)"
    and "timers_ok lib (cs_timers (fst r)) \<Longrightarrow> tends lib r (advance_state tools lib now r)"
    and "\<forall>t\<in>set (cs_timers (fst (advance_state tools lib now r))).
           at_begin t = now \<and> at_loop_count t > 0 \<or> \<not> timer_is_ended now t \<and> \<not> warning_due now t \<and> t \<in> warn_timer now ` set (cs_timers (fst r))"
    and "work lib (cs_timers (fst (advance_state tools lib now r))) + length (filter (timer_is_ended now) (cs_timers (fst r)))
           \<le> work lib (cs_timers (fst r))"
proof -
  let ?ts = "cs_timers (fst r)"
  let ?ended = "filter (timer_is_ended now) (map (warn_timer now) ?ts)"
  let ?left = "filter (\<lambda>t. \<not> timer_is_ended now t) (map (warn_timer now) ?ts)"
  obtain s b where a: "advance_state tools lib now r = fold (end_timer tools lib now) ?ended (s, b)" "cs_timers s = ?left"
    "keeps lib (at_trigger_index ` set ?ts) now r (s, b)" "ab_timers_changed b = ab_timers_changed (snd r)"
    by (rule advance_state_parts [where r = r and tools = tools and lib = lib and now = now])
  have "keeps lib (at_trigger_index ` set ?ts) now (s, b) (fold (end_timer tools lib now) ?ended (s, b))"
    by (rule keeps_fold, rule end_timer_keeps) auto
  with a(3) show "keeps lib (at_trigger_index ` set ?ts) now r (advance_state tools lib now r)"
    unfolding a(1) by (rule keeps_trans)
  have started: "started_by (at_trigger_index ` set ?ended) now {0<..} ?left (cs_timers (fst (advance_state tools lib now r)))"
    and worked: "work lib (cs_timers (fst (advance_state tools lib now r))) + length ?ended \<le> work lib ?left + work lib ?ended"
    using end_timers_timers [of ?ended now "(s, b)" tools lib] unfolding a(1) fst_conv a(2) by blast+
  show "\<forall>t\<in>set (cs_timers (fst (advance_state tools lib now r))).
      at_begin t = now \<and> at_loop_count t > 0 \<or> \<not> timer_is_ended now t \<and> \<not> warning_due now t \<and> t \<in> warn_timer now ` set ?ts"
    using started unfolding started_by_def by auto
  have "work lib ?left + work lib ?ended = work lib ?ts"
    using work_split [of lib "map (warn_timer now) ?ts" "timer_is_ended now"] by simp
  moreover have "length ?ended = length (filter (timer_is_ended now) ?ts)"
    by (simp add: filter_map comp_def)
  ultimately show "work lib (cs_timers (fst (advance_state tools lib now r))) + length (filter (timer_is_ended now) ?ts) \<le> work lib ?ts"
    using worked by simp
  assume ok: "timers_ok lib ?ts"
  have sound: "timer_sound lib t" if "t \<in> set ?ended" for t using ok that by (auto simp: timers_ok_def)
  have "tends lib (s, b) (fold (end_timer tools lib now) ?ended (s, b))"
    by (rule tends_fold, rule end_timer_tends(1)) (rule sound)
  moreover have "timers_ok lib ?left" using ok by (simp add: timers_ok_filter timers_ok_warn)
  moreover have "ab_timers_changed (snd (fold (end_timer tools lib now) ts (s, b)))" if "ts \<noteq> []" "set ts \<subseteq> set ?ended" for ts
    using that
  proof (induction ts rule: rev_induct)
    case (snoc t ts)
    then show ?case using end_timer_tends(2) [OF sound, of t] by simp
  qed simp
  moreover have "map unwarned ?left = map unwarned ?ts" if "?ended = []"
  proof -
    have "?left = map (warn_timer now) ?ts" using that by (auto simp: filter_id_conv filter_empty_conv)
    then show ?thesis by simp
  qed
  ultimately show "tends lib r (advance_state tools lib now r)"
    using a(2,4) unfolding a(1) tends_def by (cases "?ended = []") auto
qed

section \<open>The engine\<close>

datatype EngineOp =
    OpLine CharacterContext string "string option" EngineMillis
  | OpAdvance "string list" EngineMillis
  | OpRemove string
  | OpClear string

fun engine_step :: "'r TriggerTools \<Rightarrow> EngineOp \<Rightarrow> 'r TriggerEngine \<Rightarrow> 'r TriggerEngine \<times> ActionBatch" where
  "engine_step tools (OpLine context line log_time now) engine = process_line tools context line log_time now engine"
| "engine_step tools (OpAdvance keys now) engine = advance tools keys now engine"
| "engine_step tools (OpRemove key) engine = (snd (remove_character key engine), batch_default)"
| "engine_step tools (OpClear key) engine = (clear_variables key engine, batch_default)"

definition engine_run :: "'r TriggerTools \<Rightarrow> EngineOp list \<Rightarrow> 'r TriggerEngine \<Rightarrow> 'r TriggerEngine" where
  "engine_run tools ops engine = fold (\<lambda>op engine. fst (engine_step tools op engine)) ops engine"

definition compiled_ok :: "'r CompiledLibrary \<Rightarrow> bool" where
  "compiled_ok lib \<longleftrightarrow> (\<forall>profile\<in>set (cl_profiles lib). set (cp_members profile) \<subseteq> {..<length (cl_triggers lib)})"

definition triggers_ok :: "'r CompiledLibrary \<Rightarrow> 'r TriggerEngine \<Rightarrow> bool" where
  "triggers_ok lib engine \<longleftrightarrow> te_compiled engine = lib
     \<and> (\<forall>key s. bm_get (te_characters engine) key = Some s \<longrightarrow> cx_key (cs_context s) = key \<and> char_ok lib s)"

lemma remdups_adj_strict: "sorted xs \<Longrightarrow> sorted_wrt (<) (remdups_adj (xs :: nat list))"
proof (induction xs rule: remdups_adj.induct)
  case (3 x y xs)
  have least: "\<forall>z\<in>set (y # xs). x \<le> z" using "3.prems" by simp
  show ?case
  proof (cases "x = y")
    case False
    then have "\<forall>z\<in>set (y # xs). x < z" using least "3.prems" by force
    then show ?thesis using "3.IH"(2) [OF False] "3.prems" False by simp
  qed (use "3.IH"(1) "3.prems" in simp)
qed simp_all

lemma sorted_indexes_set [simp]: "set (sorted_indexes xs) = set xs" "sorted_wrt (<) (sorted_indexes xs)"
  by (simp_all add: sorted_indexes_def remdups_adj_strict)

lemma active_for_bounds: "compiled_ok lib \<Longrightarrow> set (active_for lib character server) \<subseteq> {..<length (cl_triggers lib)}"
  by (auto simp: active_for_def compiled_ok_def)

lemma char_ok_new: "compiled_ok lib \<Longrightarrow> char_ok lib (new_char_state lib context)"
  using active_for_bounds [of lib "cx_character context" "cx_server context"]
  by (simp add: char_ok_def new_char_state_def timers_ok_def)

lemma state_for_ok:
  assumes "compiled_ok lib" "triggers_ok lib engine"
  shows "char_ok lib (state_for engine context)" "cx_key (cs_context (state_for engine context)) = cx_key context"
proof -
  have "char_ok lib (state_for engine context) \<and> cx_key (cs_context (state_for engine context)) = cx_key context"
  proof (cases "bm_get (te_characters engine) (cx_key context)")
    case None
    then show ?thesis using assms char_ok_new by (auto simp: state_for_def triggers_ok_def new_char_state_def unwrap_or_def)
  next
    case (Some s)
    then show ?thesis using assms by (auto simp: state_for_def triggers_ok_def unwrap_or_def)
  qed
  then show "char_ok lib (state_for engine context)" "cx_key (cs_context (state_for engine context)) = cx_key context" by simp_all
qed

lemma process_line_effect:
  assumes "compiled_ok lib" "triggers_ok lib engine" "line \<noteq> []"
  obtains s' b' where "process_line tools context line log_time now engine
      = (engine\<lparr>te_characters := bm_insert (cx_key context) s' (te_characters engine)\<rparr>, b')"
    "keeps lib (voices (state_for engine context)) now (state_for engine context, batch_default) (s', b')"
    "tends lib (state_for engine context, batch_default) (s', b')" "char_ok lib s'" "cx_key (cs_context s') = cx_key context"
proof -
  have compiled: "te_compiled engine = lib" using assms(2) by (simp add: triggers_ok_def)
  let ?s = "state_for engine context"
  obtain s' b' where p: "process_state tools lib line log_time now ?s = (s', b')"
    by (cases "process_state tools lib line log_time now ?s")
  note ok = state_for_ok [OF assms(1,2), of "context"]
  have k: "keeps lib (voices ?s) now (?s, batch_default) (s', b')" by (rule process_state_step(1) [OF p])
  have t: "tends lib (?s, batch_default) (s', b')" by (rule process_state_step(2) [OF p]) (use ok in \<open>simp add: char_ok_def\<close>)
  have "char_ok lib s'" using char_ok_keeps [OF k t] ok(1) by simp
  moreover have "cx_key (cs_context s') = cx_key context" using k ok(2) by (simp add: keeps_def same_person_def)
  ultimately show ?thesis
    by (intro that [of s' b']) (use p k t assms(3) compiled in \<open>simp_all add: process_line_def\<close>)
qed

text \<open>A tick reaches every listed character once and leaves the others alone.\<close>

lemma advance_one_effect:
  assumes "te_compiled engine = lib"
  shows "te_compiled (fst (advance_one tools now key (engine, b))) = lib"
    "bm_get (te_characters (fst (advance_one tools now key (engine, b)))) other
       = (if other = key then map_option (\<lambda>s. fst (advance_state tools lib now (s, b))) (bm_get (te_characters engine) key)
          else bm_get (te_characters engine) other)"
  using assms by (simp_all add: advance_one_def Let_def case_prod_beta split: option.split)

lemma advance_effect:
  assumes "te_compiled engine = lib" "distinct keys"
  shows "te_compiled (fst (fold (advance_one tools now) keys (engine, b))) = lib
    \<and> (key \<notin> set keys \<longrightarrow> bm_get (te_characters (fst (fold (advance_one tools now) keys (engine, b)))) key = bm_get (te_characters engine) key)
    \<and> (key \<in> set keys \<longrightarrow> (\<exists>b'. bm_get (te_characters (fst (fold (advance_one tools now) keys (engine, b)))) key
         = map_option (\<lambda>s. fst (advance_state tools lib now (s, b'))) (bm_get (te_characters engine) key)))"
  using assms
proof (induction keys arbitrary: engine b)
  case (Cons k keys)
  obtain engine' b' where one: "advance_one tools now k (engine, b) = (engine', b')" by (cases "advance_one tools now k (engine, b)")
  have effect: "te_compiled engine' = lib" "bm_get (te_characters engine') other
       = (if other = k then map_option (\<lambda>s. fst (advance_state tools lib now (s, b))) (bm_get (te_characters engine) k)
          else bm_get (te_characters engine) other)" for other
    using advance_one_effect [OF Cons.prems(1), of tools now k b] by (simp_all add: one)
  have "distinct keys" "k \<notin> set keys" using Cons.prems(2) by simp_all
  note rest = Cons.IH [OF effect(1) \<open>distinct keys\<close>, of b']
  show ?case
  proof (cases "key = k")
    case True
    then show ?thesis using rest effect(2) [of key] \<open>k \<notin> set keys\<close> by (simp add: one) blast
  next
    case False
    then show ?thesis using rest effect(2) [of key] by (simp add: one)
  qed
qed simp

lemma advance_step_ok:
  assumes "triggers_ok lib engine"
  shows "triggers_ok lib (fst (advance_one tools now key (engine, b)))"
proof -
  have compiled: "te_compiled engine = lib" using assms by (simp add: triggers_ok_def)
  have "char_ok lib (fst (advance_state tools lib now (s, b))) \<and> cx_key (cs_context (fst (advance_state tools lib now (s, b)))) = key"
    if "bm_get (te_characters engine) key = Some s" for s
  proof -
    have ok: "char_ok lib s" "cx_key (cs_context s) = key" using that assms by (auto simp: triggers_ok_def)
    note k = advance_state_step(1) [where r = "(s, b)" and lib = lib and now = now and tools = tools]
    have t: "tends lib (s, b) (advance_state tools lib now (s, b))" by (rule advance_state_step(2)) (use ok in \<open>simp add: char_ok_def\<close>)
    show ?thesis using char_ok_keeps [OF k t] k ok by (simp add: keeps_def same_person_def)
  qed
  then show ?thesis
    using assms advance_one_effect [OF compiled, of tools now key b] unfolding triggers_ok_def by (auto split: if_splits)
qed

lemma advance_one_reports:
  assumes "triggers_ok lib engine" "advance_one tools now key (engine, b) = (engine', b')"
  shows "ab_timers_changed b \<Longrightarrow> ab_timers_changed b'"
    and "\<not> ab_timers_changed b' \<Longrightarrow> bm_get (te_characters engine) k = Some s
      \<Longrightarrow> \<exists>s'. bm_get (te_characters engine') k = Some s' \<and> map unwarned (cs_timers s') = map unwarned (cs_timers s)"
proof -
  have compiled: "te_compiled engine = lib" using assms(1) by (simp add: triggers_ok_def)
  have step: "tends lib (t, b) (advance_state tools lib now (t, b))" if "bm_get (te_characters engine) key = Some t" for t
    by (rule advance_state_step(2)) (use that assms(1) in \<open>auto simp: triggers_ok_def char_ok_def\<close>)
  show "ab_timers_changed b \<Longrightarrow> ab_timers_changed b'"
    using assms(2) step by (auto simp: advance_one_def compiled case_prod_beta tends_def split: option.splits)
  assume quiet: "\<not> ab_timers_changed b'" and s: "bm_get (te_characters engine) k = Some s"
  have "bm_get (te_characters engine') k = (if k = key then Some (fst (advance_state tools lib now (s, b))) else Some s)"
    using advance_one_effect(2) [OF compiled, of tools now key b k] s by (auto simp: assms(2))
  moreover have "b' = snd (advance_state tools lib now (s, b))" if "k = key"
    using assms(2) s that by (auto simp: advance_one_def compiled case_prod_beta)
  ultimately show "\<exists>s'. bm_get (te_characters engine') k = Some s' \<and> map unwarned (cs_timers s') = map unwarned (cs_timers s)"
    using step s quiet by (auto simp: tends_def)
qed

lemma advance_reports:
  assumes "triggers_ok lib engine" "fold (advance_one tools now) keys (engine, b) = (engine', b')"
  shows "(ab_timers_changed b \<longrightarrow> ab_timers_changed b') \<and> (\<not> ab_timers_changed b' \<longrightarrow> bm_get (te_characters engine) k = Some s
      \<longrightarrow> (\<exists>s'. bm_get (te_characters engine') k = Some s' \<and> map unwarned (cs_timers s') = map unwarned (cs_timers s)))"
  using assms
proof (induction keys arbitrary: engine b s)
  case (Cons key keys)
  obtain e1 b1 where one: "advance_one tools now key (engine, b) = (e1, b1)" by (cases "advance_one tools now key (engine, b)")
  have ok: "triggers_ok lib e1" using advance_step_ok [OF Cons.prems(1), of tools now key b] by (simp add: one)
  have rest: "fold (advance_one tools now) keys (e1, b1) = (engine', b')" using Cons.prems(2) by (simp add: one)
  note first = advance_one_reports [OF Cons.prems(1) one]
  note after = Cons.IH [OF ok rest]
  show ?case
  proof (intro conjI impI)
    show "ab_timers_changed b \<Longrightarrow> ab_timers_changed b'" using first(1) after by blast
    assume quiet: "\<not> ab_timers_changed b'" and s: "bm_get (te_characters engine) k = Some s"
    have "\<not> ab_timers_changed b1" using quiet after by blast
    from first(2) [OF this s] obtain s1 where "bm_get (te_characters e1) k = Some s1" "map unwarned (cs_timers s1) = map unwarned (cs_timers s)" by blast
    then show "\<exists>s'. bm_get (te_characters engine') k = Some s' \<and> map unwarned (cs_timers s') = map unwarned (cs_timers s)"
      using after [of s1] quiet by auto
  qed
qed simp

lemma advance_ok: "triggers_ok lib engine \<Longrightarrow> triggers_ok lib (fst (fold (advance_one tools now) keys (engine, b)))"
proof (induction keys arbitrary: engine b)
  case (Cons k keys)
  obtain engine' b' where one: "advance_one tools now k (engine, b) = (engine', b')" by (cases "advance_one tools now k (engine, b)")
  show ?case using Cons.IH [of engine' b'] advance_step_ok [OF Cons.prems, of tools now k b] by (simp add: one)
qed simp

lemma char_ok_variables [simp]: "char_ok lib (s\<lparr>cs_variables := v\<rparr>) = char_ok lib s"
  by (simp add: char_ok_def)

lemma engine_step_ok: "compiled_ok lib \<Longrightarrow> triggers_ok lib engine \<Longrightarrow> triggers_ok lib (fst (engine_step tools op engine))"
proof (cases op)
  case (OpLine cxt line log_time now)
  assume ok: "compiled_ok lib" "triggers_ok lib engine"
  show ?thesis
  proof (cases "line = []")
    case False
    obtain s' b' where p: "process_line tools cxt line log_time now engine
        = (engine\<lparr>te_characters := bm_insert (cx_key cxt) s' (te_characters engine)\<rparr>, b')" "char_ok lib s'" "cx_key (cs_context s') = cx_key cxt"
      by (rule process_line_effect [OF ok False])
    then show ?thesis using ok(2) by (auto simp: OpLine triggers_ok_def)
  qed (use ok OpLine in \<open>simp add: process_line_def\<close>)
next
  case (OpClear key)
  assume "triggers_ok lib engine"
  then show ?thesis by (auto simp: OpClear triggers_ok_def clear_variables_def split: if_splits)
next
  case (OpAdvance keys now)
  assume "triggers_ok lib engine"
  then show ?thesis by (simp add: OpAdvance advance_def advance_ok)
qed (auto simp: triggers_ok_def remove_character_def split: if_splits)

lemma engine_run_ok: "compiled_ok lib \<Longrightarrow> triggers_ok lib engine \<Longrightarrow> triggers_ok lib (engine_run tools ops engine)"
  unfolding engine_run_def by (induction ops arbitrary: engine) (simp_all add: engine_step_ok)

lemma engine_new_ok: "triggers_ok lib (trigger_engine_new lib)"
  by (simp add: triggers_ok_def trigger_engine_new_def)

section \<open>Compiled libraries\<close>

definition compile_inv :: "Trigger list \<Rightarrow> 'r CompiledTrigger list \<Rightarrow> (TriggerId \<rightharpoonup> nat) \<Rightarrow> bool" where
  "compile_inv sources triggers index_by_id \<longleftrightarrow>
     (\<forall>i j. index_by_id i = Some j \<longrightarrow> j < length triggers \<and> ct_id (triggers ! j) = i)
     \<and> (\<forall>j<length triggers. index_by_id (ct_id (triggers ! j)) \<noteq> None)
     \<and> (\<forall>t\<in>set triggers. ct_trigger t \<in> set sources \<and> tg_id (ct_trigger t) = ct_id t \<and> compilable (ct_trigger t))
     \<and> (distinct (map tg_id sources) \<longrightarrow> distinct (map ct_id triggers))"

lemma compile_trigger_source: "compile_trigger tools trigger = Inr compiled \<Longrightarrow> ct_trigger compiled = trigger \<and> tg_id trigger = ct_id compiled"
  by (cases "compile_previous tools (tg_previous_pattern trigger)")
    (auto simp: compile_trigger_def compiled_trigger_def Let_def split: sum.splits)

lemma compile_one_inv:
  assumes "compile_inv sources triggers index_by_id" "compile_one tools trigger (triggers, index_by_id, errors) = (triggers', index_by_id', errors')"
  shows "compile_inv (sources @ [trigger]) triggers' index_by_id'"
proof (cases "compilable trigger \<and> (\<exists>compiled. compile_trigger tools trigger = Inr compiled)")
  case True
  then obtain compiled where compiled: "compile_trigger tools trigger = Inr compiled" by blast
  note source = compile_trigger_source [OF compiled]
  have "triggers' = triggers @ [compiled]" "index_by_id' = index_by_id(tg_id trigger \<mapsto> length triggers)"
    using assms(2) True compiled by (auto simp: compile_one_def)
  moreover have "tg_id trigger \<notin> ct_id ` set triggers" if "distinct (map tg_id (sources @ [trigger]))"
    using assms(1) that unfolding compile_inv_def by force
  ultimately show ?thesis using assms(1) source True unfolding compile_inv_def by (auto simp: nth_append less_Suc_eq)
next
  case False
  then have "triggers' = triggers" "index_by_id' = index_by_id"
    using assms(2) by (auto simp: compile_one_def split: if_splits sum.splits)
  then show ?thesis using assms(1) unfolding compile_inv_def by auto
qed

lemma compile_all_inv:
  assumes "compile_inv sources triggers index_by_id" "fold (compile_one tools) added (triggers, index_by_id, errors) = (triggers', index_by_id', errors')"
  shows "compile_inv (sources @ added) triggers' index_by_id'"
  using assms
proof (induction added arbitrary: sources triggers index_by_id errors)
  case (Cons trigger added)
  obtain t1 i1 e1 where one: "compile_one tools trigger (triggers, index_by_id, errors) = (t1, i1, e1)"
    by (cases "compile_one tools trigger (triggers, index_by_id, errors)")
  have "compile_inv ((sources @ [trigger]) @ added) triggers' index_by_id'"
    by (rule Cons.IH [OF compile_one_inv [OF Cons.prems(1) one]]) (use Cons.prems(2) one in simp)
  then show ?case by simp
qed simp

lemma compile_library_parts:
  obtains index_by_id where "compile_inv (lib_triggers library) (cl_triggers (compile_library tools library)) index_by_id"
    "cl_profiles (compile_library tools library) = map (compile_profile library index_by_id) (filter pr_enabled (lib_profiles library))"
proof -
  obtain triggers index_by_id errors where c: "fold (compile_one tools) (lib_triggers library) ([], Map.empty, []) = (triggers, index_by_id, errors)"
    by (cases "fold (compile_one tools) (lib_triggers library) ([], Map.empty, [])")
  have "compile_inv [] [] Map.empty" by (simp add: compile_inv_def)
  from compile_all_inv [OF this c] show ?thesis
    by (intro that [of index_by_id]) (simp_all add: compile_library_def c)
qed

lemma profile_members: "set (cp_members (compile_profile library index_by_id profile)) = {j. \<exists>i. index_by_id i = Some j
    \<and> (i \<in> set (pr_triggers profile)
       \<or> (\<exists>folder\<in>set (pr_folders profile). \<exists>trigger\<in>set (lib_triggers library). tg_id trigger = i
            \<and> (\<exists>parent. tg_folder trigger = Some parent \<and> under (lib_folders library) folder parent)))}"
proof -
  have inside: "j \<in> set (folder_members library index_by_id folder) \<longleftrightarrow> (\<exists>trigger\<in>set (lib_triggers library).
      index_by_id (tg_id trigger) = Some j \<and> (\<exists>parent. tg_folder trigger = Some parent \<and> under (lib_folders library) folder parent))" for folder j
  proof -
    have "parent \<in> set (folder_subtree library folder) \<longleftrightarrow> under (lib_folders library) folder parent" for parent
      using folder_subtree_reaches [of library folder] by simp
    then show ?thesis
      unfolding folder_members_def Let_def set_filter_map by (intro bex_cong refl) (simp split: option.split)
  qed
  have "j \<in> set (cp_members (compile_profile library index_by_id profile)) \<longleftrightarrow>
      (\<exists>i\<in>set (pr_triggers profile). index_by_id i = Some j)
      \<or> (\<exists>folder\<in>set (pr_folders profile). j \<in> set (folder_members library index_by_id folder))" for j
    by (simp add: compile_profile_def set_filter_map)
  then show ?thesis unfolding inside by (intro set_eqI) (simp, blast)
qed

lemma compile_library_ok: "compiled_ok (compile_library tools library)"
proof -
  obtain index_by_id where c: "compile_inv (lib_triggers library) (cl_triggers (compile_library tools library)) index_by_id"
    "cl_profiles (compile_library tools library) = map (compile_profile library index_by_id) (filter pr_enabled (lib_profiles library))"
    by (rule compile_library_parts)
  then show ?thesis unfolding compiled_ok_def by (auto simp: profile_members compile_inv_def)
qed

lemma reached_ok: "triggers_ok (compile_library tools library) (engine_run tools ops (trigger_engine_new (compile_library tools library)))"
  by (intro engine_run_ok compile_library_ok engine_new_ok)

end
