(* ===== verification/Trigger_Guarantees.thy ===== *)
theory Trigger_Guarantees
  imports Trigger_Invariants
begin

text \<open>
  What the trigger engine promises, read off the invariants: restart modes and loop counts,
  the isolation of characters, the reports of timer changes, the end of timers, lockouts and
  profiles; and two places where it loses a firing. Each property has a sample run.
\<close>

section \<open>Properties\<close>


text \<open>
  C29. A log line touches its own character only. Every action it causes is addressed to that
  character and comes, with the target and the priority it has, from a trigger that is active
  for the character or has a timer running there; a trigger disabled for a character stays
  disabled.
\<close>

theorem lines_stay_with_their_character:
  assumes "engine = engine_run tools ops (trigger_engine_new (compile_library tools library))"
    and "process_line tools cxt line log_time now engine = (engine', batch)"
  shows "(\<forall>other. other \<noteq> cx_key cxt \<longrightarrow> bm_get (te_characters engine') other = bm_get (te_characters engine) other)
    \<and> (\<forall>event\<in>set (ab_events batch). ae_character event = cx_key cxt
      \<and> (\<exists>i\<in>set (cs_active (state_for engine cxt)) \<union> at_trigger_index ` set (cs_timers (state_for engine cxt)).
           ae_trigger_id event = ct_id (cl_triggers (compile_library tools library) ! i)
           \<and> ae_target event = tg_target (ct_trigger (cl_triggers (compile_library tools library) ! i))
           \<and> ae_priority event = tg_priority (ct_trigger (cl_triggers (compile_library tools library) ! i))))
    \<and> (line \<noteq> [] \<longrightarrow> (\<exists>s'. bm_get (te_characters engine') (cx_key cxt) = Some s'
      \<and> (\<forall>i<length (cs_disabled (state_for engine cxt)). cs_disabled (state_for engine cxt) ! i \<longrightarrow> cs_disabled s' ! i)))"
proof -
  let ?lib = "compile_library tools library"
  have ok: "triggers_ok ?lib engine" unfolding assms(1) by (rule reached_ok)
  have all: "(\<forall>other. other \<noteq> cx_key cxt \<longrightarrow> bm_get (te_characters engine') other = bm_get (te_characters engine) other)
    \<and> (\<forall>event\<in>set (ab_events batch). announces ?lib (cs_context (state_for engine cxt)) (voices (state_for engine cxt)) event)
    \<and> (line \<noteq> [] \<longrightarrow> (\<exists>s'. bm_get (te_characters engine') (cx_key cxt) = Some s' \<and> same_person (state_for engine cxt) s'))"
  proof (cases "line = []")
    case True
    then show ?thesis using assms(2) by (auto simp: process_line_def batch_default_def)
  next
    case False
    obtain s' b' where p: "process_line tools cxt line log_time now engine
        = (engine\<lparr>te_characters := bm_insert (cx_key cxt) s' (te_characters engine)\<rparr>, b')"
      "keeps ?lib (voices (state_for engine cxt)) now (state_for engine cxt, batch_default) (s', b')"
      by (rule process_line_effect [OF compile_library_ok ok False])
    show ?thesis using p assms(2) by (auto simp: keeps_def batch_default_def)
  qed
  have key: "cx_key (cs_context (state_for engine cxt)) = cx_key cxt" by (rule state_for_ok(2) [OF compile_library_ok ok])
  have "announces ?lib (cs_context (state_for engine cxt)) (voices (state_for engine cxt)) event \<Longrightarrow> ae_character event = cx_key cxt
      \<and> (\<exists>i\<in>set (cs_active (state_for engine cxt)) \<union> at_trigger_index ` set (cs_timers (state_for engine cxt)).
           ae_trigger_id event = ct_id (cl_triggers ?lib ! i)
           \<and> ae_target event = tg_target (ct_trigger (cl_triggers ?lib ! i))
           \<and> ae_priority event = tg_priority (ct_trigger (cl_triggers ?lib ! i)))" for event
    by (auto simp: announces_def voices_def key)
  then show ?thesis using all by (auto simp only: same_person_def)
qed

text \<open>
  A batch that does not say that timers changed comes from a step that started, ended and
  replaced no timer of any character; at most some became warned.
\<close>

theorem timer_changes_are_reported:
  assumes "engine = engine_run tools ops (trigger_engine_new (compile_library tools library))"
    and "engine_step tools op engine = (engine', batch)" "\<not> ab_timers_changed batch"
    and "(case op of OpLine _ _ _ _ \<Rightarrow> True | OpAdvance _ _ \<Rightarrow> True | OpClear _ \<Rightarrow> True | OpRemove _ \<Rightarrow> False)"
    and "bm_get (te_characters engine) key = Some s"
  shows "\<exists>s'. bm_get (te_characters engine') key = Some s' \<and> map unwarned (cs_timers s') = map unwarned (cs_timers s)"
proof -
  let ?lib = "compile_library tools library"
  have ok: "triggers_ok ?lib engine" unfolding assms(1) by (rule reached_ok)
  show ?thesis
  proof (cases op)
    case (OpLine cxt line log_time now)
    show ?thesis
    proof (cases "line = []")
      case True
      then show ?thesis using assms(2,5) OpLine by (simp add: process_line_def)
    next
      case False
      obtain s' b' where p: "process_line tools cxt line log_time now engine
          = (engine\<lparr>te_characters := bm_insert (cx_key cxt) s' (te_characters engine)\<rparr>, b')"
        "tends ?lib (state_for engine cxt, batch_default) (s', b')"
        by (rule process_line_effect [OF compile_library_ok ok False])
      have "state_for engine cxt = s" if "cx_key cxt = key" using assms(5) that by (simp add: state_for_def unwrap_or_def)
      then show ?thesis using p assms(2,3,5) OpLine by (auto simp: tends_def)
    qed
  next
    case (OpAdvance keys now)
    then show ?thesis
      using advance_reports [OF ok, of tools now keys batch_default engine' batch key s] assms(2,3,5) by (simp add: advance_def)
  qed (use assms(2,4,5) in \<open>auto simp: clear_variables_def\<close>)
qed

text \<open>
  After a tick every timer of every character the tick reached still has time to run and no
  warning due, or it is the repeat of a looping timer that began at this very tick.
\<close>

theorem advance_settles:
  assumes "distinct keys" "key \<in> set keys" "bm_get (te_characters (fst (advance tools keys now engine))) key = Some s"
  shows "\<forall>t\<in>set (cs_timers s). at_begin t = now \<and> at_loop_count t > 0 \<or> now < at_end t \<and> \<not> warning_due now t"
proof -
  obtain b old where "s = fst (advance_state tools (te_compiled engine) now (old, b))"
    using advance_effect [OF refl assms(1), where engine = engine and tools = tools and now = now and b = batch_default and key = key] assms(2,3)
    unfolding advance_def by (cases "bm_get (te_characters engine) key") auto
  then show ?thesis
    using advance_state_step(3) [where now = now and tools = tools and lib = "te_compiled engine" and r = "(old, b)"] by (auto simp: timer_is_ended_def)
qed

text \<open>Ticks, each of which finds every timer of a character at its end.\<close>

fun all_due :: "'r TriggerTools \<Rightarrow> (string list \<times> EngineMillis) list \<Rightarrow> string \<Rightarrow> 'r TriggerEngine \<Rightarrow> bool" where
  "all_due tools [] key engine = True"
| "all_due tools ((keys, now) # ticks) key engine \<longleftrightarrow> distinct keys \<and> key \<in> set keys
     \<and> (case bm_get (te_characters engine) key of Some s \<Rightarrow> list_all (timer_is_ended now) (cs_timers s) | None \<Rightarrow> True)
     \<and> all_due tools ticks key (fst (advance tools keys now engine))"

definition tick_all :: "'r TriggerTools \<Rightarrow> (string list \<times> EngineMillis) list \<Rightarrow> 'r TriggerEngine \<Rightarrow> 'r TriggerEngine" where
  "tick_all tools ticks engine = fold (\<lambda>(keys, now) engine. fst (advance tools keys now engine)) ticks engine"

lemma runs_left_positive: "runs_left lib t > 0"
  by (simp add: runs_left_def split: option.split)

lemma work_zero: "work lib ts = 0 \<longleftrightarrow> ts = []"
  using runs_left_positive [of lib] by (cases ts) (auto simp: work_def)

lemma tick_work:
  assumes "te_compiled engine = lib" "all_due tools ticks key engine" "bm_get (te_characters engine) key = Some s"
  shows "\<exists>s'. bm_get (te_characters (tick_all tools ticks engine)) key = Some s' \<and> work lib (cs_timers s') \<le> work lib (cs_timers s) - length ticks"
  using assms
proof (induction ticks arbitrary: engine s)
  case (Cons tick ticks)
  obtain keys now where tick: "tick = (keys, now)" by (cases tick)
  let ?e = "fst (advance tools keys now engine)"
  have here: "distinct keys" "key \<in> set keys" "list_all (timer_is_ended now) (cs_timers s)" "all_due tools ticks key ?e"
    using Cons.prems(2,3) by (simp_all add: tick)
  obtain b where b: "te_compiled ?e = lib" "bm_get (te_characters ?e) key = Some (fst (advance_state tools lib now (s, b)))"
    using advance_effect [OF Cons.prems(1) here(1), where tools = tools and now = now and b = batch_default and key = key] here(2) Cons.prems(3) unfolding advance_def by auto
  let ?s = "fst (advance_state tools lib now (s, b))"
  have "filter (timer_is_ended now) (cs_timers s) = cs_timers s" using here(3) by (simp add: filter_id_conv list_all_iff)
  then have "work lib (cs_timers ?s) + length (cs_timers s) \<le> work lib (cs_timers s)"
    using advance_state_step(4) [where now = now and tools = tools and lib = lib and r = "(s, b)"] by simp
  then have "work lib (cs_timers ?s) \<le> work lib (cs_timers s) - 1"
    by (cases "cs_timers s") (auto simp: work_def)
  then show ?case using Cons.IH [OF b(1) here(4) b(2)] by (auto simp: tick tick_all_def)
qed (simp add: tick_all_def)

text \<open>
  Timers die out. A looping timer repeats itself at a tick that finds it at its end, but no
  more often than its trigger says: once as many ticks have each found every timer of the
  character at its end as the timers had runs left, none is running, whatever their modes.
\<close>

theorem timers_die_out:
  assumes "all_due tools ticks key engine" "bm_get (te_characters engine) key = Some s"
    and "work (te_compiled engine) (cs_timers s) \<le> length ticks"
  shows "\<exists>s'. bm_get (te_characters (tick_all tools ticks engine)) key = Some s' \<and> cs_timers s' = []"
proof -
  obtain s' where s': "bm_get (te_characters (tick_all tools ticks engine)) key = Some s'"
    "work (te_compiled engine) (cs_timers s') \<le> work (te_compiled engine) (cs_timers s) - length ticks"
    using tick_work [OF refl assms(1,2)] by blast
  then have "work (te_compiled engine) (cs_timers s') = 0" using assms(3) by simp
  then show ?thesis using s'(1) by (auto simp: work_zero)
qed

section \<open>Lockouts\<close>

definition within_lockout :: "string \<Rightarrow> EngineMillis \<Rightarrow> EngineOp \<Rightarrow> bool" where
  "within_lockout key until op = (case op of OpLine _ _ _ now \<Rightarrow> now \<le> until | OpAdvance _ now \<Rightarrow> now \<le> until
     | OpRemove k \<Rightarrow> k \<noteq> key | OpClear _ \<Rightarrow> True)"

definition locked :: "'r TriggerEngine \<Rightarrow> string \<Rightarrow> nat \<Rightarrow> EngineMillis \<Rightarrow> bool" where
  "locked engine key i until \<longleftrightarrow> (\<exists>s. bm_get (te_characters engine) key = Some s \<and> bm_get (cs_lockout_until s) i = Some until)"

lemma advance_one_locked:
  assumes "now \<le> until" "locked engine key i until"
  shows "locked (fst (advance_one tools now k (engine, b))) key i until"
proof -
  obtain s where s: "bm_get (te_characters engine) key = Some s" "bm_get (cs_lockout_until s) i = Some until" using assms(2) by (auto simp: locked_def)
  have "bm_get (cs_lockout_until (fst (advance_state tools (te_compiled engine) now (s, b)))) i = Some until"
    using advance_state_step(1) [where r = "(s, b)" and lib = "te_compiled engine" and now = now and tools = tools] s assms(1)
    by (auto simp: keeps_def holds_lockouts_def)
  then show ?thesis
    using s advance_one_effect(2) [OF refl, of tools now k engine b key] by (auto simp: locked_def)
qed

lemma engine_step_locked:
  assumes "compiled_ok lib" "triggers_ok lib engine" "within_lockout key until op" "locked engine key i until"
  shows "locked (fst (engine_step tools op engine)) key i until"
proof (cases op)
  case (OpLine cxt line log_time now)
  show ?thesis
  proof (cases "line = []")
    case False
    obtain s' b' where p: "process_line tools cxt line log_time now engine
        = (engine\<lparr>te_characters := bm_insert (cx_key cxt) s' (te_characters engine)\<rparr>, b')"
      "keeps lib (voices (state_for engine cxt)) now (state_for engine cxt, batch_default) (s', b')"
      by (rule process_line_effect [OF assms(1,2) False])
    obtain s where s: "bm_get (te_characters engine) key = Some s" "bm_get (cs_lockout_until s) i = Some until" using assms(4) by (auto simp: locked_def)
    have "state_for engine cxt = s" if "cx_key cxt = key" using s(1) that by (simp add: state_for_def unwrap_or_def)
    then show ?thesis using p s assms(3) OpLine by (auto simp: locked_def keeps_def holds_lockouts_def within_lockout_def)
  qed (use assms OpLine in \<open>simp add: process_line_def\<close>)
next
  case (OpAdvance keys now)
  have "locked e key i until \<Longrightarrow> locked (fst (fold (advance_one tools now) keys (e, b))) key i until" for e b
  proof (induction keys arbitrary: e b)
    case (Cons k keys)
    obtain e1 b1 where one: "advance_one tools now k (e, b) = (e1, b1)" by (cases "advance_one tools now k (e, b)")
    have "locked e1 key i until"
      using advance_one_locked [of now until e key i tools k b] Cons.prems assms(3) OpAdvance by (simp add: one within_lockout_def)
    then show ?case using Cons.IH by (simp add: one)
  qed simp
  then show ?thesis using assms(4) OpAdvance by (simp add: advance_def)
qed (use assms(3,4) in \<open>auto simp: locked_def within_lockout_def remove_character_def clear_variables_def\<close>)

lemma engine_run_locked:
  "compiled_ok lib \<Longrightarrow> triggers_ok lib engine \<Longrightarrow> list_all (within_lockout key until) ops \<Longrightarrow> locked engine key i until
    \<Longrightarrow> locked (engine_run tools ops engine) key i until"
proof (induction ops arbitrary: engine)
  case (Cons op ops)
  have "triggers_ok lib (fst (engine_step tools op engine))" by (rule engine_step_ok [OF Cons.prems(1,2)])
  moreover have "locked (fst (engine_step tools op engine)) key i until"
    by (rule engine_step_locked [OF Cons.prems(1,2) _ Cons.prems(4)]) (use Cons.prems(3) in simp)
  ultimately show ?case using Cons.IH [OF Cons.prems(1)] Cons.prems(3) by (simp add: engine_run_def)
qed (simp add: engine_run_def)

lemma pass_lockout_locks:
  assumes "f64_positive (tg_lockout_seconds (ct_trigger (cl_triggers lib ! i)))" "pass_lockout lib i now 0 s = Some unlocked"
  shows "bm_get (cs_lockout_until unlocked) i = Some (u64_wrapping_add now (seconds_to_millis (tg_lockout_seconds (ct_trigger (cl_triggers lib ! i)))))"
  using assms by (auto simp: pass_lockout_def split: if_splits)


section \<open>Profiles\<close>


section \<open>Where the engine loses a firing\<close>

text \<open>
  The quick test before a regular expression takes the letters at its start as required
  text, but a quantifier may follow the last of them. \<^verbatim>\<open>heals? you\<close> matches a line with
  \<^verbatim>\<open>heal you\<close>, yet the trigger never fires on it: the test demands \<^verbatim>\<open>heals\<close>.
\<close>

theorem prefilter_hides_matches:
  assumes "compile_matcher tools (pattern_regex ''heals? you'') = Inr (MatchRegex regex constraints prefilter expanded needs_character)"
    and "tools_expand tools ''heals? you'' = (''heals? you'', constraints)"
    and "ct_matcher (cl_triggers lib ! index) = MatchRegex regex constraints prefilter expanded needs_character"
    and "snapshot_matches (tools_rx tools) regex ''Bob will heal you.'' = Inr (Some outcome)"
  shows "check_line tools lib index ''Bob will heal you.'' False s = (s, None)"
proof -
  have "prefilter = prefilter_for_pattern ''heals? you''"
    using assms(1,2) by (cases "compat_compile (tools_rx tools) ''heals? you''")
      (auto simp: compile_matcher_def Let_def pattern_regex_def contains_code_def CHARACTER_CODE_def contains_ignore_case_def
        starts_with_ignore_case_def eq_ignore_ascii_case_def to_ascii_lowercase_def byte_to_lower_def ascii_upper_def)
  moreover have "prefilter_for_pattern ''heals? you'' = Contains ''heals''" by code_simp
  moreover have "\<not> admits (Contains ''heals'') ''Bob will heal you.''" by code_simp
  ultimately show ?thesis by (simp add: check_line_def assms(3))
qed

section \<open>Sample runs\<close>

definition demo_tools :: "unit TriggerTools" where
  "demo_tools = \<lparr>tools_rx = \<lparr>rx_build = \<lambda>_. Inr (), rx_names = \<lambda>_. [None],
       rx_captures = \<lambda>_ _ start. if start = 0 then Inr (Some [Some (9, 17)]) else Inr None, rx_escape = \<lambda>t. t\<rparr>,
     tools_expand = \<lambda>p. (p, []),
     tools_uni = \<lparr>uni_upper = to_ascii_uppercase, uni_lower = to_ascii_lowercase, uni_alphabetic = \<lambda>_. False, uni_numeric = \<lambda>_. False\<rparr>\<rparr>"

definition demo_trigger :: "TriggerId \<Rightarrow> string \<Rightarrow> TimerBehavior \<Rightarrow> Trigger" where
  "demo_trigger i pattern behavior = (trigger_default i)\<lparr>tg_enabled := True, tg_name := pattern, tg_pattern := pattern_literal pattern,
     tg_timer := Some behavior\<rparr>"

definition demo_looping :: TimerBehavior where
  "demo_looping = behavior_default\<lparr>tb_kind := Looping, tb_times_to_loop := 1, tb_duration_seconds := f64_ratio False 1 200\<rparr>"

definition demo_library :: TriggerLibrary where
  "demo_library = library_new\<lparr>lib_triggers :=
     [(demo_trigger 1 ''root'' demo_looping)\<lparr>tg_lockout_seconds := f64_ratio False 1 500\<rparr>]\<rparr>"

definition demo_context :: CharacterContext where
  "demo_context = \<lparr>cx_key = ''a'', cx_character = ''Aria'', cx_server = ''s''\<rparr>"

definition demo_ops :: "EngineOp list" where
  "demo_ops = [OpLine demo_context ''root'' None 10, OpLine demo_context ''root'' None 13]"

definition demo_once :: "EngineOp list" where
  "demo_once = [OpLine demo_context ''root'' None 10]"

definition demo_trigger_run :: "EngineOp list \<Rightarrow> unit TriggerEngine" where
  "demo_trigger_run ops = engine_run demo_tools ops (trigger_engine_new (compile_library demo_tools demo_library))"

definition demo_char :: "unit TriggerEngine \<Rightarrow> unit CharState" where
  "demo_char engine = the (bm_get (te_characters engine) ''a'')"

lemma demo_char_there: "bm_get (te_characters engine) ''a'' \<noteq> None \<Longrightarrow> bm_get (te_characters engine) ''a'' = Some (demo_char engine)"
  by (auto simp: demo_char_def)

lemma demo_reached: "bm_get (te_characters (demo_trigger_run demo_ops)) ''a'' = Some (demo_char (demo_trigger_run demo_ops))"
  by (rule demo_char_there) code_simp

lemma demo_reached_once: "bm_get (te_characters (demo_trigger_run demo_once)) ''a'' = Some (demo_char (demo_trigger_run demo_once))"
  by (rule demo_char_there) code_simp


theorem lines_stay_with_their_character_witness:
  "list_all (\<lambda>event. ae_character event = ''a'') (ab_events (snd (process_line demo_tools demo_context ''tell'' None 20 (demo_trigger_run demo_ops))))"
  using lines_stay_with_their_character [of "demo_trigger_run demo_ops" demo_tools demo_ops demo_library demo_context "''tell''" None 20,
      OF demo_trigger_run_def surjective_pairing]
  by (simp add: demo_context_def list_all_iff)

theorem timer_changes_are_reported_witness:
  "\<exists>s'. bm_get (te_characters (fst (engine_step demo_tools (OpLine demo_context ''nothing'' None 14) (demo_trigger_run demo_once)))) ''a'' = Some s'
    \<and> map unwarned (cs_timers s') = map unwarned (cs_timers (demo_char (demo_trigger_run demo_once)))"
proof (rule timer_changes_are_reported [OF demo_trigger_run_def surjective_pairing _ _ demo_reached_once])
  show "\<not> ab_timers_changed (snd (engine_step demo_tools (OpLine demo_context ''nothing'' None 14) (demo_trigger_run demo_once)))"
    by code_simp
qed simp

theorem advance_settles_witness:
  "\<exists>s. bm_get (te_characters (fst (advance demo_tools [''a''] 15 (demo_trigger_run demo_once)))) ''a'' = Some s
    \<and> list_all (\<lambda>t. at_begin t = 15 \<and> at_loop_count t > 0 \<or> 15 < at_end t \<and> warning_due 15 t = False) (cs_timers s)"
proof -
  have there: "bm_get (te_characters (fst (advance demo_tools [''a''] 15 (demo_trigger_run demo_once)))) ''a'' \<noteq> None" by code_simp
  show ?thesis
    using demo_char_there [OF there] advance_settles [OF _ _ demo_char_there [OF there]] by (auto simp: list_all_iff)
qed

theorem timers_die_out_witness:
  "\<exists>s'. bm_get (te_characters (tick_all demo_tools [([''a''], 20), ([''a''], 30)] (demo_trigger_run demo_once))) ''a'' = Some s'
    \<and> cs_timers s' = []"
proof (rule timers_die_out [OF _ demo_reached_once])
  show "all_due demo_tools [([''a''], 20), ([''a''], 30)] ''a'' (demo_trigger_run demo_once)"
    by code_simp
  show "work (te_compiled (demo_trigger_run demo_once)) (cs_timers (demo_char (demo_trigger_run demo_once)))
      \<le> length [([''a''], 20 :: nat), ([''a''], 30)]"
    by code_simp
qed



theorem prefilter_hides_matches_witness:
  "check_line demo_tools (compile_library demo_tools (library_new\<lparr>lib_triggers :=
       [(demo_trigger 1 ''heals'' behavior_default)\<lparr>tg_pattern := pattern_regex ''heals? you''\<rparr>]\<rparr>)) 0 ''Bob will heal you.'' False
     (demo_char (demo_trigger_run demo_ops)) = (demo_char (demo_trigger_run demo_ops), None)"
proof (rule prefilter_hides_matches)
  show "compile_matcher demo_tools (pattern_regex ''heals? you'')
      = Inr (MatchRegex \<lparr>cr_regex = (), cr_group_names = [None]\<rparr> [] (Contains ''heals'') ''heals? you'' False)" by code_simp
  show "tools_expand demo_tools ''heals? you'' = (''heals? you'', [])" by code_simp
  show "ct_matcher (cl_triggers (compile_library demo_tools (library_new\<lparr>lib_triggers :=
       [(demo_trigger 1 ''heals'' behavior_default)\<lparr>tg_pattern := pattern_regex ''heals? you''\<rparr>]\<rparr>)) ! 0)
      = MatchRegex \<lparr>cr_regex = (), cr_group_names = [None]\<rparr> [] (Contains ''heals'') ''heals? you'' False" by code_simp
  show "snapshot_matches (tools_rx demo_tools) \<lparr>cr_regex = (), cr_group_names = [None]\<rparr> ''Bob will heal you.''
      = Inr (Some \<lparr>mo_captures = [], mo_spans = [(9, 17)]\<rparr>)" by code_simp
qed

text \<open>A trigger that ends its timer at the second repeat, under a timer name.\<close>

definition demo_repeating :: "string \<Rightarrow> TriggerLibrary" where
  "demo_repeating name = library_new\<lparr>lib_triggers :=
     [(demo_trigger 3 ''hit'' (behavior_default\<lparr>tb_timer_name := name, tb_duration_seconds := f64_ratio False 1 20,
         tb_restart_mode := RestartAll, tb_end_early_repeated_count := 2\<rparr>))
       \<lparr>tg_variable_actions := [action_default\<lparr>va_name := ''who'', va_value := ''Aria''\<rparr>]\<rparr>]\<rparr>"

definition demo_hits :: "string \<Rightarrow> unit TriggerEngine" where
  "demo_hits name = engine_run demo_tools [OpLine demo_context ''hit'' None 1, OpLine demo_context ''hit'' None 2]
     (trigger_engine_new (compile_library demo_tools (demo_repeating name)))"

text \<open>
  The repeat count ends a timer only under a name without stored variables. Firings are
  counted under the name before the variables are put in, but the end at a repeat count looks
  under the name after. Of two triggers that end their timer at the second repeat, the one
  whose timer name shows only the count ends it, and the one whose name also shows a variable
  runs on.
\<close>

theorem repeat_threshold_misses_variables:
  "map at_repeated_count (cs_timers (demo_char (demo_hits (CHR 0x7B # ''repeated'' @ [CHR 0x7D])))) = []
   \<and> map at_repeated_count (cs_timers (demo_char (demo_hits (CHR 0x7B # ''who'' @ CHR 0x7D # CHR 0x7B # ''repeated'' @ [CHR 0x7D])))) = [2]"
proof
  show "map at_repeated_count (cs_timers (demo_char (demo_hits (CHR 0x7B # ''repeated'' @ [CHR 0x7D])))) = []" by code_simp
  show "map at_repeated_count (cs_timers (demo_char (demo_hits (CHR 0x7B # ''who'' @ CHR 0x7D # CHR 0x7B # ''repeated'' @ [CHR 0x7D])))) = [2]"
    by code_simp
qed

end
