(* ===== verification/Eq_Text.thy ===== *)
theory Eq_Text
  imports Trushar_Control Stonemite_Hotkeys Rust_Float Eq_Events "HOL-Library.Monad_Syntax"
begin

text \<open>
  The text operations the log parsers of \<^verbatim>\<open>crates/eqlog/src/parsers\<close> are written with:
  searches for a literal, splitting at its first or last occurrence, stripping a suffix,
  words, and unsigned numbers. Strings are UTF-8 byte strings; the literals searched for are
  ASCII, so a byte position found is a character boundary, as Rust's slices need.
\<close>

section \<open>Searching for a literal\<close>

definition starts_with :: "string \<Rightarrow> string \<Rightarrow> bool" where
  "starts_with pattern s = (take (length pattern) s = pattern)"

definition ends_with :: "string \<Rightarrow> string \<Rightarrow> bool" where
  "ends_with pattern s = (length pattern \<le> length s \<and> drop (length s - length pattern) s = pattern)"

definition strip_suffix :: "string \<Rightarrow> string \<Rightarrow> string option" where
  "strip_suffix pattern s =
     (if ends_with pattern s then Some (take (length s - length pattern) s) else None)"

fun find_str :: "string \<Rightarrow> string \<Rightarrow> nat option" where
  "find_str pattern [] = (if pattern = [] then Some 0 else None)"
| "find_str pattern (c # cs) =
     (if starts_with pattern (c # cs) then Some 0 else map_option Suc (find_str pattern cs))"

fun rfind_str :: "string \<Rightarrow> string \<Rightarrow> nat option" where
  "rfind_str pattern [] = (if pattern = [] then Some 0 else None)"
| "rfind_str pattern (c # cs) =
     (case rfind_str pattern cs of
        Some i \<Rightarrow> Some (Suc i)
      | None \<Rightarrow> if starts_with pattern (c # cs) then Some 0 else None)"

definition contains_str :: "string \<Rightarrow> string \<Rightarrow> bool" where
  "contains_str pattern s = (find_str pattern s \<noteq> None)"

definition split_at_str :: "string \<Rightarrow> string \<Rightarrow> nat \<Rightarrow> string \<times> string" where
  "split_at_str pattern s i = (take i s, drop (i + length pattern) s)"

definition split_once_str :: "string \<Rightarrow> string \<Rightarrow> (string \<times> string) option" where
  "split_once_str pattern s = map_option (split_at_str pattern s) (find_str pattern s)"

definition rsplit_once_str :: "string \<Rightarrow> string \<Rightarrow> (string \<times> string) option" where
  "rsplit_once_str pattern s = map_option (split_at_str pattern s) (rfind_str pattern s)"

definition trim_end_matches :: "(char \<Rightarrow> bool) \<Rightarrow> string \<Rightarrow> string" where
  "trim_end_matches P s = rev (dropWhile P (rev s))"

lemma starts_with_iff: "starts_with pattern s \<longleftrightarrow> (\<exists>rest. s = pattern @ rest)"
  by (auto simp: starts_with_def) (metis append_take_drop_id)

lemma ends_with_iff: "ends_with pattern s \<longleftrightarrow> (\<exists>before. s = before @ pattern)"
  by (auto simp: ends_with_def) (metis append_take_drop_id)

lemma strip_prefix_Some: "strip_prefix pattern s = Some rest \<longleftrightarrow> s = pattern @ rest"
  unfolding strip_prefix_def by (auto, metis append_take_drop_id)

lemma strip_suffix_Some: "strip_suffix pattern s = Some before \<longleftrightarrow> s = before @ pattern"
  by (auto simp: strip_suffix_def ends_with_iff)

lemma find_str_Some: "find_str pattern s = Some i \<Longrightarrow> s = take i s @ pattern @ drop (i + length pattern) s \<and> i + length pattern \<le> length s"
proof (induction s arbitrary: i)
  case (Cons c cs)
  show ?case
  proof (cases "starts_with pattern (c # cs)")
    case True
    then have "i = 0" using Cons.prems by simp
    moreover obtain rest where "c # cs = pattern @ rest" using True by (auto simp: starts_with_iff)
    ultimately show ?thesis by simp
  next
    case False
    then obtain j where "find_str pattern cs = Some j" "i = Suc j" using Cons.prems by auto
    then show ?thesis using Cons.IH [of j] by simp
  qed
qed (auto split: if_splits)

lemma find_str_None: "find_str pattern s = None \<longleftrightarrow> \<not> (\<exists>a b. s = a @ pattern @ b)"
proof (induction s)
  case (Cons c cs)
  have "(\<exists>a b. c # cs = a @ pattern @ b) \<longleftrightarrow> starts_with pattern (c # cs) \<or> (\<exists>a b. cs = a @ pattern @ b)"
    by (auto simp: starts_with_iff) (metis append_eq_Cons_conv append_Cons append_Nil)+
  then show ?case using Cons.IH by simp
qed auto

lemma contains_str_iff: "contains_str pattern s \<longleftrightarrow> (\<exists>a b. s = a @ pattern @ b)"
  using find_str_None [of pattern s] by (simp add: contains_str_def)

lemma split_once_str_Some:
  assumes "split_once_str pattern s = Some (a, b)"
  shows "s = a @ pattern @ b"
  using assms find_str_Some [of pattern s] by (auto simp: split_once_str_def split_at_str_def)

lemma rfind_str_Some: "rfind_str pattern s = Some i \<Longrightarrow> s = take i s @ pattern @ drop (i + length pattern) s \<and> i + length pattern \<le> length s"
proof (induction s arbitrary: i)
  case (Cons c cs)
  show ?case
  proof (cases "rfind_str pattern cs")
    case None
    then obtain rest where "c # cs = pattern @ rest" "i = 0"
      using Cons.prems by (auto simp: starts_with_iff split: if_splits)
    then show ?thesis by simp
  next
    case (Some j)
    then show ?thesis using Cons.IH [of j] Cons.prems by auto
  qed
qed (auto split: if_splits)

lemma rsplit_once_str_Some:
  assumes "rsplit_once_str pattern s = Some (a, b)"
  shows "s = a @ pattern @ b"
  using assms rfind_str_Some [of pattern s] by (auto simp: rsplit_once_str_def split_at_str_def)

section \<open>Single bytes\<close>

definition rfind_byte :: "char \<Rightarrow> string \<Rightarrow> nat option" where
  "rfind_byte c s = map_option (\<lambda>i. length s - Suc i) (find_byte c (rev s))"

text \<open>The text strictly between two positions.\<close>

definition between :: "nat \<Rightarrow> nat \<Rightarrow> string \<Rightarrow> string" where
  "between open_at close_at s = take (close_at - Suc open_at) (drop (Suc open_at) s)"

section \<open>Words\<close>

text \<open>\<open>find(char::is_whitespace)\<close>, as the length of the text before it.\<close>

fun word_length :: "string \<Rightarrow> nat" where
  "word_length [] = 0"
| "word_length (c # cs) = (if 0 < leading_ws (c # cs) then 0 else Suc (word_length cs))"

definition find_whitespace :: "string \<Rightarrow> nat option" where
  "find_whitespace s = (let n = word_length s in if n < length s then Some n else None)"

lemma leading_ws_append_Nil: "leading_ws s = 0 \<Longrightarrow> s \<noteq> [] \<Longrightarrow> 0 < word_length s"
  by (cases s) auto

lemma trim_start_leading: "leading_ws (trim_start s) = 0"
  by (induction s rule: trim_start.induct) (metis trim_start.simps)

lemma length_trim_start: "length (trim_start s) \<le> length s"
proof (induction s rule: trim_start.induct)
  case (1 s)
  then show ?case by (cases "leading_ws s = 0") (simp_all add: trim_start.simps [of s])
qed

function split_whitespace :: "string \<Rightarrow> string list" where
  "split_whitespace s =
     (let rest = trim_start s
      in if rest = [] then []
         else take (word_length rest) rest # split_whitespace (drop (word_length rest) rest))"
  by pat_completeness auto
termination
proof (relation "measure length")
  fix s x assume "x = trim_start s" "x \<noteq> []"
  moreover from this have "0 < word_length x" by (simp add: leading_ws_append_Nil trim_start_leading)
  ultimately show "(drop (word_length x) x, s) \<in> measure length"
    using length_trim_start [of s] by (cases "length x") auto
qed simp

declare split_whitespace.simps [simp del]

section \<open>Numbers\<close>

text \<open>\<open>from_str\<close> of an unsigned integer: an optional plus sign, digits, and a value in range.\<close>

definition parse_unsigned :: "int \<Rightarrow> string \<Rightarrow> nat option" where
  "parse_unsigned greatest s =
     (let digits = (case s of c # rest \<Rightarrow> if c = CHR ''+'' then rest else s | [] \<Rightarrow> [])
      in if digits \<noteq> [] \<and> list_all ascii_digit digits \<and> digits_value digits \<le> greatest
         then Some (nat (digits_value digits)) else None)"

definition parse_u16 :: "string \<Rightarrow> nat option" where "parse_u16 = parse_unsigned 65535"
definition parse_u32_text :: "string \<Rightarrow> nat option" where "parse_u32_text = parse_unsigned 4294967295"
definition parse_u64 :: "string \<Rightarrow> nat option" where "parse_u64 = parse_unsigned 18446744073709551615"

lemma parse_unsigned_bound: "parse_unsigned greatest s = Some n \<Longrightarrow> 0 \<le> greatest \<Longrightarrow> int n \<le> greatest"
  by (auto simp: parse_unsigned_def Let_def split: if_splits)

lemma parse_u16_bound: "parse_u16 s = Some n \<Longrightarrow> n < 2 ^ 16"
  using parse_unsigned_bound [of 65535 s n] by (simp add: parse_u16_def)

lemma parse_u64_bound: "parse_u64 s = Some n \<Longrightarrow> n < 2 ^ 64"
  using parse_unsigned_bound [of 18446744073709551615 s n] by (simp add: parse_u64_def)

end
