(* ===== verification/Eq_Parsers.thy ===== *)
theory Eq_Parsers
  imports Eq_Text Ordered_Map
begin

text \<open>
  The log parsers of \<^verbatim>\<open>crates/eqlog/src/parsers\<close> other than the combat parser: casting,
  character, chat, consider, notifications, pets, progress, and identity with its \<open>/who\<close>
  block state per source. A parser that pushes events onto a vector is a function that gives
  the events it pushes; none of the built-in ones fails.
\<close>

section \<open>Names\<close>

definition valid_name_byte :: "char \<Rightarrow> bool" where
  "valid_name_byte c = (ascii_alphanumeric c \<or> c \<in> {CHR ''-'', CHR ''_''})"

definition valid_player_name :: "string \<Rightarrow> bool" where
  "valid_player_name name =
     (name \<noteq> [] \<and> list_all (\<lambda>segment. segment \<noteq> [] \<and> list_all valid_name_byte segment) (split_on (CHR ''.'') name))"

section \<open>Casting\<close>

definition CONCENTRATION_RECOVERED :: string where
  "CONCENTRATION_RECOVERED = ''You regain your concentration and continue your casting.''"

definition SONG_INTERRUPTED_MESSAGES :: "string list" where
  "SONG_INTERRUPTED_MESSAGES = [''Your song ends abruptly.'', ''You miss a note, bringing your song to a close!'']"

definition named_between :: "string \<Rightarrow> string \<Rightarrow> string \<Rightarrow> string option" where
  "named_between body prefix postfix =
     do { rest \<leftarrow> strip_prefix prefix body;
          inner \<leftarrow> strip_suffix postfix rest;
          let val = trim inner;
          if val = [] then None else Some val }"

definition parse_resist :: "string \<Rightarrow> string option" where
  "parse_resist body =
     (case named_between body ''Your target resisted the '' '' spell.'' of
        Some spell \<Rightarrow> Some spell
      | None \<Rightarrow>
          do { (_, rest) \<leftarrow> split_once_str '' resisted your '' body;
               inner \<leftarrow> strip_suffix ''!'' rest;
               let spell = trim inner;
               if spell = [] then None else Some spell })"

definition looks_quoted :: "string \<Rightarrow> bool" where
  "looks_quoted body =
     (contains_str ('' says, '' @ [CHR 0x27]) body \<or> contains_str ('' tells you, '' @ [CHR 0x27]) body
      \<or> contains_str ('' told you, '' @ [CHR 0x27]) body \<or> contains_str ('' shouts, '' @ [CHR 0x27]) body
      \<or> contains_str ('' auctions, '' @ [CHR 0x27]) body)"

definition casting_event :: "string \<Rightarrow> CastingEvent option" where
  "casting_event body =
     (case named_between body ''You begin casting '' ''.'' of
        Some spell \<Rightarrow> Some (CastStarted spell Spell)
      | None \<Rightarrow>
     (case named_between body ''You begin singing '' ''.'' of
        Some spell \<Rightarrow> Some (CastStarted spell Song)
      | None \<Rightarrow>
     (if body = ''Your spell fizzles!'' then Some (CastFizzled None) else
     (case named_between body ''Your '' '' spell fizzles!'' of
        Some spell \<Rightarrow> Some (CastFizzled (Some spell))
      | None \<Rightarrow>
     (if body = ''Your spell is interrupted.'' \<or> body \<in> set SONG_INTERRUPTED_MESSAGES then Some (CastInterrupted None) else
     (case named_between body ''Your '' '' spell is interrupted.'' of
        Some spell \<Rightarrow> Some (CastInterrupted (Some spell))
      | None \<Rightarrow>
     (if body = CONCENTRATION_RECOVERED then Some ConcentrationRecovered
      else map_option CastResisted (parse_resist body))))))))"

definition casting_parse :: "string \<Rightarrow> LogEvent list" where
  "casting_parse body =
     (if looks_quoted body then []
      else case casting_event body of None \<Rightarrow> [] | Some event \<Rightarrow> [CastingLog event])"

section \<open>Character\<close>

definition SLAIN_PREFIX :: string where "SLAIN_PREFIX = ''You have been slain by ''"
definition ZONE_ENTERED_PREFIX :: string where "ZONE_ENTERED_PREFIX = ''You have entered ''"

definition character_parse :: "string \<Rightarrow> LogEvent list" where
  "character_parse body =
     (if is_some_and (Option.bind (strip_prefix SLAIN_PREFIX body) (strip_suffix ''!'')) (\<lambda>killer. trim killer \<noteq> [])
      then [CharacterLog Died]
      else case Option.bind (strip_prefix ZONE_ENTERED_PREFIX body) (strip_suffix ''.'') of
             Some zone \<Rightarrow> if trim zone \<noteq> [] then [CharacterLog Revived, CombatLog (ZoneChanged (trim zone))] else []
           | None \<Rightarrow> [])"

section \<open>Chat\<close>

definition INCOMING_TELL_MARKER :: string where "INCOMING_TELL_MARKER = '' tells you, '' @ [CHR 0x27]"

definition parse_incoming_tell :: "string \<Rightarrow> ChatEvent option" where
  "parse_incoming_tell body =
     do { (sender, quoted_message) \<leftarrow> split_once_str INCOMING_TELL_MARKER body;
          message \<leftarrow> strip_suffix [CHR 0x27] quoted_message;
          if \<not> valid_player_name (trim sender) \<or> message = [] then None
          else Some (IncomingTell (trim sender) message) }"

definition chat_parse :: "string \<Rightarrow> LogEvent list" where
  "chat_parse body = (case parse_incoming_tell body of Some tell \<Rightarrow> [ChatLog tell] | None \<Rightarrow> [])"

section \<open>Consider\<close>

definition TARGET_STANDING_MARKERS :: "string list" where
  "TARGET_STANDING_MARKERS = ['' regards you '', '' scowls at you'', '' glares at you'', '' looks your way'',
     '' kindly considers you'', '' looks upon you'']"

definition consider_target :: "string \<Rightarrow> string option" where
  "consider_target standing =
     do { offset \<leftarrow> list_min (filter_map (\<lambda>marker. find_str marker standing) TARGET_STANDING_MARKERS);
          let target = trim (take offset standing);
          if target = [] then None else Some target }"

definition assessment_and_level :: "string \<Rightarrow> string \<times> nat option" where
  "assessment_and_level untrimmed =
     (let val = trim untrimmed
      in case rsplit_once_str '' (Lvl: '' val of
           None \<Rightarrow> (val, None)
         | Some (assessment, level) \<Rightarrow>
             (case Option.bind (strip_suffix '')'' level) parse_u16 of
                None \<Rightarrow> (val, None)
              | Some level \<Rightarrow> (trim_end assessment, Some level)))"

definition difficulty_for :: "string \<Rightarrow> ConsiderDifficulty option" where
  "difficulty_for assessment =
     (let normalized = to_ascii_lowercase (trim_end_matches (\<lambda>c. c = CHR ''.'') (trim assessment))
      in if contains_str ''reasonably safe opponent'' normalized then Some Green
         else if contains_str ''would have the upper hand'' normalized then Some LightBlue
         else if contains_str ''kind of risky'' normalized \<or> contains_str ''appears to be quite formidable'' normalized
         then Some Blue
         else if contains_str ''quite a gamble'' normalized then Some White
         else if contains_str ''wipe the floor with you'' normalized then Some Yellow
         else if contains_str ''tombstone'' normalized then Some Red
         else if starts_with ''looks '' normalized \<or> starts_with ''appears '' normalized then Some UnknownDifficulty
         else None)"

definition consider_parse :: "string \<Rightarrow> LogEvent list" where
  "consider_parse body =
     (if contains_str ('', '' @ [CHR 0x27]) body then []
      else if eq_ignore_ascii_case (trim body) ''Consider whom?'' then [ConsiderLog NoTarget]
      else case split_once_str '' -- '' body of
        None \<Rightarrow> []
      | Some (standing, rest) \<Rightarrow>
          (case consider_target standing of
             None \<Rightarrow> []
           | Some target \<Rightarrow>
               let (assessment, level) = assessment_and_level rest
               in case difficulty_for assessment of
                    None \<Rightarrow> []
                  | Some difficulty \<Rightarrow> [ConsiderLog (ConsiderTarget target difficulty level)]))"

section \<open>Notifications\<close>

definition GROUP_INVITE_SUFFIX :: string where "GROUP_INVITE_SUFFIX = '' invites you to join a group.''"
definition GROUP_JOINED :: string where "GROUP_JOINED = ''You have joined the group.''"
definition GROUP_DECLINE_PREFIX :: string where "GROUP_DECLINE_PREFIX = ''You cancel the invitation to join ''"
definition GROUP_DECLINE_SUFFIX :: string where "GROUP_DECLINE_SUFFIX = CHR 0x27 # ''s group.''"
definition RAID_INVITE_MARKER :: string where "RAID_INVITE_MARKER = '' invites you to join a raid.''"
definition TRADE_PROPOSAL_SUFFIX :: string where "TRADE_PROPOSAL_SUFFIX = '' is interested in making a trade.''"
definition TRADE_CANCELLED_SUFFIX :: string where "TRADE_CANCELLED_SUFFIX = '' has cancelled the trade.''"
definition TRADE_CANCELLED :: string where "TRADE_CANCELLED = ''The trade has been cancelled.''"
definition TRADE_CANCELLED_BY_YOU :: string where "TRADE_CANCELLED_BY_YOU = ''You have cancelled the trade.''"
definition RESURRECTION_OFFER :: string where "RESURRECTION_OFFER = ''You have been offered a resurrection.''"

definition named_notice :: "(string \<Rightarrow> NotificationEvent) \<Rightarrow> string \<Rightarrow> LogEvent list" where
  "named_notice event name = (if valid_player_name name then [NotificationLog (event name)] else [])"

definition notifications_parse :: "string \<Rightarrow> LogEvent list" where
  "notifications_parse body =
     (case strip_suffix GROUP_INVITE_SUFFIX body of
        Some inviter \<Rightarrow> named_notice GroupInvite inviter
      | None \<Rightarrow>
      if body = GROUP_JOINED then [NotificationLog GroupInviteAccepted] else
     (case Option.bind (strip_prefix GROUP_DECLINE_PREFIX body) (strip_suffix GROUP_DECLINE_SUFFIX) of
        Some inviter \<Rightarrow> named_notice GroupInviteDeclined inviter
      | None \<Rightarrow>
     (case split_once_str RAID_INVITE_MARKER body of
        Some (inviter, detail) \<Rightarrow>
          if detail = [] \<or> starts_with ''  '' detail then named_notice RaidInvite inviter else []
      | None \<Rightarrow>
     (case strip_suffix TRADE_PROPOSAL_SUFFIX body of
        Some trader \<Rightarrow> named_notice TradeProposed trader
      | None \<Rightarrow>
      if is_some_and (strip_suffix TRADE_CANCELLED_SUFFIX body) valid_player_name
         \<or> body \<in> {TRADE_CANCELLED, TRADE_CANCELLED_BY_YOU}
      then [NotificationLog TradeCancelled]
      else if body = RESURRECTION_OFFER then [NotificationLog ResurrectionOffered]
      else case Option.bind (strip_prefix SLAIN_PREFIX body) (strip_suffix ''!'') of
             Some killer \<Rightarrow> if trim killer \<noteq> [] then [NotificationLog (CharacterSlain killer)] else []
           | None \<Rightarrow> []))))"

section \<open>Pets\<close>

definition LEADER_MARKER :: string where "LEADER_MARKER = '' says, '' @ CHR 0x27 # ''My leader is ''"

definition pet_claim :: "string \<Rightarrow> (string \<times> string) option" where
  "pet_claim body =
     do { middle \<leftarrow> find_str LEADER_MARKER body;
          let pet = take middle body;
          if pet = [] \<or> CHR '' '' \<in> set pet then None
          else do { inner \<leftarrow> strip_suffix (CHR ''.'' # [CHR 0x27]) (drop (middle + length LEADER_MARKER) body);
                    let claimed = trim inner;
                    if claimed = [] \<or> CHR '' '' \<in> set claimed then None else Some (pet, claimed) } }"

definition pets_parse :: "string \<Rightarrow> LogEvent list" where
  "pets_parse body = (case pet_claim body of Some (pet, master) \<Rightarrow> [PetLog (OwnershipClaimed pet master)] | None \<Rightarrow> [])"

section \<open>Progress\<close>

definition LEVEL_GAINED :: string where "LEVEL_GAINED = ''You have gained a level!''"
definition LEVEL_RAISED :: string where "LEVEL_RAISED = ''You raise a level!''"
definition LEVEL_WELCOME_PREFIX :: string where "LEVEL_WELCOME_PREFIX = ''Welcome to level ''"
definition AA_POINT_GAINED :: string where "AA_POINT_GAINED = ''You have gained an ability point!''"
definition AA_POINT_TOTAL_PREFIX :: string where "AA_POINT_TOTAL_PREFIX = ''You now have ''"

definition parse_level_gain :: "string \<Rightarrow> nat option" where
  "parse_level_gain body =
     do { remainder \<leftarrow> opt_or (strip_prefix LEVEL_GAINED body) (strip_prefix LEVEL_RAISED body);
          level \<leftarrow> strip_prefix LEVEL_WELCOME_PREFIX (trim_start remainder);
          digits \<leftarrow> strip_suffix ''!'' level;
          parse_u16 digits }"

definition is_aa_point_gain :: "string \<Rightarrow> bool" where
  "is_aa_point_gain body =
     (case strip_prefix AA_POINT_GAINED body of
        None \<Rightarrow> False
      | Some rest \<Rightarrow>
          let remainder = trim_start rest
          in if remainder = [] then True
             else case strip_prefix AA_POINT_TOTAL_PREFIX remainder of
                    None \<Rightarrow> False
                  | Some tally \<Rightarrow>
                      is_some_and (opt_or (strip_suffix '' ability point.'' tally) (strip_suffix '' ability points.'' tally))
                        (\<lambda>points. parse_u32_text points \<noteq> None))"

definition progress_parse :: "string \<Rightarrow> LogEvent list" where
  "progress_parse body =
     (case parse_level_gain body of
        Some level \<Rightarrow> [ProgressLog (LevelGained level)]
      | None \<Rightarrow> if is_aa_point_gain body then [ProgressLog AlternateAdvancementPointGained] else [])"

section \<open>Identity\<close>

definition class_codes :: "(string \<times> string) list" where
  "class_codes = [(''bard'', ''BRD''), (''beastlord'', ''BST''), (''berserker'', ''BER''), (''cleric'', ''CLR''),
     (''druid'', ''DRU''), (''enchanter'', ''ENC''), (''magician'', ''MAG''), (''monk'', ''MNK''),
     (''necromancer'', ''NEC''), (''paladin'', ''PAL''), (''ranger'', ''RNG''), (''rogue'', ''ROG''),
     (''shadow knight'', ''SHK''), (''shaman'', ''SHM''), (''warrior'', ''WAR''), (''wizard'', ''WIZ'')]"

definition class_abbreviation :: "string \<Rightarrow> string option" where
  "class_abbreviation name = map_of class_codes (to_ascii_lowercase name)"

definition parse_persona_loaded :: "string \<Rightarrow> PersonaLoaded option" where
  "parse_persona_loaded body =
     do { rest \<leftarrow> strip_prefix ''You successfully loaded your '' body;
          payload \<leftarrow> strip_suffix '' set.'' rest;
          (class_name, _) \<leftarrow> rsplit_once (CHR '' '') payload;
          abbreviation \<leftarrow> class_abbreviation (trim class_name);
          Some \<lparr>pl_class_name = trim class_name, pl_class_abbreviation = abbreviation\<rparr> }"

definition parse_bracket :: "string \<Rightarrow> nat option \<times> string option \<times> string option" where
  "parse_bracket bracket =
     (case find_byte (CHR '' '') bracket of
        None \<Rightarrow> (None, None, None)
      | Some index \<Rightarrow>
          let level = parse_u16 (take index bracket);
              rest = trim_start (drop (Suc index) bracket);
              plain = (if rest = [] then (level, None, None) else (level, None, Some rest))
          in case (rfind_byte (CHR ''('') rest, rfind_byte (CHR '')'') rest) of
               (Some open_at, Some close_at) \<Rightarrow>
                 if close_at > open_at + 1
                 then let title = trim (take open_at rest)
                      in (level, if title = [] then None else Some title, Some (between open_at close_at rest))
                 else plain
             | _ \<Rightarrow> plain)"

definition between_bytes :: "nat option \<Rightarrow> nat option \<Rightarrow> string \<Rightarrow> string option" where
  "between_bytes open_at close_at s =
     (case (open_at, close_at) of
        (Some i, Some j) \<Rightarrow> if j > i + 1 then Some (between i j s) else None
      | _ \<Rightarrow> None)"

definition parse_parens :: "string \<Rightarrow> nat \<Rightarrow> string option" where
  "parse_parens val skip =
     (if length val < skip then None
      else let rest = drop skip val
           in between_bytes (find_byte (CHR ''('') rest) (find_byte (CHR '')'') rest) rest)"

definition parse_guild :: "string \<Rightarrow> string option" where
  "parse_guild val = between_bytes (find_byte (CHR ''<'') val) (find_byte (CHR ''>'') val) val"

definition parse_zone_name :: "string \<Rightarrow> string option" where
  "parse_zone_name val =
     do { index \<leftarrow> find_str ''ZONE: '' val;
          let rest = drop (index + 6) val;
          let name = trim (take (unwrap_or (rfind_byte (CHR ''('') rest) (length rest)) rest);
          if name = [] then None else Some name }"

definition parse_zone_short :: "string \<Rightarrow> string option" where
  "parse_zone_short val =
     do { index \<leftarrow> find_str ''ZONE: '' val;
          let rest = drop index val;
          between_bytes (rfind_byte (CHR ''('') rest) (rfind_byte (CHR '')'') rest) rest }"

text \<open>One line of a \<open>/who\<close> listing, already turned into the event's record.\<close>

definition who_entry :: "string \<Rightarrow> WhoResult option" where
  "who_entry body =
     do { open_at \<leftarrow> find_byte (CHR ''['') body;
          close_at \<leftarrow> find_byte (CHR '']'') body;
          if close_at \<le> open_at then None
          else do {
            let bracket = between open_at close_at body;
            let after_bracket = drop (Suc close_at) body;
            let after_trimmed = trim_start after_bracket;
            character \<leftarrow> (case split_whitespace after_trimmed of [] \<Rightarrow> None | w # _ \<Rightarrow> Some w);
            if character = [] then None
            else do {
              let anonymous = (bracket = ''ANONYMOUS'');
              let (level, title, class_name) = (if anonymous then (None, None, None) else parse_bracket bracket);
              Some \<lparr>who_character = character, who_level = level, who_title = title, who_class_name = class_name,
                who_class_abbreviation = Option.bind class_name class_abbreviation,
                who_race = parse_parens after_trimmed (length character), who_guild = parse_guild after_trimmed,
                who_zone = parse_zone_name after_trimmed, who_zone_short = parse_zone_short after_trimmed,
                who_is_anonymous = anonymous, who_is_afk = contains_str ''AFK'' (take open_at body),
                who_is_lfg = ends_with ''LFG'' (trim_end after_bracket)\<rparr> } } }"

datatype WhoParseState = Idle | InBlock

text \<open>The hash map from sources to their state, ordered by the three parts of a source.\<close>

type_synonym SourceKey = "string \<times> string \<times> string"
type_synonym IdentityParser = "(SourceKey, WhoParseState) btree_map"

definition source_key :: "LogSource \<Rightarrow> SourceKey" where
  "source_key source = (ls_id source, ls_character source, ls_server source)"

definition who_state :: "IdentityParser \<Rightarrow> LogSource \<Rightarrow> WhoParseState" where
  "who_state states source = unwrap_or (bm_get states (source_key source)) Idle"

definition who_header :: "string \<Rightarrow> bool" where
  "who_header body = contains_str ''Players in EverQuest:'' body"

definition who_footer :: "string \<Rightarrow> bool" where
  "who_footer body =
     ((contains_str ''There is'' body \<or> contains_str ''There are'' body) \<and> contains_str ''player'' body
      \<or> contains_str ''who request was cut short'' body)"

definition identity_parse :: "RawLogLine \<Rightarrow> IdentityParser \<Rightarrow> LogEvent list \<times> IdentityParser" where
  "identity_parse line states =
     (let body = raw_body line; key = source_key (raw_source line)
      in if starts_with ''OFFLINE MODE'' body then ([], states)
         else case parse_persona_loaded body of
           Some persona \<Rightarrow> ([IdentityLog (PersonaLoadedEvent persona)], states)
         | None \<Rightarrow>
             (case who_state states (raw_source line) of
                Idle \<Rightarrow> ([], bm_insert key (if who_header body then InBlock else Idle) states)
              | InBlock \<Rightarrow>
                  if who_footer body then ([], bm_insert key Idle states)
                  else (case who_entry body of
                          Some entry \<Rightarrow> [IdentityLog (WhoResultEvent entry)]
                        | None \<Rightarrow> [], states)))"

definition identity_reset_source :: "LogSource \<Rightarrow> IdentityParser \<Rightarrow> IdentityParser" where
  "identity_reset_source source states = bm_remove (source_key source) states"

end
