(* ===== verification/Eq_Combat_Parser.thy ===== *)
theory Eq_Combat_Parser
  imports Eq_Parsers
begin

text \<open>
  The combat parser (\<^verbatim>\<open>crates/eqlog/src/parsers/combat.rs\<close>): damage in its four forms,
  attempts, taunts, slain targets and blocked attacks, in the order the code tries them.
\<close>

section \<open>Amounts, modifiers and participants\<close>

definition parse_amount :: "string \<Rightarrow> nat option" where
  "parse_amount val =
     (if val = [] then None
      else if CHR '','' \<in> set val
      then (case split_on (CHR '','') val of
              [] \<Rightarrow> None
            | leading # groups \<Rightarrow>
                if leading = [] \<or> length leading > 3 \<or> \<not> list_all ascii_digit leading then None
                else if \<not> list_all (\<lambda>group. length group = 3 \<and> list_all ascii_digit group) groups then None
                else parse_u64 (filter (\<lambda>c. c \<noteq> CHR '','') val))
      else if \<not> list_all ascii_digit val then None
      else parse_u64 (filter (\<lambda>c. c \<noteq> CHR '','') val))"

definition trim_period_and_modifiers :: "string \<Rightarrow> string" where
  "trim_period_and_modifiers val =
     trim (trim_end_matches (\<lambda>c. c = CHR ''.'')
       (case split_once_str ''. ('' val of None \<Rightarrow> val | Some (before, _) \<Rightarrow> before))"

definition trim_spell_suffix :: "string \<Rightarrow> string" where
  "trim_spell_suffix val =
     trim (unwrap_or (strip_suffix '' spell'' (trim_period_and_modifiers val)) (trim_period_and_modifiers val))"

definition parse_modifiers :: "string \<Rightarrow> DamageModifiers" where
  "parse_modifiers body = \<lparr>mod_critical = contains_str ''Critical'' body, mod_lucky = contains_str ''Lucky'' body,
     mod_strikethrough = contains_str ''Strikethrough'' body, mod_wild_rampage = contains_str ''Wild Rampage'' body,
     mod_twincast = contains_str ''Twincast'' body\<rparr>"

definition combat_looks_quoted :: "string \<Rightarrow> bool" where
  "combat_looks_quoted body =
     (contains_str ('' says, '' @ [CHR 0x27]) body \<or> contains_str ('' tells you, '' @ [CHR 0x27]) body
      \<or> contains_str ('' told you, '' @ [CHR 0x27]) body \<or> contains_str ('' shouts, '' @ [CHR 0x27]) body
      \<or> contains_str ('' auctions, '' @ [CHR 0x27]) body)"

definition parse_points_of_damage :: "string \<Rightarrow> nat option" where
  "parse_points_of_damage val =
     do { (amount, rest) \<leftarrow> split_once (CHR '' '') (trim_period_and_modifiers val);
          if rest \<noteq> ''point of damage'' \<and> rest \<noteq> ''points of damage'' then None
          else parse_amount amount }"

definition perspective_of :: "string \<Rightarrow> Perspective" where
  "perspective_of val =
     (if eq_ignore_ascii_case val ''you'' then You
      else if eq_ignore_ascii_case val ''your'' then Your
      else if eq_ignore_ascii_case val ''yourself'' then Yourself
      else Named)"

definition observed :: "string \<Rightarrow> ObservedCombatant option" where
  "observed untrimmed =
     (let val = trim_end_matches (\<lambda>c. c \<in> {CHR ''.'', CHR ''!'', CHR '',''}) (trim untrimmed)
      in if val = [] \<or> contains_str replacement_character val then None
         else Some \<lparr>oc_name = val, oc_perspective = perspective_of val\<rparr>)"

definition pet_markers :: "string list" where
  "pet_markers = [CHR 0x60 # ''s pet'', CHR 0x27 # ''s pet'']"

text \<open>The outer option of \<open>observed_with_owner\<close>; the owner inside it may fail on its own.\<close>

definition observed_with_owner :: "string \<Rightarrow> (ObservedCombatant \<times> ObservedCombatant option) option" where
  "observed_with_owner untrimmed =
     (let val = trim untrimmed
      in case Option.bind (strip_suffix '')'' val) (rsplit_once_str '' (Owner: '') of
           Some (pet, master) \<Rightarrow> map_option (\<lambda>pet. (pet, observed master)) (observed pet)
         | None \<Rightarrow>
             (case filter_map (\<lambda>marker. strip_suffix marker val) pet_markers of
                master # _ \<Rightarrow> map_option (\<lambda>pet. (pet, observed master)) (observed val)
              | [] \<Rightarrow> map_option (\<lambda>attacker. (attacker, None)) (observed val)))"

section \<open>Melee actions\<close>

definition MELEE_VERBS :: "string list" where
  "MELEE_VERBS = [''backstab'', ''backstabs'', ''bash'', ''bashes'', ''bite'', ''bites'', ''claw'', ''claws'',
     ''crush'', ''crushes'', ''frenzy'', ''frenzies'', ''gore'', ''gores'', ''hit'', ''hits'', ''kick'', ''kicks'',
     ''maul'', ''mauls'', ''pierce'', ''pierces'', ''punch'', ''punches'', ''shoot'', ''shoots'', ''slash'', ''slashes'',
     ''smash'', ''smashes'', ''strike'', ''strikes'']"

definition melee_verb_forms :: "(string \<times> string) list" where
  "melee_verb_forms = [(''backstabs'', ''backstab''), (''bashes'', ''bash''), (''bites'', ''bite''), (''claws'', ''claw''),
     (''crushes'', ''crush''), (''frenzies'', ''frenzy''), (''gores'', ''gore''), (''hits'', ''hit''), (''kicks'', ''kick''),
     (''mauls'', ''maul''), (''pierces'', ''pierce''), (''punches'', ''punch''), (''shoots'', ''shoot''), (''slashes'', ''slash''),
     (''smashes'', ''smash''), (''strikes'', ''strike''), (''backstab'', ''backstab''), (''bash'', ''bash''), (''bite'', ''bite''),
     (''claw'', ''claw''), (''crush'', ''crush''), (''frenzy'', ''frenzy''), (''gore'', ''gore''), (''hit'', ''hit''),
     (''kick'', ''kick''), (''maul'', ''maul''), (''pierce'', ''pierce''), (''punch'', ''punch''), (''shoot'', ''shoot''),
     (''slash'', ''slash''), (''smash'', ''smash''), (''strike'', ''strike'')]"

definition normalize_melee_verb :: "string \<Rightarrow> string" where
  "normalize_melee_verb verb = unwrap_or (map_of melee_verb_forms verb) ''melee''"

text \<open>The byte offset at which the word of an index starts; \<open>seen\<close> counts the words begun.\<close>

function word_start_from :: "nat \<Rightarrow> bool \<Rightarrow> nat \<Rightarrow> nat \<Rightarrow> string \<Rightarrow> nat option" where
  "word_start_from index in_word seen offset s =
     (if s = [] then None
      else if 0 < leading_ws s
      then word_start_from index False seen (offset + leading_ws s) (drop (leading_ws s) s)
      else if \<not> in_word
      then (if seen = index then Some offset
            else word_start_from index True (Suc seen) (Suc offset) (tl s))
      else word_start_from index in_word seen (Suc offset) (tl s))"
  by pat_completeness auto
termination
  by (relation "measure (\<lambda>(index, in_word, seen, offset, s). length s)") auto

declare word_start_from.simps [simp del]

definition nth_word_start :: "string \<Rightarrow> nat \<Rightarrow> nat option" where
  "nth_word_start val index = word_start_from index False 0 0 val"

definition nth_word_end :: "string \<Rightarrow> nat \<Rightarrow> nat option" where
  "nth_word_end val index_after =
     (if index_after = 0 then Some 0
      else map_option (\<lambda>start. start + word_length (drop start val)) (nth_word_start val (index_after - 1)))"

fun find_position :: "('a \<Rightarrow> bool) \<Rightarrow> 'a list \<Rightarrow> nat option" where
  "find_position P [] = None"
| "find_position P (x # xs) = (if P x then Some 0 else map_option Suc (find_position P xs))"

definition split_melee_action :: "string \<Rightarrow> (string \<times> string \<times> string) option" where
  "split_melee_action action =
     do { let words = split_whitespace action;
          verb_index \<leftarrow> find_position (\<lambda>word. word \<in> set MELEE_VERBS) words;
          if verb_index = 0 \<or> verb_index + 1 \<ge> length words then None
          else do {
            verb_start \<leftarrow> nth_word_start action verb_index;
            verb_end \<leftarrow> nth_word_end action (verb_index + 1);
            let attacker = trim (take verb_start action);
            let verb = trim (take (verb_end - verb_start) (drop verb_start action));
            let rest = trim (drop verb_end action);
            let defender = (if verb = ''frenzy'' \<or> verb = ''frenzies'' then unwrap_or (strip_prefix ''on '' rest) rest else rest);
            if attacker \<noteq> [] \<and> defender \<noteq> [] then Some (attacker, verb, defender) else None } }"

section \<open>Damage\<close>

definition parse_melee_damage :: "string \<Rightarrow> DamageObservation option" where
  "parse_melee_damage body =
     do { (action, damage_text) \<leftarrow> rsplit_once_str '' for '' body;
          amount \<leftarrow> parse_points_of_damage damage_text;
          (attacker_text, verb, defender_text) \<leftarrow> split_melee_action action;
          (attacker, explicit_owner) \<leftarrow> observed_with_owner attacker_text;
          defender \<leftarrow> observed defender_text;
          Some \<lparr>dmg_attacker = attacker, dmg_explicit_owner = explicit_owner, dmg_defender = defender,
            dmg_amount = amount, dmg_kind = (if explicit_owner \<noteq> None then Pet else Melee),
            dmg_ability = Some (normalize_melee_verb verb), dmg_outcome = Hit,
            dmg_modifiers = parse_modifiers body, dmg_provenance = ByMelee\<rparr> }"

definition parse_direct_spell_damage :: "string \<Rightarrow> DamageObservation option" where
  "parse_direct_spell_damage body =
     do { (action, damage_text) \<leftarrow> rsplit_once_str '' for '' body;
          (amount_text, tail) \<leftarrow> split_once_str '' point'' damage_text;
          amount \<leftarrow> parse_amount amount_text;
          tail \<leftarrow> opt_or (strip_prefix ''s of '' tail) (strip_prefix '' of '' tail);
          (_, ability_text) \<leftarrow> split_once_str '' damage by '' tail;
          let ability = trim_period_and_modifiers ability_text;
          if ability = [] then None
          else do {
            (attacker_text, defender_text) \<leftarrow> opt_or (split_once_str '' hits '' action) (split_once_str '' hit '' action);
            (attacker, explicit_owner) \<leftarrow> observed_with_owner attacker_text;
            defender \<leftarrow> observed defender_text;
            Some \<lparr>dmg_attacker = attacker, dmg_explicit_owner = explicit_owner, dmg_defender = defender,
              dmg_amount = amount, dmg_kind = (if explicit_owner \<noteq> None then Pet else DirectSpell),
              dmg_ability = Some ability, dmg_outcome = Hit,
              dmg_modifiers = parse_modifiers body, dmg_provenance = ByDirectSpell\<rparr> } }"

definition shield_source :: "string \<Rightarrow> (string \<times> string) option" where
  "shield_source source =
     (case strip_prefix ''YOUR '' source of
        Some ability \<Rightarrow> Some (''Your'', ability)
      | None \<Rightarrow> opt_or (split_once_str (CHR 0x27 # ''s '') source) (split_once_str (CHR 0x60 # ''s '') source))"

definition parse_damage_shield :: "string \<Rightarrow> DamageObservation option" where
  "parse_damage_shield body =
     do { (action, damage_text) \<leftarrow> rsplit_once_str '' for '' body;
          (amount_digits, rest) \<leftarrow> split_once (CHR '' '') (trim_period_and_modifiers damage_text);
          if rest \<noteq> ''point of non-melee damage'' \<and> rest \<noteq> ''points of non-melee damage'' then None
          else do {
            amount \<leftarrow> parse_amount amount_digits;
            (defender_text, cause) \<leftarrow> split_once_str '' is '' action;
            (_, source) \<leftarrow> split_once_str '' by '' cause;
            (attacker_text, ability) \<leftarrow> shield_source source;
            (attacker, explicit_owner) \<leftarrow> observed_with_owner attacker_text;
            defender \<leftarrow> observed defender_text;
            Some \<lparr>dmg_attacker = attacker, dmg_explicit_owner = explicit_owner, dmg_defender = defender,
              dmg_amount = amount, dmg_kind = DamageShield, dmg_ability = Some ability, dmg_outcome = Hit,
              dmg_modifiers = parse_modifiers body, dmg_provenance = ByNonMelee\<rparr> } }"

definition strip_points_non_melee_prefix :: "string \<Rightarrow> string option" where
  "strip_points_non_melee_prefix val =
     do { tail \<leftarrow> opt_or (strip_prefix ''points of '' val) (strip_prefix ''point of '' val);
          opt_or (strip_prefix ''non-melee damage from '' tail) (strip_prefix ''damage from '' tail) }"

definition periodic_source :: "string \<Rightarrow> (string \<times> string) option" where
  "periodic_source source =
     (case strip_prefix ''your '' source of
        Some own \<Rightarrow> Some (trim_spell_suffix own, ''Your'')
      | None \<Rightarrow> map_option (\<lambda>(ability, attacker). (trim_spell_suffix ability, trim_spell_suffix attacker))
                  (rsplit_once_str '' by '' source))"

definition parse_periodic_damage :: "string \<Rightarrow> DamageObservation option" where
  "parse_periodic_damage body =
     do { (defender_text, extra) \<leftarrow> opt_or (split_once_str '' has taken '' body) (split_once_str '' have taken '' body);
          let bane = starts_with ''an extra '' extra;
          let remainder = unwrap_or (strip_prefix ''an extra '' extra) extra;
          amount_end \<leftarrow> find_whitespace remainder;
          amount \<leftarrow> parse_amount (take amount_end remainder);
          let after_amount = trim_start (drop amount_end remainder);
          source_text \<leftarrow> opt_or (strip_prefix ''damage from '' after_amount) (strip_points_non_melee_prefix after_amount);
          (ability, attacker_text) \<leftarrow> periodic_source (trim_period_and_modifiers source_text);
          if ability = [] \<or> attacker_text = [] then None
          else do {
            (attacker, explicit_owner) \<leftarrow> observed_with_owner attacker_text;
            defender \<leftarrow> observed defender_text;
            Some \<lparr>dmg_attacker = attacker, dmg_explicit_owner = explicit_owner, dmg_defender = defender,
              dmg_amount = amount,
              dmg_kind = (if explicit_owner \<noteq> None then Pet else if bane then Bane else DamageOverTime),
              dmg_ability = Some ability, dmg_outcome = Hit,
              dmg_modifiers = parse_modifiers body, dmg_provenance = ByPeriodicSpell\<rparr> } }"

definition parse_damage :: "string \<Rightarrow> DamageObservation option" where
  "parse_damage body =
     opt_or (parse_melee_damage body) (opt_or (parse_direct_spell_damage body)
       (opt_or (parse_damage_shield body) (parse_periodic_damage body)))"

section \<open>Attempts\<close>

definition parse_rejected_damage_attempt :: "string \<Rightarrow> CombatAttempt option" where
  "parse_rejected_damage_attempt body =
     do { (action, damage) \<leftarrow> rsplit_once_str '' for '' body;
          let damage_text = trim_period_and_modifiers damage;
          if \<not> (ends_with ''point of damage'' damage_text \<or> ends_with ''points of damage'' damage_text)
             \<or> parse_points_of_damage damage_text \<noteq> None then None
          else do {
            (attacker_text, verb, defender_text) \<leftarrow> split_melee_action action;
            (attacker, _) \<leftarrow> observed_with_owner attacker_text;
            defender \<leftarrow> observed defender_text;
            Some \<lparr>att_attacker = attacker, att_defender = defender, att_outcome = Rejected, att_kind = Melee,
              att_ability = Some (normalize_melee_verb verb), att_provenance = ByCombatAttempt\<rparr> } }"

definition attempt_outcome :: "string \<Rightarrow> DamageOutcome option" where
  "attempt_outcome result_lower =
     (if contains_str ''invulnerable'' result_lower then Some Invulnerable
      else if contains_str ''dodge'' result_lower then Some Dodge
      else if contains_str ''parr'' result_lower then Some Parry
      else if contains_str ''block'' result_lower then Some Block
      else if contains_str ''riposte'' result_lower then Some Riposte
      else if contains_str ''absorb'' result_lower then Some Absorbed
      else if contains_str ''miss'' result_lower then Some Miss
      else None)"

definition parse_attempt :: "string \<Rightarrow> CombatAttempt option" where
  "parse_attempt body =
     do { (attacker_text, remainder) \<leftarrow> opt_or (split_once_str '' tries to '' body) (split_once_str '' try to '' body);
          (action, result) \<leftarrow> split_once_str '', but '' remainder;
          (verb, defender_text) \<leftarrow> split_once (CHR '' '') action;
          if verb \<notin> set MELEE_VERBS \<or> trim defender_text = [] then None
          else do {
            outcome \<leftarrow> attempt_outcome (to_ascii_lowercase result);
            (attacker, _) \<leftarrow> observed_with_owner attacker_text;
            defender \<leftarrow> observed defender_text;
            Some \<lparr>att_attacker = attacker, att_defender = defender, att_outcome = outcome, att_kind = Melee,
              att_ability = Some (normalize_melee_verb verb), att_provenance = ByCombatAttempt\<rparr> } }"

definition taunt_attempt :: "ObservedCombatant \<Rightarrow> ObservedCombatant \<Rightarrow> string \<Rightarrow> CombatAttempt" where
  "taunt_attempt attacker defender ability =
     \<lparr>att_attacker = attacker, att_defender = defender, att_outcome = Rejected, att_kind = OtherIncluded,
      att_ability = Some ability, att_provenance = ByCombatAttempt\<rparr>"

definition parse_taunt :: "string \<Rightarrow> CombatAttempt option" where
  "parse_taunt body =
     (case Option.bind (strip_prefix ''You capture '' body) (strip_suffix (CHR 0x27 # ''s attention!'')) of
        Some target \<Rightarrow> map_option (\<lambda>defender. taunt_attempt observed_you defender ''taunt'') (observed target)
      | None \<Rightarrow>
          do { rest \<leftarrow> strip_suffix '' due to an improved taunt.'' body;
               (target, participant) \<leftarrow> split_once_str '' is focused on attacking '' rest;
               attacker \<leftarrow> observed target;
               defender \<leftarrow> observed participant;
               Some (taunt_attempt attacker defender ''improved taunt'') })"

section \<open>Slain targets and the whole parser\<close>

definition parse_slain :: "string \<Rightarrow> TargetSlainObservation option" where
  "parse_slain body =
     (case Option.bind (strip_prefix ''You have slain '' body) (strip_suffix ''!'') of
        Some target \<Rightarrow>
          map_option (\<lambda>target. \<lparr>slain_target = target, slain_killer = Some observed_you\<rparr>) (observed target)
      | None \<Rightarrow>
     (case opt_or (Option.bind (strip_suffix ''!'' body) (split_once_str '' was slain by ''))
                  (Option.bind (strip_suffix ''!'' body) (split_once_str '' has been slain by '')) of
        Some (target, killer) \<Rightarrow>
          map_option (\<lambda>target. \<lparr>slain_target = target, slain_killer = observed killer\<rparr>) (observed target)
      | None \<Rightarrow>
          map_option (\<lambda>target. \<lparr>slain_target = target, slain_killer = None\<rparr>)
            (Option.bind (strip_suffix '' died.'' body) observed)))"

definition OUT_OF_RANGE_MESSAGES :: "string list" where
  "OUT_OF_RANGE_MESSAGES = [''Your target is out of range, get closer!'', ''Your target is too far away, get closer!'',
     ''Your target is too far away.'', ''You are too far away to attack that target.'']"

definition TOO_CLOSE_MESSAGES :: "string list" where
  "TOO_CLOSE_MESSAGES = [''Your target is too close to use a ranged weapon!'',
     ''You are too close to your target. Get farther away.'']"

definition LINE_OF_SIGHT_MESSAGES :: "string list" where
  "LINE_OF_SIGHT_MESSAGES = [''You cannot see your target.'', ''You can'' @ CHR 0x27 # ''t hit them from here.'']"

definition attack_blocked :: "string \<Rightarrow> AttackProblem option" where
  "attack_blocked body =
     (if body \<in> set OUT_OF_RANGE_MESSAGES then Some OutOfRange
      else if body \<in> set TOO_CLOSE_MESSAGES then Some TooClose
      else if body \<in> set LINE_OF_SIGHT_MESSAGES then Some LineOfSight
      else None)"

definition damage_events :: "DamageObservation \<Rightarrow> CombatEvent list" where
  "damage_events damage =
     (if oc_perspective (dmg_attacker damage) = You then [WeaponDamageDealt] else [])
     @ (if oc_perspective (dmg_defender damage) = You then [DamageTaken] else [])
     @ [Damage damage]"

definition combat_events :: "string \<Rightarrow> CombatEvent list" where
  "combat_events body =
     (if combat_looks_quoted body then []
      else case parse_damage body of
        Some damage \<Rightarrow> damage_events damage
      | None \<Rightarrow>
     (case opt_or (parse_rejected_damage_attempt body) (opt_or (parse_attempt body) (parse_taunt body)) of
        Some attempt \<Rightarrow> [Attempt attempt]
      | None \<Rightarrow>
     (case parse_slain body of
        Some slain \<Rightarrow> [TargetSlain slain]
      | None \<Rightarrow>
     (case attack_blocked body of
        Some problem \<Rightarrow> [AttackBlocked problem]
      | None \<Rightarrow> []))))"

definition combat_parse :: "string \<Rightarrow> LogEvent list" where
  "combat_parse body = map CombatLog (combat_events body)"

end
