(* ===== verification/Eq_Registry.thy ===== *)
theory Eq_Registry
  imports Eq_Combat_Parser
begin

text \<open>
  The parser registry (\<^verbatim>\<open>crates/eqlog/src/parsers/mod.rs\<close>) and the telemetry reducer
  (\<^verbatim>\<open>crates/eqlog/src/telemetry.rs\<close>).

  The trait objects of the registry are the built-in parsers, a datatype whose only stateful
  member carries its state. The locale \<open>source_local\<close> is the contract of a parser towards the
  log sources: what a line gives depends on the state of its own source, and only that state
  changes. It is interpreted on the identity parser and on the registry.
\<close>

section \<open>The registry\<close>

datatype DomainParser = CastingParser | CharacterParser | ChatParser | CombatParser | ConsiderParser
  | IdentityParser IdentityParser | NotificationParser | PetParser | ProgressParser

fun parser_name :: "DomainParser \<Rightarrow> string" where
  "parser_name CastingParser = ''casting''"
| "parser_name CharacterParser = ''character''"
| "parser_name ChatParser = ''chat''"
| "parser_name CombatParser = ''combat''"
| "parser_name ConsiderParser = ''consider''"
| "parser_name (IdentityParser _) = ''identity''"
| "parser_name NotificationParser = ''notifications''"
| "parser_name PetParser = ''pets''"
| "parser_name ProgressParser = ''progress''"

type_synonym ParserError = string

fun parser_parse :: "RawLogLine \<Rightarrow> DomainParser \<Rightarrow> (ParserError + LogEvent list) \<times> DomainParser" where
  "parser_parse line CastingParser = (Inr (casting_parse (raw_body line)), CastingParser)"
| "parser_parse line CharacterParser = (Inr (character_parse (raw_body line)), CharacterParser)"
| "parser_parse line ChatParser = (Inr (chat_parse (raw_body line)), ChatParser)"
| "parser_parse line CombatParser = (Inr (combat_parse (raw_body line)), CombatParser)"
| "parser_parse line ConsiderParser = (Inr (consider_parse (raw_body line)), ConsiderParser)"
| "parser_parse line (IdentityParser states) =
     (case identity_parse line states of (events, states') \<Rightarrow> (Inr events, IdentityParser states'))"
| "parser_parse line NotificationParser = (Inr (notifications_parse (raw_body line)), NotificationParser)"
| "parser_parse line PetParser = (Inr (pets_parse (raw_body line)), PetParser)"
| "parser_parse line ProgressParser = (Inr (progress_parse (raw_body line)), ProgressParser)"

fun parser_reset_source :: "LogSource \<Rightarrow> DomainParser \<Rightarrow> DomainParser" where
  "parser_reset_source source (IdentityParser states) = IdentityParser (identity_reset_source source states)"
| "parser_reset_source source parser = parser"

record ParsedLogEvent =
  pe_source :: LogSource
  pe_timestamp :: "EqTimestamp option"
  pe_event :: LogEvent

record ParserFailure =
  pf_parser :: string
  pf_message :: string

record ParseOutcome =
  po_events :: "ParsedLogEvent list"
  po_errors :: "ParserFailure list"

type_synonym ParserRegistry = "DomainParser list"

definition registry_empty :: ParserRegistry where "registry_empty = []"

definition registry_register :: "DomainParser \<Rightarrow> ParserRegistry \<Rightarrow> ParserRegistry" where
  "registry_register parser parsers = parsers @ [parser]"

definition registry_default :: ParserRegistry where
  "registry_default = fold registry_register [CastingParser, CharacterParser, ChatParser, CombatParser, ConsiderParser,
     IdentityParser [], NotificationParser, PetParser, ProgressParser] registry_empty"

definition attribute_event :: "RawLogLine \<Rightarrow> LogEvent \<Rightarrow> ParsedLogEvent" where
  "attribute_event line event = \<lparr>pe_source = raw_source line, pe_timestamp = raw_timestamp line, pe_event = event\<rparr>"

definition collect_result :: "RawLogLine \<Rightarrow> string \<Rightarrow> ParserError + LogEvent list \<Rightarrow> ParseOutcome \<Rightarrow> ParseOutcome" where
  "collect_result line name result outcome =
     (case result of
        Inr events \<Rightarrow> outcome\<lparr>po_events := po_events outcome @ map (attribute_event line) events\<rparr>
      | Inl error \<Rightarrow> outcome\<lparr>po_errors := po_errors outcome @ [\<lparr>pf_parser = name, pf_message = error\<rparr>]\<rparr>)"

fun registry_run :: "RawLogLine \<Rightarrow> ParserRegistry \<Rightarrow> ParseOutcome \<Rightarrow> ParseOutcome \<times> ParserRegistry" where
  "registry_run line [] outcome = (outcome, [])"
| "registry_run line (parser # parsers) outcome =
     (let (result, parser') = parser_parse line parser;
          (outcome', parsers') = registry_run line parsers (collect_result line (parser_name parser) result outcome)
      in (outcome', parser' # parsers'))"

definition registry_parse :: "RawLogLine \<Rightarrow> ParserRegistry \<Rightarrow> ParseOutcome \<times> ParserRegistry" where
  "registry_parse line parsers = registry_run line parsers \<lparr>po_events = [], po_errors = []\<rparr>"

definition registry_reset_source :: "LogSource \<Rightarrow> ParserRegistry \<Rightarrow> ParserRegistry" where
  "registry_reset_source source parsers = map (parser_reset_source source) parsers"

section \<open>Telemetry\<close>

record CharacterKey =
  ck_server :: string
  ck_character :: string

record CharacterTelemetry =
  ct_auto_attack :: bool
  ct_dead :: bool
  ct_class_code :: "string option"
  ct_pet :: "string option"

definition telemetry_default :: CharacterTelemetry where
  "telemetry_default = \<lparr>ct_auto_attack = False, ct_dead = False, ct_class_code = None, ct_pet = None\<rparr>"

record TelemetryChange =
  tch_character :: CharacterKey
  tch_telemetry :: CharacterTelemetry

record TelemetryEntry =
  tn_display_key :: CharacterKey
  tn_telemetry :: CharacterTelemetry

type_synonym TelemetryReducer = "(string \<times> string, TelemetryEntry) btree_map"

definition telemetry_key :: "string \<Rightarrow> string \<Rightarrow> string \<times> string" where
  "telemetry_key server character = (to_ascii_lowercase server, to_ascii_lowercase character)"

definition telemetry_entry :: "string \<Rightarrow> string \<Rightarrow> TelemetryReducer \<Rightarrow> TelemetryEntry" where
  "telemetry_entry server character characters =
     unwrap_or (bm_get characters (telemetry_key server character))
       \<lparr>tn_display_key = \<lparr>ck_server = server, ck_character = character\<rparr>, tn_telemetry = telemetry_default\<rparr>"

definition telemetry_change :: "TelemetryEntry \<Rightarrow> TelemetryChange" where
  "telemetry_change entry = \<lparr>tch_character = tn_display_key entry, tch_telemetry = tn_telemetry entry\<rparr>"

text \<open>
  The change of one entry an event stands for, \<open>None\<close> where the code returns early. The entry
  has been inserted by then, which this shape keeps.
\<close>

definition update_entry :: "string \<Rightarrow> string \<Rightarrow> (CharacterTelemetry \<Rightarrow> CharacterTelemetry option) \<Rightarrow> TelemetryReducer
    \<Rightarrow> TelemetryChange option \<times> TelemetryReducer" where
  "update_entry server character update characters =
     (let entry = telemetry_entry server character characters
      in case update (tn_telemetry entry) of
           None \<Rightarrow> (None, bm_insert (telemetry_key server character) entry characters)
         | Some telemetry \<Rightarrow>
             let entry' = entry\<lparr>tn_telemetry := telemetry\<rparr>
             in (Some (telemetry_change entry'), bm_insert (telemetry_key server character) entry' characters))"

definition update_class :: "string \<Rightarrow> CharacterTelemetry \<Rightarrow> CharacterTelemetry option" where
  "update_class class_code telemetry =
     (if ct_class_code telemetry = Some class_code then None else Some (telemetry\<lparr>ct_class_code := Some class_code\<rparr>))"

definition update_pet :: "string \<Rightarrow> CharacterTelemetry \<Rightarrow> CharacterTelemetry option" where
  "update_pet pet telemetry =
     (if ct_pet telemetry = Some pet then None else Some (telemetry\<lparr>ct_pet := Some pet\<rparr>))"

fun update_character :: "CharacterEvent \<Rightarrow> CharacterTelemetry \<Rightarrow> CharacterTelemetry option" where
  "update_character (AutoAttackChanged enabled) telemetry =
     (if ct_auto_attack telemetry = enabled then None else Some (telemetry\<lparr>ct_auto_attack := enabled\<rparr>))"
| "update_character Died telemetry = (if ct_dead telemetry then None else Some (telemetry\<lparr>ct_dead := True\<rparr>))"
| "update_character Revived telemetry = (if \<not> ct_dead telemetry then None else Some (telemetry\<lparr>ct_dead := False\<rparr>))"

definition telemetry_apply :: "ParsedLogEvent \<Rightarrow> TelemetryReducer \<Rightarrow> TelemetryChange option \<times> TelemetryReducer" where
  "telemetry_apply parsed characters =
     (let server = ls_server (pe_source parsed); own = ls_character (pe_source parsed)
      in case pe_event parsed of
           IdentityLog (WhoResultEvent result) \<Rightarrow>
             (case who_class_abbreviation result of
                None \<Rightarrow> (None, characters)
              | Some class_code \<Rightarrow> update_entry server (who_character result) (update_class class_code) characters)
         | IdentityLog (PersonaLoadedEvent persona) \<Rightarrow>
             update_entry server own (update_class (pl_class_abbreviation persona)) characters
         | PetLog (OwnershipClaimed pet master) \<Rightarrow> update_entry server master (update_pet pet) characters
         | CharacterLog event \<Rightarrow> update_entry server own (update_character event) characters
         | _ \<Rightarrow> (None, characters))"

text \<open>What a consumer does with a batch: \<open>filter_map\<close> of \<open>apply\<close> over the events.\<close>

fun telemetry_fold :: "ParsedLogEvent list \<Rightarrow> TelemetryReducer \<Rightarrow> TelemetryChange list \<times> TelemetryReducer" where
  "telemetry_fold [] characters = ([], characters)"
| "telemetry_fold (event # events) characters =
     (let (change, characters') = telemetry_apply event characters;
          (changes, characters'') = telemetry_fold events characters'
      in ((case change of Some c \<Rightarrow> [c] | None \<Rightarrow> []) @ changes, characters''))"

end
