(* ===== verification/Eq_Streams.thy ===== *)
theory Eq_Streams
  imports Eq_Registry
begin

text \<open>
  Runs of the registry and of the telemetry reducer over many lines: sources do not influence
  each other, \<open>/who\<close> results come from open listings only, and the telemetry is what the
  history of a character says it is.
\<close>

section \<open>Runs\<close>

fun parse_run :: "(RawLogLine \<Rightarrow> 's \<Rightarrow> 'e \<times> 's) \<Rightarrow> RawLogLine list \<Rightarrow> 's \<Rightarrow> (RawLogLine \<times> 'e) list \<times> 's" where
  "parse_run parse [] s = ([], s)"
| "parse_run parse (line # lines) s =
     (let (e, s') = parse line s; (es, s'') = parse_run parse lines s' in ((line, e) # es, s''))"

lemma parse_run_append: "parse_run parse (xs @ ys) s =
    (let (es, s') = parse_run parse xs s; (fs, s'') = parse_run parse ys s' in (es @ fs, s''))"
  by (induction xs arbitrary: s) (auto simp: split_def Let_def)

lemma parse_run_lines [simp]: "map fst (fst (parse_run parse lines s)) = lines"
  by (induction lines arbitrary: s) (auto simp: split_def Let_def)

text \<open>The contract of a parser towards the sources: a line reads and writes its own source's state.\<close>

locale source_local =
  fixes parse :: "RawLogLine \<Rightarrow> 's \<Rightarrow> 'e \<times> 's"
    and view :: "LogSource \<Rightarrow> 's \<Rightarrow> 'v"
  assumes own_result: "view (raw_source line) s = view (raw_source line) t \<Longrightarrow> fst (parse line s) = fst (parse line t)"
    and own_state: "view (raw_source line) s = view (raw_source line) t \<Longrightarrow>
        view (raw_source line) (snd (parse line s)) = view (raw_source line) (snd (parse line t))"
    and other_state: "source \<noteq> raw_source line \<Longrightarrow> view source (snd (parse line s)) = view source s"
begin

lemma run_isolated:
  "view source s = view source t \<Longrightarrow>
   filter (\<lambda>(line, _). raw_source line = source) (fst (parse_run parse lines s))
     = fst (parse_run parse (filter (\<lambda>line. raw_source line = source) lines) t)
   \<and> view source (snd (parse_run parse lines s))
     = view source (snd (parse_run parse (filter (\<lambda>line. raw_source line = source) lines) t))"
proof (induction lines arbitrary: s t)
  case (Cons line lines)
  show ?case
  proof (cases "raw_source line = source")
    case True
    then have "fst (parse line s) = fst (parse line t)" "view source (snd (parse line s)) = view source (snd (parse line t))"
      using own_result own_state Cons.prems by blast+
    then show ?thesis using Cons.IH True by (simp add: split_def Let_def)
  next
    case False
    then have "view source (snd (parse line s)) = view source t" using other_state Cons.prems by metis
    then show ?thesis using Cons.IH [of "snd (parse line s)" t] False by (simp add: split_def Let_def)
  qed
qed simp

end

lemma source_key_inj [simp]: "source_key a = source_key b \<longleftrightarrow> a = b"
  by (auto simp: source_key_def intro: LogSource.equality)

lemma who_state_insert [simp]:
  "who_state (bm_insert (source_key a) w states) b = (if b = a then w else who_state states b)"
  by (simp add: who_state_def)

lemma who_state_remove [simp]:
  "who_state (identity_reset_source a states) b = (if b = a then Idle else who_state states b)"
  by (simp add: who_state_def identity_reset_source_def)

interpretation identity: source_local identity_parse "\<lambda>source states. who_state states source"
proof (unfold_locales, goal_cases)
  case (1 line s t)
  then show ?case by (auto simp: identity_parse_def Let_def split: option.splits WhoParseState.splits)
next
  case (2 line s t)
  then show ?case by (auto simp: identity_parse_def Let_def split: option.splits WhoParseState.splits)
next
  case (3 source line s)
  then show ?case by (auto simp: identity_parse_def Let_def split: option.splits WhoParseState.splits)
qed

text \<open>What a source can see of a registry: every parser with that source's state only.\<close>

fun parser_view :: "LogSource \<Rightarrow> DomainParser \<Rightarrow> DomainParser" where
  "parser_view source (IdentityParser states) = IdentityParser [(source_key source, who_state states source)]"
| "parser_view source parser = parser"

definition registry_view :: "LogSource \<Rightarrow> ParserRegistry \<Rightarrow> DomainParser list" where
  "registry_view source parsers = map (parser_view source) parsers"

lemma parser_view_own:
  assumes "parser_view (raw_source line) p = parser_view (raw_source line) q"
  shows "parser_name p = parser_name q" "fst (parser_parse line p) = fst (parser_parse line q)"
    "parser_view (raw_source line) (snd (parser_parse line p)) = parser_view (raw_source line) (snd (parser_parse line q))"
proof -
  have "parser_name p = parser_name q \<and> fst (parser_parse line p) = fst (parser_parse line q)
    \<and> parser_view (raw_source line) (snd (parser_parse line p)) = parser_view (raw_source line) (snd (parser_parse line q))"
  proof (cases "\<exists>a b. p = IdentityParser a \<and> q = IdentityParser b")
    case True
    then obtain a b where pq: "p = IdentityParser a" "q = IdentityParser b" by blast
    then have "who_state a (raw_source line) = who_state b (raw_source line)" using assms by simp
    from identity.own_result [OF this] identity.own_state [OF this] show ?thesis by (simp add: pq split_def)
  next
    case False
    then have "p = q" using assms by (cases p; cases q) auto
    then show ?thesis by simp
  qed
  then show "parser_name p = parser_name q" "fst (parser_parse line p) = fst (parser_parse line q)"
    "parser_view (raw_source line) (snd (parser_parse line p)) = parser_view (raw_source line) (snd (parser_parse line q))"
    by simp_all
qed

lemma parser_view_other: "source \<noteq> raw_source line \<Longrightarrow> parser_view source (snd (parser_parse line p)) = parser_view source p"
  by (cases p) (simp_all add: split_def identity.other_state)

lemma registry_run_state: "snd (registry_run line parsers outcome) = map (\<lambda>p. snd (parser_parse line p)) parsers"
  by (induction parsers arbitrary: outcome) (auto simp: split_def Let_def)

lemma registry_run_own:
  "registry_view (raw_source line) ps = registry_view (raw_source line) qs \<Longrightarrow>
   fst (registry_run line ps outcome) = fst (registry_run line qs outcome)"
proof (induction ps arbitrary: qs outcome)
  case (Cons p ps)
  then obtain q qs' where qs: "qs = q # qs'" "parser_view (raw_source line) p = parser_view (raw_source line) q"
    "registry_view (raw_source line) ps = registry_view (raw_source line) qs'"
    by (auto simp: registry_view_def)
  from parser_view_own [OF qs(2)] Cons.IH [OF qs(3)] show ?case by (simp add: qs(1) split_def Let_def)
qed (simp add: registry_view_def)

interpretation registry: source_local registry_parse registry_view
proof (unfold_locales, goal_cases)
  case (1 line s t)
  then show ?case unfolding registry_parse_def by (rule registry_run_own)
next
  case (2 line s t)
  then have views: "map (parser_view (raw_source line)) s = map (parser_view (raw_source line)) t"
    by (simp only: registry_view_def)
  then have len: "length s = length t" by (rule map_eq_imp_length_eq)
  have eq: "parser_view (raw_source line) (s ! i) = parser_view (raw_source line) (t ! i)" if "i < length s" for i
    using arg_cong [OF views, of "\<lambda>ps. ps ! i"] that len by simp
  have "parser_view (raw_source line) (snd (parser_parse line (s ! i)))
      = parser_view (raw_source line) (snd (parser_parse line (t ! i)))" if "i < length s" for i
    by (rule parser_view_own(3) [OF eq [OF that]])
  then show ?case using len
    by (intro nth_equalityI) (simp_all add: registry_parse_def registry_run_state registry_view_def)
next
  case (3 source line s)
  then show ?case by (simp add: registry_parse_def registry_run_state registry_view_def parser_view_other)
qed

section \<open>The listings of \<open>/who\<close>\<close>

text \<open>
  The specification: whether a listing is open after a history of lines of one source, latest
  line first. A line in offline mode, or that reports a loaded persona, does not count.
\<close>

definition skips_listing :: "string \<Rightarrow> bool" where
  "skips_listing body = (starts_with ''OFFLINE MODE'' body \<or> parse_persona_loaded body \<noteq> None)"

fun listing_open :: "string list \<Rightarrow> bool" where
  "listing_open [] = False"
| "listing_open (body # earlier) =
     (if skips_listing body then listing_open earlier
      else if listing_open earlier then \<not> who_footer body
      else who_header body)"

definition bodies_of :: "LogSource \<Rightarrow> RawLogLine list \<Rightarrow> string list" where
  "bodies_of source lines = map raw_body (filter (\<lambda>line. raw_source line = source) lines)"

lemma identity_step_state:
  "who_state (snd (identity_parse line states)) (raw_source line) =
     (if skips_listing (raw_body line) then who_state states (raw_source line)
      else case who_state states (raw_source line) of
             Idle \<Rightarrow> if who_header (raw_body line) then InBlock else Idle
           | InBlock \<Rightarrow> if who_footer (raw_body line) then Idle else InBlock)"
  by (auto simp: identity_parse_def skips_listing_def Let_def split: option.splits WhoParseState.splits)

lemma who_state_history:
  "who_state (snd (parse_run identity_parse lines [])) source = InBlock
     \<longleftrightarrow> listing_open (rev (bodies_of source lines))"
proof (induction lines rule: rev_induct)
  case (snoc line lines)
  let ?s = "snd (parse_run identity_parse lines [])"
  have run: "snd (parse_run identity_parse (lines @ [line]) []) = snd (identity_parse line ?s)"
    by (simp add: parse_run_append split_def Let_def)
  show ?case
  proof (cases "raw_source line = source")
    case True
    then show ?thesis using snoc.IH identity_step_state [of line ?s] unfolding run
      by (cases "who_state ?s source") (auto simp: bodies_of_def)
  next
    case False
    then have "who_state (snd (identity_parse line ?s)) source = who_state ?s source"
      by (intro identity.other_state) simp
    then show ?thesis using snoc.IH False unfolding run by (simp add: bodies_of_def)
  qed
qed (simp add: bodies_of_def who_state_def)

lemma identity_parse_who:
  "IdentityLog (WhoResultEvent entry) \<in> set (fst (identity_parse line states)) \<longleftrightarrow>
     who_state states (raw_source line) = InBlock \<and> \<not> skips_listing (raw_body line)
     \<and> \<not> who_footer (raw_body line) \<and> who_entry (raw_body line) = Some entry"
  by (auto simp: identity_parse_def skips_listing_def Let_def split: option.splits WhoParseState.splits)

end
