(* ===== verification/Eq_Guarantees.thy ===== *)
theory Eq_Guarantees
  imports Eq_Streams Trigger_Text
begin

text \<open>
  What the log library promises its consumers: the events are well-formed values, quoted
  speech of the recognised kinds is not taken for combat, amounts are read exactly, and the
  telemetry changes let a consumer keep an exact copy of the reducer's state.
\<close>

section \<open>Well-formed events\<close>

definition combatant_ok :: "ObservedCombatant \<Rightarrow> bool" where
  "combatant_ok c = (oc_name c \<noteq> [] \<and> \<not> contains_str replacement_character (oc_name c)
     \<and> oc_perspective c = perspective_of (oc_name c))"

definition damage_ok :: "DamageObservation \<Rightarrow> bool" where
  "damage_ok d = (combatant_ok (dmg_attacker d) \<and> combatant_ok (dmg_defender d)
     \<and> (case dmg_explicit_owner d of None \<Rightarrow> dmg_kind d \<noteq> Pet | Some master \<Rightarrow> combatant_ok master \<and> dmg_kind d \<in> {Pet, DamageShield})
     \<and> dmg_amount d < 2 ^ 64 \<and> dmg_ability d \<noteq> None \<and> dmg_outcome d = Hit)"

definition attempt_ok :: "CombatAttempt \<Rightarrow> bool" where
  "attempt_ok a = (combatant_ok (att_attacker a) \<and> combatant_ok (att_defender a) \<and> att_outcome a \<noteq> Hit
     \<and> att_ability a \<noteq> None)"

definition slain_ok :: "TargetSlainObservation \<Rightarrow> bool" where
  "slain_ok s = (combatant_ok (slain_target s) \<and> (case slain_killer s of None \<Rightarrow> True | Some killer \<Rightarrow> combatant_ok killer))"

definition given_name_ok :: "string option \<Rightarrow> bool" where
  "given_name_ok name = (name \<noteq> Some [])"

fun event_ok :: "LogEvent \<Rightarrow> bool" where
  "event_ok (IdentityLog (WhoResultEvent r)) =
     (who_character r \<noteq> [] \<and> (case who_level r of None \<Rightarrow> True | Some level \<Rightarrow> level < 2 ^ 16)
      \<and> who_class_abbreviation r = Option.bind (who_class_name r) class_abbreviation
      \<and> (who_is_anonymous r \<longrightarrow> who_level r = None \<and> who_title r = None \<and> who_class_name r = None))"
| "event_ok (IdentityLog (PersonaLoadedEvent p)) = (class_abbreviation (pl_class_name p) = Some (pl_class_abbreviation p))"
| "event_ok (PetLog (OwnershipClaimed pet master)) = (pet \<noteq> [] \<and> master \<noteq> [] \<and> CHR '' '' \<notin> set pet \<and> CHR '' '' \<notin> set master)"
| "event_ok (CharacterLog e) = (e = Died \<or> e = Revived)"
| "event_ok (CastingLog (CastStarted spell _)) = (spell \<noteq> [])"
| "event_ok (CastingLog (CastFizzled spell)) = given_name_ok spell"
| "event_ok (CastingLog (CastInterrupted spell)) = given_name_ok spell"
| "event_ok (CastingLog (CastResisted spell)) = (spell \<noteq> [])"
| "event_ok (CastingLog ConcentrationRecovered) = True"
| "event_ok (CombatLog (Damage d)) = damage_ok d"
| "event_ok (CombatLog (Attempt a)) = attempt_ok a"
| "event_ok (CombatLog (TargetSlain s)) = slain_ok s"
| "event_ok (CombatLog (ZoneChanged zone)) = (zone \<noteq> [])"
| "event_ok (CombatLog (PetOwnership _)) = False"
| "event_ok (CombatLog (PlayerEvidence _)) = False"
| "event_ok (CombatLog _) = True"
| "event_ok (ChatLog (IncomingTell sender message)) = (valid_player_name sender \<and> message \<noteq> [])"
| "event_ok (NotificationLog (GroupInvite name)) = valid_player_name name"
| "event_ok (NotificationLog (GroupInviteDeclined name)) = valid_player_name name"
| "event_ok (NotificationLog (RaidInvite name)) = valid_player_name name"
| "event_ok (NotificationLog (TradeProposed name)) = valid_player_name name"
| "event_ok (NotificationLog (CharacterSlain killer)) = (trim killer \<noteq> [])"
| "event_ok (NotificationLog _) = True"
| "event_ok (ProgressLog (LevelGained level)) = (level < 2 ^ 16)"
| "event_ok (ProgressLog _) = True"
| "event_ok (ConsiderLog (ConsiderTarget target _ level)) =
     (target \<noteq> [] \<and> (case level of None \<Rightarrow> True | Some n \<Rightarrow> n < 2 ^ 16))"
| "event_ok (ConsiderLog NoTarget) = True"

named_theorems binds \<open>unfolding a successful chain of partial steps\<close>

declare Option.bind_eq_Some_conv [binds] map_option_eq_Some [binds]

lemma opt_or_Some: "opt_or x y = Some v \<longleftrightarrow> x = Some v \<or> x = None \<and> y = Some v"
  by (cases x) auto

lemma combatant_ok_observed: "observed s = Some c \<Longrightarrow> combatant_ok c"
  by (auto simp: observed_def combatant_ok_def Let_def split: if_splits)

lemma combatant_ok_you: "combatant_ok observed_you"
  unfolding combatant_ok_def by code_simp

lemma observed_with_owner_ok:
  "observed_with_owner s = Some (a, master) \<Longrightarrow> combatant_ok a \<and> (\<forall>m. master = Some m \<longrightarrow> combatant_ok m)"
  by (auto simp: observed_with_owner_def Let_def combatant_ok_observed split: option.splits list.splits)

lemma parse_amount_bound: "parse_amount s = Some n \<Longrightarrow> n < 2 ^ 64"
  by (auto simp: parse_amount_def dest: parse_u64_bound split: if_splits list.splits)

lemma points_bound: "parse_points_of_damage s = Some n \<Longrightarrow> n < 2 ^ 64"
  by (auto simp: parse_points_of_damage_def binds dest: parse_amount_bound split: if_splits prod.splits)

lemmas damage_parts = combatant_ok_observed observed_with_owner_ok parse_amount_bound points_bound

lemma melee_ok: "parse_melee_damage body = Some d \<Longrightarrow> damage_ok d"
  unfolding parse_melee_damage_def Let_def
  by (clarsimp simp: binds split: if_splits) (auto simp: damage_ok_def dest!: damage_parts split: option.splits)

lemma direct_ok: "parse_direct_spell_damage body = Some d \<Longrightarrow> damage_ok d"
  unfolding parse_direct_spell_damage_def Let_def
  by (clarsimp simp: binds split: if_splits) (auto simp: damage_ok_def dest!: damage_parts split: option.splits)

lemma shield_ok: "parse_damage_shield body = Some d \<Longrightarrow> damage_ok d"
  unfolding parse_damage_shield_def Let_def
  by (clarsimp simp: binds split: if_splits) (auto simp: damage_ok_def dest!: damage_parts split: option.splits)

lemma periodic_ok: "parse_periodic_damage body = Some d \<Longrightarrow> damage_ok d"
  unfolding parse_periodic_damage_def Let_def
  by (clarsimp simp: binds split: if_splits) (auto simp: damage_ok_def dest!: damage_parts split: option.splits)

lemma parse_damage_ok: "parse_damage body = Some d \<Longrightarrow> damage_ok d"
  unfolding parse_damage_def opt_or_Some using melee_ok direct_ok shield_ok periodic_ok by blast

lemma attempt_outcome_not_hit [simp]: "attempt_outcome s \<noteq> Some Hit"
  by (simp add: attempt_outcome_def)

lemma rejected_ok: "parse_rejected_damage_attempt body = Some a \<Longrightarrow> attempt_ok a"
  unfolding parse_rejected_damage_attempt_def Let_def
  by (clarsimp simp: binds split: if_splits)
    (auto simp: attempt_ok_def attempt_outcome_not_hit dest!: combatant_ok_observed observed_with_owner_ok)

lemma parse_attempt_ok: "parse_attempt body = Some a \<Longrightarrow> attempt_ok a"
  unfolding parse_attempt_def Let_def
  by (clarsimp simp: binds split: if_splits)
    (auto simp: attempt_ok_def attempt_outcome_not_hit dest!: combatant_ok_observed observed_with_owner_ok)

lemma taunt_ok: "parse_taunt body = Some a \<Longrightarrow> attempt_ok a"
  by (auto simp: parse_taunt_def taunt_attempt_def binds attempt_ok_def combatant_ok_you dest!: damage_parts split: prod.splits option.splits)

lemma parse_slain_ok: "parse_slain body = Some s \<Longrightarrow> slain_ok s"
  by (auto simp: opt_or_Some parse_slain_def binds slain_ok_def combatant_ok_you dest!: damage_parts split: prod.splits option.splits)

lemma combat_events_ok: "e \<in> set (combat_events body) \<Longrightarrow> event_ok (CombatLog e)"
  using parse_damage_ok [of body] rejected_ok [of body] parse_attempt_ok [of body] taunt_ok [of body] parse_slain_ok [of body]
  by (auto simp: combat_events_def damage_events_def opt_or_Some split: if_splits option.splits)

lemma combat_parse_ok: "list_all event_ok (combat_parse body)"
  by (auto simp: list_all_iff combat_parse_def combat_events_ok)

lemma named_between_ne [simp]: "named_between body prefix postfix \<noteq> Some []"
  by (auto simp: named_between_def binds Let_def split: if_splits)

lemma parse_resist_ne [simp]: "parse_resist body \<noteq> Some []"
  by (auto simp: parse_resist_def named_between_ne binds Let_def split: if_splits option.splits)

lemma named_between_Some: "named_between body prefix postfix = Some v \<Longrightarrow> v \<noteq> []"
  by auto

lemma parse_resist_Some: "parse_resist body = Some v \<Longrightarrow> v \<noteq> []"
  by auto

text \<open>A predicate on the branches of a \<open>match\<close> or an \<open>if\<close>, for a chain too long to split at once.\<close>

lemma option_branches:
  "(\<And>v. x = Some v \<Longrightarrow> Q (f v)) \<Longrightarrow> (x = None \<Longrightarrow> Q n) \<Longrightarrow> Q (case x of None \<Rightarrow> n | Some v \<Rightarrow> f v)"
  by (cases x) simp_all

lemma if_branches: "(c \<Longrightarrow> Q a) \<Longrightarrow> (\<not> c \<Longrightarrow> Q b) \<Longrightarrow> Q (if c then a else b)"
  by simp

lemmas option_branches_all = option_branches [where Q = "list_all event_ok"]
lemmas if_branches_all = if_branches [where Q = "list_all event_ok"]
lemmas cast_branches = option_branches [where Q = "pred_option (\<lambda>e. event_ok (CastingLog e))"]
  if_branches [where Q = "pred_option (\<lambda>e. event_ok (CastingLog e))"]

lemma casting_event_ok: "pred_option (\<lambda>e. event_ok (CastingLog e)) (casting_event body)"
  unfolding casting_event_def
  by (intro cast_branches)
    (auto simp: given_name_ok_def option.pred_map option.pred_set dest: named_between_Some parse_resist_Some)

lemma casting_parse_ok: "list_all event_ok (casting_parse body)"
  using casting_event_ok [of body] by (simp add: casting_parse_def option.pred_set split: option.splits)

lemma character_parse_ok: "list_all event_ok (character_parse body)"
  by (auto simp: character_parse_def split: option.splits if_splits)

lemma chat_parse_ok: "list_all event_ok (chat_parse body)"
  by (auto simp: chat_parse_def parse_incoming_tell_def binds split: option.splits if_splits prod.splits)

lemma consider_target_ne: "consider_target standing \<noteq> Some []"
  by (auto simp: consider_target_def binds Let_def split: if_splits)

lemma consider_level_bound: "assessment_and_level s = (a, Some n) \<Longrightarrow> n < 2 ^ 16"
  by (auto simp: assessment_and_level_def Let_def binds dest: parse_u16_bound split: option.splits prod.splits)

lemma consider_parse_ok: "list_all event_ok (consider_parse body)"
  using consider_target_ne consider_level_bound
  by (auto simp: consider_parse_def split: option.splits if_splits prod.splits)

lemma named_notice_ok [simp]:
  "list_all event_ok (named_notice GroupInvite name)" "list_all event_ok (named_notice GroupInviteDeclined name)"
  "list_all event_ok (named_notice RaidInvite name)" "list_all event_ok (named_notice TradeProposed name)"
  by (simp_all add: named_notice_def)

lemma notifications_parse_ok: "list_all event_ok (notifications_parse body)"
  unfolding notifications_parse_def
  by (intro option_branches_all if_branches_all) (simp_all split: prod.split)

lemma pets_parse_ok: "list_all event_ok (pets_parse body)"
  by (auto simp: pets_parse_def pet_claim_def binds Let_def split: option.splits if_splits prod.splits)

lemma level_gain_bound: "parse_level_gain body = Some n \<Longrightarrow> n < 2 ^ 16"
  by (auto simp: parse_level_gain_def binds dest: parse_u16_bound)

lemma progress_parse_ok: "list_all event_ok (progress_parse body)"
  using level_gain_bound [of body] by (auto simp: progress_parse_def split: option.splits if_splits)

lemma bracket_level_bound: "fst (parse_bracket s) = Some n \<Longrightarrow> n < 2 ^ 16"
  by (auto simp: parse_bracket_def Let_def dest: parse_u16_bound split: option.splits if_splits)

lemma who_entry_ok: "who_entry body = Some r \<Longrightarrow> event_ok (IdentityLog (WhoResultEvent r))"
  unfolding who_entry_def Let_def
  by (clarsimp simp: binds split_beta split: if_splits) (auto dest: bracket_level_bound split: option.splits)

lemma persona_ok: "parse_persona_loaded body = Some p \<Longrightarrow> event_ok (IdentityLog (PersonaLoadedEvent p))"
  by (auto simp: parse_persona_loaded_def binds split: prod.splits)

lemma identity_parse_ok: "list_all event_ok (fst (identity_parse line states))"
  using who_entry_ok [of "raw_body line"] persona_ok [of "raw_body line"]
  by (auto simp: identity_parse_def Let_def simp del: event_ok.simps split: option.splits WhoParseState.splits)

lemmas parsers_ok = casting_parse_ok character_parse_ok chat_parse_ok combat_parse_ok consider_parse_ok
  identity_parse_ok notifications_parse_ok pets_parse_ok progress_parse_ok

lemma parser_parse_ok: "\<exists>events. fst (parser_parse line p) = Inr events \<and> list_all event_ok events"
  by (cases p) (auto simp: parsers_ok split_def)

section \<open>Amounts\<close>

text \<open>An amount as the client prints it: decimal, with a comma before every third digit from the right.\<close>

definition thousands :: "nat \<Rightarrow> string" where
  "thousands n = rev (group_digits 0 (rev (nat_to_dec n)))"

lemma digits_value_snoc: "digits_value (ds @ [d]) = digits_value ds * 10 + (int (of_char d) - 48)"
  by (simp add: digits_value_def)

lemma digit_char_value: "d < 10 \<Longrightarrow> int (of_char (digit_char d)) - 48 = int d \<and> ascii_digit (digit_char d)"
  by (simp add: digit_char_def ascii_digit_def)

lemma radix_digits_value: "digits_value (map digit_char (radix_digits 10 n)) = int n"
proof (induction "10 :: nat" n rule: radix_digits.induct)
  case (1 n)
  show ?case
  proof (cases "n < 10")
    case True
    then show ?thesis using digit_char_value [of n]
      by (simp add: radix_digits.simps [of 10 n] digits_value_def)
  next
    case False
    then show ?thesis using 1 digit_char_value [of "n mod 10"]
      by (simp add: radix_digits.simps [of 10 n] digits_value_snoc)
        (metis div_mult_mod_eq of_nat_add of_nat_mult of_nat_numeral)
  qed
qed

lemma nat_to_dec_digits: "nat_to_dec n \<noteq> []" "list_all ascii_digit (nat_to_dec n)" "digits_value (nat_to_dec n) = int n"
  using radix_digits_bound [of 10 _ n] digit_char_value
  by (auto simp: nat_to_dec_def list_all_iff radix_digits_value)

lemma parse_u64_digits:
  assumes "ds \<noteq> []" "list_all ascii_digit ds"
  shows "parse_u64 ds = (if digits_value ds < 2 ^ 64 then Some (nat (digits_value ds)) else None)"
proof -
  obtain d rest where "ds = d # rest" using assms(1) by (cases ds) auto
  moreover from this have "d \<noteq> CHR ''+''" using assms(2) by (auto simp: ascii_digit_def)
  ultimately show ?thesis using assms by (auto simp: parse_u64_def parse_unsigned_def)
qed

lemma digits_no_comma: "list_all ascii_digit ds \<Longrightarrow> CHR '','' \<notin> set ds"
  by (auto simp: list_all_iff ascii_digit_def)

lemma split_on_none: "c \<notin> set s \<Longrightarrow> split_on c s = [s]"
  by (induction s) auto

lemma split_on_ne [simp]: "split_on c s \<noteq> []"
  by (cases s) (auto split: list.splits)

lemma split_on_append: "split_on c (a @ c # b) = split_on c a @ split_on c b"
proof (induction a)
  case (Cons x a)
  then show ?case
    by (cases "split_on c a") (auto split: list.splits)
qed simp

lemma group_digits_shift: "group_digits (Suc (Suc (Suc n))) ds = (if n = 0 \<and> ds \<noteq> [] then CHR '','' # group_digits 0 ds else group_digits n ds)"
proof (induction ds arbitrary: n)
  case (Cons d ds)
  then show ?case using Cons.IH [of "Suc n"] by auto
qed simp

lemma group_digits_filter: "list_all ascii_digit ds \<Longrightarrow> filter (\<lambda>c. c \<noteq> CHR '','') (group_digits n ds) = ds"
  by (induction n ds rule: group_digits.induct) (auto simp: ascii_digit_def)

lemma group_digits_short: "length ds \<le> 3 \<Longrightarrow> group_digits 0 ds = ds"
proof -
  assume "length ds \<le> 3"
  then consider "ds = []" | a where "ds = [a]" | a b where "ds = [a, b]" | a b c where "ds = [a, b, c]"
    by (cases ds; cases "tl ds"; cases "tl (tl ds)") (auto simp: neq_Nil_conv)
  then show ?thesis by cases auto
qed

lemma group_digits_long:
  assumes "length ds > 3"
  shows "group_digits 0 ds = take 3 ds @ CHR '','' # group_digits 0 (drop 3 ds)"
proof -
  obtain a b c d rest where ds: "ds = a # b # c # d # rest"
  proof -
    obtain a ds1 where 1: "ds = a # ds1" using assms by (cases ds) auto
    obtain b ds2 where 2: "ds1 = b # ds2" using assms 1 by (cases ds1) auto
    obtain c ds3 where 3: "ds2 = c # ds3" using assms 1 2 by (cases ds2) auto
    obtain d rest where "ds3 = d # rest" using assms 1 2 3 by (cases ds3) auto
    then show thesis using that 1 2 3 by blast
  qed
  have three: "group_digits 0 (a # b # c # es) = [a, b, c] @ group_digits (Suc (Suc (Suc 0))) es" for es
    by simp
  have "group_digits (Suc (Suc (Suc 0))) (d # rest) = CHR '','' # group_digits 0 (d # rest)"
    using group_digits_shift [of 0 "d # rest"] by (simp del: group_digits.simps)
  then show ?thesis by (simp add: ds three del: group_digits.simps)
qed

definition comma_groups :: "string \<Rightarrow> bool" where
  "comma_groups s = (case split_on (CHR '','') s of
     [] \<Rightarrow> False
   | leading # groups \<Rightarrow> leading \<noteq> [] \<and> length leading \<le> 3 \<and> list_all ascii_digit leading
       \<and> list_all (\<lambda>group. length group = 3 \<and> list_all ascii_digit group) groups)"

lemma comma_groups_group_digits:
  "ds \<noteq> [] \<Longrightarrow> list_all ascii_digit ds \<Longrightarrow> comma_groups (rev (group_digits 0 ds))"
proof (induction "length ds" arbitrary: ds rule: less_induct)
  case less
  show ?case
  proof (cases "length ds \<le> 3")
    case True
    then show ?thesis using less.prems digits_no_comma [of ds]
      by (simp add: comma_groups_def group_digits_short split_on_none)
  next
    case False
    have digits: "list_all ascii_digit (take 3 ds)" "list_all ascii_digit (drop 3 ds)"
      using less.prems(2) by (auto simp: list_all_iff dest: in_set_takeD in_set_dropD)
    then have "split_on (CHR '','') (rev (take 3 ds)) = [rev (take 3 ds)]"
      using digits_no_comma by (intro split_on_none) auto
    moreover have "comma_groups (rev (group_digits 0 (drop 3 ds)))"
      using less.hyps [of "drop 3 ds"] False digits by simp
    ultimately show ?thesis using False digits
      by (auto simp: comma_groups_def group_digits_long split_on_append split: list.splits)
  qed
qed

lemma parse_amount_groups:
  "comma_groups s \<Longrightarrow> parse_amount s = parse_u64 (filter (\<lambda>c. c \<noteq> CHR '','') s)"
proof -
  assume groups: "comma_groups s"
  show ?thesis
  proof (cases "CHR '','' \<in> set s")
    case True
    then show ?thesis using groups by (auto simp: parse_amount_def comma_groups_def split: list.splits)
  next
    case False
    then show ?thesis using groups by (auto simp: parse_amount_def comma_groups_def split_on_none)
  qed
qed

text \<open>
  C33. An amount of damage is read exactly: the decimal digits of a number, plain or with the
  client's comma groups, parse back to that number when it fits 64 bits, and to nothing when it
  does not. Nothing is wrapped or truncated.
\<close>

theorem amounts_are_exact:
  "parse_amount (thousands n) = (if n < 2 ^ 64 then Some n else None)
   \<and> parse_amount (nat_to_dec n) = (if n < 2 ^ 64 then Some n else None)"
proof -
  have whole: "parse_u64 (nat_to_dec n) = (if n < 2 ^ 64 then Some n else None)"
    using nat_to_dec_digits [of n] by (simp add: parse_u64_digits)
  have digits: "rev (nat_to_dec n) \<noteq> []" "list_all ascii_digit (rev (nat_to_dec n))"
    using nat_to_dec_digits [of n] by simp_all
  have "filter (\<lambda>c. c \<noteq> CHR '','') (thousands n) = nat_to_dec n"
    unfolding thousands_def by (simp add: group_digits_filter [OF digits(2)] flip: rev_filter)
  then have "parse_amount (thousands n) = parse_u64 (nat_to_dec n)"
    using parse_amount_groups [OF comma_groups_group_digits [OF digits]] by (simp add: thousands_def)
  moreover have "filter (\<lambda>c. c \<noteq> CHR '','') (nat_to_dec n) = nat_to_dec n"
    using digits_no_comma [OF nat_to_dec_digits(2)] by (auto intro: filter_True)
  then have "parse_amount (nat_to_dec n) = parse_u64 (nat_to_dec n)"
    using nat_to_dec_digits [of n] digits_no_comma by (simp add: parse_amount_def)
  ultimately show ?thesis using whole by simp
qed

section \<open>What a line gives\<close>

lemma registry_run_ok:
  "po_errors outcome = [] \<Longrightarrow> list_all (\<lambda>p. pe_source p = raw_source line \<and> pe_timestamp p = raw_timestamp line \<and> event_ok (pe_event p)) (po_events outcome) \<Longrightarrow>
   po_errors (fst (registry_run line parsers outcome)) = []
   \<and> list_all (\<lambda>p. pe_source p = raw_source line \<and> pe_timestamp p = raw_timestamp line \<and> event_ok (pe_event p)) (po_events (fst (registry_run line parsers outcome)))"
proof (induction parsers arbitrary: outcome)
  case (Cons parser parsers)
  obtain events where e: "fst (parser_parse line parser) = Inr events" "list_all event_ok events"
    using parser_parse_ok by blast
  let ?o = "collect_result line (parser_name parser) (Inr events) outcome"
  have "po_errors ?o = []" "list_all (\<lambda>p. pe_source p = raw_source line \<and> pe_timestamp p = raw_timestamp line \<and> event_ok (pe_event p)) (po_events ?o)"
    using Cons.prems e(2) by (auto simp: collect_result_def attribute_event_def list_all_iff)
  from Cons.IH [OF this] show ?case by (simp add: e(1) split_def Let_def)
qed simp

text \<open>
  C13. Whatever a line says, no parser fails, and every event the registry gives is a well-formed
  value that carries the line's source and timestamp: participants have a readable name and the
  grammatical person their name implies, amounts fit 64 bits and levels 16, hits are hits and
  attempts are not, a pet's damage names its owner, and names of players, spells, pets, zones and
  targets are not empty.
\<close>

theorem parsed_events_are_well_formed:
  "po_errors (fst (registry_parse line parsers)) = []
   \<and> list_all (\<lambda>p. pe_source p = raw_source line \<and> pe_timestamp p = raw_timestamp line \<and> event_ok (pe_event p))
       (po_events (fst (registry_parse line parsers)))"
  unfolding registry_parse_def by (rule registry_run_ok) simp_all

text \<open>The built-in registry, with the state of its identity parser.\<close>

definition builtin :: "IdentityParser \<Rightarrow> ParserRegistry" where
  "builtin states = [CastingParser, CharacterParser, ChatParser, CombatParser, ConsiderParser,
     IdentityParser states, NotificationParser, PetParser, ProgressParser]"

lemma registry_default_builtin: "registry_default = builtin []"
  by (simp add: registry_default_def registry_register_def registry_empty_def builtin_def)

lemma registry_builtin:
  "registry_parse line (builtin states) =
     (\<lparr>po_events = map (attribute_event line)
         (casting_parse (raw_body line) @ character_parse (raw_body line) @ chat_parse (raw_body line)
          @ combat_parse (raw_body line) @ consider_parse (raw_body line) @ fst (identity_parse line states)
          @ notifications_parse (raw_body line) @ pets_parse (raw_body line) @ progress_parse (raw_body line)),
       po_errors = []\<rparr>, builtin (snd (identity_parse line states)))"
  by (simp add: registry_parse_def builtin_def collect_result_def split_def Let_def)

lemma registry_history: "snd (parse_run registry_parse lines (builtin states)) = builtin (snd (parse_run identity_parse lines states))"
  by (induction lines arbitrary: states) (simp_all add: registry_builtin split_def Let_def)

definition emitted :: "ParseOutcome \<Rightarrow> LogEvent list" where
  "emitted outcome = map pe_event (po_events outcome)"

lemma emitted_builtin:
  "emitted (fst (registry_parse line (builtin states))) =
     casting_parse (raw_body line) @ character_parse (raw_body line) @ chat_parse (raw_body line)
          @ combat_parse (raw_body line) @ consider_parse (raw_body line) @ fst (identity_parse line states)
          @ notifications_parse (raw_body line) @ pets_parse (raw_body line) @ progress_parse (raw_body line)"
  by (simp add: emitted_def registry_builtin attribute_event_def comp_def)

fun speech_safe :: "LogEvent \<Rightarrow> bool" where
  "speech_safe (CastingLog _) = False"
| "speech_safe (CombatLog (ZoneChanged _)) = True"
| "speech_safe (CombatLog _) = False"
| "speech_safe _ = True"

lemma other_parsers_speech_safe:
  "list_all speech_safe (character_parse body)" "list_all speech_safe (chat_parse body)"
  "list_all speech_safe (consider_parse body)" "list_all speech_safe (pets_parse body)" "list_all speech_safe (progress_parse body)"
  "list_all speech_safe (fst (identity_parse line states))"
  by (auto simp: character_parse_def chat_parse_def parse_incoming_tell_def consider_parse_def pets_parse_def progress_parse_def
      identity_parse_def Let_def split: option.split prod.split WhoParseState.split)

lemmas speech_branches = option_branches [where Q = "list_all speech_safe"] if_branches [where Q = "list_all speech_safe"]

lemma notifications_speech_safe: "list_all speech_safe (notifications_parse body)"
  unfolding notifications_parse_def named_notice_def
  by (intro speech_branches) (simp_all split: prod.split)


text \<open>
  The list of quoting verbs is not complete: what is said to a group, a guild or a channel, or by
  the character itself, is matched as combat when the words end the right way.
\<close>

lemma group_chat_is_taken_for_combat:
  "map (\<lambda>e. case e of Damage d \<Rightarrow> (oc_name (dmg_attacker d), oc_name (dmg_defender d), dmg_amount d) | _ \<Rightarrow> ([], [], 0))
     (combat_events (''Bob tells the group, '' @ CHR 0x27 # ''Ann hit a rat for 5 points of fire damage by Burn.'' @ [CHR 0x27]))
   = [(''Bob tells the group, '' @ CHR 0x27 # ''Ann'', ''a rat'', 5)]"
  by code_simp

text \<open>
  C34. Log sources do not influence each other: in any interleaving of the lines of several
  clients, the events each client's lines give are those they would give in a log of their own,
  whatever \<open>/who\<close> listings the other clients have open.
\<close>

theorem interleaved_sources_are_independent:
  "filter (\<lambda>(line, _). raw_source line = source) (fst (parse_run registry_parse lines parsers))
     = fst (parse_run registry_parse (filter (\<lambda>line. raw_source line = source) lines) parsers)"
  using registry.run_isolated [OF refl] by blast

lemma who_only_from_identity:
  "IdentityLog e \<in> set (emitted (fst (registry_parse line (builtin states)))) \<longleftrightarrow> IdentityLog e \<in> set (fst (identity_parse line states))"
proof -
  let ?other = "list_all (\<lambda>x. log_event_domain x \<noteq> IdentityDomain)"
  let ?b = "raw_body line"
  have 1: "?other (casting_parse ?b @ character_parse ?b @ chat_parse ?b @ combat_parse ?b @ consider_parse ?b)"
    by (auto simp: casting_parse_def character_parse_def chat_parse_def combat_parse_def consider_parse_def list_all_iff
        split: option.splits if_splits prod.splits)
  have 2: "?other (notifications_parse ?b)"
    unfolding notifications_parse_def named_notice_def
    by (intro option_branches [where Q = ?other] if_branches [where Q = ?other]) (simp_all split: prod.split)
  have 3: "?other (pets_parse ?b @ progress_parse ?b)"
    by (auto simp: pets_parse_def progress_parse_def split: option.split prod.split)
  have absent: "IdentityLog e \<notin> set events" if "?other events" for events
    using that by (auto simp: list_all_iff)
  show ?thesis using absent [OF 1] absent [OF 2] absent [OF 3] by (simp add: emitted_builtin)
qed

text \<open>
  C35. A \<open>/who\<close> result is reported exactly for an entry line inside a listing of its own source:
  a listing is open when its header was the last header or footer that the source's lines held, and
  a line that looks like an entry anywhere else is ignored.
\<close>

theorem who_results_come_from_open_listings:
  "IdentityLog (WhoResultEvent entry)
     \<in> set (emitted (fst (registry_parse line (snd (parse_run registry_parse earlier registry_default)))))
   \<longleftrightarrow> listing_open (rev (bodies_of (raw_source line) earlier)) \<and> \<not> skips_listing (raw_body line)
     \<and> \<not> who_footer (raw_body line) \<and> who_entry (raw_body line) = Some entry"
  unfolding registry_default_builtin registry_history who_only_from_identity identity_parse_who who_state_history ..

section \<open>Telemetry\<close>

definition telemetry_of :: "string \<Rightarrow> string \<Rightarrow> TelemetryReducer \<Rightarrow> CharacterTelemetry" where
  "telemetry_of server character characters = tn_telemetry (telemetry_entry server character characters)"

lemma telemetry_of_get:
  "telemetry_of s c m = (case bm_get m (telemetry_key s c) of None \<Rightarrow> telemetry_default | Some entry \<Rightarrow> tn_telemetry entry)"
  by (simp add: telemetry_of_def telemetry_entry_def split: option.split)

definition reducer_ok :: "TelemetryReducer \<Rightarrow> bool" where
  "reducer_ok characters = (\<forall>key entry. bm_get characters key = Some entry \<longrightarrow>
     telemetry_key (ck_server (tn_display_key entry)) (ck_character (tn_display_key entry)) = key)"

lemma reducer_okD: "reducer_ok characters \<Longrightarrow> bm_get characters key = Some entry \<Longrightarrow>
    telemetry_key (ck_server (tn_display_key entry)) (ck_character (tn_display_key entry)) = key"
  unfolding reducer_ok_def by blast

lemma reducer_ok_insert: "reducer_ok characters \<Longrightarrow>
    telemetry_key (ck_server (tn_display_key entry)) (ck_character (tn_display_key entry)) = key \<Longrightarrow>
    reducer_ok (bm_insert key entry characters)"
  unfolding reducer_ok_def bm_get_insert by (metis option.inject)

definition change_key :: "TelemetryChange \<Rightarrow> string \<times> string" where
  "change_key change = telemetry_key (ck_server (tch_character change)) (ck_character (tch_character change))"

fun character_change :: "CharacterEvent \<Rightarrow> CharacterTelemetry \<Rightarrow> CharacterTelemetry" where
  "character_change (AutoAttackChanged enabled) telemetry = telemetry\<lparr>ct_auto_attack := enabled\<rparr>"
| "character_change Died telemetry = telemetry\<lparr>ct_dead := True\<rparr>"
| "character_change Revived telemetry = telemetry\<lparr>ct_dead := False\<rparr>"

text \<open>The character an event is about, and what it asks of the telemetry.\<close>

definition telemetry_update :: "ParsedLogEvent \<Rightarrow> ((string \<times> string) \<times> (CharacterTelemetry \<Rightarrow> CharacterTelemetry)) option" where
  "telemetry_update parsed =
     (let own = telemetry_key (ls_server (pe_source parsed)) (ls_character (pe_source parsed))
      in case pe_event parsed of
           IdentityLog (WhoResultEvent result) \<Rightarrow>
             map_option (\<lambda>code. (telemetry_key (ls_server (pe_source parsed)) (who_character result), ct_class_code_update (\<lambda>_. Some code)))
               (who_class_abbreviation result)
         | IdentityLog (PersonaLoadedEvent persona) \<Rightarrow> Some (own, ct_class_code_update (\<lambda>_. Some (pl_class_abbreviation persona)))
         | PetLog (OwnershipClaimed pet master) \<Rightarrow>
             Some (telemetry_key (ls_server (pe_source parsed)) master, ct_pet_update (\<lambda>_. Some pet))
         | CharacterLog event \<Rightarrow> Some (own, character_change event)
         | _ \<Rightarrow> None)"

definition updated :: "string \<times> string \<Rightarrow> ParsedLogEvent \<Rightarrow> CharacterTelemetry \<Rightarrow> CharacterTelemetry" where
  "updated key parsed telemetry =
     (case telemetry_update parsed of Some (about, change) \<Rightarrow> if about = key then change telemetry else telemetry | None \<Rightarrow> telemetry)"

text \<open>One update of an entry, seen through the telemetry of an arbitrary character.\<close>

lemma update_entry_effect:
  assumes "\<And>t. update t = (if change t = t then None else Some (change t))" "reducer_ok characters"
    and "update_entry server character update characters = (report, characters')"
  shows "telemetry_of s c characters' =
      (if telemetry_key server character = telemetry_key s c then change (telemetry_of s c characters) else telemetry_of s c characters)"
    and "reducer_ok characters'"
    and "case report of
        None \<Rightarrow> change (telemetry_of server character characters) = telemetry_of server character characters
      | Some ch \<Rightarrow> change (telemetry_of server character characters) \<noteq> telemetry_of server character characters
          \<and> change_key ch = telemetry_key server character \<and> tch_telemetry ch = change (telemetry_of server character characters)"
proof -
  let ?e = "telemetry_entry server character characters"
  have key: "telemetry_key (ck_server (tn_display_key ?e)) (ck_character (tn_display_key ?e)) = telemetry_key server character"
    by (cases "bm_get characters (telemetry_key server character)")
      (simp_all add: telemetry_entry_def reducer_okD [OF assms(2)])
  obtain e' where e': "characters' = bm_insert (telemetry_key server character) e' characters"
    "tn_telemetry e' = change (tn_telemetry ?e)" "tn_display_key e' = tn_display_key ?e"
    "report = (if change (tn_telemetry ?e) = tn_telemetry ?e then None else Some (telemetry_change e'))"
    using assms(3) unfolding update_entry_def assms(1) Let_def by (cases "change (tn_telemetry ?e) = tn_telemetry ?e") auto
  show "telemetry_of s c characters' =
      (if telemetry_key server character = telemetry_key s c then change (telemetry_of s c characters) else telemetry_of s c characters)"
    using e'(2) by (simp add: telemetry_of_get e'(1) flip: telemetry_of_def split: option.split)
  show "reducer_ok characters'" using assms(2) key unfolding e'(1) e'(3) [symmetric] by (rule reducer_ok_insert)
  show "case report of
        None \<Rightarrow> change (telemetry_of server character characters) = telemetry_of server character characters
      | Some ch \<Rightarrow> change (telemetry_of server character characters) \<noteq> telemetry_of server character characters
          \<and> change_key ch = telemetry_key server character \<and> tch_telemetry ch = change (telemetry_of server character characters)"
    using e' key by (simp add: telemetry_of_def change_key_def telemetry_change_def)
qed

lemma updates_are_changes:
  "update_class code t = (if ct_class_code_update (\<lambda>_. Some code) t = t then None else Some (ct_class_code_update (\<lambda>_. Some code) t))"
  "update_pet pet t = (if ct_pet_update (\<lambda>_. Some pet) t = t then None else Some (ct_pet_update (\<lambda>_. Some pet) t))"
  "update_character event t = (if character_change event t = t then None else Some (character_change event t))"
  by (cases t; cases event; simp add: update_class_def update_pet_def)+

text \<open>What one event does: the named character's telemetry is updated, and reported when it changed.\<close>

definition faithful_step :: "ParsedLogEvent \<Rightarrow> TelemetryReducer \<Rightarrow> TelemetryChange option \<times> TelemetryReducer \<Rightarrow> bool" where
  "faithful_step parsed characters result =
     (reducer_ok (snd result)
      \<and> (\<forall>s c. telemetry_of s c (snd result) = updated (telemetry_key s c) parsed (telemetry_of s c characters))
      \<and> (case fst result of
           None \<Rightarrow> \<forall>s c. telemetry_of s c (snd result) = telemetry_of s c characters
         | Some ch \<Rightarrow> \<forall>s c. if change_key ch = telemetry_key s c
             then tch_telemetry ch = telemetry_of s c (snd result) \<and> telemetry_of s c (snd result) \<noteq> telemetry_of s c characters
             else telemetry_of s c (snd result) = telemetry_of s c characters))"

lemma faithful_update:
  assumes "\<And>t. update t = (if change t = t then None else Some (change t))" "reducer_ok characters"
    and "telemetry_update parsed = Some (telemetry_key server character, change)"
  shows "faithful_step parsed characters (update_entry server character update characters)"
proof -
  obtain report characters' where r: "update_entry server character update characters = (report, characters')"
    by fastforce
  note effect = update_entry_effect [OF assms(1,2) r]
  have other: "telemetry_of s c characters' = telemetry_of s c characters"
    if "telemetry_key server character \<noteq> telemetry_key s c" for s c
    using that by (simp add: effect(1))
  have own: "telemetry_of s c characters = telemetry_of server character characters"
    "telemetry_of s c characters' = change (telemetry_of server character characters)"
    if "telemetry_key server character = telemetry_key s c" for s c
    using effect(1) [of s c] that by (simp_all add: telemetry_of_get)
  have reported: "case report of
           None \<Rightarrow> \<forall>s c. telemetry_of s c characters' = telemetry_of s c characters
         | Some ch \<Rightarrow> \<forall>s c. if change_key ch = telemetry_key s c
             then tch_telemetry ch = telemetry_of s c characters' \<and> telemetry_of s c characters' \<noteq> telemetry_of s c characters
             else telemetry_of s c characters' = telemetry_of s c characters"
  proof (cases report)
    case None
    then have "change (telemetry_of server character characters) = telemetry_of server character characters"
      using effect(3) by simp
    then have "telemetry_of s c characters' = telemetry_of s c characters" for s c
      using own other by metis
    then show ?thesis by (simp add: None)
  next
    case (Some ch)
    then have ch: "change (telemetry_of server character characters) \<noteq> telemetry_of server character characters"
      "change_key ch = telemetry_key server character" "tch_telemetry ch = change (telemetry_of server character characters)"
      using effect(3) by simp_all
    have "if change_key ch = telemetry_key s c
        then tch_telemetry ch = telemetry_of s c characters' \<and> telemetry_of s c characters' \<noteq> telemetry_of s c characters
        else telemetry_of s c characters' = telemetry_of s c characters" for s c
      unfolding ch(2,3) using own [of s c] other [of s c] ch(1) by metis
    then show ?thesis by (simp add: Some)
  qed
  moreover have "telemetry_of s c characters' = updated (telemetry_key s c) parsed (telemetry_of s c characters)" for s c
    by (simp add: effect(1) updated_def assms(3))
  ultimately show ?thesis unfolding faithful_step_def r fst_conv snd_conv using effect(2) by blast
qed

lemma faithful_none: "reducer_ok characters \<Longrightarrow> telemetry_update parsed = None \<Longrightarrow> faithful_step parsed characters (None, characters)"
  by (simp add: faithful_step_def updated_def)

lemma telemetry_apply_faithful:
  assumes "reducer_ok characters"
  shows "faithful_step parsed characters (telemetry_apply parsed characters)"
proof -
  note step = faithful_update [OF _ assms] faithful_none [OF assms]
  show ?thesis
    unfolding telemetry_apply_def Let_def
    by (auto simp: telemetry_update_def updates_are_changes intro!: step
        split: LogEvent.split IdentityEvent.split PetEvent.split option.split)
qed

text \<open>A run over a batch of events.\<close>

lemma telemetry_fold_ok: "reducer_ok characters \<Longrightarrow> reducer_ok (snd (telemetry_fold events characters))"
  using telemetry_apply_faithful
  by (induction events arbitrary: characters) (auto simp: split_def Let_def faithful_step_def)

lemma reducer_ok_empty: "reducer_ok []"
  by (simp add: reducer_ok_def)

lemma telemetry_fold_history:
  "reducer_ok characters \<Longrightarrow>
   telemetry_of s c (snd (telemetry_fold events characters)) = fold (updated (telemetry_key s c)) events (telemetry_of s c characters)"
proof (induction events arbitrary: characters)
  case (Cons event events)
  have "faithful_step event characters (telemetry_apply event characters)"
    by (rule telemetry_apply_faithful [OF Cons.prems])
  then show ?case using Cons.IH by (simp add: split_def Let_def faithful_step_def)
qed simp

text \<open>The copy a consumer keeps: what the last change about the character said.\<close>

definition consumer_copy :: "string \<times> string \<Rightarrow> TelemetryChange list \<Rightarrow> CharacterTelemetry \<Rightarrow> CharacterTelemetry" where
  "consumer_copy key changes before =
     fold (\<lambda>change copy. if change_key change = key then tch_telemetry change else copy) changes before"

text \<open>
  C36. The reported changes are enough: a consumer that starts from what the reducer held and
  overwrites its copy of a character with every reported change about it, whatever the spelling of
  the name and the server, holds exactly the reducer's telemetry after any batch of events.
\<close>

theorem telemetry_changes_keep_a_copy:
  "consumer_copy (telemetry_key server character) (fst (telemetry_fold events (snd (telemetry_fold earlier []))))
       (telemetry_of server character (snd (telemetry_fold earlier [])))
     = telemetry_of server character (snd (telemetry_fold events (snd (telemetry_fold earlier []))))"
proof -
  have "reducer_ok characters \<Longrightarrow>
    consumer_copy (telemetry_key server character) (fst (telemetry_fold events characters)) (telemetry_of server character characters)
      = telemetry_of server character (snd (telemetry_fold events characters))" for characters
  proof (induction events arbitrary: characters)
    case (Cons event events)
    let ?next = "snd (telemetry_apply event characters)"
    have step: "faithful_step event characters (telemetry_apply event characters)"
      by (rule telemetry_apply_faithful [OF Cons.prems])
    then have "reducer_ok ?next" by (simp add: faithful_step_def)
    note IH = Cons.IH [OF this]
    show ?case
    proof (cases "fst (telemetry_apply event characters)")
      case None
      then have "telemetry_of server character ?next = telemetry_of server character characters"
        using step unfolding faithful_step_def None option.case by blast
      then show ?thesis using IH None by (simp add: split_def Let_def)
    next
      case (Some ch)
      then have "(if change_key ch = telemetry_key server character then tch_telemetry ch else telemetry_of server character characters)
          = telemetry_of server character ?next"
        using step unfolding faithful_step_def Some option.case by metis
      then show ?thesis using IH Some by (simp add: split_def Let_def consumer_copy_def)
    qed
  qed (simp add: consumer_copy_def)
  then show ?thesis using telemetry_fold_ok [OF reducer_ok_empty] by blast
qed

text \<open>The last value among the events that satisfy a partial function.\<close>

definition latest :: "(ParsedLogEvent \<Rightarrow> 'a option) \<Rightarrow> 'a \<Rightarrow> ParsedLogEvent list \<Rightarrow> 'a" where
  "latest f initially events = fold (\<lambda>event v. case f event of Some w \<Rightarrow> w | None \<Rightarrow> v) events initially"

definition own_key :: "ParsedLogEvent \<Rightarrow> string \<times> string" where
  "own_key parsed = telemetry_key (ls_server (pe_source parsed)) (ls_character (pe_source parsed))"

definition life_of :: "string \<times> string \<Rightarrow> ParsedLogEvent \<Rightarrow> bool option" where
  "life_of key parsed =
     (if own_key parsed = key \<and> pe_event parsed = CharacterLog Died then Some True
      else if own_key parsed = key \<and> pe_event parsed = CharacterLog Revived then Some False else None)"

definition pet_of :: "string \<times> string \<Rightarrow> ParsedLogEvent \<Rightarrow> string option option" where
  "pet_of key parsed =
     (case pe_event parsed of
        PetLog (OwnershipClaimed pet master) \<Rightarrow>
          if telemetry_key (ls_server (pe_source parsed)) master = key then Some (Some pet) else None
      | _ \<Rightarrow> None)"

definition class_of :: "string \<times> string \<Rightarrow> ParsedLogEvent \<Rightarrow> string option option" where
  "class_of key parsed =
     (case pe_event parsed of
        IdentityLog (WhoResultEvent result) \<Rightarrow>
          if telemetry_key (ls_server (pe_source parsed)) (who_character result) = key
          then map_option Some (who_class_abbreviation result) else None
      | IdentityLog (PersonaLoadedEvent persona) \<Rightarrow>
          if own_key parsed = key then Some (Some (pl_class_abbreviation persona)) else None
      | _ \<Rightarrow> None)"

lemma updated_fields:
  "ct_dead (updated key event t) = (case life_of key event of Some v \<Rightarrow> v | None \<Rightarrow> ct_dead t)"
  "ct_pet (updated key event t) = (case pet_of key event of Some v \<Rightarrow> v | None \<Rightarrow> ct_pet t)"
  "ct_class_code (updated key event t) = (case class_of key event of Some v \<Rightarrow> v | None \<Rightarrow> ct_class_code t)"
  unfolding updated_def telemetry_update_def life_of_def pet_of_def class_of_def own_key_def Let_def
  by (cases "pe_event event"; simp split: IdentityEvent.split PetEvent.split CharacterEvent.split option.split; case_tac x3; simp)+

text \<open>
  C14. The telemetry of a character is the history of its log: it is dead when its last death or
  zone entry was a death, its pet is the one whose claim was heard last, and its class the one that
  the last \<open>/who\<close> line about it or the last loaded persona gave.
\<close>

theorem telemetry_follows_the_history:
  "ct_dead (telemetry_of server character (snd (telemetry_fold events []))) = latest (life_of (telemetry_key server character)) False events
   \<and> ct_pet (telemetry_of server character (snd (telemetry_fold events []))) = latest (pet_of (telemetry_key server character)) None events
   \<and> ct_class_code (telemetry_of server character (snd (telemetry_fold events []))) = latest (class_of (telemetry_key server character)) None events"
proof -
  have "ct_dead (fold (updated key) events t) = latest (life_of key) (ct_dead t) events
    \<and> ct_pet (fold (updated key) events t) = latest (pet_of key) (ct_pet t) events
    \<and> ct_class_code (fold (updated key) events t) = latest (class_of key) (ct_class_code t) events" for key t
    by (induction events arbitrary: t) (simp_all add: latest_def updated_fields)
  then show ?thesis
    by (simp add: telemetry_fold_history [OF reducer_ok_empty]) (simp add: telemetry_of_get telemetry_default_def)
qed

lemma life_of_other: "log_event_domain e \<noteq> CharacterDomain \<Longrightarrow> life_of key (attribute_event line e) = None"
  by (cases e) (simp_all add: life_of_def attribute_event_def)

lemma life_after:
  assumes "list_all (\<lambda>e. log_event_domain e \<noteq> CharacterDomain) before" "list_all (\<lambda>e. log_event_domain e \<noteq> CharacterDomain) after"
  shows "ct_dead (telemetry_of (ls_server (raw_source line)) (ls_character (raw_source line))
      (snd (telemetry_fold (map (attribute_event line) (before @ CharacterLog event # after)) (snd (telemetry_fold earlier [])))))
    = (event = Died \<or> event \<noteq> Revived \<and> ct_dead (telemetry_of (ls_server (raw_source line)) (ls_character (raw_source line)) (snd (telemetry_fold earlier []))))"
proof -
  have keep: "list_all (\<lambda>e. log_event_domain e \<noteq> CharacterDomain) es \<Longrightarrow>
    ct_dead (fold (updated key) (map (attribute_event line) es) t) = ct_dead t" for es key t
    by (induction es arbitrary: t) (simp_all add: updated_fields life_of_other)
  let ?s = "ls_server (raw_source line)" and ?c = "ls_character (raw_source line)"
  let ?t = "telemetry_of ?s ?c (snd (telemetry_fold earlier []))"
  have "ct_dead (fold (updated (telemetry_key ?s ?c)) (map (attribute_event line) (before @ CharacterLog event # after)) ?t)
      = (case life_of (telemetry_key ?s ?c) (attribute_event line (CharacterLog event)) of Some v \<Rightarrow> v | None \<Rightarrow> ct_dead ?t)"
    by (simp only: map_append list.map fold_append fold.simps comp_def id_def keep [OF assms(1)] keep [OF assms(2)] updated_fields)
  also have "\<dots> = (event = Died \<or> event \<noteq> Revived \<and> ct_dead ?t)"
    by (cases event) (simp_all add: life_of_def attribute_event_def own_key_def)
  finally show ?thesis unfolding telemetry_fold_history [OF telemetry_fold_ok [OF reducer_ok_empty]] .
qed

section \<open>From the line to the telemetry\<close>

text \<open>One line through the registry and the reducer.\<close>

definition follow_line :: "RawLogLine \<Rightarrow> ParserRegistry \<times> TelemetryReducer \<Rightarrow> ParserRegistry \<times> TelemetryReducer" where
  "follow_line line state =
     (let (outcome, parsers) = registry_parse line (fst state)
      in (parsers, snd (telemetry_fold (po_events outcome) (snd state))))"

lemma telemetry_fold_append: "snd (telemetry_fold (xs @ ys) m) = snd (telemetry_fold ys (snd (telemetry_fold xs m)))"
  by (induction xs arbitrary: m) (simp_all add: split_def Let_def)

lemma follow_lines_reached:
  "\<exists>states events. fold follow_line lines (builtin st, snd (telemetry_fold earlier [])) = (builtin states, snd (telemetry_fold events []))"
proof (induction lines arbitrary: st earlier)
  case (Cons line lines)
  have "follow_line line (builtin st, snd (telemetry_fold earlier []))
    = (builtin (snd (identity_parse line st)), snd (telemetry_fold (earlier @ po_events (fst (registry_parse line (builtin st)))) []))"
    by (simp add: follow_line_def registry_builtin telemetry_fold_append split_def Let_def)
  then show ?case using Cons.IH by simp
qed auto

abbreviation impersonal :: "LogEvent list \<Rightarrow> bool" where
  "impersonal \<equiv> list_all (\<lambda>e. log_event_domain e \<noteq> CharacterDomain)"

lemma impersonal_parsers:
  "impersonal (casting_parse b)" "impersonal (chat_parse b)" "impersonal (combat_parse b)" "impersonal (consider_parse b)"
  "impersonal (pets_parse b)" "impersonal (progress_parse b)" "impersonal (fst (identity_parse line states))"
  by (auto simp: casting_parse_def chat_parse_def combat_parse_def consider_parse_def pets_parse_def progress_parse_def
      identity_parse_def Let_def list_all_iff split: option.split prod.split WhoParseState.split)

lemma impersonal_notifications: "impersonal (notifications_parse b)"
  unfolding notifications_parse_def named_notice_def
  by (intro option_branches [where Q = impersonal] if_branches [where Q = impersonal]) (simp_all split: prod.split)

lemma dead_after_line:
  assumes "character_parse (raw_body line) = CharacterLog event # rest" "impersonal rest"
  shows "ct_dead (telemetry_of (ls_server (raw_source line)) (ls_character (raw_source line))
      (snd (follow_line line (builtin states, snd (telemetry_fold earlier [])))))
    = (event = Died \<or> event \<noteq> Revived \<and> ct_dead (telemetry_of (ls_server (raw_source line)) (ls_character (raw_source line)) (snd (telemetry_fold earlier []))))"
proof -
  let ?b = "raw_body line"
  let ?after = "rest @ chat_parse ?b @ combat_parse ?b @ consider_parse ?b @ fst (identity_parse line states)
      @ notifications_parse ?b @ pets_parse ?b @ progress_parse ?b"
  have "snd (follow_line line (builtin states, snd (telemetry_fold earlier [])))
      = snd (telemetry_fold (map (attribute_event line) (casting_parse ?b @ CharacterLog event # ?after)) (snd (telemetry_fold earlier [])))"
    by (simp add: follow_line_def registry_builtin assms(1))
  moreover have "impersonal ?after" using assms(2) by (simp add: impersonal_parsers impersonal_notifications)
  ultimately show ?thesis using life_after [OF impersonal_parsers(1)] by (simp only:)
qed

text \<open>
  C37. From the log file to the player's state: after any history of lines, the line that reports
  a death makes the telemetry of the line's character dead, and the line that reports a zone entry
  makes it alive again, whatever the killer and the zone are called.
\<close>

theorem death_and_zone_entry_reach_the_telemetry:
  assumes "raw_body slain = SLAIN_PREFIX @ killer @ ''!''" "trim killer \<noteq> []"
    and "raw_body entered = ZONE_ENTERED_PREFIX @ zone @ ''.''" "trim zone \<noteq> []"
  shows "ct_dead (telemetry_of (ls_server (raw_source slain)) (ls_character (raw_source slain))
        (snd (fold follow_line (lines @ [slain]) (registry_default, []))))
    \<and> \<not> ct_dead (telemetry_of (ls_server (raw_source entered)) (ls_character (raw_source entered))
        (snd (fold follow_line (lines @ [entered]) (registry_default, []))))"
proof -
  obtain states events where reached: "fold follow_line lines (registry_default, []) = (builtin states, snd (telemetry_fold events []))"
    using follow_lines_reached [of lines "[]" "[]"] by (auto simp: registry_default_builtin)
  have "strip_prefix SLAIN_PREFIX (raw_body slain) = Some (killer @ ''!'')" "strip_suffix ''!'' (killer @ ''!'') = Some killer"
    by (simp_all add: strip_prefix_Some strip_suffix_Some assms(1))
  then have died: "character_parse (raw_body slain) = [CharacterLog Died]"
    using assms(2) by (simp add: character_parse_def)
  have "strip_prefix ZONE_ENTERED_PREFIX (raw_body entered) = Some (zone @ ''.'')" "strip_suffix ''.'' (zone @ ''.'') = Some zone"
    by (simp_all add: strip_prefix_Some strip_suffix_Some assms(3))
  moreover have "strip_prefix SLAIN_PREFIX (raw_body entered) = None"
    by (simp add: strip_prefix_def assms(3) SLAIN_PREFIX_def ZONE_ENTERED_PREFIX_def)
  ultimately have revived: "character_parse (raw_body entered) = [CharacterLog Revived, CombatLog (ZoneChanged (trim zone))]"
    using assms(4) by (simp add: character_parse_def)
  show ?thesis
    by (simp add: reached dead_after_line [OF died] dead_after_line [OF revived])
qed

section \<open>Witnesses\<close>

definition demo_source :: LogSource where
  "demo_source = \<lparr>ls_id = ''pid:1'', ls_character = ''Bilka'', ls_server = ''teek''\<rparr>"

definition demo_line :: "string \<Rightarrow> RawLogLine" where
  "demo_line body = \<lparr>raw_source = demo_source, raw_timestamp = None, raw_body = body\<rparr>"


theorem death_and_zone_entry_reach_the_telemetry_witness:
  "ct_dead (telemetry_of ''teek'' ''Bilka'' (snd (fold follow_line ([] @ [demo_line (SLAIN_PREFIX @ ''a rat'' @ ''!'')]) (registry_default, []))))"
proof -
  have "trim ''a rat'' \<noteq> []" "trim ''Befallen'' \<noteq> []" by code_simp+
  from death_and_zone_entry_reach_the_telemetry [of "demo_line (SLAIN_PREFIX @ ''a rat'' @ ''!'')" "''a rat''"
      "demo_line (ZONE_ENTERED_PREFIX @ ''Befallen'' @ ''.'')" "''Befallen''" "[]"] this
  show ?thesis by (simp add: demo_line_def demo_source_def)
qed

end
