(* ===== verification/Log_Tailer.thy ===== *)
theory Log_Tailer
  imports Eq_Text Ordered_Map Combat_Model
begin

text \<open>
  The byte-offset tailer (\<^verbatim>\<open>crates/stonemite/src/log_watcher/tailer.rs\<close>) and the
  diagnostics of the log watcher.

  What the file system answers when a path is opened is an argument: the identity of the file,
  its length, its bytes, and for every \<open>read\<close> how many bytes it gives at most or why it fails.
  Hash maps are ordered by their keys; the tailer only iterates over them to collect lists.
\<close>

section \<open>Diagnostics\<close>

datatype DiagnosticKind = WatcherStartup | WatcherError | FileRead | FileReset | ParserDiagnostic | CombatDiagnostic
  | ReconciliationDiagnostic

record LogDiagnostic =
  ld_kind :: DiagnosticKind
  ld_path :: "string option"
  ld_message :: string

fun kind_name :: "DiagnosticKind \<Rightarrow> string" where
  "kind_name WatcherStartup = ''log watcher startup''"
| "kind_name WatcherError = ''log watcher''"
| "kind_name FileRead = ''log read''"
| "kind_name FileReset = ''log reset''"
| "kind_name ParserDiagnostic = ''log parser''"
| "kind_name CombatDiagnostic = ''combat engine''"
| "kind_name ReconciliationDiagnostic = ''log reconciliation''"

definition log_diagnostic_display :: "LogDiagnostic \<Rightarrow> string" where
  "log_diagnostic_display d =
     (case ld_path d of
        Some path \<Rightarrow> kind_name (ld_kind d) @ '' ('' @ path @ ''): '' @ ld_message d
      | None \<Rightarrow> kind_name (ld_kind d) @ '': '' @ ld_message d)"

definition file_diagnostic :: "DiagnosticKind \<Rightarrow> string \<Rightarrow> string \<Rightarrow> LogDiagnostic" where
  "file_diagnostic kind path message = \<lparr>ld_kind = kind, ld_path = Some path, ld_message = message\<rparr>"

section \<open>Data\<close>

definition READ_CHUNK_BYTES :: nat where "READ_CHUNK_BYTES = 64 * 1024"
definition SIGNATURE_BYTES :: nat where "SIGNATURE_BYTES = 64"
definition MAX_LINE_BYTES :: nat where "MAX_LINE_BYTES = 1024 * 1024"

record ReadBudget =
  rb_bytes :: nat
  rb_records :: nat

definition read_budget_default :: ReadBudget where
  "read_budget_default = \<lparr>rb_bytes = 256 * 1024, rb_records = 256\<rparr>"

record SourceSpec =
  sp_path :: string
  sp_source :: LogSource

record SourceGapNotice =
  sg_source :: LogSource
  sg_generation :: nat
  sg_reason :: GapReason

record TailedRecord =
  tr_id :: SourceRecordId
  tr_line :: RawLogLine

record SyncOutcome =
  so_removed_sources :: "LogSource list"
  so_gaps :: "SourceGapNotice list"
  so_diagnostics :: "LogDiagnostic list"

record ReadOutcome =
  ro_lines :: "TailedRecord list"
  ro_gaps :: "SourceGapNotice list"
  ro_stable_eof :: "(LogSourceId \<times> nat) option"
  ro_diagnostics :: "LogDiagnostic list"
  ro_more_work :: bool

definition read_outcome_default :: ReadOutcome where
  "read_outcome_default = \<lparr>ro_lines = [], ro_gaps = [], ro_stable_eof = None, ro_diagnostics = [], ro_more_work = False\<rparr>"

record FileIdentity =
  fi_volume_serial :: "nat option"
  fi_file_index :: "nat option"
  fi_creation_time :: nat

record FileState =
  fs_path :: string
  fs_source :: LogSource
  fs_initialized :: bool
  fs_identity :: "FileIdentity option"
  fs_offset :: nat
  fs_pending :: string
  fs_discard_until_newline :: bool
  fs_signature :: string
  fs_generation :: nat
  fs_next_sequence :: nat

definition file_state_absent :: "string \<Rightarrow> LogSource \<Rightarrow> FileState" where
  "file_state_absent path source = \<lparr>fs_path = path, fs_source = source, fs_initialized = False, fs_identity = None,
     fs_offset = 0, fs_pending = [], fs_discard_until_newline = False, fs_signature = [], fs_generation = 0, fs_next_sequence = 0\<rparr>"

type_synonym PathKey = string

definition path_key :: "string \<Rightarrow> PathKey" where
  "path_key path = to_ascii_lowercase (map (\<lambda>c. if c = CHR ''/'' then CHR 0x5C else c) path)"

type_synonym LogTailer = "(PathKey, FileState) btree_map"

section \<open>The file system's answers\<close>

record LogFile =
  lf_identity :: FileIdentity
  lf_metadata :: "string + nat"
  lf_content :: string
  lf_seek_error :: "string option"
  lf_reads :: "(string + nat) list"
  lf_latest_len :: "nat option"

datatype OpenAnswer = NotFound | OpenError string | Opened LogFile

text \<open>\<open>read_exact\<close> after a \<open>seek\<close>.\<close>

definition read_exact_at :: "LogFile \<Rightarrow> nat \<Rightarrow> nat \<Rightarrow> string + string" where
  "read_exact_at file offset n =
     (case lf_seek_error file of
        Some error \<Rightarrow> Inl error
      | None \<Rightarrow> if offset + n \<le> length (lf_content file) then Inr (take n (drop offset (lf_content file)))
          else Inl ''failed to fill whole buffer'')"

text \<open>One \<open>read\<close> into a buffer: at least a byte unless the file ends, at most what the answer allows.\<close>

fun read_once :: "LogFile \<Rightarrow> (string + nat) list \<Rightarrow> nat \<Rightarrow> nat \<Rightarrow> string + string" where
  "read_once file [] offset n = Inr (take n (drop offset (lf_content file)))"
| "read_once file (Inl error # _) offset n = Inl error"
| "read_once file (Inr atmost # _) offset n = Inr (take (min n (max 1 atmost)) (drop offset (lf_content file)))"

section \<open>Signatures\<close>

definition read_suffix :: "LogFile \<Rightarrow> nat \<Rightarrow> string + string" where
  "read_suffix file offset =
     (let n = min offset SIGNATURE_BYTES in if n = 0 then Inr [] else read_exact_at file (offset - n) n)"

definition signature_matches :: "LogFile \<Rightarrow> nat \<Rightarrow> string \<Rightarrow> string + bool" where
  "signature_matches file offset expected =
     (if expected = [] then Inr True
      else map_sum id (\<lambda>actual. actual = expected) (read_exact_at file (offset - length expected) (length expected)))"

definition extend_signature :: "string \<Rightarrow> string \<Rightarrow> string" where
  "extend_signature signature bytes =
     (if SIGNATURE_BYTES \<le> length bytes then drop (length bytes - SIGNATURE_BYTES) bytes
      else let overflow = length signature + length bytes - SIGNATURE_BYTES
           in drop overflow signature @ bytes)"

section \<open>Framing\<close>

lemma u64_saturating_add_int [code]: "u64_saturating_add a b = nat (min (int a + int b) 18446744073709551615)"
  by (simp add: u64_saturating_add_def u64_max_def)

definition advance_generation :: "FileState \<Rightarrow> FileState" where
  "advance_generation state = state\<lparr>fs_generation := u64_saturating_add (fs_generation state) 1, fs_next_sequence := 0\<rparr>"

definition reset_generation :: "FileIdentity \<Rightarrow> FileState \<Rightarrow> FileState" where
  "reset_generation identity state = advance_generation (state\<lparr>fs_identity := Some identity, fs_offset := 0, fs_pending := [],
     fs_discard_until_newline := False, fs_signature := []\<rparr>)"

definition append_bytes :: "string \<Rightarrow> FileState \<Rightarrow> FileState" where
  "append_bytes bytes state =
     (if \<not> fs_discard_until_newline state then state\<lparr>fs_pending := fs_pending state @ bytes\<rparr>
      else case find_byte (CHR 0x0A) bytes of
        Some newline \<Rightarrow> state\<lparr>fs_discard_until_newline := False, fs_pending := fs_pending state @ drop (Suc newline) bytes\<rparr>
      | None \<Rightarrow> state)"

definition pending_has_complete_line :: "FileState \<Rightarrow> bool" where
  "pending_has_complete_line state = (CHR 0x0A \<in> set (fs_pending state))"

definition strip_carriage_return :: "string \<Rightarrow> string" where
  "strip_carriage_return line = (if line \<noteq> [] \<and> last line = CHR 0x0D then butlast line else line)"

definition oversized :: "string \<Rightarrow> bool" where
  "oversized line = (MAX_LINE_BYTES < length line)"

lemma oversized_code [code]: "oversized line = (1048576 < int (length line))"
  by (auto simp: oversized_def MAX_LINE_BYTES_def)

definition gap_notice :: "FileState \<Rightarrow> GapReason \<Rightarrow> SourceGapNotice" where
  "gap_notice state reason = \<lparr>sg_source = fs_source state, sg_generation = fs_generation state, sg_reason = reason\<rparr>"

definition oversized_text :: string where "oversized_text = ''discarded a log record larger than 1048576 bytes''"
definition discarding_text :: string where
  "discarding_text = ''discarding bytes until newline after a record exceeded 1048576 bytes''"

definition emit_record :: "civil_parser \<Rightarrow> string \<Rightarrow> FileState \<times> ReadOutcome \<Rightarrow> FileState \<times> ReadOutcome" where
  "emit_record civil line so =
     (let (state, outcome) = so;
          decoded = decode civil (fs_source state) line;
          diagnosed = (if dec_had_invalid_utf8 decoded
            then outcome\<lparr>ro_diagnostics := ro_diagnostics outcome @ [file_diagnostic FileRead (fs_path state)
              ''replaced invalid UTF-8 in one complete log record'']\<rparr> else outcome);
          rid = \<lparr>rid_source = ls_id (fs_source state), rid_generation = fs_generation state, rid_sequence = fs_next_sequence state\<rparr>
      in (state\<lparr>fs_next_sequence := u64_saturating_add (fs_next_sequence state) 1\<rparr>,
          diagnosed\<lparr>ro_lines := ro_lines diagnosed @ [\<lparr>tr_id = rid, tr_line = dec_line decoded\<rparr>]\<rparr>))"

definition report_gap :: "GapReason \<Rightarrow> string \<Rightarrow> FileState \<times> ReadOutcome \<Rightarrow> FileState \<times> ReadOutcome" where
  "report_gap reason message so =
     (let state = advance_generation (fst so); outcome = snd so
      in (state, outcome\<lparr>ro_gaps := ro_gaps outcome @ [gap_notice state reason],
            ro_diagnostics := ro_diagnostics outcome @ [file_diagnostic FileRead (fs_path state) message]\<rparr>))"

text \<open>The loop over complete lines: the bytes not yet consumed, and how many records may still be emitted.\<close>

lemma find_byte_bound: "find_byte c s = Some i \<Longrightarrow> i < length s"
  by (induction s arbitrary: i) (auto split: if_splits)

function extract_loop :: "civil_parser \<Rightarrow> nat \<Rightarrow> string \<Rightarrow> FileState \<times> ReadOutcome \<Rightarrow> string \<times> FileState \<times> ReadOutcome" where
  "extract_loop civil allowed rest so =
     (if allowed = 0 then (rest, so)
      else case find_byte (CHR 0x0A) rest of
        None \<Rightarrow> (rest, so)
      | Some newline \<Rightarrow>
          let line = strip_carriage_return (take newline rest); remaining = drop (Suc newline) rest
          in if oversized line then extract_loop civil allowed remaining (report_gap OversizedRecord oversized_text so)
             else extract_loop civil (allowed - 1) remaining (emit_record civil line so))"
  by pat_completeness auto
termination
  by (relation "measure (\<lambda>(civil, allowed, rest, so). length rest)") (auto dest: find_byte_bound)

declare extract_loop.simps [simp del]

definition extract_complete_lines :: "civil_parser \<Rightarrow> nat \<Rightarrow> FileState \<times> ReadOutcome \<Rightarrow> FileState \<times> ReadOutcome" where
  "extract_complete_lines civil max_records so =
     (if max_records = 0 \<or> fs_pending (fst so) = [] then so
      else let (rest, state, outcome) = extract_loop civil max_records (fs_pending (fst so)) so;
               state' = state\<lparr>fs_pending := rest\<rparr>
           in if oversized rest \<and> CHR 0x0A \<notin> set rest
              then report_gap DiscardUntilNewline discarding_text
                     (state'\<lparr>fs_pending := [], fs_discard_until_newline := True\<rparr>, outcome)
              else (state', outcome))"

section \<open>Reading a file\<close>

text \<open>Positioned at the end, with the error of reading the signature, if any.\<close>

definition initialize_at_end :: "LogFile \<Rightarrow> nat \<Rightarrow> FileState \<Rightarrow> string option \<times> FileState" where
  "initialize_at_end file file_len state =
     (let state = state\<lparr>fs_initialized := True, fs_identity := Some (lf_identity file), fs_offset := file_len, fs_pending := []\<rparr>
      in case read_suffix file file_len of
           Inl error \<Rightarrow> (Some error, state)
         | Inr signature \<Rightarrow>
             (None, state\<lparr>fs_signature := signature,
                fs_discard_until_newline := (0 < file_len \<and> (signature = [] \<or> last signature \<noteq> CHR 0x0A))\<rparr>))"

definition add_diagnostic :: "DiagnosticKind \<Rightarrow> string \<Rightarrow> string \<Rightarrow> ReadOutcome \<Rightarrow> ReadOutcome" where
  "add_diagnostic kind path message outcome = outcome\<lparr>ro_diagnostics := ro_diagnostics outcome @ [file_diagnostic kind path message]\<rparr>"

definition chunk_size :: "ReadBudget \<Rightarrow> nat" where
  "chunk_size budget = min READ_CHUNK_BYTES (max (rb_bytes budget) 1)"

lemma chunk_size_code [code]:
  "chunk_size budget = (if 65536 \<le> int (rb_bytes budget) then READ_CHUNK_BYTES else max (rb_bytes budget) 1)"
  by (auto simp: chunk_size_def READ_CHUNK_BYTES_def)

function read_loop :: "civil_parser \<Rightarrow> ReadBudget \<Rightarrow> LogFile \<Rightarrow> (string + nat) list \<Rightarrow> nat \<Rightarrow> FileState \<times> ReadOutcome \<Rightarrow> FileState \<times> ReadOutcome" where
  "read_loop civil budget file answers bytes_read so =
     (if \<not> (bytes_read < rb_bytes budget \<and> length (ro_lines (snd so)) < rb_records budget) then so
      else case read_once file answers (fs_offset (fst so)) (min (rb_bytes budget - bytes_read) (chunk_size budget)) of
        Inl error \<Rightarrow> (fst so, add_diagnostic FileRead (fs_path (fst so))
            (''read failed at byte '' @ nat_to_dec (fs_offset (fst so)) @ '': '' @ error) (snd so))
      | Inr bytes \<Rightarrow>
          if bytes = [] then so
          else let state = fst so;
                   state' = append_bytes bytes (state\<lparr>fs_offset := fs_offset state + length bytes,
                     fs_signature := extend_signature (fs_signature state) bytes\<rparr>);
                   so' = extract_complete_lines civil (rb_records budget - length (ro_lines (snd so))) (state', snd so)
               in read_loop civil budget file (drop 1 answers) (bytes_read + length bytes) so')"
  by pat_completeness auto
termination
  by (relation "measure (\<lambda>(civil, budget, file, answers, bytes_read, so). rb_bytes budget - bytes_read)")
    (auto intro!: diff_less_mono2)

declare read_loop.simps [simp del]

definition reset_cause :: "LogFile \<Rightarrow> nat \<Rightarrow> FileState \<Rightarrow> (string \<times> GapReason) option" where
  "reset_cause file len state =
     (let recreated = is_some_and (fs_identity state) (\<lambda>identity. identity \<noteq> lf_identity file);
          shrank = len < fs_offset state;
          boundary_changed = (\<not> recreated \<and> \<not> shrank \<and> fs_signature state \<noteq> []
            \<and> signature_matches file (fs_offset state) (fs_signature state) \<noteq> Inr True)
      in if recreated then Some (''file was recreated'', FileRecreated)
         else if shrank then Some (''file was truncated'', FileTruncated)
         else if boundary_changed then Some (''file contents changed before the stored offset'', BoundaryChanged)
         else None)"

definition settle_identity :: "LogFile \<Rightarrow> nat \<Rightarrow> FileState \<times> ReadOutcome \<Rightarrow> FileState \<times> ReadOutcome" where
  "settle_identity file len so =
     (case reset_cause file len (fst so) of
        Some (cause, reason) \<Rightarrow>
          let state = reset_generation (lf_identity file) (fst so); outcome = snd so
          in (state, add_diagnostic FileReset (fs_path state) (cause @ ''; restarting at byte zero'')
                (outcome\<lparr>ro_gaps := ro_gaps outcome @ [gap_notice state reason]\<rparr>))
      | None \<Rightarrow> (fst so\<lparr>fs_identity := Some (lf_identity file)\<rparr>, snd so))"

definition finish_read :: "LogFile \<Rightarrow> nat \<Rightarrow> FileState \<times> ReadOutcome \<Rightarrow> FileState \<times> ReadOutcome" where
  "finish_read file len so =
     (let (state, outcome) = so;
          latest_len = unwrap_or (lf_latest_len file) len;
          more_work = (pending_has_complete_line state \<or> latest_len > fs_offset state);
          stable = (\<not> more_work \<and> fs_pending state = [] \<and> \<not> fs_discard_until_newline state \<and> latest_len = fs_offset state)
      in (state, outcome\<lparr>ro_more_work := more_work,
            ro_stable_eof := (if stable then Some (ls_id (fs_source state), fs_generation state) else ro_stable_eof outcome)\<rparr>))"

definition read_opened :: "civil_parser \<Rightarrow> ReadBudget \<Rightarrow> LogFile \<Rightarrow> nat \<Rightarrow> FileState \<Rightarrow> FileState \<times> ReadOutcome" where
  "read_opened civil budget file len state =
     (let so = extract_complete_lines civil (rb_records budget) (settle_identity file len (state, read_outcome_default))
      in if rb_records budget \<le> length (ro_lines (snd so))
         then (fst so, (snd so)\<lparr>ro_more_work := pending_has_complete_line (fst so) \<or> len > fs_offset (fst so)\<rparr>)
         else case lf_seek_error file of
           Some _ \<Rightarrow> (fst so, add_diagnostic FileRead (fs_path (fst so))
               (''could not seek to byte '' @ nat_to_dec (fs_offset (fst so))) (snd so))
         | None \<Rightarrow> finish_read file len (read_loop civil budget file (lf_reads file) 0 so))"

definition read_file :: "civil_parser \<Rightarrow> ReadBudget \<Rightarrow> OpenAnswer \<Rightarrow> FileState \<Rightarrow> FileState \<times> ReadOutcome" where
  "read_file civil budget answer state =
     (case answer of
        NotFound \<Rightarrow> (state, read_outcome_default)
      | OpenError error \<Rightarrow> (state, add_diagnostic FileRead (fs_path state) (''could not open log: '' @ error) read_outcome_default)
      | Opened file \<Rightarrow>
          (case lf_metadata file of
             Inl error \<Rightarrow> (state, add_diagnostic FileRead (fs_path state) (''could not read metadata: '' @ error) read_outcome_default)
           | Inr len \<Rightarrow>
               if \<not> fs_initialized state
               then (case initialize_at_end file len state of
                       (Some error, state') \<Rightarrow> (state', add_diagnostic FileRead (fs_path state')
                          (''could not initialize at EOF: '' @ error) read_outcome_default)
                     | (None, state') \<Rightarrow> (state', read_outcome_default))
               else read_opened civil budget file len state))"

section \<open>The tailer\<close>

definition tailer_new :: LogTailer where "tailer_new = []"

definition tracked_paths :: "LogTailer \<Rightarrow> string list" where
  "tracked_paths files = map fs_path (bm_values files)"

definition tracked_sources :: "LogTailer \<Rightarrow> (LogSource \<times> nat) list" where
  "tracked_sources files = map (\<lambda>state. (fs_source state, fs_generation state)) (bm_values files)"

definition is_tracked :: "string \<Rightarrow> LogTailer \<Rightarrow> bool" where
  "is_tracked path files = bm_contains files (path_key path)"

definition read_path :: "civil_parser \<Rightarrow> ReadBudget \<Rightarrow> (string \<Rightarrow> OpenAnswer) \<Rightarrow> string \<Rightarrow> LogTailer \<Rightarrow> LogTailer \<times> ReadOutcome" where
  "read_path civil budget open_file path files =
     (case bm_get files (path_key path) of
        None \<Rightarrow> (files, read_outcome_default)
      | Some state \<Rightarrow>
          let (state', outcome) = read_file civil budget (open_file (fs_path state)) state
          in (bm_insert (path_key path) state' files, outcome))"

text \<open>\<open>entry(key).or_insert(spec)\<close> over the wanted sources: the first of two with one path stays.\<close>

definition expected_sources :: "SourceSpec list \<Rightarrow> (PathKey, SourceSpec) btree_map" where
  "expected_sources specs = fold (\<lambda>spec expected.
      if bm_contains expected (path_key (sp_path spec)) then expected else bm_insert (path_key (sp_path spec)) spec expected) specs []"

definition reassociate :: "SourceSpec \<Rightarrow> FileState \<Rightarrow> FileState \<times> SourceGapNotice" where
  "reassociate spec state =
     (let advanced = advance_generation state;
          cut = (if fs_pending advanced \<noteq> [] \<or> fs_discard_until_newline advanced
            then advanced\<lparr>fs_pending := [], fs_discard_until_newline := True\<rparr> else advanced)
      in (cut\<lparr>fs_source := sp_source spec\<rparr>,
          \<lparr>sg_source = fs_source state, sg_generation = fs_generation cut, sg_reason = SourceReassociated\<rparr>))"

definition open_source :: "OpenAnswer \<Rightarrow> SourceSpec \<Rightarrow> FileState \<times> LogDiagnostic list" where
  "open_source answer spec =
     (let state = file_state_absent (sp_path spec) (sp_source spec)
      in case answer of
           NotFound \<Rightarrow> (state, [])
         | OpenError error \<Rightarrow> (state, [file_diagnostic FileRead (sp_path spec) (''could not open log: '' @ error)])
         | Opened file \<Rightarrow>
             (case lf_metadata file of
                Inl error \<Rightarrow> (state, [file_diagnostic FileRead (sp_path spec) (''could not read metadata: '' @ error)])
              | Inr len \<Rightarrow>
                  (case initialize_at_end file len state of
                     (Some error, state') \<Rightarrow> (state', [file_diagnostic FileRead (sp_path spec) (''could not initialize at EOF: '' @ error)])
                   | (None, state') \<Rightarrow> (state', []))))"

definition sync_one :: "(string \<Rightarrow> OpenAnswer) \<Rightarrow> PathKey \<times> SourceSpec \<Rightarrow> LogTailer \<times> SyncOutcome \<Rightarrow> LogTailer \<times> SyncOutcome" where
  "sync_one open_file entry fo =
     (let (key, spec) = entry; (files, outcome) = fo
      in case bm_get files key of
           Some state \<Rightarrow>
             if fs_source state \<noteq> sp_source spec
             then let (state', gap) = reassociate spec state
                  in (bm_insert key (state'\<lparr>fs_path := sp_path spec\<rparr>) files,
                      outcome\<lparr>so_removed_sources := so_removed_sources outcome @ [fs_source state],
                        so_gaps := so_gaps outcome @ [gap]\<rparr>)
             else (bm_insert key (state\<lparr>fs_path := sp_path spec\<rparr>) files, outcome)
         | None \<Rightarrow>
             let (state, diagnostics) = open_source (open_file (sp_path spec)) spec
             in (bm_insert key state files, outcome\<lparr>so_diagnostics := so_diagnostics outcome @ diagnostics\<rparr>))"

definition sync_sources :: "(string \<Rightarrow> OpenAnswer) \<Rightarrow> SourceSpec list \<Rightarrow> LogTailer \<Rightarrow> LogTailer \<times> SyncOutcome" where
  "sync_sources open_file specs files =
     (let expected = expected_sources specs;
          removed = map fs_source (bm_values (filter (\<lambda>(key, _). \<not> bm_contains expected key) files));
          kept = filter (\<lambda>(key, _). bm_contains expected key) files
      in fold (sync_one open_file) expected (kept, \<lparr>so_removed_sources = removed, so_gaps = [], so_diagnostics = []\<rparr>))"

end
