(* ===== verification/Log_Framing.thy ===== *)
theory Log_Framing
  imports Log_Tailer
begin

text \<open>
  What the tailer promises of a growing file: every complete line appended after it was
  opened is delivered once, in order, whatever the sizes of the reads and the budgets; a line
  that was already begun is skipped; identifiers of records strictly increase.
\<close>

section \<open>Framing a byte string\<close>

function frame :: "string \<Rightarrow> string list \<times> string" where
  "frame bs = (case find_byte (CHR 0x0A) bs of
      None \<Rightarrow> ([], bs)
    | Some i \<Rightarrow> (strip_carriage_return (take i bs) # fst (frame (drop (Suc i) bs)), snd (frame (drop (Suc i) bs))))"
  by pat_completeness auto
termination
  by (relation "measure length") (auto dest: find_byte_bound)

declare frame.simps [simp del]

lemma find_byte_None: "find_byte c s = None \<longleftrightarrow> c \<notin> set s"
  by (induction s) auto

lemma find_byte_absent [simp]: "c \<notin> set s \<Longrightarrow> find_byte c s = None"
  by (simp add: find_byte_None)

lemma find_byte_take: "find_byte c s = Some i \<Longrightarrow> c \<notin> set (take i s)"
  by (induction s arbitrary: i) (auto split: if_splits)

lemma find_byte_append_first: "find_byte c s = Some i \<Longrightarrow> find_byte c (s @ t) = Some i"
  by (induction s arbitrary: i) (auto split: if_splits)

lemma frame_none: "CHR 0x0A \<notin> set bs \<Longrightarrow> frame bs = ([], bs)"
  by (simp add: frame.simps [of bs])

lemma frame_nil [simp]: "frame [] = ([], [])"
  by (simp add: frame_none)

lemma frame_rest_no_newline: "CHR 0x0A \<notin> set (snd (frame bs))"
proof (induction bs rule: frame.induct)
  case (1 bs)
  then show ?case by (cases "find_byte (CHR 0x0A) bs") (simp_all add: frame.simps [of bs], simp add: find_byte_None)
qed

lemma frame_append:
  "frame (a @ b) = (fst (frame a) @ fst (frame (snd (frame a) @ b)), snd (frame (snd (frame a) @ b)))"
proof (induction a rule: frame.induct)
  case (1 a)
  show ?case
  proof (cases "find_byte (CHR 0x0A) a")
    case None
    then show ?thesis by (simp add: frame_none find_byte_None)
  next
    case (Some i)
    then have "i < length a" by (rule find_byte_bound)
    then show ?thesis using 1 [OF Some] Some find_byte_append_first [OF Some, of b]
      by (simp add: frame.simps [of a] frame.simps [of "a @ b"])
  qed
qed

text \<open>The bytes after the first newline, if there is one.\<close>

definition after_newline :: "string \<Rightarrow> string option" where
  "after_newline bs = map_option (\<lambda>i. drop (Suc i) bs) (find_byte (CHR 0x0A) bs)"

lemma after_newline_None: "after_newline bs = None \<longleftrightarrow> CHR 0x0A \<notin> set bs"
  by (simp add: after_newline_def find_byte_None)

lemma after_newline_suffix: "after_newline w = Some v \<Longrightarrow> \<exists>p. w = p @ v"
  unfolding after_newline_def by (metis (no_types, lifting) append_take_drop_id map_option_eq_Some)

lemma after_newline_append: "after_newline a = Some r \<Longrightarrow> after_newline (a @ b) = Some (r @ b)"
  using find_byte_append_first [of "CHR 0x0A" a _ b] find_byte_bound [of "CHR 0x0A" a]
  by (fastforce simp: after_newline_def)

lemma after_newline_skip: "CHR 0x0A \<notin> set a \<Longrightarrow> after_newline (a @ b) = after_newline b"
  by (induction a) (auto simp: after_newline_def option.map_comp comp_def)

section \<open>No line is too long\<close>

definition fits :: "string \<Rightarrow> bool" where
  "fits bs = (\<forall>a m b. bs = a @ m @ b \<longrightarrow> CHR 0x0A \<notin> set m \<longrightarrow> length m \<le> MAX_LINE_BYTES)"

lemma fits_part: "fits (a @ m @ b) \<Longrightarrow> fits m"
  unfolding fits_def by (metis append.assoc)

lemma fits_line: "fits bs \<Longrightarrow> find_byte (CHR 0x0A) bs = Some i \<Longrightarrow> length (take i bs) \<le> MAX_LINE_BYTES"
  using find_byte_take [of "CHR 0x0A" bs i] unfolding fits_def
  by (metis append_Nil append_take_drop_id)

lemma fits_rest: "fits bs \<Longrightarrow> CHR 0x0A \<notin> set bs \<Longrightarrow> length bs \<le> MAX_LINE_BYTES"
  unfolding fits_def by (metis append_Nil append_Nil2)

lemma short_fits: "length bs \<le> MAX_LINE_BYTES \<Longrightarrow> fits bs"
  by (auto simp: fits_def)

lemma length_strip_carriage_return: "length (strip_carriage_return s) \<le> length s"
  by (simp add: strip_carriage_return_def)

section \<open>Extraction\<close>

definition line_record :: "civil_parser \<Rightarrow> LogSource \<Rightarrow> string \<Rightarrow> RawLogLine" where
  "line_record civil source line = dec_line (decode civil source line)"

text \<open>The lines moved from the pending bytes to the outcome; nothing else of the state changes.\<close>

definition moved :: "civil_parser \<Rightarrow> string \<Rightarrow> FileState \<times> ReadOutcome \<Rightarrow> string \<Rightarrow> FileState \<times> ReadOutcome \<Rightarrow> string list \<Rightarrow> bool" where
  "moved civil rest so rest' so' emitted =
     ((\<exists>a. rest = a @ rest')
      \<and> fst (frame rest) = emitted @ fst (frame rest') \<and> snd (frame rest) = snd (frame rest')
      \<and> map tr_line (ro_lines (snd so')) = map tr_line (ro_lines (snd so)) @ map (line_record civil (fs_source (fst so))) emitted
      \<and> ro_gaps (snd so') = ro_gaps (snd so) \<and> ro_stable_eof (snd so') = ro_stable_eof (snd so)
      \<and> (\<exists>n. fst so' = fst so\<lparr>fs_next_sequence := n\<rparr>))"

lemma emit_record_moved:
  "map tr_line (ro_lines (snd (emit_record civil line so))) = map tr_line (ro_lines (snd so)) @ [line_record civil (fs_source (fst so)) line]"
  "ro_gaps (snd (emit_record civil line so)) = ro_gaps (snd so)" "ro_stable_eof (snd (emit_record civil line so)) = ro_stable_eof (snd so)"
  "fst (emit_record civil line so) = fst so\<lparr>fs_next_sequence := u64_saturating_add (fs_next_sequence (fst so)) 1\<rparr>"
  by (simp_all add: emit_record_def line_record_def Let_def split_def)

lemma extract_loop_moved:
  "fits rest \<Longrightarrow> \<exists>emitted. moved civil rest so (fst (extract_loop civil allowed rest so)) (snd (extract_loop civil allowed rest so)) emitted
     \<and> (length emitted = allowed \<or> CHR 0x0A \<notin> set (fst (extract_loop civil allowed rest so)))"
proof (induction civil allowed rest so rule: extract_loop.induct)
  case (1 civil allowed rest so)
  show ?case
  proof (cases "allowed = 0 \<or> find_byte (CHR 0x0A) rest = None")
    case True
    then have "extract_loop civil allowed rest so = (rest, so)" by (auto simp: extract_loop.simps [of civil allowed])
    moreover have "moved civil rest so rest so []"
      by (auto simp: moved_def intro: exI [of _ "fs_next_sequence (fst so)"])
    ultimately show ?thesis using True by (force simp: find_byte_None)
  next
    case False
    then obtain i where i: "find_byte (CHR 0x0A) rest = Some i" and pos: "allowed \<noteq> 0" by auto
    let ?line = "strip_carriage_return (take i rest)" and ?remaining = "drop (Suc i) rest"
    have small: "\<not> oversized ?line"
      using le_trans [OF length_strip_carriage_return fits_line [OF 1(3) i]] by (simp add: oversized_def)
    have step: "extract_loop civil allowed rest so = extract_loop civil (allowed - 1) ?remaining (emit_record civil ?line so)"
      using pos i small by (simp add: extract_loop.simps [of civil allowed rest])
    have rest: "rest = take (Suc i) rest @ ?remaining" by simp
    then have "fits ?remaining" using fits_part [of "take (Suc i) rest" ?remaining "[]"] 1(3) by simp
    from 1(2) [OF pos i refl refl small this] obtain emitted where e:
      "moved civil ?remaining (emit_record civil ?line so) (fst (extract_loop civil allowed rest so)) (snd (extract_loop civil allowed rest so)) emitted"
      "length emitted = allowed - 1 \<or> CHR 0x0A \<notin> set (fst (extract_loop civil allowed rest so))"
      unfolding step by blast
    have "moved civil rest so (fst (extract_loop civil allowed rest so)) (snd (extract_loop civil allowed rest so)) (?line # emitted)"
    proof -
      from e(1) obtain a where "?remaining = a @ fst (extract_loop civil allowed rest so)" by (auto simp: moved_def)
      then have "rest = (take (Suc i) rest @ a) @ fst (extract_loop civil allowed rest so)" using rest by simp
      moreover have "frame rest = (?line # fst (frame ?remaining), snd (frame ?remaining))"
        using i by (simp add: frame.simps [of rest])
      ultimately show ?thesis using e(1) unfolding moved_def emit_record_moved by (auto simp del: append_assoc)
    qed
    then show ?thesis using e(2) pos by (metis Suc_pred' length_Cons not_gr_zero)
  qed
qed

lemma extract_complete_lines_moved:
  assumes "fits (fs_pending (fst so))"
  shows "\<exists>emitted n. extract_complete_lines civil allowed so
      = (fst so\<lparr>fs_next_sequence := n, fs_pending := fs_pending (fst (extract_complete_lines civil allowed so))\<rparr>, snd (extract_complete_lines civil allowed so))
    \<and> moved civil (fs_pending (fst so)) so (fs_pending (fst (extract_complete_lines civil allowed so)))
        (fst so\<lparr>fs_next_sequence := n\<rparr>, snd (extract_complete_lines civil allowed so)) emitted
    \<and> (length emitted = allowed \<or> CHR 0x0A \<notin> set (fs_pending (fst (extract_complete_lines civil allowed so))))"
proof (cases "allowed = 0 \<or> fs_pending (fst so) = []")
  case True
  then have same: "extract_complete_lines civil allowed so = so" by (simp add: extract_complete_lines_def)
  have "moved civil (fs_pending (fst so)) so (fs_pending (fst so)) (fst so\<lparr>fs_next_sequence := fs_next_sequence (fst so)\<rparr>, snd so) []"
    by (auto simp: moved_def intro: exI [of _ "fs_next_sequence (fst so)"])
  moreover have "so = (fst so\<lparr>fs_next_sequence := fs_next_sequence (fst so), fs_pending := fs_pending (fst so)\<rparr>, snd so)" by simp
  ultimately show ?thesis using True unfolding same by (intro exI [of _ "[]"] exI [of _ "fs_next_sequence (fst so)"]) auto
next
  case False
  obtain rest st out where loop: "extract_loop civil allowed (fs_pending (fst so)) so = (rest, st, out)"
    by (metis surj_pair)
  from extract_loop_moved [OF assms, of civil so allowed] obtain emitted where e:
    "moved civil (fs_pending (fst so)) so rest (st, out) emitted" "length emitted = allowed \<or> CHR 0x0A \<notin> set rest"
    by (auto simp: loop)
  then obtain a n where "fs_pending (fst so) = a @ rest" "st = fst so\<lparr>fs_next_sequence := n\<rparr>" by (auto simp: moved_def)
  note parts = this
  have "fits rest" using fits_part [of a rest "[]"] assms parts(1) by simp
  then have "\<not> (oversized rest \<and> CHR 0x0A \<notin> set rest)" using fits_rest [of rest] unfolding oversized_def by linarith
  then have result: "extract_complete_lines civil allowed so = (st\<lparr>fs_pending := rest\<rparr>, out)"
    using False loop by (auto simp: extract_complete_lines_def)
  show ?thesis using e parts(2) unfolding result by (intro exI [of _ emitted] exI [of _ n]) auto
qed

section \<open>A file that grows\<close>

definition last_bytes :: "string \<Rightarrow> string" where
  "last_bytes c = drop (length c - min (length c) SIGNATURE_BYTES) c"

lemma extend_last_bytes: "extend_signature (last_bytes c) bytes = last_bytes (c @ bytes)"
proof (cases "SIGNATURE_BYTES \<le> length bytes")
  case True
  then have "length (c @ bytes) - min (length (c @ bytes)) SIGNATURE_BYTES = length c + (length bytes - SIGNATURE_BYTES)"
    by (simp add: min_def)
  then show ?thesis using True by (simp add: extend_signature_def last_bytes_def)
next
  case False
  then show ?thesis
    by (cases "length c + length bytes \<le> SIGNATURE_BYTES")
      (auto simp: extend_signature_def last_bytes_def Let_def min_def add.commute)
qed

lemma last_last_bytes: "c \<noteq> [] \<Longrightarrow> last (last_bytes c) = last c \<and> last_bytes c \<noteq> []"
  by (auto simp: last_bytes_def SIGNATURE_BYTES_def min_def)

text \<open>What of the appended bytes counts: all of them, or those after the first newline.\<close>

definition started :: "string \<Rightarrow> string \<Rightarrow> string option" where
  "started c0 new = (if c0 = [] \<or> last c0 = CHR 0x0A then Some new else after_newline new)"

lemma started_append: "started c0 w = Some v \<Longrightarrow> started c0 (w @ x) = Some (v @ x)"
  by (auto simp: started_def after_newline_append split: if_splits)

lemma started_none: "started c0 w = None \<Longrightarrow> started c0 (w @ x) = after_newline x"
  by (simp add: started_def after_newline_None after_newline_skip split: if_splits)

lemma started_suffix: "started c0 w = Some v \<Longrightarrow> \<exists>p. w = p @ v"
  by (cases "c0 = [] \<or> last c0 = CHR 0x0A") (simp_all add: started_def after_newline_suffix)

definition good_file :: "FileIdentity \<Rightarrow> LogFile \<Rightarrow> bool" where
  "good_file ident file = (lf_identity file = ident \<and> lf_metadata file = Inr (length (lf_content file)) \<and> lf_seek_error file = None
     \<and> (case lf_latest_len file of None \<Rightarrow> True | Some len \<Rightarrow> length (lf_content file) \<le> len))"

text \<open>The state of the tailer of a file that held \<open>c0\<close> when it was opened and of which \<open>w\<close> more was read.\<close>

definition tracks :: "LogSource \<Rightarrow> FileIdentity \<Rightarrow> string \<Rightarrow> string \<Rightarrow> FileState \<Rightarrow> string list \<Rightarrow> bool" where
  "tracks source ident c0 w st emitted =
     (fs_initialized st \<and> fs_identity st = Some ident \<and> fs_source st = source \<and> fs_offset st = length (c0 @ w)
      \<and> fs_signature st = last_bytes (c0 @ w)
      \<and> (case started c0 w of
           None \<Rightarrow> fs_discard_until_newline st \<and> fs_pending st = [] \<and> emitted = []
         | Some v \<Rightarrow> \<not> fs_discard_until_newline st \<and> fst (frame v) = emitted @ fst (frame (fs_pending st))
             \<and> snd (frame v) = snd (frame (fs_pending st)) \<and> (\<exists>a. v = a @ fs_pending st)))"

lemma tracks_pending_fits: "tracks source ident c0 w st emitted \<Longrightarrow> fits (w @ x) \<Longrightarrow> fits (fs_pending st)"
proof (cases "started c0 w")
  case (Some v)
  assume t: "tracks source ident c0 w st emitted" "fits (w @ x)"
  from started_suffix [OF Some] obtain p where "w = p @ v" ..
  moreover from t(1) Some obtain a where "v = a @ fs_pending st" by (auto simp: tracks_def)
  ultimately have "w @ x = (p @ a) @ fs_pending st @ x" by simp
  then show ?thesis using t(2) fits_part by metis
next
  case None
  assume "tracks source ident c0 w st emitted"
  then show ?thesis using None by (auto simp: tracks_def intro: short_fits)
qed

lemma tracks_append:
  assumes "tracks source ident c0 w st emitted"
  shows "tracks source ident c0 (w @ bytes) (append_bytes bytes (st\<lparr>fs_offset := fs_offset st + length bytes,
      fs_signature := extend_signature (fs_signature st) bytes\<rparr>)) emitted"
proof (cases "started c0 w")
  case None
  then have st: "started c0 (w @ bytes) = after_newline bytes" by (rule started_none)
  show ?thesis
  proof (cases "find_byte (CHR 0x0A) bytes")
    case None
    then show ?thesis using assms st \<open>started c0 w = None\<close> extend_last_bytes [of "c0 @ w" bytes]
      by (simp add: tracks_def append_bytes_def after_newline_def)
  next
    case (Some i)
    then show ?thesis using assms st \<open>started c0 w = None\<close> extend_last_bytes [of "c0 @ w" bytes]
      by (simp add: tracks_def append_bytes_def after_newline_def)
  qed
next
  case (Some v)
  then show ?thesis using assms started_append [OF Some, of bytes] extend_last_bytes [of "c0 @ w" bytes]
    by (auto simp: tracks_def append_bytes_def frame_append [of v bytes] frame_append [of "fs_pending st" bytes])
qed

text \<open>The effect of a part of a read: some more lines are delivered, no gap is reported.\<close>

definition delivers :: "civil_parser \<Rightarrow> LogSource \<Rightarrow> ReadOutcome \<Rightarrow> ReadOutcome \<Rightarrow> string list \<Rightarrow> bool" where
  "delivers civil source out out' emitted =
     (map tr_line (ro_lines out') = map tr_line (ro_lines out) @ map (line_record civil source) emitted
      \<and> ro_gaps out' = ro_gaps out \<and> ro_stable_eof out' = ro_stable_eof out)"

lemma delivers_trans: "delivers civil source a b xs \<Longrightarrow> delivers civil source b c ys \<Longrightarrow> delivers civil source a c (xs @ ys)"
  by (simp add: delivers_def)

lemma delivers_nothing [simp]: "delivers civil source out out []"
  "delivers civil source out (add_diagnostic kind path message out) []"
  by (simp_all add: delivers_def add_diagnostic_def)

lemma tracks_extract:
  assumes "tracks source ident c0 w (fst so) emitted" "fits (w @ x)"
  shows "\<exists>more. tracks source ident c0 w (fst (extract_complete_lines civil allowed so)) (emitted @ more)
    \<and> delivers civil source (snd so) (snd (extract_complete_lines civil allowed so)) more
    \<and> (length more = allowed \<or> CHR 0x0A \<notin> set (fs_pending (fst (extract_complete_lines civil allowed so))))"
proof -
  let ?r = "extract_complete_lines civil allowed so"
  obtain more n where m: "?r = (fst so\<lparr>fs_next_sequence := n, fs_pending := fs_pending (fst ?r)\<rparr>, snd ?r)"
    "moved civil (fs_pending (fst so)) so (fs_pending (fst ?r)) (fst so\<lparr>fs_next_sequence := n\<rparr>, snd ?r) more"
    "length more = allowed \<or> CHR 0x0A \<notin> set (fs_pending (fst ?r))"
    using extract_complete_lines_moved [OF tracks_pending_fits [OF assms]] by metis
  have fields: "fs_initialized (fst ?r) = fs_initialized (fst so)" "fs_identity (fst ?r) = fs_identity (fst so)"
    "fs_source (fst ?r) = fs_source (fst so)" "fs_offset (fst ?r) = fs_offset (fst so)" "fs_signature (fst ?r) = fs_signature (fst so)"
    "fs_discard_until_newline (fst ?r) = fs_discard_until_newline (fst so)"
    by (subst m(1), simp)+
  have "fs_source (fst so) = source" using assms(1) by (simp add: tracks_def)
  then have "delivers civil source (snd so) (snd ?r) more" using m(2) by (simp add: moved_def delivers_def)
  moreover have "tracks source ident c0 w (fst ?r) (emitted @ more)"
  proof (cases "started c0 w")
    case None
    then have "fs_pending (fst so) = []" "emitted = []" using assms(1) by (simp_all add: tracks_def)
    then have "fs_pending (fst ?r) = []" "more = []" using m(2) by (auto simp: moved_def)
    then show ?thesis using assms(1) None by (simp add: tracks_def fields)
  next
    case (Some v)
    then show ?thesis using assms(1) m(2) by (auto simp: tracks_def fields moved_def)
  qed
  ultimately show ?thesis using m(3) by blast
qed

lemma read_once_prefix:
  assumes "read_once file answers offset n = Inr bytes"
  shows "\<exists>rest. drop offset (lf_content file) = bytes @ rest"
proof -
  have "\<exists>m. bytes = take m (drop offset (lf_content file))"
    using assms by (cases "(file, answers, offset, n)" rule: read_once.cases) auto
  then show ?thesis by (metis append_take_drop_id)
qed

lemma tracks_read_loop:
  "tracks source ident c0 w (fst so) emitted \<Longrightarrow> lf_content file = c0 @ w @ x \<Longrightarrow> fits (w @ x) \<Longrightarrow>
   \<exists>more w' x'. w @ x = w' @ x' \<and> tracks source ident c0 w' (fst (read_loop civil budget file answers bytes_read so)) (emitted @ more)
     \<and> delivers civil source (snd so) (snd (read_loop civil budget file answers bytes_read so)) more"
proof (induction civil budget "file" answers bytes_read so arbitrary: w x emitted rule: read_loop.induct)
  case (1 civil budget "file" answers bytes_read so)
  let ?n = "min (rb_bytes budget - bytes_read) (chunk_size budget)"
  let ?offset = "fs_offset (fst so)"
  show ?case
  proof (cases "bytes_read < rb_bytes budget \<and> length (ro_lines (snd so)) < rb_records budget")
    case False
    then have "read_loop civil budget file answers bytes_read so = so" by (subst read_loop.simps) auto
    then show ?thesis using 1(2) by (intro exI [of _ "[]"] exI [of _ w] exI [of _ x]) simp
  next
    case True
    show ?thesis
    proof (cases "read_once file answers ?offset ?n")
      case (Inl error)
      then have "read_loop civil budget file answers bytes_read so = (fst so, add_diagnostic FileRead (fs_path (fst so))
            (''read failed at byte '' @ nat_to_dec ?offset @ '': '' @ error) (snd so))"
        using True by (subst read_loop.simps) simp
      then show ?thesis using 1(2) by (intro exI [of _ "[]"] exI [of _ w] exI [of _ x]) simp
    next
      case (Inr bytes)
      show ?thesis
      proof (cases "bytes = []")
        case True
        then have "read_loop civil budget file answers bytes_read so = so"
          using Inr by (subst read_loop.simps) simp
        then show ?thesis using 1(2) by (intro exI [of _ "[]"] exI [of _ w] exI [of _ x]) simp
      next
        case False
        let ?st = "append_bytes bytes ((fst so)\<lparr>fs_offset := ?offset + length bytes,
                     fs_signature := extend_signature (fs_signature (fst so)) bytes\<rparr>)"
        let ?so = "extract_complete_lines civil (rb_records budget - length (ro_lines (snd so))) (?st, snd so)"
        have step: "read_loop civil budget file answers bytes_read so
            = read_loop civil budget file (drop 1 answers) (bytes_read + length bytes) ?so"
          using True Inr False by (subst read_loop.simps) (simp add: Let_def)
        have "?offset = length (c0 @ w)" using 1(2) by (simp add: tracks_def)
        then have "drop ?offset (lf_content file) = x" using 1(3) by simp
        then obtain x' where x: "x = bytes @ x'" using read_once_prefix [OF Inr] by auto
        have "tracks source ident c0 (w @ bytes) (fst (?st, snd so)) emitted"
          using tracks_append [OF 1(2)] by simp
        from tracks_extract [OF this, of x' civil "rb_records budget - length (ro_lines (snd so))"] 1(4) x
        obtain more where more: "tracks source ident c0 (w @ bytes) (fst ?so) (emitted @ more)"
          "delivers civil source (snd so) (snd ?so) more" by auto
        have "lf_content file = c0 @ (w @ bytes) @ x'" "fits ((w @ bytes) @ x')" using 1(3,4) x by simp_all
        from 1(1) [OF _ Inr False refl refl refl more(1) this] True
        obtain more' w' x'' where "(w @ bytes) @ x' = w' @ x''"
          "tracks source ident c0 w' (fst (read_loop civil budget file answers bytes_read so)) ((emitted @ more) @ more')"
          "delivers civil source (snd ?so) (snd (read_loop civil budget file answers bytes_read so)) more'"
          unfolding step by blast
        then show ?thesis using x delivers_trans [OF more(2)]
          by (intro exI [of _ "more @ more'"] exI [of _ w'] exI [of _ x'']) auto
      qed
    qed
  qed
qed

lemma read_last_bytes:
  assumes "lf_content logfile = c @ x" "lf_seek_error logfile = None"
  shows "read_exact_at logfile (length c - length (last_bytes c)) (length (last_bytes c)) = Inr (last_bytes c)"
  using assms by (simp add: read_exact_at_def last_bytes_def)

lemma settle_identity_good:
  assumes "tracks source ident c0 w st emitted" "good_file ident logfile" "lf_content logfile = c0 @ w @ x"
  shows "settle_identity logfile (length (lf_content logfile)) (st, out) = (st, out)"
proof -
  have "signature_matches logfile (fs_offset st) (fs_signature st) = Inr True"
    using assms read_last_bytes [of logfile "c0 @ w" x]
    by (auto simp: tracks_def good_file_def signature_matches_def simp del: length_append)
  then have "reset_cause logfile (length (lf_content logfile)) st = None"
    using assms by (simp add: reset_cause_def tracks_def good_file_def)
  moreover have "st\<lparr>fs_identity := Some (lf_identity logfile)\<rparr> = st"
    using assms by (simp add: tracks_def good_file_def)
  ultimately show ?thesis by (simp add: settle_identity_def)
qed

lemma finish_read_fields: "fst (finish_read logfile len so) = fst so"
  "ro_lines (snd (finish_read logfile len so)) = ro_lines (snd so)" "ro_gaps (snd (finish_read logfile len so)) = ro_gaps (snd so)"
  "ro_more_work (snd (finish_read logfile len so)) \<longleftrightarrow>
     CHR 0x0A \<in> set (fs_pending (fst so)) \<or> unwrap_or (lf_latest_len logfile) len > fs_offset (fst so)"
  by (simp_all add: finish_read_def Let_def split_def pending_has_complete_line_def)

text \<open>One call of \<open>read_path\<close> on the grown file.\<close>

lemma tracks_read:
  assumes "tracks source ident c0 w st emitted" "good_file ident logfile" "lf_content logfile = c0 @ w @ x" "fits (w @ x)"
  shows "\<exists>more w' x'. w @ x = w' @ x' \<and> tracks source ident c0 w' (fst (read_file civil budget (Opened logfile) st)) (emitted @ more)
    \<and> map tr_line (ro_lines (snd (read_file civil budget (Opened logfile) st))) = map (line_record civil source) more
    \<and> ro_gaps (snd (read_file civil budget (Opened logfile) st)) = []
    \<and> (\<not> ro_more_work (snd (read_file civil budget (Opened logfile) st)) \<longrightarrow>
         x' = [] \<and> CHR 0x0A \<notin> set (fs_pending (fst (read_file civil budget (Opened logfile) st))))"
proof -
  let ?len = "length (lf_content logfile)"
  let ?first = "extract_complete_lines civil (rb_records budget) (st, read_outcome_default)"
  have answers: "lf_metadata logfile = Inr ?len" "lf_seek_error logfile = None" using assms(2) by (simp_all add: good_file_def)
  have "fs_initialized st" using assms(1) by (simp add: tracks_def)
  then have read: "read_file civil budget (Opened logfile) st = read_opened civil budget logfile ?len st"
    by (simp add: read_file_def answers)
  obtain more where first: "tracks source ident c0 w (fst ?first) (emitted @ more)" "delivers civil source read_outcome_default (snd ?first) more"
    using tracks_extract [of source ident c0 w "(st, read_outcome_default)" emitted x civil "rb_records budget"] assms(1,4) by auto
  show ?thesis
  proof (cases "rb_records budget \<le> length (ro_lines (snd ?first))")
    case True
    then have result: "read_opened civil budget logfile ?len st
        = (fst ?first, (snd ?first)\<lparr>ro_more_work := pending_has_complete_line (fst ?first) \<or> ?len > fs_offset (fst ?first)\<rparr>)"
      by (simp add: read_opened_def settle_identity_good [OF assms(1-3)] Let_def)
    have "fs_offset (fst ?first) = length (c0 @ w)" using first(1) by (simp add: tracks_def)
    then show ?thesis using first assms(3) unfolding read result
      by (intro exI [of _ more] exI [of _ w] exI [of _ x])
        (auto simp: delivers_def read_outcome_default_def pending_has_complete_line_def)
  next
    case False
    let ?loop = "read_loop civil budget logfile (lf_reads logfile) 0 ?first"
    have result: "read_opened civil budget logfile ?len st = finish_read logfile ?len ?loop"
      using False by (simp add: read_opened_def settle_identity_good [OF assms(1-3)] answers Let_def)
    from tracks_read_loop [OF first(1) assms(3,4)] obtain more' w' x' where
      loop: "w @ x = w' @ x'" "tracks source ident c0 w' (fst ?loop) ((emitted @ more) @ more')"
        "delivers civil source (snd ?first) (snd ?loop) more'" by blast
    have offset: "fs_offset (fst ?loop) = length (c0 @ w')" using loop(2) by (simp add: tracks_def)
    have len: "?len = length (c0 @ w') + length x'" using assms(3) loop(1) by simp
    have "unwrap_or (lf_latest_len logfile) ?len \<ge> ?len"
      using assms(2) by (cases "lf_latest_len logfile") (simp_all add: good_file_def)
    then have done_all: "\<not> ro_more_work (snd (finish_read logfile ?len ?loop)) \<Longrightarrow>
        x' = [] \<and> CHR 0x0A \<notin> set (fs_pending (fst ?loop))"
      using offset len by (cases x') (auto simp: finish_read_fields)
    show ?thesis using loop delivers_trans [OF first(2) loop(3)] done_all unfolding read result finish_read_fields
      by (intro exI [of _ "more @ more'"] exI [of _ w'] exI [of _ x']) (auto simp: delivers_def read_outcome_default_def)
  qed
qed

fun read_many :: "civil_parser \<Rightarrow> (ReadBudget \<times> LogFile) list \<Rightarrow> FileState \<Rightarrow> ReadOutcome list \<times> FileState" where
  "read_many civil [] state = ([], state)"
| "read_many civil ((budget, logfile) # reads) state =
     (let (state', outcome) = read_file civil budget (Opened logfile) state;
          (outcomes, state'') = read_many civil reads state'
      in (outcome # outcomes, state''))"

text \<open>The successive views of one file: the same file each time, longer or equal.\<close>

fun grows :: "FileIdentity \<Rightarrow> string \<Rightarrow> LogFile list \<Rightarrow> bool" where
  "grows ident c [] = True"
| "grows ident c (logfile # logfiles) =
     (good_file ident logfile \<and> take (length c) (lf_content logfile) = c \<and> grows ident (lf_content logfile) logfiles)"

definition final_content :: "string \<Rightarrow> LogFile list \<Rightarrow> string" where
  "final_content c logfiles = (if logfiles = [] then c else lf_content (last logfiles))"

lemma grows_prefix: "grows ident c logfiles \<Longrightarrow> \<exists>x. final_content c logfiles = c @ x"
proof (induction logfiles arbitrary: c)
  case (Cons logfile logfiles)
  then obtain x where "final_content (lf_content logfile) logfiles = lf_content logfile @ x" by auto
  moreover have "lf_content logfile = c @ drop (length c) (lf_content logfile)"
    using Cons.prems by (metis append_take_drop_id grows.simps(2))
  ultimately have "final_content (lf_content logfile) logfiles = c @ drop (length c) (lf_content logfile) @ x"
    by (metis append.assoc)
  moreover have "final_content c (logfile # logfiles) = final_content (lf_content logfile) logfiles"
    by (simp add: final_content_def)
  ultimately show ?case by simp
qed (simp add: final_content_def)

lemma tracks_read_many:
  "tracks source ident c0 w st emitted \<Longrightarrow> grows ident (c0 @ w @ x) (map snd reads) \<Longrightarrow>
   final_content (c0 @ w @ x) (map snd reads) = c0 @ new \<Longrightarrow> fits new \<Longrightarrow>
   \<exists>more w' x'. new = w' @ x' \<and> tracks source ident c0 w' (snd (read_many civil reads st)) (emitted @ more)
     \<and> map tr_line (concat (map ro_lines (fst (read_many civil reads st)))) = map (line_record civil source) more
     \<and> concat (map ro_gaps (fst (read_many civil reads st))) = []
     \<and> (reads \<noteq> [] \<longrightarrow> \<not> ro_more_work (last (fst (read_many civil reads st))) \<longrightarrow>
          x' = [] \<and> CHR 0x0A \<notin> set (fs_pending (snd (read_many civil reads st))))"
proof (induction reads arbitrary: st w x emitted)
  case Nil
  then show ?case by (intro exI [of _ "[]"] exI [of _ w] exI [of _ x]) (simp add: final_content_def)
next
  case (Cons read reads)
  obtain budget logfile where r: "read = (budget, logfile)" by fastforce
  have good: "good_file ident logfile" and prefix: "take (length (c0 @ w @ x)) (lf_content logfile) = c0 @ w @ x"
    and later: "grows ident (lf_content logfile) (map snd reads)"
    using Cons.prems(2) by (simp_all add: r)
  obtain y where y: "lf_content logfile = c0 @ w @ y" "\<exists>z. y = x @ z"
    using prefix by (metis append.assoc append_take_drop_id)
  obtain z where z: "new = w @ y @ z"
  proof -
    obtain z where "final_content (lf_content logfile) (map snd reads) = lf_content logfile @ z"
      using grows_prefix [OF later] ..
    moreover have "final_content (lf_content logfile) (map snd reads) = c0 @ new"
      using Cons.prems(3) by (simp add: r final_content_def split: if_splits)
    ultimately have "c0 @ new = c0 @ w @ y @ z" using y(1) by simp
    then show thesis using that by blast
  qed
  have "fits (w @ y)" using fits_part [of "[]" "w @ y" z] Cons.prems(4) z by simp
  from tracks_read [OF Cons.prems(1) good y(1) this, of civil budget] obtain more w' x' where
    step: "w @ y = w' @ x'" "tracks source ident c0 w' (fst (read_file civil budget (Opened logfile) st)) (emitted @ more)"
      "map tr_line (ro_lines (snd (read_file civil budget (Opened logfile) st))) = map (line_record civil source) more"
      "ro_gaps (snd (read_file civil budget (Opened logfile) st)) = []"
      "\<not> ro_more_work (snd (read_file civil budget (Opened logfile) st)) \<Longrightarrow>
         x' = [] \<and> CHR 0x0A \<notin> set (fs_pending (fst (read_file civil budget (Opened logfile) st)))" by blast
  have content: "lf_content logfile = c0 @ w' @ x'" using y(1) step(1) by simp
  have final: "final_content (c0 @ w' @ x') (map snd reads) = c0 @ new"
    using Cons.prems(3) content by (simp add: r final_content_def split: if_splits)
  from Cons.IH [OF step(2) later [unfolded content] final Cons.prems(4)] obtain more' w'' x'' where
    rest: "new = w'' @ x''" "tracks source ident c0 w'' (snd (read_many civil reads (fst (read_file civil budget (Opened logfile) st)))) ((emitted @ more) @ more')"
      "map tr_line (concat (map ro_lines (fst (read_many civil reads (fst (read_file civil budget (Opened logfile) st)))))) = map (line_record civil source) more'"
      "concat (map ro_gaps (fst (read_many civil reads (fst (read_file civil budget (Opened logfile) st))))) = []"
      "reads \<noteq> [] \<longrightarrow> \<not> ro_more_work (last (fst (read_many civil reads (fst (read_file civil budget (Opened logfile) st))))) \<longrightarrow>
          x'' = [] \<and> CHR 0x0A \<notin> set (fs_pending (snd (read_many civil reads (fst (read_file civil budget (Opened logfile) st)))))" by blast
  have many: "read_many civil (read # reads) st = (snd (read_file civil budget (Opened logfile) st)
      # fst (read_many civil reads (fst (read_file civil budget (Opened logfile) st))),
      snd (read_many civil reads (fst (read_file civil budget (Opened logfile) st))))"
    by (simp add: r split_def Let_def)
  show ?case
  proof (cases "reads = []")
    case True
    then have "new = w' @ x'" using final by (simp add: final_content_def)
    then show ?thesis using step True unfolding many by (intro exI [of _ more] exI [of _ w'] exI [of _ x']) simp
  next
    case False
    then have "fst (read_many civil reads s) \<noteq> []" for s by (cases reads) (auto simp: split_def Let_def)
    then show ?thesis using step rest False unfolding many
      by (intro exI [of _ "more @ more'"] exI [of _ w''] exI [of _ x'']) simp
  qed
qed

text \<open>The lines that a reader should see of what was appended to a file.\<close>

definition appended_lines :: "string \<Rightarrow> string \<Rightarrow> string list" where
  "appended_lines c0 new = (case started c0 new of None \<Rightarrow> [] | Some v \<Rightarrow> fst (frame v))"

lemma tracks_initial:
  assumes "good_file ident logfile" "initialize_at_end logfile (length (lf_content logfile)) (file_state_absent path source) = (None, st)"
  shows "tracks source ident (lf_content logfile) [] st []"
proof -
  let ?c = "lf_content logfile"
  have suffix: "read_suffix logfile (length ?c) = Inr (last_bytes ?c)"
    using assms(1) by (auto simp: read_suffix_def last_bytes_def good_file_def read_exact_at_def Let_def SIGNATURE_BYTES_def)
  have "started ?c [] = (if ?c = [] \<or> last ?c = CHR 0x0A then Some [] else None)"
    by (simp add: started_def after_newline_def)
  then show ?thesis using assms(2) suffix last_last_bytes [of ?c] assms(1)
    by (auto simp: initialize_at_end_def Let_def tracks_def file_state_absent_def good_file_def)
qed

lemma tracks_delivered:
  assumes "tracks source ident c0 w st emitted" "new = w @ x"
  shows "\<exists>rest. appended_lines c0 new = emitted @ rest \<and> (x = [] \<longrightarrow> CHR 0x0A \<notin> set (fs_pending st) \<longrightarrow> rest = [])"
proof (cases "started c0 w")
  case None
  then have "emitted = []" using assms(1) by (simp add: tracks_def)
  then show ?thesis using None assms(2) by (auto simp: appended_lines_def)
next
  case (Some v)
  then have "started c0 new = Some (v @ x)" using started_append assms(2) by simp
  then show ?thesis using assms Some
    by (auto simp: appended_lines_def tracks_def frame_append [of v x] frame_none)
qed

text \<open>
  C38. The tailer delivers a log exactly once: while the game appends to a file whose lines stay
  within the limit, the records of any sequence of reads, with any budgets and however few bytes a
  read returns or fails to, are the appended complete lines from the first to some point, in order,
  without a gap; a line that was already begun when the file was opened is left out; and when a
  read says that no work is left, no complete line is missing.
\<close>

theorem tailer_delivers_each_line_once:
  assumes "good_file ident opened"
    and "initialize_at_end opened (length (lf_content opened)) (file_state_absent path source) = (None, st)"
    and "grows ident (lf_content opened) (map snd reads)" "reads \<noteq> []"
    and "lf_content (snd (last reads)) = lf_content opened @ new" "fits new"
  shows "concat (map ro_gaps (fst (read_many civil reads st))) = []
    \<and> (\<exists>delivered missing. appended_lines (lf_content opened) new = delivered @ missing
        \<and> map tr_line (concat (map ro_lines (fst (read_many civil reads st)))) = map (line_record civil source) delivered
        \<and> (\<not> ro_more_work (last (fst (read_many civil reads st))) \<longrightarrow> missing = []))"
proof -
  let ?c = "lf_content opened"
  have "final_content (?c @ [] @ []) (map snd reads) = ?c @ new"
    using assms(4,5) by (simp add: final_content_def last_map)
  from tracks_read_many [OF tracks_initial [OF assms(1,2)] _ this assms(6), of civil] assms(3)
  obtain more w' x' where run: "new = w' @ x'" "tracks source ident ?c w' (snd (read_many civil reads st)) more"
    "map tr_line (concat (map ro_lines (fst (read_many civil reads st)))) = map (line_record civil source) more"
    "concat (map ro_gaps (fst (read_many civil reads st))) = []"
    "\<not> ro_more_work (last (fst (read_many civil reads st))) \<longrightarrow> x' = [] \<and> CHR 0x0A \<notin> set (fs_pending (snd (read_many civil reads st)))"
    using assms(4) by auto
  obtain missing where "appended_lines ?c new = more @ missing"
    "x' = [] \<longrightarrow> CHR 0x0A \<notin> set (fs_pending (snd (read_many civil reads st))) \<longrightarrow> missing = []"
    using tracks_delivered [OF run(2,1)] by blast
  then show ?thesis using run by blast
qed

section \<open>Identifiers\<close>

definition record_id_less :: "SourceRecordId \<Rightarrow> SourceRecordId \<Rightarrow> bool" where
  "record_id_less a b = (rid_generation a < rid_generation b \<or> rid_generation a = rid_generation b \<and> rid_sequence a < rid_sequence b)"

definition next_id :: "FileState \<Rightarrow> SourceRecordId" where
  "next_id st = \<lparr>rid_source = ls_id (fs_source st), rid_generation = fs_generation st, rid_sequence = fs_next_sequence st\<rparr>"

lemma record_id_less_trans: "record_id_less a b \<Longrightarrow> record_id_less b c \<Longrightarrow> record_id_less a c"
  by (auto simp: record_id_less_def)

text \<open>
  A step of the tailer of one file: the new records' identifiers ascend from the next one of the
  state before to below the next one of the state after, as long as no counter is full.
\<close>

definition id_step :: "SourceRecordId \<Rightarrow> SourceRecordId list \<Rightarrow> SourceRecordId \<Rightarrow> bool" where
  "id_step before ids after =
     (sorted_wrt record_id_less ids \<and> (\<forall>rid \<in> set ids. \<not> record_id_less rid before \<and> record_id_less rid after)
      \<and> \<not> record_id_less after before)"

lemma id_step_trans: "id_step a xs b \<Longrightarrow> id_step b ys c \<Longrightarrow> id_step a (xs @ ys) c"
  by (fastforce simp: id_step_def sorted_wrt_append record_id_less_def)

definition numbers :: "FileState \<times> ReadOutcome \<Rightarrow> FileState \<times> ReadOutcome \<Rightarrow> bool" where
  "numbers so so' =
     (\<exists>ids. map tr_id (ro_lines (snd so')) = map tr_id (ro_lines (snd so)) @ ids
      \<and> fs_generation (fst so) \<le> fs_generation (fst so')
      \<and> (fs_generation (fst so') < u64_max \<longrightarrow> list_all (\<lambda>rid. rid_sequence rid < u64_max) ids \<longrightarrow>
           id_step (next_id (fst so)) ids (next_id (fst so'))))"

lemma numbers_trans: "numbers a b \<Longrightarrow> numbers b c \<Longrightarrow> numbers a c"
proof -
  assume ab: "numbers a b" and bc: "numbers b c"
  from ab obtain xs where xs: "map tr_id (ro_lines (snd b)) = map tr_id (ro_lines (snd a)) @ xs"
    "fs_generation (fst a) \<le> fs_generation (fst b)"
    "fs_generation (fst b) < u64_max \<longrightarrow> list_all (\<lambda>rid. rid_sequence rid < u64_max) xs \<longrightarrow> id_step (next_id (fst a)) xs (next_id (fst b))"
    unfolding numbers_def by blast
  from bc obtain ys where ys: "map tr_id (ro_lines (snd c)) = map tr_id (ro_lines (snd b)) @ ys"
    "fs_generation (fst b) \<le> fs_generation (fst c)"
    "fs_generation (fst c) < u64_max \<longrightarrow> list_all (\<lambda>rid. rid_sequence rid < u64_max) ys \<longrightarrow> id_step (next_id (fst b)) ys (next_id (fst c))"
    unfolding numbers_def by blast
  show ?thesis unfolding numbers_def using xs ys id_step_trans
    by (intro exI [of _ "xs @ ys"]) auto
qed

lemma numbers_same:
  assumes "fs_generation (fst so') = fs_generation (fst so)" "fs_next_sequence (fst so') = fs_next_sequence (fst so)"
    "ro_lines (snd so') = ro_lines (snd so)"
  shows "numbers so so'"
  using assms by (auto simp: numbers_def id_step_def next_id_def record_id_less_def)

lemma numbers_refl [simp]: "numbers so so"
  by (rule numbers_same) simp_all

lemma saturating_next: "a < u64_max \<Longrightarrow> u64_saturating_add a (Suc 0) = Suc a"
  by (simp add: u64_saturating_add_def)

lemma numbers_emit: "numbers so (emit_record civil line so)"
proof -
  have "map tr_id (ro_lines (snd (emit_record civil line so))) = map tr_id (ro_lines (snd so)) @ [next_id (fst so)]"
    by (simp add: emit_record_def next_id_def Let_def split_def)
  moreover have "rid_sequence (next_id (fst so)) < u64_max \<longrightarrow> id_step (next_id (fst so)) [next_id (fst so)] (next_id (fst (emit_record civil line so)))"
    by (simp add: emit_record_moved id_step_def record_id_less_def next_id_def saturating_next)
  ultimately show ?thesis
    by (auto simp: numbers_def emit_record_moved)
qed

lemma numbers_advance:
  assumes "fs_generation (fst so') = u64_saturating_add (fs_generation (fst so)) 1" "ro_lines (snd so') = ro_lines (snd so)"
    "fs_generation (fst so) \<le> u64_max"
  shows "numbers so so'"
proof -
  have "fs_generation (fst so) \<le> fs_generation (fst so')" using assms(1,3) by (simp add: u64_saturating_add_def)
  moreover have "fs_generation (fst so') < u64_max \<longrightarrow> id_step (next_id (fst so)) [] (next_id (fst so'))"
    using assms(1,3) by (auto simp: id_step_def record_id_less_def next_id_def u64_saturating_add_def min_def split: if_splits)
  ultimately show ?thesis using assms(2) by (auto simp: numbers_def)
qed

definition generation_ok :: "FileState \<times> ReadOutcome \<Rightarrow> bool" where
  "generation_ok so = (fs_generation (fst so) \<le> u64_max)"

lemma numbers_gap: "generation_ok so \<Longrightarrow> numbers so (report_gap reason message so) \<and> generation_ok (report_gap reason message so)"
  by (intro conjI numbers_advance)
    (simp_all add: report_gap_def Let_def advance_generation_def generation_ok_def u64_saturating_add_def)

lemma generation_emit [simp]: "generation_ok (emit_record civil line so) = generation_ok so"
  by (simp add: generation_ok_def emit_record_moved)

lemma numbers_extract_loop:
  "generation_ok so \<Longrightarrow> numbers so (snd (extract_loop civil allowed rest so)) \<and> generation_ok (snd (extract_loop civil allowed rest so))"
proof (induction civil allowed rest so rule: extract_loop.induct)
  case (1 civil allowed rest so)
  show ?case
  proof (cases "allowed = 0 \<or> find_byte (CHR 0x0A) rest = None")
    case True
    then have "extract_loop civil allowed rest so = (rest, so)" by (auto simp: extract_loop.simps [of civil allowed])
    then show ?thesis using 1(3) by simp
  next
    case False
    then obtain i where i: "find_byte (CHR 0x0A) rest = Some i" and pos: "allowed \<noteq> 0" by auto
    let ?line = "strip_carriage_return (take i rest)"
    show ?thesis
    proof (cases "oversized ?line")
      case True
      note gap = numbers_gap [OF 1(3), of OversizedRecord oversized_text]
      then show ?thesis using 1(1) [OF pos i refl refl True] numbers_trans [of so "report_gap OversizedRecord oversized_text so"] i pos True
        by (simp add: extract_loop.simps [of civil allowed rest])
    next
      case False
      have "numbers (emit_record civil ?line so) (snd (extract_loop civil (allowed - 1) (drop (Suc i) rest) (emit_record civil ?line so)))
          \<and> generation_ok (snd (extract_loop civil (allowed - 1) (drop (Suc i) rest) (emit_record civil ?line so)))"
        using 1(2) [OF pos i refl refl False] 1(3) by simp
      then show ?thesis using numbers_trans [OF numbers_emit] i pos False
        by (simp add: extract_loop.simps [of civil allowed rest]) blast
    qed
  qed
qed

lemma numbers_extract:
  assumes "generation_ok so"
  shows "numbers so (extract_complete_lines civil allowed so) \<and> generation_ok (extract_complete_lines civil allowed so)"
proof -
  obtain rest st out where loop: "extract_loop civil allowed (fs_pending (fst so)) so = (rest, st, out)"
    by (metis surj_pair)
  have so': "numbers so (st, out)" "generation_ok (st, out)"
    using numbers_extract_loop [OF assms, of civil allowed "fs_pending (fst so)"] by (simp_all add: loop)
  have keep: "numbers (st, out) (st\<lparr>fs_pending := rest\<rparr>, out)" by (rule numbers_same) simp_all
  have cut: "numbers (st, out) (st\<lparr>fs_pending := [], fs_discard_until_newline := True\<rparr>, out)" by (rule numbers_same) simp_all
  have ok: "generation_ok (st\<lparr>fs_pending := [], fs_discard_until_newline := True\<rparr>, out)" "generation_ok (st\<lparr>fs_pending := rest\<rparr>, out)"
    using so'(2) by (simp_all add: generation_ok_def)
  show ?thesis
    using assms so' numbers_trans [OF so'(1) keep] numbers_trans [OF numbers_trans [OF so'(1) cut]] numbers_gap [OF ok(1)] ok(2)
    by (auto simp: extract_complete_lines_def loop Let_def)
qed

lemma numbers_read_loop:
  "generation_ok so \<Longrightarrow> numbers so (read_loop civil budget logfile answers bytes_read so)
     \<and> generation_ok (read_loop civil budget logfile answers bytes_read so)"
proof (induction civil budget logfile answers bytes_read so rule: read_loop.induct)
  case (1 civil budget logfile answers bytes_read so)
  let ?n = "min (rb_bytes budget - bytes_read) (chunk_size budget)"
  show ?case
  proof (cases "(bytes_read < rb_bytes budget \<and> length (ro_lines (snd so)) < rb_records budget)
      \<and> (\<exists>bytes. read_once logfile answers (fs_offset (fst so)) ?n = Inr bytes \<and> bytes \<noteq> [])")
    case False
    have "numbers so (fst so, add_diagnostic FileRead (fs_path (fst so)) message (snd so))" for message
      by (rule numbers_same) (simp_all add: add_diagnostic_def)
    then show ?thesis using False 1(2)
      by (subst read_loop.simps, subst read_loop.simps) (auto simp: generation_ok_def split: sum.split)
  next
    case True
    then obtain bytes where b: "read_once logfile answers (fs_offset (fst so)) ?n = Inr bytes" "bytes \<noteq> []" by blast
    let ?st = "append_bytes bytes ((fst so)\<lparr>fs_offset := fs_offset (fst so) + length bytes,
                     fs_signature := extend_signature (fs_signature (fst so)) bytes\<rparr>)"
    let ?so = "extract_complete_lines civil (rb_records budget - length (ro_lines (snd so))) (?st, snd so)"
    have step: "read_loop civil budget logfile answers bytes_read so = read_loop civil budget logfile (drop 1 answers) (bytes_read + length bytes) ?so"
      using True b by (subst read_loop.simps) (simp add: Let_def)
    have fields: "fs_generation ?st = fs_generation (fst so)" "fs_next_sequence ?st = fs_next_sequence (fst so)"
      by (simp_all add: append_bytes_def split: option.split)
    then have "numbers so (?st, snd so)" "generation_ok (?st, snd so)" using 1(2) by (auto simp: generation_ok_def intro: numbers_same)
    note first = numbers_trans [OF this(1)] numbers_extract [OF this(2), of civil "rb_records budget - length (ro_lines (snd so))"]
    from 1(1) [OF _ b(1,2) refl refl refl] first True show ?thesis
      unfolding step using numbers_trans by blast
  qed
qed

lemma numbers_read_file:
  assumes "fs_generation st \<le> u64_max"
  shows "numbers (st, read_outcome_default) (read_file civil budget answer st) \<and> generation_ok (read_file civil budget answer st)"
proof -
  have start: "generation_ok (st, read_outcome_default)" using assms by (simp add: generation_ok_def)
  have quiet: "numbers (st, read_outcome_default) (st, add_diagnostic FileRead path message read_outcome_default)" for path message
    by (rule numbers_same) (simp_all add: add_diagnostic_def)
  have opened: "numbers (st, read_outcome_default) (read_opened civil budget logfile len st) \<and> generation_ok (read_opened civil budget logfile len st)"
    for logfile len
  proof -
    let ?s = "settle_identity logfile len (st, read_outcome_default)"
    have settled: "numbers (st, read_outcome_default) ?s" "generation_ok ?s"
      using assms by (auto simp: settle_identity_def reset_generation_def advance_generation_def add_diagnostic_def Let_def generation_ok_def
          u64_saturating_add_def intro: numbers_same numbers_advance split: option.split)
    let ?e = "extract_complete_lines civil (rb_records budget) ?s"
    note e = numbers_trans [OF settled(1)] numbers_extract [OF settled(2), of civil "rb_records budget"]
    have 1: "numbers ?e (fst ?e, (snd ?e)\<lparr>ro_more_work := more\<rparr>)" "numbers ?e (fst ?e, add_diagnostic FileRead path message (snd ?e))"
      for more path message by (rule numbers_same; simp add: add_diagnostic_def)+
    have 2: "numbers so (finish_read logfile len so)" "generation_ok (finish_read logfile len so) = generation_ok so" for so
      by (rule numbers_same; simp add: finish_read_fields) (simp add: generation_ok_def finish_read_fields)
    have 3: "numbers ?e (read_loop civil budget logfile (lf_reads logfile) 0 ?e)" "generation_ok (read_loop civil budget logfile (lf_reads logfile) 0 ?e)"
      using numbers_read_loop e(2) by blast+
    have 4: "generation_ok (fst ?e, x) = generation_ok ?e" for x by (simp add: generation_ok_def)
    show ?thesis
    proof (cases "rb_records budget \<le> length (ro_lines (snd ?e))")
      case True
      then show ?thesis using numbers_trans [OF _ 1(1)] numbers_trans e 4
        by (simp add: read_opened_def Let_def)
    next
      case False
      show ?thesis
      proof (cases "lf_seek_error logfile")
        case None
        then have "read_opened civil budget logfile len st = finish_read logfile len (read_loop civil budget logfile (lf_reads logfile) 0 ?e)"
          using False by (simp add: read_opened_def Let_def)
        then show ?thesis using numbers_trans [OF _ numbers_trans [OF 3(1) 2(1)]] numbers_trans e 2(2) 3(2) by simp
      next
        case (Some error)
        then have "read_opened civil budget logfile len st = (fst ?e, add_diagnostic FileRead (fs_path (fst ?e))
            (''could not seek to byte '' @ nat_to_dec (fs_offset (fst ?e))) (snd ?e))"
          using False by (simp add: read_opened_def Let_def)
        then show ?thesis using numbers_trans [OF _ 1(2)] numbers_trans e 4 by simp
      qed
    qed
  qed
  have initial: "numbers (st, read_outcome_default) (snd (initialize_at_end logfile len st), out)"
    "generation_ok (snd (initialize_at_end logfile len st), out)" if "ro_lines out = []" for logfile len out
  proof -
    have "fs_generation (snd (initialize_at_end logfile len st)) = fs_generation st"
      "fs_next_sequence (snd (initialize_at_end logfile len st)) = fs_next_sequence st"
      by (auto simp: initialize_at_end_def Let_def split: sum.split)
    then show "numbers (st, read_outcome_default) (snd (initialize_at_end logfile len st), out)"
      "generation_ok (snd (initialize_at_end logfile len st), out)"
      using assms that by (auto simp: generation_ok_def read_outcome_default_def intro!: numbers_same)
  qed
  have quiet_ok: "generation_ok (st, out)" for out using assms by (simp add: generation_ok_def)
  show ?thesis
  proof (cases answer)
    case (Opened logfile)
    show ?thesis
    proof (cases "lf_metadata logfile")
      case (Inr len)
      show ?thesis
      proof (cases "fs_initialized st")
        case False
        then have "\<exists>out. read_file civil budget answer st = (snd (initialize_at_end logfile len st), out) \<and> ro_lines out = []"
          by (cases "initialize_at_end logfile len st")
            (auto simp: read_file_def Opened Inr add_diagnostic_def read_outcome_default_def split: option.split)
        then show ?thesis using initial by auto
      qed (use opened in \<open>simp add: read_file_def Opened Inr\<close>)
    qed (use quiet quiet_ok in \<open>simp add: read_file_def Opened\<close>)
  qed (use start quiet quiet_ok in \<open>simp_all add: read_file_def\<close>)
qed

fun read_answers :: "civil_parser \<Rightarrow> (ReadBudget \<times> OpenAnswer) list \<Rightarrow> FileState \<Rightarrow> ReadOutcome list \<times> FileState" where
  "read_answers civil [] state = ([], state)"
| "read_answers civil ((budget, answer) # reads) state =
     (let (state', outcome) = read_file civil budget answer state;
          (outcomes, state'') = read_answers civil reads state'
      in (outcome # outcomes, state''))"

definition issued_ids :: "ReadOutcome list \<Rightarrow> SourceRecordId list" where
  "issued_ids outcomes = concat (map (\<lambda>outcome. map tr_id (ro_lines outcome)) outcomes)"

lemma read_answers_ids:
  "fs_generation st \<le> u64_max \<Longrightarrow>
   fs_generation st \<le> fs_generation (snd (read_answers civil reads st))
   \<and> (fs_generation (snd (read_answers civil reads st)) < u64_max \<longrightarrow>
       list_all (\<lambda>rid. rid_sequence rid < u64_max) (issued_ids (fst (read_answers civil reads st))) \<longrightarrow>
       id_step (next_id st) (issued_ids (fst (read_answers civil reads st))) (next_id (snd (read_answers civil reads st))))"
proof (induction reads arbitrary: st)
  case Nil
  then show ?case by (simp add: issued_ids_def id_step_def record_id_less_def)
next
  case (Cons read reads)
  obtain budget answer where r: "read = (budget, answer)" by fastforce
  obtain st1 out where one: "read_file civil budget answer st = (st1, out)" by fastforce
  from numbers_read_file [OF Cons.prems, of civil budget answer]
  have n: "numbers (st, read_outcome_default) (st1, out)" "fs_generation st1 \<le> u64_max"
    by (simp_all add: one generation_ok_def)
  then have first: "fs_generation st \<le> fs_generation st1"
    "fs_generation st1 < u64_max \<longrightarrow> list_all (\<lambda>rid. rid_sequence rid < u64_max) (map tr_id (ro_lines out)) \<longrightarrow>
       id_step (next_id st) (map tr_id (ro_lines out)) (next_id st1)"
    by (auto simp: numbers_def read_outcome_default_def)
  have parts: "fst (read_answers civil (read # reads) st) = out # fst (read_answers civil reads st1)"
    "snd (read_answers civil (read # reads) st) = snd (read_answers civil reads st1)"
    by (simp_all add: r one split_def Let_def)
  have ids: "issued_ids (out # fst (read_answers civil reads st1)) = map tr_id (ro_lines out) @ issued_ids (fst (read_answers civil reads st1))"
    by (simp add: issued_ids_def)
  show ?case using Cons.IH [OF n(2)] first id_step_trans unfolding parts ids by auto
qed

text \<open>
  C39. While a file is tracked, no two of its records get the same identifier: whatever the file
  system answers (new files, truncations, changed contents, errors, oversized lines), generation
  and sequence of the records strictly ascend, up to the 64-bit limit of the counters.
\<close>

theorem record_ids_never_repeat:
  assumes "fs_generation (snd (read_answers civil reads (file_state_absent path source))) < u64_max"
    and "list_all (\<lambda>rid. rid_sequence rid < u64_max) (issued_ids (fst (read_answers civil reads (file_state_absent path source))))"
  shows "sorted_wrt record_id_less (issued_ids (fst (read_answers civil reads (file_state_absent path source))))"
  using read_answers_ids [of "file_state_absent path source" civil reads] assms
  by (simp add: file_state_absent_def id_step_def)

section \<open>Memory\<close>

text \<open>
  C40. A file cannot make the tailer hoard: after every extraction either a complete line still
  waits for the next read's budget, or at most the bytes of one line of the largest size are held.
\<close>

theorem pending_bytes_are_bounded:
  "CHR 0x0A \<in> set (fs_pending (fst (extract_complete_lines civil (Suc allowed) so)))
   \<or> length (fs_pending (fst (extract_complete_lines civil (Suc allowed) so))) \<le> MAX_LINE_BYTES"
proof (cases "fs_pending (fst so) = []")
  case False
  obtain rest st out where loop: "extract_loop civil (Suc allowed) (fs_pending (fst so)) so = (rest, st, out)"
    by (metis surj_pair)
  then show ?thesis using False
    by (auto simp: extract_complete_lines_def Let_def report_gap_def advance_generation_def oversized_def)
qed (simp add: extract_complete_lines_def)

section \<open>Witnesses\<close>

definition demo_identity :: FileIdentity where
  "demo_identity = \<lparr>fi_volume_serial = Some 1, fi_file_index = Some 2, fi_creation_time = 3\<rparr>"

definition demo_file :: "string \<Rightarrow> LogFile" where
  "demo_file c = \<lparr>lf_identity = demo_identity, lf_metadata = Inr (length c), lf_content = c, lf_seek_error = None,
     lf_reads = [Inr 3, Inr 4], lf_latest_len = None\<rparr>"

definition demo_log_source :: LogSource where
  "demo_log_source = \<lparr>ls_id = ''pid:1'', ls_character = ''Bilka'', ls_server = ''teek''\<rparr>"

definition demo_before :: string where "demo_before = ''old'' @ CHR 0x0A # ''par''"
definition demo_new :: string where "demo_new = ''tial'' @ CHR 0x0A # ''[now] hello'' @ CHR 0x0D # CHR 0x0A # ''[now] world'' @ CHR 0x0A # ''en''"

definition demo_reads :: "(ReadBudget \<times> LogFile) list" where
  "demo_reads = [(\<lparr>rb_bytes = 9, rb_records = 5\<rparr>, demo_file (demo_before @ take 12 demo_new)),
     (\<lparr>rb_bytes = 100, rb_records = 5\<rparr>, demo_file (demo_before @ demo_new))]"

definition demo_opened :: FileState where
  "demo_opened = snd (initialize_at_end (demo_file demo_before) (length demo_before) (file_state_absent ''log.txt'' demo_log_source))"

theorem tailer_delivers_each_line_once_witness:
  "map (raw_body \<circ> tr_line) (concat (map ro_lines (fst (read_many (\<lambda>val format. None) demo_reads demo_opened)))) = [''hello'', ''world'']
   \<and> (\<exists>delivered missing. appended_lines demo_before demo_new = delivered @ missing
        \<and> map tr_line (concat (map ro_lines (fst (read_many (\<lambda>val format. None) demo_reads demo_opened))))
          = map (line_record (\<lambda>val format. None) demo_log_source) delivered)"
proof
  show "map (raw_body \<circ> tr_line) (concat (map ro_lines (fst (read_many (\<lambda>val format. None) demo_reads demo_opened)))) = [''hello'', ''world'']"
    by code_simp
  have opened: "initialize_at_end (demo_file demo_before) (length (lf_content (demo_file demo_before)))
      (file_state_absent ''log.txt'' demo_log_source) = (None, demo_opened)"
    unfolding demo_opened_def by (simp add: demo_file_def initialize_at_end_def read_suffix_def read_exact_at_def Let_def SIGNATURE_BYTES_def)
  have good: "good_file demo_identity (demo_file c)" for c by (simp add: good_file_def demo_file_def)
  have grown: "grows demo_identity (lf_content (demo_file demo_before)) (map snd demo_reads)"
    by (simp add: demo_reads_def good) (simp add: demo_file_def demo_new_def)
  have "length demo_new \<le> MAX_LINE_BYTES" by (simp add: demo_new_def MAX_LINE_BYTES_def)
  then have "fits demo_new" by (rule short_fits)
  from tailer_delivers_each_line_once [OF good opened grown _ _ this, of "\<lambda>val format. None"]
  show "\<exists>delivered missing. appended_lines demo_before demo_new = delivered @ missing
        \<and> map tr_line (concat (map ro_lines (fst (read_many (\<lambda>val format. None) demo_reads demo_opened))))
          = map (line_record (\<lambda>val format. None) demo_log_source) delivered"
    by (auto simp: demo_reads_def demo_file_def)
qed

definition demo_answers :: "(ReadBudget \<times> OpenAnswer) list" where
  "demo_answers = [(\<lparr>rb_bytes = 9, rb_records = 5\<rparr>, Opened (demo_file demo_before)), (\<lparr>rb_bytes = 99, rb_records = 1\<rparr>, Opened (demo_file demo_new)),
     (\<lparr>rb_bytes = 99, rb_records = 5\<rparr>, Opened (demo_file demo_before))]"

theorem record_ids_never_repeat_witness:
  "sorted_wrt record_id_less (issued_ids (fst (read_answers (\<lambda>val format. None) demo_answers (file_state_absent ''log.txt'' demo_log_source))))
   \<and> map rid_generation (issued_ids (fst (read_answers (\<lambda>val format. None) demo_answers (file_state_absent ''log.txt'' demo_log_source)))) = [1, 2]"
proof
  let ?ids = "issued_ids (fst (read_answers (\<lambda>val format. None) demo_answers (file_state_absent ''log.txt'' demo_log_source)))"
  have gen: "fs_generation (snd (read_answers (\<lambda>val format. None) demo_answers (file_state_absent ''log.txt'' demo_log_source))) = 2"
    by code_simp
  show ids: "map rid_generation ?ids = [1, 2]" by code_simp
  have "list_all (\<lambda>rid. rid_sequence rid < 10) ?ids" by code_simp
  then have "list_all (\<lambda>rid. rid_sequence rid < u64_max) ?ids" by (auto simp: list_all_iff u64_max_def)
  with gen show "sorted_wrt record_id_less ?ids"
    by (intro record_ids_never_repeat) (simp_all add: u64_max_def)
qed

end
