(* ===== verification/Log_Pipeline.thy ===== *)
theory Log_Pipeline
  imports Log_Framing Eq_Registry Trigger_Engine Combat_Lifecycle
begin

text \<open>
  The log pipeline (\<^verbatim>\<open>crates/stonemite/src/log_watcher/pipeline.rs\<close> and
  \<^verbatim>\<open>log_watcher/triggers.rs\<close>): one record goes through the parsers, the telemetry
  reducer, the trigger engine and the combat engine, whose books of snapshots are published at
  most four times a second unless they are urgent.

  Instants are nanoseconds of the monotonic clock. The event bus is optional delivery: the
  envelope sent to it is part of the result. \<open>order\<close> is the iteration order of the trigger
  engine's table of characters.
\<close>

section \<open>The trigger evaluator\<close>

type_synonym Instant = nat

definition millis_since :: "Instant \<Rightarrow> Instant \<Rightarrow> nat" where
  "millis_since origin receipt = min ((receipt - origin) div 1000000) u64_max"

lemma millis_since_code [code]:
  "millis_since origin receipt = nat (min ((int receipt - int origin) div 1000000) 18446744073709551615)"
proof (cases "origin \<le> receipt")
  case True
  then have "int ((receipt - origin) div 1000000) = (int receipt - int origin) div 1000000"
    by (simp add: zdiv_int of_nat_diff)
  then have "int (min ((receipt - origin) div 1000000) u64_max)
      = min ((int receipt - int origin) div 1000000) 18446744073709551615"
    by (simp only: of_nat_min u64_max_def) simp
  then show ?thesis by (simp only: millis_since_def) (metis nat_int)
next
  case False
  then have "(int receipt - int origin) div 1000000 \<le> 0" by (simp add: div_nonpos_pos_le0)
  then show ?thesis using False by (simp add: millis_since_def u64_max_def)
qed

record TimerFrame =
  tf_origin :: Instant
  tf_snapshots :: "TimerSnapshot list"

record 'r TriggerEvaluator =
  tv_engine :: "'r TriggerEngine"
  tv_origin :: Instant
  tv_has_timers :: bool

definition evaluator_new :: "'r CompiledLibrary \<Rightarrow> Instant \<Rightarrow> 'r TriggerEvaluator" where
  "evaluator_new compiled origin = \<lparr>tv_engine = trigger_engine_new compiled, tv_origin = origin, tv_has_timers = False\<rparr>"

definition evaluator_replace :: "'r CompiledLibrary \<Rightarrow> 'r TriggerEvaluator \<Rightarrow> 'r TriggerEvaluator" where
  "evaluator_replace compiled ev = ev\<lparr>tv_engine := trigger_engine_new compiled, tv_has_timers := False\<rparr>"

type_synonym 'r TableOrder = "'r TriggerEngine \<Rightarrow> string list"

definition note_timers :: "'r TriggerTools \<Rightarrow> 'r TableOrder \<Rightarrow> ActionBatch \<Rightarrow> 'r TriggerEvaluator \<Rightarrow> 'r TriggerEvaluator" where
  "note_timers tools order batch ev =
     (if ab_timers_changed batch
      then ev\<lparr>tv_has_timers := (timer_snapshots tools (order (tv_engine ev)) (tv_engine ev) \<noteq> [])\<rparr> else ev)"

definition trigger_context :: "LogSource \<Rightarrow> CharacterContext" where
  "trigger_context source = \<lparr>cx_key = ls_id source, cx_character = ls_character source, cx_server = ls_server source\<rparr>"

definition evaluator_process :: "'r TriggerTools \<Rightarrow> 'r TableOrder \<Rightarrow> RawLogLine \<Rightarrow> Instant \<Rightarrow> 'r TriggerEvaluator \<Rightarrow> ActionBatch \<times> 'r TriggerEvaluator" where
  "evaluator_process tools order raw receipt ev =
     (let (engine, batch) = process_line tools (trigger_context (raw_source raw)) (raw_body raw)
            (map_option ts_original (raw_timestamp raw)) (millis_since (tv_origin ev) receipt) (tv_engine ev)
      in (batch, note_timers tools order batch (ev\<lparr>tv_engine := engine\<rparr>)))"

definition evaluator_advance :: "'r TriggerTools \<Rightarrow> 'r TableOrder \<Rightarrow> Instant \<Rightarrow> 'r TriggerEvaluator \<Rightarrow> ActionBatch \<times> 'r TriggerEvaluator" where
  "evaluator_advance tools order receipt ev =
     (if \<not> tv_has_timers ev then (batch_default, ev)
      else let (engine, batch) = advance tools (order (tv_engine ev)) (millis_since (tv_origin ev) receipt) (tv_engine ev)
           in (batch, note_timers tools order batch (ev\<lparr>tv_engine := engine\<rparr>)))"

definition evaluator_frame :: "'r TriggerTools \<Rightarrow> 'r TableOrder \<Rightarrow> 'r TriggerEvaluator \<Rightarrow> TimerFrame" where
  "evaluator_frame tools order ev =
     \<lparr>tf_origin = tv_origin ev, tf_snapshots = timer_snapshots tools (order (tv_engine ev)) (tv_engine ev)\<rparr>"

definition frame_instant :: "TimerFrame \<Rightarrow> nat \<Rightarrow> Instant" where
  "frame_instant timer_frame engine_millis = tf_origin timer_frame + engine_millis * 1000000"

section \<open>The pipeline\<close>

record LogEnvelope =
  le_sequence :: nat
  le_record_id :: SourceRecordId
  le_observed_at :: Instant
  le_raw :: RawLogLine
  le_events :: "ParsedLogEvent list"
  le_telemetry_changes :: "TelemetryChange list"
  le_trigger_actions :: "ActionEvent list"

record PipelineOutcome =
  pu_envelope :: LogEnvelope
  pu_dps_snapshot :: "EncounterBookSnapshot option"
  pu_diagnostics :: "LogDiagnostic list"
  pu_timers_changed :: bool

record 'r LogPipeline =
  lp_parsers :: ParserRegistry
  lp_telemetry :: TelemetryReducer
  lp_triggers :: "'r TriggerEvaluator"
  lp_combat :: CombatEngine
  lp_origin :: Instant
  lp_next_sequence :: nat
  lp_pending_snapshot :: "EncounterBookSnapshot option"
  lp_pending_urgency :: PublishUrgency
  lp_last_publication :: "MonoTime option"
  lp_last_combat_diagnostic :: "string option"

definition pipeline_new :: "'r CompiledLibrary \<Rightarrow> Instant \<Rightarrow> PolicyError + 'r LogPipeline" where
  "pipeline_new empty_compiled origin = map_sum id (\<lambda>combat.
     \<lparr>lp_parsers = registry_default, lp_telemetry = [], lp_triggers = evaluator_new empty_compiled origin, lp_combat = combat,
      lp_origin = origin, lp_next_sequence = 0, lp_pending_snapshot = None, lp_pending_urgency = NoUrgency,
      lp_last_publication = None, lp_last_combat_diagnostic = None\<rparr>) (engine_new mvp_v1)"

definition accept_combat_update :: "EngineUpdate \<Rightarrow> MonoTime \<Rightarrow> 'r LogPipeline \<Rightarrow> EncounterBookSnapshot option \<times> 'r LogPipeline" where
  "accept_combat_update update now p =
     (let p1 = (case upd_snapshot update of
            None \<Rightarrow> p
          | Some snapshot \<Rightarrow> p\<lparr>lp_pending_snapshot := Some snapshot,
              lp_pending_urgency := (if upd_urgency update = Immediate \<or> lp_pending_urgency p = NoUrgency
                then upd_urgency update else lp_pending_urgency p)\<rparr>);
          due = is_none_or (lp_last_publication p1) (\<lambda>last. 250 \<le> saturating_duration_since now last)
      in if lp_pending_snapshot p1 \<noteq> None \<and> (lp_pending_urgency p1 = Immediate \<or> due)
         then (lp_pending_snapshot p1, p1\<lparr>lp_last_publication := Some now, lp_pending_urgency := NoUrgency, lp_pending_snapshot := None\<rparr>)
         else (None, p1))"

definition feed_combat :: "EngineInput \<Rightarrow> Instant \<Rightarrow> 'r LogPipeline \<Rightarrow> EncounterBookSnapshot option \<times> 'r LogPipeline" where
  "feed_combat input receipt p =
     (let now = millis_since (lp_origin p) receipt; (update, combat) = apply_engine now input (lp_combat p)
      in accept_combat_update update now (p\<lparr>lp_combat := combat\<rparr>))"

definition combat_record :: "SourceRecordId \<Rightarrow> RawLogLine \<Rightarrow> ParsedLogEvent list \<Rightarrow> CombatRecord" where
  "combat_record record_id raw events = \<lparr>rec_id = record_id, rec_source = raw_source raw,
     rec_eq_time = Option.bind (raw_timestamp raw) ts_second, rec_events = map pe_event events\<rparr>"

definition parser_diagnostic :: "ParserFailure \<Rightarrow> LogDiagnostic" where
  "parser_diagnostic failure = \<lparr>ld_kind = ParserDiagnostic, ld_path = None,
     ld_message = pf_parser failure @ '' parser failed: '' @ pf_message failure\<rparr>"

text \<open>The combat engine's last diagnostic is repeated once.\<close>

definition note_combat_diagnostic :: "'r LogPipeline \<Rightarrow> LogDiagnostic list \<times> 'r LogPipeline" where
  "note_combat_diagnostic p =
     (if eng_diagnostics (lp_combat p) = [] then ([], p)
      else let message = last (eng_diagnostics (lp_combat p))
           in if lp_last_combat_diagnostic p = Some message then ([], p)
              else ([\<lparr>ld_kind = CombatDiagnostic, ld_path = None, ld_message = message\<rparr>], p\<lparr>lp_last_combat_diagnostic := Some message\<rparr>))"

definition process_record :: "'r TriggerTools \<Rightarrow> 'r TableOrder \<Rightarrow> SourceRecordId \<Rightarrow> RawLogLine \<Rightarrow> Instant \<Rightarrow> 'r LogPipeline
    \<Rightarrow> PipelineOutcome \<times> 'r LogPipeline" where
  "process_record tools order record_id raw receipt p =
     (let (parsed, parsers) = registry_parse raw (lp_parsers p);
          (changes, telemetry) = telemetry_fold (po_events parsed) (lp_telemetry p);
          (batch, triggers) = evaluator_process tools order raw receipt (lp_triggers p);
          (dps_snapshot, p1) = feed_combat (Record (combat_record record_id raw (po_events parsed))) receipt
            (p\<lparr>lp_parsers := parsers, lp_telemetry := telemetry, lp_triggers := triggers\<rparr>);
          envelope = \<lparr>le_sequence = lp_next_sequence p1, le_record_id = record_id, le_observed_at = receipt, le_raw = raw,
            le_events = po_events parsed, le_telemetry_changes = changes, le_trigger_actions = ab_events batch\<rparr>;
          (combat_diagnostics, p2) = note_combat_diagnostic (p1\<lparr>lp_next_sequence := u64_wrapping_add (lp_next_sequence p1) 1\<rparr>)
      in (\<lparr>pu_envelope = envelope, pu_dps_snapshot = dps_snapshot,
           pu_diagnostics = map parser_diagnostic (po_errors parsed) @ combat_diagnostics,
           pu_timers_changed = ab_timers_changed batch\<rparr>, p2))"

definition replace_trigger_library :: "'r CompiledLibrary \<Rightarrow> 'r LogPipeline \<Rightarrow> 'r LogPipeline" where
  "replace_trigger_library compiled p = p\<lparr>lp_triggers := evaluator_replace compiled (lp_triggers p)\<rparr>"

definition pipeline_advance_triggers :: "'r TriggerTools \<Rightarrow> 'r TableOrder \<Rightarrow> Instant \<Rightarrow> 'r LogPipeline \<Rightarrow> ActionBatch \<times> 'r LogPipeline" where
  "pipeline_advance_triggers tools order receipt p =
     (let (batch, triggers) = evaluator_advance tools order receipt (lp_triggers p) in (batch, p\<lparr>lp_triggers := triggers\<rparr>))"

definition pipeline_register_source :: "LogSource \<Rightarrow> nat \<Rightarrow> Instant \<Rightarrow> 'r LogPipeline \<Rightarrow> EncounterBookSnapshot option \<times> 'r LogPipeline" where
  "pipeline_register_source source generation receipt p = feed_combat (SourceRegistered source generation) receipt p"

definition pipeline_remove_source :: "LogSource \<Rightarrow> Instant \<Rightarrow> 'r LogPipeline \<Rightarrow> EncounterBookSnapshot option \<times> 'r LogPipeline" where
  "pipeline_remove_source source receipt p =
     feed_combat (SourceRemoved (ls_id source)) receipt (p\<lparr>lp_parsers := registry_reset_source source (lp_parsers p)\<rparr>)"

definition pipeline_source_gap :: "LogSource \<Rightarrow> nat \<Rightarrow> GapReason \<Rightarrow> Instant \<Rightarrow> 'r LogPipeline \<Rightarrow> EncounterBookSnapshot option \<times> 'r LogPipeline" where
  "pipeline_source_gap source generation reason receipt p =
     feed_combat (SourceGap (ls_id source) generation reason) receipt (p\<lparr>lp_parsers := registry_reset_source source (lp_parsers p)\<rparr>)"

definition pipeline_stable_eof :: "LogSourceId \<Rightarrow> nat \<Rightarrow> Instant \<Rightarrow> 'r LogPipeline \<Rightarrow> EncounterBookSnapshot option \<times> 'r LogPipeline" where
  "pipeline_stable_eof source generation receipt p = feed_combat (SourceStableEof source generation) receipt p"

definition pipeline_tick :: "Instant \<Rightarrow> 'r LogPipeline \<Rightarrow> EncounterBookSnapshot option \<times> 'r LogPipeline" where
  "pipeline_tick receipt p =
     (let now = millis_since (lp_origin p) receipt; (update, combat) = tick now (lp_combat p)
      in accept_combat_update update now (p\<lparr>lp_combat := combat\<rparr>))"

end
