(* ===== verification/Log_Worker.thy ===== *)
theory Log_Worker
  imports Log_Pipeline
begin

text \<open>
  The log worker (\<^verbatim>\<open>crates/stonemite/src/log_watcher/mod.rs\<close>) and the directory watcher
  (\<^verbatim>\<open>log_watcher/watcher.rs\<close>).

  What the worker shares with the thread that owns the window and with the notification backend
  is one record, and each operation on a lock or an atomic of it is one step. The rendezvous
  channel of wake-ups holds at most one token. What the surroundings answer in one pass of the
  loop (the instants read, the files, the notification backend) is the record \<open>Pass\<close>; the
  answers of \<^verbatim>\<open>PostMessageW\<close> are a list of refusals. Paths are strings and compared as such.
\<close>

section \<open>Wake-ups of the worker\<close>

definition RECONCILIATION_INTERVAL :: nat where "RECONCILIATION_INTERVAL = 500 * 1000000"
definition BACKPRESSURE_RETRY :: nat where "BACKPRESSURE_RETRY = 10 * 1000000"
definition OUTPUT_QUEUE_CAPACITY :: nat where "OUTPUT_QUEUE_CAPACITY = 32"
definition MAX_UI_DRAIN_BATCHES :: nat where "MAX_UI_DRAIN_BATCHES = 8"
definition MAX_PENDING_EVENT_PATHS :: nat where "MAX_PENDING_EVENT_PATHS = 1024"

record DesiredSources =
  ds_logs_dir :: "string option"
  ds_sources :: "LogSource list"

definition desired_default :: DesiredSources where
  "desired_default = \<lparr>ds_logs_dir = None, ds_sources = []\<rparr>"

record WorkerWake =
  ww_signal :: bool
  ww_changed_paths :: "(PathKey, string) btree_map"
  ww_force_reconcile :: bool
  ww_watcher_error :: "string option"
  ww_sources_changed :: bool
  ww_triggers_changed :: bool
  ww_stop :: bool

definition wake_new :: WorkerWake where
  "wake_new = \<lparr>ww_signal = False, ww_changed_paths = [], ww_force_reconcile = False, ww_watcher_error = None,
     ww_sources_changed = False, ww_triggers_changed = False, ww_stop = False\<rparr>"

definition wake_signal :: "WorkerWake \<Rightarrow> WorkerWake" where
  "wake_signal wake = wake\<lparr>ww_signal := True\<rparr>"

definition request_reconciliation :: "WorkerWake \<Rightarrow> WorkerWake" where
  "request_reconciliation wake = wake_signal (wake\<lparr>ww_force_reconcile := True\<rparr>)"

definition record_watcher_error :: "string \<Rightarrow> WorkerWake \<Rightarrow> WorkerWake" where
  "record_watcher_error error wake = wake_signal (wake\<lparr>ww_watcher_error := Some error, ww_force_reconcile := True\<rparr>)"

text \<open>The loop over the paths: the second component says whether it broke off.\<close>

fun insert_paths :: "string list \<Rightarrow> (PathKey, string) btree_map \<Rightarrow> (PathKey, string) btree_map \<times> bool" where
  "insert_paths [] changed = (changed, False)"
| "insert_paths (path # paths) changed =
     (if MAX_PENDING_EVENT_PATHS \<le> length changed then ([], True)
      else insert_paths paths (bm_insert (path_key path) path changed))"

definition overflow_text :: string where
  "overflow_text = ''pending filesystem notification paths overflowed; falling back to reconciliation''"

definition record_paths :: "string list \<Rightarrow> WorkerWake \<Rightarrow> WorkerWake" where
  "record_paths paths wake =
     (let (changed, overflowed) = insert_paths paths (ww_changed_paths wake);
          wake' = wake\<lparr>ww_changed_paths := changed\<rparr>
      in if overflowed then record_watcher_error overflow_text wake' else wake_signal wake')"

section \<open>The directory watcher\<close>

record DirectoryWatcher =
  dw_created :: bool
  dw_watched_dir :: "string option"
  dw_last_failure :: "string option"

definition watcher_new :: DirectoryWatcher where
  "watcher_new = \<lparr>dw_created = False, dw_watched_dir = None, dw_last_failure = None\<rparr>"

text \<open>The errors the notification backend answers with, if any.\<close>

record WatchAnswers =
  wa_create :: "string option"
  wa_watch :: "string \<Rightarrow> string option"

definition report_failure :: "string \<Rightarrow> string \<Rightarrow> DirectoryWatcher \<Rightarrow> LogDiagnostic list \<times> DirectoryWatcher" where
  "report_failure logs_dir failure watcher =
     (if dw_last_failure watcher \<noteq> Some failure then [file_diagnostic WatcherStartup logs_dir failure] else [],
      watcher\<lparr>dw_last_failure := Some failure, dw_watched_dir := None\<rparr>)"

definition watch_created :: "WatchAnswers \<Rightarrow> string \<Rightarrow> DirectoryWatcher \<Rightarrow> LogDiagnostic list \<times> DirectoryWatcher" where
  "watch_created answers logs_dir watcher =
     (case wa_watch answers logs_dir of
        Some error \<Rightarrow> report_failure logs_dir (''could not watch Logs directory: '' @ error) watcher
      | None \<Rightarrow>
          (if dw_last_failure watcher \<noteq> None
           then [file_diagnostic ReconciliationDiagnostic logs_dir ''filesystem watcher recovered''] else [],
           watcher\<lparr>dw_watched_dir := Some logs_dir, dw_last_failure := None\<rparr>))"

definition ensure_directory :: "WatchAnswers \<Rightarrow> string \<Rightarrow> DirectoryWatcher \<Rightarrow> LogDiagnostic list \<times> DirectoryWatcher" where
  "ensure_directory answers logs_dir watcher =
     (if dw_watched_dir watcher = Some logs_dir \<and> dw_created watcher then ([], watcher)
      else let watcher = (if dw_created watcher then watcher\<lparr>dw_watched_dir := None\<rparr> else watcher)
        in if dw_created watcher then watch_created answers logs_dir watcher
           else case wa_create answers of
             Some error \<Rightarrow> report_failure logs_dir (''could not create filesystem watcher: '' @ error) watcher
           | None \<Rightarrow> watch_created answers logs_dir (watcher\<lparr>dw_created := True\<rparr>))"

text \<open>Notifications: the kinds of events of the backend, and the name of the file a path ends in.\<close>

datatype EventKind = AnyEvent | AccessEvent | CreateEvent | ModifyEvent | RemoveEvent | OtherEvent

record NotifyEvent =
  ne_kind :: EventKind
  ne_paths :: "string list"

definition is_change_event :: "EventKind \<Rightarrow> bool" where
  "is_change_event kind \<longleftrightarrow> kind \<in> {AnyEvent, CreateEvent, ModifyEvent, RemoveEvent, OtherEvent}"

definition is_separator :: "char \<Rightarrow> bool" where
  "is_separator c \<longleftrightarrow> c = CHR ''/'' \<or> c = CHR 0x5C"

definition path_file_name :: "string \<Rightarrow> string option" where
  "path_file_name path =
     (let trimmed = rev (dropWhile is_separator (rev path));
          name = rev (takeWhile (\<lambda>c. \<not> is_separator c) (rev trimmed))
      in if name = [] \<or> name = ''.'' \<or> name = ''..'' then None else Some name)"

definition is_eq_log_path :: "string \<Rightarrow> bool" where
  "is_eq_log_path path = is_some_and (path_file_name path) (\<lambda>name.
     let lowercase = to_ascii_lowercase name in starts_with ''eqlog_'' lowercase \<and> ends_with ''.txt'' lowercase)"

definition handle_event :: "string + NotifyEvent \<Rightarrow> WorkerWake \<Rightarrow> WorkerWake" where
  "handle_event result wake =
     (case result of
        Inl error \<Rightarrow> record_watcher_error error wake
      | Inr event \<Rightarrow>
          if is_change_event (ne_kind event)
          then let relevant = filter is_eq_log_path (ne_paths event)
               in if relevant \<noteq> [] then record_paths relevant wake
                  else if ne_paths event = [] then request_reconciliation wake
                  else wake
          else wake)"

section \<open>Wake-ups of the window's thread\<close>

record OutputWake =
  ow_posted :: bool
  ow_messages :: nat
  ow_refusals :: "bool list"

definition output_post :: "OutputWake \<Rightarrow> OutputWake" where
  "output_post wake =
     (if ow_posted wake then wake
      else case ow_refusals wake of
        True # refusals \<Rightarrow> wake\<lparr>ow_posted := False, ow_refusals := refusals\<rparr>
      | refusals \<Rightarrow> wake\<lparr>ow_posted := True, ow_messages := Suc (ow_messages wake), ow_refusals := drop 1 refusals\<rparr>)"

definition output_acknowledge :: "OutputWake \<Rightarrow> OutputWake" where
  "output_acknowledge wake = wake\<lparr>ow_posted := False\<rparr>"

section \<open>Work\<close>

datatype WorkOrigin = NotificationWork | ReconciliationWork bool

fun origin_merge :: "WorkOrigin \<Rightarrow> WorkOrigin \<Rightarrow> WorkOrigin" where
  "origin_merge (ReconciliationWork mine) (ReconciliationWork theirs) = ReconciliationWork (mine \<or> theirs)"
| "origin_merge _ _ = NotificationWork"

fun after_first_read :: "WorkOrigin \<Rightarrow> bool \<Rightarrow> WorkOrigin" where
  "after_first_read (ReconciliationWork reported) emitted = ReconciliationWork (reported \<or> emitted)"
| "after_first_read NotificationWork emitted = NotificationWork"

record WorkItem =
  wi_path :: string
  wi_origin :: WorkOrigin

record LogBatch =
  lb_envelopes :: "LogEnvelope list"
  lb_diagnostics :: "LogDiagnostic list"
  lb_trigger_events :: "ActionEvent list"
  lb_timers_changed :: bool

definition log_batch_default :: LogBatch where
  "log_batch_default = \<lparr>lb_envelopes = [], lb_diagnostics = [], lb_trigger_events = [], lb_timers_changed = False\<rparr>"

text \<open>The library the worker runs with: the trigger tools, the table order and the calendar.\<close>

record 'r WorkerTools =
  wt_tools :: "'r TriggerTools"
  wt_order :: "'r TableOrder"
  wt_civil :: civil_parser

type_synonym 'r WorkState = "LogBatch \<times> EncounterBookSnapshot option \<times> 'r LogPipeline"

definition or_newer :: "'a option \<Rightarrow> 'a option \<Rightarrow> 'a option" where
  "or_newer newer older = (case newer of None \<Rightarrow> older | Some x \<Rightarrow> Some x)"

definition process_tailed :: "'r WorkerTools \<Rightarrow> Instant \<Rightarrow> TailedRecord \<Rightarrow> 'r WorkState \<Rightarrow> 'r WorkState" where
  "process_tailed wt receipt tailed st =
     (let (batch, latest, pipeline) = st;
          (processed, pipeline) = process_record (wt_tools wt) (wt_order wt) (tr_id tailed) (tr_line tailed) receipt pipeline
      in (batch\<lparr>lb_timers_changed := lb_timers_changed batch \<or> pu_timers_changed processed,
            lb_envelopes := lb_envelopes batch @ [pu_envelope processed],
            lb_diagnostics := lb_diagnostics batch @ pu_diagnostics processed\<rparr>,
          or_newer (pu_dps_snapshot processed) latest, pipeline))"

definition process_gap :: "'r WorkerTools \<Rightarrow> Instant \<Rightarrow> SourceGapNotice \<Rightarrow> TailedRecord list \<times> 'r WorkState
    \<Rightarrow> TailedRecord list \<times> 'r WorkState" where
  "process_gap wt receipt gap rs =
     (let (records, st) = rs;
          earlier = (\<lambda>tailed. rid_generation (tr_id tailed) < sg_generation gap);
          (batch, latest, pipeline) = fold (process_tailed wt receipt) (takeWhile earlier records) st;
          (snapshot, pipeline) = pipeline_source_gap (sg_source gap) (sg_generation gap) (sg_reason gap) receipt pipeline
      in (dropWhile earlier records, batch, or_newer snapshot latest, pipeline))"

definition recovered_text :: "nat \<Rightarrow> string" where
  "recovered_text n = ''recovered '' @ nat_to_dec n @ '' complete log record(s) without relying on a filesystem event''"

definition settle_eof :: "WorkOrigin \<Rightarrow> (LogSourceId \<times> nat) option \<Rightarrow> Instant \<Rightarrow> 'r WorkState \<Rightarrow> 'r WorkState" where
  "settle_eof origin stable_eof receipt st =
     (case (origin, stable_eof) of
        (ReconciliationWork _, Some (source, generation)) \<Rightarrow>
          (let (batch, latest, pipeline) = st; (snapshot, pipeline) = pipeline_stable_eof source generation receipt pipeline
           in (batch, or_newer snapshot latest, pipeline))
      | _ \<Rightarrow> st)"

definition process_work_item :: "'r WorkerTools \<Rightarrow> ReadBudget \<Rightarrow> (string \<Rightarrow> OpenAnswer) \<Rightarrow> Instant \<Rightarrow> WorkItem
    \<Rightarrow> LogTailer \<Rightarrow> 'r LogPipeline \<Rightarrow> (LogBatch \<times> bool \<times> EncounterBookSnapshot option) \<times> LogTailer \<times> 'r LogPipeline" where
  "process_work_item wt budget open_file receipt work tailer pipeline =
     (let (tailer, outcome) = read_path (wt_civil wt) budget open_file (wi_path work) tailer;
          start = (log_batch_default\<lparr>lb_diagnostics := ro_diagnostics outcome\<rparr>, None, pipeline);
          (records, st) = fold (process_gap wt receipt) (ro_gaps outcome) (ro_lines outcome, start);
          st = fold (process_tailed wt receipt) records st;
          (batch, latest, pipeline) = settle_eof (wi_origin work) (ro_stable_eof outcome) receipt st;
          batch = (if wi_origin work = ReconciliationWork False \<and> lb_envelopes batch \<noteq> []
            then batch\<lparr>lb_diagnostics := lb_diagnostics batch @ [file_diagnostic ReconciliationDiagnostic (wi_path work)
                   (recovered_text (length (lb_envelopes batch)))]\<rparr>
            else batch)
      in ((batch, ro_more_work outcome, latest), tailer, pipeline))"

section \<open>The worker\<close>

record 'r LogRuntime =
  rt_wake :: WorkerWake
  rt_desired :: DesiredSources
  rt_outputs :: "LogBatch list"
  rt_receiver_alive :: bool
  rt_dps_mailbox :: "EncounterBookSnapshot option"
  rt_timer_mailbox :: "TimerFrame option"
  rt_compiled_triggers :: "'r CompiledLibrary option"
  rt_output_wake :: OutputWake
  lw_watcher :: "DirectoryWatcher option"
  lw_tailer :: LogTailer
  lw_pipeline :: "'r LogPipeline"
  lw_active_desired :: DesiredSources
  lw_ready_order :: "PathKey list"
  lw_ready :: "(PathKey, WorkItem) btree_map"
  lw_deferred_diagnostics :: "LogDiagnostic list"
  lw_pending_output :: "LogBatch option"
  lw_next_reconciliation :: Instant

definition update_wake :: "(WorkerWake \<Rightarrow> WorkerWake) \<Rightarrow> 'r LogRuntime \<Rightarrow> 'r LogRuntime" where
  "update_wake f rt = rt\<lparr>rt_wake := f (rt_wake rt)\<rparr>"

definition post_output :: "'r LogRuntime \<Rightarrow> 'r LogRuntime" where
  "post_output rt = rt\<lparr>rt_output_wake := output_post (rt_output_wake rt)\<rparr>"

definition publish_dps :: "EncounterBookSnapshot option \<Rightarrow> 'r LogRuntime \<Rightarrow> 'r LogRuntime" where
  "publish_dps snapshot rt = (case snapshot of None \<Rightarrow> rt | Some s \<Rightarrow> post_output (rt\<lparr>rt_dps_mailbox := Some s\<rparr>))"

definition publish_timer_frame :: "'r WorkerTools \<Rightarrow> 'r LogRuntime \<Rightarrow> 'r LogRuntime" where
  "publish_timer_frame wt rt = post_output
     (rt\<lparr>rt_timer_mailbox := Some (evaluator_frame (wt_tools wt) (wt_order wt) (lp_triggers (lw_pipeline rt)))\<rparr>)"

definition apply_trigger_library :: "'r WorkerTools \<Rightarrow> 'r LogRuntime \<Rightarrow> 'r LogRuntime" where
  "apply_trigger_library wt rt =
     (if \<not> ww_triggers_changed (rt_wake rt) then rt
      else let rt = update_wake (\<lambda>wake. wake\<lparr>ww_triggers_changed := False\<rparr>) rt
        in case rt_compiled_triggers rt of
          None \<Rightarrow> rt
        | Some compiled \<Rightarrow> publish_timer_frame wt (rt\<lparr>lw_pipeline := replace_trigger_library compiled (lw_pipeline rt)\<rparr>))"

definition advance_triggers :: "'r WorkerTools \<Rightarrow> Instant \<Rightarrow> 'r LogRuntime \<Rightarrow> 'r LogRuntime" where
  "advance_triggers wt now rt =
     (let (batch, pipeline) = pipeline_advance_triggers (wt_tools wt) (wt_order wt) now (lw_pipeline rt);
          rt = rt\<lparr>lw_pipeline := pipeline\<rparr>;
          rt = (if ab_timers_changed batch then publish_timer_frame wt rt else rt)
      in if ab_events batch \<noteq> [] \<or> ab_timers_changed batch
         then let output = unwrap_or (lw_pending_output rt) log_batch_default
              in rt\<lparr>lw_pending_output := Some (output\<lparr>lb_trigger_events := lb_trigger_events output @ ab_events batch,
                   lb_timers_changed := lb_timers_changed output \<or> ab_timers_changed batch\<rparr>)\<rparr>
         else rt)"

text \<open>False when the receiver is gone.\<close>

definition flush_pending_output :: "'r LogRuntime \<Rightarrow> bool \<times> 'r LogRuntime" where
  "flush_pending_output rt =
     (case lw_pending_output rt of
        None \<Rightarrow> (True, rt)
      | Some batch \<Rightarrow>
          let taken = rt\<lparr>lw_pending_output := None\<rparr>
          in if \<not> rt_receiver_alive rt then (False, taken)
             else if length (rt_outputs rt) < OUTPUT_QUEUE_CAPACITY
             then (True, post_output (taken\<lparr>rt_outputs := rt_outputs rt @ [batch]\<rparr>))
             else (True, rt))"

definition defer_diagnostics :: "LogDiagnostic list \<Rightarrow> 'r LogRuntime \<Rightarrow> 'r LogRuntime" where
  "defer_diagnostics diagnostics rt = rt\<lparr>lw_deferred_diagnostics := lw_deferred_diagnostics rt @ diagnostics\<rparr>"

definition ensure_watcher :: "WatchAnswers \<Rightarrow> 'r LogRuntime \<Rightarrow> 'r LogRuntime" where
  "ensure_watcher answers rt =
     (case ds_logs_dir (lw_active_desired rt) of
        None \<Rightarrow> rt
      | Some logs_dir \<Rightarrow>
          let (diagnostics, watcher) = ensure_directory answers logs_dir (unwrap_or (lw_watcher rt) watcher_new)
          in defer_diagnostics diagnostics (rt\<lparr>lw_watcher := Some watcher\<rparr>))"

text \<open>\<open>Path::join\<close> with a relative file name.\<close>

definition path_join :: "string \<Rightarrow> string \<Rightarrow> string" where
  "path_join base name = (if base = [] \<or> is_separator (last base) then base @ name else base @ [CHR 0x5C] @ name)"

definition log_path :: "string \<Rightarrow> LogSource \<Rightarrow> string" where
  "log_path logs_dir source = path_join logs_dir (''eqlog_'' @ ls_character source @ ''_'' @ ls_server source @ ''.txt'')"

definition source_specs :: "DesiredSources \<Rightarrow> SourceSpec list" where
  "source_specs desired =
     (case ds_logs_dir desired of
        None \<Rightarrow> []
      | Some logs_dir \<Rightarrow> map (\<lambda>source. \<lparr>sp_path = log_path logs_dir source, sp_source = source\<rparr>) (ds_sources desired))"

text \<open>One call of the pipeline whose snapshot is published.\<close>

definition call_pipeline :: "('r LogPipeline \<Rightarrow> EncounterBookSnapshot option \<times> 'r LogPipeline) \<Rightarrow> 'r LogRuntime \<Rightarrow> 'r LogRuntime" where
  "call_pipeline f rt = (let (snapshot, pipeline) = f (lw_pipeline rt) in publish_dps snapshot (rt\<lparr>lw_pipeline := pipeline\<rparr>))"

definition apply_sync :: "SyncOutcome \<Rightarrow> Instant \<Rightarrow> 'r LogRuntime \<Rightarrow> 'r LogRuntime" where
  "apply_sync outcome now rt =
     (let rt = fold (\<lambda>source. call_pipeline (pipeline_remove_source source now)) (so_removed_sources outcome) rt;
          rt = fold (\<lambda>gap. call_pipeline (pipeline_source_gap (sg_source gap) (sg_generation gap) (sg_reason gap) now)) (so_gaps outcome) rt;
          rt = fold (\<lambda>(source, generation). call_pipeline (pipeline_register_source source generation now)) (tracked_sources (lw_tailer rt)) rt
      in defer_diagnostics (so_diagnostics outcome) rt)"

definition apply_source_changes :: "(string \<Rightarrow> OpenAnswer) \<Rightarrow> Instant \<Rightarrow> WatchAnswers \<Rightarrow> 'r LogRuntime \<Rightarrow> 'r LogRuntime" where
  "apply_source_changes open_file now answers rt =
     (if \<not> ww_sources_changed (rt_wake rt) then rt
      else let rt = update_wake (\<lambda>wake. wake\<lparr>ww_sources_changed := False\<rparr>) rt;
               replacement = rt_desired rt;
               (tailer, outcome) = sync_sources open_file (source_specs replacement) (lw_tailer rt);
               rt = apply_sync outcome now (rt\<lparr>lw_tailer := tailer\<rparr>)
           in ensure_watcher answers (rt\<lparr>lw_active_desired := replacement\<rparr>))"

definition schedule :: "string \<Rightarrow> WorkOrigin \<Rightarrow> 'r LogRuntime \<Rightarrow> 'r LogRuntime" where
  "schedule path origin rt =
     (let key = path_key path
      in case bm_get (lw_ready rt) key of
           Some existing \<Rightarrow> rt\<lparr>lw_ready := bm_insert key (existing\<lparr>wi_origin := origin_merge (wi_origin existing) origin\<rparr>) (lw_ready rt)\<rparr>
         | None \<Rightarrow> rt\<lparr>lw_ready_order := lw_ready_order rt @ [key],
              lw_ready := bm_insert key \<lparr>wi_path = path, wi_origin = origin\<rparr> (lw_ready rt)\<rparr>)"

fun pop_ready :: "LogTailer \<Rightarrow> PathKey list \<Rightarrow> (PathKey, WorkItem) btree_map
    \<Rightarrow> WorkItem option \<times> PathKey list \<times> (PathKey, WorkItem) btree_map" where
  "pop_ready tailer [] ready = (None, [], ready)"
| "pop_ready tailer (key # order) ready =
     (case bm_get ready key of
        None \<Rightarrow> pop_ready tailer order ready
      | Some work \<Rightarrow>
          if is_tracked (wi_path work) tailer then (Some work, order, bm_remove key ready)
          else pop_ready tailer order (bm_remove key ready))"

definition pop_work :: "'r LogRuntime \<Rightarrow> WorkItem option \<times> 'r LogRuntime" where
  "pop_work rt =
     (let (work, order, ready) = pop_ready (lw_tailer rt) (lw_ready_order rt) (lw_ready rt)
      in (work, rt\<lparr>lw_ready_order := order, lw_ready := ready\<rparr>))"

definition watcher_error_text :: "string \<Rightarrow> string" where
  "watcher_error_text error =
     ''filesystem notification error: '' @ error @ ''; restarting watcher and scheduling reconciliation''"

definition collect_watcher_activity :: "'r LogRuntime \<Rightarrow> 'r LogRuntime" where
  "collect_watcher_activity rt =
     (let rt = (case ww_watcher_error (rt_wake rt) of
            None \<Rightarrow> rt
          | Some error \<Rightarrow> defer_diagnostics [\<lparr>ld_kind = WatcherError, ld_path = ds_logs_dir (lw_active_desired rt),
                ld_message = watcher_error_text error\<rparr>]
              (update_wake (\<lambda>wake. wake\<lparr>ww_watcher_error := None\<rparr>) (rt\<lparr>lw_watcher := None\<rparr>)));
          paths = ww_changed_paths (rt_wake rt);
          rt = update_wake (\<lambda>wake. wake\<lparr>ww_changed_paths := []\<rparr>) rt
      in fold (\<lambda>path rt. if is_tracked path (lw_tailer rt) then schedule path NotificationWork rt else rt) (bm_values paths) rt)"

definition maybe_reconcile :: "Instant \<Rightarrow> Instant \<Rightarrow> WatchAnswers \<Rightarrow> 'r LogRuntime \<Rightarrow> 'r LogRuntime" where
  "maybe_reconcile checked reconciled answers rt =
     (let forced = ww_force_reconcile (rt_wake rt);
          rt = update_wake (\<lambda>wake. wake\<lparr>ww_force_reconcile := False\<rparr>) rt
      in if \<not> forced \<and> checked < lw_next_reconciliation rt then rt
         else let rt = ensure_watcher answers rt;
                  rt = fold (\<lambda>path. schedule path (ReconciliationWork False)) (tracked_paths (lw_tailer rt)) rt
              in rt\<lparr>lw_next_reconciliation := reconciled + RECONCILIATION_INTERVAL\<rparr>)"

text \<open>What one pass of the loop is answered.\<close>

record Pass =
  pa_open_sync :: "string \<Rightarrow> OpenAnswer"
  pa_open_read :: "string \<Rightarrow> OpenAnswer"
  pa_watch_sync :: WatchAnswers
  pa_watch_reconcile :: WatchAnswers
  pa_sync_time :: Instant
  pa_check_time :: Instant
  pa_reconciled_time :: Instant
  pa_tick_time :: Instant
  pa_trigger_time :: Instant
  pa_receipt :: Instant
  pa_idle_time :: Instant

datatype PassEnd = WorkerReturned | WorkerContinues | WorkerWaits nat

definition prepare_pass :: "'r WorkerTools \<Rightarrow> Pass \<Rightarrow> 'r LogRuntime \<Rightarrow> 'r LogRuntime" where
  "prepare_pass wt pass rt =
     (let rt = apply_source_changes (pa_open_sync pass) (pa_sync_time pass) (pa_watch_sync pass) rt;
          rt = apply_trigger_library wt rt;
          rt = collect_watcher_activity rt;
          rt = maybe_reconcile (pa_check_time pass) (pa_reconciled_time pass) (pa_watch_reconcile pass) rt;
          rt = call_pipeline (pipeline_tick (pa_tick_time pass)) rt
      in advance_triggers wt (pa_trigger_time pass) rt)"

definition do_work :: "'r WorkerTools \<Rightarrow> Pass \<Rightarrow> WorkItem \<Rightarrow> 'r LogRuntime \<Rightarrow> 'r LogRuntime" where
  "do_work wt pass work rt =
     (let ((batch, more_work, snapshot), tailer, pipeline) =
            process_work_item wt read_budget_default (pa_open_read pass) (pa_receipt pass) work (lw_tailer rt) (lw_pipeline rt);
          rt = publish_dps snapshot (rt\<lparr>lw_tailer := tailer, lw_pipeline := pipeline\<rparr>);
          rt = (if more_work then schedule (wi_path work) (after_first_read (wi_origin work) (lb_envelopes batch \<noteq> [])) rt else rt);
          rt = (if lb_timers_changed batch then publish_timer_frame wt rt else rt)
      in if lb_envelopes batch \<noteq> [] \<or> lb_diagnostics batch \<noteq> [] then rt\<lparr>lw_pending_output := Some batch\<rparr> else rt)"

definition wait_for_signal :: "nat \<Rightarrow> 'r LogRuntime \<Rightarrow> PassEnd \<times> 'r LogRuntime" where
  "wait_for_signal timeout rt = (WorkerWaits timeout, update_wake (\<lambda>wake. wake\<lparr>ww_signal := False\<rparr>) rt)"

definition worker_pass :: "'r WorkerTools \<Rightarrow> Pass \<Rightarrow> 'r LogRuntime \<Rightarrow> PassEnd \<times> 'r LogRuntime" where
  "worker_pass wt pass rt =
     (if ww_stop (rt_wake rt) then (WorkerReturned, rt)
      else let (alive, rt) = flush_pending_output (prepare_pass wt pass rt)
        in if \<not> alive then (WorkerReturned, rt)
           else if lw_pending_output rt \<noteq> None then wait_for_signal BACKPRESSURE_RETRY rt
           else if lw_deferred_diagnostics rt \<noteq> []
           then (WorkerContinues, rt\<lparr>lw_pending_output := Some (log_batch_default\<lparr>lb_diagnostics := lw_deferred_diagnostics rt\<rparr>),
                   lw_deferred_diagnostics := []\<rparr>)
           else case pop_work rt of
             (Some work, rt) \<Rightarrow> (WorkerContinues, do_work wt pass work rt)
           | (None, rt) \<Rightarrow> wait_for_signal (min (lw_next_reconciliation rt - pa_idle_time pass) 100000000) rt)"

section \<open>The runtime of the window's thread\<close>

type_synonym 'r Runtime = "'r LogRuntime option"

definition runtime_new :: "'r LogPipeline \<Rightarrow> Instant \<Rightarrow> bool list \<Rightarrow> 'r LogRuntime" where
  "runtime_new pipeline now refusals = \<lparr>rt_wake = wake_new, rt_desired = desired_default, rt_outputs = [], rt_receiver_alive = True,
     rt_dps_mailbox = None, rt_timer_mailbox = None, rt_compiled_triggers = None,
     rt_output_wake = \<lparr>ow_posted = False, ow_messages = 0, ow_refusals = refusals\<rparr>,
     lw_watcher = None, lw_tailer = tailer_new, lw_pipeline = pipeline, lw_active_desired = desired_default,
     lw_ready_order = [], lw_ready = [], lw_deferred_diagnostics = [], lw_pending_output = None,
     lw_next_reconciliation = now + RECONCILIATION_INTERVAL\<rparr>"

text \<open>The answer of the spawned thread, and the fresh state if there is none.\<close>

definition log_start :: "string + unit \<Rightarrow> 'r LogRuntime \<Rightarrow> 'r Runtime \<Rightarrow> (string + unit) \<times> 'r Runtime" where
  "log_start spawned fresh runtime =
     (case runtime of
        Some rt \<Rightarrow> (Inr (), Some rt)
      | None \<Rightarrow> (case spawned of
          Inl error \<Rightarrow> (Inl (''could not start EQ log worker: '' @ error), None)
        | Inr _ \<Rightarrow> (Inr (), Some fresh)))"

text \<open>The result of loading and compiling the library is an argument.\<close>

definition reload_trigger_library :: "'r CompiledLibrary \<times> string list \<Rightarrow> 'r Runtime \<Rightarrow> string list \<times> 'r Runtime" where
  "reload_trigger_library loaded runtime =
     (snd loaded, map_option (\<lambda>rt. update_wake (\<lambda>wake. wake_signal (wake\<lparr>ww_triggers_changed := True\<rparr>))
        (rt\<lparr>rt_compiled_triggers := Some (fst loaded)\<rparr>)) runtime)"

definition take_timer_frame :: "'r Runtime \<Rightarrow> TimerFrame option \<times> 'r Runtime" where
  "take_timer_frame runtime = (Option.bind runtime rt_timer_mailbox, map_option (\<lambda>rt. rt\<lparr>rt_timer_mailbox := None\<rparr>) runtime)"

definition take_dps_snapshot :: "'r Runtime \<Rightarrow> EncounterBookSnapshot option \<times> 'r Runtime" where
  "take_dps_snapshot runtime = (Option.bind runtime rt_dps_mailbox, map_option (\<lambda>rt. rt\<lparr>rt_dps_mailbox := None\<rparr>) runtime)"

definition replace_desired :: "string \<Rightarrow> LogSource list \<Rightarrow> 'r LogRuntime \<Rightarrow> 'r LogRuntime" where
  "replace_desired logs_dir sources rt =
     (let replacement = \<lparr>ds_logs_dir = Some logs_dir, ds_sources = sort_key ls_id sources\<rparr>
      in if rt_desired rt = replacement then rt
         else update_wake (\<lambda>wake. wake_signal (wake\<lparr>ww_sources_changed := True\<rparr>)) (rt\<lparr>rt_desired := replacement\<rparr>))"

definition replace_sources :: "string \<Rightarrow> LogSource list \<Rightarrow> 'r Runtime \<Rightarrow> 'r Runtime" where
  "replace_sources logs_dir sources = map_option (replace_desired logs_dir sources)"

definition drain_batches :: "'r LogRuntime \<Rightarrow> LogBatch list \<times> 'r LogRuntime" where
  "drain_batches rt =
     (let rt = rt\<lparr>rt_output_wake := output_acknowledge (rt_output_wake rt)\<rparr>;
          batches = take MAX_UI_DRAIN_BATCHES (rt_outputs rt);
          rt = rt\<lparr>rt_outputs := drop MAX_UI_DRAIN_BATCHES (rt_outputs rt)\<rparr>
      in (batches, if length batches = MAX_UI_DRAIN_BATCHES then post_output rt else rt))"

definition drain_ready :: "'r Runtime \<Rightarrow> LogBatch list \<times> 'r Runtime" where
  "drain_ready runtime =
     (case runtime of None \<Rightarrow> ([], None) | Some rt \<Rightarrow> let (batches, rt) = drain_batches rt in (batches, Some rt))"

text \<open>
  The handler of the wake-up message (\<^verbatim>\<open>overlay/event_loop.rs\<close>): one message is consumed, then
  the batches, the snapshot and the timers are taken.
\<close>

definition drain_log_events :: "'r LogRuntime \<Rightarrow> (LogBatch list \<times> EncounterBookSnapshot option \<times> TimerFrame option) \<times> 'r LogRuntime" where
  "drain_log_events rt =
     (let output_wake = rt_output_wake rt;
          (batches, rt) = drain_batches (rt\<lparr>rt_output_wake := output_wake\<lparr>ow_messages := ow_messages output_wake - 1\<rparr>\<rparr>)
      in ((batches, rt_dps_mailbox rt, rt_timer_mailbox rt), rt\<lparr>rt_dps_mailbox := None, rt_timer_mailbox := None\<rparr>))"

text \<open>The state is taken, the worker told to stop and joined.\<close>

definition request_stop :: "'r LogRuntime \<Rightarrow> 'r LogRuntime" where
  "request_stop = update_wake (\<lambda>wake. wake_signal (wake\<lparr>ww_stop := True\<rparr>))"

definition log_stop :: "'r Runtime \<Rightarrow> 'r LogRuntime option \<times> 'r Runtime" where
  "log_stop runtime = (map_option request_stop runtime, None)"

end
