(* ===== verification/Spec2Isabelle.thy ===== *)
theory Spec2Isabelle
  imports Trusik_Concurrency Combat_Lifetime Trushar_Guarantees Control_Guarantees Trigger_Guarantees Eq_Guarantees Log_Worker
begin

text \<open>
  Stonemite is a companion of the EverQuest client for players who run several clients at once.
  A library injected into each client (Trusik) shows it keys that the program writes into a
  region of shared memory; the program itself broadcasts the player's keys into those regions,
  offers the clients to remote controllers (Trushar), and follows the log files of the clients
  for combat meters, telemetry and triggers. This development models the parts that decide
  something, in the order the data takes through the program, and proves what makes each of
  them correct.

  The parts, their code and their theories:

    \<^item> The vocabulary. Rust_Prelude, Rust_Float and Ordered_Map hold what the crates use of
      Rust: fixed-width integers on natural numbers with their wrap-around or saturation written
      out, strings as lists of bytes, \<open>f64\<close> as far as sums, quotients and comparisons of finite
      values need it, \<open>BTreeMap\<close> as an association list sorted by its keys. Hash maps are such
      lists too wherever their iteration order cannot show; where it shows, it is an argument.

    \<^item> Shared key state, \<^verbatim>\<open>crates/trusik-protocol/src/lib.rs\<close>. Trusik_Protocol models the
      region word by word, every operation in its sequential meaning: key levels, the ring of key
      transitions, sources, the sequence lock, the lease of a writer, heartbeats. Trusik_Concurrency
      gives the lock-free loops a step relation over the accesses to single words and proves what
      survives every interleaving: the lease of the latest writer, the harmlessness of stale
      writers, the snapshots of the sequence-lock reader.

    \<^item> The broadcast engine, \<^verbatim>\<open>crates/stonemite/src/broadcast.rs\<close> with the hotkeys of
      \<^verbatim>\<open>config.rs\<close>. Stonemite_Hotkeys has the names, validation and identity of hotkeys;
      Stonemite_Broadcast the engine's state and all its operations over the regions of its targets;
      Broadcast_Keys the contract between the sets of keys the engine keeps and the regions the
      clients read; Broadcast_Clutch the mouse clutch, its holds and leases.

    \<^item> The control interface, \<^verbatim>\<open>crates/trushar/src/control.rs\<close>. Trushar_Control holds the
      types, texts and validation; Trushar_Memory the in-memory controller; Trushar_Mapper the
      identifiers of clients over time and the keymap pages; Trushar_Guarantees the properties over
      sequences of operations.

    \<^item> The control dispatcher, \<^verbatim>\<open>crates/stonemite/src/control.rs\<close> and
      \<^verbatim>\<open>overlay/control_bridge.rs\<close>. Stonemite_Control runs the commands of remote controllers on
      the broadcast engine; Control_Input says what a sequence of targeted input is meant to do and
      Control_Guarantees that the steps of the bridge do it, and end.

    \<^item> The log library, \<^verbatim>\<open>crates/eqlog\<close>. Eq_Events has the events and records; Eq_Text the
      text operations; Eq_Parsers, Eq_Combat_Parser and Eq_Registry every parser and their
      composition; Eq_Streams runs of many lines and the telemetry reducer; Eq_Guarantees the
      promises to consumers.

    \<^item> The log watcher, \<^verbatim>\<open>crates/stonemite/src/log_watcher\<close>. Log_Tailer turns the
      bytes of growing files into records and Log_Framing proves the framing exact; Log_Pipeline
      feeds a record to every consumer and publishes snapshots; Log_Worker is the worker's loop, its
      queue of paths, its wake-ups and the directory watcher; Log_Guarantees their properties.

    \<^item> The combat meter, \<^verbatim>\<open>crates/eqcombat\<close>. Combat_Model, Combat_State and
      Combat_Metrics hold policy, data, state and arithmetic; Combat_Election the choice of one
      source per participant and the snapshot; Combat_Lifecycle the engine's transitions;
      Combat_Invariants the contract \<open>engine_preserves\<close> of an invariant that every transition keeps,
      interpreted once per invariant; Combat_Snapshot, Combat_Guarantees and Combat_Lifetime the
      properties of published totals, of the ledger and its bounds, and of the life of an encounter,
      which is refined to a state machine of one encounter.

    \<^item> The triggers, \<^verbatim>\<open>crates/eqtrigger\<close>. Trigger_Text has the text side (prefilters,
      substitution, captures); Trigger_Conditions the condition language with its lexer, parser,
      printer and evaluation; Trigger_Model the library of triggers, folders and profiles;
      Trigger_Engine the engine; Trigger_Invariants and Trigger_Guarantees what its operations keep
      and promise.

  How they meet: the log watcher's pipeline feeds one record to the parsers, the telemetry, the
  trigger engine and the combat engine; the control dispatcher calls the broadcast engine, whose
  regions are those of the shared key state. The theories compose along these calls: an
  operation that calls another component calls that component's model.

  How the theories are built: data are records and datatypes with the names of the source (a
  short prefix on fields, a suffix where a name belongs to HOL), operations are functions from
  state to state, errors are values of sums or options, and what the program asks of its
  surroundings (the clock, windows, processes, the file system, the regular expression engine,
  the Unicode tables, chrono's calendar) is an argument of the operation that asks. A locale
  states a contract where several operations or several invariants share one: it is
  interpreted on the code's model in the theory that provides the operations. Reachable states
  are inductive sets over all public operations with any arguments, so that the invariants hold
  whatever the callers do.

  Groups of lemmas: invariants of reachable states (key regions and engine, mouse clutch,
  controller, sequences, combat ledger, timers, work queue); the functional meaning of what is
  shown (election, totals, telemetry, amounts, who listings); refinements of abstract
  specifications (a ring that delivers, a state machine per encounter, a consumer's copy of the
  telemetry, lines of a file); isolation (targets, characters, sources); liveness with explicit
  bounds (sequences and timers end, a lost controller frees the mouse, a quiet encounter
  disappears); round trips (conditions, numbers); and errors (redelivery, dangling routes). Some
  theorems show a defect of the code on a concrete run; the text before each says so.

  Bounds and fuel: loops are structural recursion or functions with a termination proof. The
  lock-free retry loops of the shared region have fuel in the sequential model, where one round
  is enough, which is proved, and none in the interleaved model, where a loop is a cycle of steps.
  The folder walks of trigger libraries carry the number of folders as fuel and are proved to
  find the whole subtree.

  Not modelled, and why: drawing, windows, tray, sound, dialogs, updates and the injected
  library's hooks are sequences of calls into Windows, whose behaviour is not in the source;
  reading and writing configuration and trigger stores is serialization derived by libraries and
  file input and output; the network server of Trushar is an adapter of a web framework onto
  the control interface that is modelled; the importers of foreign trigger formats rest on XML
  and archive libraries; the user interface packages are not Rust. Memory orderings weaker than
  sequential consistency are not modelled.
\<close>

end
